(* ===== verification/Prelude.thy ===== *)
theory Prelude
  imports Main "HOL-Library.Char_ord" "HOL-Library.List_Lexorder"
begin

text \<open>
  Shared vocabulary of the development. A Go \<^verbatim>\<open>string\<close> or \<^verbatim>\<open>[]byte\<close> is a list of bytes, which is
  exactly Isabelle's \<^typ>\<open>string\<close> (a \<^typ>\<open>char\<close> is a byte); the byte order Go uses to compare
  strings is the library's lexicographic order on \<^typ>\<open>string\<close>. A Go \<^verbatim>\<open>(T, error)\<close> result is a sum,
  \<open>Inl\<close> the error. The functions here model what the sources use of Go's
  \<^verbatim>\<open>strings\<close> and \<^verbatim>\<open>strconv\<close> packages, with the lemmas the components share about them.
\<close>

named_theorems codec_simps \<open>rewriting rules of the canonical codec\<close>
named_theorems run_simps \<open>rules that run one reader action\<close>
named_theorems wf_intros \<open>introduction rules for well-formedness predicates\<close>

subsection \<open>Bytes\<close>

abbreviation bv :: "char \<Rightarrow> nat" where
  "bv c \<equiv> of_char c"

lemma bv_less_256 [simp]: "bv c < 256"
  by (metis of_char_mod_256 mod_less_divisor zero_less_numeral)

lemma bv_inj [simp]: "bv c = bv d \<longleftrightarrow> c = d"
  by simp

definition byte :: "nat \<Rightarrow> char" where
  "byte n = char_of n"

lemma bv_byte [simp]: "n < 256 \<Longrightarrow> bv (byte n) = n"
  by (simp add: byte_def)

lemma byte_bv [simp]: "byte (bv c) = c"
  by (simp add: byte_def)

lemma byte_eqI: "bv c = n \<Longrightarrow> c = byte n"
  by auto

definition is_digit :: "char \<Rightarrow> bool" where
  "is_digit c \<longleftrightarrow> 48 \<le> bv c \<and> bv c \<le> 57"

definition is_upper :: "char \<Rightarrow> bool" where
  "is_upper c \<longleftrightarrow> 65 \<le> bv c \<and> bv c \<le> 90"

definition is_lower :: "char \<Rightarrow> bool" where
  "is_lower c \<longleftrightarrow> 97 \<le> bv c \<and> bv c \<le> 122"

subsection \<open>Results\<close>

definition rbind :: "'e + 'a \<Rightarrow> ('a \<Rightarrow> 'e + 'b) \<Rightarrow> 'e + 'b" where
  "rbind x f = (case x of Inl e \<Rightarrow> Inl e | Inr v \<Rightarrow> f v)"

lemma rbind_simps [simp]:
  "rbind (Inl e) f = Inl e"
  "rbind (Inr v) f = f v"
  by (simp_all add: rbind_def)

lemma rbind_eq_Inr [simp]: "rbind x f = Inr w \<longleftrightarrow> (\<exists>v. x = Inr v \<and> f v = Inr w)"
  by (cases x) auto

lemma rbind_eq_Inl: "rbind x f = Inl e \<longleftrightarrow> x = Inl e \<or> (\<exists>v. x = Inr v \<and> f v = Inl e)"
  by (cases x) auto

text \<open>A loop that checks each element and stops at the first error.\<close>

fun check_all :: "('a \<Rightarrow> 'e + unit) \<Rightarrow> 'a list \<Rightarrow> 'e + unit" where
  "check_all f [] = Inr ()"
| "check_all f (x # xs) = (case f x of Inl e \<Rightarrow> Inl e | Inr _ \<Rightarrow> check_all f xs)"

lemma check_all_Inr: "check_all f xs = Inr u \<longleftrightarrow> (\<forall>x\<in>set xs. f x = Inr ())"
  by (induction xs) (auto split: sum.splits)

subsection \<open>The strings package\<close>

definition HasPrefix :: "string \<Rightarrow> string \<Rightarrow> bool" where
  "HasPrefix s p \<longleftrightarrow> take (length p) s = p"

definition HasSuffix :: "string \<Rightarrow> string \<Rightarrow> bool" where
  "HasSuffix s p \<longleftrightarrow> length p \<le> length s \<and> drop (length s - length p) s = p"

lemma HasPrefix_iff: "HasPrefix s p \<longleftrightarrow> (\<exists>r. s = p @ r)"
  unfolding HasPrefix_def by (metis append_eq_conv_conj append_take_drop_id)

lemma HasSuffix_iff: "HasSuffix s p \<longleftrightarrow> (\<exists>r. s = r @ p)"
proof
  assume "HasSuffix s p"
  then have "s = take (length s - length p) s @ p"
    unfolding HasSuffix_def by (metis append_take_drop_id)
  then show "\<exists>r. s = r @ p" ..
qed (auto simp: HasSuffix_def)

text \<open>\<^verbatim>\<open>strings.Join\<close> and \<^verbatim>\<open>strings.Split\<close> with a one-byte separator.\<close>

fun join :: "string \<Rightarrow> string list \<Rightarrow> string" where
  "join sep [] = []"
| "join sep [x] = x"
| "join sep (x # y # xs) = x @ sep @ join sep (y # xs)"

fun split_on :: "char \<Rightarrow> string \<Rightarrow> string list" where
  "split_on d [] = [[]]"
| "split_on d (c # cs) =
     (if c = d then [] # split_on d cs
      else (case split_on d cs of [] \<Rightarrow> [[c]] | w # ws \<Rightarrow> (c # w) # ws))"

lemma split_on_nonempty [simp]: "split_on d s \<noteq> []"
  by (induction s) (auto split: list.splits)

lemma join_split_on: "join [d] (split_on d s) = s"
proof (induction s)
  case Nil
  then show ?case by simp
next
  case (Cons c s)
  obtain w ws where w: "split_on d s = w # ws"
    by (metis list.exhaust split_on_nonempty)
  show ?case
    using Cons w by (cases ws) auto
qed

lemma split_on_notin: "w \<in> set (split_on d s) \<Longrightarrow> d \<notin> set w"
  by (induction s arbitrary: w) (auto split: list.splits if_splits)

lemma split_on_none: "d \<notin> set s \<Longrightarrow> split_on d s = [s]"
  by (induction s) auto

lemma split_on_append: "d \<notin> set w \<Longrightarrow> split_on d (w @ d # s) = w # split_on d s"
  by (induction w) (auto split: list.splits)

text \<open>\<^verbatim>\<open>strings.ToLower\<close> on ASCII text, the only text it is applied to here.\<close>

definition lower_byte :: "char \<Rightarrow> char" where
  "lower_byte c = (if is_upper c then byte (bv c + 32) else c)"

definition ToLower :: "string \<Rightarrow> string" where
  "ToLower s = map lower_byte s"

lemma ToLower_idem [simp]: "ToLower (ToLower s) = ToLower s"
  by (auto simp: ToLower_def lower_byte_def is_upper_def)

subsection \<open>The strconv package\<close>

definition digit_char :: "nat \<Rightarrow> char" where
  "digit_char d = byte (48 + d)"

definition digit_val :: "char \<Rightarrow> nat" where
  "digit_val c = bv c - 48"

lemma digit_char_is_digit [simp]: "d < 10 \<Longrightarrow> is_digit (digit_char d)"
  by (simp add: is_digit_def digit_char_def)

lemma digit_val_char [simp]: "d < 10 \<Longrightarrow> digit_val (digit_char d) = d"
  by (simp add: digit_val_def digit_char_def)

lemma digit_char_val [simp]: "is_digit c \<Longrightarrow> digit_char (digit_val c) = c"
  by (auto simp: is_digit_def digit_char_def digit_val_def)

lemma digit_val_less [simp]: "is_digit c \<Longrightarrow> digit_val c < 10"
  by (auto simp: is_digit_def digit_val_def)

text \<open>\<^verbatim>\<open>FormatUint\<close>, \<^verbatim>\<open>FormatInt\<close> of a non-negative integer and the package's own \<^verbatim>\<open>itoa\<close>.\<close>

fun format_nat :: "nat \<Rightarrow> string" where
  "format_nat n = (if n < 10 then [digit_char n] else format_nat (n div 10) @ [digit_char (n mod 10)])"

declare format_nat.simps [simp del]

text \<open>The value of a decimal digit string, most significant digit first.\<close>

definition dec_val :: "string \<Rightarrow> nat" where
  "dec_val s = foldl (\<lambda>n c. 10 * n + digit_val c) 0 s"

lemma dec_val_snoc: "dec_val (s @ [c]) = 10 * dec_val s + digit_val c"
  by (simp add: dec_val_def)

lemma format_nat_digits: "c \<in> set (format_nat n) \<Longrightarrow> is_digit c"
proof (induction n rule: format_nat.induct)
  case (1 n)
  then show ?case by (subst (asm) (2) format_nat.simps) (auto split: if_splits)
qed

lemma format_nat_nonempty [simp]: "format_nat n \<noteq> []"
  by (subst format_nat.simps) simp

lemma dec_val_format [simp]: "dec_val (format_nat n) = n"
proof (induction n rule: format_nat.induct)
  case (1 n)
  show ?case
  proof (cases "n < 10")
    case True
    then show ?thesis by (subst format_nat.simps) (simp add: dec_val_def)
  next
    case False
    with 1 have "dec_val (format_nat (n div 10) @ [digit_char (n mod 10)]) = n"
      by (simp add: dec_val_snoc)
    with False show ?thesis by (subst format_nat.simps) simp
  qed
qed

lemma format_nat_inj [simp]: "format_nat m = format_nat n \<longleftrightarrow> m = n"
  by (metis dec_val_format)

lemma format_nat_no_leading_zero: "0 < n \<Longrightarrow> hd (format_nat n) \<noteq> digit_char 0"
proof (induction n rule: format_nat.induct)
  case (1 n)
  show ?case
  proof (cases "n < 10")
    case True
    with 1 show ?thesis
      by (subst format_nat.simps) (auto simp: digit_char_def dest: arg_cong [where f = bv])
  next
    case False
    with 1 show ?thesis by (subst format_nat.simps) (simp add: hd_append)
  qed
qed

lemma format_nat_snoc: "0 < m \<Longrightarrow> d < 10 \<Longrightarrow> format_nat (10 * m + d) = format_nat m @ [digit_char d]"
  by (subst format_nat.simps) simp

lemma digit_char_0: "digit_char 0 = CHR ''0''"
proof -
  have "bv (digit_char 0) = bv (CHR ''0'')" by (simp add: digit_char_def)
  then show ?thesis unfolding bv_inj .
qed

lemma format_nat_zero: "format_nat 0 = ''0''"
  by (simp add: format_nat.simps digit_char_0)

lemma digits_canonical:
  "s \<noteq> [] \<Longrightarrow> list_all is_digit s \<Longrightarrow> hd s \<noteq> digit_char 0 \<Longrightarrow> s = format_nat (dec_val s) \<and> 0 < dec_val s"
proof (induction s rule: rev_induct)
  case (snoc c xs)
  have c: "is_digit c" "digit_val c < 10" using snoc.prems by auto
  show ?case
  proof (cases "xs = []")
    case True
    then have "digit_char (digit_val c) \<noteq> digit_char 0" using snoc.prems(3) c by simp
    then have "0 < digit_val c" by (metis gr0I)
    then show ?thesis using True c by (simp add: dec_val_def) (simp add: format_nat.simps)
  next
    case False
    then have "xs = format_nat (dec_val xs) \<and> 0 < dec_val xs" using snoc by auto
    then show ?thesis using c by (simp add: dec_val_snoc format_nat_snoc)
  qed
qed simp

lemma length_format_nat: "length (format_nat n) \<le> k \<longleftrightarrow> n < 10 ^ k \<and> 0 < k"
proof (induction n arbitrary: k rule: format_nat.induct)
  case (1 n)
  show ?case
  proof (cases "n < 10")
    case True
    then show ?thesis
    proof (cases k)
      case (Suc j)
      have "10 * 1 \<le> (10::nat) * 10 ^ j" by (intro mult_le_mono2) simp
      then have "n < 10 ^ k" unfolding Suc power_Suc using True by linarith
      then show ?thesis using True Suc by (subst format_nat.simps) simp
    qed (subst format_nat.simps, simp)
  next
    case False
    then show ?thesis
    proof (cases k)
      case (Suc j)
      have "length (format_nat n) \<le> k \<longleftrightarrow> length (format_nat (n div 10)) \<le> j"
        using False Suc by (subst format_nat.simps) simp
      also have "\<dots> \<longleftrightarrow> n div 10 < 10 ^ j \<and> 0 < j" using 1 False by simp
      also have "\<dots> \<longleftrightarrow> n < 10 ^ k \<and> 0 < k"
        using False Suc by (cases j) (auto simp: div_less_iff_less_mult mult.commute)
      finally show ?thesis .
    qed (subst format_nat.simps, simp)
  qed
qed

end
