(* ===== verification/Codes.thy ===== *)
theory Codes
  imports Prelude
begin

text \<open>
  The closed detail codes, the error value and the retry classification of the wire package
  (\<^verbatim>\<open>internal/tasks/wire/codes.go\<close>, \<^verbatim>\<open>retry.go\<close>, \<^verbatim>\<open>context.go\<close>). An \<^verbatim>\<open>*Error\<close> is the record
  \<open>wire_error\<close>: its code, its location and its no-retry mark; the human-readable message
  is presentation and is not modelled. The error chains that \<^verbatim>\<open>errors.As\<close> and \<^verbatim>\<open>errors.Is\<close> walk are
  the datatype \<open>go_error\<close>. The lemmas show that the classification is total on the closed code
  set and that the no-retry mark survives annotation.
\<close>

subsection \<open>The closed code set\<close>

definition CodeAdjudication :: string where
  "CodeAdjudication = ''ADJUDICATION''"

definition CodeAdoptUnsupportedField :: string where
  "CodeAdoptUnsupportedField = ''ADOPT_UNSUPPORTED_FIELD''"

definition CodeApprovalMissing :: string where
  "CodeApprovalMissing = ''APPROVAL_MISSING''"

definition CodeApprovalRevoked :: string where
  "CodeApprovalRevoked = ''APPROVAL_REVOKED''"

definition CodeAttemptLive :: string where
  "CodeAttemptLive = ''ATTEMPT_LIVE''"

definition CodeBootFenced :: string where
  "CodeBootFenced = ''BOOT_FENCED''"

definition CodeBootTimeout :: string where
  "CodeBootTimeout = ''BOOT_TIMEOUT''"

definition CodeBudgetExceeded :: string where
  "CodeBudgetExceeded = ''BUDGET_EXCEEDED''"

definition CodeBudgetUnknown :: string where
  "CodeBudgetUnknown = ''BUDGET_UNKNOWN''"

definition CodeCapabilityUnavailable :: string where
  "CodeCapabilityUnavailable = ''CAPABILITY_UNAVAILABLE''"

definition CodeCemMissing :: string where
  "CodeCemMissing = ''CEM_MISSING''"

definition CodeCommitNotIntegrated :: string where
  "CodeCommitNotIntegrated = ''COMMIT_NOT_INTEGRATED''"

definition CodeContaminated :: string where
  "CodeContaminated = ''CONTAMINATED''"

definition CodeCoverageUnknown :: string where
  "CodeCoverageUnknown = ''COVERAGE_UNKNOWN''"

definition CodeCutoverInProgress :: string where
  "CodeCutoverInProgress = ''CUTOVER_IN_PROGRESS''"

definition CodeCutoverMissing :: string where
  "CodeCutoverMissing = ''CUTOVER_MISSING''"

definition CodeCycle :: string where
  "CodeCycle = ''CYCLE''"

definition CodeDependencyMissing :: string where
  "CodeDependencyMissing = ''DEPENDENCY_MISSING''"

definition CodeDependencyUnsatisfied :: string where
  "CodeDependencyUnsatisfied = ''DEPENDENCY_UNSATISFIED''"

definition CodeDevelopmentMode :: string where
  "CodeDevelopmentMode = ''DEVELOPMENT_MODE''"

definition CodeDirtyWorktree :: string where
  "CodeDirtyWorktree = ''DIRTY_WORKTREE''"

definition CodeDocsMissing :: string where
  "CodeDocsMissing = ''DOCS_MISSING''"

definition CodeDuplicateID :: string where
  "CodeDuplicateID = ''DUPLICATE_ID''"

definition CodeEffectOwned :: string where
  "CodeEffectOwned = ''EFFECT_OWNED''"

definition CodeEscalationPending :: string where
  "CodeEscalationPending = ''ESCALATION_PENDING''"

definition CodeExternalUnbounded :: string where
  "CodeExternalUnbounded = ''EXTERNAL_UNBOUNDED''"

definition CodeFenced :: string where
  "CodeFenced = ''FENCED''"

definition CodeGateFailed :: string where
  "CodeGateFailed = ''GATE_FAILED''"

definition CodeGateStale :: string where
  "CodeGateStale = ''GATE_STALE''"

definition CodeGateUnknown :: string where
  "CodeGateUnknown = ''GATE_UNKNOWN''"

definition CodeHandoff :: string where
  "CodeHandoff = ''HANDOFF''"

definition CodeIndependenceUnverified :: string where
  "CodeIndependenceUnverified = ''INDEPENDENCE_UNVERIFIED''"

definition CodeIntentBranchMismatch :: string where
  "CodeIntentBranchMismatch = ''INTENT_BRANCH_MISMATCH''"

definition CodeIntentDiverged :: string where
  "CodeIntentDiverged = ''INTENT_DIVERGED''"

definition CodeInvalidPriority :: string where
  "CodeInvalidPriority = ''INVALID_PRIORITY''"

definition CodeJournalForked :: string where
  "CodeJournalForked = ''JOURNAL_FORKED''"

definition CodeJournalSaturated :: string where
  "CodeJournalSaturated = ''JOURNAL_SATURATED''"

definition CodeLimitExceeded :: string where
  "CodeLimitExceeded = ''LIMIT_EXCEEDED''"

definition CodeLockTimeout :: string where
  "CodeLockTimeout = ''LOCK_TIMEOUT''"

definition CodeLoopDetected :: string where
  "CodeLoopDetected = ''LOOP_DETECTED''"

definition CodeMalformed :: string where
  "CodeMalformed = ''MALFORMED''"

definition CodeMilestoneRequired :: string where
  "CodeMilestoneRequired = ''MILESTONE_REQUIRED''"

definition CodeMissingEvidence :: string where
  "CodeMissingEvidence = ''MISSING_EVIDENCE''"

definition CodeMissingGate :: string where
  "CodeMissingGate = ''MISSING_GATE''"

definition CodeNoexec :: string where
  "CodeNoexec = ''NOEXEC''"

definition CodeOcmMissing :: string where
  "CodeOcmMissing = ''OCM_MISSING''"

definition CodeOutOfScope :: string where
  "CodeOutOfScope = ''OUT_OF_SCOPE''"

definition CodePaused :: string where
  "CodePaused = ''PAUSED''"

definition CodePlanStale :: string where
  "CodePlanStale = ''PLAN_STALE''"

definition CodeProvenanceUnverified :: string where
  "CodeProvenanceUnverified = ''PROVENANCE_UNVERIFIED''"

definition CodePoolMemberRecoveryStalled :: string where
  "CodePoolMemberRecoveryStalled = ''POOL_MEMBER_RECOVERY_STALLED''"

definition CodePrerequisiteUnsatisfied :: string where
  "CodePrerequisiteUnsatisfied = ''PREREQUISITE_UNSATISFIED''"

definition CodeQuiescenceUnproved :: string where
  "CodeQuiescenceUnproved = ''QUIESCENCE_UNPROVED''"

definition CodeRedoPending :: string where
  "CodeRedoPending = ''REDO_PENDING''"

definition CodeRequestIDConflict :: string where
  "CodeRequestIDConflict = ''REQUEST_ID_CONFLICT''"

definition CodeResourceCollision :: string where
  "CodeResourceCollision = ''RESOURCE_COLLISION''"

definition CodeResourceExhausted :: string where
  "CodeResourceExhausted = ''RESOURCE_EXHAUSTED''"

definition CodeRestored :: string where
  "CodeRestored = ''RESTORED''"

definition CodeRestoreIncomplete :: string where
  "CodeRestoreIncomplete = ''RESTORE_INCOMPLETE''"

definition CodeRetryExhausted :: string where
  "CodeRetryExhausted = ''RETRY_EXHAUSTED''"

definition CodeReviewIncomplete :: string where
  "CodeReviewIncomplete = ''REVIEW_INCOMPLETE''"

definition CodeReviewRejected :: string where
  "CodeReviewRejected = ''REVIEW_REJECTED''"

definition CodeReviewReturned :: string where
  "CodeReviewReturned = ''REVIEW_RETURNED''"

definition CodeSecretDetected :: string where
  "CodeSecretDetected = ''SECRET_DETECTED''"

definition CodeSignalRefusedIdentity :: string where
  "CodeSignalRefusedIdentity = ''SIGNAL_REFUSED_IDENTITY''"

definition CodeSnapshotMoved :: string where
  "CodeSnapshotMoved = ''SNAPSHOT_MOVED''"

definition CodeStalePolicy :: string where
  "CodeStalePolicy = ''STALE_POLICY''"

definition CodeStaleTicket :: string where
  "CodeStaleTicket = ''STALE_TICKET''"

definition CodeStaleTree :: string where
  "CodeStaleTree = ''STALE_TREE''"

definition CodeSupervisorLost :: string where
  "CodeSupervisorLost = ''SUPERVISOR_LOST''"

definition CodeSurvivors :: string where
  "CodeSurvivors = ''SURVIVORS''"

definition CodeTicketHeld :: string where
  "CodeTicketHeld = ''TICKET_HELD''"

definition CodeTicketState :: string where
  "CodeTicketState = ''TICKET_STATE''"

definition CodeUncertainEffect :: string where
  "CodeUncertainEffect = ''UNCERTAIN_EFFECT''"

definition CodeUninitialized :: string where
  "CodeUninitialized = ''UNINITIALIZED''"

definition CodeUnpublished :: string where
  "CodeUnpublished = ''UNPUBLISHED''"

definition CodeUnresolvedFinding :: string where
  "CodeUnresolvedFinding = ''UNRESOLVED_FINDING''"

definition CodeUnsupported :: string where
  "CodeUnsupported = ''UNSUPPORTED''"

definition CodeUnsupportedFilesystem :: string where
  "CodeUnsupportedFilesystem = ''UNSUPPORTED_FILESYSTEM''"

definition CodeUnsupportedVersion :: string where
  "CodeUnsupportedVersion = ''UNSUPPORTED_VERSION''"

definition Codes :: "string list" where
  "Codes = [CodeAdjudication, CodeAdoptUnsupportedField, CodeApprovalMissing, CodeApprovalRevoked,
     CodeAttemptLive, CodeBootFenced, CodeBootTimeout, CodeBudgetExceeded, CodeBudgetUnknown,
     CodeCapabilityUnavailable, CodeCemMissing, CodeCommitNotIntegrated, CodeContaminated,
     CodeCoverageUnknown, CodeCutoverInProgress, CodeCutoverMissing, CodeCycle,
     CodeDependencyMissing, CodeDependencyUnsatisfied, CodeDevelopmentMode, CodeDirtyWorktree,
     CodeDocsMissing, CodeDuplicateID, CodeEffectOwned, CodeEscalationPending,
     CodeExternalUnbounded, CodeFenced, CodeGateFailed, CodeGateStale, CodeGateUnknown,
     CodeHandoff, CodeIndependenceUnverified, CodeIntentBranchMismatch, CodeIntentDiverged,
     CodeInvalidPriority, CodeJournalForked, CodeJournalSaturated, CodeLimitExceeded,
     CodeLockTimeout, CodeLoopDetected, CodeMalformed, CodeMilestoneRequired,
     CodeMissingEvidence, CodeMissingGate, CodeNoexec, CodeOcmMissing, CodeOutOfScope,
     CodePaused, CodePlanStale, CodePoolMemberRecoveryStalled, CodePrerequisiteUnsatisfied,
     CodeProvenanceUnverified, CodeQuiescenceUnproved, CodeRedoPending, CodeRequestIDConflict,
     CodeResourceCollision, CodeResourceExhausted, CodeRestored, CodeRestoreIncomplete,
     CodeRetryExhausted, CodeReviewIncomplete, CodeReviewRejected, CodeReviewReturned,
     CodeSecretDetected, CodeSignalRefusedIdentity, CodeSnapshotMoved, CodeStalePolicy,
     CodeStaleTicket, CodeStaleTree, CodeSupervisorLost, CodeSurvivors, CodeTicketHeld,
     CodeTicketState, CodeUncertainEffect, CodeUninitialized, CodeUnpublished,
     CodeUnresolvedFinding, CodeUnsupported, CodeUnsupportedFilesystem, CodeUnsupportedVersion]"

definition IsCode :: "string \<Rightarrow> bool" where
  "IsCode s \<longleftrightarrow> s \<in> set Codes"

lemmas code_defs =
  CodeAdjudication_def CodeAdoptUnsupportedField_def CodeApprovalMissing_def
  CodeApprovalRevoked_def CodeAttemptLive_def CodeBootFenced_def CodeBootTimeout_def
  CodeBudgetExceeded_def CodeBudgetUnknown_def CodeCapabilityUnavailable_def CodeCemMissing_def
  CodeCommitNotIntegrated_def CodeContaminated_def CodeCoverageUnknown_def
  CodeCutoverInProgress_def CodeCutoverMissing_def CodeCycle_def CodeDependencyMissing_def
  CodeDependencyUnsatisfied_def CodeDevelopmentMode_def CodeDirtyWorktree_def
  CodeDocsMissing_def CodeDuplicateID_def CodeEffectOwned_def CodeEscalationPending_def
  CodeExternalUnbounded_def CodeFenced_def CodeGateFailed_def CodeGateStale_def
  CodeGateUnknown_def CodeHandoff_def CodeIndependenceUnverified_def
  CodeIntentBranchMismatch_def CodeIntentDiverged_def CodeInvalidPriority_def
  CodeJournalForked_def CodeJournalSaturated_def CodeLimitExceeded_def CodeLockTimeout_def
  CodeLoopDetected_def CodeMalformed_def CodeMilestoneRequired_def CodeMissingEvidence_def
  CodeMissingGate_def CodeNoexec_def CodeOcmMissing_def CodeOutOfScope_def CodePaused_def
  CodePlanStale_def CodeProvenanceUnverified_def CodePoolMemberRecoveryStalled_def
  CodePrerequisiteUnsatisfied_def CodeQuiescenceUnproved_def CodeRedoPending_def
  CodeRequestIDConflict_def CodeResourceCollision_def CodeResourceExhausted_def CodeRestored_def
  CodeRestoreIncomplete_def CodeRetryExhausted_def CodeReviewIncomplete_def
  CodeReviewRejected_def CodeReviewReturned_def CodeSecretDetected_def
  CodeSignalRefusedIdentity_def CodeSnapshotMoved_def CodeStalePolicy_def CodeStaleTicket_def
  CodeStaleTree_def CodeSupervisorLost_def CodeSurvivors_def CodeTicketHeld_def
  CodeTicketState_def CodeUncertainEffect_def CodeUninitialized_def CodeUnpublished_def
  CodeUnresolvedFinding_def CodeUnsupported_def CodeUnsupportedFilesystem_def
  CodeUnsupportedVersion_def

lemma IsCode_members [simp]:
  "IsCode CodeAdjudication"
  "IsCode CodeAdoptUnsupportedField"
  "IsCode CodeApprovalMissing"
  "IsCode CodeApprovalRevoked"
  "IsCode CodeAttemptLive"
  "IsCode CodeBootFenced"
  "IsCode CodeBootTimeout"
  "IsCode CodeBudgetExceeded"
  "IsCode CodeBudgetUnknown"
  "IsCode CodeCapabilityUnavailable"
  "IsCode CodeCemMissing"
  "IsCode CodeCommitNotIntegrated"
  "IsCode CodeContaminated"
  "IsCode CodeCoverageUnknown"
  "IsCode CodeCutoverInProgress"
  "IsCode CodeCutoverMissing"
  "IsCode CodeCycle"
  "IsCode CodeDependencyMissing"
  "IsCode CodeDependencyUnsatisfied"
  "IsCode CodeDevelopmentMode"
  "IsCode CodeDirtyWorktree"
  "IsCode CodeDocsMissing"
  "IsCode CodeDuplicateID"
  "IsCode CodeEffectOwned"
  "IsCode CodeEscalationPending"
  "IsCode CodeExternalUnbounded"
  "IsCode CodeFenced"
  "IsCode CodeGateFailed"
  "IsCode CodeGateStale"
  "IsCode CodeGateUnknown"
  "IsCode CodeHandoff"
  "IsCode CodeIndependenceUnverified"
  "IsCode CodeIntentBranchMismatch"
  "IsCode CodeIntentDiverged"
  "IsCode CodeInvalidPriority"
  "IsCode CodeJournalForked"
  "IsCode CodeJournalSaturated"
  "IsCode CodeLimitExceeded"
  "IsCode CodeLockTimeout"
  "IsCode CodeLoopDetected"
  "IsCode CodeMalformed"
  "IsCode CodeMilestoneRequired"
  "IsCode CodeMissingEvidence"
  "IsCode CodeMissingGate"
  "IsCode CodeNoexec"
  "IsCode CodeOcmMissing"
  "IsCode CodeOutOfScope"
  "IsCode CodePaused"
  "IsCode CodePlanStale"
  "IsCode CodeProvenanceUnverified"
  "IsCode CodePoolMemberRecoveryStalled"
  "IsCode CodePrerequisiteUnsatisfied"
  "IsCode CodeQuiescenceUnproved"
  "IsCode CodeRedoPending"
  "IsCode CodeRequestIDConflict"
  "IsCode CodeResourceCollision"
  "IsCode CodeResourceExhausted"
  "IsCode CodeRestored"
  "IsCode CodeRestoreIncomplete"
  "IsCode CodeRetryExhausted"
  "IsCode CodeReviewIncomplete"
  "IsCode CodeReviewRejected"
  "IsCode CodeReviewReturned"
  "IsCode CodeSecretDetected"
  "IsCode CodeSignalRefusedIdentity"
  "IsCode CodeSnapshotMoved"
  "IsCode CodeStalePolicy"
  "IsCode CodeStaleTicket"
  "IsCode CodeStaleTree"
  "IsCode CodeSupervisorLost"
  "IsCode CodeSurvivors"
  "IsCode CodeTicketHeld"
  "IsCode CodeTicketState"
  "IsCode CodeUncertainEffect"
  "IsCode CodeUninitialized"
  "IsCode CodeUnpublished"
  "IsCode CodeUnresolvedFinding"
  "IsCode CodeUnsupported"
  "IsCode CodeUnsupportedFilesystem"
  "IsCode CodeUnsupportedVersion"
  by (simp_all add: IsCode_def Codes_def)

lemma distinct_Codes: "distinct Codes"
  by code_simp

subsection \<open>Errors\<close>

record wire_error =
  e_Code :: string
  e_Where :: string
  e_NotRetryable :: bool

type_synonym 'a res = "wire_error + 'a"

definition Errorf :: "string \<Rightarrow> string \<Rightarrow> wire_error" where
  "Errorf detailCode loc =
     \<lparr>e_Code = (if IsCode detailCode then detailCode else CodeMalformed),
      e_Where = loc, e_NotRetryable = False\<rparr>"

lemma Errorf_sel [simp]:
  "IsCode c \<Longrightarrow> e_Code (Errorf c w) = c"
  "e_Where (Errorf c w) = w"
  "e_NotRetryable (Errorf c w) = False"
  by (simp_all add: Errorf_def)

lemma IsCode_Errorf [simp]: "IsCode (e_Code (Errorf c w))"
  by (simp add: Errorf_def)

text \<open>
  A Go error: a wire error with the errors its format wrapped, the no-retry wrapper, an operating
  system error number, a context error, or any other error with the errors it unwraps to.
\<close>

datatype errno = EMFILE | ENFILE | ENOSPC | EOTHER

datatype ctx_error = DeadlineExceeded | Canceled

datatype go_error =
    WireError wire_error "go_error list"
  | RetryForbiddenError go_error
  | Errno errno
  | ContextError ctx_error
  | OtherError "go_error list"

text \<open>\<^verbatim>\<open>errors.As\<close> with a target \<^verbatim>\<open>*Error\<close>: the first one in a depth-first walk, with its causes.\<close>

fun first_some :: "'a option list \<Rightarrow> 'a option" where
  "first_some [] = None"
| "first_some (None # xs) = first_some xs"
| "first_some (Some x # xs) = Some x"

fun as_error :: "go_error \<Rightarrow> (wire_error \<times> go_error list) option" where
  "as_error (WireError e cause) = Some (e, cause)"
| "as_error (RetryForbiddenError e) = as_error e"
| "as_error (Errno n) = None"
| "as_error (ContextError c) = None"
| "as_error (OtherError es) = first_some (map as_error es)"

text \<open>\<^verbatim>\<open>errors.As\<close> with a target \<^verbatim>\<open>*retryForbiddenError\<close>: whether the walk meets one.\<close>

fun has_retry_mark :: "go_error \<Rightarrow> bool" where
  "has_retry_mark (WireError e cause) = list_ex has_retry_mark cause"
| "has_retry_mark (RetryForbiddenError e) = True"
| "has_retry_mark (Errno n) = False"
| "has_retry_mark (ContextError c) = False"
| "has_retry_mark (OtherError es) = list_ex has_retry_mark es"

text \<open>\<^verbatim>\<open>errors.Is\<close> with an operating system error number, and with a context error.\<close>

fun is_errno :: "errno \<Rightarrow> go_error \<Rightarrow> bool" where
  "is_errno n (WireError e cause) = list_ex (is_errno n) cause"
| "is_errno n (RetryForbiddenError e) = is_errno n e"
| "is_errno n (Errno m) = (m = n)"
| "is_errno n (ContextError c) = False"
| "is_errno n (OtherError es) = list_ex (is_errno n) es"

fun is_ctx :: "ctx_error \<Rightarrow> go_error \<Rightarrow> bool" where
  "is_ctx c (WireError e cause) = list_ex (is_ctx c) cause"
| "is_ctx c (RetryForbiddenError e) = is_ctx c e"
| "is_ctx c (Errno n) = False"
| "is_ctx c (ContextError d) = (d = c)"
| "is_ctx c (OtherError es) = list_ex (is_ctx c) es"

definition CodeOf :: "go_error option \<Rightarrow> string" where
  "CodeOf err = (case err of
     None \<Rightarrow> []
   | Some e \<Rightarrow>
      (case as_error e of
         Some (w, _) \<Rightarrow> e_Code w
       | None \<Rightarrow>
          if is_errno EMFILE e \<or> is_errno ENFILE e \<or> is_errno ENOSPC e
          then CodeResourceExhausted else CodeMalformed))"

subsection \<open>Retry classification\<close>

text \<open>
  A retryable code names the condition under which a retry can succeed, any other code why it
  cannot; the text is represented by the constant that holds it (\<open>WhenCleared\<close> and \<open>WhyOther\<close>
  stand for a text written in the table itself).
\<close>

datatype retry_condition =
    WhenCleared | WhyFenced | WhyInput | WhyReread | WhyActor | WhyResult | WhyReserved
  | WhyCapacity | WhyDisposition | WhyOther | WhyUnknown

record Retry =
  Retryable :: bool
  Condition :: retry_condition

definition retries :: "(string \<times> Retry) list" where
  "retries = [
     (CodeResourceExhausted, \<lparr>Retryable = True, Condition = WhenCleared\<rparr>),
     (CodeLockTimeout, \<lparr>Retryable = True, Condition = WhenCleared\<rparr>),
     (CodeRedoPending, \<lparr>Retryable = True, Condition = WhenCleared\<rparr>),
     (CodeSnapshotMoved, \<lparr>Retryable = True, Condition = WhenCleared\<rparr>),
     (CodeFenced, \<lparr>Retryable = False, Condition = WhyFenced\<rparr>),
     (CodeBootFenced, \<lparr>Retryable = False, Condition = WhyFenced\<rparr>),
     (CodeSupervisorLost, \<lparr>Retryable = False, Condition = WhyFenced\<rparr>),
     (CodeLimitExceeded, \<lparr>Retryable = False, Condition = WhyOther\<rparr>),
     (CodeJournalSaturated, \<lparr>Retryable = False, Condition = WhyCapacity\<rparr>),
     (CodeUnsupportedFilesystem, \<lparr>Retryable = False, Condition = WhyCapacity\<rparr>),
     (CodeStaleTicket, \<lparr>Retryable = False, Condition = WhyReread\<rparr>),
     (CodeStalePolicy, \<lparr>Retryable = False, Condition = WhyReread\<rparr>),
     (CodeStaleTree, \<lparr>Retryable = False, Condition = WhyReread\<rparr>),
     (CodeCommitNotIntegrated, \<lparr>Retryable = False, Condition = WhyOther\<rparr>),
     (CodeRequestIDConflict, \<lparr>Retryable = False, Condition = WhyInput\<rparr>),
     (CodeMalformed, \<lparr>Retryable = False, Condition = WhyInput\<rparr>),
     (CodeMilestoneRequired, \<lparr>Retryable = False, Condition = WhyInput\<rparr>),
     (CodeSecretDetected, \<lparr>Retryable = False, Condition = WhyInput\<rparr>),
     (CodeProvenanceUnverified, \<lparr>Retryable = False, Condition = WhyInput\<rparr>),
     (CodeDuplicateID, \<lparr>Retryable = False, Condition = WhyInput\<rparr>),
     (CodeCycle, \<lparr>Retryable = False, Condition = WhyInput\<rparr>),
     (CodeDependencyMissing, \<lparr>Retryable = False, Condition = WhyInput\<rparr>),
     (CodeInvalidPriority, \<lparr>Retryable = False, Condition = WhyInput\<rparr>),
     (CodeGateUnknown, \<lparr>Retryable = False, Condition = WhyInput\<rparr>),
     (CodeAdoptUnsupportedField, \<lparr>Retryable = False, Condition = WhyInput\<rparr>),
     (CodeOutOfScope, \<lparr>Retryable = False, Condition = WhyInput\<rparr>),
     (CodeUnsupported, \<lparr>Retryable = False, Condition = WhyInput\<rparr>),
     (CodeUnsupportedVersion, \<lparr>Retryable = False, Condition = WhyInput\<rparr>),
     (CodeIntentBranchMismatch, \<lparr>Retryable = False, Condition = WhyInput\<rparr>),
     (CodeDirtyWorktree, \<lparr>Retryable = False, Condition = WhyInput\<rparr>),
     (CodeAttemptLive, \<lparr>Retryable = False, Condition = WhyActor\<rparr>),
     (CodeResourceCollision, \<lparr>Retryable = False, Condition = WhyActor\<rparr>),
     (CodePaused, \<lparr>Retryable = False, Condition = WhyActor\<rparr>),
     (CodeDependencyUnsatisfied, \<lparr>Retryable = False, Condition = WhyActor\<rparr>),
     (CodeTicketHeld, \<lparr>Retryable = False, Condition = WhyActor\<rparr>),
     (CodeTicketState, \<lparr>Retryable = False, Condition = WhyActor\<rparr>),
     (CodeApprovalMissing, \<lparr>Retryable = False, Condition = WhyActor\<rparr>),
     (CodeApprovalRevoked, \<lparr>Retryable = False, Condition = WhyActor\<rparr>),
     (CodeCutoverMissing, \<lparr>Retryable = False, Condition = WhyActor\<rparr>),
     (CodeQuiescenceUnproved, \<lparr>Retryable = False, Condition = WhyActor\<rparr>),
     (CodeRetryExhausted, \<lparr>Retryable = False, Condition = WhyActor\<rparr>),
     (CodeGateFailed, \<lparr>Retryable = False, Condition = WhyActor\<rparr>),
     (CodeGateStale, \<lparr>Retryable = False, Condition = WhyActor\<rparr>),
     (CodeMissingGate, \<lparr>Retryable = False, Condition = WhyActor\<rparr>),
     (CodeMissingEvidence, \<lparr>Retryable = False, Condition = WhyActor\<rparr>),
     (CodeBudgetUnknown, \<lparr>Retryable = False, Condition = WhyActor\<rparr>),
     (CodeCoverageUnknown, \<lparr>Retryable = False, Condition = WhyActor\<rparr>),
     (CodeExternalUnbounded, \<lparr>Retryable = False, Condition = WhyActor\<rparr>),
     (CodeUninitialized, \<lparr>Retryable = False, Condition = WhyActor\<rparr>),
     (CodeRestoreIncomplete, \<lparr>Retryable = False, Condition = WhyActor\<rparr>),
     (CodeIntentDiverged, \<lparr>Retryable = False, Condition = WhyActor\<rparr>),
     (CodeJournalForked, \<lparr>Retryable = False, Condition = WhyActor\<rparr>),
     (CodeEscalationPending, \<lparr>Retryable = False, Condition = WhyActor\<rparr>),
     (CodePrerequisiteUnsatisfied, \<lparr>Retryable = False, Condition = WhyActor\<rparr>),
     (CodeLoopDetected, \<lparr>Retryable = False, Condition = WhyActor\<rparr>),
     (CodePoolMemberRecoveryStalled, \<lparr>Retryable = False, Condition = WhyActor\<rparr>),
     (CodeNoexec, \<lparr>Retryable = False, Condition = WhyResult\<rparr>),
     (CodeSurvivors, \<lparr>Retryable = False, Condition = WhyResult\<rparr>),
     (CodeHandoff, \<lparr>Retryable = False, Condition = WhyDisposition\<rparr>),
     (CodeReviewReturned, \<lparr>Retryable = False, Condition = WhyDisposition\<rparr>),
     (CodeDevelopmentMode, \<lparr>Retryable = False, Condition = WhyDisposition\<rparr>),
     (CodeAdjudication, \<lparr>Retryable = False, Condition = WhyReserved\<rparr>),
     (CodeBootTimeout, \<lparr>Retryable = False, Condition = WhyReserved\<rparr>),
     (CodeBudgetExceeded, \<lparr>Retryable = False, Condition = WhyReserved\<rparr>),
     (CodeCapabilityUnavailable, \<lparr>Retryable = False, Condition = WhyReserved\<rparr>),
     (CodeCemMissing, \<lparr>Retryable = False, Condition = WhyReserved\<rparr>),
     (CodeContaminated, \<lparr>Retryable = False, Condition = WhyReserved\<rparr>),
     (CodeCutoverInProgress, \<lparr>Retryable = False, Condition = WhyReserved\<rparr>),
     (CodeDocsMissing, \<lparr>Retryable = False, Condition = WhyReserved\<rparr>),
     (CodeEffectOwned, \<lparr>Retryable = False, Condition = WhyReserved\<rparr>),
     (CodeIndependenceUnverified, \<lparr>Retryable = False, Condition = WhyReserved\<rparr>),
     (CodeOcmMissing, \<lparr>Retryable = False, Condition = WhyReserved\<rparr>),
     (CodePlanStale, \<lparr>Retryable = False, Condition = WhyReserved\<rparr>),
     (CodeRestored, \<lparr>Retryable = False, Condition = WhyReserved\<rparr>),
     (CodeReviewIncomplete, \<lparr>Retryable = False, Condition = WhyReserved\<rparr>),
     (CodeReviewRejected, \<lparr>Retryable = False, Condition = WhyReserved\<rparr>),
     (CodeSignalRefusedIdentity, \<lparr>Retryable = False, Condition = WhyReserved\<rparr>),
     (CodeUncertainEffect, \<lparr>Retryable = False, Condition = WhyReserved\<rparr>),
     (CodeUnpublished, \<lparr>Retryable = False, Condition = WhyReserved\<rparr>),
     (CodeUnresolvedFinding, \<lparr>Retryable = False, Condition = WhyReserved\<rparr>)]"

definition RetryOf :: "string \<Rightarrow> Retry" where
  "RetryOf code = (case map_of retries code of
     Some r \<Rightarrow> r
   | None \<Rightarrow> \<lparr>Retryable = False, Condition = WhyUnknown\<rparr>)"

definition OutcomeOK :: string where
  "OutcomeOK = ''OK''"

definition OutcomeRefused :: string where
  "OutcomeRefused = ''REFUSED''"

definition OutcomeError :: string where
  "OutcomeError = ''ERROR''"

definition OutcomeNotRun :: string where
  "OutcomeNotRun = ''NOT_RUN''"

text \<open>\<^verbatim>\<open>ResultRetryable\<close> returns the pair \<open>(retryable, present)\<close>.\<close>

definition ResultRetryable :: "string \<Rightarrow> string list \<Rightarrow> bool \<times> bool" where
  "ResultRetryable outcome codes =
     (if outcome = OutcomeOK \<or> codes = [] then (False, False)
      else if list_ex (\<lambda>c. \<not> Retryable (RetryOf c)) codes then (False, True)
      else (True, True))"

definition WithoutRetry :: "go_error \<Rightarrow> go_error" where
  "WithoutRetry err = (case as_error err of
     None \<Rightarrow>
       if Retryable (RetryOf (CodeOf (Some err))) then RetryForbiddenError err else err
   | Some (e, cause) \<Rightarrow> WireError (e\<lparr>e_NotRetryable := True\<rparr>) cause)"

definition RetryForbidden :: "go_error \<Rightarrow> bool" where
  "RetryForbidden err \<longleftrightarrow> has_retry_mark err \<or>
     (case as_error err of None \<Rightarrow> False | Some (e, _) \<Rightarrow> e_NotRetryable e)"

definition Annotatef :: "go_error \<Rightarrow> string \<Rightarrow> wire_error" where
  "Annotatef cause loc =
     (Errorf (CodeOf (Some cause)) loc)\<lparr>e_NotRetryable := RetryForbidden cause\<rparr>"

definition ContextEnded :: "go_error option \<Rightarrow> string \<Rightarrow> go_error option" where
  "ContextEnded err loc = (case err of
     None \<Rightarrow> None
   | Some e \<Rightarrow>
      if \<not> (is_ctx DeadlineExceeded e \<or> is_ctx Canceled e) then Some e
      else (case as_error e of
          Some w \<Rightarrow> Some e
        | None \<Rightarrow> Some (OtherError [WireError (Errorf CodeLockTimeout loc) [], e])))"

subsection \<open>Lemmas\<close>

lemma set_retries: "set (map fst retries) = set Codes"
proof -
  have "list_all (\<lambda>k. k \<in> set Codes) (map fst retries)"
    by (simp add: retries_def Codes_def)
  moreover have "list_all (\<lambda>k. k \<in> set (map fst retries)) Codes"
    by (simp add: retries_def Codes_def)
  ultimately show ?thesis by (auto simp: list_all_iff)
qed

lemma retries_keys: "map_of retries c = None \<longleftrightarrow> c \<notin> set Codes"
  using set_retries by (simp add: map_of_eq_None_iff)

lemma distinct_retries: "distinct (map fst retries)"
proof (rule card_distinct)
  have "length Codes = length (map fst retries)"
    by (simp add: retries_def Codes_def)
  then show "card (set (map fst retries)) = length (map fst retries)"
    using distinct_card [OF distinct_Codes] by (simp only: set_retries)
qed

lemma retries_true: "filter (\<lambda>p. Retryable (snd p)) retries =
   map (\<lambda>c. (c, \<lparr>Retryable = True, Condition = WhenCleared\<rparr>))
     [CodeResourceExhausted, CodeLockTimeout, CodeRedoPending, CodeSnapshotMoved]"
  by (simp add: retries_def)

lemma Retryable_iff: "Retryable (RetryOf c) \<longleftrightarrow>
    c \<in> {CodeResourceExhausted, CodeLockTimeout, CodeRedoPending, CodeSnapshotMoved}"
proof
  assume r: "Retryable (RetryOf c)"
  then obtain x where x: "map_of retries c = Some x" "Retryable x"
    by (auto simp: RetryOf_def split: option.splits)
  then have "(c, x) \<in> set (filter (\<lambda>p. Retryable (snd p)) retries)"
    by (auto dest: map_of_SomeD)
  then show "c \<in> {CodeResourceExhausted, CodeLockTimeout, CodeRedoPending, CodeSnapshotMoved}"
    unfolding retries_true by auto
next
  assume "c \<in> {CodeResourceExhausted, CodeLockTimeout, CodeRedoPending, CodeSnapshotMoved}"
  then have "(c, \<lparr>Retryable = True, Condition = WhenCleared\<rparr>) \<in> set (filter (\<lambda>p. Retryable (snd p)) retries)"
    unfolding retries_true by auto
  then have "map_of retries c = Some \<lparr>Retryable = True, Condition = WhenCleared\<rparr>"
    using map_of_is_SomeI [OF distinct_retries] by auto
  then show "Retryable (RetryOf c)" by (simp add: RetryOf_def)
qed

text \<open>
  The retry classification is total and exact. Every code of the vocabulary has exactly one
  entry, a code is retryable only if it is one of the four contention codes, and an unknown code
  is never retryable.
\<close>

theorem RetryOf_classification:
  "(Retryable (RetryOf c) \<longleftrightarrow>
      c \<in> {CodeResourceExhausted, CodeLockTimeout, CodeRedoPending, CodeSnapshotMoved}) \<and>
   (Condition (RetryOf c) = WhyUnknown \<longleftrightarrow> \<not> IsCode c) \<and>
   distinct (map fst retries) \<and> set (map fst retries) = set Codes"
proof -
  have known: "Condition r \<noteq> WhyUnknown" if "map_of retries c = Some r" for r
  proof -
    have "list_all (\<lambda>p. Condition (snd p) \<noteq> WhyUnknown) retries"
      by (simp add: retries_def)
    then show ?thesis using map_of_SomeD [OF that] by (auto simp: list_all_iff)
  qed
  have "Condition (RetryOf c) = WhyUnknown \<longleftrightarrow> map_of retries c = None"
    using known by (auto simp: RetryOf_def split: option.splits)
  then show ?thesis
    using Retryable_iff [of c] retries_keys [of c] distinct_retries set_retries
    by (simp add: IsCode_def)
qed

text \<open>
  \<^verbatim>\<open>WithoutRetry\<close> never changes the reported code, and the error it returns is final: it carries
  the mark, or its code is not retryable in the first place. A mark already present is never lost.
\<close>

theorem WithoutRetry_final:
  "CodeOf (Some (WithoutRetry e)) = CodeOf (Some e) \<and>
   (RetryForbidden (WithoutRetry e) \<or> \<not> Retryable (RetryOf (CodeOf (Some (WithoutRetry e))))) \<and>
   (RetryForbidden e \<longrightarrow> RetryForbidden (WithoutRetry e))"
  by (auto simp: WithoutRetry_def RetryForbidden_def CodeOf_def split: option.splits)

text \<open>The witness: a full disk below another error is retryable until it is marked.\<close>

theorem WithoutRetry_final_witness:
  "RetryForbidden (RetryForbiddenError (OtherError [Errno ENOSPC])) \<and>
   RetryForbidden (WithoutRetry (RetryForbiddenError (OtherError [Errno ENOSPC]))) \<and>
   Retryable (RetryOf (CodeOf (Some (OtherError [Errno ENOSPC])))) \<and>
   CodeOf (Some (WithoutRetry (OtherError [Errno ENOSPC]))) = CodeResourceExhausted"
  using WithoutRetry_final [of "RetryForbiddenError (OtherError [Errno ENOSPC])"]
    WithoutRetry_final [of "OtherError [Errno ENOSPC]"]
  by (simp add: RetryForbidden_def CodeOf_def Retryable_iff)

text \<open>
  Restating an error with \<^verbatim>\<open>Annotatef\<close> keeps a code of the vocabulary and the no-retry mark, so
  an annotated error is retryable exactly when its cause is.
\<close>

theorem Annotatef_keeps:
  assumes "IsCode (CodeOf (Some cause))"
  shows "CodeOf (Some (WireError (Annotatef cause loc) [])) = CodeOf (Some cause) \<and>
    RetryForbidden (WireError (Annotatef cause loc) ws) = (RetryForbidden cause \<or> list_ex has_retry_mark ws)"
  using assms by (auto simp: Annotatef_def CodeOf_def RetryForbidden_def)

theorem Annotatef_keeps_witness:
  "RetryForbidden (WireError (Annotatef (WithoutRetry (Errno EMFILE)) ''store'') [])"
proof -
  have "IsCode (CodeOf (Some (WithoutRetry (Errno EMFILE))))"
    by (simp add: CodeOf_def WithoutRetry_def Retryable_iff)
  from Annotatef_keeps [OF this, of "''store''" "[]"] show ?thesis
    by (simp add: CodeOf_def WithoutRetry_def Retryable_iff RetryForbidden_def)
qed

text \<open>
  The \<^verbatim>\<open>retryable\<close> member of a result is present exactly on a non-OK result with a code, and true
  only when every code it carries is retryable.
\<close>

theorem ResultRetryable_spec:
  "ResultRetryable outcome codes =
     (outcome \<noteq> OutcomeOK \<and> codes \<noteq> [] \<and> set codes \<subseteq> {c. Retryable (RetryOf c)},
      outcome \<noteq> OutcomeOK \<and> codes \<noteq> [])"
  by (auto simp: ResultRetryable_def list_ex_iff)

end
