(* ===== verification/Limits.thy ===== *)
theory Limits
  imports Main
begin

text \<open>
  The frozen numeric limits of \<^verbatim>\<open>internal/tasks/wire/limits.go\<close> that the modelled decoders enforce.
\<close>

definition MaxIdentifierBytes :: nat where
  "MaxIdentifierBytes = 128"

definition MaxLabelBytes :: nat where
  "MaxLabelBytes = 64"

definition MaxLocalTokenBytes :: nat where
  "MaxLocalTokenBytes = 64"

definition MaxRequestIDBytes :: nat where
  "MaxRequestIDBytes = 64"

definition MaxPathTextBytes :: nat where
  "MaxPathTextBytes = 4096"

definition MaxTitleBytes :: nat where
  "MaxTitleBytes = 512"

definition MaxBodyBytes :: nat where
  "MaxBodyBytes = 65536"

definition MaxCriterionBytes :: nat where
  "MaxCriterionBytes = 4096"

definition MaxProseBytes :: nat where
  "MaxProseBytes = 65536"

definition MaxTicketFileBytes :: nat where
  "MaxTicketFileBytes = 131072"

definition MaxMutationEnvelopeBytes :: nat where
  "MaxMutationEnvelopeBytes = 262144"

definition MaxOutcomeBytes :: nat where
  "MaxOutcomeBytes = 65536"

definition MaxAcceptanceCriteria :: nat where
  "MaxAcceptanceCriteria = 64"

definition MaxDependencies :: nat where
  "MaxDependencies = 64"

definition MaxRequirementRefs :: nat where
  "MaxRequirementRefs = 64"

definition MaxResources :: nat where
  "MaxResources = 64"

definition MaxApprovals :: nat where
  "MaxApprovals = 64"

definition MaxTouchPaths :: nat where
  "MaxTouchPaths = 256"

definition MaxLabels :: nat where
  "MaxLabels = 32"

definition MaxHolds :: nat where
  "MaxHolds = 16"

definition MaxRequiredGates :: nat where
  "MaxRequiredGates = 32"

definition MaxCapabilities :: nat where
  "MaxCapabilities = 32"

definition MaxTicketsPerQueue :: nat where
  "MaxTicketsPerQueue = 10000"

definition MaxCommandResultBytes :: nat where
  "MaxCommandResultBytes = 65536"

definition MaxListResultBytes :: nat where
  "MaxListResultBytes = 16777216"

definition MaxJSONDepth :: nat where
  "MaxJSONDepth = 24"

definition MaxJSONArrayElements :: nat where
  "MaxJSONArrayElements = 10000"

definition MaxJSONNodes :: nat where
  "MaxJSONNodes = 250000"

definition MaxCountValue :: nat where
  "MaxCountValue = 2147483647"

lemmas limit_defs =
  MaxIdentifierBytes_def MaxLabelBytes_def MaxLocalTokenBytes_def MaxRequestIDBytes_def
  MaxPathTextBytes_def MaxTitleBytes_def MaxBodyBytes_def MaxCriterionBytes_def
  MaxProseBytes_def MaxTicketFileBytes_def MaxMutationEnvelopeBytes_def MaxOutcomeBytes_def
  MaxAcceptanceCriteria_def MaxDependencies_def MaxRequirementRefs_def MaxResources_def
  MaxApprovals_def MaxTouchPaths_def MaxLabels_def MaxHolds_def
  MaxRequiredGates_def MaxCapabilities_def MaxTicketsPerQueue_def MaxCommandResultBytes_def
  MaxListResultBytes_def MaxJSONDepth_def MaxJSONArrayElements_def MaxJSONNodes_def
  MaxCountValue_def

end
