(* ===== verification/Utf8.thy ===== *)
theory Utf8
  imports Prelude
begin

text \<open>
  Go's \<^verbatim>\<open>unicode/utf8\<close> as the wire package uses it: \<^verbatim>\<open>DecodeRuneInString\<close>, \<^verbatim>\<open>Valid\<close> and
  \<^verbatim>\<open>AppendRune\<close>. A rune is a natural number. The lemmas relate decoding and encoding:
  a byte string is valid exactly when it is a concatenation of encoded scalar values.
\<close>

definition RuneError :: nat where
  "RuneError = 0xFFFD"

definition scalar :: "nat \<Rightarrow> bool" where
  "scalar r \<longleftrightarrow> r \<le> 0x10FFFF \<and> \<not> (0xD800 \<le> r \<and> r \<le> 0xDFFF)"

definition in_range :: "nat \<Rightarrow> nat \<Rightarrow> char \<Rightarrow> bool" where
  "in_range lo hi c \<longleftrightarrow> lo \<le> bv c \<and> bv c \<le> hi"

abbreviation cont :: "char \<Rightarrow> bool" where
  "cont c \<equiv> in_range 0x80 0xBF c"

text \<open>The accepted range of the second byte, by the first byte (the table \<^verbatim>\<open>acceptRanges\<close>).\<close>

definition second_ok :: "nat \<Rightarrow> char \<Rightarrow> bool" where
  "second_ok b0 c =
     (if b0 = 0xE0 then in_range 0xA0 0xBF c
      else if b0 = 0xED then in_range 0x80 0x9F c
      else if b0 = 0xF0 then in_range 0x90 0xBF c
      else if b0 = 0xF4 then in_range 0x80 0x8F c
      else cont c)"

text \<open>\<^verbatim>\<open>DecodeRuneInString\<close>: the rune and its width; an encoding error is \<open>(RuneError, 1)\<close>.\<close>

definition decode_rune :: "string \<Rightarrow> nat \<times> nat" where
  "decode_rune s = (case s of
     [] \<Rightarrow> (RuneError, 0)
   | c0 # cs \<Rightarrow>
      (let b0 = bv c0 in
       if b0 < 0x80 then (b0, 1)
       else if b0 < 0xC2 \<or> 0xF4 < b0 then (RuneError, 1)
       else (case cs of
           [] \<Rightarrow> (RuneError, 1)
         | c1 # cs1 \<Rightarrow>
            if \<not> second_ok b0 c1 then (RuneError, 1)
            else if b0 < 0xE0 then ((b0 - 0xC0) * 64 + (bv c1 - 0x80), 2)
            else (case cs1 of
                [] \<Rightarrow> (RuneError, 1)
              | c2 # cs2 \<Rightarrow>
                 if \<not> cont c2 then (RuneError, 1)
                 else if b0 < 0xF0
                      then ((b0 - 0xE0) * 4096 + (bv c1 - 0x80) * 64 + (bv c2 - 0x80), 3)
                 else (case cs2 of
                     [] \<Rightarrow> (RuneError, 1)
                   | c3 # _ \<Rightarrow>
                      if \<not> cont c3 then (RuneError, 1)
                      else ((b0 - 0xF0) * 262144 + (bv c1 - 0x80) * 4096
                              + (bv c2 - 0x80) * 64 + (bv c3 - 0x80), 4))))))"

text \<open>\<^verbatim>\<open>AppendRune\<close>: the encoding of a rune; a surrogate or an out-of-range rune encodes \<^verbatim>\<open>RuneError\<close>.\<close>

definition encode_scalar :: "nat \<Rightarrow> string" where
  "encode_scalar r =
     (if r < 0x80 then [byte r]
      else if r < 0x800 then [byte (0xC0 + r div 64), byte (0x80 + r mod 64)]
      else if r < 0x10000
           then [byte (0xE0 + r div 4096), byte (0x80 + r div 64 mod 64), byte (0x80 + r mod 64)]
      else [byte (0xF0 + r div 262144), byte (0x80 + r div 4096 mod 64),
            byte (0x80 + r div 64 mod 64), byte (0x80 + r mod 64)])"

definition append_rune :: "string \<Rightarrow> nat \<Rightarrow> string" where
  "append_rune out r = out @ encode_scalar (if scalar r then r else RuneError)"

lemma decode_rune_size_pos: "s \<noteq> [] \<Longrightarrow> 0 < snd (decode_rune s)"
  by (auto simp: decode_rune_def Let_def split: list.splits)

lemma decode_rune_size_le: "snd (decode_rune s) \<le> length s"
  by (auto simp: decode_rune_def Let_def split: list.splits)

text \<open>The test both \<^verbatim>\<open>utf8.Valid\<close> and \<^verbatim>\<open>checkHostile\<close> use: an error of width at most one.\<close>

definition bad_rune :: "nat \<times> nat \<Rightarrow> bool" where
  "bad_rune rn \<longleftrightarrow> fst rn = RuneError \<and> snd rn \<le> 1"

function utf8_valid :: "string \<Rightarrow> bool" where
  "utf8_valid s =
     (if s = [] then True
      else if bad_rune (decode_rune s) then False
      else utf8_valid (drop (snd (decode_rune s)) s))"
  by pat_completeness auto
termination
  by (relation "measure length") (simp_all add: decode_rune_size_pos)

declare utf8_valid.simps [simp del]

text \<open>Splitting a number into six-bit groups and putting it together again.\<close>

lemma six_bits_2: "(r::nat) = r div 4096 * 4096 + r div 64 mod 64 * 64 + r mod 64"
proof -
  have "r div 4096 = r div 64 div 64" by (simp add: div_mult2_eq [symmetric])
  then have "r div 64 = r div 4096 * 64 + r div 64 mod 64" by simp
  moreover have "r = r div 64 * 64 + r mod 64" by simp
  ultimately show ?thesis by linarith
qed

lemma six_bits_3: "(r::nat) = r div 262144 * 262144 + r div 4096 mod 64 * 4096 + r div 64 mod 64 * 64 + r mod 64"
proof -
  have "r div 262144 = r div 4096 div 64" by (simp add: div_mult2_eq [symmetric])
  then have "r div 4096 = r div 262144 * 64 + r div 4096 mod 64" by simp
  then show ?thesis using six_bits_2 [of r] by linarith
qed

lemma pack_2:
  assumes "b < 64" "c < 64"
  shows "(a * 4096 + b * 64 + c) div 4096 = (a::nat)" "(a * 4096 + b * 64 + c) div 64 mod 64 = b"
    "(a * 4096 + b * 64 + c) mod 64 = c"
proof -
  have e: "a * 4096 + b * 64 + c = (a * 64 + b) * 64 + c" by simp
  have d: "(a * 4096 + b * 64 + c) div 64 = a * 64 + b" unfolding e using assms by simp
  then show "(a * 4096 + b * 64 + c) div 64 mod 64 = b" using assms by simp
  show "(a * 4096 + b * 64 + c) mod 64 = c" unfolding e by (subst mod_mult_self3) (simp add: assms)
  have "(a * 4096 + b * 64 + c) div 4096 = (a * 4096 + b * 64 + c) div 64 div 64"
    by (simp add: div_mult2_eq [symmetric])
  then show "(a * 4096 + b * 64 + c) div 4096 = a" using d assms by simp
qed

lemma pack_3:
  assumes "b < 64" "c < 64" "d < 64"
  shows "(a * 262144 + b * 4096 + c * 64 + d) div 262144 = (a::nat)"
    "(a * 262144 + b * 4096 + c * 64 + d) div 4096 mod 64 = b"
    "(a * 262144 + b * 4096 + c * 64 + d) div 64 mod 64 = c"
    "(a * 262144 + b * 4096 + c * 64 + d) mod 64 = d"
proof -
  have e: "a * 262144 + b * 4096 + c * 64 + d = (a * 64 + b) * 4096 + c * 64 + d" by simp
  note p = pack_2 [OF assms(2,3), of "a * 64 + b", folded e]
  show "(a * 262144 + b * 4096 + c * 64 + d) div 4096 mod 64 = b" using p(1) assms by simp
  show "(a * 262144 + b * 4096 + c * 64 + d) div 64 mod 64 = c" by (rule p(2))
  show "(a * 262144 + b * 4096 + c * 64 + d) mod 64 = d" by (rule p(3))
  have "(a * 262144 + b * 4096 + c * 64 + d) div 262144 = (a * 262144 + b * 4096 + c * 64 + d) div 4096 div 64"
    by (simp add: div_mult2_eq [symmetric])
  then show "(a * 262144 + b * 4096 + c * 64 + d) div 262144 = a" using p(1) assms by simp
qed

lemma encode_scalar_nonempty [simp]: "encode_scalar r \<noteq> []"
  by (simp add: encode_scalar_def)

lemma decode_rune_ascii: "bv c < 128 \<Longrightarrow> decode_rune (c # s) = (bv c, 1)"
  by (simp add: decode_rune_def)

lemma decode_encode_2: "128 \<le> r \<Longrightarrow> r < 2048 \<Longrightarrow> decode_rune (encode_scalar r @ s) = (r, 2)"
proof -
  assume lim: "128 \<le> r" "r < 2048"
  define a b where ab: "a = r div 64" "b = r mod 64"
  have r: "r = a * 64 + b" unfolding ab by presburger
  have e: "encode_scalar r = [byte (0xC0 + a), byte (0x80 + b)]"
    using lim by (simp add: encode_scalar_def ab)
  have "2 \<le> a" "a < 32" "b < 64" using lim by (auto simp: ab)
  then show ?thesis unfolding e
    by (simp add: decode_rune_def second_ok_def in_range_def) (simp add: r)
qed

lemma decode_encode_3:
  assumes "2048 \<le> r" "r < 65536" "scalar r"
  shows "decode_rune (encode_scalar r @ s) = (r, 3)"
proof -
  define a b c where abc: "a = r div 4096" "b = r div 64 mod 64" "c = r mod 64"
  have r: "r = a * 4096 + b * 64 + c" unfolding abc by (rule six_bits_2)
  have lim: "a < 16" "b < 64" "c < 64" using assms(2) by (auto simp: abc)
  have e: "encode_scalar r = [byte (0xE0 + a), byte (0x80 + b), byte (0x80 + c)]"
    using assms by (simp add: encode_scalar_def abc)
  have "second_ok (0xE0 + a) (byte (0x80 + b))"
    using assms r lim by (auto simp: second_ok_def in_range_def scalar_def)
  then show ?thesis using lim unfolding e
    by (simp add: decode_rune_def in_range_def) (simp add: r)
qed

lemma decode_encode_4:
  assumes "65536 \<le> r" "scalar r"
  shows "decode_rune (encode_scalar r @ s) = (r, 4)"
proof -
  define a b c d where abc: "a = r div 262144" "b = r div 4096 mod 64" "c = r div 64 mod 64" "d = r mod 64"
  have r: "r = a * 262144 + b * 4096 + c * 64 + d" unfolding abc by (rule six_bits_3)
  have lim: "a < 5" "b < 64" "c < 64" "d < 64" using assms(2) by (auto simp: abc scalar_def)
  have e: "encode_scalar r = [byte (0xF0 + a), byte (0x80 + b), byte (0x80 + c), byte (0x80 + d)]"
    using assms by (simp add: encode_scalar_def abc)
  have "second_ok (0xF0 + a) (byte (0x80 + b))"
    using assms r lim by (auto simp: second_ok_def in_range_def scalar_def)
  then show ?thesis using lim unfolding e
    by (simp add: decode_rune_def in_range_def) (simp add: r)
qed

lemma decode_encode:
  assumes "scalar r"
  shows "decode_rune (encode_scalar r @ s) = (r, length (encode_scalar r))"
proof -
  consider "r < 128" | "128 \<le> r" "r < 2048" | "2048 \<le> r" "r < 65536" | "65536 \<le> r" by linarith
  then show ?thesis
  proof cases
    case 1
    then show ?thesis by (simp add: encode_scalar_def decode_rune_ascii)
  next
    case 2
    then show ?thesis by (simp add: decode_encode_2) (simp add: encode_scalar_def)
  next
    case 3
    then show ?thesis using assms by (simp add: decode_encode_3) (simp add: encode_scalar_def)
  next
    case 4
    then show ?thesis using assms by (simp add: decode_encode_4) (simp add: encode_scalar_def)
  qed
qed

lemma encode_scalar_not_bad [simp]: "\<not> bad_rune (r, length (encode_scalar r))"
  by (auto simp: bad_rune_def encode_scalar_def RuneError_def)

text \<open>What a successful decoding step consumed is the encoding of the rune it returned.\<close>

lemma second_ok_cont: "second_ok b c \<Longrightarrow> cont c"
  by (auto simp: second_ok_def in_range_def split: if_splits)

lemma decode_rune_inv:
  assumes "\<not> bad_rune (decode_rune s)"
  shows "scalar (fst (decode_rune s)) \<and>
    s = encode_scalar (fst (decode_rune s)) @ drop (snd (decode_rune s)) s \<and>
    snd (decode_rune s) = length (encode_scalar (fst (decode_rune s)))"
proof -
  obtain c0 cs where s: "s = c0 # cs"
    using assms by (cases s) (auto simp: decode_rune_def bad_rune_def)
  consider (one) "bv c0 < 128"
    | (two) c1 cs1 where "cs = c1 # cs1" "second_ok (bv c0) c1" "0xC2 \<le> bv c0" "bv c0 < 0xE0"
    | (three) c1 c2 cs1 where "cs = c1 # c2 # cs1" "second_ok (bv c0) c1" "cont c2" "0xE0 \<le> bv c0" "bv c0 < 0xF0"
    | (four) c1 c2 c3 cs1 where "cs = c1 # c2 # c3 # cs1" "second_ok (bv c0) c1" "cont c2" "cont c3"
        "0xF0 \<le> bv c0" "bv c0 \<le> 0xF4"
    using assms unfolding s decode_rune_def Let_def bad_rune_def
    by (simp split: list.splits if_splits)
  then show ?thesis
  proof cases
    case one
    then show ?thesis by (simp add: s decode_rune_ascii encode_scalar_def scalar_def)
  next
    case two
    note c1 = second_ok_cont [OF two(2), unfolded in_range_def]
    define a b where ab: "a = bv c0 - 192" "b = bv c1 - 128"
    have c: "c0 = byte (192 + a)" "c1 = byte (128 + b)" using two c1 by (simp_all add: ab)
    have lim: "2 \<le> a" "a < 32" "b < 64" using two c1 unfolding ab by linarith+
    have d: "decode_rune s = (a * 64 + b, 2)"
      using two by (simp add: s decode_rune_def ab)
    show ?thesis unfolding d using lim two(1) by (simp add: s encode_scalar_def scalar_def c)
  next
    case three
    note c1 = second_ok_cont [OF three(2), unfolded in_range_def]
    note c2 = three(3) [unfolded in_range_def]
    define a b c where abc: "a = bv c0 - 224" "b = bv c1 - 128" "c = bv c2 - 128"
    have cc: "c0 = byte (224 + a)" "c1 = byte (128 + b)" "c2 = byte (128 + c)"
      using three c1 c2 by (simp_all add: abc)
    have lim: "a < 16" "b < 64" "c < 64" using three c1 c2 unfolding abc by linarith+
    have d: "decode_rune s = (a * 4096 + b * 64 + c, 3)"
      using three by (simp add: s decode_rune_def abc)
    have r: "2048 \<le> a * 4096 + b * 64 + c" "scalar (a * 4096 + b * 64 + c)"
      using three(2) lim unfolding cc
      by (auto simp: second_ok_def in_range_def scalar_def split: if_splits)
    note q = pack_2 [OF lim(2,3), of a]
    show ?thesis unfolding d using lim three(1) r q by (simp add: s encode_scalar_def cc)
  next
    case four
    note c1 = second_ok_cont [OF four(2), unfolded in_range_def]
    note c2 = four(3) [unfolded in_range_def]
    note c3 = four(4) [unfolded in_range_def]
    define a b c d where abc: "a = bv c0 - 240" "b = bv c1 - 128" "c = bv c2 - 128" "d = bv c3 - 128"
    have cc: "c0 = byte (240 + a)" "c1 = byte (128 + b)" "c2 = byte (128 + c)" "c3 = byte (128 + d)"
      using four c1 c2 c3 by (simp_all add: abc)
    have lim: "a < 5" "b < 64" "c < 64" "d < 64" using four c1 c2 c3 unfolding abc by linarith+
    let ?r = "a * 262144 + b * 4096 + c * 64 + d"
    have de: "decode_rune s = (?r, 4)"
      using four by (simp add: s decode_rune_def abc)
    have r: "65536 \<le> ?r" "scalar ?r"
      using four(2) lim unfolding cc
      by (auto simp: second_ok_def in_range_def scalar_def split: if_splits)
    note q = pack_3 [OF lim(2,3,4), of a]
    show ?thesis unfolding de using lim four(1) r q by (simp add: s encode_scalar_def cc)
  qed
qed

subsection \<open>Valid strings are encoded scalar sequences\<close>

lemma utf8_valid_Nil [simp]: "utf8_valid []"
  by (simp add: utf8_valid.simps)

lemma utf8_valid_encode [simp]: "scalar r \<Longrightarrow> utf8_valid (encode_scalar r @ s) \<longleftrightarrow> utf8_valid s"
  by (subst utf8_valid.simps) (simp add: decode_encode)

lemma utf8_valid_runes: "list_all scalar rs \<Longrightarrow> utf8_valid (concat (map encode_scalar rs) @ s) \<longleftrightarrow> utf8_valid s"
  by (induction rs) auto

lemma utf8_valid_decodes:
  "utf8_valid s \<Longrightarrow> \<exists>rs. list_all scalar rs \<and> s = concat (map encode_scalar rs)"
proof (induction s rule: utf8_valid.induct)
  case (1 s)
  show ?case
  proof (cases "s = []")
    case True
    then show ?thesis by (intro exI [of _ "[]"]) simp
  next
    case False
    with 1 have b: "\<not> bad_rune (decode_rune s)" and v: "utf8_valid (drop (snd (decode_rune s)) s)"
      by (simp_all add: utf8_valid.simps [of s] split: if_splits)
    obtain rs where rs: "list_all scalar rs" "drop (snd (decode_rune s)) s = concat (map encode_scalar rs)"
      using 1(1) [OF False b v] by blast
    with decode_rune_inv [OF b] show ?thesis
      by (intro exI [of _ "fst (decode_rune s) # rs"]) auto
  qed
qed

lemma utf8_valid_iff: "utf8_valid s \<longleftrightarrow> (\<exists>rs. list_all scalar rs \<and> s = concat (map encode_scalar rs))"
  using utf8_valid_decodes utf8_valid_runes [of _ "[]"] by auto

lemma utf8_valid_append: "utf8_valid a \<Longrightarrow> utf8_valid (a @ b) \<longleftrightarrow> utf8_valid b"
  using utf8_valid_decodes utf8_valid_runes by blast

lemma utf8_valid_ascii [simp]: "bv c < 128 \<Longrightarrow> utf8_valid (c # s) \<longleftrightarrow> utf8_valid s"
  by (subst utf8_valid.simps) (simp add: decode_rune_ascii bad_rune_def RuneError_def)

lemma utf8_valid_all_ascii: "\<forall>c\<in>set s. bv c < 128 \<Longrightarrow> utf8_valid s"
  by (induction s) auto

lemma append_rune_valid: "utf8_valid out \<Longrightarrow> utf8_valid (append_rune out r)"
  using utf8_valid_encode [of _ "[]"]
  by (auto simp: append_rune_def utf8_valid_append RuneError_def scalar_def)

end
