(* ===== verification/Values.thy ===== *)
theory Values
  imports Codes Limits Utf8 "HOL-Library.Multiset"
begin

text \<open>
  The JSON value model and its canonical encoding (\<^verbatim>\<open>internal/tasks/wire/value.go\<close> and
  \<^verbatim>\<open>encode.go\<close>). An \<^verbatim>\<open>Object\<close> (its \<^verbatim>\<open>Keys\<close> in insertion order and its \<^verbatim>\<open>Vals\<close> map) is an
  association list in key order; \<open>obj_Set\<close> keeps the keys distinct. A \<^verbatim>\<open>Value\<close> of kind object
  always holds an object here, so the sources' \<^verbatim>\<open>Obj == nil\<close> tests have no separate case.
  The lemmas show that the run-copying string encoder equals the byte-by-byte escape, that the
  encoding ignores member order, and that sorted sets are exactly what the set check accepts.
\<close>

subsection \<open>Values\<close>

datatype val = VNull | VBool bool | VString string | VArray "val list" | VObject "(string \<times> val) list"

type_synonym object = "(string \<times> val) list"

definition kind_string :: "val \<Rightarrow> string" where
  "kind_string v = (case v of
     VNull \<Rightarrow> ''null'' | VBool _ \<Rightarrow> ''boolean'' | VString _ \<Rightarrow> ''string''
   | VArray _ \<Rightarrow> ''array'' | VObject _ \<Rightarrow> ''object'')"

definition NewObject :: object where
  "NewObject = []"

fun obj_Set :: "object \<Rightarrow> string \<Rightarrow> val \<Rightarrow> object" where
  "obj_Set [] k v = [(k, v)]"
| "obj_Set ((j, w) # o1) k v = (if j = k then (j, v) # o1 else (j, w) # obj_Set o1 k v)"

definition obj_Get :: "object \<Rightarrow> string \<Rightarrow> val option" where
  "obj_Get o1 k = map_of o1 k"

definition obj_Keys :: "object \<Rightarrow> string list" where
  "obj_Keys o1 = map fst o1"

definition SortedKeys :: "object \<Rightarrow> string list" where
  "SortedKeys o1 = sort (obj_Keys o1)"

definition StringOrNull :: "string option \<Rightarrow> val" where
  "StringOrNull p = (case p of None \<Rightarrow> VNull | Some s \<Rightarrow> VString s)"

definition Strings :: "string list \<Rightarrow> val" where
  "Strings ss = VArray (map VString ss)"

lemma obj_Get_Set [simp]: "obj_Get (obj_Set o1 k v) j = (if j = k then Some v else obj_Get o1 j)"
  by (induction o1) (auto simp: obj_Get_def)

lemma obj_Keys_Set [simp]:
  "obj_Keys (obj_Set o1 k v) = (if k \<in> set (obj_Keys o1) then obj_Keys o1 else obj_Keys o1 @ [k])"
  unfolding obj_Keys_def by (induction o1) (force split: if_splits)+

lemma obj_Get_None [simp]: "obj_Get o1 k = None \<longleftrightarrow> k \<notin> set (obj_Keys o1)"
  by (simp add: obj_Get_def obj_Keys_def map_of_eq_None_iff)

lemma obj_Set_new: "k \<notin> set (obj_Keys o1) \<Longrightarrow> obj_Set o1 k v = o1 @ [(k, v)]"
  by (induction o1) (auto simp: obj_Keys_def)

lemma distinct_obj_Set: "distinct (obj_Keys o1) \<Longrightarrow> distinct (obj_Keys (obj_Set o1 k v))"
  by simp

subsection \<open>String encoding\<close>

abbreviation quote :: char where "quote \<equiv> CHR 0x22"
abbreviation backslash :: char where "backslash \<equiv> CHR 0x5C"

definition hexdigits :: string where
  "hexdigits = ''0123456789abcdef''"

definition escapedByte :: "char \<Rightarrow> bool" where
  "escapedByte c \<longleftrightarrow> bv c < 0x20 \<or> c = quote \<or> c = backslash"

text \<open>The escape written for one escaped byte.\<close>

definition escape_byte :: "char \<Rightarrow> string" where
  "escape_byte c =
     (if c = quote then [backslash, quote]
      else if c = backslash then [backslash, backslash]
      else if c = CHR 0x09 then [backslash, CHR ''t'']
      else if c = CHR 0x0A then [backslash, CHR ''n'']
      else if c = CHR 0x0D then [backslash, CHR ''r'']
      else [backslash, CHR ''u'', CHR ''0'', CHR ''0'', hexdigits ! (bv c div 16), hexdigits ! (bv c mod 16)])"

text \<open>\<^verbatim>\<open>appendString\<close>: \<open>run\<close> is the pending run \<^verbatim>\<open>s[run:i]\<close> of bytes that are copied as written.\<close>

fun appendString_loop :: "string \<Rightarrow> string \<Rightarrow> string \<Rightarrow> string" where
  "appendString_loop b run [] = b @ run"
| "appendString_loop b run (c # cs) =
     (if \<not> escapedByte c then appendString_loop b (run @ [c]) cs
      else appendString_loop (b @ run @ escape_byte c) [] cs)"

definition appendString :: "string \<Rightarrow> string \<Rightarrow> string" where
  "appendString b s = appendString_loop (b @ [quote]) [] s @ [quote]"

text \<open>The reference: every byte escaped on its own.\<close>

definition enc_byte :: "char \<Rightarrow> string" where
  "enc_byte c = (if escapedByte c then escape_byte c else [c])"

definition enc_str :: "string \<Rightarrow> string" where
  "enc_str s = [quote] @ concat (map enc_byte s) @ [quote]"

lemma appendString_loop_eq: "appendString_loop b run s = b @ run @ concat (map enc_byte s)"
  by (induction b run s rule: appendString_loop.induct) (auto simp: enc_byte_def)

lemma appendString_eq: "appendString b s = b @ enc_str s"
  by (simp add: appendString_def enc_str_def appendString_loop_eq)

subsection \<open>Value encoding\<close>

text \<open>\<^verbatim>\<open>appendValue\<close>: the elements of an array in order, the members of an object in key order.\<close>

fun append_elems :: "(string \<Rightarrow> string) list \<Rightarrow> string \<Rightarrow> string" where
  "append_elems [] b = b"
| "append_elems [f] b = f b"
| "append_elems (f # g # fs) b = append_elems (g # fs) (f b @ '','')"

fun appendValue :: "val \<Rightarrow> string \<Rightarrow> string" where
  "appendValue VNull b = b @ ''null''"
| "appendValue (VBool t) b = (if t then b @ ''true'' else b @ ''false'')"
| "appendValue (VString s) b = appendString b s"
| "appendValue (VArray vs) b = append_elems (map appendValue vs) (b @ ''['') @ '']''"
| "appendValue (VObject kvs) b =
     append_elems
       (map (\<lambda>k b'. the (map_of (map (\<lambda>(k, v). (k, appendValue v)) kvs) k) (appendString b' k @ '':''))
          (SortedKeys kvs))
       (b @ ''{'') @ ''}''"

definition Encode :: "val \<Rightarrow> string" where
  "Encode v = appendValue v []"

definition EncodeFile :: "val \<Rightarrow> string" where
  "EncodeFile v = Encode v @ [CHR 0x0A]"

text \<open>The same encoding without the output buffer, on which the codec lemmas are stated.\<close>

fun enc :: "val \<Rightarrow> string" where
  "enc VNull = ''null''"
| "enc (VBool t) = (if t then ''true'' else ''false'')"
| "enc (VString s) = enc_str s"
| "enc (VArray vs) = ''['' @ join '','' (map enc vs) @ '']''"
| "enc (VObject kvs) =
     ''{'' @ join '',''
       (map (\<lambda>k. enc_str k @ '':'' @ the (map_of (map (\<lambda>(k, v). (k, enc v)) kvs) k)) (SortedKeys kvs)) @ ''}''"

lemma append_elems_join:
  "(\<And>f b. f \<in> set fs \<Longrightarrow> f b = b @ f []) \<Longrightarrow> append_elems fs b = b @ join '','' (map (\<lambda>f. f []) fs)"
proof (induction fs b rule: append_elems.induct)
  case (2 f b)
  have "f b = b @ f []" by (rule 2) simp
  then show ?case by simp
next
  case (3 f g fs b)
  have "append_elems (g # fs) (f b @ '','') = (f b @ '','') @ join '','' (map (\<lambda>f. f []) (g # fs))"
    by (rule 3(1)) (use 3(2) in auto)
  moreover have "f b = b @ f []" by (rule 3(2)) simp
  ultimately show ?case by simp
qed simp

lemma the_map_of_map:
  "k \<in> fst ` set kvs \<Longrightarrow> the (map_of (map (\<lambda>(k, v). (k, f v)) kvs) k) = f (the (map_of kvs k))"
  by (induction kvs) auto

lemma the_map_of_mem: "k \<in> fst ` set kvs \<Longrightarrow> (k, the (map_of kvs k)) \<in> set kvs"
  by (induction kvs) auto

lemma set_SortedKeys [simp]: "set (SortedKeys kvs) = fst ` set kvs"
  by (simp add: SortedKeys_def obj_Keys_def)

lemma appendValue_eq: "appendValue v b = b @ enc v"
proof (induction v arbitrary: b)
  case (VArray vs)
  have "append_elems (map appendValue vs) (b @ ''['') =
      (b @ ''['') @ join '','' (map (\<lambda>f. f []) (map appendValue vs))"
    by (rule append_elems_join) (auto simp: VArray)
  also have "map (\<lambda>f. f []) (map appendValue vs) = map enc vs"
    using VArray by simp
  finally show ?case by simp
next
  case (VObject kvs)
  let ?g = "\<lambda>k b'. the (map_of (map (\<lambda>(k, v). (k, appendValue v)) kvs) k) (appendString b' k @ '':'')"
  let ?e = "\<lambda>k. enc_str k @ '':'' @ the (map_of (map (\<lambda>(k, v). (k, enc v)) kvs) k)"
  have g: "?g k b' = b' @ ?e k" if "k \<in> fst ` set kvs" for k b'
  proof -
    define w where "w = the (map_of kvs k)"
    have "(k, w) \<in> set kvs" unfolding w_def by (rule the_map_of_mem [OF that])
    then have "appendValue w b'' = b'' @ enc w" for b'' by (rule VObject) simp
    then show ?thesis
      unfolding the_map_of_map [OF that] w_def [symmetric] by (simp add: appendString_eq)
  qed
  have "append_elems (map ?g (SortedKeys kvs)) (b @ ''{'') =
      (b @ ''{'') @ join '','' (map (\<lambda>f. f []) (map ?g (SortedKeys kvs)))"
  proof (rule append_elems_join)
    fix f b'
    assume "f \<in> set (map ?g (SortedKeys kvs))"
    then obtain k where k: "k \<in> fst ` set kvs" "f = ?g k" by auto
    show "f b' = b' @ f []" unfolding k(2) g [OF k(1)] by simp
  qed
  also have "map (\<lambda>f. f []) (map ?g (SortedKeys kvs)) = map ?e (SortedKeys kvs)"
    unfolding map_map using g by (intro map_cong) auto
  finally show ?case by simp
qed (simp_all add: appendString_eq)

lemma Encode_eq [codec_simps]: "Encode v = enc v"
  by (simp add: Encode_def appendValue_eq)

lemma EncodeFile_eq [codec_simps]: "EncodeFile v = enc v @ [CHR 0x0A]"
  by (simp add: EncodeFile_def Encode_eq)

subsection \<open>Sets as sorted arrays\<close>

text \<open>
  \<^verbatim>\<open>SortedSet\<close>: a stable sort by canonical bytes, then a scan that refuses two equal neighbours.
  \<^verbatim>\<open>CheckSortedUnique\<close>: a scan that remembers the previous key.
\<close>

fun dup_adjacent :: "string list \<Rightarrow> bool" where
  "dup_adjacent (a # b # ks) \<longleftrightarrow> a = b \<or> dup_adjacent (b # ks)"
| "dup_adjacent ks \<longleftrightarrow> False"

definition SortedSet :: "string \<Rightarrow> val list \<Rightarrow> val res" where
  "SortedSet loc vs =
     (let ks = sort_key fst (map (\<lambda>v. (Encode v, v)) vs)
      in if dup_adjacent (map fst ks) then Inl (Errorf CodeMalformed loc)
         else Inr (VArray (map snd ks)))"

fun unique_loop :: "string \<Rightarrow> string \<Rightarrow> val list \<Rightarrow> unit res" where
  "unique_loop loc prev [] = Inr ()"
| "unique_loop loc prev (v # vs) =
     (let key = Encode v
      in if key = prev then Inl (Errorf CodeMalformed loc)
         else if key < prev then Inl (Errorf CodeMalformed loc)
         else unique_loop loc key vs)"

definition CheckSortedUnique :: "string \<Rightarrow> val list \<Rightarrow> unit res" where
  "CheckSortedUnique loc vs = (case vs of [] \<Rightarrow> Inr () | v # vs' \<Rightarrow> unique_loop loc (Encode v) vs')"

definition val_Equal :: "val \<Rightarrow> val \<Rightarrow> bool" where
  "val_Equal a b \<longleftrightarrow> Encode a = Encode b"

lemma unique_loop_iff: "unique_loop loc p vs = Inr u \<longleftrightarrow> sorted_wrt (<) (p # map Encode vs)"
proof (induction loc p vs rule: unique_loop.induct)
  case (2 loc prev v vs)
  show ?case
  proof (cases "prev < Encode v")
    case True
    then show ?thesis using 2 by (force simp: Let_def)
  next
    case False
    then show ?thesis by (auto simp: Let_def)
  qed
qed simp

lemma CheckSortedUnique_iff [simp]: "CheckSortedUnique loc vs = Inr u \<longleftrightarrow> sorted_wrt (<) (map Encode vs)"
  by (cases vs) (simp_all add: CheckSortedUnique_def unique_loop_iff)

lemma dup_adjacent_sorted: "sorted ks \<Longrightarrow> dup_adjacent ks \<longleftrightarrow> \<not> sorted_wrt (<) ks"
proof (induction ks rule: dup_adjacent.induct)
  case (1 a b ks)
  then show ?case by (auto simp: order.strict_iff_order)
qed auto

lemma sort_key_decorated: "sort_key fst (map (\<lambda>v. (f v, v)) vs) = map (\<lambda>v. (f v, v)) (sort_key f vs)"
proof -
  have "insort_key fst (f v, v) (map (\<lambda>v. (f v, v)) ws) = map (\<lambda>v. (f v, v)) (insort_key f v ws)" for v ws
    by (induction ws) auto
  then show ?thesis by (induction vs) simp_all
qed

lemma SortedSet_eq:
  "SortedSet loc vs = (if distinct (map Encode vs) then Inr (VArray (sort_key Encode vs)) else Inl (Errorf CodeMalformed loc))"
proof -
  let ?ks = "map Encode (sort_key Encode vs)"
  have s: "sorted ?ks" by simp
  have "mset ?ks = mset (map Encode vs)" by (simp add: mset_map)
  then have d: "distinct ?ks \<longleftrightarrow> distinct (map Encode vs)" by (metis mset_eq_imp_distinct_iff)
  have "dup_adjacent ?ks \<longleftrightarrow> \<not> distinct (map Encode vs)"
    using dup_adjacent_sorted [OF s] s d by (simp add: strict_sorted_iff)
  then show ?thesis
    by (simp add: SortedSet_def sort_key_decorated o_def)
qed

text \<open>
  \<^verbatim>\<open>SortedSet\<close> refuses exactly the arrays with two elements of equal canonical bytes; otherwise it
  returns a permutation that \<^verbatim>\<open>CheckSortedUnique\<close> accepts, and it leaves an accepted array unchanged.
\<close>

theorem SortedSet_CheckSortedUnique:
  "(SortedSet loc vs = Inl e \<longleftrightarrow> \<not> distinct (map Encode vs) \<and> e = Errorf CodeMalformed loc) \<and>
   (SortedSet loc vs = Inr w \<longrightarrow>
      (\<exists>ws. w = VArray ws \<and> mset ws = mset vs \<and> CheckSortedUnique loc' ws = Inr ())) \<and>
   (CheckSortedUnique loc' vs = Inr () \<longrightarrow> SortedSet loc vs = Inr (VArray vs))"
proof (intro conjI impI)
  show "SortedSet loc vs = Inl e \<longleftrightarrow> \<not> distinct (map Encode vs) \<and> e = Errorf CodeMalformed loc"
    by (auto simp: SortedSet_eq)
next
  assume "SortedSet loc vs = Inr w"
  then have d: "distinct (map Encode vs)" "w = VArray (sort_key Encode vs)"
    by (auto simp: SortedSet_eq split: if_splits)
  have "mset (map Encode (sort_key Encode vs)) = mset (map Encode vs)" by (simp add: mset_map)
  then have "distinct (map Encode (sort_key Encode vs))" using d(1) by (metis mset_eq_imp_distinct_iff)
  then have "CheckSortedUnique loc' (sort_key Encode vs) = Inr ()"
    by (simp add: strict_sorted_iff)
  then show "\<exists>ws. w = VArray ws \<and> mset ws = mset vs \<and> CheckSortedUnique loc' ws = Inr ()"
    using d(2) by (intro exI [of _ "sort_key Encode vs"]) simp
next
  assume "CheckSortedUnique loc' vs = Inr ()"
  then have "sorted (map Encode vs)" "distinct (map Encode vs)" by (simp_all add: strict_sorted_iff)
  then show "SortedSet loc vs = Inr (VArray vs)" by (simp add: SortedSet_eq sort_key_id_if_sorted)
qed

theorem SortedSet_CheckSortedUnique_witness:
  "SortedSet ''w'' [VString ''b'', VString ''a''] = Inr (VArray [VString ''a'', VString ''b'']) \<and>
   CheckSortedUnique ''w'' [VString ''a'', VString ''b''] = Inr () \<and>
   SortedSet ''w'' [VString ''a'', VString ''b''] = Inr (VArray [VString ''a'', VString ''b''])"
proof -
  have c: "CheckSortedUnique ''w'' [VString ''a'', VString ''b''] = Inr ()" by code_simp
  have s: "SortedSet ''w'' [VString ''b'', VString ''a''] = Inr (VArray [VString ''a'', VString ''b''])" by code_simp
  show ?thesis
    using c s SortedSet_CheckSortedUnique [of "''w''" "[VString ''a'', VString ''b'']" "Errorf CodeMalformed []" VNull "''w''"]
    by blast
qed

end
