(* ===== verification/Primitives.thy ===== *)
theory Primitives
  imports Codes Limits Utf8 "HOL-Library.Word"
begin

text \<open>
  The scalar field kinds of the wire package (\<^verbatim>\<open>internal/tasks/wire/primitives.go\<close> and
  \<^verbatim>\<open>ids.go\<close>): decimal counts and sizes, digests, bounded text without hostile code points, tokens,
  paths, timestamps and the queue and ticket identifiers. Every parser returns the string it
  accepted. The lemmas characterise each accepted language and the numeric round trips.
\<close>

subsection \<open>Decimal strings\<close>

definition decimalShape :: "string \<Rightarrow> bool" where
  "decimalShape s =
     (if s = [] then False
      else if s = ''0'' then True
      else if bv (hd s) < bv (CHR ''1'') \<or> bv (hd s) > bv (CHR ''9'') then False
      else list_all (\<lambda>c. \<not> (bv c < bv (CHR ''0'') \<or> bv c > bv (CHR ''9''))) (tl s))"

text \<open>\<^verbatim>\<open>strconv.ParseUint(s, 10, 64)\<close>: digits only, at least one, below \<open>2 ^ 64\<close>.\<close>

definition ParseUint64 :: "string \<Rightarrow> nat option" where
  "ParseUint64 s = (if s \<noteq> [] \<and> list_all is_digit s \<and> dec_val s < 2 ^ 64 then Some (dec_val s) else None)"

definition ParseCount :: "string \<Rightarrow> string \<Rightarrow> string res" where
  "ParseCount loc s =
     (if \<not> decimalShape s then Inl (Errorf CodeMalformed loc)
      else if length s > 10 then Inl (Errorf CodeMalformed loc)
      else (case ParseUint64 s of
          None \<Rightarrow> Inl (Errorf CodeMalformed loc)
        | Some n \<Rightarrow> if n > MaxCountValue then Inl (Errorf CodeMalformed loc) else Inr s))"

text \<open>
  \<^verbatim>\<open>Count.Int\<close> discards the parse error of \<^verbatim>\<open>strconv.ParseInt(c, 10, 64)\<close>, which then returns 0 on
  a syntax error and the largest value of its type when the number is out of range.
\<close>

definition Count_Int :: "string \<Rightarrow> int" where
  "Count_Int c =
     (let neg = (c \<noteq> [] \<and> hd c = CHR ''-'');
          ds = (if c \<noteq> [] \<and> (hd c = CHR ''-'' \<or> hd c = CHR ''+'') then tl c else c)
      in if ds = [] \<or> \<not> list_all is_digit ds then 0
         else if neg then (if dec_val ds > 2 ^ 63 then - (2 ^ 63) else - int (dec_val ds))
         else if dec_val ds \<ge> 2 ^ 63 then 2 ^ 63 - 1 else int (dec_val ds))"

definition CountOf :: "int \<Rightarrow> string" where
  "CountOf n = format_nat (nat (if n < 0 then 0 else n))"

definition ParseSize :: "string \<Rightarrow> string \<Rightarrow> string res" where
  "ParseSize loc s =
     (if \<not> decimalShape s then Inl (Errorf CodeMalformed loc)
      else if length s > 20 then Inl (Errorf CodeMalformed loc)
      else (case ParseUint64 s of
          None \<Rightarrow> Inl (Errorf CodeMalformed loc)
        | Some _ \<Rightarrow> Inr s))"

text \<open>\<^verbatim>\<open>Size.Uint64\<close> discards the parse error of \<^verbatim>\<open>strconv.ParseUint\<close> in the same way.\<close>

definition Size_Uint64 :: "string \<Rightarrow> nat" where
  "Size_Uint64 s =
     (if s = [] \<or> \<not> list_all is_digit s then 0
      else if dec_val s \<ge> 2 ^ 64 then 2 ^ 64 - 1 else dec_val s)"

definition SizeOf :: "nat \<Rightarrow> string" where
  "SizeOf n = format_nat n"

subsection \<open>Hexadecimal identities\<close>

definition isLowerHex :: "string \<Rightarrow> bool" where
  "isLowerHex s \<longleftrightarrow> list_all (\<lambda>c. is_digit c \<or> (97 \<le> bv c \<and> bv c \<le> 102)) s"

definition ParseDigest :: "string \<Rightarrow> string \<Rightarrow> string res" where
  "ParseDigest loc s =
     (if length s \<noteq> 64 \<or> \<not> isLowerHex s then Inl (Errorf CodeMalformed loc) else Inr s)"

definition ParseOID :: "string \<Rightarrow> string \<Rightarrow> string res" where
  "ParseOID loc s =
     (if (length s \<noteq> 40 \<and> length s \<noteq> 64) \<or> \<not> isLowerHex s then Inl (Errorf CodeMalformed loc) else Inr s)"

subsection \<open>Text without hostile code points\<close>

definition hostileRune :: "nat \<Rightarrow> bool \<Rightarrow> bool" where
  "hostileRune r allowTabLfCr =
     (if r = 0 then True
      else if r = 0x09 \<or> r = 0x0A \<or> r = 0x0D then \<not> allowTabLfCr
      else if r < 0x20 then True
      else if r \<ge> 0x80 \<and> r \<le> 0x9F then True
      else if r = 0xFEFF then True
      else if r = 0x061C \<or> r = 0x200E \<or> r = 0x200F then True
      else if r \<ge> 0x202A \<and> r \<le> 0x202E then True
      else if r \<ge> 0x2066 \<and> r \<le> 0x2069 then True
      else if r \<ge> 0xD800 \<and> r \<le> 0xDFFF then True
      else if r > 0x10FFFF then True
      else False)"

definition plainASCII :: "string \<Rightarrow> bool \<Rightarrow> bool" where
  "plainASCII s allowTabLfCr \<longleftrightarrow>
     list_all (\<lambda>c. \<not> (bv c \<ge> 0x80 \<or>
        bv c < 0x20 \<and> \<not> (allowTabLfCr \<and> (bv c = 0x09 \<or> bv c = 0x0A \<or> bv c = 0x0D)))) s"

text \<open>The rune loop of \<^verbatim>\<open>checkHostile\<close>.\<close>

function hostile_loop :: "string \<Rightarrow> string \<Rightarrow> bool \<Rightarrow> unit res" where
  "hostile_loop s loc allowTabLfCr =
     (if s = [] then Inr ()
      else if bad_rune (decode_rune s) then Inl (Errorf CodeMalformed loc)
      else if hostileRune (fst (decode_rune s)) allowTabLfCr then Inl (Errorf CodeMalformed loc)
      else hostile_loop (drop (snd (decode_rune s)) s) loc allowTabLfCr)"
  by pat_completeness auto
termination
  by (relation "measure (\<lambda>(s, loc, a). length s)") (simp_all add: decode_rune_size_pos)

declare hostile_loop.simps [simp del]

definition checkHostile :: "string \<Rightarrow> string \<Rightarrow> bool \<Rightarrow> unit res" where
  "checkHostile s loc allowTabLfCr =
     (if plainASCII s allowTabLfCr then Inr () else hostile_loop s loc allowTabLfCr)"

definition parseText :: "string \<Rightarrow> string \<Rightarrow> nat \<Rightarrow> nat \<Rightarrow> bool \<Rightarrow> string res" where
  "parseText loc s mn mx allowTabLfCr =
     (if length s < mn then Inl (Errorf CodeMalformed loc)
      else if length s > mx then Inl (Errorf CodeLimitExceeded loc)
      else (case checkHostile s loc allowTabLfCr of Inl e \<Rightarrow> Inl e | Inr _ \<Rightarrow> Inr s))"

definition ParseIdentifier :: "string \<Rightarrow> string \<Rightarrow> string res" where
  "ParseIdentifier loc s = parseText loc s 1 MaxIdentifierBytes False"

definition ParseLabel :: "string \<Rightarrow> string \<Rightarrow> string res" where
  "ParseLabel loc s = parseText loc s 1 MaxLabelBytes False"

definition ParseProse :: "string \<Rightarrow> string \<Rightarrow> nat \<Rightarrow> nat \<Rightarrow> string res" where
  "ParseProse loc s mn mx = parseText loc s mn mx True"

definition ParsePathText :: "string \<Rightarrow> string \<Rightarrow> string res" where
  "ParsePathText loc s =
     (if length s < 1 then Inl (Errorf CodeMalformed loc)
      else if length s > MaxPathTextBytes then Inl (Errorf CodeLimitExceeded loc)
      else (case checkHostile s loc False of
          Inl e \<Rightarrow> Inl e
        | Inr _ \<Rightarrow> if hd s \<noteq> CHR ''/'' then Inl (Errorf CodeMalformed loc) else Inr s))"

subsection \<open>Tokens and paths\<close>

definition isTokenByte :: "char \<Rightarrow> bool \<Rightarrow> bool" where
  "isTokenByte c first =
     (if is_upper c \<or> is_lower c \<or> is_digit c then True
      else if first then False
      else c = CHR ''.'' \<or> c = CHR ''_'' \<or> c = CHR ''-'')"

definition ParseToken :: "string \<Rightarrow> string \<Rightarrow> nat \<Rightarrow> string res" where
  "ParseToken loc s mx =
     (if s = [] then Inl (Errorf CodeMalformed loc)
      else if length s > mx then Inl (Errorf CodeLimitExceeded loc)
      else if isTokenByte (hd s) True \<and> list_all (\<lambda>c. isTokenByte c False) (tl s) then Inr s
      else Inl (Errorf CodeMalformed loc))"

definition FoldToken :: "string \<Rightarrow> string" where
  "FoldToken s = ToLower s"

definition ParsePath :: "string \<Rightarrow> string \<Rightarrow> string res" where
  "ParsePath loc s =
     (if s = [] then Inl (Errorf CodeMalformed loc)
      else if length s > 512 then Inl (Errorf CodeLimitExceeded loc)
      else (case checkHostile s loc False of
          Inl e \<Rightarrow> Inl e
        | Inr _ \<Rightarrow>
           if list_ex (\<lambda>c. c = CHR 0x5C \<or> bv c = 0x7F) s then Inl (Errorf CodeMalformed loc)
           else if hd s = CHR ''/'' then Inl (Errorf CodeMalformed loc)
           else
             let body = (if HasSuffix s ''/'' then butlast s else s)
             in if list_ex (\<lambda>seg. seg = [] \<or> seg = ''.'' \<or> seg = ''..'') (split_on (CHR ''/'') body)
                then Inl (Errorf CodeMalformed loc) else Inr s))"

subsection \<open>Timestamps\<close>

text \<open>
  \<^verbatim>\<open>time.Parse\<close> with the layouts \<^verbatim>\<open>2006-01-02T15:04:05Z\<close> and \<^verbatim>\<open>2006-01-02\<close>, on a string of exactly the
  layout's length: the separators at their positions, two-digit (four for the year) fields in
  range, the day within the month of the proleptic Gregorian year. \<^verbatim>\<open>Format\<close> prints the same
  fields zero-padded.
\<close>

definition leap_year :: "nat \<Rightarrow> bool" where
  "leap_year y \<longleftrightarrow> y mod 4 = 0 \<and> (y mod 100 \<noteq> 0 \<or> y mod 400 = 0)"

definition days_in :: "nat \<Rightarrow> nat \<Rightarrow> nat" where
  "days_in m y =
     (if m = 2 then (if leap_year y then 29 else 28)
      else if m = 4 \<or> m = 6 \<or> m = 9 \<or> m = 11 then 30 else 31)"

record civil_time =
  c_year :: nat
  c_month :: nat
  c_day :: nat
  c_hour :: nat
  c_min :: nat
  c_sec :: nat

text \<open>The number in \<open>s[i..i+n]\<close> when those bytes are digits.\<close>

definition field_num :: "string \<Rightarrow> nat \<Rightarrow> nat \<Rightarrow> nat option" where
  "field_num s i n =
     (let f = take n (drop i s)
      in if length f = n \<and> list_all is_digit f then Some (dec_val f) else None)"

definition parse_date :: "string \<Rightarrow> (nat \<times> nat \<times> nat) option" where
  "parse_date s = (case (field_num s 0 4, field_num s 5 2, field_num s 8 2) of
     (Some y, Some m, Some d) \<Rightarrow>
       if take 1 (drop 4 s) = ''-'' \<and> take 1 (drop 7 s) = ''-'' \<and> 1 \<le> m \<and> m \<le> 12 \<and> 1 \<le> d \<and> d \<le> days_in m y
       then Some (y, m, d) else None
   | _ \<Rightarrow> None)"

definition parse_clock :: "string \<Rightarrow> (nat \<times> nat \<times> nat) option" where
  "parse_clock s = (case (field_num s 11 2, field_num s 14 2, field_num s 17 2) of
     (Some h, Some mi, Some sc) \<Rightarrow>
       if take 1 (drop 10 s) = ''T'' \<and> take 1 (drop 13 s) = '':'' \<and> take 1 (drop 16 s) = '':'' \<and>
          drop 19 s = ''Z'' \<and> h < 24 \<and> mi < 60 \<and> sc < 60
       then Some (h, mi, sc) else None
   | _ \<Rightarrow> None)"

definition time_parse :: "string \<Rightarrow> civil_time option" where
  "time_parse s = (case (parse_date s, parse_clock s) of
     (Some (y, m, d), Some (h, mi, sc)) \<Rightarrow>
       Some \<lparr>c_year = y, c_month = m, c_day = d, c_hour = h, c_min = mi, c_sec = sc\<rparr>
   | _ \<Rightarrow> None)"

text \<open>Zero-padded decimal of width \<open>w\<close>.\<close>

definition pad_num :: "nat \<Rightarrow> nat \<Rightarrow> string" where
  "pad_num w n = replicate (w - length (format_nat n)) (CHR ''0'') @ format_nat n"

definition format_date :: "nat \<times> nat \<times> nat \<Rightarrow> string" where
  "format_date ymd = (case ymd of (y, m, d) \<Rightarrow> pad_num 4 y @ ''-'' @ pad_num 2 m @ ''-'' @ pad_num 2 d)"

definition time_format :: "civil_time \<Rightarrow> string" where
  "time_format t =
     format_date (c_year t, c_month t, c_day t) @ ''T'' @ pad_num 2 (c_hour t) @ '':'' @
     pad_num 2 (c_min t) @ '':'' @ pad_num 2 (c_sec t) @ ''Z''"

definition ParseTimestamp :: "string \<Rightarrow> string \<Rightarrow> string res" where
  "ParseTimestamp loc s =
     (if length s \<noteq> 20 then Inl (Errorf CodeMalformed loc)
      else (case time_parse s of
          None \<Rightarrow> Inl (Errorf CodeMalformed loc)
        | Some t \<Rightarrow> if time_format t \<noteq> s then Inl (Errorf CodeMalformed loc) else Inr s))"

definition ParseDate :: "string \<Rightarrow> string \<Rightarrow> string res" where
  "ParseDate loc s =
     (if length s \<noteq> 10 then Inl (Errorf CodeMalformed loc)
      else (case parse_date s of
          None \<Rightarrow> Inl (Errorf CodeMalformed loc)
        | Some t \<Rightarrow> if format_date t \<noteq> s then Inl (Errorf CodeMalformed loc) else Inr s))"

subsection \<open>Profiles\<close>

text \<open>\<^verbatim>\<open>want[:strings.LastIndex(want, "/")]\<close>, for a profile string that holds a slash.\<close>

definition profile_name :: "string \<Rightarrow> string" where
  "profile_name want = rev (tl (dropWhile (\<lambda>c. c \<noteq> CHR ''/'') (rev want)))"

definition CheckProfile :: "string \<Rightarrow> string \<Rightarrow> string \<Rightarrow> unit res" where
  "CheckProfile loc got want =
     (if got = want then Inr ()
      else if HasPrefix got (profile_name want @ ''/'') then Inl (Errorf CodeUnsupportedVersion loc)
      else Inl (Errorf CodeMalformed loc))"

definition otherVersion :: "string \<Rightarrow> string \<Rightarrow> string \<Rightarrow> unit res" where
  "otherVersion loc got want = (case CheckProfile loc got want of
     Inl e \<Rightarrow> if e_Code e = CodeUnsupportedVersion then Inl e else Inr ()
   | Inr _ \<Rightarrow> Inr ())"

subsection \<open>Identifiers\<close>

record QueueID =
  q_Raw :: string
  q_Authority :: string
  q_Queue :: string

record TicketID =
  t_Raw :: string
  t_Authority :: string
  t_Queue :: string
  t_Local :: string

definition TicketID_QueueID :: "TicketID \<Rightarrow> string" where
  "TicketID_QueueID t = ''queue:'' @ t_Authority t @ '':'' @ t_Queue t"

definition checkIDLength :: "string \<Rightarrow> string \<Rightarrow> unit res" where
  "checkIDLength loc s =
     (if length s > MaxIdentifierBytes then Inl (Errorf CodeLimitExceeded loc)
      else if list_ex (\<lambda>c. bv c \<ge> 0x80) s then Inl (Errorf CodeMalformed loc)
      else Inr ())"

definition ParseRepoID :: "string \<Rightarrow> string \<Rightarrow> string res" where
  "ParseRepoID loc s = (case checkIDLength loc s of
     Inl e \<Rightarrow> Inl e
   | Inr _ \<Rightarrow>
      if \<not> HasPrefix s ''repo:'' then Inl (Errorf CodeMalformed loc)
      else
        let tok = drop (length ''repo:'') s
        in (case ParseToken loc tok MaxIdentifierBytes of Inl e \<Rightarrow> Inl e | Inr _ \<Rightarrow> Inr tok))"

definition ParseQueueID :: "string \<Rightarrow> string \<Rightarrow> QueueID res" where
  "ParseQueueID loc s = (case checkIDLength loc s of
     Inl e \<Rightarrow> Inl e
   | Inr _ \<Rightarrow>
      (case split_on (CHR '':'') s of
         [a, b, c] \<Rightarrow>
           if a \<noteq> ''queue'' then Inl (Errorf CodeMalformed loc)
           else (case ParseToken loc b MaxIdentifierBytes of
               Inl e \<Rightarrow> Inl e
             | Inr _ \<Rightarrow>
                (case ParseToken loc c MaxIdentifierBytes of
                   Inl e \<Rightarrow> Inl e
                 | Inr _ \<Rightarrow> Inr \<lparr>q_Raw = s, q_Authority = b, q_Queue = c\<rparr>))
       | _ \<Rightarrow> Inl (Errorf CodeMalformed loc)))"

definition ParseTicketID :: "string \<Rightarrow> string \<Rightarrow> TicketID res" where
  "ParseTicketID loc s = (case checkIDLength loc s of
     Inl e \<Rightarrow> Inl e
   | Inr _ \<Rightarrow>
      (case split_on (CHR '':'') s of
         [a, b, c, d] \<Rightarrow>
           if a \<noteq> ''ticket'' then Inl (Errorf CodeMalformed loc)
           else (case ParseToken loc b MaxIdentifierBytes of
               Inl e \<Rightarrow> Inl e
             | Inr _ \<Rightarrow>
                (case ParseToken loc c MaxIdentifierBytes of
                   Inl e \<Rightarrow> Inl e
                 | Inr _ \<Rightarrow>
                    (case ParseToken loc d MaxLocalTokenBytes of
                       Inl e \<Rightarrow> Inl e
                     | Inr _ \<Rightarrow> Inr \<lparr>t_Raw = s, t_Authority = b, t_Queue = c, t_Local = d\<rparr>)))
       | _ \<Rightarrow> Inl (Errorf CodeMalformed loc)))"

subsection \<open>Lemmas on hostile text\<close>

text \<open>Text that is the UTF-8 form of scalar values none of which is hostile.\<close>

definition clean_text :: "bool \<Rightarrow> string \<Rightarrow> bool" where
  "clean_text a s \<longleftrightarrow> (\<exists>rs. s = concat (map encode_scalar rs) \<and> (\<forall>r\<in>set rs. scalar r \<and> \<not> hostileRune r a))"

lemma clean_text_Nil [simp]: "clean_text a []"
  unfolding clean_text_def by (rule exI [of _ "[]"]) simp

lemma clean_text_step:
  assumes "s \<noteq> []"
  shows "clean_text a s \<longleftrightarrow> \<not> bad_rune (decode_rune s) \<and> \<not> hostileRune (fst (decode_rune s)) a \<and>
     clean_text a (drop (snd (decode_rune s)) s)"
proof
  assume "clean_text a s"
  then obtain rs where rs: "s = concat (map encode_scalar rs)" "\<forall>r\<in>set rs. scalar r \<and> \<not> hostileRune r a"
    unfolding clean_text_def by auto
  then obtain r rs' where "rs = r # rs'" using assms by (cases rs) auto
  then show "\<not> bad_rune (decode_rune s) \<and> \<not> hostileRune (fst (decode_rune s)) a \<and>
     clean_text a (drop (snd (decode_rune s)) s)"
    using rs by (auto simp: decode_encode clean_text_def)
next
  assume a: "\<not> bad_rune (decode_rune s) \<and> \<not> hostileRune (fst (decode_rune s)) a \<and>
     clean_text a (drop (snd (decode_rune s)) s)"
  then obtain rs where rs: "drop (snd (decode_rune s)) s = concat (map encode_scalar rs)"
    "\<forall>r\<in>set rs. scalar r \<and> \<not> hostileRune r a"
    unfolding clean_text_def by auto
  have "scalar (fst (decode_rune s))" "s = concat (map encode_scalar (fst (decode_rune s) # rs))"
    using decode_rune_inv [of s] a rs by auto
  then show "clean_text a s"
    unfolding clean_text_def using a rs by (intro exI [of _ "fst (decode_rune s) # rs"]) auto
qed

lemma hostile_loop_iff: "hostile_loop s loc a = Inr () \<longleftrightarrow> clean_text a s"
proof (induction s loc a rule: hostile_loop.induct)
  case (1 s loc a)
  then show ?case
    by (subst hostile_loop.simps) (simp add: clean_text_step)
qed

lemma encode_scalar_ascii: "r < 0x80 \<Longrightarrow> encode_scalar r = [byte r]"
  by (simp add: encode_scalar_def)

lemma plainASCII_clean: "plainASCII s a \<Longrightarrow> clean_text a s"
proof -
  assume p: "plainASCII s a"
  have "concat (map encode_scalar (map bv s)) = s"
    using p by (induction s) (auto simp: plainASCII_def encode_scalar_ascii)
  moreover have "\<forall>r\<in>set (map bv s). scalar r \<and> \<not> hostileRune r a"
    using p by (fastforce simp: plainASCII_def list_all_iff hostileRune_def scalar_def)
  ultimately show ?thesis unfolding clean_text_def by (intro exI [of _ "map bv s"]) auto
qed

lemma checkHostile_iff [simp]: "checkHostile s loc a = Inr u \<longleftrightarrow> clean_text a s"
  using hostile_loop_iff [of s loc a] plainASCII_clean [of s a]
  by (cases u) (simp add: checkHostile_def)

lemma hostile_loop_error: "hostile_loop s loc a = Inl e \<Longrightarrow> e = Errorf CodeMalformed loc"
proof (induction s loc a rule: hostile_loop.induct)
  case (1 s loc a)
  then show ?case by (subst (asm) (2) hostile_loop.simps) (auto split: if_splits)
qed

lemma checkHostile_error: "checkHostile s loc a = Inl e \<longleftrightarrow> \<not> clean_text a s \<and> e = Errorf CodeMalformed loc"
proof (cases "checkHostile s loc a")
  case (Inl e')
  then have "\<not> clean_text a s" using checkHostile_iff [of s loc a "()"] by auto
  moreover have "e' = Errorf CodeMalformed loc"
    using Inl hostile_loop_error by (auto simp: checkHostile_def split: if_splits)
  ultimately show ?thesis using Inl by auto
next
  case (Inr u)
  then show ?thesis by (metis checkHostile_iff sum.distinct(1))
qed

lemma clean_text_valid: "clean_text a s \<Longrightarrow> utf8_valid s"
  unfolding clean_text_def utf8_valid_iff by (auto simp: list_all_iff)

lemma encode_scalar_bytes: "0x80 \<le> r \<Longrightarrow> scalar r \<Longrightarrow> c \<in> set (encode_scalar r) \<Longrightarrow> 0x80 \<le> bv c"
proof -
  assume r: "0x80 \<le> r" "scalar r" "c \<in> set (encode_scalar r)"
  have m: "128 + x mod 64 < 256" "192 + y < 256 \<Longrightarrow> 128 \<le> bv (byte (192 + y))" for x y :: nat by auto
  consider "r < 0x800" | "0x800 \<le> r" "r < 0x10000" | "0x10000 \<le> r" "r \<le> 0x10FFFF"
    using r(2) unfolding scalar_def by linarith
  then show ?thesis
  proof cases
    case 1
    then have "r div 64 < 32" by auto
    then show ?thesis using r(1,3) 1 m(1) by (auto simp: encode_scalar_def)
  next
    case 2
    then have "r div 4096 < 16" by auto
    then show ?thesis using r(1,3) 2 m(1) by (auto simp: encode_scalar_def)
  next
    case 3
    then have "r div 262144 < 5" by auto
    then show ?thesis using r(1,3) 3 m(1) by (auto simp: encode_scalar_def)
  qed
qed

lemma clean_text_bytes:
  assumes "clean_text a s" "c \<in> set s" "bv c < 0x80"
  shows "\<not> hostileRune (bv c) a"
proof -
  obtain rs where rs: "s = concat (map encode_scalar rs)" "\<forall>r\<in>set rs. scalar r \<and> \<not> hostileRune r a"
    using assms(1) unfolding clean_text_def by auto
  then obtain r where r: "r \<in> set rs" "c \<in> set (encode_scalar r)" using assms(2) by auto
  then have "r < 0x80" using encode_scalar_bytes [of r c] rs(2) assms(3) by force
  then show ?thesis using r rs(2) by (auto simp: encode_scalar_ascii)
qed

lemma clean_text_controls:
  assumes "clean_text True s" "c \<in> set s" "bv c < 0x20"
  shows "c = CHR 0x09 \<or> c = CHR 0x0A \<or> c = CHR 0x0D"
proof -
  have "\<not> hostileRune (bv c) True" using clean_text_bytes [OF assms(1,2)] assms(3) by simp
  then have "bv c = bv (CHR 0x09) \<or> bv c = bv (CHR 0x0A) \<or> bv c = bv (CHR 0x0D)"
    using assms(3) by (simp add: hostileRune_def split: if_splits)
  then show ?thesis unfolding bv_inj .
qed

lemma hostileRune_flag: "\<not> (r = 9 \<or> r = 10 \<or> r = 13) \<Longrightarrow> hostileRune r a = hostileRune r b"
  unfolding hostileRune_def by (simp only: if_False)

lemma hostileRune_mono: "hostileRune r True \<Longrightarrow> hostileRune r False"
  using hostileRune_flag [of r False True] by (cases "r = 9 \<or> r = 10 \<or> r = 13") (auto simp: hostileRune_def [of 9] hostileRune_def [of 10] hostileRune_def [of 13])

lemma clean_text_mono: "clean_text False s \<Longrightarrow> clean_text True s"
  unfolding clean_text_def using hostileRune_mono by blast

subsection \<open>Decimal languages\<close>

lemma decimalShape_iff: "decimalShape s \<longleftrightarrow> (\<exists>n. s = format_nat n)"
proof
  assume d: "decimalShape s"
  show "\<exists>n. s = format_nat n"
  proof (cases "s = ''0''")
    case True
    then show ?thesis using format_nat_zero by metis
  next
    case False
    then have dig: "s \<noteq> []" "49 \<le> bv (hd s)" "bv (hd s) \<le> 57" "\<forall>c\<in>set (tl s). is_digit c"
      using d by (auto simp: decimalShape_def is_digit_def list_all_iff split: if_splits)
    then have "list_all is_digit s" by (cases s) (auto simp: is_digit_def list_all_iff)
    moreover have "hd s \<noteq> digit_char 0" using dig(2) by (auto simp: digit_char_0)
    ultimately show ?thesis using digits_canonical dig(1) by blast
  qed
next
  assume "\<exists>n. s = format_nat n"
  then obtain n where n: "s = format_nat n" ..
  have dig: "is_digit c" if "c \<in> set s" for c using format_nat_digits that n by auto
  show "decimalShape s"
  proof (cases "n = 0")
    case True
    then show ?thesis using n by (simp add: decimalShape_def format_nat_zero)
  next
    case False
    then have "hd s \<noteq> CHR ''0''" using format_nat_no_leading_zero n digit_char_0 by auto
    then have "bv (hd s) \<noteq> bv (CHR ''0'')" unfolding bv_inj .
    moreover obtain c cs where s: "s = c # cs" using n format_nat_nonempty by (metis neq_Nil_conv)
    moreover have "list_all is_digit s" using dig by (simp add: list_all_iff)
    ultimately show ?thesis
      by (auto simp: decimalShape_def is_digit_def list_all_iff)
  qed
qed

lemma ParseUint64_format [simp]: "ParseUint64 (format_nat n) = (if n < 2 ^ 64 then Some n else None)"
  using format_nat_digits by (auto simp: ParseUint64_def list_all_iff)

lemma ParseCount_eq:
  "ParseCount loc s =
     (if \<exists>n. n \<le> MaxCountValue \<and> s = CountOf (int n) then Inr s else Inl (Errorf CodeMalformed loc))"
proof (cases "decimalShape s")
  case True
  then obtain n where s: "s = format_nat n" using decimalShape_iff by auto
  have len: "10 < length s \<longleftrightarrow> \<not> n < 10 ^ 10" using length_format_nat [of n 10] s by auto
  have big: "n < 10 ^ 10" "n < 2 ^ 64" if "n \<le> MaxCountValue"
    using that by (auto simp: MaxCountValue_def)
  show ?thesis
  proof (cases "n \<le> MaxCountValue")
    case True
    then show ?thesis using big len \<open>decimalShape s\<close> s by (simp add: ParseCount_def CountOf_def)
  next
    case False
    then show ?thesis using \<open>decimalShape s\<close> s by (simp add: ParseCount_def CountOf_def)
  qed
next
  case False
  then show ?thesis by (auto simp: ParseCount_def CountOf_def decimalShape_iff)
qed

text \<open>
  C40: \<^verbatim>\<open>ParseCount\<close> accepts exactly the canonical decimal forms of the numbers up to \<^verbatim>\<open>MaxCountValue\<close>
  and returns its input; every refusal is MALFORMED at the caller's location.
\<close>

theorem ParseCount_language:
  "ParseCount loc s =
     (if \<exists>n. n \<le> MaxCountValue \<and> s = CountOf (int n) then Inr s else Inl (Errorf CodeMalformed loc))"
  by (rule ParseCount_eq)

lemma Count_Int_CountOf:
  assumes "n < 2 ^ 63"
  shows "Count_Int (CountOf n) = max 0 n"
proof -
  have dig: "list_all is_digit (format_nat m)" for m
    using format_nat_digits by (auto simp: list_all_iff)
  have sign: "hd (format_nat m) \<noteq> CHR ''-''" "hd (format_nat m) \<noteq> CHR ''+''" for m
    using format_nat_digits [of "hd (format_nat m)" m] by (auto simp: is_digit_def)
  have "nat (if n < 0 then 0 else n) < 2 ^ 63" using assms by auto
  then show ?thesis using sign dig by (auto simp: Count_Int_def CountOf_def Let_def)
qed

text \<open>A count that the parser accepts is the canonical form of its number.\<close>

lemma CountOf_Count_Int:
  assumes "ParseCount loc s = Inr x"
  shows "x = s" "CountOf (Count_Int s) = s" "0 \<le> Count_Int s" "Count_Int s \<le> int MaxCountValue"
proof -
  obtain n where n: "n \<le> MaxCountValue" "s = CountOf (int n)" and x: "x = s"
    using assms unfolding ParseCount_eq by (auto split: if_splits)
  have "Count_Int (CountOf (int n)) = max 0 (int n)"
    using n(1) by (intro Count_Int_CountOf) (simp add: MaxCountValue_def)
  then have "Count_Int s = int n" using n(2) by simp
  then show "x = s" "CountOf (Count_Int s) = s" "0 \<le> Count_Int s" "Count_Int s \<le> int MaxCountValue" using n x by simp_all
qed

text \<open>
  The numeric accessors invert the constructors: \<^verbatim>\<open>Count.Int\<close> returns the number a count was
  made from for every 64-bit signed integer, clamped at zero, and \<^verbatim>\<open>Size\<close> round-trips every 64-bit
  unsigned integer through \<^verbatim>\<open>ParseSize\<close>.
\<close>

theorem Count_Size_roundtrip:
  fixes n :: int and w :: "64 word"
  assumes "n < 2 ^ 63"
  shows "Count_Int (CountOf n) = max 0 n \<and>
    ParseSize loc (SizeOf (unat w)) = Inr (SizeOf (unat w)) \<and> Size_Uint64 (SizeOf (unat w)) = unat w"
proof (intro conjI)
  have dig: "list_all is_digit (format_nat m)" for m
    using format_nat_digits by (auto simp: list_all_iff)
  show "Count_Int (CountOf n) = max 0 n" by (rule Count_Int_CountOf [OF assms])
  have w: "unat w < 2 ^ 64" using unsigned_less [of w] by simp
  then have "unat w < 10 ^ 20" by (rule less_trans) simp
  then show "ParseSize loc (SizeOf (unat w)) = Inr (SizeOf (unat w))"
    using w by (auto simp: ParseSize_def SizeOf_def decimalShape_iff length_format_nat linorder_not_le [symmetric])
  show "Size_Uint64 (SizeOf (unat w)) = unat w"
    using w dig by (auto simp: Size_Uint64_def SizeOf_def)
qed

theorem Count_Size_roundtrip_witness:
  "Count_Int (CountOf 2147483647) = 2147483647 \<and> ParseSize ''x'' (SizeOf (unat (-1 :: 64 word))) = Inr (SizeOf (unat (-1 :: 64 word)))"
  using Count_Size_roundtrip [of 2147483647 "''x''" "-1"] by simp

subsection \<open>Token and identifier languages\<close>

definition is_token :: "nat \<Rightarrow> string \<Rightarrow> bool" where
  "is_token mx s \<longleftrightarrow> s \<noteq> [] \<and> length s \<le> mx \<and> isTokenByte (hd s) True \<and> list_all (\<lambda>c. isTokenByte c False) s"

lemma isTokenByte_first: "isTokenByte c True \<Longrightarrow> isTokenByte c False"
  by (auto simp: isTokenByte_def split: if_splits)

lemma ParseToken_iff [simp]: "ParseToken loc s mx = Inr t \<longleftrightarrow> t = s \<and> is_token mx s"
  by (cases s) (auto simp: ParseToken_def is_token_def dest: isTokenByte_first)

lemma is_token_no_colon: "is_token mx s \<Longrightarrow> CHR '':'' \<notin> set s"
  by (auto simp: is_token_def list_all_iff isTokenByte_def is_upper_def is_lower_def is_digit_def split: if_splits)

lemma is_token_ascii: "is_token mx s \<Longrightarrow> c \<in> set s \<Longrightarrow> bv c < 0x80"
  by (auto simp: is_token_def list_all_iff isTokenByte_def is_upper_def is_lower_def is_digit_def split: if_splits)

lemma is_token_mono: "is_token m s \<Longrightarrow> length s \<le> n \<Longrightarrow> is_token n s"
  by (simp add: is_token_def)

lemma checkIDLength_iff [simp]:
  "checkIDLength loc s = Inr u \<longleftrightarrow> length s \<le> MaxIdentifierBytes \<and> (\<forall>c\<in>set s. bv c < 0x80)"
  unfolding checkIDLength_def list_ex_iff using linorder_not_less [of _ "128::nat"] by force

lemma split_colon3:
  "split_on d s = [a, b, c] \<longleftrightarrow> s = a @ d # b @ d # c \<and> d \<notin> set a \<and> d \<notin> set b \<and> d \<notin> set c"
proof
  assume "split_on d s = [a, b, c]"
  then show "s = a @ d # b @ d # c \<and> d \<notin> set a \<and> d \<notin> set b \<and> d \<notin> set c"
    using join_split_on [of d s] split_on_notin [of _ d s] by auto
qed (auto simp: split_on_append split_on_none)

lemma split_colon4:
  "split_on d s = [a, b, c, e] \<longleftrightarrow>
     s = a @ d # b @ d # c @ d # e \<and> d \<notin> set a \<and> d \<notin> set b \<and> d \<notin> set c \<and> d \<notin> set e"
proof
  assume "split_on d s = [a, b, c, e]"
  then show "s = a @ d # b @ d # c @ d # e \<and> d \<notin> set a \<and> d \<notin> set b \<and> d \<notin> set c \<and> d \<notin> set e"
    using join_split_on [of d s] split_on_notin [of _ d s] by auto
qed (auto simp: split_on_append split_on_none)

lemma ParseQueueID_iff:
  "ParseQueueID loc s = Inr q \<longleftrightarrow>
     length s \<le> MaxIdentifierBytes \<and> q_Raw q = s \<and>
     s = ''queue:'' @ q_Authority q @ '':'' @ q_Queue q \<and>
     is_token MaxIdentifierBytes (q_Authority q) \<and> is_token MaxIdentifierBytes (q_Queue q)" (is "?l \<longleftrightarrow> ?r")
proof
  assume ?l
  then show ?r
    by (auto simp: ParseQueueID_def split_colon3 split: sum.splits list.splits if_splits)
next
  assume r: ?r
  obtain b c where q: "q = \<lparr>q_Raw = s, q_Authority = b, q_Queue = c\<rparr>" using r by (cases q) auto
  have s: "s = ''queue'' @ CHR '':'' # b @ CHR '':'' # c" and t: "is_token MaxIdentifierBytes b" "is_token MaxIdentifierBytes c"
    using r q by auto
  have "split_on (CHR '':'') s = [''queue'', b, c]"
    unfolding split_colon3 using s t is_token_no_colon by auto
  moreover have "checkIDLength loc s = Inr ()"
    using s r t is_token_ascii by auto
  moreover have "ParseToken loc b MaxIdentifierBytes = Inr b" "ParseToken loc c MaxIdentifierBytes = Inr c"
    using t by simp_all
  ultimately show ?l by (simp add: ParseQueueID_def q del: ParseToken_iff checkIDLength_iff)
qed

text \<open>
  C38: \<^verbatim>\<open>ParseTicketID\<close> accepts exactly the identifiers \<^verbatim>\<open>ticket:<authority>:<queue>:<local>\<close> of at most
  \<^verbatim>\<open>MaxIdentifierBytes\<close> bytes whose parts are tokens, and the parts are determined by the string.
\<close>

theorem ParseTicketID_language:
  "ParseTicketID loc s = Inr t \<longleftrightarrow>
     length s \<le> MaxIdentifierBytes \<and> t_Raw t = s \<and>
     s = ''ticket:'' @ t_Authority t @ '':'' @ t_Queue t @ '':'' @ t_Local t \<and>
     is_token MaxIdentifierBytes (t_Authority t) \<and> is_token MaxIdentifierBytes (t_Queue t) \<and>
     is_token MaxLocalTokenBytes (t_Local t)" (is "?l \<longleftrightarrow> ?r")
proof
  assume ?l
  then show ?r
    by (auto simp: ParseTicketID_def split_colon4 split: sum.splits list.splits if_splits)
next
  assume r: ?r
  obtain b c d where q: "t = \<lparr>t_Raw = s, t_Authority = b, t_Queue = c, t_Local = d\<rparr>" using r by (cases t) auto
  have s: "s = ''ticket'' @ CHR '':'' # b @ CHR '':'' # c @ CHR '':'' # d"
    and t: "is_token MaxIdentifierBytes b" "is_token MaxIdentifierBytes c" "is_token MaxLocalTokenBytes d"
    using r q by auto
  have "split_on (CHR '':'') s = [''ticket'', b, c, d]"
    unfolding split_colon4 using s t is_token_no_colon by auto
  moreover have "checkIDLength loc s = Inr ()"
    using s r t is_token_ascii by auto
  moreover have "ParseToken loc b MaxIdentifierBytes = Inr b" "ParseToken loc c MaxIdentifierBytes = Inr c"
    "ParseToken loc d MaxLocalTokenBytes = Inr d"
    using t by simp_all
  ultimately show ?l by (simp add: ParseTicketID_def q del: ParseToken_iff checkIDLength_iff)
qed

text \<open>What a parsed ticket identifier says of the queue it names.\<close>

lemma ParseTicketID_queue:
  assumes "length s \<le> MaxIdentifierBytes" "s = ''ticket:'' @ b @ '':'' @ c @ '':'' @ d"
    "is_token MaxIdentifierBytes b" "is_token MaxIdentifierBytes c" "d \<noteq> []"
  shows "ParseQueueID loc (''queue:'' @ b @ '':'' @ c) =
     Inr \<lparr>q_Raw = ''queue:'' @ b @ '':'' @ c, q_Authority = b, q_Queue = c\<rparr>"
  using assms by (simp add: ParseQueueID_iff)

subsection \<open>Paths\<close>

definition path_body :: "string \<Rightarrow> string" where
  "path_body s = (if HasSuffix s ''/'' then butlast s else s)"

text \<open>
  C39: a path that \<^verbatim>\<open>ParsePath\<close> accepts is confined: it is relative, at most 512 bytes of clean UTF-8
  without a backslash or DEL, and no segment is empty or a dot segment, so joining it below a root
  directory never leaves the root.
\<close>

theorem ParsePath_confined:
  "ParsePath loc s = Inr p \<longleftrightarrow>
     p = s \<and> s \<noteq> [] \<and> length s \<le> 512 \<and> clean_text False s \<and> CHR 0x5C \<notin> set s \<and> CHR 0x7F \<notin> set s \<and>
     hd s \<noteq> CHR ''/'' \<and> set (split_on (CHR ''/'') (path_body s)) \<inter> {[], ''.'', ''..''} = {}"
proof -
  have del: "bv c = 127 \<longleftrightarrow> c = CHR 0x7F" for c
    using bv_inj [of c "CHR 0x7F"] by simp
  show ?thesis
  proof (cases "clean_text False s")
    case True
    then have "checkHostile s loc False = Inr ()" by simp
    then show ?thesis
      using True by (auto simp: ParsePath_def list_ex_iff path_body_def Let_def del simp del: checkHostile_iff)
  next
    case False
    then have "checkHostile s loc False = Inl (Errorf CodeMalformed loc)" by (simp add: checkHostile_error)
    then show ?thesis using False by (auto simp: ParsePath_def simp del: checkHostile_iff)
  qed
qed

end
