(* ===== verification/Parser.thy ===== *)
theory Parser
  imports Values Primitives
begin

text \<open>
  The document parser (\<^verbatim>\<open>internal/tasks/wire/parse.go\<close>). The parser's \<^verbatim>\<open>data[pos:]\<close> is the remaining
  suffix \<open>p_rest\<close> next to the position \<open>p_pos\<close>, which only error locations read. \<open>ParseWith\<close> is the
  strict parser, \<open>ParseInput\<close> the lenient one; both run the same mutually recursive value parser,
  whose termination is proved from the fact that a value that was read shortens the suffix.
  The theorems show that the accepted language is exactly the canonical encodings of the values
  within the decode bounds, and that parsing inverts encoding.
\<close>

subsection \<open>State\<close>

record ParseOptions =
  WideArrayKey :: string
  WideArrayMax :: int
  MaxNodes :: int

record parser =
  p_rest :: string
  p_pos :: nat
  p_depth :: nat
  p_nodes :: nat
  p_wide :: bool

type_synonym 'a parsed = "('a \<times> parser) res"

definition byte_at :: "nat \<Rightarrow> string" where
  "byte_at n = ''byte '' @ format_nat n"

definition p_where :: "parser \<Rightarrow> string" where
  "p_where p = byte_at (p_pos p)"

definition p_fail :: "parser \<Rightarrow> 'a res" where
  "p_fail p = Inl (Errorf CodeMalformed (p_where p))"

definition isJSONSpace :: "char \<Rightarrow> bool" where
  "isJSONSpace c \<longleftrightarrow> c = CHR '' '' \<or> c = CHR 0x09 \<or> c = CHR 0x0A \<or> c = CHR 0x0D"

text \<open>\<^verbatim>\<open>p.pos += n\<close>.\<close>

definition advance :: "nat \<Rightarrow> parser \<Rightarrow> parser" where
  "advance n p = p\<lparr>p_rest := drop n (p_rest p), p_pos := p_pos p + n\<rparr>"

definition p_ws :: "bool \<Rightarrow> parser \<Rightarrow> parser" where
  "p_ws lenient p = (if lenient then advance (length (takeWhile isJSONSpace (p_rest p))) p else p)"

text \<open>\<^verbatim>\<open>expected\<close> differs from \<^verbatim>\<open>fail\<close> only in the message it formats.\<close>

definition p_expected :: "parser \<Rightarrow> 'a res" where
  "p_expected p = p_fail p"

definition p_node :: "ParseOptions \<Rightarrow> parser \<Rightarrow> parser res" where
  "p_node opts p =
     (let p = p\<lparr>p_nodes := p_nodes p + 1\<rparr>
      in if int (p_nodes p) > MaxNodes opts then Inl (Errorf CodeLimitExceeded (p_where p)) else Inr p)"

definition p_literal :: "string \<Rightarrow> val \<Rightarrow> parser \<Rightarrow> val parsed" where
  "p_literal lit v p =
     (if length (p_rest p) < length lit \<or> take (length lit) (p_rest p) \<noteq> lit then p_fail p
      else Inr (v, advance (length lit) p))"

definition p_enter :: "parser \<Rightarrow> parser res" where
  "p_enter p =
     (let p = p\<lparr>p_depth := p_depth p + 1\<rparr>
      in if p_depth p > MaxJSONDepth then Inl (Errorf CodeLimitExceeded (p_where p)) else Inr p)"

text \<open>The next byte, when there is one.\<close>

definition peek :: "parser \<Rightarrow> char option" where
  "peek p = (case p_rest p of [] \<Rightarrow> None | c # _ \<Rightarrow> Some c)"

subsection \<open>Strings\<close>

definition hexVal :: "char \<Rightarrow> nat option" where
  "hexVal b =
     (if is_digit b then Some (bv b - 48)
      else if 97 \<le> bv b \<and> bv b \<le> 102 then Some (bv b - 97 + 10)
      else if 65 \<le> bv b \<and> bv b \<le> 70 then Some (bv b - 65 + 10)
      else None)"

text \<open>\<^verbatim>\<open>hex4\<close> on the remaining bytes; on success the caller drops four of them.\<close>

definition hex4 :: "string \<Rightarrow> nat option" where
  "hex4 s = (case map hexVal (take 4 s) of
     [Some a, Some b, Some c, Some d] \<Rightarrow> Some (((a * 16 + b) * 16 + c) * 16 + d)
   | _ \<Rightarrow> None)"

definition simple_escape :: "char \<Rightarrow> char option" where
  "simple_escape e =
     (if e = quote then Some quote
      else if e = backslash then Some backslash
      else if e = CHR ''/'' then Some (CHR ''/'')
      else if e = CHR ''b'' then Some (CHR 0x08)
      else if e = CHR ''f'' then Some (CHR 0x0C)
      else if e = CHR ''n'' then Some (CHR 0x0A)
      else if e = CHR ''r'' then Some (CHR 0x0D)
      else if e = CHR ''t'' then Some (CHR 0x09)
      else None)"

text \<open>The rune after \<^verbatim>\<open>\u\<close>, a surrogate pair joined, with the number of bytes it took.\<close>

definition unicode_escape :: "nat \<Rightarrow> string \<Rightarrow> (nat \<times> nat) res" where
  "unicode_escape pos s = (case hex4 s of
     None \<Rightarrow> Inl (Errorf CodeMalformed (byte_at pos))
   | Some r \<Rightarrow>
      if r \<ge> 0xD800 \<and> r \<le> 0xDBFF then
        (if length (drop 4 s) < 6 \<or> s ! 4 \<noteq> backslash \<or> s ! 5 \<noteq> CHR ''u''
         then Inl (Errorf CodeMalformed (byte_at (pos + 4)))
         else (case hex4 (drop 6 s) of
             None \<Rightarrow> Inl (Errorf CodeMalformed (byte_at (pos + 6)))
           | Some lo \<Rightarrow>
              if lo < 0xDC00 \<or> lo > 0xDFFF then Inl (Errorf CodeMalformed (byte_at (pos + 10)))
              else Inr (0x10000 + (r - 0xD800) * 1024 + (lo - 0xDC00), 10)))
      else if r \<ge> 0xDC00 \<and> r \<le> 0xDFFF then Inl (Errorf CodeMalformed (byte_at (pos + 4)))
      else Inr (r, 4))"

text \<open>The general loop of \<^verbatim>\<open>str\<close>: \<open>out\<close> is the text decoded so far, the result the text with what is left.\<close>

function str_loop :: "nat \<Rightarrow> nat \<Rightarrow> string \<Rightarrow> string \<Rightarrow> (string \<times> nat \<times> string) res" where
  "str_loop start pos out s = (case s of
     [] \<Rightarrow> Inl (Errorf CodeMalformed (byte_at start))
   | c # cs \<Rightarrow>
      if c = quote then
        (if \<not> plainASCII out True then
           (case checkHostile out (byte_at start) True of Inl e \<Rightarrow> Inl e | Inr _ \<Rightarrow> Inr (out, pos + 1, cs))
         else Inr (out, pos + 1, cs))
      else if c = backslash then
        (case cs of
           [] \<Rightarrow> Inl (Errorf CodeMalformed (byte_at (pos + 1)))
         | e # es \<Rightarrow>
            (case simple_escape e of
               Some d \<Rightarrow> str_loop start (pos + 2) (out @ [d]) es
             | None \<Rightarrow>
                if e = CHR ''u'' then
                  (case unicode_escape (pos + 2) es of
                     Inl err \<Rightarrow> Inl err
                   | Inr rn \<Rightarrow> str_loop start (pos + 2 + snd rn) (append_rune out (fst rn)) (drop (snd rn) es))
                else Inl (Errorf CodeMalformed (byte_at (pos + 2)))))
      else if bv c < 0x20 then Inl (Errorf CodeMalformed (byte_at pos))
      else str_loop start (pos + 1) (out @ [c]) cs)"
  by pat_completeness auto
termination
  by (relation "measure (\<lambda>(_, _, _, s). length s)") auto

declare str_loop.simps [simp del]

definition p_str :: "parser \<Rightarrow> string parsed" where
  "p_str p =
     (let start = p_pos p;
          s = drop 1 (p_rest p);
          run = takeWhile (\<lambda>c. \<not> escapedByte c) s;
          after = dropWhile (\<lambda>c. \<not> escapedByte c) s
      in if after \<noteq> [] \<and> hd after = quote then
           (if list_ex (\<lambda>c. bv c \<ge> 0x80) run then
              (case checkHostile run (byte_at start) True of
                 Inl e \<Rightarrow> Inl e
               | Inr _ \<Rightarrow> Inr (run, advance (length run + 2) p))
            else Inr (run, advance (length run + 2) p))
         else
           (case str_loop start (start + 1 + length run) run after of
              Inl e \<Rightarrow> Inl e
            | Inr (out, pos, rest) \<Rightarrow> Inr (out, p\<lparr>p_rest := rest, p_pos := pos\<rparr>)))"

subsection \<open>Values\<close>

definition leave :: "parser \<Rightarrow> parser" where
  "leave p = p\<lparr>p_depth := p_depth p - 1\<rparr>"

text \<open>
  One round of the member loop of \<^verbatim>\<open>object\<close> up to the colon: the key, refused when the object
  already has it, with \<^verbatim>\<open>p.wide\<close> set for the member's value.
\<close>

definition member_key :: "ParseOptions \<Rightarrow> bool \<Rightarrow> object \<Rightarrow> parser \<Rightarrow> string parsed" where
  "member_key opts lenient obj p =
     (let p = p_ws lenient p
      in if peek p \<noteq> Some quote then p_expected p
         else (case p_str p of
             Inl e \<Rightarrow> Inl e
           | Inr (key, p) \<Rightarrow>
              if obj_Get obj key \<noteq> None then p_fail p
              else
                let p = p_ws lenient p
                in if peek p \<noteq> Some (CHR '':'') then p_expected p
                   else Inr (key, (advance 1 p)\<lparr>p_wide :=
                     (p_depth p = 1 \<and> WideArrayKey opts \<noteq> [] \<and> key = WideArrayKey opts)\<rparr>)))"

text \<open>
  What follows a member or an element: whether the separator announces another one, or the
  container ends with its closing byte.
\<close>

definition after_item :: "bool \<Rightarrow> char \<Rightarrow> parser \<Rightarrow> bool parsed" where
  "after_item lenient close p =
     (let p = p_ws lenient p
      in (case peek p of
            None \<Rightarrow> p_fail p
          | Some c \<Rightarrow>
             if c = CHR '','' then Inr (True, advance 1 p)
             else if c = close then Inr (False, leave (advance 1 p))
             else p_expected p))"

definition open_object :: "bool \<Rightarrow> parser \<Rightarrow> parser" where
  "open_object lenient p = p_ws lenient (advance 1 p)"

definition open_array :: "bool \<Rightarrow> parser \<Rightarrow> parser" where
  "open_array lenient p = p_ws lenient ((advance 1 p)\<lparr>p_wide := False\<rparr>)"

definition array_bound :: "ParseOptions \<Rightarrow> parser \<Rightarrow> int" where
  "array_bound opts p = (if p_wide p \<and> p_depth p = 2 then WideArrayMax opts else int MaxJSONArrayElements)"

function p_value :: "ParseOptions \<Rightarrow> bool \<Rightarrow> parser \<Rightarrow> val parsed"
  and p_object :: "ParseOptions \<Rightarrow> bool \<Rightarrow> parser \<Rightarrow> val parsed"
  and p_members :: "ParseOptions \<Rightarrow> bool \<Rightarrow> object \<Rightarrow> parser \<Rightarrow> val parsed"
  and p_array :: "ParseOptions \<Rightarrow> bool \<Rightarrow> parser \<Rightarrow> val parsed"
  and p_elems :: "ParseOptions \<Rightarrow> bool \<Rightarrow> int \<Rightarrow> val list \<Rightarrow> parser \<Rightarrow> val parsed"
where
  "p_value opts lenient p0 = (case p_node opts (p_ws lenient p0) of
     Inl e \<Rightarrow> Inl e
   | Inr p \<Rightarrow>
      (case p_rest p of
         [] \<Rightarrow> p_fail p
       | c # _ \<Rightarrow>
          if c = CHR ''{'' then p_object opts lenient p
          else if c = CHR ''['' then p_array opts lenient p
          else if c = quote then (case p_str p of Inl e \<Rightarrow> Inl e | Inr sp \<Rightarrow> Inr (VString (fst sp), snd sp))
          else if c = CHR ''t'' then p_literal ''true'' (VBool True) p
          else if c = CHR ''f'' then p_literal ''false'' (VBool False) p
          else if c = CHR ''n'' then p_literal ''null'' VNull p
          else p_fail p))"
| "p_object opts lenient p0 = (case p_enter p0 of
     Inl e \<Rightarrow> Inl e
   | Inr p \<Rightarrow>
      if peek (open_object lenient p) = Some (CHR ''}'')
      then Inr (VObject NewObject, leave (advance 1 (open_object lenient p)))
      else p_members opts lenient NewObject (open_object lenient p))"
| "p_members opts lenient obj p = (case member_key opts lenient obj p of
     Inl e \<Rightarrow> Inl e
   | Inr kp \<Rightarrow>
      (case p_value opts lenient (snd kp) of
         Inl e \<Rightarrow> Inl e
       | Inr vp \<Rightarrow>
          (case after_item lenient (CHR ''}'') ((snd vp)\<lparr>p_wide := False\<rparr>) of
             Inl e \<Rightarrow> Inl e
           | Inr mp \<Rightarrow>
              if fst mp then p_members opts lenient (obj_Set obj (fst kp) (fst vp)) (snd mp)
              else Inr (VObject (obj_Set obj (fst kp) (fst vp)), snd mp))))"
| "p_array opts lenient p0 = (case p_enter p0 of
     Inl e \<Rightarrow> Inl e
   | Inr p \<Rightarrow>
      if peek (open_array lenient p) = Some (CHR '']'')
      then Inr (VArray [], leave (advance 1 (open_array lenient p)))
      else p_elems opts lenient (array_bound opts p) [] (open_array lenient p))"
| "p_elems opts lenient bound arr p = (case p_value opts lenient p of
     Inl e \<Rightarrow> Inl e
   | Inr vp \<Rightarrow>
      if int (length (arr @ [fst vp])) > bound then Inl (Errorf CodeLimitExceeded (p_where (snd vp)))
      else
        (case after_item lenient (CHR '']'') (snd vp) of
           Inl e \<Rightarrow> Inl e
         | Inr mp \<Rightarrow>
            if fst mp then p_elems opts lenient bound (arr @ [fst vp]) (snd mp)
            else Inr (VArray (arr @ [fst vp]), snd mp)))"
  by pat_completeness auto

subsubsection \<open>Termination\<close>

lemma length_p_ws: "length (p_rest (p_ws lenient p)) \<le> length (p_rest p)"
  by (simp add: p_ws_def advance_def)

lemma p_node_rest: "p_node opts p = Inr p' \<Longrightarrow> p_rest p' = p_rest p"
  by (auto simp: p_node_def Let_def split: if_splits)

lemma p_enter_rest: "p_enter p = Inr p' \<Longrightarrow> p_rest p' = p_rest p"
  by (auto simp: p_enter_def Let_def split: if_splits)

lemma advance_shorter: "p_rest p \<noteq> [] \<Longrightarrow> 0 < n \<Longrightarrow> length (p_rest (advance n p)) < length (p_rest p)"
  by (simp add: advance_def)

lemma peek_Some: "peek p = Some c \<longleftrightarrow> (\<exists>cs. p_rest p = c # cs)"
  by (auto simp: peek_def split: list.splits)

text \<open>The rules of the string loop, one per kind of byte.\<close>

lemma str_loop_Nil: "str_loop start pos out [] = Inl (Errorf CodeMalformed (byte_at start))"
  by (simp add: str_loop.simps)

lemma str_loop_quote:
  "str_loop start pos out (quote # cs) =
     (if clean_text True out then Inr (out, pos + 1, cs) else Inl (Errorf CodeMalformed (byte_at start)))"
proof (cases "clean_text True out")
  case True
  then have "checkHostile out (byte_at start) True = Inr ()" by simp
  then show ?thesis using True by (simp add: str_loop.simps del: checkHostile_iff)
next
  case False
  then have "checkHostile out (byte_at start) True = Inl (Errorf CodeMalformed (byte_at start))"
    "\<not> plainASCII out True"
    using plainASCII_clean by (auto simp: checkHostile_error)
  then show ?thesis using False by (simp add: str_loop.simps del: checkHostile_iff)
qed

lemma str_loop_escape:
  "str_loop start pos out (backslash # e # es) = (case simple_escape e of
     Some d \<Rightarrow> str_loop start (pos + 2) (out @ [d]) es
   | None \<Rightarrow>
      if e = CHR ''u'' then
        (case unicode_escape (pos + 2) es of
           Inl err \<Rightarrow> Inl err
         | Inr rn \<Rightarrow> str_loop start (pos + 2 + snd rn) (append_rune out (fst rn)) (drop (snd rn) es))
      else Inl (Errorf CodeMalformed (byte_at (pos + 2))))"
  by (subst str_loop.simps) simp

lemma str_loop_plain:
  "\<not> escapedByte c \<Longrightarrow> str_loop start pos out (c # cs) = str_loop start (pos + 1) (out @ [c]) cs"
  by (subst str_loop.simps) (simp add: escapedByte_def)

lemma str_loop_control:
  "bv c < 0x20 \<Longrightarrow> str_loop start pos out (c # cs) = Inl (Errorf CodeMalformed (byte_at pos))"
  by (subst str_loop.simps) auto

lemma str_loop_escape_end: "str_loop start pos out [backslash] = Inl (Errorf CodeMalformed (byte_at (pos + 1)))"
  by (simp add: str_loop.simps)

lemma str_loop_success:
  assumes "str_loop start pos out s = Inr (t, q, r)"
  obtains (quote) "s = quote # r" "t = out" "q = pos + 1" "clean_text True out"
  | (simple) e d es where "s = backslash # e # es" "str_loop start (pos + 2) (out @ [d]) es = Inr (t, q, r)"
      "simple_escape e = Some d"
  | (unicode) es rn where "s = backslash # CHR ''u'' # es" "unicode_escape (pos + 2) es = Inr rn"
      "str_loop start (pos + 2 + snd rn) (append_rune out (fst rn)) (drop (snd rn) es) = Inr (t, q, r)"
  | (plain) c cs where "s = c # cs" "\<not> escapedByte c" "str_loop start (pos + 1) (out @ [c]) cs = Inr (t, q, r)"
proof -
  consider "s = []" | cs where "s = quote # cs" | "s = [backslash]" | e es where "s = backslash # e # es"
    | c cs where "s = c # cs" "bv c < 0x20" | c cs where "s = c # cs" "\<not> escapedByte c"
    unfolding escapedByte_def by (metis list.exhaust)
  then show thesis
  proof cases
    case (2 cs)
    then show ?thesis using quote assms by (simp add: str_loop_quote split: if_splits)
  next
    case (4 e es)
    then show ?thesis
      using assms simple [of e es] unicode
      by (simp add: str_loop_escape split: option.splits if_splits sum.splits)
  next
    case (6 c cs)
    then show ?thesis using plain [of c cs] assms by (simp add: str_loop_plain)
  qed (use assms in \<open>simp_all add: str_loop_Nil str_loop_escape_end str_loop_control\<close>)
qed

text \<open>Induction on a successful run of the string loop.\<close>

lemma str_loop_induct [consumes 1, case_names quote simple unicode plain]:
  assumes "str_loop start pos out s = Inr (t, q, r)"
    and "\<And>pos out r. clean_text True out \<Longrightarrow> P pos out (quote # r) out (pos + 1) r"
    and "\<And>pos out e d es t q r. simple_escape e = Some d \<Longrightarrow> P (pos + 2) (out @ [d]) es t q r \<Longrightarrow>
      P pos out (backslash # e # es) t q r"
    and "\<And>pos out es rn t q r. unicode_escape (pos + 2) es = Inr rn \<Longrightarrow>
      P (pos + 2 + snd rn) (append_rune out (fst rn)) (drop (snd rn) es) t q r \<Longrightarrow>
      P pos out (backslash # CHR ''u'' # es) t q r"
    and "\<And>pos out c cs t q r. \<not> escapedByte c \<Longrightarrow> P (pos + 1) (out @ [c]) cs t q r \<Longrightarrow> P pos out (c # cs) t q r"
  shows "P pos out s t q r"
  using assms(1)
proof (induction "length s" arbitrary: pos out s t q r rule: less_induct)
  case less
  from less.prems show ?case
  proof (cases rule: str_loop_success)
    case quote
    then show ?thesis using assms(2) by simp
  next
    case (simple e d es)
    then have "P (pos + 2) (out @ [d]) es t q r" using less.hyps by simp
    then show ?thesis using assms(3) [OF simple(3)] simple(1) by simp
  next
    case (unicode es rn)
    then have "P (pos + 2 + snd rn) (append_rune out (fst rn)) (drop (snd rn) es) t q r" using less.hyps by simp
    then show ?thesis using assms(4) [OF unicode(2)] unicode(1) by simp
  next
    case (plain c cs)
    then have "P (pos + 1) (out @ [c]) cs t q r" using less.hyps by simp
    then show ?thesis using assms(5) [OF plain(2)] plain(1) by simp
  qed
qed

lemma str_loop_shorter: "str_loop start pos out s = Inr (t, q, r) \<Longrightarrow> length r < length s"
  by (induction rule: str_loop_induct) auto

lemma str_loop_clean: "str_loop start pos out s = Inr (t, q, r) \<Longrightarrow> clean_text True t"
  by (induction rule: str_loop_induct) auto

lemma p_str_shorter: "p_str p = Inr (s, p') \<Longrightarrow> p_rest p \<noteq> [] \<Longrightarrow> length (p_rest p') < length (p_rest p)"
proof -
  assume a: "p_str p = Inr (s, p')" "p_rest p \<noteq> []"
  let ?s = "drop 1 (p_rest p)"
  have "length (dropWhile (\<lambda>c. \<not> escapedByte c) ?s) \<le> length (p_rest p)"
    using length_dropWhile_le [of "\<lambda>c. \<not> escapedByte c" ?s] by simp
  then show ?thesis
    using a by (fastforce simp: p_str_def Let_def advance_shorter dest: str_loop_shorter split: if_splits sum.splits)
qed

lemma member_key_shorter:
  assumes "member_key opts lenient obj p = Inr (k, p')"
  shows "length (p_rest p') < length (p_rest p)"
proof -
  obtain p1 where s: "p_str (p_ws lenient p) = Inr (k, p1)" "p_rest (p_ws lenient p) \<noteq> []"
    and p': "p_rest p' = drop 1 (p_rest (p_ws lenient p1))"
    using assms
    by (auto simp: member_key_def Let_def p_expected_def p_fail_def peek_Some advance_def
        split: if_splits sum.splits)
  have "length (p_rest p') \<le> length (p_rest p1)" using p' length_p_ws [of lenient p1] by simp
  also have "\<dots> < length (p_rest (p_ws lenient p))" by (rule p_str_shorter [OF s])
  also have "\<dots> \<le> length (p_rest p)" by (rule length_p_ws)
  finally show ?thesis .
qed

lemma after_item_shorter:
  assumes "after_item lenient close p = Inr (m, p')"
  shows "length (p_rest p') < length (p_rest p)"
proof -
  have "p_rest (p_ws lenient p) \<noteq> []" "p_rest p' = drop 1 (p_rest (p_ws lenient p))"
    using assms by (auto simp: after_item_def Let_def p_expected_def p_fail_def peek_def advance_def leave_def
        split: if_splits option.splits list.splits)
  then show ?thesis using length_p_ws [of lenient p] by (metis diff_less le_less_trans length_drop length_greater_0_conv not_le zero_less_one)
qed


lemma p_literal_shorter: "p_literal lit v p = Inr vp \<Longrightarrow> length (p_rest (snd vp)) \<le> length (p_rest p)"
  by (auto simp: p_literal_def p_fail_def advance_def split: if_splits)

lemma length_open_object: "length (p_rest (open_object lenient p)) \<le> length (p_rest p) - 1"
  using length_p_ws [of lenient "advance 1 p"] by (simp add: open_object_def advance_def)

lemma length_open_array: "length (p_rest (open_array lenient p)) \<le> length (p_rest p) - 1"
  using length_p_ws [of lenient "(advance 1 p)\<lparr>p_wide := False\<rparr>"] by (simp add: open_array_def advance_def)

lemma length_leave: "p_rest (leave p) = p_rest p"
  by (simp add: leave_def)

lemma p_value_rest:
  "p_value_p_object_p_members_p_array_p_elems_dom (Inl (Inl (opts, lenient, p))) \<Longrightarrow>
     \<forall>vp. p_value opts lenient p = Inr vp \<longrightarrow> length (p_rest (snd vp)) \<le> length (p_rest p)"
  "p_value_p_object_p_members_p_array_p_elems_dom (Inl (Inr (opts, lenient, p))) \<Longrightarrow>
     \<forall>vp. p_object opts lenient p = Inr vp \<longrightarrow> length (p_rest (snd vp)) \<le> length (p_rest p)"
  "p_value_p_object_p_members_p_array_p_elems_dom (Inr (Inl (opts, lenient, obj, p))) \<Longrightarrow>
     \<forall>vp. p_members opts lenient obj p = Inr vp \<longrightarrow> length (p_rest (snd vp)) \<le> length (p_rest p)"
  "p_value_p_object_p_members_p_array_p_elems_dom (Inr (Inr (Inl (opts, lenient, p)))) \<Longrightarrow>
     \<forall>vp. p_array opts lenient p = Inr vp \<longrightarrow> length (p_rest (snd vp)) \<le> length (p_rest p)"
  "p_value_p_object_p_members_p_array_p_elems_dom (Inr (Inr (Inr (opts, lenient, bound, arr, p)))) \<Longrightarrow>
     \<forall>vp. p_elems opts lenient bound arr p = Inr vp \<longrightarrow> length (p_rest (snd vp)) \<le> length (p_rest p)"
proof (induction opts lenient p and opts lenient p and opts lenient obj p and opts lenient p
    and opts lenient bound arr p rule: p_value_p_object_p_members_p_array_p_elems.pinduct)
  case (1 opts lenient p0)
  have le: "length (p_rest p) \<le> length (p_rest p0)" if "p_node opts (p_ws lenient p0) = Inr p" for p
    using p_node_rest [OF that] length_p_ws [of lenient p0] by simp
  show ?case
    using 1(2,3)
    by (force simp: p_value.psimps [OF 1(1)] p_fail_def dest: le p_literal_shorter p_str_shorter
        split: sum.splits list.splits if_splits)
next
  case (2 opts lenient p0)
  show ?case
  proof (intro allI impI)
    fix vp
    assume r: "p_object opts lenient p0 = Inr vp"
    then obtain p where p: "p_enter p0 = Inr p"
      by (auto simp: p_object.psimps [OF 2(1)] split: sum.splits)
    note rest = p_enter_rest [OF p] length_open_object [of lenient p]
    show "length (p_rest (snd vp)) \<le> length (p_rest p0)"
    proof (cases "peek (open_object lenient p) = Some (CHR ''}'')")
      case True
      then show ?thesis using r rest by (auto simp: p_object.psimps [OF 2(1)] p length_leave advance_def)
    next
      case False
      then show ?thesis using r rest 2(2) [OF p] by (fastforce simp: p_object.psimps [OF 2(1)] p)
    qed
  qed
next
  case (3 opts lenient obj p)
  show ?case
  proof (intro allI impI)
    fix wp
    assume r: "p_members opts lenient obj p = Inr wp"
    then obtain kp vp mp where k: "member_key opts lenient obj p = Inr kp"
      and v: "p_value opts lenient (snd kp) = Inr vp"
      and m: "after_item lenient (CHR ''}'') ((snd vp)\<lparr>p_wide := False\<rparr>) = Inr mp"
      by (auto simp: p_members.psimps [OF 3(1)] split: sum.splits)
    have "length (p_rest (snd mp)) \<le> length (p_rest p)"
      using member_key_shorter [of opts lenient obj p "fst kp" "snd kp"] 3(2) [OF k] v
        after_item_shorter [of lenient _ "(snd vp)\<lparr>p_wide := False\<rparr>" "fst mp" "snd mp"] k m
      by fastforce
    then show "length (p_rest (snd wp)) \<le> length (p_rest p)"
      using r 3(3) [OF k v m] by (cases "fst mp") (fastforce simp: p_members.psimps [OF 3(1)] k v m)+
  qed
next
  case (4 opts lenient p0)
  show ?case
  proof (intro allI impI)
    fix vp
    assume r: "p_array opts lenient p0 = Inr vp"
    then obtain p where p: "p_enter p0 = Inr p"
      by (auto simp: p_array.psimps [OF 4(1)] split: sum.splits)
    note rest = p_enter_rest [OF p] length_open_array [of lenient p]
    show "length (p_rest (snd vp)) \<le> length (p_rest p0)"
    proof (cases "peek (open_array lenient p) = Some (CHR '']'')")
      case True
      then show ?thesis using r rest by (auto simp: p_array.psimps [OF 4(1)] p length_leave advance_def)
    next
      case False
      then show ?thesis using r rest 4(2) [OF p] by (fastforce simp: p_array.psimps [OF 4(1)] p)
    qed
  qed
next
  case (5 opts lenient bound arr p)
  show ?case
  proof (intro allI impI)
    fix wp
    assume r: "p_elems opts lenient bound arr p = Inr wp"
    then obtain vp mp where v: "p_value opts lenient p = Inr vp"
      and b: "\<not> int (length (arr @ [fst vp])) > bound"
      and m: "after_item lenient (CHR '']'') (snd vp) = Inr mp"
      by (auto simp: p_elems.psimps [OF 5(1)] split: sum.splits if_splits)
    have "length (p_rest (snd mp)) \<le> length (p_rest p)"
      using 5(2) v after_item_shorter [of lenient _ "snd vp" "fst mp" "snd mp"] m by fastforce
    then show "length (p_rest (snd wp)) \<le> length (p_rest p)"
      using r b 5(3) [OF v b m] by (cases "fst mp") (fastforce simp: p_elems.psimps [OF 5(1)] v m)+
  qed
qed

text \<open>Every call shortens the suffix or, on the same suffix, goes from a loop to a value to a container.\<close>

definition parse_rank :: "(ParseOptions \<times> bool \<times> parser + ParseOptions \<times> bool \<times> parser) +
    ParseOptions \<times> bool \<times> object \<times> parser + ParseOptions \<times> bool \<times> parser +
    ParseOptions \<times> bool \<times> int \<times> val list \<times> parser \<Rightarrow> nat" where
  "parse_rank x = (case x of
     Inl (Inl (_, _, p)) \<Rightarrow> 3 * length (p_rest p) + 1
   | Inl (Inr (_, _, p)) \<Rightarrow> (if p_rest p = [] then 3 else 3 * length (p_rest p))
   | Inr (Inl (_, _, _, p)) \<Rightarrow> 3 * length (p_rest p) + 2
   | Inr (Inr (Inl (_, _, p))) \<Rightarrow> (if p_rest p = [] then 3 else 3 * length (p_rest p))
   | Inr (Inr (Inr (_, _, _, _, p))) \<Rightarrow> 3 * length (p_rest p) + 2)"

lemma value_head_le:
  assumes "p_node opts (p_ws lenient p0) = Inr p" "p_rest p = c # cs"
  shows "Suc (length cs) \<le> length (p_rest p0)"
  using p_node_rest [OF assms(1)] length_p_ws [of lenient p0] assms(2) by (metis length_Cons)

lemma members_next_shorter:
  assumes "p_value_p_object_p_members_p_array_p_elems_dom (Inl (Inl (opts, lenient, q)))"
    "p_value opts lenient q = Inr vp" "after_item lenient close ((snd vp)\<lparr>p_wide := w\<rparr>) = Inr mp"
  shows "length (p_rest (snd mp)) < length (p_rest q)"
  using p_value_rest(1) [OF assms(1)] assms(2) after_item_shorter [of lenient close _ "fst mp" "snd mp"] assms(3)
  by fastforce

lemma elems_next_shorter:
  assumes "p_value_p_object_p_members_p_array_p_elems_dom (Inl (Inl (opts, lenient, q)))"
    "p_value opts lenient q = Inr vp" "after_item lenient close (snd vp) = Inr mp"
  shows "length (p_rest (snd mp)) < length (p_rest q)"
  using members_next_shorter [OF assms(1,2), of close "p_wide (snd vp)"] assms(3) by simp

termination p_value
proof (relation "measure parse_rank", goal_cases)
  case (2 opts lenient p0 p c cs)
  then show ?case using value_head_le [of opts lenient p0 p c cs] by (simp add: parse_rank_def)
next
  case (3 opts lenient p0 p c cs)
  then show ?case using value_head_le [of opts lenient p0 p c cs] by (simp add: parse_rank_def)
next
  case (4 opts lenient p0 p)
  then show ?case using p_enter_rest [of p0 p] length_open_object [of lenient p]
    by (cases "p_rest p0") (simp_all add: parse_rank_def)
next
  case (5 opts lenient obj p kp)
  then show ?case using member_key_shorter [of opts lenient obj p "fst kp" "snd kp"] by (simp add: parse_rank_def)
next
  case (6 opts lenient obj p kp vp mp)
  then show ?case
    using members_next_shorter [of opts lenient "snd kp" vp "CHR ''}''" False mp]
      member_key_shorter [of opts lenient obj p "fst kp" "snd kp"] by (simp add: parse_rank_def)
next
  case (7 opts lenient p0 p)
  then show ?case using p_enter_rest [of p0 p] length_open_array [of lenient p]
    by (cases "p_rest p0") (simp_all add: parse_rank_def)
next
  case (9 opts lenient bound arr p vp mp)
  then show ?case
    using elems_next_shorter [of opts lenient p vp "CHR '']''" mp] by (simp add: parse_rank_def)
qed (simp_all add: parse_rank_def)

declare p_value.simps [simp del] p_object.simps [simp del] p_members.simps [simp del]
  p_array.simps [simp del] p_elems.simps [simp del]

subsection \<open>Documents\<close>

definition bom :: string where
  "bom = [CHR 0xEF, CHR 0xBB, CHR 0xBF]"

text \<open>The offset of the first difference between the document and its re-encoding.\<close>

fun common_prefix :: "string \<Rightarrow> string \<Rightarrow> nat" where
  "common_prefix (a # xs) (b # ys) = (if a = b then common_prefix xs ys + 1 else 0)"
| "common_prefix xs ys = 0"

definition norm_options :: "ParseOptions \<Rightarrow> ParseOptions" where
  "norm_options opts =
     (let opts = (if WideArrayMax opts \<le> 0
                  then opts\<lparr>WideArrayKey := [], WideArrayMax := int MaxJSONArrayElements\<rparr> else opts)
      in if MaxNodes opts \<le> 0 then opts\<lparr>MaxNodes := int MaxJSONNodes\<rparr> else opts)"

text \<open>The parser \<^verbatim>\<open>&parser{data: body}\<close> before it read anything.\<close>

definition new_parser :: "string \<Rightarrow> parser" where
  "new_parser body = \<lparr>p_rest = body, p_pos = 0, p_depth = 0, p_nodes = 0, p_wide = False\<rparr>"

definition ParseWith :: "string \<Rightarrow> ParseOptions \<Rightarrow> val res" where
  "ParseWith data opts0 =
     (let opts = norm_options opts0
      in if data = [] then Inl (Errorf CodeMalformed ''byte 0'')
         else if \<not> utf8_valid data then Inl (Errorf CodeMalformed [])
         else if HasPrefix data bom then Inl (Errorf CodeMalformed ''byte 0'')
         else if last data \<noteq> CHR 0x0A then Inl (Errorf CodeMalformed (byte_at (length data)))
         else
           let body = butlast data
           in (case p_value opts False (new_parser body) of
                 Inl e \<Rightarrow> Inl e
               | Inr (v, p) \<Rightarrow>
                  if p_rest p \<noteq> [] then p_fail p
                  else
                    let e = appendValue v []
                    in if e \<noteq> body then Inl (Errorf CodeMalformed (byte_at (common_prefix e body)))
                       else Inr v))"

definition Parse :: "string \<Rightarrow> val res" where
  "Parse data = ParseWith data \<lparr>WideArrayKey = [], WideArrayMax = 0, MaxNodes = 0\<rparr>"

definition input_options :: ParseOptions where
  "input_options = \<lparr>WideArrayKey = [], WideArrayMax = int MaxJSONArrayElements, MaxNodes = int MaxJSONNodes\<rparr>"

definition ParseInput :: "string \<Rightarrow> val res" where
  "ParseInput data =
     (if data = [] then Inl (Errorf CodeMalformed ''byte 0'')
      else if \<not> utf8_valid data then Inl (Errorf CodeMalformed [])
      else if HasPrefix data bom then Inl (Errorf CodeMalformed ''byte 0'')
      else
        (case p_value input_options True (new_parser data) of
           Inl e \<Rightarrow> Inl e
         | Inr (v, p) \<Rightarrow>
            if p_rest (p_ws True p) \<noteq> [] then p_fail (p_ws True p) else Inr v))"

text \<open>\<^verbatim>\<open>unsortedKeys\<close>: the JSON pointer of the first object, in document order, with unsorted keys.\<close>

fun unsortedKeys :: "val \<Rightarrow> string \<Rightarrow> string option"
  and unsorted_members :: "(string \<times> val) list \<Rightarrow> string \<Rightarrow> string option"
  and unsorted_elems :: "val list \<Rightarrow> nat \<Rightarrow> string \<Rightarrow> string option"
where
  "unsortedKeys (VObject kvs) path =
     (if \<not> sorted (obj_Keys kvs) then Some (if path = [] then ''/'' else path)
      else unsorted_members kvs path)"
| "unsortedKeys (VArray vs) path = unsorted_elems vs 0 path"
| "unsortedKeys v path = None"
| "unsorted_members [] path = None"
| "unsorted_members ((k, v) # kvs) path = (case unsortedKeys v (path @ ''/'' @ k) of
     Some q \<Rightarrow> Some q
   | None \<Rightarrow> unsorted_members kvs path)"
| "unsorted_elems [] i path = None"
| "unsorted_elems (v # vs) i path = (case unsortedKeys v (path @ ''/'' @ format_nat i) of
     Some q \<Rightarrow> Some q
   | None \<Rightarrow> unsorted_elems vs (i + 1) path)"

end
