(* ===== verification/Codec.thy ===== *)
theory Codec
  imports Parser
begin

text \<open>
  The codec contract of the wire package: which values have a canonical document, and that
  \<^verbatim>\<open>Parse\<close>, \<^verbatim>\<open>ParseInput\<close> and \<^verbatim>\<open>Encode\<close> agree on them. \<open>fits\<close> is the declarative form of the decode
  bounds of \<^verbatim>\<open>parse.go\<close> (depth, array length, distinct keys, clean strings), \<open>nodes\<close> the node count
  it bounds, \<open>sorted_val\<close> the canonical member order.
\<close>

subsection \<open>The values within the decode bounds\<close>

lemma clean_text_code [code]: "clean_text a s \<longleftrightarrow> hostile_loop s [] a = Inr ()"
  by (simp add: hostile_loop_iff)

fun nodes :: "val \<Rightarrow> nat" where
  "nodes (VArray vs) = 1 + sum_list (map nodes vs)"
| "nodes (VObject kvs) = 1 + sum_list (map (\<lambda>(k, v). nodes v) kvs)"
| "nodes v = 1"

fun fits :: "ParseOptions \<Rightarrow> nat \<Rightarrow> bool \<Rightarrow> val \<Rightarrow> bool" where
  "fits opts d w (VString s) \<longleftrightarrow> clean_text True s"
| "fits opts d w (VArray vs) \<longleftrightarrow> d + 1 \<le> MaxJSONDepth \<and>
     int (length vs) \<le> (if w \<and> d + 1 = 2 then WideArrayMax opts else int MaxJSONArrayElements) \<and>
     (\<forall>v\<in>set vs. fits opts (d + 1) False v)"
| "fits opts d w (VObject kvs) \<longleftrightarrow> d + 1 \<le> MaxJSONDepth \<and> distinct (map fst kvs) \<and>
     (\<forall>(k, v)\<in>set kvs. clean_text True k \<and>
        fits opts (d + 1) (d + 1 = 1 \<and> WideArrayKey opts \<noteq> [] \<and> k = WideArrayKey opts) v)"
| "fits opts d w VNull \<longleftrightarrow> True"
| "fits opts d w (VBool b) \<longleftrightarrow> True"

text \<open>The bounds of \<^verbatim>\<open>Parse\<close> and \<^verbatim>\<open>ParseInput\<close>.\<close>

definition within_bounds :: "val \<Rightarrow> bool" where
  "within_bounds v \<longleftrightarrow> fits input_options 0 False v \<and> nodes v \<le> MaxJSONNodes"

fun sorted_val :: "val \<Rightarrow> bool" where
  "sorted_val (VArray vs) \<longleftrightarrow> (\<forall>v\<in>set vs. sorted_val v)"
| "sorted_val (VObject kvs) \<longleftrightarrow> sorted (map fst kvs) \<and> (\<forall>(k, v)\<in>set kvs. sorted_val v)"
| "sorted_val v \<longleftrightarrow> True"

text \<open>The invariant of \<^verbatim>\<open>Object\<close>: its keys are distinct, at every level.\<close>

fun distinct_val :: "val \<Rightarrow> bool" where
  "distinct_val (VArray vs) \<longleftrightarrow> (\<forall>v\<in>set vs. distinct_val v)"
| "distinct_val (VObject kvs) \<longleftrightarrow> distinct (map fst kvs) \<and> (\<forall>(k, v)\<in>set kvs. distinct_val v)"
| "distinct_val v \<longleftrightarrow> True"

text \<open>The member order of the encoding.\<close>

fun canon :: "val \<Rightarrow> val" where
  "canon (VArray vs) = VArray (map canon vs)"
| "canon (VObject kvs) = VObject (sort_key fst (map (\<lambda>(k, v). (k, canon v)) kvs))"
| "canon v = v"

subsection \<open>Parsing an encoded string\<close>

lemma p_ws_noop: "p_rest p = [] \<or> \<not> isJSONSpace (hd (p_rest p)) \<Longrightarrow> p_ws lenient p = p"
  by (cases "p_rest p") (auto simp: p_ws_def advance_def)

lemma advance_append: "p_rest p = a @ r \<Longrightarrow> n = length a \<Longrightarrow> advance n p = p\<lparr>p_rest := r, p_pos := p_pos p + length a\<rparr>"
  by (simp add: advance_def)

text \<open>A byte that clean text may hold and that the encoder escapes has a short escape.\<close>

lemma enc_byte_short:
  assumes "escapedByte c" "bv c < 0x20 \<longrightarrow> c = CHR 0x09 \<or> c = CHR 0x0A \<or> c = CHR 0x0D"
  shows "\<exists>e. enc_byte c = [backslash, e] \<and> simple_escape e = Some c"
  using assms unfolding enc_byte_def escape_byte_def escapedByte_def simple_escape_def by fastforce

lemma str_loop_enc:
  assumes "\<forall>c\<in>set t. bv c < 0x20 \<longrightarrow> c = CHR 0x09 \<or> c = CHR 0x0A \<or> c = CHR 0x0D"
    "clean_text True (out @ t)"
  shows "str_loop start pos out (concat (map enc_byte t) @ quote # r) =
     Inr (out @ t, pos + length (concat (map enc_byte t)) + 1, r)"
  using assms
proof (induction t arbitrary: pos out)
  case Nil
  then show ?case by (simp add: str_loop_quote)
next
  case (Cons c t)
  show ?case
  proof (cases "escapedByte c")
    case True
    then obtain e where e: "enc_byte c = [backslash, e]" "simple_escape e = Some c"
      using enc_byte_short Cons.prems(1) by auto
    then show ?thesis using Cons by (simp add: str_loop_escape)
  next
    case False
    then show ?thesis using Cons by (simp add: enc_byte_def str_loop_plain)
  qed
qed

lemma concat_enc_plain: "\<forall>c\<in>set s. \<not> escapedByte c \<Longrightarrow> concat (map enc_byte s) = s"
  by (induction s) (auto simp: enc_byte_def)

lemma not_escapedByte_quote [simp]: "escapedByte quote" "escapedByte backslash"
  by (simp_all add: escapedByte_def)

lemma p_str_enc:
  assumes "clean_text True s" "p_rest p = enc_str s @ r"
  shows "p_str p = Inr (s, p\<lparr>p_rest := r, p_pos := p_pos p + length (enc_str s)\<rparr>)"
proof -
  have ctl: "\<forall>c\<in>set s. bv c < 0x20 \<longrightarrow> c = CHR 0x09 \<or> c = CHR 0x0A \<or> c = CHR 0x0D"
    using clean_text_controls [OF assms(1)] by blast
  have rest: "drop 1 (p_rest p) = concat (map enc_byte s) @ quote # r"
    using assms(2) by (simp add: enc_str_def)
  have ok: "checkHostile s l True = Inr ()" for l using assms(1) by simp
  show ?thesis
  proof (cases "\<forall>c\<in>set s. \<not> escapedByte c")
    case True
    then have d: "drop 1 (p_rest p) = s @ quote # r" using rest concat_enc_plain by simp
    have "advance (length s + 2) p = p\<lparr>p_rest := r, p_pos := p_pos p + length (enc_str s)\<rparr>"
      using assms(2) concat_enc_plain [OF True] by (intro advance_append [of p "enc_str s" r, THEN trans]) (simp_all add: enc_str_def)
    then show ?thesis
      using True ok unfolding p_str_def Let_def d
      by (simp add: takeWhile_append2 dropWhile_append2 del: checkHostile_iff)
  next
    case False
    then obtain a c b where s: "s = a @ c # b" "escapedByte c" "\<forall>x\<in>set a. \<not> escapedByte x"
      using split_list_first_prop [of s escapedByte] by blast
    obtain e where e: "enc_byte c = [backslash, e]" using enc_byte_short s ctl by fastforce
    have t: "takeWhile (\<lambda>c. \<not> escapedByte c) (drop 1 (p_rest p)) = a"
      "dropWhile (\<lambda>c. \<not> escapedByte c) (drop 1 (p_rest p)) = concat (map enc_byte (c # b)) @ quote # r"
      unfolding rest using s e concat_enc_plain [OF s(3)] by (simp_all add: takeWhile_append2 dropWhile_append2)
    have "str_loop (p_pos p) (p_pos p + 1 + length a) a (concat (map enc_byte (c # b)) @ quote # r) =
        Inr (a @ c # b, p_pos p + length (enc_str s), r)"
      using str_loop_enc [of "c # b" a "p_pos p" "p_pos p + 1 + length a" r] ctl assms(1) s
        concat_enc_plain [OF s(3)] by (simp add: enc_str_def)
    then show ?thesis unfolding p_str_def Let_def t using e s by simp
  qed
qed

lemma p_str_clean: "p_str p = Inr (s, p') \<Longrightarrow> clean_text True s"
proof -
  assume a: "p_str p = Inr (s, p')"
  let ?run = "takeWhile (\<lambda>c. \<not> escapedByte c) (drop 1 (p_rest p))"
  have "clean_text True ?run" if "\<not> list_ex (\<lambda>c. bv c \<ge> 0x80) ?run"
  proof (rule plainASCII_clean)
    show "plainASCII ?run True"
      unfolding plainASCII_def list_all_iff
    proof
      fix c
      assume c: "c \<in> set ?run"
      then have "\<not> escapedByte c" by (auto dest: set_takeWhileD)
      moreover have "\<not> bv c \<ge> 0x80" using that c unfolding list_ex_iff by blast
      ultimately show "\<not> (bv c \<ge> 0x80 \<or> bv c < 0x20 \<and> \<not> (True \<and> (bv c = 0x09 \<or> bv c = 0x0A \<or> bv c = 0x0D)))"
        unfolding escapedByte_def by blast
    qed
  qed
  then show ?thesis
    using a by (auto simp: p_str_def Let_def dest: str_loop_clean split: if_splits sum.splits)
qed

subsection \<open>Parsing an encoded value\<close>

text \<open>What is left of \<^verbatim>\<open>p.wide\<close> after a value, and the parser after it read \<open>v\<close>.\<close>

definition wide_after :: "bool \<Rightarrow> val \<Rightarrow> bool" where
  "wide_after w v = (case v of VArray vs \<Rightarrow> False | VObject kvs \<Rightarrow> w \<and> kvs = [] | _ \<Rightarrow> w)"

definition after_val :: "parser \<Rightarrow> val \<Rightarrow> string \<Rightarrow> parser" where
  "after_val p v r = p\<lparr>p_rest := r, p_pos := p_pos p + length (enc v), p_nodes := p_nodes p + nodes v,
     p_wide := wide_after (p_wide p) v\<rparr>"

lemma wide_after_False [simp]: "wide_after False v = False"
  by (simp add: wide_after_def split: val.splits)

lemma after_val_sel [simp]:
  "p_rest (after_val p v r) = r" "p_depth (after_val p v r) = p_depth p"
  "p_nodes (after_val p v r) = p_nodes p + nodes v" "p_pos (after_val p v r) = p_pos p + length (enc v)"
  "p_wide (after_val p v r) = wide_after (p_wide p) v"
  by (simp_all add: after_val_def)

text \<open>The parser reads \<open>v\<close> from the canonical form of \<open>v\<close>, whatever follows.\<close>

definition reads :: "ParseOptions \<Rightarrow> bool \<Rightarrow> nat \<Rightarrow> bool \<Rightarrow> val \<Rightarrow> bool" where
  "reads opts lenient d w v \<longleftrightarrow>
     (\<forall>p r. p_rest p = enc v @ r \<longrightarrow> p_depth p = d \<longrightarrow> p_wide p = w \<longrightarrow>
        int (p_nodes p + nodes v) \<le> MaxNodes opts \<longrightarrow>
        p_value opts lenient p = Inr (v, after_val p v r))"

lemma readsD:
  "reads opts lenient d w v \<Longrightarrow> p_rest p = enc v @ r \<Longrightarrow> p_depth p = d \<Longrightarrow> p_wide p = w \<Longrightarrow>
    int (p_nodes p + nodes v) \<le> MaxNodes opts \<Longrightarrow> p_value opts lenient p = Inr (v, after_val p v r)"
  by (simp add: reads_def)

definition first_byte :: "char \<Rightarrow> bool" where
  "first_byte c \<longleftrightarrow> c \<in> set [CHR ''{'', CHR ''['', quote, CHR ''t'', CHR ''f'', CHR ''n'']"

lemma enc_first: "\<exists>c cs. enc v = c # cs \<and> first_byte c"
  by (cases v) (auto simp: enc_str_def first_byte_def)

lemma first_not_space: "first_byte c \<Longrightarrow> \<not> isJSONSpace c"
  by (auto simp: first_byte_def isJSONSpace_def)

lemma enc_str_head: "enc_str s = quote # tl (enc_str s)"
  by (simp add: enc_str_def)

lemma nodes_pos [simp]: "0 < nodes v"
  by (cases v) auto

lemma p_node_ok: "int (p_nodes p + n) \<le> MaxNodes opts \<Longrightarrow> 0 < n \<Longrightarrow> p_node opts p = Inr (p\<lparr>p_nodes := p_nodes p + 1\<rparr>)"
  by (simp add: p_node_def)

lemma after_item_comma:
  "p_rest p = CHR '','' # r \<Longrightarrow> after_item lenient close p = Inr (True, p\<lparr>p_rest := r, p_pos := p_pos p + 1\<rparr>)"
  by (simp add: after_item_def p_ws_noop isJSONSpace_def peek_def advance_def)

lemma after_item_close:
  "p_rest p = close # r \<Longrightarrow> \<not> isJSONSpace close \<Longrightarrow> close \<noteq> CHR '','' \<Longrightarrow>
   after_item lenient close p = Inr (False, p\<lparr>p_rest := r, p_pos := p_pos p + 1, p_depth := p_depth p - 1\<rparr>)"
  by (simp add: after_item_def p_ws_noop peek_def advance_def leave_def)

text \<open>The parser after the elements \<open>vs\<close> of an array and the closing bracket.\<close>

definition after_list :: "parser \<Rightarrow> nat \<Rightarrow> nat \<Rightarrow> string \<Rightarrow> parser" where
  "after_list p len n r = p\<lparr>p_rest := r, p_pos := p_pos p + len + 1, p_nodes := p_nodes p + n,
     p_depth := p_depth p - 1\<rparr>"

lemma p_elems_enc:
  assumes "vs \<noteq> []" "\<forall>v\<in>set vs. reads opts lenient (p_depth p) False v" "\<not> p_wide p"
    "p_rest p = join '','' (map enc vs) @ CHR '']'' # r"
    "int (p_nodes p + sum_list (map nodes vs)) \<le> MaxNodes opts"
    "int (length arr + length vs) \<le> bound"
  shows "p_elems opts lenient bound arr p =
    Inr (VArray (arr @ vs), after_list p (length (join '','' (map enc vs))) (sum_list (map nodes vs)) r)"
  using assms
proof (induction vs arbitrary: arr p)
  case (Cons v vs)
  let ?r = "(if vs = [] then CHR '']'' # r else CHR '','' # join '','' (map enc vs) @ CHR '']'' # r)"
  have rest: "p_rest p = enc v @ ?r"
    using Cons.prems(4) by (cases vs) auto
  have pv: "p_value opts lenient p = Inr (v, after_val p v ?r)"
    by (rule readsD [of opts lenient "p_depth p" False]) (use Cons.prems rest in auto)
  have len: "\<not> int (length (arr @ [v])) > bound" using Cons.prems(6) by simp
  show ?case
  proof (cases "vs = []")
    case True
    then have "after_item lenient (CHR '']'') (after_val p v ?r) =
        Inr (False, after_list p (length (enc v)) (nodes v) r)"
      using Cons.prems(3)
      by (simp add: after_item_close isJSONSpace_def after_list_def after_val_def)
    then show ?thesis using True pv len by (simp add: p_elems.simps)
  next
    case False
    let ?q = "(after_val p v ?r)\<lparr>p_rest := join '','' (map enc vs) @ CHR '']'' # r, p_pos := p_pos p + length (enc v) + 1\<rparr>"
    have m: "after_item lenient (CHR '']'') (after_val p v ?r) = Inr (True, ?q)"
      using False by (simp add: after_item_comma)
    have "p_elems opts lenient bound (arr @ [v]) ?q =
      Inr (VArray ((arr @ [v]) @ vs), after_list ?q (length (join '','' (map enc vs))) (sum_list (map nodes vs)) r)"
      by (rule Cons.IH) (use Cons.prems False in auto)
    also have "after_list ?q (length (join '','' (map enc vs))) (sum_list (map nodes vs)) r =
      after_list p (length (join '','' (map enc (v # vs)))) (sum_list (map nodes (v # vs))) r"
      using False Cons.prems(3) by (cases vs) (simp_all add: after_list_def after_val_def)
    finally show ?thesis using pv len m by (simp add: p_elems.simps)
  qed
qed simp

text \<open>The bytes of one member, and the wide flag its value is read with.\<close>

definition enc_member :: "string \<times> val \<Rightarrow> string" where
  "enc_member kv = enc_str (fst kv) @ '':'' @ enc (snd kv)"

definition member_wide :: "ParseOptions \<Rightarrow> nat \<Rightarrow> string \<Rightarrow> bool" where
  "member_wide opts d k \<longleftrightarrow> d = 1 \<and> WideArrayKey opts \<noteq> [] \<and> k = WideArrayKey opts"

lemma member_key_enc:
  assumes "p_rest p = enc_str k @ CHR '':'' # r" "clean_text True k" "k \<notin> set (obj_Keys obj)"
  shows "member_key opts lenient obj p =
     Inr (k, p\<lparr>p_rest := r, p_pos := p_pos p + length (enc_str k) + 1, p_wide := member_wide opts (p_depth p) k\<rparr>)"
proof -
  have q: "peek p = Some quote" "p_ws lenient p = p"
    using assms(1) enc_str_head [of k] by (auto simp: peek_Some enc_str_def isJSONSpace_def intro: p_ws_noop)
  let ?q = "p\<lparr>p_rest := CHR '':'' # r, p_pos := p_pos p + length (enc_str k)\<rparr>"
  have s: "p_str p = Inr (k, ?q)" by (rule p_str_enc [OF assms(2,1)])
  have "p_ws lenient ?q = ?q" "peek ?q = Some (CHR '':'')"
    by (simp_all add: p_ws_noop isJSONSpace_def peek_def)
  then show ?thesis
    using q s assms(3) by (simp add: member_key_def advance_def member_wide_def)
qed

lemma p_members_enc:
  assumes "kvs \<noteq> []" "distinct (map fst kvs)" "set (obj_Keys obj) \<inter> fst ` set kvs = {}"
    "\<forall>(k, v)\<in>set kvs. clean_text True k \<and> reads opts lenient (p_depth p) (member_wide opts (p_depth p) k) v"
    "p_rest p = join '','' (map enc_member kvs) @ CHR ''}'' # r"
    "int (p_nodes p + sum_list (map (\<lambda>(k, v). nodes v) kvs)) \<le> MaxNodes opts"
  shows "p_members opts lenient obj p =
    Inr (VObject (obj @ kvs),
      (after_list p (length (join '','' (map enc_member kvs))) (sum_list (map (\<lambda>(k, v). nodes v) kvs)) r)\<lparr>p_wide := False\<rparr>)"
  using assms
proof (induction kvs arbitrary: obj p)
  case (Cons kv kvs)
  obtain k v where kv: "kv = (k, v)" by (cases kv)
  let ?r = "(if kvs = [] then CHR ''}'' # r else CHR '','' # join '','' (map enc_member kvs) @ CHR ''}'' # r)"
  let ?p1 = "p\<lparr>p_rest := enc v @ ?r, p_pos := p_pos p + length (enc_str k) + 1, p_wide := member_wide opts (p_depth p) k\<rparr>"
  have "p_rest p = enc_str k @ CHR '':'' # enc v @ ?r"
    using Cons.prems(5) by (cases kvs) (auto simp: kv enc_member_def [of "(k, v)"])
  then have mk: "member_key opts lenient obj p = Inr (k, ?p1)"
    by (rule member_key_enc) (use Cons.prems kv in auto)
  have pv: "p_value opts lenient ?p1 = Inr (v, after_val ?p1 v ?r)"
    by (rule readsD [of opts lenient "p_depth p" "member_wide opts (p_depth p) k"]) (use Cons.prems kv in auto)
  have set: "obj_Set obj k v = obj @ [(k, v)]" using Cons.prems(3) kv by (simp add: obj_Set_new)
  show ?case
  proof (cases "kvs = []")
    case True
    then have "after_item lenient (CHR ''}'') ((after_val ?p1 v ?r)\<lparr>p_wide := False\<rparr>) =
        Inr (False, (after_list p (length (enc_member (k, v))) (nodes v) r)\<lparr>p_wide := False\<rparr>)"
      by (simp add: after_item_close isJSONSpace_def after_list_def after_val_def enc_member_def)
    then show ?thesis using True mk pv set kv by (simp add: p_members.simps)
  next
    case False
    let ?q = "((after_val ?p1 v ?r)\<lparr>p_wide := False\<rparr>)\<lparr>p_rest := join '','' (map enc_member kvs) @ CHR ''}'' # r,
      p_pos := p_pos p + length (enc_member (k, v)) + 1\<rparr>"
    have m: "after_item lenient (CHR ''}'') ((after_val ?p1 v ?r)\<lparr>p_wide := False\<rparr>) = Inr (True, ?q)"
      using False by (simp add: after_item_comma enc_member_def)
    have "p_members opts lenient (obj @ [(k, v)]) ?q =
      Inr (VObject ((obj @ [(k, v)]) @ kvs),
        (after_list ?q (length (join '','' (map enc_member kvs))) (sum_list (map (\<lambda>(k, v). nodes v) kvs)) r)\<lparr>p_wide := False\<rparr>)"
      by (rule Cons.IH) (use Cons.prems False kv in \<open>auto simp: obj_Keys_def\<close>)
    also have "(after_list ?q (length (join '','' (map enc_member kvs))) (sum_list (map (\<lambda>(k, v). nodes v) kvs)) r)\<lparr>p_wide := False\<rparr> =
      (after_list p (length (join '','' (map enc_member ((k, v) # kvs)))) (sum_list (map (\<lambda>(k, v). nodes v) ((k, v) # kvs))) r)\<lparr>p_wide := False\<rparr>"
      using False by (cases kvs) (simp_all add: after_list_def after_val_def)
    finally show ?thesis using mk pv m set kv by (simp add: p_members.simps)
  qed
qed simp

lemma enc_object_sorted:
  assumes "sorted (map fst kvs)" "distinct (map fst kvs)"
  shows "enc (VObject kvs) = ''{'' @ join '','' (map enc_member kvs) @ ''}''"
proof -
  have "SortedKeys kvs = map fst kvs" using assms(1) by (simp add: SortedKeys_def obj_Keys_def sort_key_id_if_sorted)
  moreover have "map (\<lambda>k. enc_str k @ '':'' @ the (map_of (map (\<lambda>(k, v). (k, enc v)) kvs) k)) (map fst kvs) =
      map enc_member kvs"
    unfolding map_map
  proof (rule map_cong)
    fix kv
    assume "kv \<in> set kvs"
    then have "map_of kvs (fst kv) = Some (snd kv)" "fst kv \<in> fst ` set kvs"
      using assms(2) by (auto intro: map_of_is_SomeI)
    then show "((\<lambda>k. enc_str k @ '':'' @ the (map_of (map (\<lambda>(k, v). (k, enc v)) kvs) k)) \<circ> fst) kv = enc_member kv"
      using the_map_of_map [of "fst kv" kvs enc] by (simp add: enc_member_def)
  qed simp
  ultimately show ?thesis by (simp only: enc.simps)
qed

text \<open>The first step of \<^verbatim>\<open>value\<close> on a canonical form: no whitespace is skipped and the node is counted.\<close>

lemma p_value_start:
  assumes "p_rest p = enc v @ r" "int (p_nodes p + nodes v) \<le> MaxNodes opts"
  shows "p_node opts (p_ws lenient p) = Inr (p\<lparr>p_nodes := p_nodes p + 1\<rparr>)"
proof -
  obtain c cs where "enc v = c # cs" "first_byte c" using enc_first by blast
  then have "p_ws lenient p = p" using assms(1) first_not_space by (intro p_ws_noop) auto
  then show ?thesis using assms(2) nodes_pos p_node_ok by simp
qed

lemma reads_literal:
  "reads opts lenient d w VNull" "reads opts lenient d w (VBool b)"
  unfolding reads_def
  using p_value_start [of _ VNull _ opts lenient] p_value_start [of _ "VBool b" _ opts lenient]
  by (auto simp: p_value.simps p_literal_def after_val_def wide_after_def advance_def)

lemma reads_string: "clean_text True s \<Longrightarrow> reads opts lenient d w (VString s)"
  unfolding reads_def
proof (intro allI impI)
  fix p :: parser and r
  assume cl: "clean_text True s" and rest: "p_rest p = enc (VString s) @ r"
    and n: "int (p_nodes p + nodes (VString s)) \<le> MaxNodes opts"
  let ?q = "p\<lparr>p_nodes := p_nodes p + 1\<rparr>"
  have s: "p_str ?q = Inr (s, ?q\<lparr>p_rest := r, p_pos := p_pos p + length (enc_str s)\<rparr>)"
    using p_str_enc [OF cl, of ?q r] rest by simp
  obtain cs where "p_rest ?q = quote # cs" using rest by (simp add: enc_str_def)
  then show "p_value opts lenient p = Inr (VString s, after_val p (VString s) r)"
    using s p_value_start [OF rest n] by (simp add: p_value.simps after_val_def wide_after_def)
qed

lemma open_object_noop:
  "p_rest p = CHR ''{'' # c # r \<Longrightarrow> \<not> isJSONSpace c \<Longrightarrow>
    open_object lenient p = p\<lparr>p_rest := c # r, p_pos := p_pos p + 1\<rparr>"
  unfolding open_object_def by (subst p_ws_noop) (simp_all add: advance_def)

lemma open_array_noop:
  "p_rest p = CHR ''['' # c # r \<Longrightarrow> \<not> isJSONSpace c \<Longrightarrow>
    open_array lenient p = p\<lparr>p_rest := c # r, p_pos := p_pos p + 1, p_wide := False\<rparr>"
  unfolding open_array_def by (subst p_ws_noop) (simp_all add: advance_def)

lemma join_head: "xs \<noteq> [] \<Longrightarrow> hd xs = c # cs \<Longrightarrow> \<exists>ds. join sep xs = c # ds"
  by (cases xs; cases "tl xs") auto

lemma reads_array:
  assumes "d + 1 \<le> MaxJSONDepth"
    "int (length vs) \<le> (if w \<and> d + 1 = 2 then WideArrayMax opts else int MaxJSONArrayElements)"
    "\<forall>v\<in>set vs. reads opts lenient (d + 1) False v"
  shows "reads opts lenient d w (VArray vs)"
  unfolding reads_def
proof (intro allI impI)
  fix p :: parser and r
  assume rest: "p_rest p = enc (VArray vs) @ r" and d: "p_depth p = d" and w: "p_wide p = w"
    and n: "int (p_nodes p + nodes (VArray vs)) \<le> MaxNodes opts"
  let ?q = "p\<lparr>p_nodes := p_nodes p + 1\<rparr>"
  let ?q1 = "?q\<lparr>p_depth := d + 1\<rparr>"
  have e: "p_enter ?q = Inr ?q1" using assms(1) d by (simp add: p_enter_def)
  have b: "array_bound opts ?q1 = (if w \<and> d + 1 = 2 then WideArrayMax opts else int MaxJSONArrayElements)"
    by (simp add: array_bound_def w)
  have v: "p_value opts lenient p = p_array opts lenient ?q"
    using p_value_start [OF rest n] rest by (simp add: p_value.simps)
  show "p_value opts lenient p = Inr (VArray vs, after_val p (VArray vs) r)"
  proof (cases "vs = []")
    case True
    have "open_array lenient ?q1 = ?q1\<lparr>p_rest := CHR '']'' # r, p_pos := p_pos p + 1, p_wide := False\<rparr>"
      using open_array_noop [of ?q1 "CHR '']''" r lenient] True rest by (simp add: isJSONSpace_def)
    then show ?thesis
      using v e True d by (simp add: p_array.simps peek_def leave_def advance_def after_val_def wide_after_def)
  next
    case False
    obtain c cs where c: "hd (map enc vs) = c # cs" "first_byte c"
      using False enc_first [of "hd vs"] by (auto simp: hd_map)
    then obtain ds where ds: "join '','' (map enc vs) = c # ds" using join_head False by fastforce
    let ?q2 = "?q1\<lparr>p_rest := join '','' (map enc vs) @ CHR '']'' # r, p_pos := p_pos p + 1, p_wide := False\<rparr>"
    have o: "open_array lenient ?q1 = ?q2"
      using open_array_noop [of ?q1 c "ds @ CHR '']'' # r" lenient] c rest ds first_not_space by simp
    have "c \<noteq> CHR '']''" using c(2) by (auto simp: first_byte_def)
    then have nc: "peek ?q2 \<noteq> Some (CHR '']'')" using ds by (simp add: peek_def)
    have "p_elems opts lenient (array_bound opts ?q1) [] ?q2 =
        Inr (VArray ([] @ vs), after_list ?q2 (length (join '','' (map enc vs))) (sum_list (map nodes vs)) r)"
      by (rule p_elems_enc) (use False assms n b in auto)
    then show ?thesis
      using v e o nc d by (simp add: p_array.simps after_list_def after_val_def wide_after_def)
  qed
qed

lemma reads_object:
  assumes "d + 1 \<le> MaxJSONDepth" "sorted (map fst kvs)" "distinct (map fst kvs)"
    "\<forall>(k, v)\<in>set kvs. clean_text True k \<and> reads opts lenient (d + 1) (member_wide opts (d + 1) k) v"
  shows "reads opts lenient d w (VObject kvs)"
  unfolding reads_def
proof (intro allI impI)
  fix p :: parser and r
  assume rest0: "p_rest p = enc (VObject kvs) @ r" and d: "p_depth p = d" and w: "p_wide p = w"
    and n: "int (p_nodes p + nodes (VObject kvs)) \<le> MaxNodes opts"
  note en = enc_object_sorted [OF assms(2,3)]
  have rest: "p_rest p = CHR ''{'' # join '','' (map enc_member kvs) @ CHR ''}'' # r"
    using rest0 unfolding en by simp
  let ?q = "p\<lparr>p_nodes := p_nodes p + 1\<rparr>"
  let ?q1 = "?q\<lparr>p_depth := d + 1\<rparr>"
  have e: "p_enter ?q = Inr ?q1" using assms(1) d by (simp add: p_enter_def)
  have v: "p_value opts lenient p = p_object opts lenient ?q"
    using p_value_start [OF rest0 n] rest by (simp add: p_value.simps)
  show "p_value opts lenient p = Inr (VObject kvs, after_val p (VObject kvs) r)"
  proof (cases "kvs = []")
    case True
    have "open_object lenient ?q1 = ?q1\<lparr>p_rest := CHR ''}'' # r, p_pos := p_pos p + 1\<rparr>"
      using open_object_noop [of ?q1 "CHR ''}''" r lenient] True rest by (simp add: isJSONSpace_def)
    then show ?thesis
      using v e True d by (simp add: p_object.simps peek_def leave_def advance_def after_val_def wide_after_def NewObject_def SortedKeys_def obj_Keys_def)
  next
    case False
    obtain cs where c: "hd (map enc_member kvs) = quote # cs"
      using False by (cases kvs) (auto simp: enc_member_def enc_str_def)
    then obtain ds where ds: "join '','' (map enc_member kvs) = quote # ds" using join_head False by fastforce
    let ?q2 = "?q1\<lparr>p_rest := join '','' (map enc_member kvs) @ CHR ''}'' # r, p_pos := p_pos p + 1\<rparr>"
    have o: "open_object lenient ?q1 = ?q2"
      using open_object_noop [of ?q1 quote "ds @ CHR ''}'' # r" lenient] rest ds by (simp add: isJSONSpace_def)
    have nc: "peek ?q2 \<noteq> Some (CHR ''}'')" using ds by (simp add: peek_def)
    have "p_members opts lenient [] ?q2 =
        Inr (VObject ([] @ kvs), (after_list ?q2 (length (join '','' (map enc_member kvs)))
          (sum_list (map (\<lambda>(k, v). nodes v) kvs)) r)\<lparr>p_wide := False\<rparr>)"
      by (rule p_members_enc) (use False assms n in \<open>auto simp: obj_Keys_def\<close>)
    moreover have "after_val p (VObject kvs) r = (after_list ?q2 (length (join '','' (map enc_member kvs)))
          (sum_list (map (\<lambda>(k, v). nodes v) kvs)) r)\<lparr>p_wide := False\<rparr>"
      unfolding after_val_def en using False d by (simp add: after_list_def wide_after_def)
    ultimately show ?thesis
      using v e o nc by (simp add: p_object.simps NewObject_def)
  qed
qed

lemma fits_reads: "fits opts d w v \<Longrightarrow> sorted_val v \<Longrightarrow> reads opts lenient d w v"
proof (induction v arbitrary: d w)
  case (VArray vs)
  then show ?case by (intro reads_array) auto
next
  case (VObject kvs)
  have "\<forall>(k, v)\<in>set kvs. clean_text True k \<and> reads opts lenient (d + 1) (member_wide opts (d + 1) k) v"
  proof (clarify, intro conjI)
    fix k v
    assume kv: "(k, v) \<in> set kvs"
    then show "clean_text True k" using VObject.prems by auto
    show "reads opts lenient (d + 1) (member_wide opts (d + 1) k) v"
      by (rule VObject.IH [OF kv]) (use kv VObject.prems in \<open>auto simp: member_wide_def\<close>)
  qed
  then show ?case using VObject.prems by (intro reads_object) auto
qed (simp_all add: reads_literal reads_string)

subsection \<open>What a successful parse says of its value\<close>

text \<open>
  A value read from \<open>p\<close> fits the bounds at the depth and wide flag of \<open>p\<close>; the parser afterwards
  is at the same depth, has counted the value's nodes and never gains the wide flag.
\<close>

definition read_ok :: "ParseOptions \<Rightarrow> nat \<Rightarrow> parser \<Rightarrow> val \<Rightarrow> parser \<Rightarrow> bool" where
  "read_ok opts counted p v p' \<longleftrightarrow> fits opts (p_depth p) (p_wide p) v \<and> p_depth p' = p_depth p \<and>
     p_nodes p' + counted = p_nodes p + nodes v \<and> (p_wide p' \<longrightarrow> p_wide p) \<and>
     (counted = 0 \<longrightarrow> int (p_nodes p') \<le> MaxNodes opts)"

definition members_fit :: "ParseOptions \<Rightarrow> nat \<Rightarrow> object \<Rightarrow> bool" where
  "members_fit opts d kvs \<longleftrightarrow> distinct (map fst kvs) \<and>
     (\<forall>(k, v)\<in>set kvs. clean_text True k \<and> fits opts d (member_wide opts d k) v)"

lemma p_ws_sel [simp]:
  "p_depth (p_ws l p) = p_depth p" "p_nodes (p_ws l p) = p_nodes p" "p_wide (p_ws l p) = p_wide p"
  by (simp_all add: p_ws_def advance_def)

lemma advance_sel [simp]:
  "p_depth (advance n p) = p_depth p" "p_nodes (advance n p) = p_nodes p" "p_wide (advance n p) = p_wide p"
  by (simp_all add: advance_def)

lemma leave_sel [simp]:
  "p_depth (leave p) = p_depth p - 1" "p_nodes (leave p) = p_nodes p" "p_wide (leave p) = p_wide p"
  by (simp_all add: leave_def)

lemma p_str_sel: "p_str p = Inr (s, p') \<Longrightarrow> p_depth p' = p_depth p \<and> p_nodes p' = p_nodes p \<and> p_wide p' = p_wide p"
  by (auto simp: p_str_def Let_def split: if_splits sum.splits)

lemma p_node_sel: "p_node opts p = Inr p' \<Longrightarrow> p' = p\<lparr>p_nodes := p_nodes p + 1\<rparr> \<and> int (p_nodes p + 1) \<le> MaxNodes opts"
  by (auto simp: p_node_def Let_def split: if_splits)

lemma p_enter_sel: "p_enter p = Inr p' \<Longrightarrow> p' = p\<lparr>p_depth := p_depth p + 1\<rparr> \<and> p_depth p + 1 \<le> MaxJSONDepth"
  by (auto simp: p_enter_def Let_def split: if_splits)

lemma p_literal_sel: "p_literal lit w p = Inr (v, p') \<Longrightarrow> v = w \<and> p' = advance (length lit) p"
  by (auto simp: p_literal_def p_fail_def split: if_splits)

lemma member_key_sel:
  assumes "member_key opts lenient obj p = Inr (k, p')"
  shows "clean_text True k \<and> k \<notin> set (obj_Keys obj) \<and> p_depth p' = p_depth p \<and> p_nodes p' = p_nodes p \<and>
    p_wide p' = member_wide opts (p_depth p) k"
proof -
  obtain p1 where s: "p_str (p_ws lenient p) = Inr (k, p1)" and g: "obj_Get obj k = None"
    and p': "p' = (advance 1 (p_ws lenient p1))\<lparr>p_wide :=
      (p_depth (p_ws lenient p1) = 1 \<and> WideArrayKey opts \<noteq> [] \<and> k = WideArrayKey opts)\<rparr>"
    using assms by (auto simp: member_key_def Let_def p_expected_def p_fail_def split: if_splits sum.splits)
  then show ?thesis
    using p_str_sel [OF s] p_str_clean [OF s] by (simp add: member_wide_def)
qed

lemma after_item_sel:
  "after_item lenient close p = Inr (m, p') \<Longrightarrow>
     p_depth p' = (if m then p_depth p else p_depth p - 1) \<and> p_nodes p' = p_nodes p \<and> p_wide p' = p_wide p"
  by (auto simp: after_item_def Let_def p_expected_def p_fail_def split: if_splits option.splits)

lemma open_object_sel [simp]:
  "p_depth (open_object l p) = p_depth p" "p_nodes (open_object l p) = p_nodes p" "p_wide (open_object l p) = p_wide p"
  by (simp_all add: open_object_def)

lemma open_array_sel [simp]:
  "p_depth (open_array l p) = p_depth p" "p_nodes (open_array l p) = p_nodes p" "p_wide (open_array l p) = False"
  by (simp_all add: open_array_def)

lemma members_fit_Set:
  assumes "members_fit opts d kvs" "clean_text True k" "k \<notin> set (obj_Keys kvs)" "fits opts d (member_wide opts d k) v"
  shows "members_fit opts d (obj_Set kvs k v)"
  using assms by (auto simp: members_fit_def obj_Set_new obj_Keys_def)

lemma nodes_obj_Set:
  "k \<notin> set (obj_Keys kvs) \<Longrightarrow> nodes (VObject (obj_Set kvs k v)) = nodes (VObject kvs) + nodes v"
  by (simp add: obj_Set_new)

text \<open>The five contracts, of a value, an object, its members, an array and its elements.\<close>

definition value_post :: "ParseOptions \<Rightarrow> parser \<Rightarrow> val parsed \<Rightarrow> bool" where
  "value_post opts p res \<longleftrightarrow> (\<forall>v p'. res = Inr (v, p') \<longrightarrow> read_ok opts 0 p v p')"

definition container_post :: "ParseOptions \<Rightarrow> parser \<Rightarrow> val parsed \<Rightarrow> bool" where
  "container_post opts p res \<longleftrightarrow> (\<forall>v p'. res = Inr (v, p') \<longrightarrow> int (p_nodes p) \<le> MaxNodes opts \<longrightarrow>
     read_ok opts 1 p v p' \<and> int (p_nodes p') \<le> MaxNodes opts)"

definition members_post :: "ParseOptions \<Rightarrow> object \<Rightarrow> parser \<Rightarrow> val parsed \<Rightarrow> bool" where
  "members_post opts obj p res \<longleftrightarrow> (\<forall>v p'. res = Inr (v, p') \<longrightarrow> members_fit opts (p_depth p) obj \<longrightarrow>
     int (p_nodes p) \<le> MaxNodes opts \<longrightarrow>
     (\<exists>kvs. v = VObject kvs \<and> members_fit opts (p_depth p) kvs \<and> p_depth p' = p_depth p - 1 \<and> \<not> p_wide p' \<and>
       p_nodes p' + nodes (VObject obj) = p_nodes p + nodes v \<and> int (p_nodes p') \<le> MaxNodes opts))"

definition elems_post :: "ParseOptions \<Rightarrow> int \<Rightarrow> val list \<Rightarrow> parser \<Rightarrow> val parsed \<Rightarrow> bool" where
  "elems_post opts bound arr p res \<longleftrightarrow> (\<forall>v p'. res = Inr (v, p') \<longrightarrow> \<not> p_wide p \<longrightarrow>
     (\<forall>x\<in>set arr. fits opts (p_depth p) False x) \<longrightarrow> int (p_nodes p) \<le> MaxNodes opts \<longrightarrow>
     (\<exists>vs. v = VArray vs \<and> int (length vs) \<le> bound \<and> (\<forall>x\<in>set vs. fits opts (p_depth p) False x) \<and>
       p_depth p' = p_depth p - 1 \<and> \<not> p_wide p' \<and>
       p_nodes p' + nodes (VArray arr) = p_nodes p + nodes v \<and> int (p_nodes p') \<le> MaxNodes opts))"

lemma value_post_step:
  assumes obj: "\<And>p c cs. p_node opts (p_ws lenient p0) = Inr p \<Longrightarrow> p_rest p = c # cs \<Longrightarrow> c = CHR ''{'' \<Longrightarrow>
      container_post opts p (p_object opts lenient p)"
    and arr: "\<And>p c cs. p_node opts (p_ws lenient p0) = Inr p \<Longrightarrow> p_rest p = c # cs \<Longrightarrow> c = CHR ''['' \<Longrightarrow>
      container_post opts p (p_array opts lenient p)"
  shows "value_post opts p0 (p_value opts lenient p0)"
  unfolding value_post_def
proof (intro allI impI)
  fix v p'
  assume r: "p_value opts lenient p0 = Inr (v, p')"
  then obtain p c cs where p: "p_node opts (p_ws lenient p0) = Inr p" "p_rest p = c # cs"
    by (auto simp: p_value.simps p_fail_def split: sum.splits list.splits)
  note sel = p_node_sel [OF p(1)]
  have n: "int (p_nodes p) \<le> MaxNodes opts" using sel by simp
  have lift: "read_ok opts 0 p0 v p'" if "container_post opts p (Inr (v, p'))"
    using that sel by (auto simp: read_ok_def container_post_def)
  have simple: "read_ok opts 0 p0 w q" if "fits opts (p_depth p0) (p_wide p0) w" "nodes w = 1"
    "p_depth q = p_depth p \<and> p_nodes q = p_nodes p \<and> p_wide q = p_wide p" for w q
    using that sel by (simp add: read_ok_def)
  consider "c = CHR ''{''" | "c = CHR ''[''" | "c = quote" | "c \<notin> {CHR ''{'', CHR ''['', quote}" by blast
  then show "read_ok opts 0 p0 v p'"
  proof cases
    case 1
    then show ?thesis using r p lift obj [OF p] by (simp add: p_value.simps)
  next
    case 2
    then show ?thesis using r p lift arr [OF p] by (simp add: p_value.simps)
  next
    case 3
    then obtain s where "v = VString s" "p_str p = Inr (s, p')"
      using r p by (auto simp: p_value.simps split: sum.splits)
    then show ?thesis using simple p_str_sel p_str_clean by simp
  next
    case 4
    then have "(\<exists>n. p' = advance n p) \<and> v \<in> {VBool True, VBool False, VNull}"
      using r p by (auto simp: p_value.simps p_fail_def p_literal_def split: if_splits)
    then show ?thesis by (auto intro!: simple)
  qed
qed

lemma object_post_step:
  assumes mem: "\<And>p. p_enter p0 = Inr p \<Longrightarrow> peek (open_object lenient p) \<noteq> Some (CHR ''}'') \<Longrightarrow>
      members_post opts NewObject (open_object lenient p) (p_members opts lenient NewObject (open_object lenient p))"
  shows "container_post opts p0 (p_object opts lenient p0)"
  unfolding container_post_def
proof (intro allI impI)
  fix v p'
  assume r: "p_object opts lenient p0 = Inr (v, p')" and n: "int (p_nodes p0) \<le> MaxNodes opts"
  then obtain p where p: "p_enter p0 = Inr p"
    by (auto simp: p_object.simps split: sum.splits)
  note sel = p_enter_sel [OF p]
  show "read_ok opts 1 p0 v p' \<and> int (p_nodes p') \<le> MaxNodes opts"
  proof (cases "peek (open_object lenient p) = Some (CHR ''}'')")
    case True
    then show ?thesis using r n p sel by (auto simp: p_object.simps read_ok_def NewObject_def)
  next
    case False
    then have "p_members opts lenient NewObject (open_object lenient p) = Inr (v, p')"
      using r p by (simp add: p_object.simps)
    then obtain kvs where "v = VObject kvs" "members_fit opts (p_depth p) kvs" "p_depth p' = p_depth p - 1" "\<not> p_wide p'"
       "p_nodes p' + 1 = p_nodes p + nodes v" "int (p_nodes p') \<le> MaxNodes opts"
      using mem [OF p False] n sel by (auto simp: members_fit_def NewObject_def members_post_def)
    then show ?thesis using sel by (auto simp: read_ok_def members_fit_def member_wide_def)
  qed
qed

lemma array_post_step:
  assumes el: "\<And>p. p_enter p0 = Inr p \<Longrightarrow> peek (open_array lenient p) \<noteq> Some (CHR '']'') \<Longrightarrow>
      elems_post opts (array_bound opts p) [] (open_array lenient p)
        (p_elems opts lenient (array_bound opts p) [] (open_array lenient p))"
    and wide: "0 \<le> WideArrayMax opts"
  shows "container_post opts p0 (p_array opts lenient p0)"
  unfolding container_post_def
proof (intro allI impI)
  fix v p'
  assume r: "p_array opts lenient p0 = Inr (v, p')" and n: "int (p_nodes p0) \<le> MaxNodes opts"
  then obtain p where p: "p_enter p0 = Inr p"
    by (auto simp: p_array.simps split: sum.splits)
  note sel = p_enter_sel [OF p]
  show "read_ok opts 1 p0 v p' \<and> int (p_nodes p') \<le> MaxNodes opts"
  proof (cases "peek (open_array lenient p) = Some (CHR '']'')")
    case True
    then show ?thesis using r n p sel wide by (auto simp: p_array.simps read_ok_def)
  next
    case False
    then have "p_elems opts lenient (array_bound opts p) [] (open_array lenient p) = Inr (v, p')"
      using r p by (simp add: p_array.simps)
    then obtain vs where "v = VArray vs" "int (length vs) \<le> array_bound opts p"
       "\<forall>x\<in>set vs. fits opts (p_depth p) False x" "p_depth p' = p_depth p - 1" "\<not> p_wide p'"
       "p_nodes p' + 1 = p_nodes p + nodes v" "int (p_nodes p') \<le> MaxNodes opts"
      using el [OF p False] n sel by (auto simp: elems_post_def)
    then show ?thesis using sel by (auto simp: read_ok_def array_bound_def)
  qed
qed

lemma members_post_step:
  assumes val: "\<And>kp. member_key opts lenient obj p = Inr kp \<Longrightarrow> value_post opts (snd kp) (p_value opts lenient (snd kp))"
    and more: "\<And>kp vp mp. member_key opts lenient obj p = Inr kp \<Longrightarrow> p_value opts lenient (snd kp) = Inr vp \<Longrightarrow>
      after_item lenient (CHR ''}'') ((snd vp)\<lparr>p_wide := False\<rparr>) = Inr mp \<Longrightarrow> fst mp \<Longrightarrow>
      members_post opts (obj_Set obj (fst kp) (fst vp)) (snd mp)
        (p_members opts lenient (obj_Set obj (fst kp) (fst vp)) (snd mp))"
  shows "members_post opts obj p (p_members opts lenient obj p)"
  unfolding members_post_def
proof (intro allI impI)
  fix v p'
  assume r0: "p_members opts lenient obj p = Inr (v, p')" and fit0: "members_fit opts (p_depth p) obj"
  obtain k q w p1 m p2 where k: "member_key opts lenient obj p = Inr (k, q)"
    and w: "p_value opts lenient q = Inr (w, p1)"
    and m: "after_item lenient (CHR ''}'') (p1\<lparr>p_wide := False\<rparr>) = Inr (m, p2)"
    and r: "(if m then p_members opts lenient (obj_Set obj k w) p2 else Inr (VObject (obj_Set obj k w), p2)) = Inr (v, p')"
    using r0 by (auto simp: p_members.simps [of opts lenient obj p] split: sum.splits if_split_asm)
  note ks = member_key_sel [OF k] and ms = after_item_sel [OF m]
  have ro: "read_ok opts 0 q w p1" using val [OF k] w by (simp add: value_post_def)
  have fit: "members_fit opts (p_depth p) (obj_Set obj k w)"
    using members_fit_Set [OF fit0, of k w] ks ro by (simp add: read_ok_def)
  have cnt: "p_nodes p2 + nodes (VObject obj) = p_nodes p + nodes (VObject (obj_Set obj k w))"
    "int (p_nodes p2) \<le> MaxNodes opts" "\<not> p_wide p2"
    using ms ro ks nodes_obj_Set by (simp_all add: read_ok_def)
  show "\<exists>kvs. v = VObject kvs \<and> members_fit opts (p_depth p) kvs \<and> p_depth p' = p_depth p - 1 \<and> \<not> p_wide p' \<and>
       p_nodes p' + nodes (VObject obj) = p_nodes p + nodes v \<and> int (p_nodes p') \<le> MaxNodes opts"
  proof (cases m)
    case True
    then have "p_depth p2 = p_depth p" using ms ro ks by (simp add: read_ok_def)
    then obtain kvs where "v = VObject kvs \<and> members_fit opts (p_depth p) kvs \<and> p_depth p' = p_depth p - 1 \<and> \<not> p_wide p' \<and>
       p_nodes p' + nodes (VObject (obj_Set obj k w)) = p_nodes p2 + nodes v \<and> int (p_nodes p') \<le> MaxNodes opts"
      using more [OF k, of "(w, p1)" "(m, p2)"] w m True r fit cnt by (auto simp: members_post_def)
    then show ?thesis using cnt(1) by (intro exI [of _ kvs]) linarith
  next
    case False
    then show ?thesis using r ms ro ks fit cnt by (auto simp: read_ok_def)
  qed
qed

lemma elems_post_step:
  assumes val: "value_post opts p (p_value opts lenient p)"
    and more: "\<And>vp mp. p_value opts lenient p = Inr vp \<Longrightarrow> \<not> int (length (arr @ [fst vp])) > bound \<Longrightarrow>
      after_item lenient (CHR '']'') (snd vp) = Inr mp \<Longrightarrow> fst mp \<Longrightarrow>
      elems_post opts bound (arr @ [fst vp]) (snd mp) (p_elems opts lenient bound (arr @ [fst vp]) (snd mp))"
  shows "elems_post opts bound arr p (p_elems opts lenient bound arr p)"
  unfolding elems_post_def
proof (intro allI impI)
  fix v p'
  assume r0: "p_elems opts lenient bound arr p = Inr (v, p')" and pw: "\<not> p_wide p"
    and fit0: "\<forall>x\<in>set arr. fits opts (p_depth p) False x"
  obtain w p1 m p2 where w: "p_value opts lenient p = Inr (w, p1)"
    and b: "\<not> int (length (arr @ [w])) > bound"
    and m: "after_item lenient (CHR '']'') p1 = Inr (m, p2)"
    and r: "(if m then p_elems opts lenient bound (arr @ [w]) p2 else Inr (VArray (arr @ [w]), p2)) = Inr (v, p')"
    using r0 by (auto simp: p_elems.simps [of opts lenient bound arr p] split: sum.splits if_split_asm)
  have ro: "read_ok opts 0 p w p1" using val w by (simp add: value_post_def)
  note ms = after_item_sel [OF m]
  have st: "\<forall>x\<in>set (arr @ [w]). fits opts (p_depth p) False x" "int (p_nodes p2) \<le> MaxNodes opts" "\<not> p_wide p2"
    "p_nodes p2 + nodes (VArray arr) = p_nodes p + nodes (VArray (arr @ [w]))"
    using ro ms fit0 pw by (auto simp: read_ok_def)
  show "\<exists>vs. v = VArray vs \<and> int (length vs) \<le> bound \<and> (\<forall>x\<in>set vs. fits opts (p_depth p) False x) \<and>
       p_depth p' = p_depth p - 1 \<and> \<not> p_wide p' \<and>
       p_nodes p' + nodes (VArray arr) = p_nodes p + nodes v \<and> int (p_nodes p') \<le> MaxNodes opts"
  proof (cases m)
    case True
    then have "p_depth p2 = p_depth p" using ms ro by (simp add: read_ok_def)
    then obtain vs where "v = VArray vs \<and> int (length vs) \<le> bound \<and> (\<forall>x\<in>set vs. fits opts (p_depth p) False x) \<and>
       p_depth p' = p_depth p - 1 \<and> \<not> p_wide p' \<and>
       p_nodes p' + nodes (VArray (arr @ [w])) = p_nodes p2 + nodes v \<and> int (p_nodes p') \<le> MaxNodes opts"
      using more [of "(w, p1)" "(m, p2)"] w b m True r st by (auto simp: elems_post_def)
    then show ?thesis using st(4) by (intro exI [of _ vs]) linarith
  next
    case False
    then show ?thesis using r b ms ro st by (auto simp: read_ok_def)
  qed
qed

lemma parse_post:
  "0 \<le> WideArrayMax opts \<Longrightarrow> value_post opts p (p_value opts lenient p)"
  "0 \<le> WideArrayMax opts \<Longrightarrow> container_post opts p (p_object opts lenient p)"
  "0 \<le> WideArrayMax opts \<Longrightarrow> members_post opts obj p (p_members opts lenient obj p)"
  "0 \<le> WideArrayMax opts \<Longrightarrow> container_post opts p (p_array opts lenient p)"
  "0 \<le> WideArrayMax opts \<Longrightarrow> elems_post opts bound arr p (p_elems opts lenient bound arr p)"
proof (induction opts lenient p and opts lenient p and opts lenient obj p and opts lenient p
    and opts lenient bound arr p rule: p_value_p_object_p_members_p_array_p_elems.induct)
  case (1 opts lenient p0)
  show ?case by (rule value_post_step) (use 1 in auto)
next
  case (2 opts lenient p0)
  show ?case by (rule object_post_step) (use 2 in auto)
next
  case (3 opts lenient obj p)
  show ?case by (rule members_post_step) (use 3 in auto)
next
  case (4 opts lenient p0)
  show ?case by (rule array_post_step) (use 4 in auto)
next
  case (5 opts lenient bound arr p)
  show ?case by (rule elems_post_step) (use 5 in auto)
qed

lemma p_value_sound:
  "p_value opts lenient p = Inr (v, p') \<Longrightarrow> 0 \<le> WideArrayMax opts \<Longrightarrow> read_ok opts 0 p v p'"
  using parse_post(1) by (simp add: value_post_def)

subsection \<open>Canonical order\<close>

lemma map_fst_sort_key: "map fst (sort_key fst kvs) = sort (map fst kvs)"
  by (intro properties_for_sort [symmetric]) (simp_all add: mset_map)

lemma enc_object_perm:
  assumes "mset kvs = mset kvs'" "distinct (map fst kvs)"
  shows "enc (VObject kvs) = enc (VObject kvs')"
proof -
  have ms: "mset (map fst kvs) = mset (map fst kvs')" using assms(1) unfolding mset_map by simp
  have sk: "SortedKeys kvs = SortedKeys kvs'"
    unfolding SortedKeys_def obj_Keys_def by (rule properties_for_sort) (simp_all add: ms del: mset_map)
  have "distinct (map fst kvs')" using assms(2) ms by (metis mset_eq_imp_distinct_iff)
  then have "map_of kvs = map_of kvs'"
    using map_of_inject_set [OF assms(2)] mset_eq_setD [OF assms(1)] by blast
  then show ?thesis using sk by (simp add: map_of_map)
qed

lemma enc_object_map:
  assumes "\<And>k v. (k, v) \<in> set kvs \<Longrightarrow> enc (f v) = enc v"
  shows "enc (VObject (map (\<lambda>(k, v). (k, f v)) kvs)) = enc (VObject kvs)"
proof -
  have "map (\<lambda>(k, v). (k, enc v)) (map (\<lambda>(k, v). (k, f v)) kvs) = map (\<lambda>(k, v). (k, enc v)) kvs"
    using assms by auto
  moreover have "SortedKeys (map (\<lambda>(k, v). (k, f v)) kvs) = SortedKeys kvs"
    by (simp add: SortedKeys_def obj_Keys_def comp_def case_prod_beta')
  ultimately show ?thesis by (simp only: enc.simps)
qed

lemma map_fst_map: "map fst (map (\<lambda>(k, v). (k, f v)) kvs) = map fst kvs"
  by (simp add: comp_def case_prod_beta')

lemma distinct_sort_fst: "distinct (map fst (sort_key fst kvs)) \<longleftrightarrow> distinct (map fst kvs)"
  by (simp add: map_fst_sort_key)

lemma sum_list_sort_key: "sum_list (map f (sort_key g xs)) = (sum_list (map f xs) :: nat)"
  by (metis mset_map mset_sort sum_mset_sum_list)

lemma nodes_canon [simp]: "nodes (canon v) = nodes v"
proof (induction v)
  case (VArray vs)
  then show ?case by (simp add: comp_def cong: map_cong)
next
  case (VObject kvs)
  have "map (\<lambda>(k, v). nodes v) (map (\<lambda>(k, v). (k, canon v)) kvs) = map (\<lambda>(k, v). nodes v) kvs"
    using VObject by auto
  then show ?case unfolding canon.simps nodes.simps sum_list_sort_key by (simp only:)
qed simp_all

lemma fits_canon: "fits opts d w v \<Longrightarrow> fits opts d w (canon v)"
proof (induction v arbitrary: d w)
  case (VObject kvs)
  then show ?case
    by (fastforce simp: distinct_sort_fst comp_def case_prod_beta')
qed auto

lemma sorted_canon: "sorted_val (canon v)"
proof (induction v)
  case (VObject kvs)
  then show ?case by (auto simp: map_fst_sort_key)
qed auto

lemma fits_distinct: "fits opts d w v \<Longrightarrow> distinct_val v"
  by (induction v arbitrary: d w) fastforce+

lemma enc_canon: "distinct_val v \<Longrightarrow> enc (canon v) = enc v"
proof (induction v)
  case (VArray vs)
  then have "map enc (map canon vs) = map enc vs" by auto
  then show ?case by (simp only: canon.simps enc.simps)
next
  case (VObject kvs)
  let ?k = "map (\<lambda>(k, v). (k, canon v)) kvs"
  have "enc (VObject ?k) = enc (VObject kvs)"
    using VObject by (intro enc_object_map) fastforce
  moreover have "distinct (map fst ?k)" using VObject.prems unfolding map_fst_map by simp
  ultimately show ?case using enc_object_perm [of ?k "sort_key fst ?k"] by simp
qed auto

lemma canon_sorted: "sorted_val v \<Longrightarrow> canon v = v"
proof (induction v)
  case (VArray vs)
  then show ?case by (simp add: map_idI)
next
  case (VObject kvs)
  then have "map (\<lambda>(k, v). (k, canon v)) kvs = kvs" by (intro map_idI) auto
  then show ?case using VObject.prems by (simp add: sort_key_id_if_sorted)
qed auto

subsection \<open>The encoding is a prefix code\<close>

lemma hexdigits_inj: "i < 16 \<Longrightarrow> j < 16 \<Longrightarrow> hexdigits ! i = hexdigits ! j \<longleftrightarrow> i = j"
  by (intro nth_eq_iff_index_eq) (simp_all add: hexdigits_def)

lemma escape_byte_prefix:
  assumes "escape_byte c @ x = escape_byte d @ y"
  shows "c = d \<and> x = y"
proof -
  let ?S = "{quote, backslash, CHR 0x09, CHR 0x0A, CHR 0x0D}"
  have short: "c \<in> ?S \<Longrightarrow> length (escape_byte c) = 2 \<and> escape_byte c ! 1 \<noteq> CHR ''u''" for c
    by (auto simp: escape_byte_def)
  have long: "c \<notin> ?S \<Longrightarrow> escape_byte c = [backslash, CHR ''u'', CHR ''0'', CHR ''0'', hexdigits ! (bv c div 16), hexdigits ! (bv c mod 16)]" for c
    by (auto simp: escape_byte_def)
  show ?thesis
  proof (cases "c \<in> ?S")
    case True
    have "d \<in> ?S"
    proof (rule ccontr)
      assume d: "d \<notin> ?S"
      have "(escape_byte c @ x) ! 1 = CHR ''u''" unfolding assms long [OF d] by simp
      then show False using short [OF True] by (simp add: nth_append)
    qed
    then show ?thesis using True assms by (auto simp: escape_byte_def)
  next
    case c: False
    have d: "d \<notin> ?S"
    proof
      assume "d \<in> ?S"
      moreover have "(escape_byte d @ y) ! 1 = CHR ''u''" unfolding assms [symmetric] long [OF c] by simp
      ultimately show False using short by (simp add: nth_append)
    qed
    have "bv c div 16 < 16" "bv d div 16 < 16"
      using bv_less_256 [of c] bv_less_256 [of d] by (simp_all add: div_less_iff_less_mult)
    then have "bv c div 16 = bv d div 16" "bv c mod 16 = bv d mod 16" "x = y"
      using assms unfolding long [OF c] long [OF d] by (auto simp: hexdigits_inj)
    then have "bv c = bv d" by (metis div_mult_mod_eq)
    then show ?thesis using \<open>x = y\<close> by simp
  qed
qed

lemma escape_byte_head: "\<exists>e es. escape_byte c = backslash # e # es"
  by (auto simp: escape_byte_def)

lemma enc_byte_prefix:
  assumes "enc_byte c @ x = enc_byte d @ y"
  shows "c = d \<and> x = y"
proof -
  have "escapedByte c \<longleftrightarrow> escapedByte d"
    using assms escape_byte_head [of c] escape_byte_head [of d]
    by (auto simp: enc_byte_def split: if_splits)
  then show ?thesis using assms escape_byte_prefix [of c x d y] by (auto simp: enc_byte_def split: if_splits)
qed

lemma enc_byte_not_quote: "enc_byte c @ x \<noteq> quote # y"
  using escape_byte_head [of c] by (auto simp: enc_byte_def)

lemma concat_enc_prefix:
  "concat (map enc_byte s) @ quote # x = concat (map enc_byte t) @ quote # y \<Longrightarrow> s = t \<and> x = y"
proof (induction s arbitrary: t)
  case Nil
  then show ?case using enc_byte_not_quote by (cases t) (auto dest: sym)
next
  case (Cons c s)
  show ?case
  proof (cases t)
    case Nil
    then show ?thesis using Cons.prems enc_byte_not_quote [of c] by auto
  next
    case (Cons d u)
    then have "c = d \<and> concat (map enc_byte s) @ quote # x = concat (map enc_byte u) @ quote # y"
      using Cons.prems by (intro enc_byte_prefix) simp
    then show ?thesis using Cons.IH Cons by simp
  qed
qed

lemma enc_str_prefix: "enc_str s @ x = enc_str t @ y \<Longrightarrow> s = t \<and> x = y"
  using concat_enc_prefix [of s x t y] by (simp add: enc_str_def)

text \<open>Two comma-separated lists of prefix-free items closed by the same byte.\<close>

lemma join_prefix:
  assumes "\<And>a b x y. a \<in> set as \<Longrightarrow> b \<in> set bs \<Longrightarrow> f a @ x = f b @ y \<Longrightarrow> g a = g b \<and> x = y"
    and "\<And>a x y. a \<in> set as \<union> set bs \<Longrightarrow> f a @ x \<noteq> close # y"
    and "close \<noteq> CHR '',''"
    and "join '','' (map f as) @ close # x = join '','' (map f bs) @ close # y"
  shows "map g as = map g bs \<and> x = y"
  using assms(1,2,4)
proof (induction as arbitrary: bs)
  case Nil
  show ?case
  proof (cases bs)
    case (Cons b bs')
    then obtain z where "join '','' (map f bs) = f b @ z" by (cases bs') auto
    then have "f b @ z @ close # y = close # x" using Nil.prems(3) by simp
    then show ?thesis using Nil.prems(2) [of b] Cons by auto
  qed (use Nil in simp)
next
  case (Cons a as)
  obtain za where za: "join '','' (map f (a # as)) = f a @ za"
    "za = (if as = [] then [] else CHR '','' # join '','' (map f as))" by (cases as) auto
  show ?case
  proof (cases bs)
    case Nil
    then show ?thesis using Cons.prems(2) [of a "za @ close # x" y] Cons.prems(3) za by auto
  next
    case bs: (Cons b bs')
    obtain zb where zb: "join '','' (map f (b # bs')) = f b @ zb"
      "zb = (if bs' = [] then [] else CHR '','' # join '','' (map f bs'))" by (cases bs') auto
    have ab: "g a = g b \<and> za @ close # x = zb @ close # y"
      by (rule Cons.prems(1)) (use Cons.prems(3) za zb bs in auto)
    then have "as = [] \<longleftrightarrow> bs' = []" using za(2) zb(2) assms(3) by (auto split: if_splits)
    then have rest: "join '','' (map f as) @ close # x = join '','' (map f bs') @ close # y"
      using ab za(2) zb(2) by (auto split: if_splits)
    have "map g as = map g bs' \<and> x = y"
    proof (rule Cons.IH [OF _ _ rest])
      fix a' b' x y
      assume "a' \<in> set as" "b' \<in> set bs'" "f a' @ x = f b' @ y"
      then show "g a' = g b' \<and> x = y" using Cons.prems(1) [of a' b' x y] bs by simp
    next
      fix a' x y
      assume "a' \<in> set as \<union> set bs'"
      then show "f a' @ x \<noteq> close # y" using Cons.prems(2) [of a' x y] bs by auto
    qed
    then show ?thesis using ab bs by simp
  qed
qed

lemma enc_object_distinct:
  assumes "distinct (map fst kvs)"
  shows "enc (VObject kvs) = ''{'' @ join '','' (map enc_member (sort_key fst kvs)) @ ''}''"
proof -
  have "enc (VObject kvs) = enc (VObject (sort_key fst kvs))"
    using assms by (intro enc_object_perm) simp_all
  also have "\<dots> = ''{'' @ join '','' (map enc_member (sort_key fst kvs)) @ ''}''"
    using assms by (intro enc_object_sorted) (simp_all add: map_fst_sort_key)
  finally show ?thesis .
qed

lemma canon_object: "canon (VObject kvs) = VObject (map (\<lambda>(k, v). (k, canon v)) (sort_key fst kvs))"
proof -
  have "insort_key fst (k, canon v) (map (\<lambda>(k, v). (k, canon v)) ws) = map (\<lambda>(k, v). (k, canon v)) (insort_key fst (k, v) ws)" for k v ws
    by (induction ws) auto
  note ins = this
  have "sort_key fst (map (\<lambda>(k, v). (k, canon v)) kvs) = map (\<lambda>(k, v). (k, canon v)) (sort_key fst kvs)"
    by (induction kvs) (auto simp: ins)
  then show ?thesis by simp
qed

lemma enc_prefix:
  "distinct_val v \<Longrightarrow> distinct_val w \<Longrightarrow> enc v @ x = enc w @ y \<Longrightarrow> canon v = canon w \<and> x = y"
proof (induction v arbitrary: w x y)
  case VNull
  then show ?case by (cases w) (auto simp: enc_str_def split: if_splits)
next
  case (VBool b)
  then show ?case by (cases w) (auto simp: enc_str_def split: if_splits)
next
  case (VString s)
  then obtain t where w: "w = VString t" by (cases w) (auto simp: enc_str_def split: if_splits)
  then show ?case using enc_str_prefix [of s x t y] VString.prems by simp
next
  case (VArray vs)
  then obtain ws where w: "w = VArray ws" by (cases w) (auto simp: enc_str_def split: if_splits)
  have "map canon vs = map canon ws \<and> x = y"
  proof (rule join_prefix [where f = enc and close = "CHR '']''"])
    fix a b x y
    assume "a \<in> set vs" "b \<in> set ws" "enc a @ x = enc b @ y"
    then show "canon a = canon b \<and> x = y" using VArray.IH [of a b x y] VArray.prems w by simp
  next
    fix a x y
    assume "a \<in> set vs \<union> set ws"
    show "enc a @ x \<noteq> CHR '']'' # y" using enc_first [of a] by (auto simp: first_byte_def)
  qed (use VArray.prems w in auto)
  then show ?case using w by simp
next
  case (VObject kvs)
  then obtain kws where w: "w = VObject kws" by (cases w) (auto simp: enc_str_def split: if_splits)
  have d: "distinct (map fst kvs)" "distinct (map fst kws)" using VObject.prems w by auto
  let ?g = "\<lambda>(k, v). (k, canon v)"
  have "map ?g (sort_key fst kvs) = map ?g (sort_key fst kws) \<and> x = y"
  proof (rule join_prefix [where f = enc_member and close = "CHR ''}''"])
    fix a b x y
    assume a: "a \<in> set (sort_key fst kvs)" "b \<in> set (sort_key fst kws)" "enc_member a @ x = enc_member b @ y"
    then have "fst a = fst b \<and> enc (snd a) @ x = enc (snd b) @ y"
      using enc_str_prefix [of "fst a" "CHR '':'' # enc (snd a) @ x" "fst b" "CHR '':'' # enc (snd b) @ y"]
      by (simp add: enc_member_def)
    moreover have "(fst a, snd a) \<in> set kvs" "(fst b, snd b) \<in> set kws" using a by simp_all
    ultimately show "?g a = ?g b \<and> x = y"
      using VObject.IH [of "(fst a, snd a)" "snd a" "snd b" x y] VObject.prems(1,2) w by (fastforce simp: case_prod_beta')
  next
    fix a x y
    show "enc_member a @ x \<noteq> CHR ''}'' # y" by (simp add: enc_member_def enc_str_def)
  qed (use VObject.prems(3) w d in \<open>auto simp: enc_object_distinct simp del: enc.simps\<close>)
  then show ?case unfolding w canon_object by simp
qed

subsection \<open>Canonical documents are valid UTF-8\<close>

lemma utf8_valid_enc_clean:
  assumes "clean_text True s"
  shows "utf8_valid (concat (map enc_byte s) @ t) \<longleftrightarrow> utf8_valid t"
proof -
  obtain rs where rs: "s = concat (map encode_scalar rs)" "\<forall>r\<in>set rs. scalar r \<and> \<not> hostileRune r True"
    using assms unfolding clean_text_def by auto
  have one: "utf8_valid (concat (map enc_byte (encode_scalar r)) @ u) \<longleftrightarrow> utf8_valid u"
    if r: "scalar r" "\<not> hostileRune r True" for r u
  proof (cases "r < 0x80")
    case True
    have cl: "clean_text True [byte r]"
      unfolding clean_text_def using r True by (intro exI [of _ "[r]"]) (simp add: encode_scalar_ascii)
    show ?thesis
    proof (cases "escapedByte (byte r)")
      case esc: True
      obtain e where "enc_byte (byte r) = [backslash, e]" "simple_escape e = Some (byte r)"
        using enc_byte_short [OF esc] clean_text_controls [OF cl, of "byte r"] by auto
      moreover from this(2) have "bv e < 128" using True by (auto simp: simple_escape_def dest!: arg_cong [where f = bv] split: if_splits)
      ultimately show ?thesis using True by (simp add: encode_scalar_ascii)
    next
      case False
      then show ?thesis using True by (simp add: encode_scalar_ascii enc_byte_def)
    qed
  next
    case False
    then have "\<forall>c\<in>set (encode_scalar r). 0x80 \<le> bv c" using encode_scalar_bytes [OF _ r(1)] by (simp add: not_less)
    then have "\<forall>c\<in>set (encode_scalar r). \<not> escapedByte c" by (auto simp: escapedByte_def)
    then show ?thesis using r(1) by (simp add: concat_enc_plain)
  qed
  show ?thesis unfolding rs(1) using rs(2)
  proof (induction rs)
    case (Cons r rs)
    then show ?case using one by simp
  qed simp
qed

lemma utf8_valid_enc_str: "clean_text True s \<Longrightarrow> utf8_valid (enc_str s @ t) \<longleftrightarrow> utf8_valid t"
  by (simp add: enc_str_def utf8_valid_enc_clean)

lemma utf8_valid_join:
  assumes "\<forall>x\<in>set xs. \<forall>t. utf8_valid (x @ t) \<longleftrightarrow> utf8_valid t"
  shows "utf8_valid (join '','' xs @ t) \<longleftrightarrow> utf8_valid t"
  using assms by (induction "('',''::string)" xs rule: join.induct) auto

lemma utf8_valid_enc: "fits opts d w v \<Longrightarrow> sorted_val v \<Longrightarrow> utf8_valid (enc v @ t) \<longleftrightarrow> utf8_valid t"
proof (induction v arbitrary: d w t)
  case (VArray vs)
  then have "utf8_valid (join '','' (map enc vs) @ u) \<longleftrightarrow> utf8_valid u" for u
    by (intro utf8_valid_join) auto
  then show ?case by simp
next
  case (VObject kvs)
  have "utf8_valid (join '','' (map enc_member kvs) @ u) \<longleftrightarrow> utf8_valid u" for u
  proof (rule utf8_valid_join, clarsimp)
    fix k v t
    assume kv: "(k, v) \<in> set kvs"
    have "utf8_valid (enc v @ u) \<longleftrightarrow> utf8_valid u" for u
      using VObject.IH [OF kv] VObject.prems kv by fastforce
    moreover have "clean_text True k" using VObject.prems kv by auto
    ultimately show "utf8_valid (enc_member (k, v) @ t) \<longleftrightarrow> utf8_valid t"
      by (simp add: enc_member_def utf8_valid_enc_str)
  qed
  moreover have "enc (VObject kvs) = ''{'' @ join '','' (map enc_member kvs) @ ''}''"
    using VObject.prems by (intro enc_object_sorted) auto
  ultimately show ?case by (simp del: enc.simps)
qed (auto simp: utf8_valid_enc_str)

lemma enc_no_bom: "\<not> HasPrefix (enc v @ t) bom"
proof -
  obtain c cs where "enc v = c # cs" "first_byte c" using enc_first by blast
  then show ?thesis by (auto simp: HasPrefix_iff bom_def first_byte_def)
qed

subsection \<open>The language of the strict parser\<close>

lemma norm_options_wide: "0 \<le> WideArrayMax (norm_options opts)"
  by (simp add: norm_options_def Let_def)

lemma p_value_enc:
  assumes "fits opts 0 False v" "sorted_val v" "int (nodes v) \<le> MaxNodes opts"
  shows "p_value opts lenient (new_parser (enc v @ r)) = Inr (v, after_val (new_parser (enc v @ r)) v r)"
  using readsD [OF fits_reads [OF assms(1,2)]] assms(3) by (simp add: new_parser_def)

lemma p_value_document:
  assumes "p_value opts lenient (new_parser body) = Inr (v, p)" "0 \<le> WideArrayMax opts"
  shows "fits opts 0 False v \<and> int (nodes v) \<le> MaxNodes opts"
  using p_value_sound [OF assms] by (simp add: read_ok_def new_parser_def)

lemma p_value_canonical:
  assumes "p_value opts lenient (new_parser (enc v)) = Inr (v, p)" "0 \<le> WideArrayMax opts"
  shows "sorted_val v"
proof -
  note b = p_value_document [OF assms]
  have "p_value opts lenient (new_parser (enc (canon v) @ [])) = Inr (canon v, after_val (new_parser (enc (canon v) @ [])) (canon v) [])"
    by (rule p_value_enc) (use b fits_canon sorted_canon in auto)
  then have "canon v = v" using assms(1) b enc_canon fits_distinct by fastforce
  then show ?thesis using sorted_canon by metis
qed

lemma ParseWith_sound:
  assumes "ParseWith data opts = Inr v"
  shows "data = enc v @ [CHR 0x0A] \<and> sorted_val v \<and> fits (norm_options opts) 0 False v \<and>
    int (nodes v) \<le> MaxNodes (norm_options opts)"
proof -
  obtain p where "data \<noteq> []" "last data = CHR 0x0A"
    and v: "p_value (norm_options opts) False (new_parser (butlast data)) = Inr (v, p)"
    and e: "enc v = butlast data"
    using assms by (auto simp: ParseWith_def Let_def appendValue_eq p_fail_def split: if_splits sum.splits)
  then have "data = enc v @ [CHR 0x0A]" by (metis append_butlast_last_id)
  then show ?thesis
    using p_value_document [OF v norm_options_wide] p_value_canonical [OF v [folded e] norm_options_wide] by simp
qed

lemma ParseWith_complete:
  assumes "sorted_val v" "fits (norm_options opts) 0 False v" "int (nodes v) \<le> MaxNodes (norm_options opts)"
  shows "ParseWith (enc v @ [CHR 0x0A]) opts = Inr v"
proof -
  have u: "utf8_valid (enc v @ [CHR 0x0A])" using utf8_valid_enc [OF assms(2,1)] by simp
  have "p_value (norm_options opts) False (new_parser (enc v)) = Inr (v, after_val (new_parser (enc v)) v [])"
    using p_value_enc [OF assms(2,1,3), of False "[]"] by simp
  then show ?thesis
    using u enc_no_bom by (simp add: ParseWith_def Let_def appendValue_eq)
qed

text \<open>
  C1: the strict parser accepts exactly the canonical documents. \<^verbatim>\<open>ParseWith\<close> returns \<open>v\<close> if and only
  if the bytes are \<^verbatim>\<open>EncodeFile(v)\<close>, every object of \<open>v\<close> is in key order and \<open>v\<close> is within the decode
  bounds of the options (depth, array length with the one wide array, distinct keys, clean UTF-8
  strings, node count).
\<close>

theorem ParseWith_language:
  "ParseWith data opts = Inr v \<longleftrightarrow>
     data = EncodeFile v \<and> sorted_val v \<and> fits (norm_options opts) 0 False v \<and>
     int (nodes v) \<le> MaxNodes (norm_options opts)"
  using ParseWith_sound [of data opts v] ParseWith_complete [of v opts] unfolding EncodeFile_eq by metis

lemma norm_default: "norm_options \<lparr>WideArrayKey = [], WideArrayMax = 0, MaxNodes = 0\<rparr> = input_options"
  by (simp add: norm_options_def input_options_def)

lemma within_bounds_eq: "within_bounds v \<longleftrightarrow> fits input_options 0 False v \<and> int (nodes v) \<le> MaxNodes input_options"
  by (simp add: within_bounds_def input_options_def)

lemma Parse_iff: "Parse data = Inr v \<longleftrightarrow> data = EncodeFile v \<and> sorted_val v \<and> within_bounds v"
  unfolding Parse_def within_bounds_eq EncodeFile_eq
  using ParseWith_sound [of data "\<lparr>WideArrayKey = [], WideArrayMax = 0, MaxNodes = 0\<rparr>" v]
    ParseWith_complete [of v "\<lparr>WideArrayKey = [], WideArrayMax = 0, MaxNodes = 0\<rparr>"]
  unfolding norm_default by auto

lemma Parse_canon:
  assumes "within_bounds v"
  shows "Parse (EncodeFile v) = Inr (canon v)" "Encode (canon v) = Encode v"
proof -
  have f: "fits input_options 0 False v" using assms by (simp add: within_bounds_def)
  show e: "Encode (canon v) = Encode v" unfolding Encode_eq by (rule enc_canon [OF fits_distinct [OF f]])
  then have "EncodeFile v = EncodeFile (canon v)" by (simp add: EncodeFile_def)
  moreover have "within_bounds (canon v)" using assms fits_canon by (auto simp: within_bounds_def)
  ultimately show "Parse (EncodeFile v) = Inr (canon v)" by (simp add: Parse_iff sorted_canon)
qed

text \<open>
  C2: encoding and parsing round-trip. The document of any value within the bounds, in whatever
  member order, parses back to the value with its members in key order, and that value has the
  same document.
\<close>

theorem Parse_EncodeFile:
  assumes "within_bounds v"
  shows "Parse (EncodeFile v) = Inr (canon v) \<and> EncodeFile (canon v) = EncodeFile v \<and> sorted_val (canon v)"
  using Parse_canon [OF assms] sorted_canon by (simp add: EncodeFile_def)

definition sample :: val where
  "sample = VObject [(''b'', VArray [VNull, VString [quote, CHR 0x0A]]), (''a'', VBool True)]"

lemma sample_within: "within_bounds sample"
  by (simp add: within_bounds_def sample_def input_options_def limit_defs clean_text_code
      hostile_loop.simps decode_rune_def bad_rune_def RuneError_def hostileRune_def)

theorem Parse_EncodeFile_witness:
  "Parse (EncodeFile sample) = Inr (VObject [(''a'', VBool True), (''b'', VArray [VNull, VString [quote, CHR 0x0A]])])"
proof -
  have "canon sample = VObject [(''a'', VBool True), (''b'', VArray [VNull, VString [quote, CHR 0x0A]])]"
    by (simp add: sample_def)
  then show ?thesis using Parse_EncodeFile [OF sample_within] by simp
qed

lemma ParseInput_sound: "ParseInput data = Inr v \<Longrightarrow> within_bounds v"
proof -
  assume "ParseInput data = Inr v"
  then obtain p where "p_value input_options True (new_parser data) = Inr (v, p)"
    by (auto simp: ParseInput_def p_fail_def split: if_splits sum.splits)
  moreover have "0 \<le> WideArrayMax input_options" by (simp add: input_options_def)
  ultimately show ?thesis
    unfolding within_bounds_eq by (rule p_value_document)
qed

lemma ParseInput_canonical:
  assumes "sorted_val v" "within_bounds v"
  shows "ParseInput (enc v @ [CHR 0x0A]) = Inr v"
proof -
  have f: "fits input_options 0 False v" "int (nodes v) \<le> MaxNodes input_options"
    using assms(2) by (simp_all add: within_bounds_eq)
  have u: "utf8_valid (enc v @ [CHR 0x0A])" using utf8_valid_enc [OF f(1) assms(1)] by simp
  have "p_rest (p_ws True (after_val (new_parser (enc v @ [CHR 0x0A])) v [CHR 0x0A])) = []"
    by (simp add: p_ws_def isJSONSpace_def advance_def)
  then show ?thesis
    using u enc_no_bom p_value_enc [OF f(1) assms(1) f(2), of True "[CHR 0x0A]"]
    by (simp add: ParseInput_def)
qed

text \<open>
  C10: the lenient input parser is conservative over the strict one: it reads every canonical
  document as the same value, and whatever it accepts is within the bounds, so that re-encoding an
  input gives a document the strict parser reads back in canonical order.
\<close>

theorem ParseInput_conservative:
  "(Parse data = Inr v \<longrightarrow> ParseInput data = Inr v) \<and>
   (ParseInput data = Inr v \<longrightarrow> Parse (EncodeFile v) = Inr (canon v))"
proof (intro conjI impI)
  assume "Parse data = Inr v"
  then show "ParseInput data = Inr v"
    using ParseInput_canonical [of v] unfolding Parse_iff EncodeFile_eq by simp
next
  assume "ParseInput data = Inr v"
  then show "Parse (EncodeFile v) = Inr (canon v)"
    using Parse_canon(1) ParseInput_sound by blast
qed

theorem ParseInput_conservative_witness:
  "ParseInput (EncodeFile (canon sample)) = Inr (canon sample) \<and>
   Parse (EncodeFile (canon sample)) = Inr (canon (canon sample))"
proof -
  have "Parse (EncodeFile (canon sample)) = Inr (canon sample)"
    using Parse_canon [OF sample_within] by (simp add: EncodeFile_def)
  then show ?thesis using ParseInput_conservative [of "EncodeFile (canon sample)" "canon sample"] by blast
qed

subsection \<open>Member order\<close>

lemma unsortedKeys_None:
  "unsortedKeys v path = None \<longleftrightarrow> sorted_val v"
  "unsorted_members kvs path = None \<longleftrightarrow> (\<forall>(k, v)\<in>set kvs. sorted_val v)"
  "unsorted_elems vs i path = None \<longleftrightarrow> (\<forall>v\<in>set vs. sorted_val v)"
  by (induction v path and kvs path and vs i path rule: unsortedKeys_unsorted_members_unsorted_elems.induct)
    (auto simp: obj_Keys_def split: option.splits)

text \<open>
  The diagnosis \<^verbatim>\<open>unsortedKeys\<close> of a refused document is exact: it finds nothing exactly when every
  object of the value has its keys in order.
\<close>

theorem unsortedKeys_exact: "unsortedKeys v [] = None \<longleftrightarrow> sorted_val v"
  by (rule unsortedKeys_None)

text \<open>
  C11: equality of canonical bytes, \<^verbatim>\<open>Equal\<close>, is equality up to member order: on values whose objects
  have distinct keys, which is what \<^verbatim>\<open>Object.Set\<close> maintains, the encoding is injective modulo the
  order of object members.
\<close>

theorem Encode_injective:
  assumes "distinct_val a" "distinct_val b"
  shows "val_Equal a b \<longleftrightarrow> canon a = canon b"
proof
  assume "val_Equal a b"
  then show "canon a = canon b"
    using enc_prefix [OF assms, of "[]" "[]"] by (simp add: val_Equal_def Encode_eq)
next
  assume "canon a = canon b"
  then show "val_Equal a b"
    using enc_canon [OF assms(1)] enc_canon [OF assms(2)] by (simp add: val_Equal_def Encode_eq)
qed

theorem Encode_injective_witness: "val_Equal sample (canon sample)"
proof -
  have "distinct_val sample" "distinct_val (canon sample)" by (simp_all add: sample_def)
  then show ?thesis using Encode_injective [of sample "canon sample"] canon_sorted [OF sorted_canon] by simp
qed

text \<open>What a parse of the encoding of a value with distinct keys can return.\<close>

lemma ParseWith_encoded:
  assumes "ParseWith (EncodeFile v) opts = Inr w" "distinct_val v"
  shows "w = canon v"
proof -
  have s: "EncodeFile v = enc w @ [CHR 0x0A]" "sorted_val w" "fits (norm_options opts) 0 False w"
    using ParseWith_sound [OF assms(1)] by auto
  then have "canon v = canon w"
    using enc_prefix [OF assms(2) fits_distinct [OF s(3)], of "[CHR 0x0A]" "[CHR 0x0A]"] by (simp add: EncodeFile_eq)
  then show ?thesis using canon_sorted [OF s(2)] by simp
qed

end
