(* ===== verification/Reader.thy ===== *)
theory Reader
  imports Codec "HOL-Library.State_Monad"
begin

text \<open>
  The typed document reader (\<^verbatim>\<open>internal/tasks/wire/reader.go\<close>, \<^verbatim>\<open>optional.go\<close>). A \<^verbatim>\<open>Reader\<close> is a value
  with its location; the \<^verbatim>\<open>readerState\<close> that all readers of a document share (the first recorded
  error and the set-sorting mode) is threaded by the state monad. In set-sorting mode \<^verbatim>\<open>Array\<close> writes
  the sorted elements back into the document; the state records each such write with its location.

  The locale \<open>field_reader\<close> is the contract of an accessor: relative to a pure decoder in the error
  monad, it returns the decoded value and leaves the state alone, records the decoder's error, or
  does nothing once an error was recorded. The combinators of the package preserve the contract, so
  every linear decoder written with it behaves like the decoder that stops at its first error.
\<close>

subsection \<open>Readers and their state\<close>

record reader =
  r_v :: val
  r_where :: string

record readerState =
  rs_err :: "wire_error option"
  rs_sortSets :: bool
  rs_writes :: "(string \<times> val list) list"

type_synonym 'a rd = "(readerState, 'a) state"

abbreviation return where "return \<equiv> State_Monad.return"

definition NewReader :: "val \<Rightarrow> string \<Rightarrow> reader \<times> readerState" where
  "NewReader v loc =
     (\<lparr>r_v = v, r_where = (if loc = [] then ''/'' else loc)\<rparr>,
      \<lparr>rs_err = None, rs_sortSets = False, rs_writes = []\<rparr>)"

definition NewSetSortingReader :: "val \<Rightarrow> string \<Rightarrow> reader \<times> readerState" where
  "NewSetSortingReader v loc = (case NewReader v loc of (r, st) \<Rightarrow> (r, st\<lparr>rs_sortSets := True\<rparr>))"

definition rd_Err :: "wire_error option rd" where
  "rd_Err = do { st \<leftarrow> State_Monad.get; return (rs_err st) }"

definition rd_Fail :: "reader \<Rightarrow> string \<Rightarrow> unit rd" where
  "rd_Fail r code = do {
     st \<leftarrow> State_Monad.get;
     (if rs_err st = None then State_Monad.set (st\<lparr>rs_err := Some (Errorf code (r_where r))\<rparr>) else return ())
   }"

definition child_loc :: "string \<Rightarrow> string \<Rightarrow> string" where
  "child_loc loc seg = (if loc = ''/'' then [] else loc) @ ''/'' @ seg"

definition rd_child :: "reader \<Rightarrow> val \<Rightarrow> string \<Rightarrow> reader" where
  "rd_child r v seg = \<lparr>r_v = v, r_where = child_loc (r_where r) seg\<rparr>"

definition rd_adopt :: "reader \<Rightarrow> go_error option \<Rightarrow> unit rd" where
  "rd_adopt r err = (case err of
     None \<Rightarrow> return ()
   | Some ge \<Rightarrow> do {
       st \<leftarrow> State_Monad.get;
       (if rs_err st = None then
          State_Monad.set (st\<lparr>rs_err := Some (case as_error ge of
             Some (e, _) \<Rightarrow> e | None \<Rightarrow> Errorf CodeMalformed (r_where r))\<rparr>)
        else return ())
     })"

text \<open>The error a package function returned, as a Go error.\<close>

definition err_of :: "'a res \<Rightarrow> go_error option" where
  "err_of x = (case x of Inl e \<Rightarrow> Some (WireError e []) | Inr _ \<Rightarrow> None)"

subsection \<open>Objects\<close>

definition closed_ok :: "string list \<Rightarrow> object \<Rightarrow> bool" where
  "closed_ok keys kvs \<longleftrightarrow>
     filter (\<lambda>k. obj_Get kvs k = None) keys = [] \<and> filter (\<lambda>k. k \<notin> set keys) (obj_Keys kvs) = []"

definition rd_Closed :: "string list \<Rightarrow> reader \<Rightarrow> unit rd" where
  "rd_Closed keys r = do {
     st \<leftarrow> State_Monad.get;
     (if rs_err st \<noteq> None then return ()
      else (case r_v r of
          VObject kvs \<Rightarrow> if closed_ok keys kvs then return () else rd_Fail r CodeMalformed
        | _ \<Rightarrow> rd_Fail r CodeMalformed))
   }"

definition rd_Field :: "string \<Rightarrow> reader \<Rightarrow> reader rd" where
  "rd_Field key r = do {
     st \<leftarrow> State_Monad.get;
     (if rs_err st \<noteq> None then return (rd_child r VNull key)
      else (case r_v r of
          VObject kvs \<Rightarrow>
            (case obj_Get kvs key of
               Some v \<Rightarrow> return (rd_child r v key)
             | None \<Rightarrow> do { rd_Fail r CodeMalformed; return (rd_child r VNull key) })
        | _ \<Rightarrow> do { rd_Fail r CodeMalformed; return (rd_child r VNull key) }))
   }"

definition OptionalKeys :: "val \<Rightarrow> string list \<Rightarrow> string list \<Rightarrow> string list" where
  "OptionalKeys v required optional = required @ (case v of
     VObject kvs \<Rightarrow> filter (\<lambda>k. obj_Get kvs k \<noteq> None) optional
   | _ \<Rightarrow> [])"

definition val_Has :: "val \<Rightarrow> string \<Rightarrow> bool" where
  "val_Has v key = (case v of VObject kvs \<Rightarrow> obj_Get kvs key \<noteq> None | _ \<Rightarrow> False)"

subsection \<open>Scalars\<close>

definition IsNull :: "reader \<Rightarrow> bool" where
  "IsNull r \<longleftrightarrow> r_v r = VNull"

definition rd_String :: "reader \<Rightarrow> string rd" where
  "rd_String r = do {
     st \<leftarrow> State_Monad.get;
     (if rs_err st \<noteq> None then return []
      else (case r_v r of VString s \<Rightarrow> return s | _ \<Rightarrow> do { rd_Fail r CodeMalformed; return [] }))
   }"

definition rd_Bool :: "reader \<Rightarrow> bool rd" where
  "rd_Bool r = do {
     st \<leftarrow> State_Monad.get;
     (if rs_err st \<noteq> None then return False
      else (case r_v r of VBool b \<Rightarrow> return b | _ \<Rightarrow> do { rd_Fail r CodeMalformed; return False }))
   }"

definition rd_Enum :: "string list \<Rightarrow> reader \<Rightarrow> string rd" where
  "rd_Enum allowed r = do {
     s \<leftarrow> rd_String r;
     st \<leftarrow> State_Monad.get;
     (if rs_err st \<noteq> None then return []
      else if s \<in> set allowed then return s
      else do { rd_Fail r CodeMalformed; return [] })
   }"

definition rd_Exact :: "string \<Rightarrow> reader \<Rightarrow> string rd" where
  "rd_Exact want = rd_Enum [want]"

text \<open>
  The body shared by the accessors that read a string and validate it: \<open>zero\<close> is what the Go
  function returns next to an error.
\<close>

definition rd_with :: "'a \<Rightarrow> (string \<Rightarrow> string \<Rightarrow> 'a res) \<Rightarrow> reader \<Rightarrow> 'a rd" where
  "rd_with zero parse r = do {
     s \<leftarrow> rd_String r;
     st \<leftarrow> State_Monad.get;
     (if rs_err st \<noteq> None then return zero
      else do {
        rd_adopt r (err_of (parse (r_where r) s));
        return (case parse (r_where r) s of Inl _ \<Rightarrow> zero | Inr x \<Rightarrow> x)
      })
   }"

definition rd_Count :: "reader \<Rightarrow> string rd" where "rd_Count = rd_with [] ParseCount"
definition rd_Size :: "reader \<Rightarrow> string rd" where "rd_Size = rd_with [] ParseSize"
definition rd_Digest :: "reader \<Rightarrow> string rd" where "rd_Digest = rd_with [] ParseDigest"
definition rd_OID :: "reader \<Rightarrow> string rd" where "rd_OID = rd_with [] ParseOID"
definition rd_Identifier :: "reader \<Rightarrow> string rd" where "rd_Identifier = rd_with [] ParseIdentifier"
definition rd_PathText :: "reader \<Rightarrow> string rd" where "rd_PathText = rd_with [] ParsePathText"
definition rd_Label :: "reader \<Rightarrow> string rd" where "rd_Label = rd_with [] ParseLabel"
definition rd_Path :: "reader \<Rightarrow> string rd" where "rd_Path = rd_with [] ParsePath"
definition rd_Timestamp :: "reader \<Rightarrow> string rd" where "rd_Timestamp = rd_with [] ParseTimestamp"

definition rd_Prose :: "nat \<Rightarrow> nat \<Rightarrow> reader \<Rightarrow> string rd" where
  "rd_Prose mn mx = rd_with [] (\<lambda>loc s. ParseProse loc s mn mx)"

definition zero_TicketID :: TicketID where
  "zero_TicketID = \<lparr>t_Raw = [], t_Authority = [], t_Queue = [], t_Local = []\<rparr>"

definition zero_QueueID :: QueueID where
  "zero_QueueID = \<lparr>q_Raw = [], q_Authority = [], q_Queue = []\<rparr>"

definition rd_TicketID :: "reader \<Rightarrow> TicketID rd" where "rd_TicketID = rd_with zero_TicketID ParseTicketID"
definition rd_QueueID :: "reader \<Rightarrow> QueueID rd" where "rd_QueueID = rd_with zero_QueueID ParseQueueID"

text \<open>The body shared by the accessors that accept null.\<close>

definition rd_or_null :: "(reader \<Rightarrow> 'a rd) \<Rightarrow> reader \<Rightarrow> 'a option rd" where
  "rd_or_null rd r = do {
     st \<leftarrow> State_Monad.get;
     (if rs_err st \<noteq> None \<or> IsNull r then return None
      else do {
        x \<leftarrow> rd r;
        st \<leftarrow> State_Monad.get;
        return (if rs_err st \<noteq> None then None else Some x)
      })
   }"

definition rd_DigestOrNull :: "reader \<Rightarrow> string option rd" where "rd_DigestOrNull = rd_or_null rd_Digest"
definition rd_LabelOrNull :: "reader \<Rightarrow> string option rd" where "rd_LabelOrNull = rd_or_null rd_Label"
definition rd_ProseOrNull :: "nat \<Rightarrow> reader \<Rightarrow> string option rd" where "rd_ProseOrNull mx = rd_or_null (rd_Prose 0 mx)"
definition rd_TimestampOrNull :: "reader \<Rightarrow> string option rd" where "rd_TimestampOrNull = rd_or_null rd_Timestamp"
definition rd_CountOrNull :: "reader \<Rightarrow> string option rd" where "rd_CountOrNull = rd_or_null rd_Count"
definition rd_SizeOrNull :: "reader \<Rightarrow> string option rd" where "rd_SizeOrNull = rd_or_null rd_Size"
definition rd_StringOrNull :: "(reader \<Rightarrow> string rd) \<Rightarrow> reader \<Rightarrow> string option rd" where "rd_StringOrNull fn = rd_or_null fn"

subsection \<open>Profiles\<close>

definition ProfileVersion :: "string \<Rightarrow> val \<Rightarrow> string \<Rightarrow> unit res" where
  "ProfileVersion loc v want = (case v of
     VObject kvs \<Rightarrow>
       (case obj_Get kvs ''profile'' of
          Some (VString p) \<Rightarrow> otherVersion loc p want
        | _ \<Rightarrow> Inr ())
   | _ \<Rightarrow> Inr ())"

definition rd_Profile :: "string \<Rightarrow> reader \<Rightarrow> wire_error option rd" where
  "rd_Profile want r = do {
     rd_adopt r (err_of (ProfileVersion ((if r_where r = ''/'' then [] else r_where r) @ ''/profile'') (r_v r) want));
     rd_Err
   }"

subsection \<open>Arrays\<close>

definition rd_Array :: "int \<Rightarrow> bool \<Rightarrow> reader \<Rightarrow> reader list rd" where
  "rd_Array mx semantic r = do {
     st \<leftarrow> State_Monad.get;
     (if rs_err st \<noteq> None then return []
      else (case r_v r of
          VArray vs \<Rightarrow>
            if mx \<ge> 0 \<and> int (length vs) > mx then do { rd_Fail r CodeLimitExceeded; return [] }
            else
              let elems = (\<lambda>ws. map (\<lambda>(i, v). rd_child r v (format_nat i)) (enumerate 0 ws))
              in if \<not> semantic \<and> rs_sortSets st then
                   (case SortedSet (r_where r) vs of
                      Inr (VArray ws) \<Rightarrow> do {
                        State_Monad.set (st\<lparr>rs_writes := rs_writes st @ [(r_where r, ws)]\<rparr>);
                        return (elems ws)
                      }
                    | x \<Rightarrow> do { rd_adopt r (err_of x); return [] })
                 else if \<not> semantic then
                   (case CheckSortedUnique (r_where r) vs of
                      Inl e \<Rightarrow> do { rd_adopt r (Some (WireError e [])); return [] }
                    | Inr _ \<Rightarrow> return (elems vs))
                 else return (elems vs)
        | _ \<Rightarrow> do { rd_Fail r CodeMalformed; return [] }))
   }"

text \<open>The loop of \<^verbatim>\<open>Strings\<close>: it stops at the first element that fails.\<close>

fun strings_loop :: "(reader \<Rightarrow> 'a rd) \<Rightarrow> reader list \<Rightarrow> 'a list \<Rightarrow> 'a list rd" where
  "strings_loop fn [] out = return out"
| "strings_loop fn (it # items) out = do {
     s \<leftarrow> fn it;
     st \<leftarrow> State_Monad.get;
     (if rs_err st \<noteq> None then return [] else strings_loop fn items (out @ [s]))
   }"

definition rd_Strings :: "int \<Rightarrow> bool \<Rightarrow> (reader \<Rightarrow> 'a rd) \<Rightarrow> reader \<Rightarrow> 'a list rd" where
  "rd_Strings mx semantic fn r = do {
     items \<leftarrow> rd_Array mx semantic r;
     st \<leftarrow> State_Monad.get;
     (if rs_err st \<noteq> None then return [] else strings_loop fn items [])
   }"

subsection \<open>Pure decoders\<close>

definition dec_string :: "string \<Rightarrow> val \<Rightarrow> string res" where
  "dec_string loc v = (case v of VString s \<Rightarrow> Inr s | _ \<Rightarrow> Inl (Errorf CodeMalformed loc))"

definition dec_bool :: "string \<Rightarrow> val \<Rightarrow> bool res" where
  "dec_bool loc v = (case v of VBool b \<Rightarrow> Inr b | _ \<Rightarrow> Inl (Errorf CodeMalformed loc))"

definition dec_with :: "(string \<Rightarrow> string \<Rightarrow> 'a res) \<Rightarrow> string \<Rightarrow> val \<Rightarrow> 'a res" where
  "dec_with parse loc v = rbind (dec_string loc v) (parse loc)"

definition dec_enum :: "string list \<Rightarrow> string \<Rightarrow> val \<Rightarrow> string res" where
  "dec_enum allowed = dec_with (\<lambda>loc s. if s \<in> set allowed then Inr s else Inl (Errorf CodeMalformed loc))"

definition dec_or_null :: "(string \<Rightarrow> val \<Rightarrow> 'a res) \<Rightarrow> string \<Rightarrow> val \<Rightarrow> 'a option res" where
  "dec_or_null dec loc v = (if v = VNull then Inr None else map_sum id Some (dec loc v))"

definition dec_closed :: "string list \<Rightarrow> string \<Rightarrow> val \<Rightarrow> unit res" where
  "dec_closed keys loc v = (case v of
     VObject kvs \<Rightarrow> if closed_ok keys kvs then Inr () else Inl (Errorf CodeMalformed loc)
   | _ \<Rightarrow> Inl (Errorf CodeMalformed loc))"

definition dec_field :: "string \<Rightarrow> (string \<Rightarrow> val \<Rightarrow> 'a res) \<Rightarrow> string \<Rightarrow> val \<Rightarrow> 'a res" where
  "dec_field key dec loc v = (case v of
     VObject kvs \<Rightarrow>
       (case obj_Get kvs key of
          Some w \<Rightarrow> dec (child_loc loc key) w
        | None \<Rightarrow> Inl (Errorf CodeMalformed loc))
   | _ \<Rightarrow> Inl (Errorf CodeMalformed loc))"

text \<open>The elements of an array that passes the length and set rules.\<close>

definition dec_array :: "int \<Rightarrow> bool \<Rightarrow> string \<Rightarrow> val \<Rightarrow> val list res" where
  "dec_array mx semantic loc v = (case v of
     VArray vs \<Rightarrow>
       if mx \<ge> 0 \<and> int (length vs) > mx then Inl (Errorf CodeLimitExceeded loc)
       else if semantic then Inr vs
       else rbind (CheckSortedUnique loc vs) (\<lambda>_. Inr vs)
   | _ \<Rightarrow> Inl (Errorf CodeMalformed loc))"

fun dec_all :: "(string \<Rightarrow> val \<Rightarrow> 'a res) \<Rightarrow> string \<Rightarrow> nat \<Rightarrow> val list \<Rightarrow> 'a list res" where
  "dec_all dec loc i [] = Inr []"
| "dec_all dec loc i (v # vs) =
     rbind (dec (child_loc loc (format_nat i)) v) (\<lambda>x. map_sum id ((#) x) (dec_all dec loc (i + 1) vs))"

definition dec_strings :: "int \<Rightarrow> bool \<Rightarrow> (string \<Rightarrow> val \<Rightarrow> 'a res) \<Rightarrow> string \<Rightarrow> val \<Rightarrow> 'a list res" where
  "dec_strings mx semantic dec loc v = rbind (dec_array mx semantic loc v) (dec_all dec loc 0)"

subsection \<open>Programs that stop at the first error\<close>

text \<open>
  A reader program is \<open>sticky\<close> when it does nothing in a state with a recorded error and otherwise
  either leaves a strict state alone or records one error. \<open>yields m x\<close> says that \<open>m\<close> returns \<open>x\<close>
  without an error on the state a new reader starts with.
\<close>

definition fresh :: readerState where
  "fresh = \<lparr>rs_err = None, rs_sortSets = False, rs_writes = []\<rparr>"

definition sticky :: "'a rd \<Rightarrow> bool" where
  "sticky m \<longleftrightarrow>
     (\<forall>s. rs_err s \<noteq> None \<longrightarrow> snd (run_state m s) = s) \<and>
     (\<forall>s. rs_err s = None \<and> \<not> rs_sortSets s \<longrightarrow>
        snd (run_state m s) = s \<or> (\<exists>e. snd (run_state m s) = s\<lparr>rs_err := Some e\<rparr>))"

definition yields :: "'a rd \<Rightarrow> 'a \<Rightarrow> bool" where
  "yields m x \<longleftrightarrow> run_state m fresh = (x, fresh)"

lemma fresh_sel [simp]: "rs_err fresh = None" "\<not> rs_sortSets fresh"
  by (simp_all add: fresh_def)

lemma stickyD:
  assumes "sticky m"
  shows "rs_err s \<noteq> None \<Longrightarrow> snd (run_state m s) = s"
    "rs_err s = None \<Longrightarrow> \<not> rs_sortSets s \<Longrightarrow>
       snd (run_state m s) = s \<or> (\<exists>e. snd (run_state m s) = s\<lparr>rs_err := Some e\<rparr>)"
  using assms by (auto simp: sticky_def)

lemma sticky_return [run_simps]: "sticky (return x)"
  by (simp add: sticky_def)

lemma sticky_bind [run_simps]:
  assumes "sticky m" "\<And>x. sticky (f x)"
  shows "sticky (State_Monad.bind m f)"
  unfolding sticky_def
proof (intro conjI allI impI)
  fix s :: readerState
  assume "rs_err s \<noteq> None"
  then show "snd (run_state (State_Monad.bind m f) s) = s"
    using stickyD(1) [OF assms(1), of s] stickyD(1) [OF assms(2), of s] by (cases "run_state m s") simp
next
  fix s :: readerState
  assume s: "rs_err s = None \<and> \<not> rs_sortSets s"
  obtain x s' where x: "run_state m s = (x, s')" by fastforce
  then consider "s' = s" | e where "s' = s\<lparr>rs_err := Some e\<rparr>" using stickyD(2) [OF assms(1), of s] s by auto
  then show "snd (run_state (State_Monad.bind m f) s) = s \<or>
      (\<exists>e. snd (run_state (State_Monad.bind m f) s) = s\<lparr>rs_err := Some e\<rparr>)"
  proof cases
    case 1
    then show ?thesis using x stickyD(2) [OF assms(2), of s x] s by simp
  next
    case 2
    then show ?thesis using x stickyD(1) [OF assms(2), of s' x] by auto
  qed
qed

lemma sticky_get [run_simps]: "sticky State_Monad.get"
  by (simp add: sticky_def)

lemma sticky_Fail [run_simps]: "sticky (rd_Fail r code)"
  by (auto simp: sticky_def rd_Fail_def)

lemma sticky_Field [run_simps]: "sticky (rd_Field key r)"
  by (auto simp: sticky_def rd_Field_def rd_Fail_def split: val.splits option.splits)

lemma sticky_adopt [run_simps]: "sticky (rd_adopt r err)"
  by (auto simp: sticky_def rd_adopt_def split: option.splits)

lemma sticky_Array [run_simps]: "sticky (rd_Array mx semantic r)"
  by (auto simp: sticky_def rd_Array_def rd_Fail_def rd_adopt_def Let_def split: val.splits sum.splits option.splits)

lemma yields_return [run_simps]: "yields (return x) y \<longleftrightarrow> x = y"
  by (simp add: yields_def)

lemma yields_Fail [run_simps]: "\<not> yields (rd_Fail r code) x"
  by (simp add: yields_def rd_Fail_def fresh_def)

lemma yields_bind [run_simps]:
  assumes "sticky m" "\<And>x. sticky (f x)"
  shows "yields (State_Monad.bind m f) y \<longleftrightarrow> (\<exists>x. yields m x \<and> yields (f x) y)"
proof -
  obtain x s' where x: "run_state m fresh = (x, s')" by fastforce
  then consider "s' = fresh" | e where "s' = fresh\<lparr>rs_err := Some e\<rparr>" using stickyD(2) [OF assms(1), of fresh] by auto
  then show ?thesis
  proof cases
    case 1
    then show ?thesis using x by (auto simp: yields_def)
  next
    case 2
    then have "snd (run_state (f x) s') = s'" using stickyD(1) [OF assms(2)] by simp
    then show ?thesis using x 2 by (cases "run_state (f x) s'") (auto simp: yields_def fresh_def)
  qed
qed

lemma yields_get [run_simps]: "yields State_Monad.get x \<longleftrightarrow> x = fresh"
  by (auto simp: yields_def)

lemma yields_Field [run_simps]:
  "yields (rd_Field key r) f \<longleftrightarrow>
     (\<exists>kvs v. r_v r = VObject kvs \<and> obj_Get kvs key = Some v \<and> f = \<lparr>r_v = v, r_where = child_loc (r_where r) key\<rparr>)"
  by (auto simp: yields_def rd_Field_def rd_child_def rd_Fail_def fresh_def split: val.splits option.splits simp del: obj_Get_None)

lemma yields_adopt [run_simps]: "yields (rd_adopt r err) x \<longleftrightarrow> err = None"
  by (auto simp: yields_def rd_adopt_def fresh_def split: option.splits)

text \<open>The result of a decoder that checks the recorded error once, at its end.\<close>

definition run_reader :: "'a rd \<Rightarrow> 'a res" where
  "run_reader m = (case run_state m fresh of (x, st) \<Rightarrow> (case rs_err st of Some e \<Rightarrow> Inl e | None \<Rightarrow> Inr x))"

lemma run_reader_Inr: "sticky m \<Longrightarrow> run_reader m = Inr x \<longleftrightarrow> yields m x"
  using stickyD(2) [of m fresh] by (cases "run_state m fresh") (auto simp: run_reader_def yields_def split: option.splits)

subsection \<open>The accessor contract\<close>

locale field_reader =
  fixes rd :: "reader \<Rightarrow> 'a rd"
    and dec :: "string \<Rightarrow> val \<Rightarrow> 'a res"
  assumes failed: "rs_err s \<noteq> None \<Longrightarrow> snd (run_state (rd r) s) = s"
    and ok: "rs_err s = None \<Longrightarrow> \<not> rs_sortSets s \<Longrightarrow> dec (r_where r) (r_v r) = Inr x \<Longrightarrow> run_state (rd r) s = (x, s)"
    and error: "rs_err s = None \<Longrightarrow> \<not> rs_sortSets s \<Longrightarrow> dec (r_where r) (r_v r) = Inl e \<Longrightarrow>
      snd (run_state (rd r) s) = s\<lparr>rs_err := Some e\<rparr>"
begin

lemma accepts: "\<not> rs_sortSets s \<Longrightarrow>
  rs_err (snd (run_state (rd r) s)) = None \<longleftrightarrow> rs_err s = None \<and> (\<exists>x. dec (r_where r) (r_v r) = Inr x)"
  using failed [of s r] ok [of s r] error [of s r]
  by (cases "dec (r_where r) (r_v r)"; cases "rs_err s") auto

text \<open>The first recorded error is never replaced.\<close>

lemma first_error: "rs_err s = Some e \<Longrightarrow> rs_err (snd (run_state (rd r) s)) = Some e"
  using failed by simp

lemma is_sticky [run_simps]: "sticky (rd r)"
  unfolding sticky_def
proof (intro conjI allI impI)
  fix s :: readerState
  assume s: "rs_err s = None \<and> \<not> rs_sortSets s"
  show "snd (run_state (rd r) s) = s \<or> (\<exists>e. snd (run_state (rd r) s) = s\<lparr>rs_err := Some e\<rparr>)"
    using ok [of s r] error [of s r] s by (cases "dec (r_where r) (r_v r)") auto
qed (rule failed)

lemma yields_dec [run_simps]: "yields (rd r) x \<longleftrightarrow> dec (r_where r) (r_v r) = Inr x"
  using ok [of fresh r] error [of fresh r]
  by (cases "dec (r_where r) (r_v r)") (auto simp: yields_def fresh_def)

text \<open>Sequencing: what a reader records decides whether the next one runs at all.\<close>

lemma bind:
  assumes "\<And>x. field_reader (rd2 x) (dec2 x)"
  shows "field_reader (\<lambda>r. State_Monad.bind (rd r) (\<lambda>x. rd2 x r)) (\<lambda>loc v. rbind (dec loc v) (\<lambda>x. dec2 x loc v))"
proof
  fix s :: readerState and r :: reader
  assume f: "rs_err s \<noteq> None"
  then show "snd (run_state (State_Monad.bind (rd r) (\<lambda>x. rd2 x r)) s) = s"
    using failed [OF f, of r] field_reader.failed [OF assms f] by (cases "run_state (rd r) s") simp
next
  fix s :: readerState and r :: reader and y
  assume s: "rs_err s = None" "\<not> rs_sortSets s"
    and d: "rbind (dec (r_where r) (r_v r)) (\<lambda>x. dec2 x (r_where r) (r_v r)) = Inr y"
  then obtain x where x: "dec (r_where r) (r_v r) = Inr x" "dec2 x (r_where r) (r_v r) = Inr y" by auto
  show "run_state (State_Monad.bind (rd r) (\<lambda>x. rd2 x r)) s = (y, s)"
    using ok [OF s x(1)] field_reader.ok [OF assms s x(2)] by simp
next
  fix s :: readerState and r :: reader and e
  assume s: "rs_err s = None" "\<not> rs_sortSets s"
    and d: "rbind (dec (r_where r) (r_v r)) (\<lambda>x. dec2 x (r_where r) (r_v r)) = Inl e"
  then consider "dec (r_where r) (r_v r) = Inl e"
    | x where "dec (r_where r) (r_v r) = Inr x" "dec2 x (r_where r) (r_v r) = Inl e"
    unfolding rbind_eq_Inl by auto
  then show "snd (run_state (State_Monad.bind (rd r) (\<lambda>x. rd2 x r)) s) = s\<lparr>rs_err := Some e\<rparr>"
  proof cases
    case 1
    note e = error [OF s 1]
    have "rs_err (s\<lparr>rs_err := Some e\<rparr>) \<noteq> None" by simp
    from field_reader.failed [OF assms this] e show ?thesis by (cases "run_state (rd r) s") simp
  next
    case 2
    then show ?thesis using ok [OF s 2(1)] field_reader.error [OF assms s 2(2)] by simp
  qed
qed

lemma or_null: "field_reader (rd_or_null rd) (dec_or_null dec)"
proof
  fix s :: readerState and r :: reader
  assume "rs_err s \<noteq> None"
  then show "snd (run_state (rd_or_null rd r) s) = s" by (simp add: rd_or_null_def)
next
  fix s :: readerState and r :: reader and x
  assume s: "rs_err s = None" "\<not> rs_sortSets s" and "dec_or_null dec (r_where r) (r_v r) = Inr x"
  then show "run_state (rd_or_null rd r) s = (x, s)"
    using ok [OF s, of r]
    by (cases "dec (r_where r) (r_v r)") (auto simp: dec_or_null_def rd_or_null_def IsNull_def split: if_splits)
next
  fix s :: readerState and r :: reader and e
  assume s: "rs_err s = None" "\<not> rs_sortSets s" and d: "dec_or_null dec (r_where r) (r_v r) = Inl e"
  then have "r_v r \<noteq> VNull" "dec (r_where r) (r_v r) = Inl e"
    by (cases "dec (r_where r) (r_v r)"; auto simp: dec_or_null_def split: if_splits)+
  then show "snd (run_state (rd_or_null rd r) s) = s\<lparr>rs_err := Some e\<rparr>"
    using error [OF s, of r] s
    by (cases "run_state (rd r) s") (auto simp: rd_or_null_def IsNull_def)
qed

lemma at_field: "field_reader (\<lambda>r. State_Monad.bind (rd_Field key r) rd) (dec_field key dec)"
proof
  fix s :: readerState and r :: reader
  assume "rs_err s \<noteq> None"
  then show "snd (run_state (State_Monad.bind (rd_Field key r) rd) s) = s"
    using failed [of s "rd_child r VNull key"] by (simp add: rd_Field_def)
next
  fix s :: readerState and r :: reader and x
  assume s: "rs_err s = None" "\<not> rs_sortSets s" and "dec_field key dec (r_where r) (r_v r) = Inr x"
  then obtain kvs v where k: "r_v r = VObject kvs" "obj_Get kvs key = Some v" "dec (child_loc (r_where r) key) v = Inr x"
    by (auto simp: dec_field_def split: val.splits option.splits)
  then show "run_state (State_Monad.bind (rd_Field key r) rd) s = (x, s)"
    using ok [OF s, of "rd_child r v key" x] s by (simp add: rd_Field_def rd_child_def)
next
  fix s :: readerState and r :: reader and e
  assume s: "rs_err s = None" "\<not> rs_sortSets s" and d: "dec_field key dec (r_where r) (r_v r) = Inl e"
  show "snd (run_state (State_Monad.bind (rd_Field key r) rd) s) = s\<lparr>rs_err := Some e\<rparr>"
  proof (cases "\<exists>kvs v. r_v r = VObject kvs \<and> obj_Get kvs key = Some v")
    case True
    then obtain kvs v where k: "r_v r = VObject kvs" "obj_Get kvs key = Some v" by blast
    then show ?thesis
      using error [OF s, of "rd_child r v key" e] s d by (simp add: rd_Field_def rd_child_def dec_field_def)
  next
    case False
    then have e: "e = Errorf CodeMalformed (r_where r)"
      using d by (auto simp: dec_field_def split: val.splits option.splits simp del: obj_Get_None)
    have "run_state (rd_Field key r) s = (rd_child r VNull key, s\<lparr>rs_err := Some e\<rparr>)"
      using False s e by (cases "r_v r") (auto simp: rd_Field_def rd_Fail_def split: option.splits simp del: obj_Get_None)
    then show ?thesis using failed [of "s\<lparr>rs_err := Some e\<rparr>" "rd_child r VNull key"] by simp
  qed
qed

lemma strings_loop_ok:
  assumes "rs_err s = None" "\<not> rs_sortSets s"
  shows "dec_all dec loc i vs = Inr xs \<Longrightarrow>
    run_state (strings_loop rd (map (\<lambda>(i, v). \<lparr>r_v = v, r_where = child_loc loc (format_nat i)\<rparr>) (enumerate i vs)) out) s = (out @ xs, s)"
proof (induction vs arbitrary: i out xs)
  case (Cons v vs)
  obtain y ys where "dec (child_loc loc (format_nat i)) v = Inr y" "dec_all dec loc (i + 1) vs = Inr ys" "xs = y # ys"
    using Cons.prems by (cases "dec_all dec loc (i + 1) vs") auto
  then show ?case
    using Cons.IH [of "i + 1" ys "out @ [y]"] assms
      ok [OF assms, of "\<lparr>r_v = v, r_where = child_loc loc (format_nat i)\<rparr>" y] by simp
qed simp

lemma strings_loop_error:
  assumes "rs_err s = None" "\<not> rs_sortSets s"
  shows "dec_all dec loc i vs = Inl e \<Longrightarrow>
    snd (run_state (strings_loop rd (map (\<lambda>(i, v). \<lparr>r_v = v, r_where = child_loc loc (format_nat i)\<rparr>) (enumerate i vs)) out) s)
      = s\<lparr>rs_err := Some e\<rparr>"
proof (induction vs arbitrary: i out)
  case (Cons v vs)
  let ?r = "\<lparr>r_v = v, r_where = child_loc loc (format_nat i)\<rparr>"
  show ?case
  proof (cases "dec (child_loc loc (format_nat i)) v")
    case (Inl e')
    then have "snd (run_state (rd ?r) s) = s\<lparr>rs_err := Some e\<rparr>"
      using Cons.prems error [OF assms, of ?r e] by simp
    then show ?thesis by (cases "run_state (rd ?r) s") simp
  next
    case (Inr y)
    then have "dec_all dec loc (i + 1) vs = Inl e" using Cons.prems by (cases "dec_all dec loc (i + 1) vs") auto
    then show ?thesis using Cons.IH [of "i + 1" "out @ [y]"] ok [OF assms, of ?r y] Inr assms by simp
  qed
qed simp

lemma strings: "field_reader (rd_Strings mx semantic rd) (dec_strings mx semantic dec)"
proof
  fix s :: readerState and r :: reader
  assume "rs_err s \<noteq> None"
  then show "snd (run_state (rd_Strings mx semantic rd r) s) = s" by (simp add: rd_Strings_def rd_Array_def)
next
  fix s :: readerState and r :: reader and xs
  assume s: "rs_err s = None" "\<not> rs_sortSets s" and d: "dec_strings mx semantic dec (r_where r) (r_v r) = Inr xs"
  then obtain vs where v: "r_v r = VArray vs" "\<not> (mx \<ge> 0 \<and> int (length vs) > mx)"
      "semantic \<or> CheckSortedUnique (r_where r) vs = Inr ()" "dec_all dec (r_where r) 0 vs = Inr xs"
    by (auto simp: dec_strings_def dec_array_def split: val.splits if_splits)
  then show "run_state (rd_Strings mx semantic rd r) s = (xs, s)"
    using s strings_loop_ok [OF s v(4), of "[]"]
    by (auto simp: rd_Strings_def rd_Array_def rd_child_def Let_def simp del: CheckSortedUnique_iff)
next
  fix s :: readerState and r :: reader and e
  assume s: "rs_err s = None" "\<not> rs_sortSets s" and d: "dec_strings mx semantic dec (r_where r) (r_v r) = Inl e"
  then consider (arr) "dec_array mx semantic (r_where r) (r_v r) = Inl e"
    | (el) vs where "dec_array mx semantic (r_where r) (r_v r) = Inr vs" "dec_all dec (r_where r) 0 vs = Inl e"
    by (auto simp: dec_strings_def rbind_eq_Inl)
  then show "snd (run_state (rd_Strings mx semantic rd r) s) = s\<lparr>rs_err := Some e\<rparr>"
  proof cases
    case arr
    then show ?thesis
      using s by (cases "r_v r")
        (auto simp: rd_Strings_def rd_Array_def dec_array_def rd_Fail_def rd_adopt_def rbind_eq_Inl Let_def
          split: if_splits sum.splits)
  next
    case el
    then have v: "r_v r = VArray vs" "\<not> (mx \<ge> 0 \<and> int (length vs) > mx)"
        "semantic \<or> CheckSortedUnique (r_where r) vs = Inr ()"
      by (auto simp: dec_array_def split: val.splits if_splits)
    then show ?thesis
      using s strings_loop_error [OF s el(2), of "[]"]
      by (auto simp: rd_Strings_def rd_Array_def rd_child_def Let_def simp del: CheckSortedUnique_iff)
  qed
qed

end

subsection \<open>The accessors meet the contract\<close>

lemma return_reader: "field_reader (\<lambda>r. return x) (\<lambda>loc v. Inr x)"
  by unfold_locales auto

lemma field_reader_cong:
  "field_reader rd dec \<Longrightarrow> (\<And>r. rd r = rd' r) \<Longrightarrow> (\<And>loc v. dec loc v = dec' loc v) \<Longrightarrow> field_reader rd' dec'"
  by (subgoal_tac "rd = rd' \<and> dec = dec'") (auto intro!: ext)

lemma rd_with_reader: "field_reader (rd_with zero parse) (dec_with parse)"
  by unfold_locales
    (auto simp: rd_with_def rd_String_def rd_Fail_def rd_adopt_def dec_with_def dec_string_def err_of_def
      split: val.splits sum.splits)

interpretation String_reader: field_reader rd_String dec_string
  by unfold_locales (auto simp: rd_String_def rd_Fail_def dec_string_def split: val.splits)

interpretation Bool_reader: field_reader rd_Bool dec_bool
  by unfold_locales (auto simp: rd_Bool_def rd_Fail_def dec_bool_def split: val.splits)

interpretation Enum_reader: field_reader "rd_Enum allowed" "dec_enum allowed"
  by unfold_locales
    (auto simp: rd_Enum_def rd_String_def rd_Fail_def dec_enum_def dec_with_def dec_string_def split: val.splits if_splits)

interpretation Exact_reader: field_reader "rd_Exact want" "dec_enum [want]"
  unfolding rd_Exact_def by (rule Enum_reader.field_reader_axioms)

interpretation Count_reader: field_reader rd_Count "dec_with ParseCount"
  unfolding rd_Count_def by (rule rd_with_reader)

interpretation Size_reader: field_reader rd_Size "dec_with ParseSize"
  unfolding rd_Size_def by (rule rd_with_reader)

interpretation Digest_reader: field_reader rd_Digest "dec_with ParseDigest"
  unfolding rd_Digest_def by (rule rd_with_reader)

interpretation OID_reader: field_reader rd_OID "dec_with ParseOID"
  unfolding rd_OID_def by (rule rd_with_reader)

interpretation Identifier_reader: field_reader rd_Identifier "dec_with ParseIdentifier"
  unfolding rd_Identifier_def by (rule rd_with_reader)

interpretation PathText_reader: field_reader rd_PathText "dec_with ParsePathText"
  unfolding rd_PathText_def by (rule rd_with_reader)

interpretation Label_reader: field_reader rd_Label "dec_with ParseLabel"
  unfolding rd_Label_def by (rule rd_with_reader)

interpretation Path_reader: field_reader rd_Path "dec_with ParsePath"
  unfolding rd_Path_def by (rule rd_with_reader)

interpretation Timestamp_reader: field_reader rd_Timestamp "dec_with ParseTimestamp"
  unfolding rd_Timestamp_def by (rule rd_with_reader)

interpretation Prose_reader: field_reader "rd_Prose mn mx" "dec_with (\<lambda>loc s. ParseProse loc s mn mx)"
  unfolding rd_Prose_def by (rule rd_with_reader)

interpretation TicketID_reader: field_reader rd_TicketID "dec_with ParseTicketID"
  unfolding rd_TicketID_def by (rule rd_with_reader)

interpretation QueueID_reader: field_reader rd_QueueID "dec_with ParseQueueID"
  unfolding rd_QueueID_def by (rule rd_with_reader)

interpretation Closed_reader: field_reader "rd_Closed keys" "dec_closed keys"
  by unfold_locales (auto simp: rd_Closed_def rd_Fail_def dec_closed_def split: val.splits)

interpretation DigestOrNull_reader: field_reader rd_DigestOrNull "dec_or_null (dec_with ParseDigest)"
  unfolding rd_DigestOrNull_def by (rule Digest_reader.or_null)

interpretation LabelOrNull_reader: field_reader rd_LabelOrNull "dec_or_null (dec_with ParseLabel)"
  unfolding rd_LabelOrNull_def by (rule Label_reader.or_null)

interpretation ProseOrNull_reader: field_reader "rd_ProseOrNull mx" "dec_or_null (dec_with (\<lambda>loc s. ParseProse loc s 0 mx))"
  unfolding rd_ProseOrNull_def by (rule Prose_reader.or_null)

interpretation TimestampOrNull_reader: field_reader rd_TimestampOrNull "dec_or_null (dec_with ParseTimestamp)"
  unfolding rd_TimestampOrNull_def by (rule Timestamp_reader.or_null)

interpretation CountOrNull_reader: field_reader rd_CountOrNull "dec_or_null (dec_with ParseCount)"
  unfolding rd_CountOrNull_def by (rule Count_reader.or_null)

interpretation SizeOrNull_reader: field_reader rd_SizeOrNull "dec_or_null (dec_with ParseSize)"
  unfolding rd_SizeOrNull_def by (rule Size_reader.or_null)

interpretation OIDOrNull_reader: field_reader "rd_StringOrNull rd_OID" "dec_or_null (dec_with ParseOID)"
  unfolding rd_StringOrNull_def by (rule OID_reader.or_null)

interpretation Labels_reader: field_reader "rd_Strings mx semantic rd_Label" "dec_strings mx semantic (dec_with ParseLabel)"
  by (rule Label_reader.strings)

text \<open>The contract of every accessor, for decoders assembled from them.\<close>

lemmas reader_rules =
  return_reader
  String_reader.field_reader_axioms Bool_reader.field_reader_axioms Enum_reader.field_reader_axioms
  Exact_reader.field_reader_axioms Count_reader.field_reader_axioms Size_reader.field_reader_axioms
  Digest_reader.field_reader_axioms OID_reader.field_reader_axioms Identifier_reader.field_reader_axioms
  PathText_reader.field_reader_axioms Label_reader.field_reader_axioms Path_reader.field_reader_axioms
  Timestamp_reader.field_reader_axioms Prose_reader.field_reader_axioms TicketID_reader.field_reader_axioms
  QueueID_reader.field_reader_axioms Closed_reader.field_reader_axioms DigestOrNull_reader.field_reader_axioms
  LabelOrNull_reader.field_reader_axioms ProseOrNull_reader.field_reader_axioms
  TimestampOrNull_reader.field_reader_axioms CountOrNull_reader.field_reader_axioms
  SizeOrNull_reader.field_reader_axioms OIDOrNull_reader.field_reader_axioms

text \<open>
  The set-sorting reader of the input boundary is compatible with the authoritative decoder. When
  it reads a set it writes back a permutation of the array, returns readers over exactly what it
  wrote, and the strict reader accepts that array with the same elements; only duplicates and
  oversized arrays are refused.
\<close>

theorem set_sorting_Array:
  assumes "rs_err s = None" "rs_sortSets s" "r_v r = VArray vs" "run_state (rd_Array mx False r) s = (items, s')"
    "rs_err s' = None" "rs_err t = None" "\<not> rs_sortSets t"
  shows "\<exists>ws. mset ws = mset vs \<and> s' = s\<lparr>rs_writes := rs_writes s @ [(r_where r, ws)]\<rparr> \<and>
    run_state (rd_Array mx False (r\<lparr>r_v := VArray ws\<rparr>)) t = (items, t)"
proof -
  have n: "\<not> (mx \<ge> 0 \<and> int (length vs) > mx)"
    using assms by (auto simp: rd_Array_def rd_Fail_def split: if_splits)
  have d: "distinct (map Encode vs)"
    using assms n by (auto simp: rd_Array_def SortedSet_eq rd_adopt_def err_of_def Let_def split: if_splits)
  let ?ws = "sort_key Encode vs"
  have p: "mset (map Encode ?ws) = mset (map Encode vs)" unfolding mset_map by simp
  have "distinct (map Encode ?ws)" using d p by (metis mset_eq_imp_distinct_iff)
  then have "CheckSortedUnique (r_where r) ?ws = Inr ()" by (simp add: strict_sorted_iff)
  then show ?thesis
    using assms n d
    by (intro exI [of _ ?ws]) (auto simp: rd_Array_def SortedSet_eq rd_child_def Let_def simp del: CheckSortedUnique_iff)
qed

definition sample_set :: reader where
  "sample_set = \<lparr>r_v = VArray [VString ''b'', VString ''a''], r_where = ''/labels''\<rparr>"

theorem set_sorting_Array_witness:
  "\<exists>ws. mset ws = mset [VString ''b'', VString ''a''] \<and>
    run_state (rd_Array 8 False (sample_set\<lparr>r_v := VArray ws\<rparr>)) \<lparr>rs_err = None, rs_sortSets = False, rs_writes = []\<rparr> =
      (fst (run_state (rd_Array 8 False sample_set) \<lparr>rs_err = None, rs_sortSets = True, rs_writes = []\<rparr>),
       \<lparr>rs_err = None, rs_sortSets = False, rs_writes = []\<rparr>)"
proof -
  let ?s = "\<lparr>rs_err = None, rs_sortSets = True, rs_writes = []\<rparr>"
  let ?t = "\<lparr>rs_err = None, rs_sortSets = False, rs_writes = []\<rparr> :: readerState"
  have e: "rs_err (snd (run_state (rd_Array 8 False sample_set) ?s)) = None"
    by (simp add: sample_set_def rd_Array_def SortedSet_eq Encode_eq enc_str_def enc_byte_def escapedByte_def Let_def)
  show ?thesis
    using set_sorting_Array [of ?s sample_set "[VString ''b'', VString ''a'']" 8
        "fst (run_state (rd_Array 8 False sample_set) ?s)" "snd (run_state (rd_Array 8 False sample_set) ?s)" ?t] e
    by (auto simp: sample_set_def)
qed

end
