(* ===== verification/Envelope.thy ===== *)
theory Envelope
  imports Results
begin

text \<open>
  The round trip of the command-result envelope and what its decoder guarantees. The lemmas
  invert each part of the decoder on the rendering of the corresponding part of a result; the
  sample result is the one the witnesses evaluate.
\<close>

subsection \<open>Inverting the decoder\<close>

text \<open>The members of an object after its keys were sorted.\<close>

lemma canon_members:
  assumes "v = VObject kvs" "distinct (map fst kvs)"
  shows "\<exists>kws. canon v = VObject kws \<and> (\<forall>key. obj_Get kws key = map_option canon (obj_Get kvs key))"
  unfolding assms(1) canon.simps using obj_Get_canon [OF assms(2)] by blast

lemma read_Barrier_inv:
  assumes "yields (read_Barrier \<lparr>r_v = canon (Barrier_Value b), r_where = loc\<rparr>) x"
  shows "x = Some b"
proof -
  have v: "Barrier_Value b = VObject [(''scope'', VString (b_Scope b)), (''reason'', VString (b_Reason b))]"
    by (simp add: Barrier_Value_def NewObject_def)
  obtain kws where k: "canon (Barrier_Value b) = VObject kws"
    "\<And>key. obj_Get kws key = map_option canon (obj_Get [(''scope'', VString (b_Scope b)), (''reason'', VString (b_Reason b))] key)"
    using canon_members [OF v] by auto
  show ?thesis
    using assms unfolding k(1) read_Barrier_def
    by (auto simp: IsNull_def run_simps k(2) obj_Get_Cons dec_enum_def dec_with_def dec_string_def split: if_splits)
qed

lemma read_Barrier_opt_inv:
  assumes "yields (read_Barrier \<lparr>r_v = canon (case b of None \<Rightarrow> VNull | Some b \<Rightarrow> Barrier_Value b), r_where = loc\<rparr>) x"
  shows "x = b"
  using assms read_Barrier_inv
  by (cases b) (auto simp: read_Barrier_def [of "\<lparr>r_v = VNull, r_where = loc\<rparr>"] IsNull_def run_simps)

lemmas or_null_inv =
  dec_or_null_input [OF returns_input_rules(6)] dec_or_null_input [OF returns_input_rules(7)]
  dec_or_null_input [OF returns_input_rules(8)]

lemma dec_bool_inv: "dec_bool loc v = Inr b \<Longrightarrow> v = VBool b"
  by (auto simp: dec_bool_def split: val.splits)

lemma count_inv: "dec_with ParseCount loc v = Inr x \<Longrightarrow> v = VString x"
  using returns_input_rules(6) by (simp add: returns_input_def)

lemma read_Snapshot_inv:
  assumes "yields (read_Snapshot \<lparr>r_v = canon (Snapshot_Value s), r_where = loc\<rparr>) x"
  shows "x = Some s"
proof -
  let ?m = "[(''headSeq'', StringOrNull (sn_HeadSeq s)), (''headReceiptSha256'', StringOrNull (sn_HeadReceiptSha256 s)),
      (''intentTreeSha256'', StringOrNull (sn_IntentTreeSha256 s)),
      (''primaryWorktreeSha256'', StringOrNull (sn_PrimaryWorktreeSha256 s)),
      (''pendingRedo'', VBool (sn_PendingRedo s)),
      (''barrier'', case sn_Barrier s of None \<Rightarrow> VNull | Some b \<Rightarrow> Barrier_Value b)]"
  have v: "Snapshot_Value s = VObject ?m"
    by (simp add: Snapshot_Value_def NewObject_def)
  obtain kws where k: "canon (Snapshot_Value s) = VObject kws"
    "\<And>key. obj_Get kws key = map_option canon (obj_Get ?m key)"
    using canon_members [OF v] by auto
  show ?thesis
    using assms unfolding k(1) read_Snapshot_def
    by (auto simp: IsNull_def run_simps k(2) obj_Get_Cons dest!: or_null_inv dec_bool_inv read_Barrier_opt_inv)
qed

lemma read_Page_inv:
  assumes "yields (read_Page \<lparr>r_v = canon (Page_Value p), r_where = loc\<rparr>) x"
  shows "x = Some p"
proof -
  let ?m = "[(''offset'', VString (pg_Offset p)), (''limit'', VString (pg_Limit p)), (''total'', StringOrNull (pg_Total p)),
      (''truncated'', VBool (pg_Truncated p))]"
  have v: "Page_Value p = VObject ?m"
    by (simp add: Page_Value_def NewObject_def)
  obtain kws where k: "canon (Page_Value p) = VObject kws"
    "\<And>key. obj_Get kws key = map_option canon (obj_Get ?m key)"
    using canon_members [OF v] by auto
  show ?thesis
    using assms unfolding k(1) read_Page_def
    by (auto simp: IsNull_def run_simps k(2) obj_Get_Cons dest!: or_null_inv dec_bool_inv count_inv)
qed

lemma read_items_inv: "yields (read_items its) x \<Longrightarrow> x = map r_v its"
  by (induction its arbitrary: x) (auto simp: run_simps split: if_splits)

lemma rd_Array_inv:
  "yields (rd_Array mx True \<lparr>r_v = VArray vs, r_where = loc\<rparr>) its \<Longrightarrow> map r_v its = vs"
  by (auto simp: yields_def rd_Array_def rd_Fail_def rd_child_def fresh_def Let_def comp_def case_prod_beta'
      split: if_splits)

lemma read_Mutation_inv:
  assumes "yields (read_Mutation \<lparr>r_v = canon (case m of None \<Rightarrow> VNull | Some v \<Rightarrow> v), r_where = loc\<rparr>) x"
  shows "x = (if m = Some VNull then None else map_option canon m)"
proof -
  have "canon v = VNull \<longleftrightarrow> v = VNull" for v by (cases v) auto
  then show ?thesis
    using assms by (auto simp: read_Mutation_def IsNull_def run_simps split: option.splits if_splits)
qed

lemma read_retryable_inv:
  assumes "yields (read_retryable \<lparr>r_v = VObject kws, r_where = loc\<rparr> oc cs) x"
    "obj_Get kws ''retryable'' = (if snd (ResultRetryable oc cs)
      then Some (VBool (fst (ResultRetryable oc cs) \<and> \<not> nr)) else None)"
  shows "x = (fst (ResultRetryable oc cs) \<and> nr)"
proof -
  have p: "fst (ResultRetryable oc cs) \<Longrightarrow> snd (ResultRetryable oc cs)"
    by (auto simp: ResultRetryable_def split: if_splits)
  obtain want present where w: "ResultRetryable oc cs = (want, present)" by fastforce
  show ?thesis
    using assms p unfolding w
    by (cases present) (auto simp: read_retryable_def val_Has_def run_simps w dest!: dec_bool_inv simp del: obj_Get_None)
qed

lemma read_Facets_inv:
  assumes "yields (read_Facets \<lparr>r_v = VObject kws, r_where = loc\<rparr>) x" "obj_Get kws ''facets'' = f"
  shows "x = f"
  using assms by (cases f) (auto simp: read_Facets_def val_Has_def run_simps simp del: obj_Get_None)

lemmas strings_inv =
  dec_strings_input [OF returns_input_rules(2)] dec_strings_input [OF returns_input_rules(3)]
  dec_strings_input [OF returns_input_rules(5)] dec_strings_input [OF returns_input_rules(9)]

lemma enum_inv: "dec_enum xs loc v = Inr x \<Longrightarrow> v = VString x"
  using returns_input_rules(2) by (simp add: returns_input_def)

lemma read_result_inv:
  assumes "yields (read_result \<lparr>r_v = canon (Result_Value r), r_where = ''/''\<rparr>) x"
  shows "x = normal_result r"
proof -
  obtain kws where k: "canon (Result_Value r) = VObject kws"
    "\<And>key. obj_Get kws key = map_option canon (obj_Get (result_members r) key)"
    using canon_members [OF Result_Value_members distinct_result_keys] by blast
  have rt: "obj_Get kws ''retryable'' = (if snd (ResultRetryable (Outcome r) (sortedUniqueStrings (res_Codes r)))
      then Some (VBool (fst (ResultRetryable (Outcome r) (sortedUniqueStrings (res_Codes r))) \<and> \<not> NotRetryable r)) else None)"
    by (simp add: k(2) result_get ResultRetryable_sorted)
  have fa: "obj_Get kws ''facets'' = map_option canon (Facets r)" by (simp add: k(2) result_get)
  have sn: "y = res_Snapshot r"
    if "yields (read_Snapshot \<lparr>r_v = canon (case res_Snapshot r of None \<Rightarrow> VNull | Some s \<Rightarrow> Snapshot_Value s), r_where = l\<rparr>) y" for y l
    using that read_Snapshot_inv
    by (cases "res_Snapshot r") (auto simp: read_Snapshot_def [of "\<lparr>r_v = VNull, r_where = l\<rparr>"] IsNull_def run_simps)
  have pg: "y = res_Page r"
    if "yields (read_Page \<lparr>r_v = canon (case res_Page r of None \<Rightarrow> VNull | Some s \<Rightarrow> Page_Value s), r_where = l\<rparr>) y" for y l
    using that read_Page_inv
    by (cases "res_Page r") (auto simp: read_Page_def [of "\<lparr>r_v = VNull, r_where = l\<rparr>"] IsNull_def run_simps)
  show ?thesis
    using assms unfolding k(1) read_result_def read_result_fields_def
    apply (simp add: run_simps k(2) result_get)
    apply (clarsimp dest!: strings_inv enum_inv sn pg read_items_inv rd_Array_inv read_Mutation_inv
      read_Facets_inv [OF _ fa])
    apply (drule read_retryable_inv [OF _ rt])
    by (simp add: normal_result_def ResultRetryable_sorted)
qed

definition sample_result :: Result where
  "sample_result = \<lparr>Command = [''ls''], Outcome = OutcomeRefused, res_Codes = [CodeLockTimeout], res_Snapshot = None,
     Mutation = None, Items = [VObject [(''b'', VNull), (''a'', VNull)]],
     res_Page = None, Untrusted = True, Warnings = [], Facets = None, NotRetryable = True, res_MaxNodes = 0\<rparr>"

lemma clean_plain: "plainASCII s True \<Longrightarrow> clean_text True s" "plainASCII s False \<Longrightarrow> clean_text False s"
  by (rule plainASCII_clean, assumption)+

lemma sample_value: "Result_Value sample_result = VObject [(''profile'', VString ''taskman-command-result/0''), (''command'', VArray [VString ''ls'']),
   (''outcome'', VString ''REFUSED''), (''codes'', VArray [VString ''LOCK_TIMEOUT'']), (''retryable'', VBool False),
   (''snapshot'', VNull), (''mutation'', VNull), (''items'', VArray [VObject [(''b'', VNull), (''a'', VNull)]]), (''page'', VNull),
   (''untrusted'', VArray [VString ''UNTRUSTED_QUEUE_DATA'']), (''warnings'', VArray [])]"
  unfolding Result_Value_members
  by (simp add: result_members_eq sample_result_def ProfileCommandResult_def OutcomeRefused_def OutcomeOK_def
      ResultRetryable_def Retryable_iff sortedUniqueStrings_def UntrustedQueueData_def Strings_def CodeLockTimeout_def)

lemma sample_fits: "fits (norm_options \<lparr>WideArrayKey = [], WideArrayMax = 0, MaxNodes = 0\<rparr>) 0 False (Result_Value sample_result)"
  unfolding sample_value norm_default
  by (auto simp: limit_defs plainASCII_def input_options_def intro!: clean_plain)

definition sample_kws :: object where
  "sample_kws = [(''codes'', VArray [VString ''LOCK_TIMEOUT'']), (''command'', VArray [VString ''ls'']),
   (''items'', VArray [VObject [(''a'', VNull), (''b'', VNull)]]), (''mutation'', VNull), (''outcome'', VString ''REFUSED''),
   (''page'', VNull), (''profile'', VString ''taskman-command-result/0''), (''retryable'', VBool False), (''snapshot'', VNull),
   (''untrusted'', VArray [VString ''UNTRUSTED_QUEUE_DATA'']), (''warnings'', VArray [])]"

lemma sample_canon: "canon (Result_Value sample_result) = VObject sample_kws"
  unfolding sample_value by (simp add: sample_kws_def)

lemma sample_get:
  "obj_Get sample_kws ''codes'' = Some (VArray [VString ''LOCK_TIMEOUT''])"
  "obj_Get sample_kws ''command'' = Some (VArray [VString ''ls''])"
  "obj_Get sample_kws ''items'' = Some (VArray [VObject [(''a'', VNull), (''b'', VNull)]])"
  "obj_Get sample_kws ''mutation'' = Some VNull"
  "obj_Get sample_kws ''outcome'' = Some (VString ''REFUSED'')"
  "obj_Get sample_kws ''page'' = Some VNull"
  "obj_Get sample_kws ''profile'' = Some (VString ''taskman-command-result/0'')"
  "obj_Get sample_kws ''retryable'' = Some (VBool False)"
  "obj_Get sample_kws ''snapshot'' = Some VNull"
  "obj_Get sample_kws ''untrusted'' = Some (VArray [VString ''UNTRUSTED_QUEUE_DATA''])"
  "obj_Get sample_kws ''warnings'' = Some (VArray [])"
  "obj_Get sample_kws ''facets'' = None"
  by (simp_all add: sample_kws_def obj_Get_def)

lemma sample_closed: "dec_closed (OptionalKeys (VObject sample_kws) result_keys [''retryable'', ''facets'']) ''/'' (VObject sample_kws) = Inr ()"
proof -
  have "OptionalKeys (VObject sample_kws) result_keys [''retryable'', ''facets''] = result_keys @ [''retryable'']"
    by (simp add: OptionalKeys_def sample_get del: obj_Get_None)
  moreover have "closed_ok (result_keys @ [''retryable'']) sample_kws"
    by code_simp
  ultimately show ?thesis by (simp add: dec_closed_def)
qed

lemma parseText_plain: "plainASCII s a \<Longrightarrow> mn \<le> length s \<Longrightarrow> length s \<le> mx \<Longrightarrow> parseText loc s mn mx a = Inr s"
  by (simp add: parseText_def checkHostile_def del: checkHostile_iff)

lemma dec_strings_one: "dec loc' (VString s) = Inr s \<Longrightarrow> loc' = child_loc loc ''0'' \<Longrightarrow> mx \<noteq> 0 \<Longrightarrow>
   dec_strings mx sem dec loc (VArray [VString s]) = Inr [s]"
  by (simp add: dec_strings_def dec_array_def format_nat_zero)

lemma dec_strings_nil: "dec_strings mx sem dec loc (VArray []) = Inr []"
  by (simp add: dec_strings_def dec_array_def CheckSortedUnique_def)

lemma sample_fields:
  "err_of (ProfileVersion ''/profile'' (VObject sample_kws) ProfileCommandResult) = None"
  "err_of (CheckProfile ''/profile'' ''taskman-command-result/0'' ProfileCommandResult) = None"
  "dec_strings (-1) True (dec_with ParseIdentifier) loc (VArray [VString ''ls'']) = Inr [''ls'']"
  "dec_enum [OutcomeOK, OutcomeRefused, OutcomeError, OutcomeNotRun] loc (VString ''REFUSED'') = Inr ''REFUSED''"
  "dec_strings (-1) False (dec_with (\<lambda>loc s. if IsCode s then Inr s else Inl (Errorf CodeMalformed loc))) loc
     (VArray [VString ''LOCK_TIMEOUT'']) = Inr [''LOCK_TIMEOUT'']"
  "dec_strings 1 False (dec_enum [UntrustedQueueData]) loc (VArray [VString ''UNTRUSTED_QUEUE_DATA'']) = Inr [''UNTRUSTED_QUEUE_DATA'']"
  by (simp_all add: ProfileVersion_def otherVersion_def CheckProfile_def sample_get ProfileCommandResult_def err_of_def
      ParseIdentifier_def parseText_plain plainASCII_def limit_defs dec_with_def dec_string_def dec_strings_one
      dec_enum_def OutcomeRefused_def UntrustedQueueData_def IsCode_members [unfolded CodeLockTimeout_def] del: obj_Get_None)

lemma yields_null:
  "yields (read_Snapshot \<lparr>r_v = VNull, r_where = loc\<rparr>) x \<longleftrightarrow> x = None"
  "yields (read_Mutation \<lparr>r_v = VNull, r_where = loc\<rparr>) y \<longleftrightarrow> y = None"
  "yields (read_Page \<lparr>r_v = VNull, r_where = loc\<rparr>) z \<longleftrightarrow> z = None"
  by (auto simp: read_Snapshot_def read_Mutation_def read_Page_def IsNull_def run_simps)

lemma yields_Array_one:
  "yields (rd_Array (-1) True \<lparr>r_v = VArray [v], r_where = loc\<rparr>) its \<longleftrightarrow> its = [\<lparr>r_v = v, r_where = child_loc loc ''0''\<rparr>]"
  by (auto simp: yields_def rd_Array_def rd_child_def format_nat_zero)

lemma sample_read: "\<exists>x. yields (read_result \<lparr>r_v = canon (Result_Value sample_result), r_where = ''/''\<rparr>) x"
proof -
  have r: "yields (read_retryable \<lparr>r_v = VObject sample_kws, r_where = ''/''\<rparr> ''REFUSED'' [''LOCK_TIMEOUT'']) x \<longleftrightarrow> x" for x
    by (auto simp: read_retryable_def val_Has_def run_simps sample_get dec_bool_def ResultRetryable_def OutcomeOK_def
        Retryable_iff CodeLockTimeout_def simp del: obj_Get_None)
  have f: "yields (read_Facets \<lparr>r_v = VObject sample_kws, r_where = ''/''\<rparr>) x \<longleftrightarrow> x = None" for x
    by (auto simp: read_Facets_def val_Has_def sample_get run_simps simp del: obj_Get_None)
  show ?thesis
    unfolding sample_canon read_result_def read_result_fields_def
    by (simp add: run_simps sample_get sample_closed sample_fields dec_string_def yields_null yields_Array_one r f
        is_object_def dec_strings_nil del: obj_Get_None) (rule exI [of _ True], simp)
qed

lemma sample_encodes: "\<exists>data. Result_Encode sample_result = Inr data"
proof -
  let ?o = "\<lparr>WideArrayKey = [], WideArrayMax = 0, MaxNodes = 0\<rparr>"
  let ?v = "Result_Value sample_result"
  have "nodes (canon ?v) = nodes ?v" by simp
  also have "\<dots> \<le> 100" unfolding sample_value by simp
  finally have "int (nodes (canon ?v)) \<le> MaxNodes (norm_options ?o)"
    unfolding norm_default by (simp add: input_options_def limit_defs)
  then have "ParseWith (enc (canon ?v) @ [CHR 0x0A]) ?o = Inr (canon ?v)"
    using sample_fits by (intro ParseWith_complete sorted_canon fits_canon)
  then have "ParseWith (EncodeFile ?v) ?o = Inr (canon ?v)"
    using enc_canon [OF fits_distinct [OF sample_fits]] by (simp add: EncodeFile_eq)
  then obtain x where "decodeResult (EncodeFile ?v) ?o = Inr x"
    using sample_read decodeResult_Inr by blast
  moreover have "length (EncodeFile ?v) < 300" "sum_list (map (\<lambda>it. length (Encode it) + 1) (Items sample_result)) < 30"
    by code_simp+
  moreover have "res_MaxNodes sample_result = 0" by (simp add: sample_result_def)
  ultimately show ?thesis by (simp add: Result_Encode_def limit_defs Let_def MaxResultNodes_def)
qed

text \<open>
  C12: the result envelope round-trips. Bytes that \<^verbatim>\<open>Result.Encode\<close> returns are decoded, under the same
  node bound, to the same result with its sets sorted and its opaque values in canonical order, and
  they respect the size bounds of the envelope and of a list.
\<close>

theorem Result_roundtrip:
  assumes "result_distinct r" "Result_Encode r = Inr data"
  shows "decodeResult data \<lparr>WideArrayKey = [], WideArrayMax = 0, MaxNodes = res_MaxNodes r\<rparr> = Inr (normal_result r) \<and>
    data = EncodeFile (Result_Value r) \<and> length data \<le> MaxCommandResultBytes + MaxListResultBytes"
proof -
  let ?o = "\<lparr>WideArrayKey = [], WideArrayMax = 0, MaxNodes = res_MaxNodes r\<rparr>"
  obtain x where x: "decodeResult (EncodeFile (Result_Value r)) ?o = Inr x" and d: "data = EncodeFile (Result_Value r)"
    and len: "length data \<le> MaxCommandResultBytes + MaxListResultBytes"
    using assms(2) by (auto simp: Result_Encode_def Let_def split: if_splits sum.splits)
  obtain v where v: "ParseWith (EncodeFile (Result_Value r)) ?o = Inr v" "yields (read_result \<lparr>r_v = v, r_where = ''/''\<rparr>) x"
    using x decodeResult_Inr by blast
  have "v = canon (Result_Value r)" by (rule ParseWith_encoded [OF v(1) distinct_Result_Value [OF assms(1)]])
  then have "x = normal_result r" using read_result_inv v(2) by simp
  then show ?thesis using x d len by simp
qed

theorem Result_roundtrip_witness:
  "\<exists>data. Result_Encode sample_result = Inr data \<and>
    decodeResult data \<lparr>WideArrayKey = [], WideArrayMax = 0, MaxNodes = 0\<rparr> = Inr (normal_result sample_result)"
proof -
  obtain data where d: "Result_Encode sample_result = Inr data" using sample_encodes by blast
  have "result_distinct sample_result" "res_MaxNodes sample_result = 0"
    by (simp_all add: result_distinct_def sample_result_def)
  then show ?thesis using Result_roundtrip [OF _ d] d by auto
qed

subsection \<open>What a decoded envelope guarantees\<close>

lemma dec_all_mem: "dec_all dec loc i vs = Inr xs \<Longrightarrow> x \<in> set xs \<Longrightarrow> \<exists>l v. dec l v = Inr x"
proof (induction vs arbitrary: i xs)
  case (Cons v vs)
  then show ?case by (cases "dec_all dec loc (Suc i) vs") (force, force)
qed simp

lemma dec_strings_mem: "dec_strings mx sem dec loc v = Inr xs \<Longrightarrow> x \<in> set xs \<Longrightarrow> \<exists>l w. dec l w = Inr x"
  using dec_all_mem by (auto simp: dec_strings_def)

lemma dec_strings_sorted:
  assumes "returns_input dec" "dec_strings mx False dec loc v = Inr xs"
  shows "sorted_wrt (<) (map (\<lambda>s. Encode (VString s)) xs)"
proof -
  have "v = VArray (map VString xs)" using dec_strings_input [OF assms] by (simp add: Strings_def)
  then show ?thesis
    using assms(2) by (auto simp: dec_strings_def dec_array_def comp_def split: if_splits)
qed

lemma dec_enum_mem: "dec_enum xs loc v = Inr x \<Longrightarrow> x \<in> set xs"
  by (auto simp: dec_enum_def dec_with_def split: if_splits)

lemma read_retryable_wf: "yields (read_retryable r oc cs) nr \<Longrightarrow> nr \<Longrightarrow> ResultRetryable oc cs = (True, True)"
  by (cases "ResultRetryable oc cs") (auto simp: read_retryable_def run_simps split: if_splits)

lemma read_result_codes:
  assumes "yields (read_result \<lparr>r_v = v, r_where = loc\<rparr>) r"
  shows "\<exists>l w. dec_strings (-1) False (dec_with (\<lambda>loc s. if IsCode s then Inr s else Inl (Errorf CodeMalformed loc))) l w = Inr (res_Codes r)"
    and "Outcome r \<in> {OutcomeOK, OutcomeRefused, OutcomeError, OutcomeNotRun}"
    and "NotRetryable r \<Longrightarrow> ResultRetryable (Outcome r) (res_Codes r) = (True, True)"
proof -
  obtain l1 w1 l2 w2 rd where "dec_enum [OutcomeOK, OutcomeRefused, OutcomeError, OutcomeNotRun] l1 w1 = Inr (Outcome r)"
    and c: "dec_strings (-1) False (dec_with (\<lambda>loc s. if IsCode s then Inr s else Inl (Errorf CodeMalformed loc))) l2 w2 = Inr (res_Codes r)"
    and rt: "yields (read_retryable rd (Outcome r) (res_Codes r)) (NotRetryable r)"
    using assms unfolding read_result_def read_result_fields_def by (auto simp: run_simps)
  then show "Outcome r \<in> {OutcomeOK, OutcomeRefused, OutcomeError, OutcomeNotRun}" by (auto dest: dec_enum_mem)
  show "\<exists>l w. dec_strings (-1) False (dec_with (\<lambda>loc s. if IsCode s then Inr s else Inl (Errorf CodeMalformed loc))) l w = Inr (res_Codes r)"
    using c by blast
  show "NotRetryable r \<Longrightarrow> ResultRetryable (Outcome r) (res_Codes r) = (True, True)"
    using read_retryable_wf [OF rt] .
qed

text \<open>
  C20: a decoded envelope is well formed whatever produced the bytes: its outcome is one of the four,
  every code belongs to the closed vocabulary, the codes are a strictly sorted set, and the
  no-retry flag is only ever set on a result that would otherwise be retryable.
\<close>

theorem decodeResult_wf:
  assumes "decodeResult data opts = Inr r"
  shows "set (res_Codes r) \<subseteq> set Codes \<and> sorted_wrt (<) (map (\<lambda>s. Encode (VString s)) (res_Codes r)) \<and>
    Outcome r \<in> {OutcomeOK, OutcomeRefused, OutcomeError, OutcomeNotRun} \<and>
    (NotRetryable r \<longrightarrow> ResultRetryable (Outcome r) (res_Codes r) = (True, True))"
proof -
  obtain v where v: "yields (read_result \<lparr>r_v = v, r_where = ''/''\<rparr>) r"
    using assms decodeResult_Inr by blast
  note c = read_result_codes [OF v]
  then obtain l w where d: "dec_strings (-1) False (dec_with (\<lambda>loc s. if IsCode s then Inr s else Inl (Errorf CodeMalformed loc))) l w = Inr (res_Codes r)"
    by blast
  have "IsCode x" if "x \<in> set (res_Codes r)" for x
    using dec_strings_mem [OF d that] by (auto simp: dec_with_def split: if_splits)
  then show ?thesis
    using c(2,3) dec_strings_sorted [OF returns_input_rules(9) d] by (auto simp: IsCode_def)
qed

theorem decodeResult_wf_witness:
  "\<exists>r. decodeResult (EncodeFile (Result_Value sample_result)) \<lparr>WideArrayKey = [], WideArrayMax = 0, MaxNodes = 0\<rparr> = Inr r \<and>
     set (res_Codes r) \<subseteq> set Codes"
proof -
  obtain data where d: "Result_Encode sample_result = Inr data" using sample_encodes by blast
  have z: "res_MaxNodes sample_result = 0" by (simp add: sample_result_def)
  obtain r where "decodeResult (EncodeFile (Result_Value sample_result)) \<lparr>WideArrayKey = [], WideArrayMax = 0, MaxNodes = 0\<rparr> = Inr r"
    using d unfolding Result_Encode_def z by (auto simp: Let_def split: if_splits sum.splits)
  then show ?thesis using decodeResult_wf by blast
qed

end
