(* ===== verification/Ticket_Keys.thy ===== *)
theory Ticket_Keys
  imports Primitives
begin

text \<open>
  The ticket rules that the wire package shares between the native codec and the read-only planner
  (\<^verbatim>\<open>internal/tasks/wire/ticketkeys.go\<close> and \<^verbatim>\<open>escalation_hold.go\<close>): the coverage order on PATH keys,
  the verdict-path check, the know-how anchor rules and the escalation hold. Coverage is shown to
  be a partial order in which two keys share a covered path exactly when one covers the other.
\<close>

subsection \<open>Key sets and bounds\<close>

definition TicketRecordKeys :: "string list" where
  "TicketRecordKeys = [
    ''profile'', ''ticketId'', ''revision'', ''acceptanceRevision'', ''previousRecordSha256'', ''status'',
    ''archivedFrom'', ''title'', ''body'', ''kind'', ''owner'', ''milestone'', ''priority'', ''order'', ''labels'',
    ''dependencies'', ''acceptanceCriteria'', ''requirementRefs'', ''source'', ''effects'', ''capabilities'',
    ''requiredGates'', ''holds'', ''executionClass'', ''approvals'', ''completion'', ''dueDate'',
    ''estimateMinutes'', ''supersedes'', ''supersededBy'', ''shadowOverlay'', ''createdAt'', ''updatedAt'',
    ''updatedBy'']"

definition TicketRecordOptionalKeys :: "string list" where
  "TicketRecordOptionalKeys = [''requiresPool'', ''requiredRoles'', ''escalations'', ''operatorNote'', ''externalReviews'',
    ''executionPrerequisites'', ''attachedEvidence'', ''knowHow'', ''obligations'', ''progress'']"

definition TicketEffectsKeys :: "string list" where
  "TicketEffectsKeys = [''coverage'', ''touchPaths'', ''resources'', ''externalUnbounded'']"

definition TicketEffectsOptionalKeys :: "string list" where
  "TicketEffectsOptionalKeys = [''verdictPaths'']"

definition EscalationMaxCurrentOpen :: nat where
  "EscalationMaxCurrentOpen = 16"

definition AttachedEvidenceMaxEntries :: nat where
  "AttachedEvidenceMaxEntries = 32"

definition AttachedEvidenceMaxDigests :: nat where
  "AttachedEvidenceMaxDigests = 16"

definition AttachedEvidenceMaxReasonBytes :: nat where
  "AttachedEvidenceMaxReasonBytes = 512"

definition ProgressMaxEntries :: nat where
  "ProgressMaxEntries = 64"

definition ProgressMaxReasonBytes :: nat where
  "ProgressMaxReasonBytes = 512"

definition ProgressPhases :: "string list" where
  "ProgressPhases = [''IN_PROGRESS'', ''DELIVERED_ON_BRANCH'', ''IN_REVIEW'', ''IN_MERGE_QUEUE'',
    ''MERGED_AWAITING_CLOSEOUT'', ''BLOCKED'', ''CLEARED'']"

definition KnowHowMaxEntries :: nat where "KnowHowMaxEntries = 32"
definition KnowHowMaxTextBytes :: nat where "KnowHowMaxTextBytes = 1024"
definition KnowHowMaxAnchors :: nat where "KnowHowMaxAnchors = 4"
definition KnowHowMaxRoutes :: nat where "KnowHowMaxRoutes = 4"
definition KnowHowMaxRouteBytes :: nat where "KnowHowMaxRouteBytes = 64"
definition KnowHowMaxReasonBytes :: nat where "KnowHowMaxReasonBytes = 512"
definition KnowHowMaxSymbolBytes :: nat where "KnowHowMaxSymbolBytes = 128"
definition KnowHowMaxRepositoryBytes :: nat where "KnowHowMaxRepositoryBytes = 64"

subsection \<open>PATH keys\<close>

definition PathKeyCovers :: "string \<Rightarrow> string \<Rightarrow> bool" where
  "PathKeyCovers scope path \<longleftrightarrow>
     (if scope = path then True else HasSuffix scope ''/'' \<and> HasPrefix path scope)"

lemma PathKeyCovers_iff:
  "PathKeyCovers a p \<longleftrightarrow> a = p \<or> (HasSuffix a ''/'' \<and> (\<exists>r. p = a @ r))"
  by (auto simp: PathKeyCovers_def HasPrefix_iff)

lemma PathKeyCovers_refl [simp]: "PathKeyCovers a a"
  by (simp add: PathKeyCovers_def)

lemma PathKeyCovers_antisym: "PathKeyCovers a b \<Longrightarrow> PathKeyCovers b a \<Longrightarrow> a = b"
  by (auto simp: PathKeyCovers_iff)

lemma PathKeyCovers_trans: "PathKeyCovers a b \<Longrightarrow> PathKeyCovers b c \<Longrightarrow> PathKeyCovers a c"
  by (auto simp: PathKeyCovers_iff)

lemma PathKeyCovers_common:
  assumes "PathKeyCovers a p" "PathKeyCovers b p"
  shows "PathKeyCovers a b \<or> PathKeyCovers b a"
proof (cases "a = p \<or> b = p")
  case True
  then show ?thesis using assms by auto
next
  case False
  then obtain r q where p: "HasSuffix a ''/''" "HasSuffix b ''/''" "p = a @ r" "p = b @ q"
    using assms unfolding PathKeyCovers_iff by blast
  from p(3,4) obtain us where "a = b @ us \<or> b = a @ us"
    by (metis append_eq_append_conv2)
  then show ?thesis using p(1,2) by (auto simp: PathKeyCovers_iff)
qed

text \<open>\<^verbatim>\<open>UncoveredVerdictPath\<close>: the inner loop over the touch paths and the outer one with its index.\<close>

fun touch_covers :: "string list \<Rightarrow> string \<Rightarrow> bool" where
  "touch_covers [] p = False"
| "touch_covers (t # ts) p = (if PathKeyCovers t p then True else touch_covers ts p)"

fun uncovered_loop :: "string list \<Rightarrow> string list \<Rightarrow> int \<Rightarrow> int" where
  "uncovered_loop touch [] i = - 1"
| "uncovered_loop touch (p # ps) i = (if \<not> touch_covers touch p then i else uncovered_loop touch ps (i + 1))"

definition UncoveredVerdictPath :: "string list \<Rightarrow> string list \<Rightarrow> int" where
  "UncoveredVerdictPath touchPaths verdictPaths = uncovered_loop touchPaths verdictPaths 0"

lemma touch_covers_iff: "touch_covers ts p \<longleftrightarrow> (\<exists>t\<in>set ts. PathKeyCovers t p)"
  by (induction ts) auto

lemma uncovered_loop_ge: "uncovered_loop ts ps i = - 1 \<or> i \<le> uncovered_loop ts ps i"
proof (induction ps arbitrary: i)
  case (Cons p ps)
  show ?case using Cons.IH [of "i + 1"] by auto
qed simp

lemma uncovered_loop_neg: "0 \<le> i \<Longrightarrow> uncovered_loop ts ps i = - 1 \<longleftrightarrow> (\<forall>p\<in>set ps. touch_covers ts p)"
  by (induction ps arbitrary: i) auto

lemma uncovered_loop_index:
  assumes "0 \<le> uncovered_loop ts ps (int i)"
  shows "\<exists>n < length ps. uncovered_loop ts ps (int i) = int (i + n) \<and> \<not> touch_covers ts (ps ! n) \<and>
    (\<forall>m < n. touch_covers ts (ps ! m))"
  using assms
proof (induction ps arbitrary: i)
  case (Cons p ps)
  show ?case
  proof (cases "touch_covers ts p")
    case True
    then have "0 \<le> uncovered_loop ts ps (int (Suc i))" using Cons.prems by (simp add: add.commute)
    from Cons.IH [OF this] obtain n where n: "n < length ps" "uncovered_loop ts ps (int (Suc i)) = int (Suc i + n)"
      "\<not> touch_covers ts (ps ! n)" "\<forall>m < n. touch_covers ts (ps ! m)" by blast
    have "\<forall>m < Suc n. touch_covers ts ((p # ps) ! m)"
      using n(4) True by (auto simp: less_Suc_eq_0_disj)
    then show ?thesis using n True by (intro exI [of _ "Suc n"]) (simp add: add.commute)
  next
    case False
    then show ?thesis by (intro exI [of _ 0]) simp
  qed
qed simp

subsection \<open>Know-how anchors\<close>

definition symbol_byte :: "char \<Rightarrow> bool" where
  "symbol_byte c \<longleftrightarrow> \<not> (bv c \<le> bv CHR '' '' \<or> bv c > bv CHR ''~'' \<or> c = CHR ''#'')"

definition ParseKnowHowSymbol :: "string \<Rightarrow> string \<Rightarrow> string res" where
  "ParseKnowHowSymbol loc s =
     (if length s = 0 \<or> length s > KnowHowMaxSymbolBytes then Inl (Errorf CodeMalformed loc)
      else if \<not> list_all symbol_byte s then Inl (Errorf CodeMalformed loc)
      else Inr s)"

definition KnowHowNotStale :: string where
  "KnowHowNotStale = ''KNOWHOW_NOT_STALE''"

record KnowHowPin =
  pin_Path :: string
  pin_Symbol :: string
  pin_Pin :: string

text \<open>The loop of \<^verbatim>\<open>KnowHowReconfirmRefusal\<close> over two lists of equal length: \<open>None\<close> is its early return.\<close>

fun reconfirm_loop :: "KnowHowPin list \<Rightarrow> KnowHowPin list \<Rightarrow> bool \<Rightarrow> bool option" where
  "reconfirm_loop (a # as) (b # bs) changed =
     (if pin_Path a \<noteq> pin_Path b \<or> pin_Symbol a \<noteq> pin_Symbol b then None
      else reconfirm_loop as bs (changed \<or> pin_Pin a \<noteq> pin_Pin b))"
| "reconfirm_loop _ _ changed = Some changed"

definition wire_KnowHowReconfirmRefusal :: "KnowHowPin list \<Rightarrow> KnowHowPin list \<Rightarrow> string" where
  "wire_KnowHowReconfirmRefusal prior nxt =
     (let same = ''a reconfirm re-pins exactly the note's anchors''
      in if length prior \<noteq> length nxt then same
         else (case reconfirm_loop prior nxt False of
             None \<Rightarrow> same
           | Some changed \<Rightarrow>
               if \<not> changed then KnowHowNotStale @ '': no anchor's pin changed, so the note is not STALE at that commit''
               else []))"

definition KnowHowRepositoryDetail :: string where
  "KnowHowRepositoryDetail = ''KNOWHOW_REPOSITORY''"

definition ParseKnowHowRepository :: "string \<Rightarrow> string \<Rightarrow> string res" where
  "ParseKnowHowRepository loc s =
     (case ParseToken loc s KnowHowMaxRepositoryBytes of
        Inl _ \<Rightarrow> Inl (Errorf CodeMalformed loc)
      | Inr _ \<Rightarrow> Inr s)"

definition below_repository :: "string \<Rightarrow> string \<Rightarrow> bool" where
  "below_repository repository p \<longleftrightarrow>
     \<not> (length p \<le> length repository + 1 \<or> take (length repository + 1) p \<noteq> repository @ ''/'')"

definition wire_KnowHowRepositoryRefusal :: "string \<Rightarrow> string list \<Rightarrow> string" where
  "wire_KnowHowRepositoryRefusal repository paths =
     (if \<not> list_all (below_repository repository) paths
      then KnowHowRepositoryDetail @ '': every anchor path of a repository note starts with the repository alias and '' @ [CHR 0x27, CHR ''/'', CHR 0x27]
      else [])"

lemma reconfirm_loop_Some:
  "length as = length bs \<Longrightarrow>
   reconfirm_loop as bs ch = Some r \<longleftrightarrow>
     map (\<lambda>a. (pin_Path a, pin_Symbol a)) as = map (\<lambda>a. (pin_Path a, pin_Symbol a)) bs \<and>
     (r \<longleftrightarrow> ch \<or> map pin_Pin as \<noteq> map pin_Pin bs)"
  by (induction as bs arbitrary: ch rule: list_induct2) auto

lemma reconfirm_ok_iff:
  "wire_KnowHowReconfirmRefusal prior nxt = [] \<longleftrightarrow>
     map (\<lambda>a. (pin_Path a, pin_Symbol a)) prior = map (\<lambda>a. (pin_Path a, pin_Symbol a)) nxt \<and>
     map pin_Pin prior \<noteq> map pin_Pin nxt"
proof (cases "length prior = length nxt")
  case True
  show ?thesis
  proof (cases "reconfirm_loop prior nxt False")
    case None
    then show ?thesis using reconfirm_loop_Some [OF True, of False]
      by (auto simp: wire_KnowHowReconfirmRefusal_def True)
  next
    case (Some r)
    then show ?thesis using reconfirm_loop_Some [OF True, of False r]
      by (auto simp: wire_KnowHowReconfirmRefusal_def True KnowHowNotStale_def)
  qed
next
  case False
  then show ?thesis by (auto simp: wire_KnowHowReconfirmRefusal_def dest: map_eq_imp_length_eq)
qed

lemma below_repository_iff: "below_repository r p \<longleftrightarrow> (\<exists>q. q \<noteq> [] \<and> p = r @ ''/'' @ q)"
proof
  assume b: "below_repository r p"
  then have "p = (r @ ''/'') @ drop (length r + 1) p"
    unfolding below_repository_def by (metis append_take_drop_id)
  moreover have "drop (length r + 1) p \<noteq> []" using b by (auto simp: below_repository_def)
  ultimately show "\<exists>q. q \<noteq> [] \<and> p = r @ ''/'' @ q" by (metis append.assoc)
qed (auto simp: below_repository_def)

subsection \<open>Escalation holds\<close>

record EscalationHoldEntry =
  eh_RequestID :: string
  eh_AcceptanceRevision :: string
  eh_Kind :: string
  eh_State :: string

definition escalationHoldKinds :: "string list" where
  "escalationHoldKinds = [''decision'', ''scope'', ''blocked'']"

fun pending_loop :: "string \<Rightarrow> string list \<Rightarrow> EscalationHoldEntry list \<Rightarrow> string list" where
  "pending_loop acc seen [] = []"
| "pending_loop acc seen (e # es) =
     (if eh_State e \<noteq> ''OPEN'' \<or> eh_Kind e \<notin> set escalationHoldKinds \<or> eh_AcceptanceRevision e \<noteq> acc \<or>
         eh_RequestID e \<in> set seen
      then pending_loop acc seen es
      else eh_RequestID e # pending_loop acc (eh_RequestID e # seen) es)"

definition wire_EscalationPending :: "string \<Rightarrow> EscalationHoldEntry list \<Rightarrow> string list \<times> nat" where
  "wire_EscalationPending acc entries =
     (let ids = sort (pending_loop acc [] entries); cnt = length ids
      in (if cnt > EscalationMaxCurrentOpen then take EscalationMaxCurrentOpen ids else ids, cnt))"

text \<open>What a holding entry is, independently of the loop.\<close>

definition holds_at :: "string \<Rightarrow> EscalationHoldEntry \<Rightarrow> bool" where
  "holds_at acc e \<longleftrightarrow> eh_State e = ''OPEN'' \<and> eh_Kind e \<in> {''decision'', ''scope'', ''blocked''} \<and> eh_AcceptanceRevision e = acc"

lemma pending_loop_props:
  "distinct (pending_loop acc seen es) \<and>
   set (pending_loop acc seen es) = {eh_RequestID e |e. e \<in> set es \<and> holds_at acc e} - set seen"
proof (induction es arbitrary: seen)
  case (Cons e es)
  show ?case
    using Cons.IH [of seen] Cons.IH [of "eh_RequestID e # seen"]
    by (auto simp: holds_at_def escalationHoldKinds_def)
qed simp

lemma wire_EscalationPending_eq:
  "wire_EscalationPending acc es =
     (let ids = sorted_list_of_set {eh_RequestID e |e. e \<in> set es \<and> holds_at acc e}
      in (take EscalationMaxCurrentOpen ids, length ids))"
proof -
  have p: "distinct (pending_loop acc [] es)"
      "set (pending_loop acc [] es) = {eh_RequestID e |e. e \<in> set es \<and> holds_at acc e}"
    using pending_loop_props [of acc "[]" es] by auto
  then have "sort (pending_loop acc [] es) = sorted_list_of_set {eh_RequestID e |e. e \<in> set es \<and> holds_at acc e}"
    by (metis sorted_list_of_set_sort_remdups distinct_remdups_id)
  then show ?thesis by (simp add: wire_EscalationPending_def Let_def)
qed

end
