(* ===== verification/Collision.thy ===== *)
theory Collision
  imports Ticket_Keys
begin

text \<open>
  Resource collision (\<^verbatim>\<open>internal/tasks/ticket/collision.go\<close>): the relation that keeps two claims
  from reserving the same effect. A locale states what a coverage relation must promise for key
  overlap to mean a common covered path; the model's \<^verbatim>\<open>PathCovers\<close> interprets it, so the key
  comparison of the code is exactly the existence of a path that both claims may touch.
\<close>

subsection \<open>Definitions\<close>

record Resource =
  res_Class :: string
  res_Key :: string

definition PathCovers :: "string \<Rightarrow> string \<Rightarrow> bool" where
  "PathCovers scope path = PathKeyCovers scope path"

fun sharedCovers :: "string list \<Rightarrow> string \<Rightarrow> bool" where
  "sharedCovers [] key = False"
| "sharedCovers (s # ss) key = (if PathCovers s key then True else sharedCovers ss key)"

definition collides :: "Resource \<Rightarrow> Resource \<Rightarrow> string list \<Rightarrow> bool" where
  "collides x y shared =
     (if res_Class x = ''WHOLE_REPOSITORY'' \<or> res_Class y = ''WHOLE_REPOSITORY'' then True
      else if res_Class x \<noteq> res_Class y then False
      else if res_Class x \<noteq> ''PATH'' then res_Key x = res_Key y
      else if \<not> PathCovers (res_Key x) (res_Key y) \<and> \<not> PathCovers (res_Key y) (res_Key x) then False
      else \<not> sharedCovers shared (res_Key x) \<or> \<not> sharedCovers shared (res_Key y))"

fun collide_inner :: "Resource \<Rightarrow> Resource list \<Rightarrow> string list \<Rightarrow> bool" where
  "collide_inner x [] shared = False"
| "collide_inner x (y # ys) shared = (if collides x y shared then True else collide_inner x ys shared)"

fun CollideShared :: "Resource list \<Rightarrow> Resource list \<Rightarrow> string list \<Rightarrow> bool" where
  "CollideShared [] b shared = False"
| "CollideShared (x # a) b shared = (if collide_inner x b shared then True else CollideShared a b shared)"

definition Collide :: "Resource list \<Rightarrow> Resource list \<Rightarrow> bool" where
  "Collide a b = CollideShared a b []"

subsection \<open>Coverage as an interface\<close>

locale key_order =
  fixes cov :: "'k \<Rightarrow> 'k \<Rightarrow> bool"
  assumes reflexive: "cov k k"
    and transitive: "cov a b \<Longrightarrow> cov b c \<Longrightarrow> cov a c"
    and antisymmetric: "cov a b \<Longrightarrow> cov b a \<Longrightarrow> a = b"
    and nested: "cov a p \<Longrightarrow> cov b p \<Longrightarrow> cov a b \<or> cov b a"
begin

definition overlap :: "'k \<Rightarrow> 'k \<Rightarrow> bool" where
  "overlap a b \<longleftrightarrow> cov a b \<or> cov b a"

lemma overlap_common: "overlap a b \<longleftrightarrow> (\<exists>p. cov a p \<and> cov b p)"
  unfolding overlap_def using reflexive nested by blast

lemma overlap_sym: "overlap a b \<longleftrightarrow> overlap b a"
  by (auto simp: overlap_def)

lemma overlap_narrow: "cov a a' \<Longrightarrow> overlap a' b \<Longrightarrow> overlap a b"
  unfolding overlap_common using transitive by blast

lemma covered_pair:
  "overlap a b \<Longrightarrow> cov s a \<Longrightarrow> cov t b \<Longrightarrow> overlap s t"
  unfolding overlap_common using transitive by blast

end

interpretation path: key_order PathCovers
  by unfold_locales
    (auto simp: PathCovers_def intro: PathKeyCovers_trans PathKeyCovers_antisym dest: PathKeyCovers_common)

subsection \<open>The loops as quantifiers\<close>

lemma sharedCovers_iff: "sharedCovers ss k \<longleftrightarrow> (\<exists>s\<in>set ss. PathCovers s k)"
  by (induction ss) auto

lemma collide_inner_iff: "collide_inner x b ss \<longleftrightarrow> (\<exists>y\<in>set b. collides x y ss)"
  by (induction b) auto

lemma CollideShared_iff: "CollideShared a b ss \<longleftrightarrow> (\<exists>x\<in>set a. \<exists>y\<in>set b. collides x y ss)"
  by (induction a) (auto simp: collide_inner_iff)

lemma collides_sym: "collides x y ss \<longleftrightarrow> collides y x ss"
  by (auto simp: collides_def)

lemma collides_path_iff:
  "collides x y ss \<longleftrightarrow>
     res_Class x = ''WHOLE_REPOSITORY'' \<or> res_Class y = ''WHOLE_REPOSITORY'' \<or>
     res_Class x = res_Class y \<and>
       (if res_Class x = ''PATH''
        then (\<exists>p. PathCovers (res_Key x) p \<and> PathCovers (res_Key y) p) \<and>
             \<not> (sharedCovers ss (res_Key x) \<and> sharedCovers ss (res_Key y))
        else res_Key x = res_Key y)"
  unfolding collides_def path.overlap_common [symmetric] path.overlap_def by auto

lemma collides_shared_le: "collides x y ss \<Longrightarrow> collides x y []"
  by (auto simp: collides_path_iff split: if_splits)

subsection \<open>Properties\<close>

text \<open>
  C35: Two resource sets collide exactly when some pair of them excludes each other: one side
  reserves the whole repository, both name the same key of one non-path class, or both are PATH
  keys and some path is covered by both. So claims that do not collide never share a path.\<close>

theorem Collide_common_path:
  "Collide a b \<longleftrightarrow> (\<exists>x\<in>set a. \<exists>y\<in>set b.
     res_Class x = ''WHOLE_REPOSITORY'' \<or> res_Class y = ''WHOLE_REPOSITORY'' \<or>
     res_Class x = res_Class y \<and>
       (if res_Class x = ''PATH'' then \<exists>p. PathCovers (res_Key x) p \<and> PathCovers (res_Key y) p
        else res_Key x = res_Key y))"
  unfolding Collide_def CollideShared_iff collides_path_iff by simp

text \<open>
  Collision with shared paths is symmetric, only ever removes collisions of the exclusive
  relation, grows with the resource sets, and the only collisions that sharing removes are between
  two PATH keys that the shared keys both cover.\<close>

theorem CollideShared_relaxes:
  "(CollideShared a b ss \<longleftrightarrow> CollideShared b a ss) \<and>
   (CollideShared a b ss \<longrightarrow> Collide a b) \<and>
   (set a \<subseteq> set a' \<and> set b \<subseteq> set b' \<and> CollideShared a b ss \<longrightarrow> CollideShared a' b' ss) \<and>
   (\<not> CollideShared a b ss \<longrightarrow> (\<forall>x\<in>set a. \<forall>y\<in>set b. collides x y [] \<longrightarrow>
      res_Class x = ''PATH'' \<and> res_Class y = ''PATH'' \<and>
      (\<exists>s\<in>set ss. PathCovers s (res_Key x)) \<and> (\<exists>s\<in>set ss. PathCovers s (res_Key y))))"
proof (intro conjI impI ballI)
  show "CollideShared a b ss \<longleftrightarrow> CollideShared b a ss"
    unfolding CollideShared_iff using collides_sym by blast
  show "Collide a b" if "CollideShared a b ss"
    using that collides_shared_le unfolding Collide_def CollideShared_iff by blast
  show "CollideShared a' b' ss" if "set a \<subseteq> set a' \<and> set b \<subseteq> set b' \<and> CollideShared a b ss"
    using that unfolding CollideShared_iff by blast
next
  fix x y assume n: "\<not> CollideShared a b ss" "x \<in> set a" "y \<in> set b" "collides x y []"
  then have "\<not> collides x y ss" unfolding CollideShared_iff by blast
  with n(4) have *: "res_Class x = ''PATH'' \<and> res_Class y = ''PATH'' \<and> sharedCovers ss (res_Key x) \<and> sharedCovers ss (res_Key y)"
    by (auto simp: collides_path_iff split: if_splits)
  then show "res_Class x = ''PATH''" "res_Class y = ''PATH''" "\<exists>s\<in>set ss. PathCovers s (res_Key x)"
      "\<exists>s\<in>set ss. PathCovers s (res_Key y)"
    by (simp_all add: sharedCovers_iff)
qed

definition sample_a :: "Resource list" where
  "sample_a = [\<lparr>res_Class = ''PATH'', res_Key = ''docs/''\<rparr>]"

definition sample_b :: "Resource list" where
  "sample_b = [\<lparr>res_Class = ''PATH'', res_Key = ''docs/index.md''\<rparr>]"

theorem CollideShared_relaxes_witness:
  "CollideShared sample_b sample_a [] \<and> Collide sample_a sample_b \<and>
   (\<exists>s\<in>set [''docs/'']. PathCovers s ''docs/'') \<and> (\<exists>s\<in>set [''docs/'']. PathCovers s ''docs/index.md'')"
proof -
  note defs = sample_a_def sample_b_def collides_def PathCovers_def PathKeyCovers_def HasSuffix_def HasPrefix_def
  have c: "CollideShared sample_a sample_b []" "\<not> CollideShared sample_a sample_b [''docs/'']"
    by (simp_all add: defs)
  have m: "\<lparr>res_Class = ''PATH'', res_Key = ''docs/''\<rparr> \<in> set sample_a"
      "\<lparr>res_Class = ''PATH'', res_Key = ''docs/index.md''\<rparr> \<in> set sample_b"
      "collides \<lparr>res_Class = ''PATH'', res_Key = ''docs/''\<rparr> \<lparr>res_Class = ''PATH'', res_Key = ''docs/index.md''\<rparr> []"
    by (simp_all add: defs)
  note excl = CollideShared_relaxes [of sample_a sample_b "[]" sample_a sample_b]
  note shared = CollideShared_relaxes [of sample_a sample_b "[''docs/'']" sample_a sample_b]
  have "CollideShared sample_b sample_a [] \<and> Collide sample_a sample_b" using excl c(1) by blast
  moreover have "(\<exists>s\<in>set [''docs/'']. PathCovers s ''docs/'') \<and> (\<exists>s\<in>set [''docs/'']. PathCovers s ''docs/index.md'')"
    using shared c(2) m by fastforce
  ultimately show ?thesis by blast
qed

end
