(* ===== verification/Ticket_Record.thy ===== *)
theory Ticket_Record
  imports Collision Values
begin

text \<open>
  The ticket record (\<^verbatim>\<open>internal/tasks/ticket/record.go\<close> with the members declared in \<^verbatim>\<open>prereq.go\<close>,
  \<^verbatim>\<open>attached_evidence.go\<close>, \<^verbatim>\<open>progress.go\<close>, \<^verbatim>\<open>know_how.go\<close>, \<^verbatim>\<open>hold_condition.go\<close>, \<^verbatim>\<open>escalation.go\<close>,
  \<^verbatim>\<open>external_review.go\<close>, \<^verbatim>\<open>operator_note.go\<close> and \<^verbatim>\<open>obligations.go\<close>) and its \<^verbatim>\<open>validate\<close>: the field
  relationships a closed type check cannot express. A Go pointer is an option, a slice that is
  tested against nil is an optional list, a Go map is an association list.
\<close>

subsection \<open>Vocabulary\<close>

definition Profile :: string where "Profile = ''taskman-ticket/0''"
definition StatusDraft :: string where "StatusDraft = ''DRAFT''"
definition StatusOpen :: string where "StatusOpen = ''OPEN''"
definition StatusHeld :: string where "StatusHeld = ''HELD''"
definition StatusCompleted :: string where "StatusCompleted = ''COMPLETED''"
definition StatusArchived :: string where "StatusArchived = ''ARCHIVED''"

lemmas status_defs = StatusDraft_def StatusOpen_def StatusHeld_def StatusCompleted_def StatusArchived_def

lemma status_distinct [simp]:
  "StatusDraft \<noteq> StatusOpen" "StatusDraft \<noteq> StatusHeld" "StatusDraft \<noteq> StatusCompleted" "StatusDraft \<noteq> StatusArchived"
  "StatusOpen \<noteq> StatusDraft" "StatusOpen \<noteq> StatusHeld" "StatusOpen \<noteq> StatusCompleted" "StatusOpen \<noteq> StatusArchived"
  "StatusHeld \<noteq> StatusDraft" "StatusHeld \<noteq> StatusOpen" "StatusHeld \<noteq> StatusCompleted" "StatusHeld \<noteq> StatusArchived"
  "StatusCompleted \<noteq> StatusDraft" "StatusCompleted \<noteq> StatusOpen" "StatusCompleted \<noteq> StatusHeld" "StatusCompleted \<noteq> StatusArchived"
  "StatusArchived \<noteq> StatusDraft" "StatusArchived \<noteq> StatusOpen" "StatusArchived \<noteq> StatusHeld" "StatusArchived \<noteq> StatusCompleted"
  by (simp_all add: status_defs)

definition Kinds :: "string list" where
  "Kinds = [''FEATURE'', ''BUG'', ''CHORE'', ''SPIKE'', ''DOC'', ''MANUAL'', ''EXTERNAL'']"
definition Priorities :: "string list" where
  "Priorities = [''P0'', ''P1'', ''P2'', ''P3'']"
definition ExecutionClasses :: "string list" where
  "ExecutionClasses = [''AUTONOMOUS'', ''APPROVAL_REQUIRED'', ''MANUAL'', ''EXTERNAL'', ''NEVER'']"
definition Obligations :: "string list" where
  "Obligations = [''COMPLETED'', ''GATE_PASSED'']"
definition Coverages :: "string list" where
  "Coverages = [''QUALIFIED'', ''INCOMPLETE'', ''UNKNOWN'']"
definition ResourceClasses :: "string list" where
  "ResourceClasses = [''PATH'', ''SHARED_GATE'', ''SCHEMA'', ''GENERATED_OUTPUT'', ''PORT'', ''DATABASE'', ''WHOLE_REPOSITORY'', ''OTHER'']"
definition SourceKinds :: "string list" where
  "SourceKinds = [''NATIVE'', ''IMPORT'']"
definition CompletionKinds :: "string list" where
  "CompletionKinds = [''VERIFIED'', ''MANUAL'']"
definition ApprovalOps :: "string list" where
  "ApprovalOps = [''RUN'', ''COMPLETE'', ''INTEGRATE'', ''ADJUDICATE'']"
definition Statuses :: "string list" where
  "Statuses = [StatusDraft, StatusOpen, StatusHeld, StatusCompleted, StatusArchived]"
definition ArchivedFroms :: "string list" where
  "ArchivedFroms = [StatusDraft, StatusOpen, StatusHeld, StatusCompleted]"
definition AcceptanceRelevantFields :: "string list" where
  "AcceptanceRelevantFields = [''kind'', ''acceptanceCriteria'', ''requirementRefs'', ''dependencies'', ''requiredGates'',
    ''effects'', ''capabilities'', ''executionClass'', ''supersedes'', ''source'', ''requiresPool'', ''requiredRoles'']"
definition Stages :: "string list" where
  "Stages = [''implement'', ''review'', ''integrate'']"
definition StageRoles :: "string list" where
  "StageRoles = [''BUILDER'', ''REVIEWER'', ''VERIFIER'', ''REPAIR'', ''DOCS'']"

subsection \<open>The record and its members\<close>

record Dependency =
  d_TicketID :: TicketID
  d_Obligation :: string
  d_GateID :: "string option"

record Source =
  s_Kind :: string
  s_SourceQueueID :: string
  s_SourceItemID :: "string option"
  s_SourceRevisionSha256 :: "string option"

record Effects =
  ef_Coverage :: string
  ef_TouchPaths :: "string list"
  ef_Resources :: "Resource list"
  ef_ExternalUnbounded :: bool
  ef_VerdictPaths :: "string list option"

record HoldCondition =
  hc_Kind :: string
  hc_Ref :: string
  hc_Commit :: string
  hc_Path :: string
  hc_Symbol :: string

record Hold =
  h_HoldID :: string
  h_Actor :: string
  h_Reason :: string
  h_PlacedAt :: string
  h_Condition :: "HoldCondition option"

record Approval =
  a_GrantID :: string
  a_Actor :: string
  a_Operation :: string
  a_TargetRevision :: string
  a_Scope :: "string list"
  a_Revoked :: bool
  a_GrantedAt :: string

record Completion =
  c_Kind :: string
  c_Actor :: string
  c_Reason :: "string option"
  c_Evidence :: "string list"
  c_ManifestSha256 :: "string option"
  c_RecordedAt :: string

record Prerequisite =
  p_TicketID :: TicketID
  p_Obligation :: string
  p_GateID :: "string option"
  p_Stages :: "string list"

record AttachedEvidence =
  ae_AcceptanceRevision :: string
  ae_Actor :: string
  ae_Evidence :: "string list"
  ae_Reason :: string
  ae_RecordedAt :: string

record ProgressMark =
  pm_Phase :: string
  pm_Lane :: "string option"
  pm_Host :: "string option"
  pm_Branch :: "string option"
  pm_Head :: "string option"
  pm_PR :: "string option"
  pm_Reason :: "string option"

record Progress = ProgressMark +
  pr_Actor :: string
  pr_RecordedAt :: string

record KnowHowAnchor =
  ka_Path :: string
  ka_Blob :: string
  ka_Symbol :: string
  ka_SymbolSha256 :: string

record KnowHowEntry =
  kh_Seq :: string
  kh_Operation :: string
  kh_Text :: string
  kh_Anchors :: "KnowHowAnchor list"
  kh_Routes :: "string list"
  kh_Commit :: string
  kh_Supersedes :: "string option"
  kh_Attempt :: "string option"
  kh_Generation :: "string option"
  kh_EvidencePath :: "string option"
  kh_Note :: string
  kh_Reason :: "string option"
  kh_Repository :: string
  kh_ActorID :: string
  kh_ActorRole :: string
  kh_RecordedAt :: string

text \<open>The \<^verbatim>\<open>Reconfirmed\<close> pointer is set only by \<^verbatim>\<open>EffectiveKnowHow\<close> and never encoded: it extends the entry.\<close>

record EffectiveEntry = KnowHowEntry +
  kh_Reconfirmed :: "KnowHowEntry option"

record OperatorNoteReference =
  on_Revision :: string
  on_Current :: "string option"
  on_Head :: string

record ExternalReviewRef =
  er_Generation :: string
  er_Revision :: string
  er_Head :: string

record EscalationRef =
  es_RequestID :: string
  es_OriginSha256 :: string
  es_HeadSha256 :: string
  es_Revision :: string
  es_AcceptanceRevision :: string
  es_Kind :: string
  es_State :: string

record EscalationRefs =
  ers_Revision :: string
  ers_LastControlTicketRevision :: string
  ers_WorkRevision :: string
  ers_Entries :: "EscalationRef list"

record ObligationCounts =
  oc_Witnessed :: int
  oc_Total :: int
  oc_Deferred :: int
  oc_CoreWitnessed :: int
  oc_CoreTotal :: int

record ObligationHighWater =
  hw_AcceptanceRevision :: string
  hw_Witnessed :: int

record ObligationRaise =
  or_Attempt :: string
  or_Generation :: string
  or_AcceptanceRevision :: string

record ObligationsReference =
  ob_Prefix :: string
  ob_Revision :: string
  ob_Head :: string
  ob_Counts :: ObligationCounts
  ob_HighWater :: ObligationHighWater
  ob_LastRaise :: "ObligationRaise option"

record Record =
  rec_RequiredRoles :: "(string \<times> string list) list option"
  rec_RequiresPool :: string
  rec_Escalations :: "EscalationRefs option"
  rec_TicketID :: TicketID
  rec_Revision :: string
  rec_AcceptanceRevision :: string
  rec_PreviousRecordSha256 :: "string option"
  rec_Status :: string
  rec_ArchivedFrom :: "string option"
  rec_Title :: string
  rec_Body :: "string option"
  rec_Kind :: string
  rec_Owner :: "string option"
  rec_Milestone :: "string option"
  rec_Priority :: string
  rec_Order :: string
  rec_Labels :: "string list"
  rec_Dependencies :: "Dependency list"
  rec_AcceptanceCriteria :: "string list"
  rec_RequirementRefs :: "string list"
  rec_Source :: Source
  rec_Effects :: Effects
  rec_Capabilities :: "string list"
  rec_RequiredGates :: "string list"
  rec_Holds :: "Hold list"
  rec_ExecutionClass :: string
  rec_Approvals :: "Approval list"
  rec_Completion :: "Completion option"
  rec_DueDate :: "string option"
  rec_EstimateMinutes :: "string option"
  rec_Supersedes :: "TicketID option"
  rec_SupersededBy :: "TicketID option"
  rec_ShadowOverlay :: bool
  rec_CreatedAt :: string
  rec_UpdatedAt :: string
  rec_UpdatedBy :: string
  rec_OperatorNote :: "OperatorNoteReference option"
  rec_ExternalReviews :: "(string \<times> ExternalReviewRef) list"
  rec_ExecutionPrerequisites :: "Prerequisite list"
  rec_AttachedEvidence :: "AttachedEvidence list"
  rec_Progress :: "Progress list"
  rec_KnowHow :: "KnowHowEntry list"
  rec_ObligationsRef :: "ObligationsReference option"

definition EffectiveStatus :: "Record \<Rightarrow> string" where
  "EffectiveStatus r = (case rec_ArchivedFrom r of Some s \<Rightarrow> s | None \<Rightarrow> rec_Status r)"

definition idx :: "nat \<Rightarrow> string" where
  "idx i = CountOf (int i)"

text \<open>The Go zero value \<^verbatim>\<open>Record{}\<close>.\<close>

definition zero_Record :: Record where
  "zero_Record = \<lparr>rec_RequiredRoles = None, rec_RequiresPool = [], rec_Escalations = None,
     rec_TicketID = \<lparr>t_Raw = [], t_Authority = [], t_Queue = [], t_Local = []\<rparr>,
     rec_Revision = [], rec_AcceptanceRevision = [], rec_PreviousRecordSha256 = None, rec_Status = [],
     rec_ArchivedFrom = None, rec_Title = [], rec_Body = None, rec_Kind = [], rec_Owner = None, rec_Milestone = None,
     rec_Priority = [], rec_Order = [], rec_Labels = [], rec_Dependencies = [], rec_AcceptanceCriteria = [],
     rec_RequirementRefs = [],
     rec_Source = \<lparr>s_Kind = [], s_SourceQueueID = [], s_SourceItemID = None, s_SourceRevisionSha256 = None\<rparr>,
     rec_Effects = \<lparr>ef_Coverage = [], ef_TouchPaths = [], ef_Resources = [], ef_ExternalUnbounded = False, ef_VerdictPaths = None\<rparr>,
     rec_Capabilities = [], rec_RequiredGates = [], rec_Holds = [], rec_ExecutionClass = [], rec_Approvals = [],
     rec_Completion = None, rec_DueDate = None, rec_EstimateMinutes = None, rec_Supersedes = None, rec_SupersededBy = None,
     rec_ShadowOverlay = False, rec_CreatedAt = [], rec_UpdatedAt = [], rec_UpdatedBy = [], rec_OperatorNote = None,
     rec_ExternalReviews = [], rec_ExecutionPrerequisites = [], rec_AttachedEvidence = [], rec_Progress = [],
     rec_KnowHow = [], rec_ObligationsRef = None\<rparr>"

end
