(* ===== verification/Know_How.thy ===== *)
theory Know_How
  imports Ticket_Record
begin

text \<open>
  The append-only know-how ledger of a ticket (\<^verbatim>\<open>internal/tasks/ticket/know_how.go\<close>): which notes are
  active, their effective anchors, and the ledger validation. An accepted ledger is shown to be a
  well-formed history: every entry that names a note names one that is active at that point, a
  note is withdrawn at most once, and a reconfirmation never changes what a note is anchored to.
\<close>

subsection \<open>Definitions\<close>

definition KnowHowAdd :: string where "KnowHowAdd = ''ADD''"
definition KnowHowRetract :: string where "KnowHowRetract = ''RETRACT''"
definition KnowHowReconfirm :: string where "KnowHowReconfirm = ''RECONFIRM''"

lemma know_how_ops [simp]:
  "KnowHowAdd \<noteq> KnowHowRetract" "KnowHowAdd \<noteq> KnowHowReconfirm" "KnowHowRetract \<noteq> KnowHowReconfirm"
  "KnowHowRetract \<noteq> KnowHowAdd" "KnowHowReconfirm \<noteq> KnowHowAdd" "KnowHowReconfirm \<noteq> KnowHowRetract"
  by (simp_all add: KnowHowAdd_def KnowHowRetract_def KnowHowReconfirm_def)

definition KnowHowAnchorLess :: "KnowHowAnchor \<Rightarrow> KnowHowAnchor \<Rightarrow> bool" where
  "KnowHowAnchorLess a b = (if ka_Path a \<noteq> ka_Path b then ka_Path a < ka_Path b else ka_Symbol a < ka_Symbol b)"

definition KnowHowPins :: "KnowHowAnchor list \<Rightarrow> KnowHowPin list" where
  "KnowHowPins anchors = map (\<lambda>a. \<lparr>pin_Path = ka_Path a, pin_Symbol = ka_Symbol a,
     pin_Pin = (if ka_Symbol a \<noteq> [] then ka_SymbolSha256 a else ka_Blob a)\<rparr>) anchors"

definition KnowHowReconfirmRefusal :: "KnowHowAnchor list \<Rightarrow> KnowHowAnchor list \<Rightarrow> string" where
  "KnowHowReconfirmRefusal prior nxt = wire_KnowHowReconfirmRefusal (KnowHowPins prior) (KnowHowPins nxt)"

definition KnowHowRepositoryRefusal :: "string \<Rightarrow> KnowHowAnchor list \<Rightarrow> string" where
  "KnowHowRepositoryRefusal repository anchors = wire_KnowHowRepositoryRefusal repository (map ka_Path anchors)"

text \<open>The active set is a Go map to bool; it is kept as a list without duplicates.\<close>

definition active_step :: "KnowHowEntry \<Rightarrow> string list \<Rightarrow> string list" where
  "active_step k active =
     (if kh_Operation k = KnowHowRetract then removeAll (kh_Note k) active
      else if kh_Operation k = KnowHowReconfirm then active
      else List.insert (kh_Seq k) (case kh_Supersedes k of Some s \<Rightarrow> removeAll s active | None \<Rightarrow> active))"

definition KnowHowActiveSeqs :: "KnowHowEntry list \<Rightarrow> string list" where
  "KnowHowActiveSeqs entries = fold active_step entries []"

definition ActiveKnowHow :: "KnowHowEntry list \<Rightarrow> KnowHowEntry list" where
  "ActiveKnowHow entries =
     (let active = KnowHowActiveSeqs entries
      in filter (\<lambda>k. kh_Operation k = KnowHowAdd \<and> kh_Seq k \<in> set active) entries)"

definition latest_step :: "KnowHowEntry \<Rightarrow> (string \<rightharpoonup> KnowHowEntry) \<Rightarrow> (string \<rightharpoonup> KnowHowEntry)" where
  "latest_step k latest = (if kh_Operation k = KnowHowReconfirm then latest(kh_Note k \<mapsto> k) else latest)"

definition effective_entry :: "KnowHowEntry \<Rightarrow> KnowHowEntry option \<Rightarrow> EffectiveEntry" where
  "effective_entry k r = KnowHowEntry.extend
     (case r of Some e \<Rightarrow> k\<lparr>kh_Anchors := kh_Anchors e, kh_Commit := kh_Commit e\<rparr> | None \<Rightarrow> k)
     \<lparr>kh_Reconfirmed = r\<rparr>"

definition EffectiveKnowHow :: "KnowHowEntry list \<Rightarrow> EffectiveEntry list" where
  "EffectiveKnowHow entries =
     (let latest = fold latest_step entries Map.empty
      in map (\<lambda>k. effective_entry k (latest (kh_Seq k))) (ActiveKnowHow entries))"

text \<open>The loop of \<^verbatim>\<open>validateKnowHow\<close>: its two maps and one entry at position \<open>i\<close>.\<close>

record ledger =
  lg_active :: "string list"
  lg_pins :: "string \<rightharpoonup> KnowHowAnchor list"

definition kh_target :: "KnowHowEntry \<Rightarrow> string option" where
  "kh_target k = (if kh_Operation k \<noteq> KnowHowAdd then Some (kh_Note k) else kh_Supersedes k)"

definition pins_of :: "ledger \<Rightarrow> string \<Rightarrow> KnowHowAnchor list" where
  "pins_of l n = (case lg_pins l n of Some a \<Rightarrow> a | None \<Rightarrow> [])"

definition knowhow_step :: "nat \<Rightarrow> KnowHowEntry \<Rightarrow> ledger \<Rightarrow> ledger res" where
  "knowhow_step i k l =
     (let loc = ''/knowHow/'' @ idx i; target = kh_target k
      in if Count_Int (kh_Seq k) \<noteq> int (i + 1) then Inl (Errorf CodeMalformed (loc @ ''/seq''))
         else if (case target of Some n \<Rightarrow> n \<notin> set (lg_active l) | None \<Rightarrow> False) then Inl (Errorf CodeMalformed loc)
         else if kh_ActorRole k = ''WORKER'' \<and>
                 (kh_Operation k \<noteq> KnowHowAdd \<or> kh_Supersedes k \<noteq> None \<or> kh_Attempt k = None \<or> kh_Generation k = None)
           then Inl (Errorf CodeMalformed (loc @ ''/actor/role''))
         else if kh_Operation k = KnowHowReconfirm then
           (if KnowHowReconfirmRefusal (pins_of l (kh_Note k)) (kh_Anchors k) \<noteq> []
            then Inl (Errorf CodeMalformed (loc @ ''/anchors''))
            else Inr (l\<lparr>lg_pins := (lg_pins l)(kh_Note k \<mapsto> kh_Anchors k)\<rparr>))
         else if kh_Operation k = KnowHowAdd \<and> (kh_Supersedes k = None) \<noteq> (kh_Reason k = None)
           then Inl (Errorf CodeMalformed (loc @ ''/reason''))
         else
           let act = (case target of Some n \<Rightarrow> removeAll n (lg_active l) | None \<Rightarrow> lg_active l)
           in if kh_Operation k = KnowHowAdd
              then Inr \<lparr>lg_active = List.insert (kh_Seq k) act, lg_pins = (lg_pins l)(kh_Seq k \<mapsto> kh_Anchors k)\<rparr>
              else Inr (l\<lparr>lg_active := act\<rparr>))"

fun knowhow_loop :: "nat \<Rightarrow> KnowHowEntry list \<Rightarrow> ledger \<Rightarrow> ledger res" where
  "knowhow_loop i [] l = Inr l"
| "knowhow_loop i (k # ks) l = rbind (knowhow_step i k l) (knowhow_loop (Suc i) ks)"

definition empty_ledger :: ledger where
  "empty_ledger = \<lparr>lg_active = [], lg_pins = Map.empty\<rparr>"

definition validateKnowHow :: "Record \<Rightarrow> unit res" where
  "validateKnowHow r = rbind (knowhow_loop 0 (rec_KnowHow r) empty_ledger) (\<lambda>_. Inr ())"

subsection \<open>Accepted ledgers, one entry at a time\<close>

lemma knowhow_loop_append:
  "knowhow_loop i (xs @ ys) l = rbind (knowhow_loop i xs l) (knowhow_loop (i + length xs) ys)"
proof (induction xs arbitrary: i l)
  case (Cons k ks)
  then show ?case by (cases "knowhow_step i k l") simp_all
qed simp

lemma knowhow_loop_snoc:
  "knowhow_loop 0 (xs @ [k]) l = Inr l' \<longleftrightarrow>
     (\<exists>m. knowhow_loop 0 xs l = Inr m \<and> knowhow_step (length xs) k m = Inr l')"
  by (auto simp: knowhow_loop_append)

lemma KnowHowActiveSeqs_snoc: "KnowHowActiveSeqs (xs @ [k]) = active_step k (KnowHowActiveSeqs xs)"
  by (simp add: KnowHowActiveSeqs_def)

definition known_ops :: "KnowHowEntry list \<Rightarrow> bool" where
  "known_ops es \<longleftrightarrow> list_all (\<lambda>k. kh_Operation k \<in> {KnowHowAdd, KnowHowRetract, KnowHowReconfirm}) es"

text \<open>What one accepted step means.\<close>

lemma knowhow_step_Inr:
  assumes "knowhow_step i k l = Inr l'" "kh_Operation k \<in> {KnowHowAdd, KnowHowRetract, KnowHowReconfirm}"
  shows "Count_Int (kh_Seq k) = int (i + 1)"
    and "kh_target k = Some n \<Longrightarrow> n \<in> set (lg_active l)"
    and "lg_active l' = active_step k (lg_active l)"
    and "lg_pins l' = (if kh_Operation k = KnowHowReconfirm then (lg_pins l)(kh_Note k \<mapsto> kh_Anchors k)
           else if kh_Operation k = KnowHowAdd then (lg_pins l)(kh_Seq k \<mapsto> kh_Anchors k) else lg_pins l)"
    and "kh_Operation k = KnowHowReconfirm \<Longrightarrow> KnowHowReconfirmRefusal (pins_of l (kh_Note k)) (kh_Anchors k) = []"
  using assms
  by (auto simp: knowhow_step_def Let_def active_step_def kh_target_def split: if_splits option.splits)

definition note_ids :: "KnowHowAnchor list \<Rightarrow> (string \<times> string) list" where
  "note_ids = map (\<lambda>a. (ka_Path a, ka_Symbol a))"

lemma reconfirm_note_ids:
  "KnowHowReconfirmRefusal a b = [] \<Longrightarrow> note_ids a = note_ids b"
  by (simp add: KnowHowReconfirmRefusal_def reconfirm_ok_iff KnowHowPins_def note_ids_def comp_def)

text \<open>Induction over accepted ledgers, adding the last entry.\<close>

lemma ledger_induct [consumes 2, case_names empty entry]:
  assumes "knowhow_loop 0 es empty_ledger = Inr l" "known_ops es"
    and "P [] empty_ledger"
    and "\<And>es k l l'. knowhow_loop 0 es empty_ledger = Inr l \<Longrightarrow> known_ops es \<Longrightarrow>
      kh_Operation k \<in> {KnowHowAdd, KnowHowRetract, KnowHowReconfirm} \<Longrightarrow> P es l \<Longrightarrow>
      knowhow_step (length es) k l = Inr l' \<Longrightarrow> P (es @ [k]) l'"
  shows "P es l"
  using assms(1,2)
proof (induction es arbitrary: l rule: rev_induct)
  case Nil
  then show ?case using assms(3) by simp
next
  case (snoc k es)
  then obtain m where "knowhow_loop 0 es empty_ledger = Inr m" "knowhow_step (length es) k m = Inr l"
    by (auto simp: knowhow_loop_snoc)
  then show ?case using snoc assms(4) by (auto simp: known_ops_def)
qed

lemma ledger_active:
  assumes "knowhow_loop 0 es empty_ledger = Inr l" "known_ops es"
  shows "lg_active l = KnowHowActiveSeqs es"
  using assms
proof (induction rule: ledger_induct)
  case empty
  show ?case by (simp add: empty_ledger_def KnowHowActiveSeqs_def)
next
  case (entry es k l l')
  then show ?case by (simp add: knowhow_step_Inr(3) KnowHowActiveSeqs_snoc)
qed

lemma ledger_seqs:
  assumes "knowhow_loop 0 es empty_ledger = Inr l" "known_ops es"
  shows "\<forall>i < length es. Count_Int (kh_Seq (es ! i)) = int (i + 1)"
  using assms
proof (induction rule: ledger_induct)
  case (entry es k l l')
  then show ?case using knowhow_step_Inr(1) [OF entry.hyps(4,3)] by (auto simp: nth_append less_Suc_eq)
qed simp

lemma ledger_targets:
  assumes "knowhow_loop 0 es empty_ledger = Inr l" "known_ops es"
  shows "\<forall>i < length es. \<forall>n. kh_target (es ! i) = Some n \<longrightarrow> n \<in> set (KnowHowActiveSeqs (take i es))"
  using assms
proof (induction rule: ledger_induct)
  case (entry es k l l')
  have "n \<in> set (KnowHowActiveSeqs es)" if "kh_target k = Some n" for n
    using knowhow_step_Inr(2) [OF entry.hyps(4,3) that] ledger_active [OF entry.hyps(1,2)] by simp
  then show ?case using entry.IH by (auto simp: nth_append less_Suc_eq)
qed simp

lemma seq_fresh:
  assumes "knowhow_loop 0 es empty_ledger = Inr l" "known_ops es" "Count_Int s = int (length es + 1)"
  shows "s \<notin> kh_Seq ` set es"
proof
  assume "s \<in> kh_Seq ` set es"
  then obtain i where "i < length es" "s = kh_Seq (es ! i)" by (auto simp: in_set_conv_nth)
  then show False using ledger_seqs [OF assms(1,2)] assms(3) by auto
qed

lemma active_adds: "known_ops es \<Longrightarrow> set (KnowHowActiveSeqs es) \<subseteq> kh_Seq ` {k \<in> set es. kh_Operation k = KnowHowAdd}"
proof (induction es rule: rev_induct)
  case (snoc k es)
  then show ?case
    by (fastforce simp: KnowHowActiveSeqs_snoc active_step_def known_ops_def split: option.splits if_splits)
qed (simp add: KnowHowActiveSeqs_def)

lemma latest_notes:
  assumes "knowhow_loop 0 es empty_ledger = Inr l" "known_ops es"
  shows "dom (fold latest_step es Map.empty) \<subseteq> kh_Seq ` set es"
  using assms
proof (induction rule: ledger_induct)
  case (entry es k l l')
  have "kh_Note k \<in> kh_Seq ` set es" if "kh_Operation k = KnowHowReconfirm"
    using that knowhow_step_Inr(2) [OF entry.hyps(4,3), of "kh_Note k"] ledger_active [OF entry.hyps(1,2)]
      active_adds [OF entry.hyps(2)] by (auto simp: kh_target_def)
  then show ?case using entry.IH by (auto simp: latest_step_def split: if_splits)
qed simp

text \<open>The pins of a note are its latest anchors and stay anchored to the same declarations.\<close>

lemma ledger_pins:
  assumes "knowhow_loop 0 es empty_ledger = Inr l" "known_ops es"
  shows "\<forall>k\<in>set es. kh_Operation k = KnowHowAdd \<longrightarrow>
     pins_of l (kh_Seq k) = (case fold latest_step es Map.empty (kh_Seq k) of Some e \<Rightarrow> kh_Anchors e | None \<Rightarrow> kh_Anchors k) \<and>
     note_ids (pins_of l (kh_Seq k)) = note_ids (kh_Anchors k)"
  using assms
proof (induction rule: ledger_induct)
  case (entry es k l l')
  note st = knowhow_step_Inr [OF entry.hyps(4,3)]
  have fresh: "kh_Seq k \<notin> kh_Seq ` set es" by (rule seq_fresh [OF entry.hyps(1,2) st(1)])
  then have none: "fold latest_step es Map.empty (kh_Seq k) = None"
    using latest_notes [OF entry.hyps(1,2)] by auto
  show ?case
  proof (intro ballI impI)
    fix x assume x: "x \<in> set (es @ [k])" "kh_Operation x = KnowHowAdd"
    show "pins_of l' (kh_Seq x) = (case fold latest_step (es @ [k]) Map.empty (kh_Seq x) of Some e \<Rightarrow> kh_Anchors e | None \<Rightarrow> kh_Anchors x) \<and>
       note_ids (pins_of l' (kh_Seq x)) = note_ids (kh_Anchors x)"
    proof (cases "x = k")
      case True
      then show ?thesis using x none st(4) by (simp add: latest_step_def pins_of_def)
    next
      case False
      then have "x \<in> set es" using x by simp
      then have ne: "kh_Seq x \<noteq> kh_Seq k" using fresh by (metis imageI)
      note IH = entry.IH [rule_format, OF \<open>x \<in> set es\<close> x(2)]
      show ?thesis
      proof (cases "kh_Operation k = KnowHowReconfirm \<and> kh_Note k = kh_Seq x")
        case True
        then have "note_ids (kh_Anchors k) = note_ids (kh_Anchors x)"
          using reconfirm_note_ids [OF st(5)] IH by metis
        then show ?thesis using True st(4) by (simp add: latest_step_def pins_of_def)
      next
        case False
        then have "pins_of l' (kh_Seq x) = pins_of l (kh_Seq x)"
            "fold latest_step (es @ [k]) Map.empty (kh_Seq x) = fold latest_step es Map.empty (kh_Seq x)"
          using ne st(4) by (auto simp: latest_step_def pins_of_def)
        then show ?thesis using IH by metis
      qed
    qed
  qed
qed simp

text \<open>The active notes are those added and not withdrawn afterwards.\<close>

definition withdraws :: "KnowHowEntry \<Rightarrow> string \<Rightarrow> bool" where
  "withdraws k n \<longleftrightarrow> kh_Operation k \<noteq> KnowHowReconfirm \<and> kh_target k = Some n"

definition standing :: "KnowHowEntry list \<Rightarrow> string \<Rightarrow> bool" where
  "standing es n \<longleftrightarrow> (\<exists>i < length es. kh_Operation (es ! i) = KnowHowAdd \<and> kh_Seq (es ! i) = n \<and>
     (\<forall>j < length es. i < j \<longrightarrow> \<not> withdraws (es ! j) n))"

lemma standing_snoc:
  "standing (es @ [k]) n \<longleftrightarrow>
     (kh_Operation k = KnowHowAdd \<and> kh_Seq k = n) \<or> (standing es n \<and> \<not> withdraws k n)"
proof
  assume "standing (es @ [k]) n"
  then obtain i where i: "i < Suc (length es)" "kh_Operation ((es @ [k]) ! i) = KnowHowAdd" "kh_Seq ((es @ [k]) ! i) = n"
    "\<forall>j < Suc (length es). i < j \<longrightarrow> \<not> withdraws ((es @ [k]) ! j) n"
    by (auto simp: standing_def)
  show "(kh_Operation k = KnowHowAdd \<and> kh_Seq k = n) \<or> (standing es n \<and> \<not> withdraws k n)"
  proof (cases "i = length es")
    case True
    then show ?thesis using i by simp
  next
    case False
    then have "i < length es" using i by simp
    then show ?thesis unfolding standing_def using i by (auto simp: nth_append less_Suc_eq)
  qed
next
  assume r: "(kh_Operation k = KnowHowAdd \<and> kh_Seq k = n) \<or> (standing es n \<and> \<not> withdraws k n)"
  then show "standing (es @ [k]) n"
  proof
    assume "kh_Operation k = KnowHowAdd \<and> kh_Seq k = n"
    then show ?thesis unfolding standing_def by (intro exI [of _ "length es"]) simp
  next
    assume s: "standing es n \<and> \<not> withdraws k n"
    then obtain i where "i < length es" "kh_Operation (es ! i) = KnowHowAdd" "kh_Seq (es ! i) = n"
      "\<forall>j < length es. i < j \<longrightarrow> \<not> withdraws (es ! j) n" by (auto simp: standing_def)
    then show ?thesis unfolding standing_def using s
      by (intro exI [of _ i]) (auto simp: nth_append less_Suc_eq)
  qed
qed

lemma active_standing:
  assumes "known_ops es"
  shows "n \<in> set (KnowHowActiveSeqs es) \<longleftrightarrow> standing es n"
  using assms
proof (induction es rule: rev_induct)
  case Nil
  show ?case by (simp add: KnowHowActiveSeqs_def standing_def)
next
  case (snoc k es)
  then show ?case
    by (auto simp: KnowHowActiveSeqs_snoc active_step_def standing_snoc withdraws_def kh_target_def known_ops_def
        split: option.splits)
qed

lemma single_withdrawal:
  assumes l: "knowhow_loop 0 es empty_ledger = Inr l" "known_ops es"
    and ij: "i < j" "j < length es" "withdraws (es ! i) n" "withdraws (es ! j) n"
  shows False
proof -
  have st: "standing (take m es) n" if "m < length es" "withdraws (es ! m) n" for m
  proof -
    have "known_ops (take m es)" using l(2) by (auto simp: known_ops_def list_all_iff dest: in_set_takeD)
    then show ?thesis
      using ledger_targets [OF l] that active_standing by (auto simp: withdraws_def)
  qed
  obtain a where a: "a < i" "kh_Seq (es ! a) = n"
    using st [of i] ij by (auto simp: standing_def)
  obtain b where b: "b < j" "kh_Seq (es ! b) = n" "\<forall>m < j. b < m \<longrightarrow> \<not> withdraws (es ! m) n"
    using st [of j] ij by (auto simp: standing_def)
  have "i \<le> b" using b(3) ij by (meson leI)
  then have "a < b" using a by simp
  moreover have "Count_Int (kh_Seq (es ! a)) = int (a + 1)" "Count_Int (kh_Seq (es ! b)) = int (b + 1)"
    using ledger_seqs [OF l] a(1) b(1) ij(1,2) by simp_all
  ultimately show False using a b by simp
qed

subsection \<open>Properties\<close>

text \<open>
  C36: In a ledger that the validation accepts, every entry that supersedes, retracts or reconfirms
  a note names one that is active at that point, no note is withdrawn twice, and the active set is
  exactly the added notes that no later entry supersedes or retracts.\<close>

theorem validateKnowHow_history:
  assumes "validateKnowHow r = Inr ()" "known_ops (rec_KnowHow r)"
  shows "(\<forall>i < length (rec_KnowHow r). \<forall>n. kh_target (rec_KnowHow r ! i) = Some n \<longrightarrow>
           n \<in> set (KnowHowActiveSeqs (take i (rec_KnowHow r)))) \<and>
    (\<forall>i j n. i < j \<and> j < length (rec_KnowHow r) \<and> withdraws (rec_KnowHow r ! i) n \<longrightarrow> \<not> withdraws (rec_KnowHow r ! j) n) \<and>
    (\<forall>n. n \<in> set (KnowHowActiveSeqs (rec_KnowHow r)) \<longleftrightarrow> standing (rec_KnowHow r) n)"
proof -
  obtain l where l: "knowhow_loop 0 (rec_KnowHow r) empty_ledger = Inr l"
    using assms(1) by (auto simp: validateKnowHow_def)
  show ?thesis
    using ledger_targets [OF l assms(2)] single_withdrawal [OF l assms(2)] active_standing [OF assms(2)] by blast
qed

text \<open>
  In an accepted ledger the effective form of an active note is the added note with the anchors
  and commit of its latest reconfirmation, and it is anchored to the same paths and symbols as
  the note was when it was added.\<close>

theorem EffectiveKnowHow_anchors:
  assumes "validateKnowHow r = Inr ()" "known_ops (rec_KnowHow r)" "e \<in> set (EffectiveKnowHow (rec_KnowHow r))"
  shows "\<exists>k\<in>set (rec_KnowHow r). kh_Operation k = KnowHowAdd \<and> standing (rec_KnowHow r) (kh_Seq k) \<and>
    kh_Seq e = kh_Seq k \<and> kh_Text e = kh_Text k \<and>
    note_ids (kh_Anchors e) = note_ids (kh_Anchors k) \<and>
    (kh_Reconfirmed e = None \<longrightarrow> kh_Anchors e = kh_Anchors k \<and> kh_Commit e = kh_Commit k)"
proof -
  let ?es = "rec_KnowHow r"
  obtain l where l: "knowhow_loop 0 ?es empty_ledger = Inr l"
    using assms(1) by (auto simp: validateKnowHow_def)
  obtain k where k: "k \<in> set ?es" "kh_Operation k = KnowHowAdd" "kh_Seq k \<in> set (KnowHowActiveSeqs ?es)"
    "e = effective_entry k (fold latest_step ?es Map.empty (kh_Seq k))"
    using assms(3) by (auto simp: EffectiveKnowHow_def ActiveKnowHow_def Let_def)
  note p = ledger_pins [OF l assms(2), rule_format, OF k(1,2)]
  show ?thesis
    using k p active_standing [OF assms(2)]
    by (intro bexI [of _ k]) (auto simp: effective_entry_def KnowHowEntry.extend_def split: option.splits)
qed

definition sample_anchor :: "string \<Rightarrow> KnowHowAnchor" where
  "sample_anchor b = \<lparr>ka_Path = ''a.go'', ka_Blob = b, ka_Symbol = [], ka_SymbolSha256 = []\<rparr>"

definition sample_add :: KnowHowEntry where
  "sample_add = \<lparr>kh_Seq = ''1'', kh_Operation = ''ADD'', kh_Text = ''t'', kh_Anchors = [sample_anchor ''b1''], kh_Routes = [],
     kh_Commit = ''c1'', kh_Supersedes = None, kh_Attempt = None, kh_Generation = None, kh_EvidencePath = None,
     kh_Note = [], kh_Reason = None, kh_Repository = [], kh_ActorID = ''o'', kh_ActorRole = ''OWNER'', kh_RecordedAt = []\<rparr>"

definition sample_reconfirm :: KnowHowEntry where
  "sample_reconfirm = sample_add\<lparr>kh_Seq := ''2'', kh_Operation := ''RECONFIRM'', kh_Anchors := [sample_anchor ''b2''],
     kh_Commit := ''c2'', kh_Note := ''1''\<rparr>"

definition sample_ledger :: Record where
  "sample_ledger = zero_Record\<lparr>rec_KnowHow := [sample_add, sample_reconfirm]\<rparr>"

lemmas ledger_samples = sample_ledger_def sample_add_def sample_reconfirm_def sample_anchor_def zero_Record_def

lemma sample_seqs: "Count_Int ''1'' = 1" "Count_Int ''2'' = 2"
  by (simp_all add: Count_Int_def Let_def is_digit_def dec_val_def digit_val_def)

lemma sample_ledger_ok: "validateKnowHow sample_ledger = Inr ()" "known_ops (rec_KnowHow sample_ledger)"
  by (simp_all add: ledger_samples sample_seqs validateKnowHow_def knowhow_step_def Let_def empty_ledger_def kh_target_def
      KnowHowAdd_def KnowHowReconfirm_def KnowHowRetract_def KnowHowReconfirmRefusal_def KnowHowPins_def pins_of_def
      wire_KnowHowReconfirmRefusal_def known_ops_def)

theorem validateKnowHow_history_witness:
  "''1'' \<in> set (KnowHowActiveSeqs [sample_add]) \<and> standing (rec_KnowHow sample_ledger) ''1''"
proof -
  have "kh_target (rec_KnowHow sample_ledger ! 1) = Some ''1''" "length (rec_KnowHow sample_ledger) = 2"
      "take 1 (rec_KnowHow sample_ledger) = [sample_add]" "''1'' \<in> set (KnowHowActiveSeqs (rec_KnowHow sample_ledger))"
    by (simp_all add: ledger_samples kh_target_def KnowHowAdd_def KnowHowReconfirm_def KnowHowRetract_def
        KnowHowActiveSeqs_def active_step_def)
  moreover have "(1::nat) < 2" by simp
  ultimately show ?thesis using validateKnowHow_history [OF sample_ledger_ok] by metis
qed

theorem EffectiveKnowHow_anchors_witness:
  "\<exists>e\<in>set (EffectiveKnowHow (rec_KnowHow sample_ledger)).
     kh_Anchors e = [sample_anchor ''b2''] \<and>
     (\<exists>k\<in>set (rec_KnowHow sample_ledger). kh_Operation k = KnowHowAdd \<and> kh_Seq e = kh_Seq k \<and>
        note_ids (kh_Anchors e) = note_ids (kh_Anchors k))"
proof -
  let ?e = "effective_entry sample_add (Some sample_reconfirm)"
  have e: "?e \<in> set (EffectiveKnowHow (rec_KnowHow sample_ledger))" "kh_Anchors ?e = [sample_anchor ''b2'']"
    by (simp_all add: ledger_samples EffectiveKnowHow_def ActiveKnowHow_def KnowHowActiveSeqs_def active_step_def latest_step_def
        KnowHowAdd_def KnowHowReconfirm_def KnowHowRetract_def effective_entry_def KnowHowEntry.extend_def)
  show ?thesis using EffectiveKnowHow_anchors [OF sample_ledger_ok e(1)] e by blast
qed

end
