(* ===== verification/Ticket_Validate.thy ===== *)
theory Ticket_Validate
  imports Know_How
begin

text \<open>
  Record validation (\<^verbatim>\<open>validate\<close> of \<^verbatim>\<open>internal/tasks/ticket/record.go\<close> with \<^verbatim>\<open>validatePrerequisites\<close>,
  \<^verbatim>\<open>validateAttachedEvidence\<close>, \<^verbatim>\<open>validateObligations\<close> and \<^verbatim>\<open>validateEscalations\<close>) and the small
  member rules of \<^verbatim>\<open>prereq.go\<close>, \<^verbatim>\<open>progress.go\<close> and \<^verbatim>\<open>hold_condition.go\<close>. The sequence of early returns
  is shown to accept exactly the records that satisfy the relationships stated by \<open>record_ok\<close>, and
  every refusal to carry one of four codes.
\<close>

subsection \<open>Members\<close>

text \<open>\<^verbatim>\<open>strings.Contains\<close>.\<close>

definition str_contains :: "string \<Rightarrow> string \<Rightarrow> bool" where
  "str_contains s sub \<longleftrightarrow> list_ex (\<lambda>i. HasPrefix (drop i s) sub) [0..<Suc (length s)]"

definition HoldConditionCommitContained :: string where "HoldConditionCommitContained = ''COMMIT_CONTAINED''"
definition HoldConditionPathExists :: string where "HoldConditionPathExists = ''PATH_EXISTS''"
definition HoldConditionSymbolDefined :: string where "HoldConditionSymbolDefined = ''SYMBOL_DEFINED''"

definition ref_byte_bad :: "char \<Rightarrow> bool" where
  "ref_byte_bad c \<longleftrightarrow> bv c \<le> bv CHR '' '' \<or> bv c \<ge> 0x7F \<or> c \<in> set [CHR ''~'', CHR ''^'', CHR '':'', CHR ''?'', CHR ''*'', CHR ''['', CHR 0x5C]"

definition HoldConditionRefValid :: "string \<Rightarrow> bool" where
  "HoldConditionRefValid s \<longleftrightarrow>
     \<not> (\<not> HasPrefix s ''refs/'' \<or> length s > 256 \<or> HasSuffix s ''.'' \<or> str_contains s ''..'' \<or> str_contains s [CHR ''@'', CHR 0x7B] \<or>
        list_ex (\<lambda>comp. comp = [] \<or> HasPrefix comp ''.'' \<or> HasSuffix comp ''.lock'') (split_on CHR ''/'' s) \<or>
        list_ex ref_byte_bad s)"

definition PrerequisiteApplies :: "Prerequisite \<Rightarrow> string \<Rightarrow> bool" where
  "PrerequisiteApplies p stage \<longleftrightarrow> (if stage = [] then True else list_ex (\<lambda>s. s = stage) (p_Stages p))"

definition PhaseDeliveredOnBranch :: string where "PhaseDeliveredOnBranch = ''DELIVERED_ON_BRANCH''"
definition PhaseInReview :: string where "PhaseInReview = ''IN_REVIEW''"
definition PhaseInMergeQueue :: string where "PhaseInMergeQueue = ''IN_MERGE_QUEUE''"
definition PhaseMergedAwaitingCloseout :: string where "PhaseMergedAwaitingCloseout = ''MERGED_AWAITING_CLOSEOUT''"
definition PhaseBlocked :: string where "PhaseBlocked = ''BLOCKED''"
definition PhaseCleared :: string where "PhaseCleared = ''CLEARED''"

definition need :: "bool \<Rightarrow> unit res" where
  "need ok = (if ok then Inr () else Inl (Errorf CodeMalformed ''/phase''))"

definition ProgressMark_Validate :: "'a ProgressMark_scheme \<Rightarrow> unit res" where
  "ProgressMark_Validate m =
     (if pm_Phase m = PhaseDeliveredOnBranch then need (pm_Branch m \<noteq> None \<and> pm_Head m \<noteq> None)
      else if pm_Phase m = PhaseInReview \<or> pm_Phase m = PhaseInMergeQueue then need (pm_PR m \<noteq> None)
      else if pm_Phase m = PhaseMergedAwaitingCloseout then need (pm_Head m \<noteq> None)
      else if pm_Phase m = PhaseBlocked then need (pm_Reason m \<noteq> None)
      else if pm_Phase m = PhaseCleared
        then need (pm_Lane m = None \<and> pm_Host m = None \<and> pm_Branch m = None \<and> pm_Head m = None \<and> pm_PR m = None)
      else Inr ())"

definition eq_ptr :: "string option \<Rightarrow> string option \<Rightarrow> bool" where
  "eq_ptr a b \<longleftrightarrow> (a = None) = (b = None) \<and> (a = None \<or> the a = the b)"

definition ProgressMark_Equal :: "'a ProgressMark_scheme \<Rightarrow> 'b ProgressMark_scheme \<Rightarrow> bool" where
  "ProgressMark_Equal m m' \<longleftrightarrow>
     pm_Phase m = pm_Phase m' \<and> eq_ptr (pm_Lane m) (pm_Lane m') \<and> eq_ptr (pm_Host m) (pm_Host m') \<and>
     eq_ptr (pm_Branch m) (pm_Branch m') \<and> eq_ptr (pm_Head m) (pm_Head m') \<and> eq_ptr (pm_Reason m) (pm_Reason m') \<and>
     (pm_PR m = None) = (pm_PR m' = None) \<and> (pm_PR m = None \<or> the (pm_PR m) = the (pm_PR m'))"

definition Live :: "string \<Rightarrow> bool" where
  "Live status \<longleftrightarrow> status = StatusDraft \<or> status = StatusOpen \<or> status = StatusHeld"

definition EffectiveProgress :: "Record \<Rightarrow> Progress option" where
  "EffectiveProgress r =
     (if \<not> Live (rec_Status r) \<or> rec_Progress r = [] then None
      else let p = last (rec_Progress r) in if pm_Phase p = PhaseCleared then None else Some p)"

definition EffectivePhase :: "Record \<Rightarrow> string" where
  "EffectivePhase r = (case EffectiveProgress r of Some p \<Rightarrow> pm_Phase p | None \<Rightarrow> ''NONE'')"

subsection \<open>The parts of validate\<close>

text \<open>
  The edge loop of \<^verbatim>\<open>dependencies\<close> and of \<^verbatim>\<open>executionPrerequisites\<close>; they differ in the location
  prefix and in the code of a self edge. \<open>seen\<close> is the Go map of edge keys.
\<close>

type_synonym edge = "TicketID \<times> string \<times> string option"

definition edge_key :: "edge \<Rightarrow> string" where
  "edge_key e = (case e of (t, ob, g) \<Rightarrow>
     t_Raw t @ [CHR 0x00] @ ob @ (case g of Some x \<Rightarrow> [CHR 0x00] @ x | None \<Rightarrow> []))"

fun edge_loop :: "string \<Rightarrow> string \<Rightarrow> TicketID \<Rightarrow> nat \<Rightarrow> string list \<Rightarrow> edge list \<Rightarrow> unit res" where
  "edge_loop pre selfCode self i seen [] = Inr ()"
| "edge_loop pre selfCode self i seen (e # es) =
     (case e of (t, ob, g) \<Rightarrow>
        let loc = pre @ idx i in
        if (ob = ''GATE_PASSED'') \<noteq> (g \<noteq> None) then Inl (Errorf CodeMalformed (loc @ ''/gateId''))
        else if TicketID_QueueID t \<noteq> TicketID_QueueID self then Inl (Errorf CodeDependencyMissing (loc @ ''/ticketId''))
        else if t_Raw t = t_Raw self then Inl (Errorf selfCode (loc @ ''/ticketId''))
        else if edge_key e \<in> set seen then Inl (Errorf CodeDuplicateID loc)
        else edge_loop pre selfCode self (Suc i) (edge_key e # seen) es)"

definition dep_edge :: "Dependency \<Rightarrow> edge" where
  "dep_edge d = (d_TicketID d, d_Obligation d, d_GateID d)"

definition prereq_edge :: "Prerequisite \<Rightarrow> edge" where
  "prereq_edge p = (p_TicketID p, p_Obligation p, p_GateID p)"

definition validateDependencies :: "Record \<Rightarrow> unit res" where
  "validateDependencies r = edge_loop ''/dependencies/'' CodeCycle (rec_TicketID r) 0 [] (map dep_edge (rec_Dependencies r))"

definition validatePrerequisites :: "Record \<Rightarrow> unit res" where
  "validatePrerequisites r =
     edge_loop ''/executionPrerequisites/'' CodeMalformed (rec_TicketID r) 0 [] (map prereq_edge (rec_ExecutionPrerequisites r))"

definition AttachedAt :: "AttachedEvidence list \<Rightarrow> string \<Rightarrow> string \<Rightarrow> bool" where
  "AttachedAt entries acc d \<longleftrightarrow> list_ex (\<lambda>a. ae_AcceptanceRevision a = acc \<and> list_ex (\<lambda>x. x = d) (ae_Evidence a)) entries"

fun evidence_loop :: "int \<Rightarrow> nat \<Rightarrow> int \<Rightarrow> AttachedEvidence list \<Rightarrow> AttachedEvidence list \<Rightarrow> unit res" where
  "evidence_loop acc i prev earlier [] = Inr ()"
| "evidence_loop acc i prev earlier (a # as) =
     (let loc = ''/attachedEvidence/'' @ idx i; n = Count_Int (ae_AcceptanceRevision a)
      in if n < 1 \<or> n > acc then Inl (Errorf CodeMalformed (loc @ ''/acceptanceRevision''))
         else if n < prev then Inl (Errorf CodeMalformed (loc @ ''/acceptanceRevision''))
         else if list_ex (AttachedAt earlier (ae_AcceptanceRevision a)) (ae_Evidence a)
           then Inl (Errorf CodeDuplicateID (loc @ ''/evidence''))
         else evidence_loop acc (Suc i) n (earlier @ [a]) as)"

definition validateAttachedEvidence :: "Record \<Rightarrow> unit res" where
  "validateAttachedEvidence r = evidence_loop (Count_Int (rec_AcceptanceRevision r)) 0 0 [] (rec_AttachedEvidence r)"

definition validateObligations :: "Record \<Rightarrow> unit res" where
  "validateObligations r =
     (case rec_ObligationsRef r of
        None \<Rightarrow> Inr ()
      | Some ob \<Rightarrow>
          if s_Kind (rec_Source r) \<noteq> ''NATIVE'' \<or> rec_ShadowOverlay r then Inl (Errorf CodeMalformed ''/obligations'')
          else
            let acc = Count_Int (rec_AcceptanceRevision r); hw = Count_Int (hw_AcceptanceRevision (ob_HighWater ob))
            in if hw > acc \<or> (case ob_LastRaise ob of Some lr \<Rightarrow> Count_Int (or_AcceptanceRevision lr) > acc | None \<Rightarrow> False)
               then Inl (Errorf CodeMalformed ''/obligations/highWater'')
               else if hw = acc \<and> hw_Witnessed (ob_HighWater ob) < oc_Witnessed (ob_Counts ob)
               then Inl (Errorf CodeMalformed ''/obligations/highWater'')
               else Inr ())"

fun escalation_loop :: "Record \<Rightarrow> nat \<Rightarrow> nat \<Rightarrow> EscalationRef list \<Rightarrow> nat res" where
  "escalation_loop r i opn [] = Inr opn"
| "escalation_loop r i opn (e # es) =
     (if Count_Int (es_AcceptanceRevision e) > Count_Int (rec_AcceptanceRevision r)
      then Inl (Errorf CodeMalformed (''/escalations/entries/'' @ idx i @ ''/acceptanceRevision''))
      else escalation_loop r (Suc i)
             (if es_State e = ''OPEN'' \<and> es_AcceptanceRevision e = rec_AcceptanceRevision r then Suc opn else opn) es)"

definition validateEscalations :: "Record \<Rightarrow> EscalationRefs \<Rightarrow> unit res" where
  "validateEscalations r refs =
     (if Count_Int (ers_LastControlTicketRevision refs) > Count_Int (rec_Revision r)
      then Inl (Errorf CodeMalformed ''/escalations/lastControlTicketRevision'')
      else rbind (escalation_loop r 0 0 (ers_Entries refs))
        (\<lambda>opn. if opn > EscalationMaxCurrentOpen then Inl (Errorf CodeMalformed ''/escalations/entries'') else Inr ()))"

text \<open>The duplicate loops of holds and approvals.\<close>

fun dup_id_loop :: "string \<Rightarrow> string \<Rightarrow> nat \<Rightarrow> string list \<Rightarrow> string list \<Rightarrow> unit res" where
  "dup_id_loop pre suf i seen [] = Inr ()"
| "dup_id_loop pre suf i seen (x # xs) =
     (if x \<in> set seen then Inl (Errorf CodeDuplicateID (pre @ idx i @ suf))
      else dup_id_loop pre suf (Suc i) (x # seen) xs)"

definition check_reference :: "Record \<Rightarrow> string \<times> TicketID option \<Rightarrow> unit res" where
  "check_reference r nr = (case nr of (name, ref) \<Rightarrow>
     (case ref of
        None \<Rightarrow> Inr ()
      | Some t \<Rightarrow>
          if t_Raw t = t_Raw (rec_TicketID r) then Inl (Errorf CodeMalformed (''/'' @ name))
          else if TicketID_QueueID t \<noteq> TicketID_QueueID (rec_TicketID r) then Inl (Errorf CodeMalformed (''/'' @ name))
          else Inr ()))"

text \<open>Go iterates over the two-element map of references in an unspecified order, \<open>flip\<close> here.\<close>

definition check_references :: "bool \<Rightarrow> Record \<Rightarrow> unit res" where
  "check_references flip r =
     (let refs = [(''supersedes'', rec_Supersedes r), (''supersededBy'', rec_SupersededBy r)]
      in check_all (check_reference r) (if flip then rev refs else refs))"

definition check_revisions :: "Record \<Rightarrow> unit res" where
  "check_revisions r =
     (if Count_Int (rec_Revision r) < 1 then Inl (Errorf CodeMalformed ''/revision'')
      else if Count_Int (rec_AcceptanceRevision r) < 1 then Inl (Errorf CodeMalformed ''/acceptanceRevision'')
      else if Count_Int (rec_AcceptanceRevision r) > Count_Int (rec_Revision r) then Inl (Errorf CodeMalformed ''/acceptanceRevision'')
      else if rec_Revision r = ''1'' \<and> rec_PreviousRecordSha256 r \<noteq> None then Inl (Errorf CodeMalformed ''/previousRecordSha256'')
      else if rec_Revision r \<noteq> ''1'' \<and> rec_PreviousRecordSha256 r = None then Inl (Errorf CodeMalformed ''/previousRecordSha256'')
      else Inr ())"

definition check_status :: "Record \<Rightarrow> unit res" where
  "check_status r =
     (let effective = (case rec_ArchivedFrom r of Some s \<Rightarrow> s | None \<Rightarrow> rec_Status r)
      in if (rec_Status r = StatusArchived) \<noteq> (rec_ArchivedFrom r \<noteq> None) then Inl (Errorf CodeMalformed ''/archivedFrom'')
         else if (effective = StatusHeld) \<noteq> (length (rec_Holds r) > 0) then Inl (Errorf CodeMalformed ''/holds'')
         else if effective = StatusCompleted \<and> rec_Completion r = None then Inl (Errorf CodeMalformed ''/completion'')
         else if effective \<noteq> StatusCompleted \<and> rec_Completion r \<noteq> None then Inl (Errorf CodeMalformed ''/completion'')
         else (case rec_Completion r of
             None \<Rightarrow> Inr ()
           | Some c \<Rightarrow>
               if c_Kind c = ''MANUAL'' \<and> c_ManifestSha256 c \<noteq> None then Inl (Errorf CodeMalformed ''/completion/manifestSha256'')
               else if c_Kind c = ''VERIFIED'' \<and> c_ManifestSha256 c = None then Inl (Errorf CodeMalformed ''/completion/manifestSha256'')
               else Inr ()))"

definition check_source :: "Record \<Rightarrow> unit res" where
  "check_source r =
     (let s = rec_Source r
      in if s_Kind s = ''IMPORT'' \<and> s_SourceItemID s = None then Inl (Errorf CodeMalformed ''/source/sourceItemId'')
         else if s_Kind s = ''NATIVE'' \<and> (s_SourceItemID s \<noteq> None \<or> s_SourceRevisionSha256 s \<noteq> None) then Inl (Errorf CodeMalformed ''/source'')
         else if rec_ShadowOverlay r \<and> s_Kind s \<noteq> ''IMPORT'' then Inl (Errorf CodeMalformed ''/shadowOverlay'')
         else Inr ())"

definition validate :: "bool \<Rightarrow> Record \<Rightarrow> unit res" where
  "validate flip r =
     rbind (check_revisions r) (\<lambda>_.
     rbind (check_status r) (\<lambda>_.
     rbind (validateDependencies r) (\<lambda>_.
     rbind (validatePrerequisites r) (\<lambda>_.
     rbind (validateAttachedEvidence r) (\<lambda>_.
     rbind (validateKnowHow r) (\<lambda>_.
     rbind (validateObligations r) (\<lambda>_.
     rbind (check_source r) (\<lambda>_.
     rbind (dup_id_loop ''/holds/'' ''/holdId'' 0 [] (map h_HoldID (rec_Holds r))) (\<lambda>_.
     rbind (dup_id_loop ''/approvals/'' ''/grantId'' 0 [] (map a_GrantID (rec_Approvals r))) (\<lambda>_.
     rbind (case rec_Escalations r of None \<Rightarrow> Inr () | Some refs \<Rightarrow> validateEscalations r refs) (\<lambda>_.
     check_references flip r)))))))))))"

subsection \<open>What each part accepts\<close>

lemma unit_res_exI: "(\<exists>v::unit. P v) \<longleftrightarrow> P ()"
  by auto

definition edges_ok :: "TicketID \<Rightarrow> edge list \<Rightarrow> bool" where
  "edges_ok self es \<longleftrightarrow> distinct (map edge_key es) \<and>
     (\<forall>(t, ob, g)\<in>set es. (ob = ''GATE_PASSED'' \<longleftrightarrow> g \<noteq> None) \<and> TicketID_QueueID t = TicketID_QueueID self \<and> t_Raw t \<noteq> t_Raw self)"

lemma edge_loop_iff:
  "edge_loop pre c self i seen es = Inr u \<longleftrightarrow> edges_ok self es \<and> set (map edge_key es) \<inter> set seen = {}"
proof (induction es arbitrary: i seen)
  case (Cons e es)
  show ?case
    using Cons.IH [of "Suc i" "edge_key e # seen"]
    by (cases e) (auto simp: edges_ok_def Let_def)
qed (simp add: edges_ok_def)

lemma dup_id_loop_iff:
  "dup_id_loop pre suf i seen xs = Inr u \<longleftrightarrow> distinct xs \<and> set xs \<inter> set seen = {}"
  by (induction xs arbitrary: i seen) auto

text \<open>Two attachments at one acceptance revision share no digest.\<close>

definition fresh_evidence :: "AttachedEvidence \<Rightarrow> AttachedEvidence \<Rightarrow> bool" where
  "fresh_evidence a b \<longleftrightarrow> (ae_AcceptanceRevision a = ae_AcceptanceRevision b \<longrightarrow> set (ae_Evidence a) \<inter> set (ae_Evidence b) = {})"

definition evidence_ok :: "int \<Rightarrow> AttachedEvidence list \<Rightarrow> bool" where
  "evidence_ok acc as \<longleftrightarrow>
     (\<forall>a\<in>set as. 1 \<le> Count_Int (ae_AcceptanceRevision a) \<and> Count_Int (ae_AcceptanceRevision a) \<le> acc) \<and>
     sorted (map (\<lambda>a. Count_Int (ae_AcceptanceRevision a)) as) \<and> sorted_wrt fresh_evidence as"

lemma AttachedAt_iff: "AttachedAt es acc d \<longleftrightarrow> (\<exists>a\<in>set es. ae_AcceptanceRevision a = acc \<and> d \<in> set (ae_Evidence a))"
  by (auto simp: AttachedAt_def list_ex_iff)

lemma attached_fresh:
  "list_ex (AttachedAt es (ae_AcceptanceRevision a)) (ae_Evidence a) \<longleftrightarrow> \<not> (\<forall>e\<in>set es. fresh_evidence e a)"
  by (auto simp: list_ex_iff AttachedAt_iff fresh_evidence_def)

lemma evidence_loop_iff:
  "evidence_loop acc i prev earlier as = Inr u \<longleftrightarrow>
     evidence_ok acc as \<and> (\<forall>a\<in>set as. prev \<le> Count_Int (ae_AcceptanceRevision a)) \<and>
     (\<forall>a\<in>set as. \<forall>e\<in>set earlier. fresh_evidence e a)"
proof (induction as arbitrary: i prev earlier)
  case (Cons a as)
  show ?case
    using Cons.IH [of "Suc i" "Count_Int (ae_AcceptanceRevision a)" "earlier @ [a]"]
    by (auto simp: Let_def attached_fresh evidence_ok_def) (meson linorder_not_le order.trans)
qed (simp add: evidence_ok_def)

definition obligations_ok :: "Record \<Rightarrow> bool" where
  "obligations_ok r \<longleftrightarrow> (\<forall>ob. rec_ObligationsRef r = Some ob \<longrightarrow>
     s_Kind (rec_Source r) = ''NATIVE'' \<and> \<not> rec_ShadowOverlay r \<and>
     Count_Int (hw_AcceptanceRevision (ob_HighWater ob)) \<le> Count_Int (rec_AcceptanceRevision r) \<and>
     (\<forall>lr. ob_LastRaise ob = Some lr \<longrightarrow> Count_Int (or_AcceptanceRevision lr) \<le> Count_Int (rec_AcceptanceRevision r)) \<and>
     (Count_Int (hw_AcceptanceRevision (ob_HighWater ob)) = Count_Int (rec_AcceptanceRevision r) \<longrightarrow>
        oc_Witnessed (ob_Counts ob) \<le> hw_Witnessed (ob_HighWater ob)))"

lemma validateObligations_iff: "validateObligations r = Inr u \<longleftrightarrow> obligations_ok r"
  by (auto simp: validateObligations_def obligations_ok_def Let_def split: option.splits)

definition current_open :: "Record \<Rightarrow> EscalationRefs \<Rightarrow> EscalationRef list" where
  "current_open r refs = filter (\<lambda>e. es_State e = ''OPEN'' \<and> es_AcceptanceRevision e = rec_AcceptanceRevision r) (ers_Entries refs)"

definition escalations_ok :: "Record \<Rightarrow> bool" where
  "escalations_ok r \<longleftrightarrow> (\<forall>refs. rec_Escalations r = Some refs \<longrightarrow>
     Count_Int (ers_LastControlTicketRevision refs) \<le> Count_Int (rec_Revision r) \<and>
     (\<forall>e\<in>set (ers_Entries refs). Count_Int (es_AcceptanceRevision e) \<le> Count_Int (rec_AcceptanceRevision r)) \<and>
     length (current_open r refs) \<le> EscalationMaxCurrentOpen)"

lemma escalation_loop_iff:
  "escalation_loop r i opn es = Inr n \<longleftrightarrow>
     (\<forall>e\<in>set es. Count_Int (es_AcceptanceRevision e) \<le> Count_Int (rec_AcceptanceRevision r)) \<and>
     n = opn + length (filter (\<lambda>e. es_State e = ''OPEN'' \<and> es_AcceptanceRevision e = rec_AcceptanceRevision r) es)"
  by (induction es arbitrary: i opn) auto

lemma validateEscalations_iff:
  "(case rec_Escalations r of None \<Rightarrow> Inr () | Some refs \<Rightarrow> validateEscalations r refs) = Inr u \<longleftrightarrow> escalations_ok r"
  by (auto simp: validateEscalations_def escalations_ok_def current_open_def escalation_loop_iff split: option.splits)

definition reference_ok :: "Record \<Rightarrow> TicketID option \<Rightarrow> bool" where
  "reference_ok r ref \<longleftrightarrow> (\<forall>t. ref = Some t \<longrightarrow> t_Raw t \<noteq> t_Raw (rec_TicketID r) \<and> TicketID_QueueID t = TicketID_QueueID (rec_TicketID r))"

lemma check_references_iff:
  "check_references flip r = Inr u \<longleftrightarrow> reference_ok r (rec_Supersedes r) \<and> reference_ok r (rec_SupersededBy r)"
  by (auto simp: check_references_def check_all_Inr check_reference_def reference_ok_def Let_def split: option.splits)

definition status_ok :: "Record \<Rightarrow> bool" where
  "status_ok r \<longleftrightarrow>
     (rec_Status r = StatusArchived \<longleftrightarrow> rec_ArchivedFrom r \<noteq> None) \<and>
     (EffectiveStatus r = StatusHeld \<longleftrightarrow> rec_Holds r \<noteq> []) \<and>
     (EffectiveStatus r = StatusCompleted \<longleftrightarrow> rec_Completion r \<noteq> None) \<and>
     (\<forall>c. rec_Completion r = Some c \<longrightarrow>
        (c_Kind c = ''MANUAL'' \<longrightarrow> c_ManifestSha256 c = None) \<and> (c_Kind c = ''VERIFIED'' \<longrightarrow> c_ManifestSha256 c \<noteq> None))"

lemma check_status_iff: "check_status r = Inr u \<longleftrightarrow> status_ok r"
  by (auto simp: check_status_def status_ok_def EffectiveStatus_def Let_def split: option.splits)

definition revisions_ok :: "Record \<Rightarrow> bool" where
  "revisions_ok r \<longleftrightarrow> 1 \<le> Count_Int (rec_AcceptanceRevision r) \<and>
     Count_Int (rec_AcceptanceRevision r) \<le> Count_Int (rec_Revision r) \<and>
     (rec_Revision r = ''1'' \<longleftrightarrow> rec_PreviousRecordSha256 r = None)"

lemma check_revisions_iff: "check_revisions r = Inr u \<longleftrightarrow> revisions_ok r"
  by (auto simp: check_revisions_def revisions_ok_def)

definition source_ok :: "Record \<Rightarrow> bool" where
  "source_ok r \<longleftrightarrow>
     (s_Kind (rec_Source r) = ''IMPORT'' \<longrightarrow> s_SourceItemID (rec_Source r) \<noteq> None) \<and>
     (s_Kind (rec_Source r) = ''NATIVE'' \<longrightarrow> s_SourceItemID (rec_Source r) = None \<and> s_SourceRevisionSha256 (rec_Source r) = None) \<and>
     (rec_ShadowOverlay r \<longrightarrow> s_Kind (rec_Source r) = ''IMPORT'')"

lemma check_source_iff: "check_source r = Inr u \<longleftrightarrow> source_ok r"
  by (auto simp: check_source_def source_ok_def Let_def)

lemmas validate_parts = check_revisions_iff check_status_iff edge_loop_iff evidence_loop_iff validateObligations_iff
  check_source_iff dup_id_loop_iff validateEscalations_iff check_references_iff

definition record_ok :: "Record \<Rightarrow> bool" where
  "record_ok r \<longleftrightarrow> revisions_ok r \<and> status_ok r \<and> source_ok r \<and>
     edges_ok (rec_TicketID r) (map dep_edge (rec_Dependencies r)) \<and>
     edges_ok (rec_TicketID r) (map prereq_edge (rec_ExecutionPrerequisites r)) \<and>
     evidence_ok (Count_Int (rec_AcceptanceRevision r)) (rec_AttachedEvidence r) \<and>
     validateKnowHow r = Inr () \<and> obligations_ok r \<and> escalations_ok r \<and>
     distinct (map h_HoldID (rec_Holds r)) \<and> distinct (map a_GrantID (rec_Approvals r)) \<and>
     reference_ok r (rec_Supersedes r) \<and> reference_ok r (rec_SupersededBy r)"

lemma validate_record_ok: "validate flip r = Inr () \<longleftrightarrow> record_ok r"
  unfolding validate_def record_ok_def rbind_eq_Inr unit_res_exI validateDependencies_def validatePrerequisites_def
    validateAttachedEvidence_def validate_parts
  by (auto simp: evidence_ok_def)

subsection \<open>Refusals\<close>

definition refusal_codes :: "string set" where
  "refusal_codes = {CodeMalformed, CodeDependencyMissing, CodeCycle, CodeDuplicateID}"

definition refuses_with :: "string set \<Rightarrow> 'a res \<Rightarrow> bool" where
  "refuses_with cs x \<longleftrightarrow> (\<forall>e. x = Inl e \<longrightarrow> e_Code e \<in> cs)"

lemma refuses_Inr [simp]: "refuses_with cs (Inr v)"
  by (simp add: refuses_with_def)

lemma refuses_Inl [simp]: "refuses_with cs (Inl e) \<longleftrightarrow> e_Code e \<in> cs"
  by (simp add: refuses_with_def)

lemma refuses_rbind [intro]:
  "refuses_with cs x \<Longrightarrow> (\<And>v. refuses_with cs (f v)) \<Longrightarrow> refuses_with cs (rbind x f)"
  by (cases x) auto

lemma refusal_members [simp]:
  "CodeMalformed \<in> refusal_codes" "CodeDependencyMissing \<in> refusal_codes" "CodeCycle \<in> refusal_codes" "CodeDuplicateID \<in> refusal_codes"
  by (simp_all add: refusal_codes_def)

lemma refuses_edge_loop:
  "sc \<in> refusal_codes \<Longrightarrow> IsCode sc \<Longrightarrow> refuses_with refusal_codes (edge_loop pre sc self i seen es)"
  by (induction es arbitrary: i seen) (auto simp: Let_def)

lemma refuses_evidence_loop: "refuses_with refusal_codes (evidence_loop acc i prev earlier as)"
  by (induction as arbitrary: i prev earlier) (auto simp: Let_def)

lemma refuses_dup_loop: "refuses_with refusal_codes (dup_id_loop pre suf i seen xs)"
  by (induction xs arbitrary: i seen) auto

lemma refuses_knowhow_step: "refuses_with refusal_codes (knowhow_step i k l)"
  by (simp add: knowhow_step_def Let_def)

lemma refuses_knowhow_loop: "refuses_with refusal_codes (knowhow_loop i ks l)"
  by (induction ks arbitrary: i l) (auto intro: refuses_knowhow_step)

lemma refuses_escalation_loop: "refuses_with refusal_codes (escalation_loop r i opn es)"
  by (induction es arbitrary: i opn) auto

lemma refuses_escalations: "refuses_with refusal_codes (case rec_Escalations r of None \<Rightarrow> Inr () | Some refs \<Rightarrow> validateEscalations r refs)"
  by (auto simp: validateEscalations_def intro: refuses_escalation_loop split: option.splits)

lemma refuses_check_all: "(\<And>x. refuses_with cs (f x)) \<Longrightarrow> refuses_with cs (check_all f xs)"
proof (induction xs)
  case (Cons x xs)
  then show ?case using Cons.prems [of x] by (cases "f x") simp_all
qed simp

lemma refuses_references: "refuses_with refusal_codes (check_references flip r)"
  unfolding check_references_def Let_def
  by (rule refuses_check_all) (auto simp: check_reference_def split: option.splits)

lemma refuses_simple:
  "refuses_with refusal_codes (check_revisions r)" "refuses_with refusal_codes (check_status r)"
  "refuses_with refusal_codes (check_source r)" "refuses_with refusal_codes (validateObligations r)"
  by (auto simp: check_revisions_def check_status_def check_source_def validateObligations_def Let_def split: option.splits)

lemma refuses_validate: "refuses_with refusal_codes (validate flip r)"
  unfolding validate_def validateDependencies_def validatePrerequisites_def validateAttachedEvidence_def validateKnowHow_def
  by (intro refuses_rbind refuses_simple refuses_edge_loop refuses_evidence_loop refuses_knowhow_loop refuses_dup_loop
      refuses_escalations refuses_references refuses_Inr) simp_all

subsection \<open>Properties\<close>

text \<open>
  C21: Validation accepts a record exactly when it satisfies the record relationships (revisions and
  digest chain, status against holds, completion and archive, edges, attachments, ledger,
  obligation marks, escalations, unique hold and grant identifiers, supersession), whatever order
  Go walks the supersession map in, and a refusal carries one of four codes.\<close>

theorem validate_exact:
  "(validate flip r = Inr () \<longleftrightarrow> record_ok r) \<and>
   (case validate flip r of Inl e \<Rightarrow> e_Code e \<in> {CodeMalformed, CodeDependencyMissing, CodeCycle, CodeDuplicateID} | Inr _ \<Rightarrow> True)"
  using validate_record_ok [of flip r] refuses_validate [of flip r]
  by (auto simp: refuses_with_def refusal_codes_def split: sum.splits)

text \<open>
  C22: In a validated record a completion is present exactly when the effective status is COMPLETED,
  a VERIFIED completion names its manifest, holds are present exactly when the effective status
  is HELD, and a ticket never depends on itself nor carries the same dependency edge twice.\<close>

theorem validate_no_false_completion:
  assumes "validate flip r = Inr ()"
  shows "(rec_Completion r \<noteq> None \<longleftrightarrow> EffectiveStatus r = StatusCompleted) \<and>
    (\<forall>c. rec_Completion r = Some c \<and> c_Kind c = ''VERIFIED'' \<longrightarrow> c_ManifestSha256 c \<noteq> None) \<and>
    (rec_Holds r \<noteq> [] \<longleftrightarrow> EffectiveStatus r = StatusHeld) \<and>
    (\<forall>d\<in>set (rec_Dependencies r). t_Raw (d_TicketID d) \<noteq> t_Raw (rec_TicketID r)) \<and>
    distinct (map (\<lambda>d. (t_Raw (d_TicketID d), d_Obligation d, d_GateID d)) (rec_Dependencies r))"
proof -
  have ok: "record_ok r" using assms validate_record_ok by simp
  let ?f = "\<lambda>(a, ob, g). a @ [CHR 0x00] @ ob @ (case g of Some x \<Rightarrow> [CHR 0x00] @ x | None \<Rightarrow> [])"
  have "map edge_key (map dep_edge (rec_Dependencies r)) =
      map ?f (map (\<lambda>d. (t_Raw (d_TicketID d), d_Obligation d, d_GateID d)) (rec_Dependencies r))"
    by (simp add: edge_key_def dep_edge_def)
  moreover have "distinct (map edge_key (map dep_edge (rec_Dependencies r)))"
    using ok unfolding record_ok_def edges_ok_def by blast
  ultimately have "distinct (map ?f (map (\<lambda>d. (t_Raw (d_TicketID d), d_Obligation d, d_GateID d)) (rec_Dependencies r)))"
    by (simp only:)
  then have "distinct (map (\<lambda>d. (t_Raw (d_TicketID d), d_Obligation d, d_GateID d)) (rec_Dependencies r))"
    unfolding distinct_map by blast
  moreover have "\<forall>d\<in>set (rec_Dependencies r). t_Raw (d_TicketID d) \<noteq> t_Raw (rec_TicketID r)"
    using ok by (auto simp: record_ok_def edges_ok_def dep_edge_def)
  ultimately show ?thesis using ok by (simp add: record_ok_def status_ok_def)
qed

definition sample_record :: Record where
  "sample_record = zero_Record\<lparr>rec_TicketID := \<lparr>t_Raw = ''ticket:a:q:T1'', t_Authority = ''a'', t_Queue = ''q'', t_Local = ''T1''\<rparr>,
     rec_Revision := ''1'', rec_AcceptanceRevision := ''1'', rec_Status := StatusCompleted,
     rec_Source := \<lparr>s_Kind = ''NATIVE'', s_SourceQueueID = ''queue:a:q'', s_SourceItemID = None, s_SourceRevisionSha256 = None\<rparr>,
     rec_Completion := Some \<lparr>c_Kind = ''VERIFIED'', c_Actor = ''op'', c_Reason = None, c_Evidence = [],
       c_ManifestSha256 = Some ''m'', c_RecordedAt = []\<rparr>\<rparr>"

theorem validate_no_false_completion_witness:
  "rec_Completion sample_record \<noteq> None \<and> EffectiveStatus sample_record = StatusCompleted"
proof -
  have ok: "validate False sample_record = Inr ()"
    by (simp add: validate_record_ok)
      (simp add: sample_record_def zero_Record_def record_ok_def revisions_ok_def status_ok_def
        source_ok_def edges_ok_def evidence_ok_def obligations_ok_def escalations_ok_def reference_ok_def validateKnowHow_def
        EffectiveStatus_def sample_seqs)
  have "rec_Completion sample_record \<noteq> None" by (simp add: sample_record_def)
  then show ?thesis using validate_no_false_completion [OF ok] by simp
qed

end
