(* ===== verification/Scc.thy ===== *)
theory Scc
  imports Prelude
begin

text \<open>
  Cycle detection (\<^verbatim>\<open>findCycles\<close> of \<^verbatim>\<open>internal/tasks/ticket/graph.go\<close>): Tarjan's algorithm over the
  dependency edges, with its index, low, on-stack and stack variables as one state record. The
  recursion of the Go closure \<^verbatim>\<open>visit\<close> is bounded by fuel, one unit per nested call; as many units
  as there are tickets are enough, which is part of the correctness statement. The main result is
  that a ticket is recorded with exactly the sorted members of its strongly connected component
  when it lies on a dependency cycle and is not recorded otherwise.
\<close>

subsection \<open>The algorithm\<close>

text \<open>\<open>deps\<close> maps a known ticket to the ids of its dependencies, in order, unknown ids included.\<close>

type_synonym graph = "string \<rightharpoonup> string list"

record tarjan =
  tj_index :: nat
  tj_indices :: "string \<rightharpoonup> nat"
  tj_low :: "string \<Rightarrow> nat"
  tj_onStack :: "string \<Rightarrow> bool"
  tj_stack :: "string list"
  tj_inCycle :: "string \<rightharpoonup> string list"

text \<open>A Go map of ints reads 0 for an absent key, so \<open>low\<close> is total. The top of the stack is the head.\<close>

definition tarjan_init :: tarjan where
  "tarjan_init = \<lparr>tj_index = 0, tj_indices = Map.empty, tj_low = (\<lambda>_. 0), tj_onStack = (\<lambda>_. False),
     tj_stack = [], tj_inCycle = Map.empty\<rparr>"

definition enter :: "string \<Rightarrow> tarjan \<Rightarrow> tarjan" where
  "enter v st = st\<lparr>tj_indices := (tj_indices st)(v \<mapsto> tj_index st), tj_low := (tj_low st)(v := tj_index st),
     tj_index := tj_index st + 1, tj_stack := v # tj_stack st, tj_onStack := (tj_onStack st)(v := True)\<rparr>"

text \<open>The inner pop loop; \<open>None\<close> is the out-of-range panic of an empty stack.\<close>

fun pop_loop :: "string \<Rightarrow> string list \<Rightarrow> (string \<Rightarrow> bool) \<Rightarrow> string list \<Rightarrow> (string list \<times> (string \<Rightarrow> bool) \<times> string list) option" where
  "pop_loop v [] on cc = None"
| "pop_loop v (w # stack) on cc =
     (if w = v then Some (stack, on(w := False), cc @ [w]) else pop_loop v stack (on(w := False)) (cc @ [w]))"

definition index_of :: "tarjan \<Rightarrow> string \<Rightarrow> nat" where
  "index_of st v = (case tj_indices st v of Some i \<Rightarrow> i | None \<Rightarrow> 0)"

definition leave :: "string \<Rightarrow> bool \<Rightarrow> tarjan \<Rightarrow> tarjan option" where
  "leave v self st =
     (if tj_low st v = index_of st v then
        (case pop_loop v (tj_stack st) (tj_onStack st) [] of
           None \<Rightarrow> None
         | Some (stack, on, cc) \<Rightarrow>
             let st = st\<lparr>tj_stack := stack, tj_onStack := on\<rparr>
             in if length cc > 1 \<or> self
                then let cc = sort cc in Some (st\<lparr>tj_inCycle := fold (\<lambda>m cyc. cyc(m \<mapsto> cc)) cc (tj_inCycle st)\<rparr>)
                else Some st)
      else Some st)"

text \<open>The loop of \<open>visit\<close> over the dependencies of \<open>v\<close>; \<open>rec\<close> is the recursive call.\<close>

fun visit_edges :: "(string \<Rightarrow> tarjan \<Rightarrow> tarjan option) \<Rightarrow> graph \<Rightarrow> string \<Rightarrow> string list \<Rightarrow> tarjan \<Rightarrow> bool \<Rightarrow> (tarjan \<times> bool) option" where
  "visit_edges rec deps v [] st self = Some (st, self)"
| "visit_edges rec deps v (w # ws) st self =
     (let self = (self \<or> w = v) in
      if deps w = None then visit_edges rec deps v ws st self
      else if tj_indices st w = None then
        (case rec w st of
           None \<Rightarrow> None
         | Some st \<Rightarrow> visit_edges rec deps v ws
             (if tj_low st w < tj_low st v then st\<lparr>tj_low := (tj_low st)(v := tj_low st w)\<rparr> else st) self)
      else visit_edges rec deps v ws
        (if tj_onStack st w \<and> index_of st w < tj_low st v then st\<lparr>tj_low := (tj_low st)(v := index_of st w)\<rparr> else st) self)"

primrec visit :: "nat \<Rightarrow> graph \<Rightarrow> string \<Rightarrow> tarjan \<Rightarrow> tarjan option" where
  "visit 0 deps v st = None"
| "visit (Suc n) deps v st =
     (case visit_edges (visit n deps) deps v (case deps v of Some ws \<Rightarrow> ws | None \<Rightarrow> []) (enter v st) False of
        None \<Rightarrow> None
      | Some (st, self) \<Rightarrow> leave v self st)"

fun visit_all :: "nat \<Rightarrow> graph \<Rightarrow> string list \<Rightarrow> tarjan \<Rightarrow> tarjan option" where
  "visit_all n deps [] st = Some st"
| "visit_all n deps (v # vs) st =
     (if tj_indices st v = None then (case visit n deps v st of None \<Rightarrow> None | Some st \<Rightarrow> visit_all n deps vs st)
      else visit_all n deps vs st)"

definition findCycles :: "graph \<Rightarrow> string list \<Rightarrow> (string \<rightharpoonup> string list) option" where
  "findCycles deps ids = map_option tj_inCycle (visit_all (length ids) deps ids tarjan_init)"

subsection \<open>Specification\<close>

definition edge :: "graph \<Rightarrow> string \<Rightarrow> string \<Rightarrow> bool" where
  "edge deps x y \<longleftrightarrow> (\<exists>ws. deps x = Some ws \<and> y \<in> set ws) \<and> deps y \<noteq> None"

abbreviation reach :: "graph \<Rightarrow> string \<Rightarrow> string \<Rightarrow> bool" where
  "reach deps \<equiv> (edge deps)\<^sup>*\<^sup>*"

text \<open>The strongly connected component of a ticket and the report for it.\<close>

definition component :: "graph \<Rightarrow> string \<Rightarrow> string set" where
  "component deps x = {y. reach deps x y \<and> reach deps y x}"

definition on_cycle :: "graph \<Rightarrow> string \<Rightarrow> bool" where
  "on_cycle deps x \<longleftrightarrow> (edge deps)\<^sup>+\<^sup>+ x x"

definition cycle_of :: "graph \<Rightarrow> string \<Rightarrow> string list option" where
  "cycle_of deps x = (if on_cycle deps x then Some (sorted_list_of_set (component deps x)) else None)"

lemma component_self [simp]: "x \<in> component deps x"
  by (simp add: component_def)

lemma component_eq: "y \<in> component deps x \<Longrightarrow> component deps y = component deps x"
  by (auto simp: component_def intro: rtranclp_trans)

lemma on_cycle_component: "y \<in> component deps x \<Longrightarrow> y \<noteq> x \<Longrightarrow> on_cycle deps x"
  unfolding component_def on_cycle_def
  by (metis (mono_tags, lifting) mem_Collect_eq rtranclpD tranclp_rtranclp_tranclp)

lemma on_cycle_single:
  assumes "component deps x = {x}"
  shows "on_cycle deps x \<longleftrightarrow> edge deps x x"
proof
  assume "on_cycle deps x"
  then obtain y where "edge deps x y" "reach deps y x"
    unfolding on_cycle_def by (meson tranclpD)
  then have "y \<in> component deps x" by (auto simp: component_def)
  then show "edge deps x x" using assms \<open>edge deps x y\<close> by auto
qed (auto simp: on_cycle_def)

lemma on_cycle_dom: "on_cycle deps x \<Longrightarrow> x \<in> dom deps"
  unfolding on_cycle_def by (drule tranclpD) (auto simp: edge_def)

text \<open>A set closed under edges keeps what its members reach.\<close>

lemma reach_closed:
  assumes "reach deps x y" "x \<in> A" "\<And>a b. a \<in> A \<Longrightarrow> edge deps a b \<Longrightarrow> b \<in> A"
  shows "y \<in> A"
  using assms(1,2) by (induction rule: rtranclp_induct) (auto intro: assms(3))

subsection \<open>Invariants\<close>

abbreviation seen :: "tarjan \<Rightarrow> string set" where
  "seen st \<equiv> dom (tj_indices st)"

abbreviation closed_part :: "tarjan \<Rightarrow> string set" where
  "closed_part st \<equiv> seen st - set (tj_stack st)"

lemma index_of_low [simp]: "index_of (st\<lparr>tj_low := f\<rparr>) x = index_of st x"
  by (simp add: index_of_def)

text \<open>
  The global invariant, relative to the set \<open>gray\<close> of tickets whose call is in progress. The last
  conjuncts are the heart of the algorithm: on the stack a lower ticket reaches every higher one,
  and every ticket on the stack reaches one in progress that is not above it.
\<close>

definition tj_inv :: "graph \<Rightarrow> string set \<Rightarrow> tarjan \<Rightarrow> bool" where
  "tj_inv deps gray st \<longleftrightarrow>
     seen st \<subseteq> dom deps \<and>
     (\<forall>x i. tj_indices st x = Some i \<longrightarrow> i < tj_index st) \<and>
     set (tj_stack st) \<subseteq> seen st \<and> gray \<subseteq> set (tj_stack st) \<and>
     (\<forall>x. tj_onStack st x \<longleftrightarrow> x \<in> set (tj_stack st)) \<and>
     sorted_wrt (\<lambda>a b. index_of st b < index_of st a) (tj_stack st) \<and>
     (\<forall>x\<in>closed_part st. \<forall>y. edge deps x y \<longrightarrow> y \<in> closed_part st) \<and>
     (\<forall>x\<in>seen st - gray. \<forall>y. edge deps x y \<longrightarrow> y \<in> seen st) \<and>
     (\<forall>x\<in>set (tj_stack st). \<forall>y\<in>set (tj_stack st). index_of st x \<le> index_of st y \<longrightarrow> reach deps x y) \<and>
     (\<forall>x\<in>set (tj_stack st). \<exists>g\<in>gray. index_of st g \<le> index_of st x \<and> reach deps x g) \<and>
     (\<forall>x. tj_inCycle st x = (if x \<in> closed_part st then cycle_of deps x else None))"

lemma tj_invD:
  assumes "tj_inv deps gray st"
  shows "seen st \<subseteq> dom deps"
    and "tj_indices st x = Some i \<Longrightarrow> i < tj_index st"
    and "set (tj_stack st) \<subseteq> seen st" and "gray \<subseteq> set (tj_stack st)"
    and "tj_onStack st x \<longleftrightarrow> x \<in> set (tj_stack st)"
    and "sorted_wrt (\<lambda>a b. index_of st b < index_of st a) (tj_stack st)"
    and "x \<in> closed_part st \<Longrightarrow> edge deps x y \<Longrightarrow> y \<in> closed_part st"
    and "x \<in> seen st - gray \<Longrightarrow> edge deps x y \<Longrightarrow> y \<in> seen st"
    and "x \<in> set (tj_stack st) \<Longrightarrow> y \<in> set (tj_stack st) \<Longrightarrow> index_of st x \<le> index_of st y \<Longrightarrow> reach deps x y"
    and "x \<in> set (tj_stack st) \<Longrightarrow> \<exists>g\<in>gray. index_of st g \<le> index_of st x \<and> reach deps x g"
    and "tj_inCycle st x = (if x \<in> closed_part st then cycle_of deps x else None)"
  using assms unfolding tj_inv_def by blast+

lemma index_of_less: "tj_inv deps gray st \<Longrightarrow> x \<in> seen st \<Longrightarrow> index_of st x < tj_index st"
  by (auto simp: index_of_def dest: tj_invD(2))

text \<open>Before and after one call of \<open>visit\<close>.\<close>

definition visit_pre :: "graph \<Rightarrow> string set \<Rightarrow> string \<Rightarrow> tarjan \<Rightarrow> bool" where
  "visit_pre deps gray v st \<longleftrightarrow>
     tj_inv deps gray st \<and> v \<in> dom deps \<and> v \<notin> seen st \<and> (\<forall>x\<in>set (tj_stack st). reach deps x v)"

definition keeps :: "tarjan \<Rightarrow> tarjan \<Rightarrow> bool" where
  "keeps st st' \<longleftrightarrow> tj_index st \<le> tj_index st' \<and> (\<forall>x\<in>seen st. tj_indices st' x = tj_indices st x \<and> tj_low st' x = tj_low st x)"

definition visit_post :: "graph \<Rightarrow> string set \<Rightarrow> string \<Rightarrow> tarjan \<Rightarrow> tarjan \<Rightarrow> bool" where
  "visit_post deps gray v st st' \<longleftrightarrow>
     tj_inv deps gray st' \<and> v \<in> seen st' \<and> keeps st st' \<and>
     (\<exists>seg. tj_stack st' = seg @ tj_stack st \<and>
        (\<forall>x\<in>set seg. \<forall>y\<in>set (tj_stack st). edge deps x y \<longrightarrow> tj_low st' v \<le> index_of st' y) \<and>
        (if seg = [] then tj_index st \<le> tj_low st' v
         else \<exists>y\<in>set (tj_stack st). index_of st' y = tj_low st' v \<and> reach deps v y))"

text \<open>Inside the call for \<open>v\<close>, entered from \<open>st0\<close>, when the dependencies \<open>done\<close> are processed.\<close>

definition loop_inv :: "graph \<Rightarrow> string set \<Rightarrow> string \<Rightarrow> tarjan \<Rightarrow> string set \<Rightarrow> tarjan \<Rightarrow> bool" where
  "loop_inv deps gray v st0 processed st \<longleftrightarrow>
     tj_inv deps (insert v gray) st \<and> gray \<subseteq> set (tj_stack st0) \<and> keeps st0 st \<and> v \<notin> seen st0 \<and> tj_indices st v = Some (tj_index st0) \<and>
     tj_index st0 < tj_index st \<and>
     (\<exists>seg. tj_stack st = seg @ v # tj_stack st0 \<and>
        (\<forall>x\<in>set seg. \<forall>y\<in>set (tj_stack st0). edge deps x y \<longrightarrow> tj_low st v \<le> index_of st y)) \<and>
     tj_low st v \<le> tj_index st0 \<and>
     (\<exists>y\<in>set (v # tj_stack st0). index_of st y = tj_low st v \<and> reach deps v y) \<and>
     (\<forall>w\<in>processed. deps w \<noteq> None \<longrightarrow> w \<in> seen st \<and> (w \<in> set (tj_stack st0) \<longrightarrow> tj_low st v \<le> index_of st w))"

lemma keeps_refl [simp]: "keeps st st"
  by (simp add: keeps_def)

lemma keeps_seen: "keeps st st' \<Longrightarrow> seen st \<subseteq> seen st'"
  by (auto simp: keeps_def) (metis domI domIff option.exhaust_sel)

lemma keeps_trans: "keeps a b \<Longrightarrow> keeps b c \<Longrightarrow> keeps a c"
  using keeps_seen [of a b] unfolding keeps_def by (metis order_trans subsetD)

lemma keeps_index: "keeps st st' \<Longrightarrow> x \<in> seen st \<Longrightarrow> index_of st' x = index_of st x"
  by (simp add: keeps_def index_of_def)

text \<open>Entering a ticket.\<close>

lemma index_of_enter: "index_of (enter v st) x = (if x = v then tj_index st else index_of st x)"
  by (simp add: index_of_def enter_def)

lemma enter_sel [simp]:
  "tj_stack (enter v st) = v # tj_stack st" "tj_indices (enter v st) = (tj_indices st)(v \<mapsto> tj_index st)"
  "tj_low (enter v st) = (tj_low st)(v := tj_index st)" "tj_index (enter v st) = Suc (tj_index st)"
  "tj_onStack (enter v st) = (tj_onStack st)(v := True)" "tj_inCycle (enter v st) = tj_inCycle st"
  by (simp_all add: enter_def)

lemma enter_inv:
  assumes p: "visit_pre deps gray v st"
  shows "tj_inv deps (insert v gray) (enter v st)"
proof -
  have i: "tj_inv deps gray st" and v: "v \<in> dom deps" "v \<notin> seen st" and r: "\<forall>x\<in>set (tj_stack st). reach deps x v"
    using p by (auto simp: visit_pre_def)
  note I = tj_invD [OF i]
  have vS: "v \<notin> set (tj_stack st)" using I(3) v by blast
  have lt: "index_of st x < tj_index st" if "x \<in> set (tj_stack st)" for x
    using index_of_less [OF i] that I(3) by blast
  have cl: "closed_part (enter v st) = closed_part st" using vS v by auto
  show ?thesis
    unfolding tj_inv_def cl
  proof (intro conjI)
    show "seen (enter v st) \<subseteq> dom deps" using I(1) v by simp
    show "\<forall>x i. tj_indices (enter v st) x = Some i \<longrightarrow> i < tj_index (enter v st)"
      using I(2) by (auto simp: less_Suc_eq)
    show "set (tj_stack (enter v st)) \<subseteq> seen (enter v st)" using I(3) by auto
    show "insert v gray \<subseteq> set (tj_stack (enter v st))" using I(4) by auto
    show "\<forall>x. tj_onStack (enter v st) x = (x \<in> set (tj_stack (enter v st)))" using I(5) by simp
    have "sorted_wrt (\<lambda>a b. index_of (enter v st) b < index_of (enter v st) a) (tj_stack st)"
      by (rule sorted_wrt_mono_rel [OF _ I(6)]) (use vS in \<open>auto simp: index_of_enter\<close>)
    then show "sorted_wrt (\<lambda>a b. index_of (enter v st) b < index_of (enter v st) a) (tj_stack (enter v st))"
      using vS lt by (auto simp: index_of_enter)
    show "\<forall>x\<in>closed_part st. \<forall>y. edge deps x y \<longrightarrow> y \<in> closed_part st" using I(7) by blast
    show "\<forall>x\<in>seen (enter v st) - insert v gray. \<forall>y. edge deps x y \<longrightarrow> y \<in> seen (enter v st)" using I(8) by fastforce
    show "\<forall>x\<in>set (tj_stack (enter v st)). \<forall>y\<in>set (tj_stack (enter v st)).
        index_of (enter v st) x \<le> index_of (enter v st) y \<longrightarrow> reach deps x y"
      using I(9) r vS lt by (auto simp: index_of_enter dest: leD)
    show "\<forall>x\<in>set (tj_stack (enter v st)). \<exists>g\<in>insert v gray. index_of (enter v st) g \<le> index_of (enter v st) x \<and> reach deps x g"
      using I(4,10) vS by (fastforce simp: index_of_enter)
    show "\<forall>x. tj_inCycle (enter v st) x = (if x \<in> closed_part st then cycle_of deps x else None)"
      using I(11) by simp
  qed
qed

lemma enter_loop:
  assumes p: "visit_pre deps gray v st"
  shows "loop_inv deps gray v st {} (enter v st)"
  unfolding loop_inv_def
  using enter_inv [OF p] p tj_invD(4) [of deps gray st] by (auto simp: visit_pre_def keeps_def index_of_enter)

subsection \<open>The loop over dependencies\<close>

lemma tj_inv_low [simp]: "tj_inv deps gray (st\<lparr>tj_low := f\<rparr>) = tj_inv deps gray st"
  by (simp add: tj_inv_def)

lemma loop_invD:
  assumes "loop_inv deps gray v st0 P st"
  shows "tj_inv deps (insert v gray) st" "gray \<subseteq> set (tj_stack st0)" "keeps st0 st" "v \<notin> seen st0"
    "tj_indices st v = Some (tj_index st0)" "tj_index st0 < tj_index st"
    "\<exists>seg. tj_stack st = seg @ v # tj_stack st0 \<and>
        (\<forall>x\<in>set seg. \<forall>y\<in>set (tj_stack st0). edge deps x y \<longrightarrow> tj_low st v \<le> index_of st y)"
    "tj_low st v \<le> tj_index st0"
    "\<exists>y\<in>set (v # tj_stack st0). index_of st y = tj_low st v \<and> reach deps v y"
    "w \<in> P \<Longrightarrow> deps w \<noteq> None \<Longrightarrow> w \<in> seen st"
    "w \<in> P \<Longrightarrow> deps w \<noteq> None \<Longrightarrow> w \<in> set (tj_stack st0) \<Longrightarrow> tj_low st v \<le> index_of st w"
  using assms unfolding loop_inv_def by blast+

lemma loop_index [simp]: "loop_inv deps gray v st0 P st \<Longrightarrow> index_of st v = tj_index st0"
  by (auto simp: index_of_def dest: loop_invD(5))

text \<open>Below \<open>v\<close> on the stack is what was there on entry, and it has the smaller indices.\<close>

lemma loop_below:
  assumes l: "loop_inv deps gray v st0 P st" and y: "y \<in> set (tj_stack st)"
  shows "index_of st y < tj_index st0 \<longleftrightarrow> y \<in> set (tj_stack st0)"
proof -
  obtain seg where seg: "tj_stack st = seg @ v # tj_stack st0" using loop_invD(7) [OF l] by blast
  have s: "sorted_wrt (\<lambda>a b. index_of st b < index_of st a) (seg @ v # tj_stack st0)"
    using tj_invD(6) [OF loop_invD(1) [OF l]] seg by simp
  then show ?thesis using y l unfolding seg by (fastforce simp: sorted_wrt_append dest: less_asym)
qed

lemma decreasing_distinct: "sorted_wrt (\<lambda>a b. (f b :: nat) < f a) xs \<Longrightarrow> distinct xs"
  by (induction xs) auto

lemma loop_seg:
  assumes l: "loop_inv deps gray v st0 P st" and seg: "tj_stack st = seg @ v # tj_stack st0"
  shows "v \<notin> set seg" "v \<notin> set (tj_stack st0)" "set seg \<inter> set (tj_stack st0) = {}" "distinct (seg @ [v])"
proof -
  have s: "sorted_wrt (\<lambda>a b. index_of st b < index_of st a) (seg @ v # tj_stack st0)"
    using tj_invD(6) [OF loop_invD(1) [OF l]] seg by simp
  then have "distinct (seg @ v # tj_stack st0)" by (rule decreasing_distinct)
  then show "v \<notin> set seg" "v \<notin> set (tj_stack st0)" "set seg \<inter> set (tj_stack st0) = {}" "distinct (seg @ [v])" by auto
qed

lemma loop_reach:
  assumes l: "loop_inv deps gray v st0 P st" and x: "x \<in> set (tj_stack st)"
  shows "reach deps x v"
proof -
  note I = tj_invD [OF loop_invD(1) [OF l]]
  obtain g where g: "g \<in> insert v gray" "reach deps x g" using I(10) x by blast
  have v: "v \<in> set (tj_stack st)" using I(4) by blast
  have "reach deps g v"
  proof (cases "g = v")
    case False
    then have "g \<in> set (tj_stack st0)" "g \<in> set (tj_stack st)" using g loop_invD(2) [OF l] I(4) by auto
    then have "index_of st g < index_of st v" using loop_below [OF l, of g] l by simp
    then have "index_of st g \<le> index_of st v" by simp
    then show ?thesis using I(9) v \<open>g \<in> set (tj_stack st)\<close> by blast
  qed simp
  then show ?thesis using g by (meson rtranclp_trans)
qed

lemma loop_child_pre:
  assumes l: "loop_inv deps gray v st0 P st" and w: "edge deps v w" "w \<notin> seen st"
  shows "visit_pre deps (insert v gray) w st"
proof -
  have "\<forall>x\<in>set (tj_stack st). reach deps x w"
    using loop_reach [OF l] w(1) by (meson rtranclp.rtrancl_into_rtrancl)
  moreover have "w \<in> dom deps" using w(1) by (auto simp: edge_def)
  ultimately show ?thesis using w(2) loop_invD(1) [OF l] by (simp add: visit_pre_def)
qed

text \<open>Lowering \<open>low v\<close> to the index of a ticket below, and adding a processed dependency.\<close>

lemma loop_lower:
  assumes l: "loop_inv deps gray v st0 P st" and y: "y \<in> set (tj_stack st)" "reach deps v y" "index_of st y < tj_low st v"
  shows "loop_inv deps gray v st0 P (st\<lparr>tj_low := (tj_low st)(v := index_of st y)\<rparr>)"
proof -
  note L = loop_invD [OF l]
  obtain seg where seg: "tj_stack st = seg @ v # tj_stack st0"
    "\<forall>x\<in>set seg. \<forall>z\<in>set (tj_stack st0). edge deps x z \<longrightarrow> tj_low st v \<le> index_of st z" using L(7) by blast
  have "y \<in> set (tj_stack st0)" using loop_below [OF l y(1)] y(3) L(8) by simp
  moreover have "keeps st0 (st\<lparr>tj_low := (tj_low st)(v := index_of st y)\<rparr>)" using L(3,4) by (auto simp: keeps_def)
  moreover have "\<forall>x\<in>set seg. \<forall>z\<in>set (tj_stack st0). edge deps x z \<longrightarrow> index_of st y \<le> index_of st z"
    using seg(2) y(3) by fastforce
  moreover have "\<forall>w\<in>P. deps w \<noteq> None \<longrightarrow> w \<in> seen st \<and> (w \<in> set (tj_stack st0) \<longrightarrow> index_of st y \<le> index_of st w)"
    using L(10,11) y(3) by fastforce
  moreover have "index_of st y \<le> tj_index st0" using y(3) L(8) by linarith
  ultimately show ?thesis
    unfolding loop_inv_def using L(1,2,4,5,6) seg(1) y(2) by (auto intro!: exI [of _ seg])
qed

lemma loop_processed:
  assumes l: "loop_inv deps gray v st0 P st"
    and w: "deps w \<noteq> None \<Longrightarrow> w \<in> seen st" "deps w \<noteq> None \<Longrightarrow> w \<in> set (tj_stack st0) \<Longrightarrow> tj_low st v \<le> index_of st w"
  shows "loop_inv deps gray v st0 (insert w P) st"
  using assms unfolding loop_inv_def by blast

lemma loop_seen_step:
  assumes l: "loop_inv deps gray v st0 P st" and w: "edge deps v w" "w \<in> seen st"
  shows "loop_inv deps gray v st0 (insert w P)
    (if tj_onStack st w \<and> index_of st w < tj_low st v then st\<lparr>tj_low := (tj_low st)(v := index_of st w)\<rparr> else st)"
proof (cases "tj_onStack st w \<and> index_of st w < tj_low st v")
  case True
  then have "w \<in> set (tj_stack st)" using tj_invD(5) [OF loop_invD(1) [OF l]] by simp
  then have "loop_inv deps gray v st0 P (st\<lparr>tj_low := (tj_low st)(v := index_of st w)\<rparr>)"
    using loop_lower [OF l] True w by blast
  then show ?thesis using True loop_processed w by simp
next
  case False
  have "tj_low st v \<le> index_of st w" if "w \<in> set (tj_stack st0)"
  proof -
    have "w \<in> set (tj_stack st)" using that loop_invD(7) [OF l] by auto
    then show ?thesis using False tj_invD(5) [OF loop_invD(1) [OF l], of w] by auto
  qed
  then have "loop_inv deps gray v st0 (insert w P) st" using loop_processed [OF l] w by blast
  then show ?thesis using False by (simp only: if_False)
qed

lemma loop_visit_step:
  assumes l: "loop_inv deps gray v st0 P st" and w: "edge deps v w" "w \<notin> seen st"
    and post: "visit_post deps (insert v gray) w st st1"
  shows "loop_inv deps gray v st0 (insert w P)
    (if tj_low st1 w < tj_low st1 v then st1\<lparr>tj_low := (tj_low st1)(v := tj_low st1 w)\<rparr> else st1)"
proof -
  note L = loop_invD [OF l]
  note I = tj_invD [OF L(1)]
  obtain seg where seg: "tj_stack st = seg @ v # tj_stack st0"
    "\<forall>x\<in>set seg. \<forall>z\<in>set (tj_stack st0). edge deps x z \<longrightarrow> tj_low st v \<le> index_of st z" using L(7) by blast
  obtain seg1 where s1: "tj_inv deps (insert v gray) st1" "w \<in> seen st1" "keeps st st1" "tj_stack st1 = seg1 @ tj_stack st"
    "\<forall>x\<in>set seg1. \<forall>y\<in>set (tj_stack st). edge deps x y \<longrightarrow> tj_low st1 w \<le> index_of st1 y"
    "if seg1 = [] then tj_index st \<le> tj_low st1 w
     else \<exists>y\<in>set (tj_stack st). index_of st1 y = tj_low st1 w \<and> reach deps w y"
    using post unfolding visit_post_def by blast
  have vs: "v \<in> seen st" using L(5) by blast
  have low: "tj_low st1 v = tj_low st v" "tj_indices st1 v = tj_indices st v" using s1(3) vs by (auto simp: keeps_def)
  have S0: "set (tj_stack st0) \<subseteq> seen st" using seg(1) I(3) by auto
  have ix: "index_of st1 x = index_of st x" if "x \<in> seen st" for x using keeps_index [OF s1(3) that] .
  have wS0: "w \<notin> set (tj_stack st0)" using S0 w(2) by blast
  have le: "tj_low st1 v \<le> tj_low st1 w" if "seg1 = []" using that s1(6) low L(6,8) by simp
  text \<open>The invariant before \<open>low v\<close> is lowered holds for the smaller of the two values.\<close>
  let ?m = "min (tj_low st1 v) (tj_low st1 w)"
  have upd: "(if tj_low st1 w < tj_low st1 v then st1\<lparr>tj_low := (tj_low st1)(v := tj_low st1 w)\<rparr> else st1) =
      st1\<lparr>tj_low := (tj_low st1)(v := ?m)\<rparr>"
    by (simp add: min_def not_less)
  have edges: "?m \<le> index_of st1 y" if "x \<in> set (seg1 @ seg)" "y \<in> set (tj_stack st0)" "edge deps x y" for x y
  proof (cases "x \<in> set seg1")
    case True
    then show ?thesis using s1(5) that seg(1) by (simp add: min.coboundedI2)
  next
    case False
    then have "tj_low st v \<le> index_of st y" using seg(2) that by auto
    moreover have "index_of st1 y = index_of st y" using ix S0 that(2) by blast
    ultimately show ?thesis using low(1) by (simp add: min.coboundedI1)
  qed
  have attained: "\<exists>y\<in>set (v # tj_stack st0). index_of st1 y = ?m \<and> reach deps v y"
  proof (cases "tj_low st1 w < tj_low st1 v")
    case True
    then obtain y where y: "y \<in> set (tj_stack st)" "index_of st1 y = tj_low st1 w" "reach deps w y"
      using s1(6) le by (auto split: if_splits)
    have "index_of st1 y = index_of st y" using ix I(3) y(1) by blast
    then have "index_of st y < tj_index st0" using True y(2) low(1) L(8) by linarith
    then have "y \<in> set (tj_stack st0)" using loop_below [OF l y(1)] by simp
    then show ?thesis using y True w(1) by (auto simp: min_def intro: converse_rtranclp_into_rtranclp)
  next
    case False
    obtain y where y: "y \<in> set (v # tj_stack st0)" "index_of st y = tj_low st v" "reach deps v y" using L(9) by blast
    have "y \<in> seen st" using y(1) S0 vs unfolding list.set(2) by blast
    then have "index_of st1 y = index_of st y" by (rule ix)
    then show ?thesis using y False low(1) by (intro bexI [of _ y]) (simp_all add: min_def)
  qed
  have proc: "u \<in> seen st1 \<and> (u \<in> set (tj_stack st0) \<longrightarrow> ?m \<le> index_of st1 u)" if "u \<in> insert w P" "deps u \<noteq> None" for u
  proof (cases "u = w")
    case True
    then show ?thesis using s1(2) wS0 by simp
  next
    case False
    then have u: "u \<in> P" using that by simp
    have "u \<in> seen st1" using L(10) [OF u that(2)] keeps_seen [OF s1(3)] by blast
    moreover have "?m \<le> index_of st1 u" if "u \<in> set (tj_stack st0)"
    proof -
      have "index_of st1 u = index_of st u" using ix S0 that by blast
      then show ?thesis using L(11) [OF u \<open>deps u \<noteq> None\<close> that] low(1) by (simp add: min.coboundedI1)
    qed
    ultimately show ?thesis by blast
  qed
  have kp: "keeps st0 (st1\<lparr>tj_low := (tj_low st1)(v := ?m)\<rparr>)"
    using keeps_trans [OF L(3) s1(3)] L(4) by (auto simp: keeps_def)
  have idx: "tj_index st0 < tj_index st1" using L(6) s1(3) by (auto simp: keeps_def)
  have "?m \<le> tj_index st0" using low L(8) by (simp add: min.coboundedI1)
  then show ?thesis
    unfolding upd loop_inv_def
    using s1(1) L(2,4) kp low L(5) idx edges attained proc seg(1) s1(4)
    by (auto intro!: exI [of _ "seg1 @ seg"])
qed

text \<open>The whole loop, given that the recursive call meets its contract on smaller rests.\<close>

definition rest :: "graph \<Rightarrow> tarjan \<Rightarrow> nat" where
  "rest deps st = card (dom deps - seen st)"

lemma rest_keeps: "finite (dom deps) \<Longrightarrow> keeps st st' \<Longrightarrow> rest deps st' \<le> rest deps st"
  unfolding rest_def using keeps_seen by (intro card_mono) auto

lemma visit_edges_ok:
  assumes fin: "finite (dom deps)"
    and rec: "\<And>w st. visit_pre deps (insert v gray) w st \<Longrightarrow> rest deps st \<le> n \<Longrightarrow>
      \<exists>st'. rec w st = Some st' \<and> visit_post deps (insert v gray) w st st'"
    and l: "loop_inv deps gray v st0 P st" "rest deps st \<le> n"
    and ws: "\<And>w. w \<in> set ws \<Longrightarrow> deps w \<noteq> None \<Longrightarrow> edge deps v w"
  shows "\<exists>st'. visit_edges rec deps v ws st self = Some (st', self \<or> v \<in> set ws) \<and>
    loop_inv deps gray v st0 (P \<union> set ws) st'"
  using l ws
proof (induction ws arbitrary: st P self)
  case (Cons w ws)
  have goal: ?case if st': "loop_inv deps gray v st0 (insert w P) st'" "rest deps st' \<le> n"
    "visit_edges rec deps v (w # ws) st self = visit_edges rec deps v ws st' (self \<or> w = v)" for st'
    using Cons.IH [OF st'(1,2), of "self \<or> w = v"] Cons.prems(3) st'(3) by (auto simp: ac_simps)
  show ?case
  proof (cases "deps w = None")
    case True
    then show ?thesis using goal [of st] Cons.prems(1,2) loop_processed [of deps gray v st0 P st w] by simp
  next
    case False
    then have e: "edge deps v w" using Cons.prems(3) by simp
    show ?thesis
    proof (cases "w \<in> seen st")
      case True
      let ?st = "if tj_onStack st w \<and> index_of st w < tj_low st v then st\<lparr>tj_low := (tj_low st)(v := index_of st w)\<rparr> else st"
      have "rest deps ?st = rest deps st" by (simp add: rest_def)
      moreover have "visit_edges rec deps v (w # ws) st self = visit_edges rec deps v ws ?st (self \<or> w = v)"
        using False True by (auto simp: Let_def)
      ultimately show ?thesis using goal [OF loop_seen_step [OF Cons.prems(1) e True]] Cons.prems(2) by simp
    next
      case unseen: False
      obtain st1 where st1: "rec w st = Some st1" "visit_post deps (insert v gray) w st st1"
        using rec [OF loop_child_pre [OF Cons.prems(1) e unseen] Cons.prems(2)] by blast
      let ?st = "if tj_low st1 w < tj_low st1 v then st1\<lparr>tj_low := (tj_low st1)(v := tj_low st1 w)\<rparr> else st1"
      have "keeps st st1" using st1(2) by (auto simp: visit_post_def)
      then have "rest deps st1 \<le> n" using rest_keeps [OF fin] Cons.prems(2) order_trans by blast
      then have "rest deps ?st \<le> n" by (simp add: rest_def)
      moreover have "visit_edges rec deps v (w # ws) st self = visit_edges rec deps v ws ?st (self \<or> w = v)"
        using False unseen st1(1) by (auto simp: Let_def)
      ultimately show ?thesis using goal [OF loop_visit_step [OF Cons.prems(1) e unseen st1(2)]] by blast
    qed
  qed
qed auto

subsection \<open>Leaving a ticket\<close>

lemma pop_loop_eq:
  "v \<notin> set seg \<Longrightarrow> pop_loop v (seg @ v # S) on c = Some (S, (\<lambda>x. on x \<and> x \<notin> set seg \<and> x \<noteq> v), c @ seg @ [v])"
  by (induction seg arbitrary: on c) (auto simp: fun_eq_iff)

lemma fold_record: "fold (\<lambda>m cyc. cyc(m \<mapsto> c)) ms f x = (if x \<in> set ms then Some c else f x)"
  by (induction ms arbitrary: f) auto

text \<open>When nothing below is reached, what is above \<open>v\<close> on the stack is its component.\<close>

lemma loop_component:
  assumes l: "loop_inv deps gray v st0 P st" and seg: "tj_stack st = seg @ v # tj_stack st0"
    and P: "\<And>w. edge deps v w \<Longrightarrow> w \<in> P" and low: "tj_low st v = tj_index st0"
  shows "\<And>x y. x \<in> closed_part st \<union> insert v (set seg) \<Longrightarrow> edge deps x y \<Longrightarrow> y \<in> closed_part st \<union> insert v (set seg)"
    and "component deps v = insert v (set seg)"
proof -
  note L = loop_invD [OF l]
  note I = tj_invD [OF L(1)]
  note S = loop_seg [OF l seg]
  have segE: "\<forall>x\<in>set seg. \<forall>z\<in>set (tj_stack st0). edge deps x z \<longrightarrow> tj_low st v \<le> index_of st z"
    using L(7) seg by auto
  have vS: "v \<in> set (tj_stack st)" using seg by simp
  have below: "index_of st y < tj_low st v" if "y \<in> set (tj_stack st0)" for y
    using loop_below [OF l, of y] that seg low by simp
  show cl: "y \<in> closed_part st \<union> insert v (set seg)" if x: "x \<in> closed_part st \<union> insert v (set seg)" and e: "edge deps x y" for x y
  proof (cases "x \<in> closed_part st")
    case True
    then show ?thesis using I(7) e by blast
  next
    case False
    have dy: "deps y \<noteq> None" using e by (simp add: edge_def)
    have "y \<in> seen st \<and> y \<notin> set (tj_stack st0)"
    proof (cases "x = v")
      case True
      then have "y \<in> P" using P e by simp
      then show ?thesis using L(10,11) dy below by (meson leD)
    next
      case xseg: False
      then have "x \<in> set seg" using x False by blast
      moreover then have "x \<in> seen st - insert v gray" using I(3) seg xseg S(3) L(2) by auto
      ultimately show ?thesis using I(8) e segE below by (meson leD)
    qed
    then show ?thesis using seg by auto
  qed
  show "component deps v = insert v (set seg)"
  proof
    show "insert v (set seg) \<subseteq> component deps v"
    proof
      fix x assume x: "x \<in> insert v (set seg)"
      then have xs: "x \<in> set (tj_stack st)" using seg by auto
      have "x \<notin> set (tj_stack st0)" using x S by auto
      then have "index_of st v \<le> index_of st x" using loop_below [OF l xs] l by simp
      then have "reach deps v x" using I(9) vS xs by blast
      then show "x \<in> component deps v" using loop_reach [OF l xs] by (simp add: component_def)
    qed
    show "component deps v \<subseteq> insert v (set seg)"
    proof
      fix x assume x: "x \<in> component deps v"
      then have "x \<in> closed_part st \<union> insert v (set seg)"
        unfolding component_def by (intro reach_closed [of deps v x]) (use cl in blast)+
      moreover have "x \<notin> closed_part st"
      proof
        assume "x \<in> closed_part st"
        then have "v \<in> closed_part st"
          using x I(7) unfolding component_def by (intro reach_closed [of deps x v]) blast+
        then show False using vS by simp
      qed
      ultimately show "x \<in> insert v (set seg)" by blast
    qed
  qed
qed

text \<open>The state after the component of \<open>v\<close> is popped and, when it is a cycle, recorded.\<close>

lemma leave_pop:
  assumes l: "loop_inv deps gray v st0 P st" and P: "\<And>w. edge deps v w \<Longrightarrow> w \<in> P"
    and low: "tj_low st v = tj_index st0" and self: "self \<longleftrightarrow> edge deps v v"
  shows "\<exists>st'. leave v self st = Some st' \<and> tj_stack st' = tj_stack st0 \<and> tj_indices st' = tj_indices st \<and>
    tj_low st' = tj_low st \<and> tj_index st' = tj_index st \<and> (\<forall>x. tj_onStack st' x \<longleftrightarrow> x \<in> set (tj_stack st0)) \<and>
    (\<forall>x. tj_inCycle st' x = (if x \<in> closed_part st' then cycle_of deps x else None))"
proof -
  note L = loop_invD [OF l]
  note I = tj_invD [OF L(1)]
  obtain seg where seg: "tj_stack st = seg @ v # tj_stack st0" using L(7) by blast
  note S = loop_seg [OF l seg]
  have C: "component deps v = insert v (set seg)" using loop_component(2) [OF l seg P low] .
  have pop: "pop_loop v (tj_stack st) (tj_onStack st) [] =
      Some (tj_stack st0, (\<lambda>x. tj_onStack st x \<and> x \<notin> set seg \<and> x \<noteq> v), seg @ [v])"
    using pop_loop_eq [OF S(1)] seg by simp
  let ?c = "sort (seg @ [v])"
  let ?st = "st\<lparr>tj_stack := tj_stack st0, tj_onStack := (\<lambda>x. tj_onStack st x \<and> x \<notin> set seg \<and> x \<noteq> v)\<rparr>"
  let ?cyc = "length (seg @ [v]) > 1 \<or> self"
  let ?st' = "if ?cyc then ?st\<lparr>tj_inCycle := fold (\<lambda>m cyc. cyc(m \<mapsto> ?c)) ?c (tj_inCycle st)\<rparr> else ?st"
  have lv: "leave v self st = Some ?st'" using low l by (simp add: leave_def pop Let_def)
  have cp: "closed_part ?st' = closed_part st \<union> insert v (set seg)"
    using I(3) seg S by auto
  have same: "component deps x = insert v (set seg)" if "x \<in> insert v (set seg)" for x
    using component_eq [of x deps v] that C by simp
  have cyc: "on_cycle deps x \<longleftrightarrow> ?cyc" if x: "x \<in> insert v (set seg)" for x
  proof (cases "seg = []")
    case True
    then have "x = v" "component deps v = {v}" using x C by auto
    then show ?thesis using on_cycle_single self True by simp
  next
    case False
    then obtain s where "s \<in> set seg" by fastforce
    then have "\<exists>y\<in>insert v (set seg). y \<noteq> x" using S(1) by (metis insertCI)
    then have "on_cycle deps x" using on_cycle_component [of _ deps x] same [OF x] by blast
    then show ?thesis using False by simp
  qed
  have sortc: "?c = sorted_list_of_set (insert v (set seg))"
    using S(4) sorted_list_of_set_sort_remdups [of "seg @ [v]"] by (simp add: distinct_remdups_id)
  have rep: "tj_inCycle ?st' x = (if x \<in> closed_part ?st' then cycle_of deps x else None)" for x
  proof (cases "x \<in> insert v (set seg)")
    case True
    then have old: "tj_inCycle st x = None" using I(11) [of x] seg by auto
    have "x \<in> set ?c" using True by auto
    then have "tj_inCycle ?st' x = (if ?cyc then Some ?c else None)" using old by (simp add: fold_record del: set_sort)
    moreover have "cycle_of deps x = (if ?cyc then Some ?c else None)"
      unfolding cycle_of_def cyc [OF True] same [OF True] sortc ..
    ultimately show ?thesis using True unfolding cp by (simp only: Un_iff if_True simp_thms)
  next
    case False
    then have "tj_inCycle ?st' x = tj_inCycle st x" by (simp add: fold_record)
    then show ?thesis unfolding cp using False I(11) [of x] by auto
  qed
  have on: "tj_onStack ?st' x \<longleftrightarrow> x \<in> set (tj_stack st0)" for x
    using I(5) [of x] seg S(2,3) by auto
  show ?thesis using lv rep on by (intro exI [of _ ?st']) simp
qed

lemma loop_out:
  assumes l: "loop_inv deps gray v st0 P st" and P: "\<And>w. edge deps v w \<Longrightarrow> w \<in> P"
    and x: "x \<in> seen st - gray" "edge deps x y"
  shows "y \<in> seen st"
proof (cases "x = v")
  case True
  then show ?thesis using loop_invD(10) [OF l] P x(2) by (auto simp: edge_def)
next
  case False
  then show ?thesis using tj_invD(8) [OF loop_invD(1) [OF l]] x by blast
qed

lemma leave_closed:
  assumes l: "loop_inv deps gray v st0 P st" and P: "\<And>w. edge deps v w \<Longrightarrow> w \<in> P"
    and self: "self \<longleftrightarrow> edge deps v v" and low: "tj_low st v = tj_index st0"
  shows "\<exists>st'. leave v self st = Some st' \<and> visit_post deps gray v st0 st'"
proof -
  note L = loop_invD [OF l]
  note I = tj_invD [OF L(1)]
  obtain seg where seg: "tj_stack st = seg @ v # tj_stack st0" using L(7) by blast
  obtain st' where st': "leave v self st = Some st'" "tj_stack st' = tj_stack st0" "tj_indices st' = tj_indices st"
    "tj_low st' = tj_low st" "tj_index st' = tj_index st" "\<forall>x. tj_onStack st' x \<longleftrightarrow> x \<in> set (tj_stack st0)"
    "\<forall>x. tj_inCycle st' x = (if x \<in> closed_part st' then cycle_of deps x else None)"
    using leave_pop [OF l P low self] by blast
  have ix: "index_of st' = index_of st" using st'(3) by (simp add: index_of_def fun_eq_iff)
  have cp: "closed_part st' = closed_part st \<union> insert v (set seg)"
    using st'(2,3) I(3) seg loop_seg [OF l seg] by auto
  have sub: "set (tj_stack st0) \<subseteq> set (tj_stack st)" using seg by auto
  have gr: "\<exists>g\<in>gray. index_of st g \<le> index_of st x \<and> reach deps x g" if x: "x \<in> set (tj_stack st0)" for x
  proof -
    obtain g where g: "g \<in> insert v gray" "index_of st g \<le> index_of st x" "reach deps x g" using I(10) x sub by blast
    have "index_of st x < index_of st v" using loop_below [OF l, of x] x sub l by auto
    then show ?thesis using g by auto
  qed
  have srt: "sorted_wrt (\<lambda>a b. index_of st b < index_of st a) (tj_stack st0)"
    using I(6) seg by (simp add: sorted_wrt_append)
  have "tj_inv deps gray st'"
    unfolding tj_inv_def cp unfolding st'(2,3,5) ix
  proof (intro conjI)
    show "\<forall>x\<in>closed_part st \<union> insert v (set seg). \<forall>y. edge deps x y \<longrightarrow> y \<in> closed_part st \<union> insert v (set seg)"
      using loop_component(1) [OF l seg P low] by blast
    show "\<forall>x i. tj_indices st x = Some i \<longrightarrow> i < tj_index st" using I(2) by blast
    show "set (tj_stack st0) \<subseteq> seen st" using sub I(3) by blast
    show "\<forall>x\<in>seen st - gray. \<forall>y. edge deps x y \<longrightarrow> y \<in> seen st" using loop_out [OF l P] by blast
    show "\<forall>x\<in>set (tj_stack st0). \<forall>y\<in>set (tj_stack st0). index_of st x \<le> index_of st y \<longrightarrow> reach deps x y"
      using I(9) sub by blast
    show "\<forall>x\<in>set (tj_stack st0). \<exists>g\<in>gray. index_of st g \<le> index_of st x \<and> reach deps x g" using gr by blast
    show "\<forall>x. tj_inCycle st' x = (if x \<in> closed_part st \<union> insert v (set seg) then cycle_of deps x else None)"
      using st'(7) unfolding cp .
  qed (fact I(1) L(2) st'(6) srt)+
  then show ?thesis
    using st' ix L(5) low L(3) unfolding visit_post_def keeps_def by (auto intro!: exI [of _ "[]"])
qed

text \<open>When a lower ticket is reached, the component stays open on the stack.\<close>

lemma leave_open:
  assumes l: "loop_inv deps gray v st0 P st" and P: "\<And>w. edge deps v w \<Longrightarrow> w \<in> P"
    and low: "tj_low st v \<noteq> tj_index st0"
  shows "leave v self st = Some st \<and> visit_post deps gray v st0 st"
proof -
  note L = loop_invD [OF l]
  note I = tj_invD [OF L(1)]
  obtain seg where seg: "tj_stack st = seg @ v # tj_stack st0"
    "\<forall>x\<in>set seg. \<forall>z\<in>set (tj_stack st0). edge deps x z \<longrightarrow> tj_low st v \<le> index_of st z" using L(7) by blast
  have lt: "tj_low st v < tj_index st0" using low L(8) by simp
  obtain y where y: "y \<in> set (v # tj_stack st0)" "index_of st y = tj_low st v" "reach deps v y" using L(9) by blast
  have "y \<noteq> v" using y(2) lt l by auto
  then have yS: "y \<in> set (tj_stack st0)" using y(1) by simp
  then have yst: "y \<in> set (tj_stack st)" using seg(1) by simp
  obtain g where g: "g \<in> gray" "index_of st g \<le> index_of st y" "reach deps v g"
  proof -
    obtain g where "g \<in> insert v gray" "index_of st g \<le> index_of st y" "reach deps y g" using I(10) yst by blast
    moreover have "g \<noteq> v" using calculation(2) y(2) lt l by auto
    ultimately show ?thesis using that y(3) by (meson insertE rtranclp_trans)
  qed
  have gr: "\<exists>g\<in>gray. index_of st g \<le> index_of st x \<and> reach deps x g" if x: "x \<in> set (tj_stack st)" for x
  proof -
    obtain h where h: "h \<in> insert v gray" "index_of st h \<le> index_of st x" "reach deps x h" using I(10) x by blast
    show ?thesis
    proof (cases "h = v")
      case True
      then have "index_of st g \<le> index_of st x" using g(2) y(2) lt h(2) l by simp
      moreover have "reach deps x g" using h(3) True g(3) by (meson rtranclp_trans)
      ultimately show ?thesis using g(1) by blast
    qed (use h in blast)
  qed
  have gst: "gray \<subseteq> set (tj_stack st)" using I(4) by blast
  have out: "\<forall>x\<in>seen st - gray. \<forall>z. edge deps x z \<longrightarrow> z \<in> seen st" using loop_out [OF l P] by blast
  have "tj_inv deps gray st"
    using L(1) gst out gr unfolding tj_inv_def by (elim conjE) (intro conjI, (assumption | blast)+)
  moreover have "tj_low st v \<le> index_of st z" if "x \<in> set (seg @ [v])" "z \<in> set (tj_stack st0)" "edge deps x z" for x z
    using that seg(2) L(11) P by (auto simp: edge_def)
  ultimately have "visit_post deps gray v st0 st"
    using L(5) L(3) seg(1) y yS unfolding visit_post_def by (intro conjI exI [of _ "seg @ [v]"]) auto
  then show ?thesis using lt l by (simp add: leave_def)
qed

lemma leave_ok:
  assumes "loop_inv deps gray v st0 P st" "\<And>w. edge deps v w \<Longrightarrow> w \<in> P" "self \<longleftrightarrow> edge deps v v"
  shows "\<exists>st'. leave v self st = Some st' \<and> visit_post deps gray v st0 st'"
  using leave_closed [OF assms] leave_open [OF assms(1,2)] by blast

subsection \<open>The search\<close>

lemma visit_ok:
  assumes fin: "finite (dom deps)"
  shows "visit_pre deps gray v st \<Longrightarrow> rest deps st \<le> n \<Longrightarrow> \<exists>st'. visit n deps v st = Some st' \<and> visit_post deps gray v st st'"
proof (induction n arbitrary: gray v st)
  case 0
  then have "v \<in> dom deps - seen st" by (simp add: visit_pre_def)
  then have "0 < rest deps st" using fin by (auto simp: rest_def card_gt_0_iff)
  then show ?case using 0 by simp
next
  case (Suc n)
  obtain ws where ws: "deps v = Some ws" using Suc.prems(1) by (auto simp: visit_pre_def)
  have "dom deps - seen (enter v st) \<subset> dom deps - seen st" using Suc.prems(1) by (auto simp: visit_pre_def)
  then have "rest deps (enter v st) < rest deps st" unfolding rest_def using fin by (intro psubset_card_mono) auto
  then have r: "rest deps (enter v st) \<le> n" using Suc.prems(2) by simp
  obtain st1 where st1: "visit_edges (visit n deps) deps v ws (enter v st) False = Some (st1, v \<in> set ws)"
    "loop_inv deps gray v st (set ws) st1"
    using visit_edges_ok [where rec = "visit n deps" and ws = ws and self = False,
        OF fin Suc.IH enter_loop [OF Suc.prems(1)] r] ws by (auto simp: edge_def)
  have "v \<in> set ws \<longleftrightarrow> edge deps v v" "\<And>w. edge deps v w \<Longrightarrow> w \<in> set ws" using ws by (auto simp: edge_def)
  then show ?case using leave_ok [OF st1(2)] st1(1) ws by simp
qed

text \<open>Between two calls of the outer loop nothing is in progress, so the stack is empty.\<close>

lemma idle_stack: "tj_inv deps {} st \<Longrightarrow> tj_stack st = []"
  using tj_invD(10) [of deps "{}" st "hd (tj_stack st)"] by (cases "tj_stack st") auto

lemma visit_all_ok:
  assumes fin: "finite (dom deps)"
  shows "tj_inv deps {} st \<Longrightarrow> set vs \<subseteq> dom deps \<Longrightarrow> card (dom deps) \<le> n \<Longrightarrow>
    \<exists>st'. visit_all n deps vs st = Some st' \<and> tj_inv deps {} st' \<and> seen st \<union> set vs \<subseteq> seen st'"
proof (induction vs arbitrary: st)
  case (Cons v vs)
  show ?case
  proof (cases "v \<in> seen st")
    case True
    obtain st' where st': "visit_all n deps vs st = Some st'" "tj_inv deps {} st'" "seen st \<union> set vs \<subseteq> seen st'"
      using Cons.IH [OF Cons.prems(1)] Cons.prems(2,3) by auto
    moreover have "visit_all n deps (v # vs) st = visit_all n deps vs st" using True by auto
    moreover have "seen st \<union> set (v # vs) \<subseteq> seen st'" using st'(3) True unfolding list.set(2) by blast
    ultimately show ?thesis by (intro exI [of _ st']) simp
  next
    case False
    have "visit_pre deps {} v st"
      using Cons.prems False idle_stack [OF Cons.prems(1)] by (simp add: visit_pre_def)
    moreover have "rest deps st \<le> n"
      using Cons.prems(3) card_mono [OF fin, of "dom deps - seen st"] unfolding rest_def by auto
    ultimately obtain st1 where st1: "visit n deps v st = Some st1" "visit_post deps {} v st st1"
      using visit_ok [OF fin] by blast
    have p: "tj_inv deps {} st1" "v \<in> seen st1" "seen st \<subseteq> seen st1"
      using st1(2) keeps_seen unfolding visit_post_def by blast+
    obtain st' where st': "visit_all n deps vs st1 = Some st'" "tj_inv deps {} st'" "seen st1 \<union> set vs \<subseteq> seen st'"
      using Cons.IH [OF p(1)] Cons.prems(2,3) by auto
    moreover have "visit_all n deps (v # vs) st = visit_all n deps vs st1" using False st1(1) by auto
    moreover have "seen st \<union> set (v # vs) \<subseteq> seen st'" using st'(3) p(2,3) unfolding list.set(2) by blast
    ultimately show ?thesis by (intro exI [of _ st']) simp
  qed
qed auto

lemma init_inv: "tj_inv deps {} tarjan_init"
  by (simp add: tj_inv_def tarjan_init_def)

lemma findCycles_eq:
  assumes ids: "set ids = dom deps" "distinct ids"
  shows "findCycles deps ids = Some (\<lambda>x. if x \<in> dom deps then cycle_of deps x else None)"
proof -
  have fin: "finite (dom deps)" using ids(1) by (metis finite_set)
  have "card (dom deps) \<le> length ids" using ids by (metis card_length)
  then obtain st where st: "visit_all (length ids) deps ids tarjan_init = Some st" "tj_inv deps {} st" "set ids \<subseteq> seen st"
    using visit_all_ok [OF fin init_inv, of ids "length ids"] ids(1) by blast
  have "closed_part st = dom deps" using idle_stack [OF st(2)] tj_invD(1) [OF st(2)] st(3) ids(1) by auto
  then have "tj_inCycle st = (\<lambda>x. if x \<in> dom deps then cycle_of deps x else None)"
    using tj_invD(11) [OF st(2)] by (simp add: fun_eq_iff)
  then show ?thesis using st(1) by (simp add: findCycles_def)
qed

text \<open>
  C32: For an inventory whose ids are its tickets, the search returns (the fuel of one call level per
  ticket is enough), and records for every ticket on a dependency cycle exactly the sorted members
  of its strongly connected component and nothing for any other ticket.\<close>

theorem findCycles_components:
  assumes "set ids = dom deps" "distinct ids"
  shows "\<exists>cyc. findCycles deps ids = Some cyc \<and>
    (\<forall>x. cyc x = (if (edge deps)\<^sup>+\<^sup>+ x x
       then Some (sorted_list_of_set {y. reach deps x y \<and> reach deps y x}) else None))"
proof -
  have "(if x \<in> dom deps then cycle_of deps x else None) =
      (if on_cycle deps x then Some (sorted_list_of_set (component deps x)) else None)" for x
    using on_cycle_dom [of deps x] by (auto simp: cycle_of_def)
  then show ?thesis
    using findCycles_eq [OF assms] unfolding on_cycle_def component_def by (intro exI conjI allI)
qed

definition sample_graph :: graph where
  "sample_graph = [''a'' \<mapsto> [''b''], ''b'' \<mapsto> [''a'', ''x''], ''c'' \<mapsto> [''a'']]"

theorem findCycles_components_witness:
  "\<exists>cyc. findCycles sample_graph [''a'', ''b'', ''c''] = Some cyc \<and>
     (cyc ''b'' \<noteq> None \<longleftrightarrow> (edge sample_graph)\<^sup>+\<^sup>+ ''b'' ''b'') \<and>
     findCycles sample_graph [''a'', ''b'', ''c''] = Some [''a'' \<mapsto> [''a'', ''b''], ''b'' \<mapsto> [''a'', ''b'']]"
proof -
  have "set [''a'', ''b'', ''c''] = dom sample_graph" "distinct [''a'', ''b'', ''c'']"
    by (auto simp: sample_graph_def)
  then obtain cyc where cyc: "findCycles sample_graph [''a'', ''b'', ''c''] = Some cyc"
    "\<forall>x. cyc x = (if (edge sample_graph)\<^sup>+\<^sup>+ x x
       then Some (sorted_list_of_set {y. reach sample_graph x y \<and> reach sample_graph y x}) else None)"
    using findCycles_components by blast
  note cyc(1)
  moreover have "cyc ''b'' \<noteq> None \<longleftrightarrow> (edge sample_graph)\<^sup>+\<^sup>+ ''b'' ''b''"
    using spec [OF cyc(2), of "''b''"] by (cases "(edge sample_graph)\<^sup>+\<^sup>+ ''b'' ''b''") (simp_all only: if_True if_False option.distinct simp_thms)
  moreover have "findCycles sample_graph [''a'', ''b'', ''c''] = Some [''a'' \<mapsto> [''a'', ''b''], ''b'' \<mapsto> [''a'', ''b'']]"
    by (simp add: findCycles_def sample_graph_def tarjan_init_def enter_def leave_def index_of_def Let_def)
  ultimately show ?thesis by blast
qed

end
