(* ===== verification/Inventory.thy ===== *)
theory Inventory
  imports Ticket_Validate Scc "HOL-Library.Product_Lexorder"
begin

text \<open>
  The inventory of a queue (\<^verbatim>\<open>internal/tasks/ticket/lazy.go\<close> and \<^verbatim>\<open>graph.go\<close>): ticket summaries, the
  duplicate and queue checks of its construction, the lazily loaded closed tickets, the structural
  problems of a ticket, the dependency check of a mutation, the planning order and the unmet
  dependencies. The graph search of \<^verbatim>\<open>CheckDependencies\<close> is shown to refuse exactly the edges that
  would close a cycle, so accepted mutations keep the dependency graph acyclic.
\<close>

subsection \<open>Summaries\<close>

record Summary =
  sm_TicketID :: TicketID
  sm_Title :: string
  sm_Status :: string
  sm_ArchivedFrom :: "string option"
  sm_Priority :: string
  sm_Order :: string
  sm_AcceptanceRevision :: string
  sm_Kind :: string
  sm_Owner :: "string option"
  sm_Milestone :: "string option"
  sm_Labels :: "string list"
  sm_RequiredGates :: "string list"
  sm_Dependencies :: "Dependency list"
  sm_UpdatedAt :: string
  sm_CompletedAt :: "string option"

definition SummaryOf :: "Record \<Rightarrow> Summary" where
  "SummaryOf r = \<lparr>sm_TicketID = rec_TicketID r, sm_Title = rec_Title r, sm_Status = rec_Status r,
     sm_ArchivedFrom = rec_ArchivedFrom r, sm_Priority = rec_Priority r, sm_Order = rec_Order r,
     sm_AcceptanceRevision = rec_AcceptanceRevision r, sm_Kind = rec_Kind r, sm_Owner = rec_Owner r,
     sm_Milestone = rec_Milestone r, sm_Labels = rec_Labels r, sm_RequiredGates = rec_RequiredGates r,
     sm_Dependencies = rec_Dependencies r, sm_UpdatedAt = rec_UpdatedAt r,
     sm_CompletedAt = map_option c_RecordedAt (rec_Completion r)\<rparr>"

definition Closed :: "string \<Rightarrow> bool" where
  "Closed status \<longleftrightarrow> status = StatusCompleted \<or> status = StatusArchived"

subsection \<open>The inventory\<close>

text \<open>
  A lazily held ticket is a \<^verbatim>\<open>sync.Once\<close> with its outcome: \<open>None\<close> before the first load. The loader
  reads files, so what it answers at one call is a parameter of that call.
\<close>

record Inventory =
  inv_QueueID :: QueueID
  inv_byID :: "string \<rightharpoonup> Record"
  inv_sum :: "string \<rightharpoonup> Summary"
  inv_lazy :: "string \<rightharpoonup> Record res option"
  inv_ids :: "string list"
  inv_inCycle :: "string \<rightharpoonup> string list"

definition dep_ids :: "Dependency list \<Rightarrow> string list" where
  "dep_ids ds = map (\<lambda>d. t_Raw (d_TicketID d)) ds"

definition sum_graph :: "(string \<rightharpoonup> Summary) \<Rightarrow> graph" where
  "sum_graph sm = (\<lambda>tid. map_option (\<lambda>s. dep_ids (sm_Dependencies s)) (sm tid))"

text \<open>The closure \<^verbatim>\<open>add\<close> of the constructor over its summary map, folded tokens and ids.\<close>

record adding =
  ad_sum :: "string \<rightharpoonup> Summary"
  ad_folded :: "string list"
  ad_ids :: "string list"

definition inv_add :: "QueueID \<Rightarrow> Summary \<Rightarrow> adding \<Rightarrow> adding res" where
  "inv_add queue s a =
     (let raw = t_Raw (sm_TicketID s); f = FoldToken (t_Local (sm_TicketID s))
      in if TicketID_QueueID (sm_TicketID s) \<noteq> q_Raw queue then Inl (Errorf CodeMalformed ''/ticketId'')
         else if ad_sum a raw \<noteq> None then Inl (Errorf CodeDuplicateID ''/ticketId'')
         else if f \<in> set (ad_folded a) then Inl (Errorf CodeDuplicateID ''/ticketId'')
         else Inr \<lparr>ad_sum = (ad_sum a)(raw \<mapsto> s), ad_folded = f # ad_folded a, ad_ids = ad_ids a @ [raw]\<rparr>)"

fun add_all :: "QueueID \<Rightarrow> Summary list \<Rightarrow> adding \<Rightarrow> adding res" where
  "add_all queue [] a = Inr a"
| "add_all queue (s # ss) a = rbind (inv_add queue s a) (add_all queue ss)"

definition no_adding :: adding where
  "no_adding = \<lparr>ad_sum = Map.empty, ad_folded = [], ad_ids = []\<rparr>"

text \<open>\<open>None\<close> stands for a cycle search that does not return; it never happens.\<close>

definition NewLazyInventory :: "QueueID \<Rightarrow> Record list \<Rightarrow> Summary list \<Rightarrow> Inventory res option" where
  "NewLazyInventory queue records closed =
     (if length records + length closed > MaxTicketsPerQueue then Some (Inl (Errorf CodeLimitExceeded ''/''))
      else (case rbind (add_all queue (map SummaryOf records) no_adding) (add_all queue closed) of
          Inl e \<Rightarrow> Some (Inl e)
        | Inr a \<Rightarrow>
            let ids = sort (ad_ids a)
            in map_option (\<lambda>cyc. Inr \<lparr>inv_QueueID = queue,
                 inv_byID = map_of (rev (map (\<lambda>r. (t_Raw (rec_TicketID r), r)) records)),
                 inv_sum = ad_sum a,
                 inv_lazy = map_of (map (\<lambda>s. (t_Raw (sm_TicketID s), None)) closed),
                 inv_ids = ids, inv_inCycle = cyc\<rparr>)
               (findCycles (sum_graph (ad_sum a)) ids)))"

definition NewInventory :: "QueueID \<Rightarrow> Record list \<Rightarrow> Inventory res option" where
  "NewInventory queue records = NewLazyInventory queue records []"

text \<open>
  \<^verbatim>\<open>materialize\<close> and \<^verbatim>\<open>Get\<close>: the outcome with the inventory after the call; \<open>Inl\<close> is the
  \<^verbatim>\<open>MaterializeError\<close> panic, \<open>Inr None\<close> an unknown ticket.
\<close>

definition materialize :: "(Summary \<Rightarrow> Record res) \<Rightarrow> string \<Rightarrow> Inventory \<Rightarrow> (wire_error + Record option) \<times> Inventory" where
  "materialize load tid iv =
     (case inv_lazy iv tid of
        None \<Rightarrow> (Inr None, iv)
      | Some l \<Rightarrow>
          let x = (case l of Some x \<Rightarrow> x | None \<Rightarrow> load (the (inv_sum iv tid)))
          in (map_sum (\<lambda>e. e) Some x, iv\<lparr>inv_lazy := (inv_lazy iv)(tid \<mapsto> Some x)\<rparr>))"

definition inv_Get :: "(Summary \<Rightarrow> Record res) \<Rightarrow> string \<Rightarrow> Inventory \<Rightarrow> (wire_error + Record option) \<times> Inventory" where
  "inv_Get load tid iv =
     (case inv_byID iv tid of Some r \<Rightarrow> (Inr (Some r), iv) | None \<Rightarrow> materialize load tid iv)"

definition inv_Summary :: "Inventory \<Rightarrow> string \<Rightarrow> Summary option" where
  "inv_Summary iv tid = inv_sum iv tid"

definition inv_IDs :: "Inventory \<Rightarrow> string list" where
  "inv_IDs iv = inv_ids iv"

definition inv_Len :: "Inventory \<Rightarrow> nat" where
  "inv_Len iv = length (inv_ids iv)"

definition CycleKey :: "Inventory \<Rightarrow> string \<Rightarrow> string option" where
  "CycleKey iv tid = map_option hd (inv_inCycle iv tid)"

definition CycleMembers :: "Inventory \<Rightarrow> string \<Rightarrow> string list option" where
  "CycleMembers iv tid = inv_inCycle iv tid"

record Problem =
  pb_Code :: string
  pb_TicketID :: string
  pb_Detail :: string

definition Problems :: "Inventory \<Rightarrow> string \<Rightarrow> Problem list" where
  "Problems iv tid =
     (case inv_sum iv tid of
        None \<Rightarrow> []
      | Some s \<Rightarrow>
          map (\<lambda>raw. \<lparr>pb_Code = CodeDependencyMissing, pb_TicketID = raw,
                 pb_Detail = ''dependency '' @ raw @ '' does not exist in the queue''\<rparr>)
            (filter (\<lambda>raw. inv_sum iv raw = None) (dep_ids (sm_Dependencies s))) @
          (case inv_inCycle iv tid of
             Some cyc \<Rightarrow> [\<lparr>pb_Code = CodeCycle, pb_TicketID = [], pb_Detail = ''dependency cycle through '' @ join '', '' cyc\<rparr>]
           | None \<Rightarrow> []))"

subsection \<open>The dependency check of a mutation\<close>

fun check_edges :: "(string \<rightharpoonup> Summary) \<Rightarrow> string \<Rightarrow> nat \<Rightarrow> string list \<Rightarrow> unit res" where
  "check_edges sm self i [] = Inr ()"
| "check_edges sm self i (w # ws) =
     (if w = self then Inl (Errorf CodeCycle (''/dependencies/'' @ idx i))
      else if sm w = None then Inl (Errorf CodeDependencyMissing (''/dependencies/'' @ idx i))
      else check_edges sm self (Suc i) ws)"

text \<open>The search for the proposed ticket; the top of the stack is the head. It answers whether it was met.\<close>

definition pushed :: "graph \<Rightarrow> string \<Rightarrow> string list" where
  "pushed deps v = (case deps v of None \<Rightarrow> [] | Some ws \<Rightarrow> rev ws)"

partial_function (option) dfs :: "graph \<Rightarrow> string \<Rightarrow> string list \<Rightarrow> string list \<Rightarrow> bool option" where
  "dfs deps target visited stack =
     (if stack = [] then Some False
      else if hd stack = target then Some True
      else if hd stack \<in> set visited then dfs deps target visited (tl stack)
      else dfs deps target (hd stack # visited) (pushed deps (hd stack) @ tl stack))"

declare dfs.simps [code]

definition CheckDependencies :: "Inventory \<Rightarrow> Record \<Rightarrow> unit res option" where
  "CheckDependencies iv proposed =
     (let target = t_Raw (rec_TicketID proposed); ws = dep_ids (rec_Dependencies proposed)
      in case check_edges (inv_sum iv) target 0 ws of
           Inl e \<Rightarrow> Some (Inl e)
         | Inr _ \<Rightarrow>
             map_option (\<lambda>met. if met then Inl (Errorf CodeCycle ''/dependencies'') else Inr ())
               (dfs (sum_graph (inv_sum iv)) target [] (rev ws)))"

fun token_loop :: "Inventory \<Rightarrow> string \<Rightarrow> string list \<Rightarrow> unit res" where
  "token_loop iv f [] = Inr ()"
| "token_loop iv f (tid # ids) =
     (if FoldToken (t_Local (sm_TicketID (the (inv_sum iv tid)))) = f then Inl (Errorf CodeDuplicateID ''/ticketId'')
      else token_loop iv f ids)"

definition CheckLocalToken :: "Inventory \<Rightarrow> string \<Rightarrow> unit res" where
  "CheckLocalToken iv loc = token_loop iv (FoldToken loc) (inv_ids iv)"

definition planning_key :: "Inventory \<Rightarrow> string \<Rightarrow> string \<times> int \<times> string" where
  "planning_key iv tid =
     (let s = the (inv_sum iv tid) in (sm_Priority s, Count_Int (sm_Order s), tid))"

definition inv_Sorted :: "Inventory \<Rightarrow> string list" where
  "inv_Sorted iv = sort_key (planning_key iv) (inv_ids iv)"

record UnmetDependency =
  ud_TicketID :: string
  ud_Status :: string

definition done_status :: "Summary \<Rightarrow> bool" where
  "done_status s \<longleftrightarrow> sm_Status s = StatusCompleted \<or> (sm_Status s = StatusArchived \<and> sm_ArchivedFrom s = Some StatusCompleted)"

definition unmet_of :: "Inventory \<Rightarrow> Dependency \<Rightarrow> UnmetDependency list" where
  "unmet_of iv d =
     (if d_Obligation d \<noteq> ''COMPLETED'' then []
      else (case inv_sum iv (t_Raw (d_TicketID d)) of
          None \<Rightarrow> [\<lparr>ud_TicketID = t_Raw (d_TicketID d), ud_Status = []\<rparr>]
        | Some dep \<Rightarrow> if done_status dep then [] else [\<lparr>ud_TicketID = t_Raw (d_TicketID d), ud_Status = sm_Status dep\<rparr>]))"

definition UnmetCompletedDependencies :: "Inventory \<Rightarrow> string \<Rightarrow> UnmetDependency list" where
  "UnmetCompletedDependencies iv tid =
     (case inv_sum iv tid of
        None \<Rightarrow> []
      | Some s \<Rightarrow> sort_key ud_TicketID (concat (map (unmet_of iv) (sm_Dependencies s))))"

subsection \<open>Construction\<close>

definition queue_ok :: "QueueID \<Rightarrow> Summary list \<Rightarrow> bool" where
  "queue_ok queue ss \<longleftrightarrow>
     (\<forall>s\<in>set ss. TicketID_QueueID (sm_TicketID s) = q_Raw queue) \<and>
     distinct (map (\<lambda>s. t_Raw (sm_TicketID s)) ss) \<and> distinct (map (\<lambda>s. FoldToken (t_Local (sm_TicketID s))) ss)"

text \<open>What the summary map, the folded tokens and the ids hold once \<open>ss\<close> are added.\<close>

definition adding_of :: "Summary list \<Rightarrow> adding" where
  "adding_of ss = \<lparr>ad_sum = map_of (rev (map (\<lambda>s. (t_Raw (sm_TicketID s), s)) ss)),
     ad_folded = rev (map (\<lambda>s. FoldToken (t_Local (sm_TicketID s))) ss), ad_ids = map (\<lambda>s. t_Raw (sm_TicketID s)) ss\<rparr>"

lemma adding_of_dom: "ad_sum (adding_of ss) raw \<noteq> None \<longleftrightarrow> raw \<in> set (ad_ids (adding_of ss))"
  by (simp add: adding_of_def map_of_eq_None_iff image_image)

lemma inv_add_of:
  "inv_add queue s (adding_of ss) =
     (if TicketID_QueueID (sm_TicketID s) \<noteq> q_Raw queue then Inl (Errorf CodeMalformed ''/ticketId'')
      else if t_Raw (sm_TicketID s) \<in> t_Raw ` sm_TicketID ` set ss \<or>
              FoldToken (t_Local (sm_TicketID s)) \<in> (\<lambda>s. FoldToken (t_Local (sm_TicketID s))) ` set ss
        then Inl (Errorf CodeDuplicateID ''/ticketId'')
      else Inr (adding_of (ss @ [s])))"
  using adding_of_dom [of ss "t_Raw (sm_TicketID s)"]
  by (auto simp: inv_add_def Let_def adding_of_def image_image)

lemma add_all_append: "add_all queue (xs @ ys) a = rbind (add_all queue xs a) (add_all queue ys)"
proof (induction xs arbitrary: a)
  case (Cons x xs)
  then show ?case by (cases "inv_add queue x a") auto
qed simp

lemma add_all_of:
  "add_all queue ts (adding_of ss) = Inr a \<longleftrightarrow>
     (\<forall>t\<in>set ts. TicketID_QueueID (sm_TicketID t) = q_Raw queue) \<and>
     distinct (map (\<lambda>s. t_Raw (sm_TicketID s)) ts) \<and> distinct (map (\<lambda>s. FoldToken (t_Local (sm_TicketID s))) ts) \<and>
     (t_Raw \<circ> sm_TicketID) ` set ts \<inter> (t_Raw \<circ> sm_TicketID) ` set ss = {} \<and>
     (\<lambda>s. FoldToken (t_Local (sm_TicketID s))) ` set ts \<inter> (\<lambda>s. FoldToken (t_Local (sm_TicketID s))) ` set ss = {} \<and>
     a = adding_of (ss @ ts)"
proof (induction ts arbitrary: ss)
  case (Cons t ts)
  show ?case
    using Cons.IH [of "ss @ [t]"] by (auto simp: inv_add_of image_image)
qed auto

lemma no_adding_of: "no_adding = adding_of []"
  by (simp add: no_adding_def adding_of_def)

lemma add_all_queue:
  "rbind (add_all queue xs no_adding) (add_all queue ys) = Inr a \<longleftrightarrow> queue_ok queue (xs @ ys) \<and> a = adding_of (xs @ ys)"
  unfolding add_all_append [symmetric] no_adding_of add_all_of queue_ok_def by auto

lemma add_all_error: "add_all queue ss a = Inl e \<Longrightarrow> e_Code e \<in> {CodeMalformed, CodeDuplicateID}"
  by (induction ss arbitrary: a) (auto simp: rbind_eq_Inl inv_add_def Let_def split: if_splits)

lemma dom_sum_graph [simp]: "dom (sum_graph sm) = dom sm"
  by (auto simp: sum_graph_def dom_def)

text \<open>The well-formedness of an inventory over the summaries \<open>ss\<close>.\<close>

definition inv_over :: "Summary list \<Rightarrow> Inventory \<Rightarrow> bool" where
  "inv_over ss iv \<longleftrightarrow>
     queue_ok (inv_QueueID iv) ss \<and> inv_sum iv = map_of (map (\<lambda>s. (t_Raw (sm_TicketID s), s)) ss) \<and>
     inv_ids iv = sort (map (\<lambda>s. t_Raw (sm_TicketID s)) ss) \<and>
     inv_inCycle iv = (\<lambda>x. if x \<in> dom (inv_sum iv) then cycle_of (sum_graph (inv_sum iv)) x else None)"

lemma map_of_rev_distinct: "distinct (map fst xs) \<Longrightarrow> map_of (rev xs) = map_of xs"
  by (intro map_of_inject_set [THEN iffD2]) (auto simp: rev_map [symmetric])

lemma adding_of_graph:
  assumes "queue_ok queue ss"
  shows "ad_sum (adding_of ss) = map_of (map (\<lambda>s. (t_Raw (sm_TicketID s), s)) ss)"
    "findCycles (sum_graph (ad_sum (adding_of ss))) (sort (ad_ids (adding_of ss))) =
      Some (\<lambda>x. if x \<in> dom (ad_sum (adding_of ss)) then cycle_of (sum_graph (ad_sum (adding_of ss))) x else None)"
proof -
  have d: "distinct (map (\<lambda>s. t_Raw (sm_TicketID s)) ss)" using assms unfolding queue_ok_def by blast
  show "ad_sum (adding_of ss) = map_of (map (\<lambda>s. (t_Raw (sm_TicketID s), s)) ss)"
    unfolding adding_of_def adding.select_convs by (rule map_of_rev_distinct) (use d in \<open>simp add: comp_def\<close>)
  have dom: "set (sort (ad_ids (adding_of ss))) = dom (sum_graph (ad_sum (adding_of ss)))"
    using adding_of_dom [of ss] by (auto simp: domIff)
  then show "findCycles (sum_graph (ad_sum (adding_of ss))) (sort (ad_ids (adding_of ss))) =
      Some (\<lambda>x. if x \<in> dom (ad_sum (adding_of ss)) then cycle_of (sum_graph (ad_sum (adding_of ss))) x else None)"
    using findCycles_eq [OF dom] d by (simp add: adding_of_def)
qed

lemma NewLazyInventory_ok:
  assumes "length records + length closed \<le> MaxTicketsPerQueue" "queue_ok queue (map SummaryOf records @ closed)"
  shows "\<exists>iv. NewLazyInventory queue records closed = Some (Inr iv) \<and> inv_QueueID iv = queue \<and>
    inv_over (map SummaryOf records @ closed) iv"
proof -
  define ss where "ss = map SummaryOf records @ closed"
  have q: "queue_ok queue ss" using assms(2) by (simp add: ss_def)
  have add: "rbind (add_all queue (map SummaryOf records) no_adding) (add_all queue closed) = Inr (adding_of ss)"
    using add_all_queue assms(2) unfolding ss_def by blast
  show ?thesis
    unfolding NewLazyInventory_def add ss_def [symmetric] using assms(1) q adding_of_graph [OF q]
    by (simp add: inv_over_def cong: if_cong) (simp add: adding_of_def)
qed

lemma NewLazyInventory_refused:
  assumes "length records + length closed \<le> MaxTicketsPerQueue" "\<not> queue_ok queue (map SummaryOf records @ closed)"
  shows "\<exists>e. NewLazyInventory queue records closed = Some (Inl e) \<and> e_Code e \<in> {CodeMalformed, CodeDuplicateID}"
proof -
  obtain e where e: "rbind (add_all queue (map SummaryOf records) no_adding) (add_all queue closed) = Inl e"
    using add_all_queue assms(2) by (metis sum.exhaust)
  then have "e_Code e \<in> {CodeMalformed, CodeDuplicateID}"
    using add_all_error unfolding rbind_eq_Inl by blast
  then show ?thesis using e assms(1) by (simp add: NewLazyInventory_def)
qed

subsection \<open>Lazy loading\<close>

text \<open>A record is loaded at most once: later calls repeat the first answer whatever the loader does.\<close>

lemma inv_Get_once:
  assumes "inv_Get load tid iv = (x, iv')"
  shows "inv_Get load' tid iv' = (x, iv')"
  using assms by (auto simp: inv_Get_def materialize_def Let_def split: option.splits)

lemma inv_Get_keeps:
  assumes "inv_Get load tid iv = (x, iv')"
  shows "inv_sum iv' = inv_sum iv" "inv_ids iv' = inv_ids iv" "inv_inCycle iv' = inv_inCycle iv" "inv_byID iv' = inv_byID iv"
    "inv_QueueID iv' = inv_QueueID iv"
  using assms by (auto simp: inv_Get_def materialize_def Let_def split: option.splits)

subsection \<open>The search of CheckDependencies\<close>

definition link :: "graph \<Rightarrow> string \<Rightarrow> string \<Rightarrow> bool" where
  "link deps x y \<longleftrightarrow> (\<exists>ws. deps x = Some ws \<and> y \<in> set ws)"

lemma link_pushed: "link deps x y \<longleftrightarrow> y \<in> set (pushed deps x)"
  by (cases "deps x") (simp_all add: link_def pushed_def)

text \<open>A path out of a set to a point outside it leaves the set at some first point.\<close>

lemma path_leaves:
  assumes "(link deps)\<^sup>*\<^sup>* x t" "x \<in> A" "t \<notin> A"
  shows "\<exists>a\<in>A. \<exists>b. b \<notin> A \<and> link deps a b \<and> (link deps)\<^sup>*\<^sup>* b t"
  using assms(1,2)
proof (induction rule: converse_rtranclp_induct)
  case base
  then show ?case using assms(3) by simp
next
  case (step y z)
  then show ?case by (cases "z \<in> A") auto
qed

lemma dfs_exact:
  assumes fin: "finite (dom deps)"
  shows "t \<notin> set visited \<Longrightarrow> (\<And>x y. x \<in> set visited \<Longrightarrow> link deps x y \<Longrightarrow> y \<in> set visited \<union> set stack) \<Longrightarrow>
    dfs deps t visited stack = Some (\<exists>s\<in>set stack. (link deps)\<^sup>*\<^sup>* s t)"
proof (induction "(visited, stack)" arbitrary: visited stack
    rule: wf_induct_rule [OF wf_inv_image [OF wf_lex_prod [OF wf_measure [of id] wf_measure [of id]],
      of "\<lambda>(vis, st). (card (dom deps - set vis), length st)"]])
  case 1
  note IH = "1.hyps" and tv = "1.prems"(1) and cl = "1.prems"(2)
  show ?case
  proof (cases stack)
    case Nil
    then show ?thesis by (subst dfs.simps) simp
  next
    case (Cons v rest)
    show ?thesis
    proof (cases "v = t")
      case True
      then show ?thesis using Cons by (subst dfs.simps) auto
    next
      case vt: False
      show ?thesis
      proof (cases "v \<in> set visited")
        case True
        have out: "\<exists>s\<in>set rest. (link deps)\<^sup>*\<^sup>* s t" if "(link deps)\<^sup>*\<^sup>* v t"
          using path_leaves [OF that True tv] cl Cons True by auto
        have "dfs deps t visited rest = Some (\<exists>s\<in>set rest. (link deps)\<^sup>*\<^sup>* s t)"
          by (rule IH) (use tv cl Cons True in auto)
        then show ?thesis using Cons vt True out by (subst dfs.simps) auto
      next
        case False
        let ?st = "pushed deps v @ rest"
        have smaller: "card (dom deps - set (v # visited)) < card (dom deps - set visited) \<or>
            (card (dom deps - set (v # visited)) = card (dom deps - set visited) \<and> length ?st < length stack)"
        proof (cases "deps v")
          case None
          then have "dom deps - set (v # visited) = dom deps - set visited" by auto
          then show ?thesis using None Cons by (simp add: pushed_def)
        next
          case (Some ws)
          then have "dom deps - set (v # visited) \<subset> dom deps - set visited" using False by auto
          then show ?thesis using fin by (intro disjI1 psubset_card_mono) auto
        qed
        have "dfs deps t (v # visited) ?st = Some (\<exists>s\<in>set ?st. (link deps)\<^sup>*\<^sup>* s t)"
        proof (rule IH)
          show "t \<notin> set (v # visited)" using tv vt by auto
          show "y \<in> set (v # visited) \<union> set ?st" if "x \<in> set (v # visited)" "link deps x y" for x y
            using that cl [of x y] Cons by (auto simp: link_pushed)
        qed (use smaller in auto)
        moreover have "(link deps)\<^sup>*\<^sup>* v t \<longleftrightarrow> (\<exists>s\<in>set (pushed deps v). (link deps)\<^sup>*\<^sup>* s t)"
          using vt link_pushed by (metis converse_rtranclpE converse_rtranclp_into_rtranclp)
        ultimately show ?thesis using Cons vt False by (subst dfs.simps) auto
      qed
    qed
  qed
qed

text \<open>Paths to a ticket do not depend on its own edges, so the proposed edges may overlay the old ones.\<close>

lemma link_overlay: "x \<noteq> t \<Longrightarrow> link (deps(t := ws)) x y \<longleftrightarrow> link deps x y"
  by (simp add: link_def)

lemma reach_overlay: "(link deps)\<^sup>*\<^sup>* x t \<longleftrightarrow> (link (deps(t := ws)))\<^sup>*\<^sup>* x t"
proof -
  have "(link (g(t := w')))\<^sup>*\<^sup>* x t" if "(link (g(t := w)))\<^sup>*\<^sup>* x t" for g :: graph and w w'
    using that
  proof (induction rule: converse_rtranclp_induct)
    case (step y z)
    then show ?case
      by (cases "y = t") (simp, metis link_overlay converse_rtranclp_into_rtranclp)
  qed simp
  from this [of deps "deps t" ws] this [of deps ws "deps t"] show ?thesis by auto
qed

lemma link_edge: "link deps x y \<and> deps y \<noteq> None \<longleftrightarrow> edge deps x y"
  by (auto simp: link_def edge_def)

lemma link_path_edges: "(link deps)\<^sup>*\<^sup>* x y \<Longrightarrow> deps y \<noteq> None \<Longrightarrow> reach deps x y"
proof (induction rule: converse_rtranclp_induct)
  case (step y' z)
  then have "deps z \<noteq> None" by (metis converse_rtranclpE link_def option.distinct(1))
  then show ?case using step link_edge by (metis converse_rtranclp_into_rtranclp)
qed simp

lemma edge_path_links: "reach deps x y \<Longrightarrow> (link deps)\<^sup>*\<^sup>* x y"
  by (erule rtranclp_mono [THEN predicate2D, rotated]) (auto simp: link_edge [symmetric])

lemma on_cycle_overlay:
  "on_cycle (deps(t \<mapsto> ws)) t \<longleftrightarrow> (\<exists>w\<in>set ws. (link deps)\<^sup>*\<^sup>* w t)"
proof
  assume "on_cycle (deps(t \<mapsto> ws)) t"
  then obtain w where "edge (deps(t \<mapsto> ws)) t w" "reach (deps(t \<mapsto> ws)) w t"
    unfolding on_cycle_def by (meson tranclpD)
  then show "\<exists>w\<in>set ws. (link deps)\<^sup>*\<^sup>* w t"
    using edge_path_links [of "deps(t \<mapsto> ws)" w t] reach_overlay [of deps w t "Some ws"]
    by (auto simp: edge_def)
next
  assume "\<exists>w\<in>set ws. (link deps)\<^sup>*\<^sup>* w t"
  then obtain w where w: "w \<in> set ws" "(link deps)\<^sup>*\<^sup>* w t" by blast
  then have p: "(link (deps(t \<mapsto> ws)))\<^sup>*\<^sup>* w t" using reach_overlay [of deps w t "Some ws"] by blast
  then have r: "reach (deps(t \<mapsto> ws)) w t" by (rule link_path_edges) simp
  have "(deps(t \<mapsto> ws)) w \<noteq> None"
    using p by (cases rule: converse_rtranclpE) (auto simp: link_def)
  then have "edge (deps(t \<mapsto> ws)) t w" using w(1) by (simp add: edge_def)
  then show "on_cycle (deps(t \<mapsto> ws)) t" unfolding on_cycle_def using r by (rule rtranclp_into_tranclp2)
qed

text \<open>A cycle of the overlaid graph that avoids the proposed ticket was there before.\<close>

lemma on_cycle_old:
  assumes "on_cycle (deps(t \<mapsto> ws)) x" "\<not> on_cycle (deps(t \<mapsto> ws)) t"
  shows "on_cycle deps x"
proof -
  let ?g = "deps(t \<mapsto> ws)"
  have nt: "y \<noteq> t" if "reach ?g x y" "reach ?g y x" for y
    using that assms on_cycle_component [of x ?g y] by (auto simp: component_def)
  have old: "edge deps a b" if "edge ?g a b" "a \<noteq> t" "b \<noteq> t" for a b
    using that by (auto simp: edge_def)
  have "(edge deps)\<^sup>+\<^sup>+ x y" if "(edge ?g)\<^sup>+\<^sup>+ x y" "reach ?g y x" for y
    using that
  proof (induction rule: tranclp_induct)
    case (base y)
    then show ?case using old nt by (metis r_into_rtranclp rtranclp.rtrancl_refl tranclp.r_into_trancl)
  next
    case (step y z)
    have yx: "reach ?g y x" using step.hyps(2) step.prems by (rule converse_rtranclp_into_rtranclp)
    have "reach ?g x y" "reach ?g x z" using step.hyps by (auto dest: tranclp_into_rtranclp)
    then have "edge deps y z" using old step.hyps(2) nt yx step.prems by blast
    then show ?case using step.IH [OF yx] by (rule tranclp.trancl_into_trancl [rotated])
  qed
  then show ?thesis using assms(1) unfolding on_cycle_def by blast
qed

lemma check_edges_Inr: "check_edges sm self i ws = Inr u \<longleftrightarrow> (\<forall>w\<in>set ws. w \<noteq> self \<and> sm w \<noteq> None)"
  by (induction ws arbitrary: i) auto

lemma check_edges_error: "check_edges sm self i ws = Inl e \<Longrightarrow> e_Code e \<in> {CodeCycle, CodeDependencyMissing}"
  by (induction ws arbitrary: i) (auto split: if_splits)

definition proposed_graph :: "Inventory \<Rightarrow> Record \<Rightarrow> graph" where
  "proposed_graph iv r = (sum_graph (inv_sum iv))(t_Raw (rec_TicketID r) \<mapsto> dep_ids (rec_Dependencies r))"

lemma CheckDependencies_eq:
  assumes fin: "finite (dom (inv_sum iv))"
  shows "\<exists>x. CheckDependencies iv r = Some x \<and>
    (x = Inr () \<longleftrightarrow> (\<forall>w\<in>set (dep_ids (rec_Dependencies r)). w \<noteq> t_Raw (rec_TicketID r) \<and> inv_sum iv w \<noteq> None) \<and>
       \<not> on_cycle (proposed_graph iv r) (t_Raw (rec_TicketID r))) \<and>
    (\<forall>e. x = Inl e \<longrightarrow> e_Code e \<in> {CodeCycle, CodeDependencyMissing})"
proof -
  let ?t = "t_Raw (rec_TicketID r)" and ?ws = "dep_ids (rec_Dependencies r)"
  have d: "dfs (sum_graph (inv_sum iv)) ?t [] (rev ?ws) = Some (on_cycle (proposed_graph iv r) ?t)"
    unfolding proposed_graph_def on_cycle_overlay using dfs_exact [of "sum_graph (inv_sum iv)" ?t "[]" "rev ?ws"] fin by simp
  show ?thesis
  proof (cases "check_edges (inv_sum iv) ?t 0 ?ws")
    case (Inl e)
    then have "\<not> (\<forall>w\<in>set ?ws. w \<noteq> ?t \<and> inv_sum iv w \<noteq> None)" using check_edges_Inr [of "inv_sum iv" ?t 0 ?ws] by force
    then show ?thesis using Inl check_edges_error [OF Inl] by (auto simp: CheckDependencies_def Let_def)
  next
    case (Inr u)
    then have "\<forall>w\<in>set ?ws. w \<noteq> ?t \<and> inv_sum iv w \<noteq> None" using check_edges_Inr [of "inv_sum iv" ?t 0 ?ws] by blast
    then show ?thesis using Inr d by (auto simp: CheckDependencies_def Let_def)
  qed
qed

subsection \<open>Lazy and whole inventories\<close>

lemma NewLazyInventory_over:
  assumes "NewLazyInventory queue records closed = Some (Inr iv)"
  shows "inv_over (map SummaryOf records @ closed) iv" "inv_QueueID iv = queue"
    "length records + length closed \<le> MaxTicketsPerQueue"
    "inv_byID iv = map_of (rev (map (\<lambda>r. (t_Raw (rec_TicketID r), r)) records))"
    "inv_lazy iv = map_of (map (\<lambda>s. (t_Raw (sm_TicketID s), None)) closed)"
proof -
  show len: "length records + length closed \<le> MaxTicketsPerQueue"
    using assms by (auto simp: NewLazyInventory_def split: if_splits)
  have "queue_ok queue (map SummaryOf records @ closed)"
    using NewLazyInventory_refused [OF len] assms by force
  then show "inv_over (map SummaryOf records @ closed) iv" "inv_QueueID iv = queue"
    using NewLazyInventory_ok [OF len] assms by force+
  show "inv_byID iv = map_of (rev (map (\<lambda>r. (t_Raw (rec_TicketID r), r)) records))"
    "inv_lazy iv = map_of (map (\<lambda>s. (t_Raw (sm_TicketID s), None)) closed)"
    using assms len by (auto simp: NewLazyInventory_def Let_def split: sum.splits)
qed

lemma inv_over_finite: "inv_over ss iv \<Longrightarrow> finite (dom (inv_sum iv))"
  by (simp add: inv_over_def finite_dom_map_of)

lemma inv_over_unique:
  assumes "inv_over ss a" "inv_over ss b"
  shows "inv_sum a = inv_sum b" "inv_ids a = inv_ids b" "inv_inCycle a = inv_inCycle b"
  using assms by (auto simp: inv_over_def)

lemma SummaryOf_id [simp]: "sm_TicketID (SummaryOf r) = rec_TicketID r"
  by (simp add: SummaryOf_def)

text \<open>Both constructors see the same summaries in the same order.\<close>

lemma NewLazyInventory_same:
  "(case NewLazyInventory queue recs (map SummaryOf recs') of
      Some (Inl e) \<Rightarrow> NewInventory queue (recs @ recs') = Some (Inl e)
    | Some (Inr iv) \<Rightarrow> (\<exists>full. NewInventory queue (recs @ recs') = Some (Inr full) \<and>
        inv_sum full = inv_sum iv \<and> inv_ids full = inv_ids iv \<and> inv_inCycle full = inv_inCycle iv)
    | None \<Rightarrow> False)"
proof (cases "length recs + length recs' \<le> MaxTicketsPerQueue")
  case False
  then show ?thesis by (simp add: NewInventory_def NewLazyInventory_def)
next
  case len: True
  let ?ss = "map SummaryOf recs @ map SummaryOf recs'"
  have add: "rbind (add_all queue (map SummaryOf (recs @ recs')) no_adding) (add_all queue []) =
      rbind (add_all queue (map SummaryOf recs) no_adding) (add_all queue (map SummaryOf recs'))"
    by (cases "add_all queue (map SummaryOf recs @ map SummaryOf recs') no_adding")
      (simp_all add: add_all_append [symmetric])
  show ?thesis
  proof (cases "queue_ok queue ?ss")
    case True
    obtain iv where iv: "NewLazyInventory queue recs (map SummaryOf recs') = Some (Inr iv)" "inv_over ?ss iv"
      using NewLazyInventory_ok [of recs "map SummaryOf recs'"] len True by auto
    obtain full where "NewInventory queue (recs @ recs') = Some (Inr full)" "inv_over ?ss full"
      using NewLazyInventory_ok [of "recs @ recs'" "[]"] len True by (auto simp: NewInventory_def)
    then show ?thesis using iv inv_over_unique [of ?ss full iv] by auto
  next
    case False
    then obtain e where "NewLazyInventory queue recs (map SummaryOf recs') = Some (Inl e)"
      using NewLazyInventory_refused [of recs "map SummaryOf recs'"] len by auto
    then show ?thesis using len add
      by (auto simp: NewInventory_def NewLazyInventory_def Let_def split: sum.splits if_splits)
  qed
qed

lemma map_of_raw:
  assumes "distinct (map f xs)" "x \<in> set xs"
  shows "map_of (map (\<lambda>x. (f x, g x)) xs) (f x) = Some (g x)"
  using assms by (induction xs) (auto simp: image_iff)

text \<open>The loader is asked for the summary of a held ticket and gives back its record.\<close>

lemma lazy_Get_same:
  assumes lz: "NewLazyInventory queue recs (map SummaryOf recs') = Some (Inr iv)"
    and full: "NewInventory queue (recs @ recs') = Some (Inr full)"
    and load: "\<And>r. r \<in> set recs' \<Longrightarrow> load (SummaryOf r) = Inr r"
  shows "fst (inv_Get load tid iv) = fst (inv_Get load' tid full)"
proof -
  note L = NewLazyInventory_over [OF lz]
  note F = NewLazyInventory_over [OF full [unfolded NewInventory_def]]
  let ?raw = "\<lambda>r. t_Raw (rec_TicketID r)"
  have d: "distinct (map ?raw (recs @ recs'))"
    using L(1) by (simp add: inv_over_def queue_ok_def comp_def image_image)
  have sm: "inv_sum iv = map_of (map (\<lambda>r. (?raw r, SummaryOf r)) (recs @ recs'))"
    using L(1) by (simp add: inv_over_def comp_def)
  have by1: "inv_byID iv = map_of (map (\<lambda>r. (?raw r, r)) recs)"
    unfolding L(4) by (rule map_of_rev_distinct) (use d in \<open>simp add: comp_def\<close>)
  have by2: "inv_byID full = map_of (map (\<lambda>r. (?raw r, r)) (recs @ recs'))"
    unfolding F(4) by (rule map_of_rev_distinct) (use d in \<open>simp add: comp_def\<close>)
  have lazy: "inv_lazy iv = map_of (map (\<lambda>r. (?raw r, None)) recs')" "inv_lazy full = Map.empty"
    using L(5) F(5) by (simp_all add: comp_def)
  consider r where "r \<in> set recs" "tid = ?raw r" | r where "r \<in> set recs'" "tid = ?raw r" | "tid \<notin> ?raw ` set (recs @ recs')"
    by auto
  then show ?thesis
  proof cases
    case 1
    then have "inv_byID iv tid = Some r" "inv_byID full tid = Some r"
      unfolding by1 by2 using map_of_raw [of ?raw recs r] map_of_raw [OF d, of r] d by auto
    then show ?thesis by (simp add: inv_Get_def)
  next
    case 2
    then have n: "tid \<notin> ?raw ` set recs" using d by auto
    have "inv_byID iv tid = None" unfolding by1 using n by (auto simp: map_of_eq_None_iff image_image)
    moreover have "inv_lazy iv tid = Some None" unfolding lazy using 2 map_of_raw [of ?raw recs' r "\<lambda>_. None"] d by auto
    moreover have "inv_sum iv tid = Some (SummaryOf r)" unfolding sm using 2 map_of_raw [OF d, of r SummaryOf] by auto
    moreover have "inv_byID full tid = Some r" unfolding by2 using 2 map_of_raw [OF d, of r "\<lambda>r. r"] by auto
    ultimately show ?thesis using load [OF 2(1)] by (simp add: inv_Get_def materialize_def)
  next
    case 3
    then have "inv_byID iv tid = None" "inv_byID full tid = None" "inv_lazy iv tid = None"
      unfolding by1 by2 lazy by (auto simp: map_of_eq_None_iff image_image)
    then show ?thesis using lazy(2) by (simp add: inv_Get_def materialize_def)
  qed
qed

subsection \<open>Properties\<close>

text \<open>
  C33: Building an inventory always returns. It succeeds exactly when the ticket bound holds, every
  ticket is in the queue and no two share an id or a case-folded local token; it then lists the ids
  in byte order without repetition and knows the cycle of every ticket. It fails with
  LIMIT_EXCEEDED, MALFORMED or DUPLICATE_ID otherwise.\<close>

theorem NewLazyInventory_exact:
  "\<exists>x. NewLazyInventory queue records closed = Some x \<and>
     (case x of
        Inr iv \<Rightarrow> length records + length closed \<le> MaxTicketsPerQueue \<and> queue_ok queue (map SummaryOf records @ closed) \<and>
          sorted (inv_ids iv) \<and> distinct (inv_ids iv) \<and> set (inv_ids iv) = dom (inv_sum iv) \<and>
          inv_inCycle iv = cycle_of (sum_graph (inv_sum iv))
      | Inl e \<Rightarrow> e_Code e \<in> {CodeLimitExceeded, CodeMalformed, CodeDuplicateID} \<and>
          \<not> (length records + length closed \<le> MaxTicketsPerQueue \<and> queue_ok queue (map SummaryOf records @ closed)))"
proof -
  let ?ss = "map SummaryOf records @ closed"
  consider "length records + length closed > MaxTicketsPerQueue"
    | "length records + length closed \<le> MaxTicketsPerQueue" "queue_ok queue ?ss"
    | "length records + length closed \<le> MaxTicketsPerQueue" "\<not> queue_ok queue ?ss"
    by linarith
  then show ?thesis
  proof cases
    case 1
    then show ?thesis by (simp add: NewLazyInventory_def)
  next
    case 2
    then obtain iv where iv: "NewLazyInventory queue records closed = Some (Inr iv)" "inv_over ?ss iv"
      using NewLazyInventory_ok by blast
    have "distinct (map (\<lambda>s. t_Raw (sm_TicketID s)) ?ss)" using 2(2) unfolding queue_ok_def by blast
    then have "sorted (inv_ids iv)" "distinct (inv_ids iv)" "set (inv_ids iv) = dom (inv_sum iv)"
      using iv(2) unfolding inv_over_def by (simp_all add: dom_map_of_conv_image_fst image_image image_Un Un_commute)
    moreover have "inv_inCycle iv = cycle_of (sum_graph (inv_sum iv))"
      using iv(2) on_cycle_dom [of "sum_graph (inv_sum iv)"] by (auto simp: inv_over_def cycle_of_def fun_eq_iff)
    ultimately show ?thesis using iv(1) 2 by simp
  next
    case 3
    then show ?thesis using NewLazyInventory_refused [OF 3] by auto
  qed
qed

text \<open>
  C23: The dependency check of a mutation always returns; it accepts a proposed record exactly when
  every dependency names another ticket of the queue and the graph with the proposed edges has no
  cycle through the ticket, and it refuses with CYCLE or DEPENDENCY_MISSING.\<close>

theorem CheckDependencies_exact:
  assumes "NewLazyInventory queue records closed = Some (Inr iv)"
  shows "\<exists>x. CheckDependencies iv r = Some x \<and>
    (x = Inr () \<longleftrightarrow> (\<forall>w\<in>set (dep_ids (rec_Dependencies r)). w \<noteq> t_Raw (rec_TicketID r) \<and> inv_sum iv w \<noteq> None) \<and>
       \<not> on_cycle (proposed_graph iv r) (t_Raw (rec_TicketID r))) \<and>
    (\<forall>e. x = Inl e \<longrightarrow> e_Code e \<in> {CodeCycle, CodeDependencyMissing})"
  by (rule CheckDependencies_eq [OF inv_over_finite [OF NewLazyInventory_over(1) [OF assms]]])

definition sample_queue :: QueueID where
  "sample_queue = \<lparr>q_Raw = ''queue:a:q'', q_Authority = ''a'', q_Queue = ''q''\<rparr>"

lemma sample_queue_ok: "queue_ok sample_queue [SummaryOf sample_record]"
  by (simp add: queue_ok_def sample_queue_def sample_record_def TicketID_QueueID_def)

theorem CheckDependencies_exact_witness:
  "\<exists>iv. NewLazyInventory sample_queue [sample_record] [] = Some (Inr iv) \<and>
     (\<exists>x. CheckDependencies iv sample_record = Some x \<and> (\<forall>e. x = Inl e \<longrightarrow> e_Code e \<in> {CodeCycle, CodeDependencyMissing}))"
proof -
  obtain iv where iv: "NewLazyInventory sample_queue [sample_record] [] = Some (Inr iv)"
    using NewLazyInventory_ok [of "[sample_record]" "[]" sample_queue] sample_queue_ok by (auto simp: MaxTicketsPerQueue_def)
  show ?thesis using CheckDependencies_exact [OF iv, of sample_record] iv by blast
qed

text \<open>
  C24: Accepted mutations keep the dependency graph acyclic: when no ticket of the inventory is on a
  cycle and the check accepts a proposed record, no ticket is on a cycle of the graph in which the
  record replaces or joins the ticket's entry.\<close>

theorem CheckDependencies_acyclic:
  assumes "NewLazyInventory queue records closed = Some (Inr iv)" "\<forall>tid. inv_inCycle iv tid = None"
    and "CheckDependencies iv r = Some (Inr ())"
  shows "\<not> on_cycle (proposed_graph iv r) x"
proof
  assume c: "on_cycle (proposed_graph iv r) x"
  note ov = NewLazyInventory_over(1) [OF assms(1)]
  have "\<not> on_cycle (proposed_graph iv r) (t_Raw (rec_TicketID r))"
    using CheckDependencies_eq [OF inv_over_finite [OF ov], of r] assms(3) by auto
  then have old: "on_cycle (sum_graph (inv_sum iv)) x" using on_cycle_old c unfolding proposed_graph_def by blast
  then have "x \<in> dom (inv_sum iv)" by (metis on_cycle_dom dom_sum_graph)
  then have "inv_inCycle iv x = cycle_of (sum_graph (inv_sum iv)) x" using ov by (simp add: inv_over_def)
  then show False using assms(2) old by (simp add: cycle_of_def)
qed

theorem CheckDependencies_acyclic_witness:
  "\<exists>iv. NewLazyInventory sample_queue [sample_record] [] = Some (Inr iv) \<and>
     CheckDependencies iv sample_record = Some (Inr ()) \<and> \<not> on_cycle (proposed_graph iv sample_record) ''ticket:a:q:T1''"
proof -
  obtain iv where iv: "NewLazyInventory sample_queue [sample_record] [] = Some (Inr iv)" "inv_over [SummaryOf sample_record] iv"
    using NewLazyInventory_ok [of "[sample_record]" "[]" sample_queue] sample_queue_ok by (auto simp: MaxTicketsPerQueue_def)
  have none: "dep_ids (rec_Dependencies sample_record) = []" by (simp add: sample_record_def zero_Record_def dep_ids_def)
  have no_edge: "\<not> edge (sum_graph (inv_sum iv)) x y" for x y
    using iv(2) none by (auto simp: inv_over_def edge_def sum_graph_def SummaryOf_def)
  then have "\<not> on_cycle (sum_graph (inv_sum iv)) x" for x
    unfolding on_cycle_def by (meson tranclpD)
  then have "\<forall>tid. inv_inCycle iv tid = None" using iv(2) by (simp add: inv_over_def cycle_of_def)
  moreover have c: "CheckDependencies iv sample_record = Some (Inr ())"
    unfolding CheckDependencies_def Let_def none by (simp add: dfs.simps)
  ultimately show ?thesis using CheckDependencies_acyclic [OF iv(1)] iv(1) by blast
qed

text \<open>
  C34: An inventory that holds closed tickets as summaries is the whole inventory: it is refused for
  the same reason or has the same summaries, ids and cycles, and with a loader that returns the
  record of a summary every ticket reads the same. A record is loaded once: whatever a later loader
  would return, a second read repeats the first answer.\<close>

theorem lazy_inventory_refines:
  assumes load: "\<forall>r\<in>set recs'. load (SummaryOf r) = Inr r"
  shows "(case NewLazyInventory queue recs (map SummaryOf recs') of
      None \<Rightarrow> False
    | Some (Inl e) \<Rightarrow> NewInventory queue (recs @ recs') = Some (Inl e)
    | Some (Inr iv) \<Rightarrow> (\<exists>full. NewInventory queue (recs @ recs') = Some (Inr full) \<and>
        inv_sum full = inv_sum iv \<and> inv_ids full = inv_ids iv \<and> inv_inCycle full = inv_inCycle iv \<and>
        (\<forall>tid. fst (inv_Get load tid iv) = fst (inv_Get load' tid full)) \<and>
        (\<forall>tid. inv_Get load' tid (snd (inv_Get load tid iv)) = inv_Get load tid iv)))"
proof (cases "NewLazyInventory queue recs (map SummaryOf recs')")
  case None
  then show ?thesis using NewLazyInventory_same [of queue recs recs'] by simp
next
  case (Some x)
  show ?thesis
  proof (cases x)
    case (Inl e)
    then show ?thesis using Some NewLazyInventory_same [of queue recs recs'] by simp
  next
    case (Inr iv)
    obtain full where full: "NewInventory queue (recs @ recs') = Some (Inr full)" "inv_sum full = inv_sum iv"
      "inv_ids full = inv_ids iv" "inv_inCycle full = inv_inCycle iv"
      using Some Inr NewLazyInventory_same [of queue recs recs'] by auto
    have "fst (inv_Get load tid iv) = fst (inv_Get load' tid full)" for tid
      by (rule lazy_Get_same [OF _ full(1)]) (use Some Inr load in auto)
    moreover have "inv_Get load' tid (snd (inv_Get load tid iv)) = inv_Get load tid iv" for tid
      using inv_Get_once [of load tid iv "fst (inv_Get load tid iv)" "snd (inv_Get load tid iv)" load'] by simp
    ultimately show ?thesis using Some Inr full by auto
  qed
qed

theorem lazy_inventory_refines_witness:
  "\<exists>iv full. NewLazyInventory sample_queue [] [SummaryOf sample_record] = Some (Inr iv) \<and>
     NewInventory sample_queue [sample_record] = Some (Inr full) \<and> inv_ids full = inv_ids iv"
proof -
  obtain iv where iv: "NewLazyInventory sample_queue [] [SummaryOf sample_record] = Some (Inr iv)"
    using NewLazyInventory_ok [of "[]" "[SummaryOf sample_record]" sample_queue] sample_queue_ok
    by (auto simp: MaxTicketsPerQueue_def)
  show ?thesis
    using lazy_inventory_refines [of "[sample_record]" "\<lambda>_. Inr sample_record" sample_queue "[]" "\<lambda>_. Inr sample_record"] iv
    by auto
qed

end
