(* ===== verification/Ticket_View.thy ===== *)
theory Ticket_View
  imports Inventory Results
begin

text \<open>
  Derived eligibility (\<^verbatim>\<open>internal/tasks/ticket/view.go\<close>): the read-only description of one ticket with
  its blockers, unknowns and next action. The oracles for gates and live attempts belong to other
  packages and are functions of the context. An unobserved fact is neither a blocker nor a
  satisfied check, and the closed value sets of the facet summary are shown to cover what a view
  reports.
\<close>

subsection \<open>Observations and context\<close>

datatype Observation = Satisfied | Unsatisfied | NotObserved

type_synonym gate_oracle = "TicketID \<Rightarrow> string \<Rightarrow> string \<Rightarrow> Observation"
type_synonym attempt_oracle = "string \<Rightarrow> Observation"

definition NoEvidence_GatePassed :: gate_oracle where
  "NoEvidence_GatePassed dep gateID acceptanceRevision = NotObserved"

definition NoEvidence_LiveAttempt :: attempt_oracle where
  "NoEvidence_LiveAttempt ticketID = NotObserved"

record LoopHold =
  lh_Signal :: string
  lh_AcceptanceRevision :: string
  lh_Generations :: "string list"
  lh_Limit :: string
  lh_ProgressSignal :: string

definition LoopHold_Detail :: "LoopHold \<Rightarrow> string" where
  "LoopHold_Detail h =
     ''no-progress loop '' @ lh_Signal h @ '' at acceptanceRevision '' @ lh_AcceptanceRevision h @ '': generations '' @
     join '','' (lh_Generations h) @ '' exceed the policy bound '' @ lh_Limit h @
     (if lh_ProgressSignal h \<noteq> [] then '' (progress signal '' @ lh_ProgressSignal h @ '')'' else [])"

record Context =
  ctx_CanonicalWriter :: string
  ctx_SerialFallback :: string
  ctx_Gates :: "gate_oracle option"
  ctx_Attempts :: "attempt_oracle option"
  ctx_Stage :: string
  ctx_Loop :: "LoopHold option"

definition ctx_gates :: "Context \<Rightarrow> gate_oracle" where
  "ctx_gates ctx = (case ctx_Gates ctx of None \<Rightarrow> NoEvidence_GatePassed | Some g \<Rightarrow> g)"

definition ctx_attempts :: "Context \<Rightarrow> attempt_oracle" where
  "ctx_attempts ctx = (case ctx_Attempts ctx of None \<Rightarrow> NoEvidence_LiveAttempt | Some a \<Rightarrow> a)"

record Blocker =
  bl_Code :: string
  bl_TicketID :: string
  bl_Detail :: string

definition blocker :: "string \<Rightarrow> string \<Rightarrow> string \<Rightarrow> Blocker" where
  "blocker code tid detail = \<lparr>bl_Code = code, bl_TicketID = tid, bl_Detail = detail\<rparr>"

lemma blocker_sel [simp]:
  "bl_Code (blocker c t d) = c" "bl_TicketID (blocker c t d) = t" "bl_Detail (blocker c t d) = d"
  by (simp_all add: blocker_def)

definition EligibilityBlocked :: string where "EligibilityBlocked = ''BLOCKED''"
definition EligibilityUnknown :: string where "EligibilityUnknown = ''UNKNOWN''"

record View =
  v_Record :: "Record option"
  v_Tracked :: string
  v_IntentChecks :: string
  v_Eligibility :: string
  v_Blockers :: "Blocker list"
  v_Unknowns :: "Blocker list"
  v_Advisories :: "Blocker list"
  v_CurrentAttempt :: Observation
  v_GateResults :: Observation
  v_Publication :: Observation
  v_NextAction :: string
  v_AlternativeActions :: "string list option"
  v_SuggestedEvidence :: "string list option"
  v_Untrusted :: bool

definition NextActionCompleteManual :: string where
  "NextActionCompleteManual = ''complete-manual''"

definition ActionClaimScopeFromDiff :: string where
  "ActionClaimScopeFromDiff = ''claim --scope-from-diff''"

definition OfferCompletion :: "View \<Rightarrow> string list \<Rightarrow> View \<times> bool" where
  "OfferCompletion v evidence =
     (if evidence = [] \<or> v_Record v = None \<or> rec_Status (the (v_Record v)) \<noteq> StatusOpen \<or> v_NextAction v \<noteq> ''admit'' \<or>
         v_Blockers v \<noteq> [] \<or> v_Unknowns v \<noteq> []
      then (v, False)
      else (v\<lparr>v_NextAction := NextActionCompleteManual, v_SuggestedEvidence := Some evidence\<rparr>, True))"

subsection \<open>Grants and escalations\<close>

definition grantedThroughCompletion :: "string list" where
  "grantedThroughCompletion = [''RUN'', ''COMPLETE'']"

fun grant_loop :: "string \<Rightarrow> string \<Rightarrow> Approval list \<Rightarrow> bool \<Rightarrow> bool \<Rightarrow> bool \<times> bool" where
  "grant_loop acc op [] granted revoked = (granted, revoked)"
| "grant_loop acc op (a # as) granted revoked =
     (if a_Operation a = op \<and> a_TargetRevision a = acc
      then (if a_Revoked a then grant_loop acc op as granted True else grant_loop acc op as True revoked)
      else grant_loop acc op as granted revoked)"

definition grantState :: "Record \<Rightarrow> string \<Rightarrow> bool \<times> bool" where
  "grantState r op = grant_loop (rec_AcceptanceRevision r) op (rec_Approvals r) False False"

definition MissingGrants :: "Record \<Rightarrow> string list" where
  "MissingGrants r =
     (if rec_ExecutionClass r \<noteq> ''APPROVAL_REQUIRED'' then []
      else filter (\<lambda>op. \<not> fst (grantState r op)) grantedThroughCompletion)"

definition hold_entry :: "EscalationRef \<Rightarrow> EscalationHoldEntry" where
  "hold_entry e = \<lparr>eh_RequestID = es_RequestID e, eh_AcceptanceRevision = es_AcceptanceRevision e,
     eh_Kind = es_Kind e, eh_State = es_State e\<rparr>"

definition EscalationPending :: "Record \<Rightarrow> string list" where
  "EscalationPending r =
     (case rec_Escalations r of
        None \<Rightarrow> []
      | Some refs \<Rightarrow> fst (wire_EscalationPending (rec_AcceptanceRevision r) (map hold_entry (ers_Entries refs))))"

subsection \<open>The checks, in order\<close>

definition holdIDs :: "Record \<Rightarrow> string" where
  "holdIDs r = join '', '' (map h_HoldID (rec_Holds r))"

definition status_blockers :: "Record \<Rightarrow> Blocker list" where
  "status_blockers r =
     (if rec_Status r = StatusOpen then []
      else if rec_Status r = StatusHeld then [blocker CodeTicketHeld [] (''ticket is HELD by '' @ holdIDs r)]
      else [blocker CodeTicketState []
        (''status '' @ rec_Status r @ '' is not OPEN'' @
         (if Closed (rec_Status r)
          then ''; intent checks are admission checks, so a closed ticket fails this one by its status alone: the completion itself is not in question, and reopen is only for rework''
          else []))])"

definition escalation_blockers :: "Record \<Rightarrow> Blocker list" where
  "escalation_blockers r =
     (let ids = EscalationPending r
      in if ids \<noteq> [] then [blocker CodeEscalationPending [] (''escalation questions pending: '' @ join '','' ids)] else [])"

definition loop_blockers :: "Record \<Rightarrow> Context \<Rightarrow> Blocker list" where
  "loop_blockers r ctx =
     (case ctx_Loop ctx of
        Some h \<Rightarrow> if lh_AcceptanceRevision h = rec_AcceptanceRevision r then [blocker CodeLoopDetected [] (LoopHold_Detail h)] else []
      | None \<Rightarrow> [])"

definition problem_blockers :: "Inventory \<Rightarrow> string \<Rightarrow> Blocker list" where
  "problem_blockers iv tid = map (\<lambda>p. blocker (pb_Code p) (pb_TicketID p) (pb_Detail p)) (Problems iv tid)"

definition gate_name :: "string option \<Rightarrow> string" where
  "gate_name g = (case g of Some x \<Rightarrow> x | None \<Rightarrow> [])"

text \<open>One dependency: its certain blockers and its unobserved facts.\<close>

definition dep_checks :: "Inventory \<Rightarrow> Context \<Rightarrow> Dependency \<Rightarrow> Blocker list \<times> Blocker list" where
  "dep_checks iv ctx d =
     (case inv_sum iv (t_Raw (d_TicketID d)) of
        None \<Rightarrow> ([], [])
      | Some dep \<Rightarrow>
          let raw = t_Raw (sm_TicketID dep); gate = gate_name (d_GateID d)
          in if d_Obligation d = ''COMPLETED'' then
               (if done_status dep then ([], [])
                else ([blocker CodeDependencyUnsatisfied raw (''dependency '' @ raw @ '' is '' @ sm_Status dep @ '', obligation COMPLETED'')], []))
             else if d_Obligation d = ''GATE_PASSED'' then
               (case ctx_gates ctx (sm_TicketID dep) gate (sm_AcceptanceRevision dep) of
                  Satisfied \<Rightarrow> ([], [])
                | Unsatisfied \<Rightarrow> ([blocker CodeDependencyUnsatisfied raw
                    (''gate '' @ gate @ '' of '' @ raw @ '' has no PASSED result at acceptanceRevision '' @ sm_AcceptanceRevision dep)], [])
                | NotObserved \<Rightarrow> ([], [blocker CodeDependencyUnsatisfied raw
                    (''gate '' @ gate @ '' of '' @ raw @ '': result NOT_OBSERVED (no journal evidence available to this reader)'')]))
             else ([], []))"

definition prereq_checks :: "Inventory \<Rightarrow> Context \<Rightarrow> Prerequisite \<Rightarrow> Blocker list \<times> Blocker list" where
  "prereq_checks iv ctx p =
     (if \<not> PrerequisiteApplies p (ctx_Stage ctx) then ([], [])
      else
        let scope = '' (execution prerequisite for stages '' @ join '','' (p_Stages p) @ '')''; want = t_Raw (p_TicketID p)
        in case inv_sum iv want of
             None \<Rightarrow> ([blocker CodePrerequisiteUnsatisfied want (''prerequisite '' @ want @ '' does not exist in the queue'' @ scope)], [])
           | Some pre \<Rightarrow>
               let raw = t_Raw (sm_TicketID pre); gate = gate_name (p_GateID p)
               in if p_Obligation p = ''COMPLETED'' then
                    (if done_status pre then ([], [])
                     else ([blocker CodePrerequisiteUnsatisfied raw
                       (''prerequisite '' @ raw @ '' is '' @ sm_Status pre @ '', obligation COMPLETED'' @ scope)], []))
                  else if p_Obligation p = ''GATE_PASSED'' then
                    (case ctx_gates ctx (sm_TicketID pre) gate (sm_AcceptanceRevision pre) of
                       Satisfied \<Rightarrow> ([], [])
                     | Unsatisfied \<Rightarrow> ([blocker CodePrerequisiteUnsatisfied raw
                         (''prerequisite gate '' @ gate @ '' of '' @ raw @ '' has no PASSED result at acceptanceRevision '' @
                          sm_AcceptanceRevision pre @ scope)], [])
                     | NotObserved \<Rightarrow> ([], [blocker CodePrerequisiteUnsatisfied raw
                         (''prerequisite gate '' @ gate @ '' of '' @ raw @ '': result NOT_OBSERVED (no journal evidence available to this reader)'' @ scope)]))
                  else ([], []))"

definition class_blockers :: "Record \<Rightarrow> Blocker list" where
  "class_blockers r =
     (if rec_ExecutionClass r = ''AUTONOMOUS'' then []
      else if rec_ExecutionClass r = ''APPROVAL_REQUIRED'' then
        (case grantState r ''RUN'' of (granted, revoked) \<Rightarrow>
           if granted then []
           else
             let through = ''; grants missing through completion: '' @ join '','' (MissingGrants r)
             in if revoked
                then [blocker CodeApprovalRevoked [] (''the RUN grant at acceptanceRevision '' @ rec_AcceptanceRevision r @ '' is revoked'' @ through)]
                else [blocker CodeApprovalMissing [] (''no RUN grant at acceptanceRevision '' @ rec_AcceptanceRevision r @ through)])
      else [blocker CodeTicketState [] (''executionClass '' @ rec_ExecutionClass r @ '' is never autonomously eligible'')])"

definition effect_blockers :: "Record \<Rightarrow> Blocker list" where
  "effect_blockers r =
     (if ef_ExternalUnbounded (rec_Effects r) then [blocker CodeExternalUnbounded [] ''effects.externalUnbounded is true''] else [])"

definition view_advisories :: "Record \<Rightarrow> Context \<Rightarrow> Blocker list" where
  "view_advisories r ctx =
     (if ef_Coverage (rec_Effects r) \<noteq> ''QUALIFIED'' \<and> ctx_SerialFallback ctx \<noteq> ''WHOLE_REPOSITORY''
      then [blocker CodeCoverageUnknown [] (''effects.coverage is '' @ ef_Coverage (rec_Effects r) @
        '' and policy serialFallback is not WHOLE_REPOSITORY; a claim without --scope reserves WHOLE_REPOSITORY'')]
      else [])"

definition import_blockers :: "Record \<Rightarrow> Context \<Rightarrow> Blocker list" where
  "import_blockers r ctx =
     (if s_Kind (rec_Source r) = ''IMPORT'' \<and> ctx_CanonicalWriter ctx \<noteq> ''NATIVE''
      then [blocker CodeCutoverMissing [] (''imported record while canonicalWriter is '' @ ctx_CanonicalWriter ctx)] else [])"

definition attempt_checks :: "string \<Rightarrow> Context \<Rightarrow> Blocker list \<times> Blocker list \<times> Observation" where
  "attempt_checks tid ctx =
     (case ctx_attempts ctx tid of
        Satisfied \<Rightarrow> ([blocker CodeAttemptLive [] ''an attempt is live''], [], Satisfied)
      | Unsatisfied \<Rightarrow> ([], [], Unsatisfied)
      | NotObserved \<Rightarrow> ([], [blocker CodeAttemptLive [] ''attempt liveness NOT_OBSERVED (no journal available to this reader)''], NotObserved))"

definition view_blockers :: "Inventory \<Rightarrow> string \<Rightarrow> Context \<Rightarrow> Record \<Rightarrow> Blocker list" where
  "view_blockers iv tid ctx r =
     status_blockers r @ escalation_blockers r @ loop_blockers r ctx @ problem_blockers iv tid @
     concat (map (\<lambda>d. fst (dep_checks iv ctx d)) (rec_Dependencies r)) @
     concat (map (\<lambda>p. fst (prereq_checks iv ctx p)) (rec_ExecutionPrerequisites r)) @
     class_blockers r @ effect_blockers r @ import_blockers r ctx @ fst (attempt_checks tid ctx)"

definition view_unknowns :: "Inventory \<Rightarrow> string \<Rightarrow> Context \<Rightarrow> Record \<Rightarrow> Blocker list" where
  "view_unknowns iv tid ctx r =
     concat (map (\<lambda>d. snd (dep_checks iv ctx d)) (rec_Dependencies r)) @
     concat (map (\<lambda>p. snd (prereq_checks iv ctx p)) (rec_ExecutionPrerequisites r)) @
     fst (snd (attempt_checks tid ctx))"

definition nextAction :: "Record \<Rightarrow> Blocker list \<Rightarrow> Blocker list \<Rightarrow> string" where
  "nextAction r blockers unknowns =
     (if rec_Status r = StatusDraft then ''refine''
      else if rec_Status r = StatusHeld then ''release-hold''
      else if rec_Status r = StatusCompleted then ''reopen''
      else if rec_Status r = StatusArchived then ''restore''
      else (case blockers of
          [] \<Rightarrow> if list_ex (\<lambda>u. bl_Code u = CodePrerequisiteUnsatisfied) unknowns then ''wait-dependency'' else ''admit''
        | b # _ \<Rightarrow>
            let c = bl_Code b
            in if c = CodeDependencyMissing \<or> c = CodeCycle then ''set-dependencies''
               else if c = CodeDependencyUnsatisfied \<or> c = CodePrerequisiteUnsatisfied then ''wait-dependency''
               else if c = CodeApprovalMissing \<or> c = CodeApprovalRevoked then ''grant-approval''
               else if c = CodeCoverageUnknown \<or> c = CodeExternalUnbounded then ''set-effects''
               else if c = CodeCutoverMissing then ''cutover''
               else if c = CodeAttemptLive then ''wait-attempt''
               else if c = CodeEscalationPending then ''answer''
               else if c = CodeLoopDetected then ''reopen''
               else ''refine''))"

definition coverageOnly :: "Record \<Rightarrow> Blocker list \<Rightarrow> Blocker list \<Rightarrow> bool" where
  "coverageOnly r blockers advisories \<longleftrightarrow>
     (if rec_Status r \<noteq> StatusOpen \<or> length blockers \<noteq> 0 \<or> length advisories = 0 then False
      else list_all (\<lambda>a. bl_Code a = CodeCoverageUnknown) advisories)"

definition view_of :: "Inventory \<Rightarrow> string \<Rightarrow> Context \<Rightarrow> Record \<Rightarrow> View" where
  "view_of iv tid ctx r =
     (let blockers = view_blockers iv tid ctx r; unknowns = view_unknowns iv tid ctx r; advisories = view_advisories r ctx;
          v = \<lparr>v_Record = Some r,
               v_Tracked = (if rec_ShadowOverlay r then ''SHADOW'' else if s_Kind (rec_Source r) = ''IMPORT'' then ''IMPORT'' else ''NATIVE''),
               v_IntentChecks = (if blockers = [] then ''PASSED'' else ''FAILED''),
               v_Eligibility = (if blockers = [] then EligibilityUnknown else EligibilityBlocked),
               v_Blockers = blockers, v_Unknowns = unknowns, v_Advisories = advisories,
               v_CurrentAttempt = snd (snd (attempt_checks tid ctx)), v_GateResults = NotObserved, v_Publication = NotObserved,
               v_NextAction = nextAction r blockers unknowns, v_AlternativeActions = None, v_SuggestedEvidence = None,
               v_Untrusted = True\<rparr>
      in if v_NextAction v = ''admit'' \<and> coverageOnly r blockers advisories
         then v\<lparr>v_NextAction := ''set-effects'', v_AlternativeActions := Some [ActionClaimScopeFromDiff]\<rparr>
         else v)"

text \<open>\<^verbatim>\<open>View\<close>: the record is read through the inventory, which may load it (\<open>Inl\<close> is the panic).\<close>

definition inv_View :: "(Summary \<Rightarrow> Record res) \<Rightarrow> string \<Rightarrow> Context \<Rightarrow> Inventory \<Rightarrow> (wire_error + View option) \<times> Inventory" where
  "inv_View load tid ctx iv =
     (case inv_Get load tid iv of
        (Inl e, iv') \<Rightarrow> (Inl e, iv')
      | (Inr None, iv') \<Rightarrow> (Inr None, iv')
      | (Inr (Some r), iv') \<Rightarrow> (Inr (Some (view_of iv' tid ctx r)), iv'))"

definition ClosedView :: "Summary \<Rightarrow> string \<times> string" where
  "ClosedView s = (EligibilityBlocked, nextAction (zero_Record\<lparr>rec_Status := sm_Status s\<rparr>) [] [])"

subsection \<open>What the checks mean over the records of a queue\<close>

definition find_ticket :: "Record list \<Rightarrow> TicketID \<Rightarrow> Record option" where
  "find_ticket recs tid = find (\<lambda>r. t_Raw (rec_TicketID r) = t_Raw tid) recs"

text \<open>The three-valued state of an obligation on another ticket.\<close>

definition obligation_state :: "Record list \<Rightarrow> Context \<Rightarrow> TicketID \<Rightarrow> string \<Rightarrow> string option \<Rightarrow> Observation" where
  "obligation_state recs ctx tid obl gate =
     (case find_ticket recs tid of
        None \<Rightarrow> Unsatisfied
      | Some s \<Rightarrow>
          if obl = ''COMPLETED'' then
            (if rec_Status s = StatusCompleted \<or> rec_Status s = StatusArchived \<and> rec_ArchivedFrom s = Some StatusCompleted
             then Satisfied else Unsatisfied)
          else if obl = ''GATE_PASSED'' then ctx_gates ctx (rec_TicketID s) (gate_name gate) (rec_AcceptanceRevision s)
          else Satisfied)"

definition dep_state :: "Record list \<Rightarrow> Context \<Rightarrow> Dependency \<Rightarrow> Observation" where
  "dep_state recs ctx d = obligation_state recs ctx (d_TicketID d) (d_Obligation d) (d_GateID d)"

definition prereq_state :: "Record list \<Rightarrow> Context \<Rightarrow> Prerequisite \<Rightarrow> Observation" where
  "prereq_state recs ctx p =
     (if PrerequisiteApplies p (ctx_Stage ctx) then obligation_state recs ctx (p_TicketID p) (p_Obligation p) (p_GateID p)
      else Satisfied)"

definition granted_at :: "Record \<Rightarrow> string \<Rightarrow> bool" where
  "granted_at r op \<longleftrightarrow>
     list_ex (\<lambda>a. a_Operation a = op \<and> a_TargetRevision a = rec_AcceptanceRevision r \<and> \<not> a_Revoked a) (rec_Approvals r)"

definition question_pending :: "Record \<Rightarrow> bool" where
  "question_pending r \<longleftrightarrow>
     (case rec_Escalations r of None \<Rightarrow> False
      | Some refs \<Rightarrow> list_ex (\<lambda>e. es_State e = ''OPEN'' \<and> es_Kind e \<in> {''decision'', ''scope'', ''blocked''} \<and>
          es_AcceptanceRevision e = rec_AcceptanceRevision r) (ers_Entries refs))"

definition loop_held :: "Record \<Rightarrow> Context \<Rightarrow> bool" where
  "loop_held r ctx \<longleftrightarrow> (case ctx_Loop ctx of None \<Rightarrow> False | Some h \<Rightarrow> lh_AcceptanceRevision h = rec_AcceptanceRevision r)"

definition record_graph :: "Record list \<Rightarrow> graph" where
  "record_graph recs = map_of (map (\<lambda>r. (t_Raw (rec_TicketID r), dep_ids (rec_Dependencies r))) recs)"

text \<open>The admission conditions of one record that no fact known to the reader contradicts.\<close>

definition intent_ready :: "Record list \<Rightarrow> Context \<Rightarrow> Record \<Rightarrow> bool" where
  "intent_ready recs ctx r \<longleftrightarrow>
     rec_Status r = StatusOpen \<and> \<not> question_pending r \<and> \<not> loop_held r ctx \<and>
     \<not> on_cycle (record_graph recs) (t_Raw (rec_TicketID r)) \<and>
     list_all (\<lambda>d. dep_state recs ctx d \<noteq> Unsatisfied) (rec_Dependencies r) \<and>
     list_all (\<lambda>p. prereq_state recs ctx p \<noteq> Unsatisfied) (rec_ExecutionPrerequisites r) \<and>
     (rec_ExecutionClass r = ''AUTONOMOUS'' \<or> rec_ExecutionClass r = ''APPROVAL_REQUIRED'' \<and> granted_at r ''RUN'') \<and>
     \<not> ef_ExternalUnbounded (rec_Effects r) \<and>
     (s_Kind (rec_Source r) = ''IMPORT'' \<longrightarrow> ctx_CanonicalWriter ctx = ''NATIVE'') \<and>
     ctx_attempts ctx (t_Raw (rec_TicketID r)) \<noteq> Satisfied"

definition all_observed :: "Record list \<Rightarrow> Context \<Rightarrow> Record \<Rightarrow> bool" where
  "all_observed recs ctx r \<longleftrightarrow>
     list_all (\<lambda>d. dep_state recs ctx d \<noteq> NotObserved) (rec_Dependencies r) \<and>
     list_all (\<lambda>p. prereq_state recs ctx p \<noteq> NotObserved) (rec_ExecutionPrerequisites r) \<and>
     ctx_attempts ctx (t_Raw (rec_TicketID r)) \<noteq> NotObserved"

subsection \<open>The checks decide them\<close>

lemma grant_loop_eq:
  "grant_loop acc op as g rv =
     (g \<or> list_ex (\<lambda>a. a_Operation a = op \<and> a_TargetRevision a = acc \<and> \<not> a_Revoked a) as,
      rv \<or> list_ex (\<lambda>a. a_Operation a = op \<and> a_TargetRevision a = acc \<and> a_Revoked a) as)"
  by (induction as arbitrary: g rv) auto

lemma grantState_granted: "fst (grantState r op) \<longleftrightarrow> granted_at r op"
  by (simp add: grantState_def grant_loop_eq granted_at_def)

lemma EscalationPending_none: "EscalationPending r = [] \<longleftrightarrow> \<not> question_pending r"
proof (cases "rec_Escalations r")
  case (Some refs)
  let ?S = "{eh_RequestID e |e. e \<in> set (map hold_entry (ers_Entries refs)) \<and> holds_at (rec_AcceptanceRevision r) e}"
  have fin: "finite ?S" by simp
  have "EscalationPending r = take EscalationMaxCurrentOpen (sorted_list_of_set ?S)"
    using Some by (simp add: EscalationPending_def wire_EscalationPending_eq Let_def)
  moreover have "EscalationMaxCurrentOpen \<noteq> 0" by (simp add: EscalationMaxCurrentOpen_def)
  ultimately have "EscalationPending r = [] \<longleftrightarrow> ?S = {}"
    using fin by (simp add: sorted_list_of_set_eq_Nil_iff)
  also have "\<dots> \<longleftrightarrow> (\<forall>e\<in>set (ers_Entries refs). \<not> holds_at (rec_AcceptanceRevision r) (hold_entry e))"
    by auto
  also have "\<dots> \<longleftrightarrow> \<not> question_pending r"
    using Some by (simp add: question_pending_def list_ex_iff hold_entry_def holds_at_def)
  finally show ?thesis .
qed (simp add: EscalationPending_def question_pending_def)

lemma status_blockers_none: "status_blockers r = [] \<longleftrightarrow> rec_Status r = StatusOpen"
  by (simp add: status_blockers_def)

lemma class_blockers_none:
  "class_blockers r = [] \<longleftrightarrow>
     rec_ExecutionClass r = ''AUTONOMOUS'' \<or> rec_ExecutionClass r = ''APPROVAL_REQUIRED'' \<and> granted_at r ''RUN''"
  by (auto simp: class_blockers_def Let_def grantState_granted [symmetric] split: prod.splits)

text \<open>The summary map of an inventory over records.\<close>

lemma inv_sum_records:
  assumes "inv_over (map SummaryOf recs) iv"
  shows "inv_sum iv raw = map_option SummaryOf (find (\<lambda>r. t_Raw (rec_TicketID r) = raw) recs)"
proof -
  have "map_of (map (\<lambda>s. (t_Raw (sm_TicketID s), s)) (map SummaryOf recs)) raw =
      map_option SummaryOf (find (\<lambda>r. t_Raw (rec_TicketID r) = raw) recs)"
    by (induction recs) auto
  then show ?thesis using assms by (simp add: inv_over_def)
qed

lemma record_graph_eq:
  assumes "inv_over (map SummaryOf recs) iv"
  shows "sum_graph (inv_sum iv) = record_graph recs"
proof -
  have "map_option (\<lambda>s. dep_ids (sm_Dependencies s)) (map_of (map (\<lambda>s. (t_Raw (sm_TicketID s), s)) (map SummaryOf recs)) raw) =
      record_graph recs raw" for raw
    by (induction recs) (auto simp: record_graph_def SummaryOf_def)
  then show ?thesis using assms by (auto simp: inv_over_def sum_graph_def)
qed

lemma dep_checks_state:
  assumes "inv_over (map SummaryOf recs) iv"
  shows "fst (dep_checks iv ctx d) = [] \<longleftrightarrow> find_ticket recs (d_TicketID d) = None \<or> dep_state recs ctx d \<noteq> Unsatisfied"
    "snd (dep_checks iv ctx d) = [] \<longleftrightarrow> dep_state recs ctx d \<noteq> NotObserved"
  unfolding dep_checks_def dep_state_def obligation_state_def inv_sum_records [OF assms] find_ticket_def
  by (auto simp: Let_def done_status_def SummaryOf_def split: option.splits Observation.splits)

lemma prereq_checks_state:
  assumes "inv_over (map SummaryOf recs) iv"
  shows "fst (prereq_checks iv ctx p) = [] \<longleftrightarrow> prereq_state recs ctx p \<noteq> Unsatisfied"
    "snd (prereq_checks iv ctx p) = [] \<longleftrightarrow> prereq_state recs ctx p \<noteq> NotObserved"
  unfolding prereq_checks_def prereq_state_def obligation_state_def inv_sum_records [OF assms] find_ticket_def
  by (auto simp: Let_def done_status_def SummaryOf_def split: option.splits Observation.splits)

lemma dep_state_missing: "find_ticket recs (d_TicketID d) = None \<Longrightarrow> dep_state recs ctx d = Unsatisfied"
  by (simp add: dep_state_def obligation_state_def)

lemma queue_distinct:
  assumes "inv_over (map SummaryOf recs) iv"
  shows "distinct (map (\<lambda>r. t_Raw (rec_TicketID r)) recs)"
  using assms by (simp add: inv_over_def queue_ok_def comp_def)

lemma find_distinct:
  assumes "distinct (map f xs)" "x \<in> set xs"
  shows "find (\<lambda>y. f y = f x) xs = Some x"
  using assms by (induction xs) (auto simp: image_iff)

lemma Problems_none:
  assumes ov: "inv_over (map SummaryOf recs) iv" and r: "r \<in> set recs"
  shows "Problems iv (t_Raw (rec_TicketID r)) = [] \<longleftrightarrow>
    (\<forall>d\<in>set (rec_Dependencies r). find_ticket recs (d_TicketID d) \<noteq> None) \<and>
    \<not> on_cycle (record_graph recs) (t_Raw (rec_TicketID r))"
proof -
  let ?id = "t_Raw (rec_TicketID r)"
  have sm: "inv_sum iv ?id = Some (SummaryOf r)"
    using find_distinct [OF queue_distinct [OF ov] r] by (simp add: inv_sum_records [OF ov])
  have cyc: "inv_inCycle iv ?id = cycle_of (record_graph recs) ?id"
    using ov sm unfolding record_graph_eq [OF ov, symmetric] by (simp add: inv_over_def domIff)
  have deps: "sm_Dependencies (SummaryOf r) = rec_Dependencies r" by (simp add: SummaryOf_def)
  have "filter (\<lambda>raw. inv_sum iv raw = None) (dep_ids (rec_Dependencies r)) = [] \<longleftrightarrow>
      (\<forall>d\<in>set (rec_Dependencies r). find_ticket recs (d_TicketID d) \<noteq> None)"
    by (auto simp: filter_empty_conv dep_ids_def inv_sum_records [OF ov] find_ticket_def)
  then show ?thesis
    unfolding Problems_def sm by (simp add: cyc deps cycle_of_def)
qed

lemma attempt_checks_none:
  "fst (attempt_checks tid ctx) = [] \<longleftrightarrow> ctx_attempts ctx tid \<noteq> Satisfied"
  "fst (snd (attempt_checks tid ctx)) = [] \<longleftrightarrow> ctx_attempts ctx tid \<noteq> NotObserved"
  "snd (snd (attempt_checks tid ctx)) = ctx_attempts ctx tid"
  by (simp_all add: attempt_checks_def split: Observation.splits)

lemma view_blockers_none:
  assumes ov: "inv_over (map SummaryOf recs) iv" and r: "r \<in> set recs"
  shows "view_blockers iv (t_Raw (rec_TicketID r)) ctx r = [] \<longleftrightarrow> intent_ready recs ctx r"
proof -
  have deps: "(\<forall>d\<in>set (rec_Dependencies r). find_ticket recs (d_TicketID d) \<noteq> None) \<and>
      (\<forall>d\<in>set (rec_Dependencies r). fst (dep_checks iv ctx d) = []) \<longleftrightarrow>
      list_all (\<lambda>d. dep_state recs ctx d \<noteq> Unsatisfied) (rec_Dependencies r)"
    unfolding list_all_iff dep_checks_state(1) [OF ov] using dep_state_missing by blast
  have prereqs: "(\<forall>p\<in>set (rec_ExecutionPrerequisites r). fst (prereq_checks iv ctx p) = []) \<longleftrightarrow>
      list_all (\<lambda>p. prereq_state recs ctx p \<noteq> Unsatisfied) (rec_ExecutionPrerequisites r)"
    unfolding list_all_iff prereq_checks_state(1) [OF ov] ..
  have esc: "escalation_blockers r = [] \<longleftrightarrow> \<not> question_pending r"
    by (simp add: escalation_blockers_def Let_def EscalationPending_none)
  have loop: "loop_blockers r ctx = [] \<longleftrightarrow> \<not> loop_held r ctx"
    by (simp add: loop_blockers_def loop_held_def split: option.splits)
  have prob: "problem_blockers iv (t_Raw (rec_TicketID r)) = [] \<longleftrightarrow> Problems iv (t_Raw (rec_TicketID r)) = []"
    by (simp add: problem_blockers_def)
  have eff: "effect_blockers r = [] \<longleftrightarrow> \<not> ef_ExternalUnbounded (rec_Effects r)" by (simp add: effect_blockers_def)
  have imp: "import_blockers r ctx = [] \<longleftrightarrow> (s_Kind (rec_Source r) = ''IMPORT'' \<longrightarrow> ctx_CanonicalWriter ctx = ''NATIVE'')"
    by (simp add: import_blockers_def)
  show ?thesis
    unfolding view_blockers_def intent_ready_def append_is_Nil_conv concat_eq_Nil_conv set_map ball_simps
      status_blockers_none esc loop prob Problems_none [OF ov r] prereqs class_blockers_none eff imp attempt_checks_none
      deps [symmetric]
    by blast
qed

lemma view_unknowns_none:
  assumes ov: "inv_over (map SummaryOf recs) iv"
  shows "view_unknowns iv (t_Raw (rec_TicketID r)) ctx r = [] \<longleftrightarrow> all_observed recs ctx r"
  unfolding view_unknowns_def all_observed_def append_is_Nil_conv concat_eq_Nil_conv set_map ball_simps list_all_iff
    dep_checks_state(2) [OF ov] prereq_checks_state(2) [OF ov] attempt_checks_none ..

lemma inv_View_records:
  assumes iv: "NewInventory queue recs = Some (Inr iv)" and r: "r \<in> set recs"
  shows "inv_View load (t_Raw (rec_TicketID r)) ctx iv = (Inr (Some (view_of iv (t_Raw (rec_TicketID r)) ctx r)), iv)"
    and "inv_over (map SummaryOf recs) iv"
proof -
  note mk = NewLazyInventory_over [OF iv [unfolded NewInventory_def], simplified]
  show ov: "inv_over (map SummaryOf recs) iv" by (rule mk(1))
  have "inv_byID iv (t_Raw (rec_TicketID r)) = Some r"
    using map_of_raw [OF queue_distinct [OF ov] r, of "\<lambda>r. r"] queue_distinct [OF ov]
    by (simp add: mk(4) map_of_rev_distinct comp_def)
  then show "inv_View load (t_Raw (rec_TicketID r)) ctx iv = (Inr (Some (view_of iv (t_Raw (rec_TicketID r)) ctx r)), iv)"
    by (simp add: inv_View_def inv_Get_def)
qed

lemma view_of_sel:
  "v_Blockers (view_of iv tid ctx r) = view_blockers iv tid ctx r" "v_Unknowns (view_of iv tid ctx r) = view_unknowns iv tid ctx r"
  "v_Eligibility (view_of iv tid ctx r) = (if view_blockers iv tid ctx r = [] then EligibilityUnknown else EligibilityBlocked)"
  "v_IntentChecks (view_of iv tid ctx r) = (if view_blockers iv tid ctx r = [] then ''PASSED'' else ''FAILED'')"
  "v_Record (view_of iv tid ctx r) = Some r" "v_CurrentAttempt (view_of iv tid ctx r) = ctx_attempts ctx tid"
  "v_Advisories (view_of iv tid ctx r) = view_advisories r ctx"
  by (simp_all add: view_of_def Let_def attempt_checks_none)

lemma view_of_next:
  "v_NextAction (view_of iv tid ctx r) =
     (let act = nextAction r (view_blockers iv tid ctx r) (view_unknowns iv tid ctx r)
      in if act = ''admit'' \<and> coverageOnly r (view_blockers iv tid ctx r) (view_advisories r ctx) then ''set-effects'' else act)"
  by (simp add: view_of_def Let_def)

subsection \<open>Properties\<close>

text \<open>
  C30: The view of a ticket of a queue is BLOCKED exactly when one of the admission conditions is
  known to fail and UNKNOWN otherwise, never more: the ticket is OPEN, has no pending question and no
  loop hold at its acceptance revision, is on no dependency cycle, no dependency or applicable
  execution prerequisite is missing or known to be unmet, it is autonomous or holds an unrevoked RUN
  grant at its revision, its effects are bounded, an import has a native writer and no attempt is
  known to be live. The list of unknowns is empty exactly when every fact it asked for was observed.\<close>

theorem View_exact:
  assumes "NewInventory queue recs = Some (Inr iv)" "r \<in> set recs"
  shows "\<exists>v. inv_View load (t_Raw (rec_TicketID r)) ctx iv = (Inr (Some v), iv) \<and> v_Record v = Some r \<and>
    v_Eligibility v = (if intent_ready recs ctx r then ''UNKNOWN'' else ''BLOCKED'') \<and>
    v_IntentChecks v = (if intent_ready recs ctx r then ''PASSED'' else ''FAILED'') \<and>
    (v_Blockers v = [] \<longleftrightarrow> intent_ready recs ctx r) \<and> (v_Unknowns v = [] \<longleftrightarrow> all_observed recs ctx r)"
proof -
  note view = inv_View_records [OF assms]
  show ?thesis
    unfolding view(1) using view_blockers_none [OF view(2) assms(2)] view_unknowns_none [OF view(2)]
    by (simp add: view_of_sel EligibilityUnknown_def EligibilityBlocked_def)
qed

text \<open>Two tickets: the second is open and depends on the completion of the first, a completed one.\<close>

definition sample_next :: Record where
  "sample_next = zero_Record\<lparr>rec_TicketID := \<lparr>t_Raw = ''ticket:a:q:T2'', t_Authority = ''a'', t_Queue = ''q'', t_Local = ''T2''\<rparr>,
     rec_Revision := ''1'', rec_AcceptanceRevision := ''1'', rec_Status := StatusOpen, rec_ExecutionClass := ''AUTONOMOUS'',
     rec_Effects := (rec_Effects zero_Record)\<lparr>ef_Coverage := ''QUALIFIED''\<rparr>,
     rec_Dependencies := [\<lparr>d_TicketID = rec_TicketID sample_record, d_Obligation = ''COMPLETED'', d_GateID = None\<rparr>]\<rparr>"

definition idle_context :: Context where
  "idle_context = \<lparr>ctx_CanonicalWriter = ''NATIVE'', ctx_SerialFallback = [], ctx_Gates = None,
     ctx_Attempts = Some (\<lambda>_. Unsatisfied), ctx_Stage = [], ctx_Loop = None\<rparr>"

lemma sample_pair: "\<exists>iv. NewInventory sample_queue [sample_record, sample_next] = Some (Inr iv)"
proof -
  have "queue_ok sample_queue [SummaryOf sample_record, SummaryOf sample_next]"
    by (simp add: queue_ok_def sample_queue_def sample_record_def sample_next_def TicketID_QueueID_def FoldToken_def ToLower_def lower_byte_def is_upper_def)
  then show ?thesis
    using NewLazyInventory_ok [of "[sample_record, sample_next]" "[]" sample_queue]
    by (auto simp: NewInventory_def MaxTicketsPerQueue_def)
qed

lemma sample_next_ready:
  "intent_ready [sample_record, sample_next] idle_context sample_next"
  "all_observed [sample_record, sample_next] idle_context sample_next"
proof -
  let ?g = "record_graph [sample_record, sample_next]"
  have "\<not> edge ?g ''ticket:a:q:T1'' y" for y
    by (simp add: edge_def record_graph_def sample_record_def sample_next_def zero_Record_def dep_ids_def)
  moreover have "edge ?g ''ticket:a:q:T2'' y \<Longrightarrow> y = ''ticket:a:q:T1''" for y
    by (simp add: edge_def record_graph_def sample_record_def sample_next_def zero_Record_def dep_ids_def)
  ultimately have "\<not> on_cycle ?g ''ticket:a:q:T2''"
    unfolding on_cycle_def by (metis tranclpD rtranclpD)
  then show "intent_ready [sample_record, sample_next] idle_context sample_next"
    by (simp add: intent_ready_def)
      (simp add: sample_next_def sample_record_def zero_Record_def idle_context_def question_pending_def loop_held_def
        dep_state_def obligation_state_def find_ticket_def ctx_attempts_def)
  show "all_observed [sample_record, sample_next] idle_context sample_next"
    by (simp add: all_observed_def sample_next_def sample_record_def zero_Record_def idle_context_def
        dep_state_def obligation_state_def find_ticket_def ctx_attempts_def)
qed

theorem View_exact_witness:
  "\<exists>iv v. NewInventory sample_queue [sample_record, sample_next] = Some (Inr iv) \<and>
     inv_View (\<lambda>_. Inr sample_next) ''ticket:a:q:T2'' idle_context iv = (Inr (Some v), iv) \<and>
     v_Eligibility v = ''UNKNOWN'' \<and> v_Blockers v = [] \<and> v_Unknowns v = []"
proof -
  obtain iv where iv: "NewInventory sample_queue [sample_record, sample_next] = Some (Inr iv)" using sample_pair by blast
  have tid: "t_Raw (rec_TicketID sample_next) = ''ticket:a:q:T2''" by (simp add: sample_next_def)
  show ?thesis
    using View_exact [OF iv, of sample_next "\<lambda>_. Inr sample_next" idle_context] sample_next_ready iv unfolding tid by auto
qed

text \<open>
  C31: The completion offer is made exactly on a view whose ticket is ready, whose facts were all
  observed, whose effects coverage is QUALIFIED unless the serial fallback reserves the whole repository,
  and for which there is evidence; then every
  dependency and applicable prerequisite is satisfied and no attempt is live, and it changes nothing
  but the next action and the suggested evidence.\<close>

theorem OfferCompletion_exact:
  assumes "NewInventory queue recs = Some (Inr iv)" "r \<in> set recs"
    and "inv_View load (t_Raw (rec_TicketID r)) ctx iv = (Inr (Some v), iv)" "OfferCompletion v evidence = (v', offered)"
  shows "(offered \<longleftrightarrow> evidence \<noteq> [] \<and> intent_ready recs ctx r \<and> all_observed recs ctx r \<and>
      (ef_Coverage (rec_Effects r) = ''QUALIFIED'' \<or> ctx_SerialFallback ctx = ''WHOLE_REPOSITORY'')) \<and>
    (\<not> offered \<longrightarrow> v' = v) \<and>
    (offered \<longrightarrow> v' = v\<lparr>v_NextAction := ''complete-manual'', v_SuggestedEvidence := Some evidence\<rparr> \<and>
      list_all (\<lambda>d. dep_state recs ctx d = Satisfied) (rec_Dependencies r) \<and>
      list_all (\<lambda>p. prereq_state recs ctx p = Satisfied) (rec_ExecutionPrerequisites r) \<and> v_CurrentAttempt v = Unsatisfied)"
proof -
  let ?id = "t_Raw (rec_TicketID r)"
  note view = inv_View_records [OF assms(1,2)]
  have v: "v = view_of iv ?id ctx r" using assms(3) view(1) [of load ctx] by simp
  have bl: "v_Blockers v = [] \<longleftrightarrow> intent_ready recs ctx r" and un: "v_Unknowns v = [] \<longleftrightarrow> all_observed recs ctx r"
    unfolding v view_of_sel by (rule view_blockers_none [OF view(2) assms(2)], rule view_unknowns_none [OF view(2)])
  have opn: "rec_Status r = StatusOpen" if "v_Blockers v = []" using that unfolding bl intent_ready_def by blast
  have admit: "v_NextAction v = ''admit'' \<longleftrightarrow> ef_Coverage (rec_Effects r) = ''QUALIFIED'' \<or> ctx_SerialFallback ctx = ''WHOLE_REPOSITORY''"
    if "v_Blockers v = []" "v_Unknowns v = []"
    using that opn unfolding v view_of_sel view_of_next Let_def
    by (simp add: nextAction_def coverageOnly_def view_advisories_def StatusOpen_def StatusDraft_def StatusHeld_def
        StatusCompleted_def StatusArchived_def)
  have "offered \<longleftrightarrow> evidence \<noteq> [] \<and> rec_Status r = StatusOpen \<and> v_NextAction v = ''admit'' \<and> v_Blockers v = [] \<and> v_Unknowns v = []"
    using assms(4) by (auto simp: OfferCompletion_def v view_of_sel split: if_splits)
  then have offered: "offered \<longleftrightarrow> evidence \<noteq> [] \<and> intent_ready recs ctx r \<and> all_observed recs ctx r \<and>
      (ef_Coverage (rec_Effects r) = ''QUALIFIED'' \<or> ctx_SerialFallback ctx = ''WHOLE_REPOSITORY'')"
    using opn admit bl un by blast
  have res: "v' = (if offered then v\<lparr>v_NextAction := ''complete-manual'', v_SuggestedEvidence := Some evidence\<rparr> else v)"
    using assms(4) by (auto simp: OfferCompletion_def NextActionCompleteManual_def split: if_splits)
  have "list_all (\<lambda>d. dep_state recs ctx d = Satisfied) (rec_Dependencies r) \<and>
      list_all (\<lambda>p. prereq_state recs ctx p = Satisfied) (rec_ExecutionPrerequisites r) \<and> ctx_attempts ctx ?id = Unsatisfied"
    if "intent_ready recs ctx r" "all_observed recs ctx r"
    using that unfolding intent_ready_def all_observed_def list_all_iff by (metis Observation.exhaust)
  moreover have "v_CurrentAttempt v = ctx_attempts ctx ?id" by (simp add: v view_of_sel)
  ultimately show ?thesis using offered res by (cases offered) (simp_all only: if_True if_False, blast+)
qed

theorem OfferCompletion_exact_witness:
  "\<exists>iv v v'. NewInventory sample_queue [sample_record, sample_next] = Some (Inr iv) \<and>
     inv_View (\<lambda>_. Inr sample_next) ''ticket:a:q:T2'' idle_context iv = (Inr (Some v), iv) \<and>
     OfferCompletion v [''d''] = (v', True) \<and> v_NextAction v' = ''complete-manual''"
proof -
  obtain iv where iv: "NewInventory sample_queue [sample_record, sample_next] = Some (Inr iv)" using sample_pair by blast
  have r: "sample_next \<in> set [sample_record, sample_next]" by simp
  note view = inv_View_records(1) [OF iv r, of "\<lambda>_. Inr sample_next" idle_context]
  obtain v' offered where o: "OfferCompletion (view_of iv (t_Raw (rec_TicketID sample_next)) idle_context sample_next) [''d''] = (v', offered)"
    by fastforce
  have "ef_Coverage (rec_Effects sample_next) = ''QUALIFIED''" by (simp add: sample_next_def)
  then have "offered" "v_NextAction v' = ''complete-manual''"
    using OfferCompletion_exact [OF iv r view o] sample_next_ready by auto
  moreover have "t_Raw (rec_TicketID sample_next) = ''ticket:a:q:T2''" by (simp add: sample_next_def)
  ultimately show ?thesis using iv view o by auto
qed

text \<open>
  C37: Every view reports an eligibility and a next action of the closed sets that the facet summary
  counts, before and after a completion offer, and the actions it recommends are never the admission
  of a ticket with a blocker or an unobserved prerequisite.\<close>

theorem View_closed_sets:
  "v_Eligibility (view_of iv tid ctx r) \<in> set FacetEligibilities \<and>
   v_NextAction (view_of iv tid ctx r) \<in> set FacetNextActions \<and>
   v_NextAction (fst (OfferCompletion (view_of iv tid ctx r) evidence)) \<in> set FacetNextActions \<and>
   (v_NextAction (view_of iv tid ctx r) = ''admit'' \<longrightarrow>
      view_blockers iv tid ctx r = [] \<and> \<not> list_ex (\<lambda>u. bl_Code u = CodePrerequisiteUnsatisfied) (view_unknowns iv tid ctx r))"
proof -
  have act: "v_NextAction (view_of iv tid ctx r) \<in> set FacetNextActions"
    by (simp add: view_of_next Let_def nextAction_def FacetNextActions_def split: list.splits)
  have el: "v_Eligibility (view_of iv tid ctx r) \<in> set FacetEligibilities"
    by (simp add: view_of_sel EligibilityUnknown_def EligibilityBlocked_def FacetEligibilities_def)
  have offer: "v_NextAction (fst (OfferCompletion (view_of iv tid ctx r) evidence)) \<in> set FacetNextActions"
    using act by (simp add: OfferCompletion_def NextActionCompleteManual_def FacetNextActions_def)
  have adm: "v_NextAction (view_of iv tid ctx r) = ''admit'' \<longrightarrow>
      view_blockers iv tid ctx r = [] \<and> \<not> list_ex (\<lambda>u. bl_Code u = CodePrerequisiteUnsatisfied) (view_unknowns iv tid ctx r)"
    by (simp add: view_of_next Let_def nextAction_def split: list.splits)
  show ?thesis using act el offer adm by blast
qed

theorem View_closed_sets_witness:
  "\<exists>iv. v_NextAction (view_of iv ''ticket:a:q:T2'' idle_context sample_next) = ''admit'' \<and>
     view_blockers iv ''ticket:a:q:T2'' idle_context sample_next = []"
proof -
  obtain iv where iv: "NewInventory sample_queue [sample_record, sample_next] = Some (Inr iv)" using sample_pair by blast
  have r: "sample_next \<in> set [sample_record, sample_next]" by simp
  note ov = inv_View_records(2) [OF iv r]
  have tid: "t_Raw (rec_TicketID sample_next) = ''ticket:a:q:T2''" by (simp add: sample_next_def)
  have none: "view_blockers iv ''ticket:a:q:T2'' idle_context sample_next = []"
      "view_unknowns iv ''ticket:a:q:T2'' idle_context sample_next = []"
    using view_blockers_none [OF ov r, of idle_context] view_unknowns_none [OF ov, of sample_next idle_context]
      sample_next_ready tid by simp_all
  have "v_NextAction (view_of iv ''ticket:a:q:T2'' idle_context sample_next) = ''admit''"
    unfolding view_of_next none
    by (simp add: nextAction_def coverageOnly_def view_advisories_def sample_next_def StatusOpen_def StatusDraft_def
        StatusHeld_def StatusCompleted_def StatusArchived_def)
  then show ?thesis using View_closed_sets [of iv "''ticket:a:q:T2''" idle_context sample_next] by blast
qed

text \<open>
  A closed ticket can be shown from its summary: the eligibility and next action of its view
  depend on the status alone and are those of \<^verbatim>\<open>ClosedView\<close>, whatever the queue, the context and the
  rest of the record.\<close>

theorem ClosedView_agrees:
  assumes "Closed (rec_Status r)"
  shows "(v_Eligibility (view_of iv tid ctx r), v_NextAction (view_of iv tid ctx r)) = ClosedView (SummaryOf r)"
proof -
  have "status_blockers r \<noteq> []"
    using assms by (auto simp: status_blockers_none Closed_def StatusOpen_def StatusCompleted_def StatusArchived_def)
  then have "view_blockers iv tid ctx r \<noteq> []" by (simp add: view_blockers_def)
  then show ?thesis
    using assms by (auto simp: ClosedView_def view_of_sel view_of_next Let_def nextAction_def SummaryOf_def Closed_def
        StatusDraft_def StatusHeld_def StatusCompleted_def StatusArchived_def)
qed

theorem ClosedView_agrees_witness:
  "\<exists>iv. NewInventory sample_queue [sample_record, sample_next] = Some (Inr iv) \<and>
     (v_Eligibility (view_of iv ''ticket:a:q:T1'' idle_context sample_record),
      v_NextAction (view_of iv ''ticket:a:q:T1'' idle_context sample_record)) = (''BLOCKED'', ''reopen'')"
proof -
  obtain iv where iv: "NewInventory sample_queue [sample_record, sample_next] = Some (Inr iv)" using sample_pair by blast
  have "Closed (rec_Status sample_record)" by (simp add: sample_record_def Closed_def)
  then have "(v_Eligibility (view_of iv ''ticket:a:q:T1'' idle_context sample_record),
      v_NextAction (view_of iv ''ticket:a:q:T1'' idle_context sample_record)) = ClosedView (SummaryOf sample_record)"
    by (rule ClosedView_agrees)
  also have "\<dots> = (''BLOCKED'', ''reopen'')"
    by (simp add: ClosedView_def SummaryOf_def sample_record_def zero_Record_def nextAction_def EligibilityBlocked_def
        StatusDraft_def StatusHeld_def StatusCompleted_def)
  finally show ?thesis using iv by blast
qed

end
