(* ===== verification/Inverse_Reader.thy ===== *)
theory Inverse_Reader
  imports Envelope
begin

text \<open>
  Readers that determine what they read. The locale \<open>inverse_reader\<close> is the contract of a decoder
  with respect to a renderer: whatever value it accepts is, up to the order of object members, the
  rendering of what it returned, so the bytes of a document can be recomputed from the decoded data.
  Scalars, nullable fields, arrays and closed objects meet the contract when their parts do.
\<close>

subsection \<open>Reading combinators\<close>

text \<open>An accessor with one more condition: \<^verbatim>\<open>if r.Err() == nil && bad(s) { r.Fail(code); return zero }\<close>.\<close>

definition rd_check :: "(reader \<Rightarrow> 'a rd) \<Rightarrow> string \<Rightarrow> ('a \<Rightarrow> bool) \<Rightarrow> 'a \<Rightarrow> reader \<Rightarrow> 'a rd" where
  "rd_check rd code bad zero r = do {
     s \<leftarrow> rd r;
     err \<leftarrow> rd_Err;
     (if err = None \<and> bad s then do { rd_Fail r code; return zero } else return s)
   }"

text \<open>A loop over the elements of an array that runs to its end whatever fails.\<close>

fun rd_each :: "(reader \<Rightarrow> 'a rd) \<Rightarrow> reader list \<Rightarrow> 'a list rd" where
  "rd_each rd [] = return []"
| "rd_each rd (r # rs) = do { x \<leftarrow> rd r; xs \<leftarrow> rd_each rd rs; return (x # xs) }"

text \<open>A loop that returns as soon as an element gives nothing.\<close>

fun rd_until :: "(reader \<Rightarrow> 'a option rd) \<Rightarrow> reader list \<Rightarrow> 'a list option rd" where
  "rd_until rd [] = return (Some [])"
| "rd_until rd (r # rs) = do {
     x \<leftarrow> rd r;
     (case x of
        None \<Rightarrow> return None
      | Some y \<Rightarrow> do { ys \<leftarrow> rd_until rd rs; return (map_option ((#) y) ys) })
   }"

definition rd_array_each :: "int \<Rightarrow> bool \<Rightarrow> (reader \<Rightarrow> 'a rd) \<Rightarrow> reader \<Rightarrow> 'a list rd" where
  "rd_array_each mx semantic rd r = do { rs \<leftarrow> rd_Array mx semantic r; rd_each rd rs }"

text \<open>A field read with an accessor.\<close>

definition rd_at :: "string \<Rightarrow> (reader \<Rightarrow> 'a rd) \<Rightarrow> reader \<Rightarrow> 'a rd" where
  "rd_at key rd r = do { f \<leftarrow> rd_Field key r; rd f }"

text \<open>A field that is read only when the object has it.\<close>

definition rd_optional :: "string \<Rightarrow> (reader \<Rightarrow> 'a rd) \<Rightarrow> 'a \<Rightarrow> reader \<Rightarrow> 'a rd" where
  "rd_optional key rd zero r = (if val_Has (r_v r) key then rd_at key rd r else return zero)"

lemma sticky_Err [run_simps]: "sticky rd_Err"
  by (simp add: rd_Err_def run_simps)

lemma yields_Err [run_simps]: "yields rd_Err x \<longleftrightarrow> x = None"
  by (auto simp: rd_Err_def run_simps)

lemma sticky_check [run_simps]: "(\<And>r. sticky (rd r)) \<Longrightarrow> sticky (rd_check rd code bad zero r)"
  unfolding rd_check_def by (auto intro!: sticky_bind sticky_Err sticky_return sticky_Fail)

lemma yields_check [run_simps]:
  "(\<And>r. sticky (rd r)) \<Longrightarrow> yields (rd_check rd code bad zero r) x \<longleftrightarrow> yields (rd r) x \<and> \<not> bad x"
  unfolding rd_check_def
  by (subst yields_bind; auto intro!: sticky_bind sticky_Err sticky_return sticky_Fail simp: run_simps split: if_splits)

lemma sticky_each [run_simps]: "(\<And>r. sticky (rd r)) \<Longrightarrow> sticky (rd_each rd rs)"
  by (induction rs) (auto intro!: sticky_bind sticky_return)

lemma yields_each [run_simps]:
  assumes "\<And>r. sticky (rd r)"
  shows "yields (rd_each rd rs) xs \<longleftrightarrow> list_all2 (\<lambda>r x. yields (rd r) x) rs xs"
proof (induction rs arbitrary: xs)
  case (Cons r rs)
  have "yields (rd_each rd (r # rs)) xs \<longleftrightarrow> (\<exists>y ys. yields (rd r) y \<and> yields (rd_each rd rs) ys \<and> y # ys = xs)"
    using assms by (simp add: run_simps)
  then show ?case by (auto simp: Cons.IH list_all2_Cons1)
qed (auto simp: run_simps)

lemma sticky_until: "(\<And>r. sticky (rd r)) \<Longrightarrow> sticky (rd_until rd rs)"
  by (induction rs) (auto intro!: sticky_bind sticky_return split: option.splits)

lemma yields_until:
  assumes "\<And>r. sticky (rd r)" "\<And>r. \<not> yields (rd r) None"
  shows "yields (rd_until rd rs) x \<longleftrightarrow> (\<exists>ys. x = Some ys \<and> list_all2 (\<lambda>r y. yields (rd r) (Some y)) rs ys)"
proof (induction rs arbitrary: x)
  case (Cons r rs)
  let ?rest = "\<lambda>x. case x of None \<Rightarrow> return None
    | Some y \<Rightarrow> State_Monad.bind (rd_until rd rs) (\<lambda>ys. return (map_option ((#) y) ys))"
  have rest: "sticky (?rest y)" for y
    using sticky_until [OF assms(1)] by (auto intro!: sticky_bind sticky_return split: option.splits)
  have step: "yields (?rest (Some y)) x \<longleftrightarrow> (\<exists>ys. x = Some (y # ys) \<and> list_all2 (\<lambda>r y. yields (rd r) (Some y)) rs ys)" for y
    using sticky_until [OF assms(1)] by (auto simp: run_simps Cons.IH)
  have "yields (rd_until rd (r # rs)) x \<longleftrightarrow> (\<exists>z. yields (rd r) z \<and> yields (?rest z) x)"
    unfolding rd_until.simps by (rule yields_bind [OF assms(1) rest])
  also have "\<dots> \<longleftrightarrow> (\<exists>y. yields (rd r) (Some y) \<and> yields (?rest (Some y)) x)"
  proof
    assume "\<exists>z. yields (rd r) z \<and> yields (?rest z) x"
    then obtain z where z: "yields (rd r) z" "yields (?rest z) x" by blast
    then obtain y where "z = Some y" using assms(2) by (cases z) auto
    then show "\<exists>y. yields (rd r) (Some y) \<and> yields (?rest (Some y)) x" using z by blast
  qed blast
  finally show ?case unfolding step by (auto simp: list_all2_Cons1)
qed (auto simp: run_simps)

lemma sticky_at [run_simps]: "(\<And>r. sticky (rd r)) \<Longrightarrow> sticky (rd_at key rd r)"
  unfolding rd_at_def by (auto intro!: sticky_bind sticky_Field)

lemma yields_at [run_simps]:
  "(\<And>r. sticky (rd r)) \<Longrightarrow> yields (rd_at key rd r) x \<longleftrightarrow>
     (\<exists>kvs v. r_v r = VObject kvs \<and> obj_Get kvs key = Some v \<and> yields (rd \<lparr>r_v = v, r_where = child_loc (r_where r) key\<rparr>) x)"
  unfolding rd_at_def by (auto simp: run_simps)

lemma sticky_optional [run_simps]: "(\<And>r. sticky (rd r)) \<Longrightarrow> sticky (rd_optional key rd zero r)"
  unfolding rd_optional_def by (auto intro!: sticky_at sticky_return)

lemma yields_optional [run_simps]:
  "(\<And>r. sticky (rd r)) \<Longrightarrow> yields (rd_optional key rd zero r) x \<longleftrightarrow>
     (if val_Has (r_v r) key then yields (rd_at key rd r) x else x = zero)"
  unfolding rd_optional_def by (auto simp: yields_return)

lemma sticky_or_null [run_simps]: "(\<And>r. sticky (rd r)) \<Longrightarrow> sticky (rd_or_null rd r)"
  unfolding rd_or_null_def by (auto intro!: sticky_bind sticky_get sticky_return)

lemma yields_or_null [run_simps]:
  "(\<And>r. sticky (rd r)) \<Longrightarrow> yields (rd_or_null rd r) x \<longleftrightarrow>
     (if IsNull r then x = None else (\<exists>y. x = Some y \<and> yields (rd r) y))"
  unfolding rd_or_null_def
  by (subst yields_bind; (auto intro!: sticky_bind sticky_get sticky_return simp: run_simps split: if_splits)?)

subsection \<open>Values up to the order of members\<close>

lemma canon_ext:
  assumes "distinct (map fst a)" "distinct (map fst b)"
    and "\<And>k. map_option canon (obj_Get a k) = map_option canon (obj_Get b k)"
  shows "canon (VObject a) = canon (VObject b)"
proof -
  let ?c = "map (\<lambda>(k, v). (k, canon v))"
  have d: "distinct (map fst (sort_key fst (?c a)))" "distinct (map fst (sort_key fst (?c b)))"
    unfolding distinct_sort_fst map_fst_map by (fact assms)+
  have "map_of (sort_key fst (?c a)) = map_of (sort_key fst (?c b))"
    using obj_Get_canon [OF assms(1)] obj_Get_canon [OF assms(2)] assms(3) by (simp add: obj_Get_def fun_eq_iff)
  then have "set (sort_key fst (?c a)) = set (sort_key fst (?c b))" using map_of_inject_set [OF d] by simp
  then have "sort_key fst (?c a) = sort_key fst (?c b)"
    using d by (intro map_sorted_distinct_set_unique [where f = fst]) (auto simp: distinct_map)
  then show ?thesis by simp
qed

text \<open>A closed object is the rendering of its members.\<close>

lemma closed_object:
  assumes "closed_ok keys kvs" "distinct (map fst kvs)" "distinct (map fst ms)" "set (map fst ms) = set keys"
    and "\<And>k w. (k, w) \<in> set ms \<Longrightarrow> \<exists>v. obj_Get kvs k = Some v \<and> canon v = canon w"
  shows "canon (VObject kvs) = canon (VObject ms)"
proof (rule canon_ext [OF assms(2,3)])
  fix k
  show "map_option canon (obj_Get kvs k) = map_option canon (obj_Get ms k)"
  proof (cases "k \<in> set keys")
    case True
    then obtain w where w: "(k, w) \<in> set ms" using assms(4) by (metis (no_types) imageE list.set_map prod.collapse)
    then have "obj_Get ms k = Some w" using assms(3) by (simp add: obj_Get_def)
    then show ?thesis using assms(5) [OF w] by auto
  next
    case False
    then have "k \<notin> set (obj_Keys kvs)" "k \<notin> set (obj_Keys ms)"
      using assms(1,4) by (auto simp: closed_ok_def filter_empty_conv obj_Keys_def)
    then show ?thesis by (simp flip: obj_Get_None)
  qed
qed

lemma dec_closed_iff: "dec_closed keys loc v = Inr u \<longleftrightarrow> (\<exists>kvs. v = VObject kvs \<and> closed_ok keys kvs)"
  by (auto simp: dec_closed_def split: val.splits)

lemma rd_Array_values: "yields (rd_Array mx sem r) rs \<Longrightarrow> r_v r = VArray (map r_v rs)"
  by (auto simp: yields_def rd_Array_def rd_Fail_def rd_adopt_def rd_child_def fresh_def Let_def comp_def case_prod_beta'
      split: val.splits if_splits sum.splits)

subsection \<open>The contract\<close>

locale inverse_reader =
  fixes rd :: "reader \<Rightarrow> 'a rd"
    and render :: "'a \<Rightarrow> val"
  assumes stuck: "sticky (rd r)"
    and inverse: "yields (rd r) x \<Longrightarrow> distinct_val (r_v r) \<Longrightarrow> canon (r_v r) = canon (render x)"
begin

lemma at_object:
  assumes "yields (rd_at key rd \<lparr>r_v = VObject kvs, r_where = loc\<rparr>) x" "distinct_val (VObject kvs)"
  shows "\<exists>v. obj_Get kvs key = Some v \<and> canon v = canon (render x)"
proof -
  obtain v l where v: "obj_Get kvs key = Some v" "yields (rd \<lparr>r_v = v, r_where = l\<rparr>) x"
    using assms(1) stuck by (auto simp: run_simps)
  then have "v \<in> snd ` set kvs" by (auto simp: obj_Get_def dest!: map_of_SomeD intro: rev_image_eqI)
  then have "distinct_val v" using assms(2) by (auto simp: list_all_iff)
  then show ?thesis using v inverse [of "\<lparr>r_v = v, r_where = l\<rparr>" x] by auto
qed

lemma nullable: "inverse_reader (rd_or_null rd) (\<lambda>x. case x of None \<Rightarrow> VNull | Some y \<Rightarrow> render y)"
  by unfold_locales (use stuck inverse in \<open>auto simp: run_simps IsNull_def split: if_splits\<close>)

lemma checked: "inverse_reader (rd_check rd code bad zero) render"
  by unfold_locales (use stuck inverse in \<open>auto simp: run_simps\<close>)

lemma elements:
  assumes "list_all2 (\<lambda>r x. yields (rd r) x) rs xs" "\<forall>r\<in>set rs. distinct_val (r_v r)"
  shows "map canon (map r_v rs) = map canon (map render xs)"
  using assms by (induction rs xs rule: list_all2_induct) (auto intro: inverse)

lemma strings_loop_elements:
  "yields (strings_loop rd rs out) xs \<longleftrightarrow> (\<exists>ys. xs = out @ ys \<and> list_all2 (\<lambda>r x. yields (rd r) x) rs ys)"
proof (induction rs arbitrary: out)
  case (Cons r rs)
  have st: "sticky (strings_loop rd rs o1)" for o1
    by (induction rs arbitrary: o1) (use stuck in \<open>auto intro!: sticky_bind sticky_return sticky_get\<close>)
  show ?case
    using stuck st by (auto simp: run_simps Cons.IH list_all2_Cons1)
qed (auto simp: run_simps)

lemma sticky_strings_loop: "sticky (strings_loop rd rs out)"
  by (induction rs arbitrary: out) (use stuck in \<open>auto intro!: sticky_bind sticky_return sticky_get\<close>)

lemma array:
  shows "inverse_reader (rd_Strings mx sem rd) (\<lambda>xs. VArray (map render xs))"
proof
  show "sticky (rd_Strings mx sem rd r)" for r
    unfolding rd_Strings_def using sticky_strings_loop by (auto intro!: sticky_bind sticky_return sticky_get sticky_Array)
next
  fix r :: reader and xs
  assume y: "yields (rd_Strings mx sem rd r) xs" and d: "distinct_val (r_v r)"
  obtain rs where rs: "yields (rd_Array mx sem r) rs" "list_all2 (\<lambda>r x. yields (rd r) x) rs xs"
    using y sticky_strings_loop unfolding rd_Strings_def by (auto simp: run_simps strings_loop_elements)
  then have "r_v r = VArray (map r_v rs)" by (auto intro: rd_Array_values)
  then show "canon (r_v r) = canon (VArray (map render xs))"
    using elements [OF rs(2)] d by simp
qed

lemma array_each: "inverse_reader (rd_array_each mx sem rd) (\<lambda>xs. VArray (map render xs))"
proof
  show "sticky (rd_array_each mx sem rd r)" for r
    unfolding rd_array_each_def using stuck by (auto intro!: sticky_bind sticky_Array sticky_each)
next
  fix r :: reader and xs
  assume y: "yields (rd_array_each mx sem rd r) xs" and d: "distinct_val (r_v r)"
  obtain rs where rs: "yields (rd_Array mx sem r) rs" "list_all2 (\<lambda>r x. yields (rd r) x) rs xs"
    using y stuck unfolding rd_array_each_def by (auto simp: run_simps)
  then have "r_v r = VArray (map r_v rs)" by (auto intro: rd_Array_values)
  then show "canon (r_v r) = canon (VArray (map render xs))"
    using elements [OF rs(2)] d by simp
qed

end

subsection \<open>Scalars\<close>

lemma scalar_inverse:
  assumes "field_reader rd dec" "\<And>loc v x. dec loc v = Inr x \<Longrightarrow> v = render x"
  shows "inverse_reader rd render"
  by unfold_locales (use assms(2) in \<open>auto simp: field_reader.is_sticky [OF assms(1)] field_reader.yields_dec [OF assms(1)]\<close>)

lemma returns_inverse: "field_reader rd dec \<Longrightarrow> returns_input dec \<Longrightarrow> inverse_reader rd VString"
  by (rule scalar_inverse) (auto simp: returns_input_def)

lemma dec_with_ids:
  "dec_with ParseTicketID loc v = Inr t \<Longrightarrow> v = VString (t_Raw t)"
  by (auto simp: dec_with_def dec_string_def ParseTicketID_def Let_def split: val.splits if_splits sum.splits list.splits)

lemma more_returns_input:
  "returns_input (dec_with ParsePath)" "returns_input (dec_with ParseOID)" "returns_input (dec_with ParseTimestamp)"
  by (auto intro!: returns_input_with split: if_splits sum.splits option.splits
      simp: ParsePath_def ParseOID_def ParseTimestamp_def Let_def)

interpretation String_inverse: inverse_reader rd_String VString
  by (rule returns_inverse [OF String_reader.field_reader_axioms returns_input_rules(1)])

interpretation Enum_inverse: inverse_reader "rd_Enum xs" VString
  by (rule returns_inverse [OF Enum_reader.field_reader_axioms returns_input_rules(2)])

interpretation Bool_inverse: inverse_reader rd_Bool VBool
  by (rule scalar_inverse [OF Bool_reader.field_reader_axioms]) (auto simp: dec_bool_def split: val.splits)

interpretation Identifier_inverse: inverse_reader rd_Identifier VString
  by (rule returns_inverse [OF Identifier_reader.field_reader_axioms returns_input_rules(3)])

interpretation Label_inverse: inverse_reader rd_Label VString
  by (rule returns_inverse [OF Label_reader.field_reader_axioms returns_input_rules(4)])

interpretation Prose_inverse: inverse_reader "rd_Prose mn mx" VString
  by (rule returns_inverse [OF Prose_reader.field_reader_axioms returns_input_rules(5)])

interpretation Count_inverse: inverse_reader rd_Count VString
  by (rule returns_inverse [OF Count_reader.field_reader_axioms returns_input_rules(6)])

interpretation Size_inverse: inverse_reader rd_Size VString
  by (rule returns_inverse [OF Size_reader.field_reader_axioms returns_input_rules(7)])

interpretation Digest_inverse: inverse_reader rd_Digest VString
  by (rule returns_inverse [OF Digest_reader.field_reader_axioms returns_input_rules(8)])

interpretation Path_inverse: inverse_reader rd_Path VString
  by (rule returns_inverse [OF Path_reader.field_reader_axioms more_returns_input(1)])

interpretation OID_inverse: inverse_reader rd_OID VString
  by (rule returns_inverse [OF OID_reader.field_reader_axioms more_returns_input(2)])

interpretation Timestamp_inverse: inverse_reader rd_Timestamp VString
  by (rule returns_inverse [OF Timestamp_reader.field_reader_axioms more_returns_input(3)])

interpretation TicketID_inverse: inverse_reader rd_TicketID "\<lambda>t. VString (t_Raw t)"
  by (rule scalar_inverse [OF TicketID_reader.field_reader_axioms]) (rule dec_with_ids)

text \<open>The nullable accessors and the string arrays render as \<^verbatim>\<open>StringOrNull\<close> and \<^verbatim>\<open>Strings\<close>.\<close>

lemma or_null_inverse: "inverse_reader rd VString \<Longrightarrow> inverse_reader (rd_or_null rd) StringOrNull"
  using inverse_reader.nullable [of rd VString] by (simp add: StringOrNull_def [abs_def])

lemma strings_inverse: "inverse_reader rd VString \<Longrightarrow> inverse_reader (rd_Strings mx sem rd) Strings"
  using inverse_reader.array [of rd VString mx sem] by (simp add: Strings_def [abs_def])

interpretation DigestOrNull_inverse: inverse_reader rd_DigestOrNull StringOrNull
  unfolding rd_DigestOrNull_def by (rule or_null_inverse) unfold_locales

interpretation LabelOrNull_inverse: inverse_reader rd_LabelOrNull StringOrNull
  unfolding rd_LabelOrNull_def by (rule or_null_inverse) unfold_locales

interpretation ProseOrNull_inverse: inverse_reader "rd_ProseOrNull mx" StringOrNull
  unfolding rd_ProseOrNull_def by (rule or_null_inverse) unfold_locales

interpretation CountOrNull_inverse: inverse_reader rd_CountOrNull StringOrNull
  unfolding rd_CountOrNull_def by (rule or_null_inverse) unfold_locales

interpretation SizeOrNull_inverse: inverse_reader rd_SizeOrNull StringOrNull
  unfolding rd_SizeOrNull_def by (rule or_null_inverse) unfold_locales

end
