(* ===== verification/Ticket_Codec.thy ===== *)
theory Ticket_Codec
  imports Inverse_Reader Ticket_Validate
begin

text \<open>
  The document format of a ticket record: \<^verbatim>\<open>FromValue\<close>, \<^verbatim>\<open>Decode\<close>, \<^verbatim>\<open>Value\<close> and \<^verbatim>\<open>Encode\<close> of
  \<^verbatim>\<open>internal/tasks/ticket/record.go\<close> with the readers and renderers of its members in \<^verbatim>\<open>roles.go\<close>,
  \<^verbatim>\<open>prereq.go\<close>, \<^verbatim>\<open>verdict_paths.go\<close>, \<^verbatim>\<open>hold_condition.go\<close>, \<^verbatim>\<open>attached_evidence.go\<close>, \<^verbatim>\<open>progress.go\<close>,
  \<^verbatim>\<open>know_how.go\<close>, \<^verbatim>\<open>operator_note.go\<close>, \<^verbatim>\<open>external_review.go\<close>, \<^verbatim>\<open>escalation.go\<close> and \<^verbatim>\<open>obligations.go\<close>.
  \<^verbatim>\<open>Set\<close> on a new object with distinct keys lists the members in order, so a renderer is the list of
  its members. Each reader is shown to determine the value it read.
\<close>

subsection \<open>Text\<close>

text \<open>\<^verbatim>\<open>strings.TrimSpace(s) == ""\<close>: every rune is white space (\<^verbatim>\<open>unicode.IsSpace\<close>).\<close>

definition space_rune :: "nat \<Rightarrow> bool" where
  "space_rune r \<longleftrightarrow> r \<in> {0x09, 0x0A, 0x0B, 0x0C, 0x0D, 0x20, 0x85, 0xA0, 0x1680, 0x2028, 0x2029, 0x202F, 0x205F, 0x3000} \<or>
     (0x2000 \<le> r \<and> r \<le> 0x200A)"

function blank :: "string \<Rightarrow> bool" where
  "blank s = (if s = [] then True
     else if space_rune (fst (decode_rune s)) then blank (drop (snd (decode_rune s)) s) else False)"
  by pat_completeness auto
termination
  by (relation "measure length") (simp_all add: decode_rune_size_pos)

declare blank.simps [simp del]

definition read_nonblank :: "nat \<Rightarrow> reader \<Rightarrow> string rd" where
  "read_nonblank mx = rd_check (rd_Prose 1 mx) CodeMalformed blank []"

definition ReadEvidenceReason :: "reader \<Rightarrow> string rd" where
  "ReadEvidenceReason = read_nonblank AttachedEvidenceMaxReasonBytes"
definition readProgressReason :: "reader \<Rightarrow> string rd" where
  "readProgressReason = read_nonblank ProgressMaxReasonBytes"
definition ReadKnowHowText :: "reader \<Rightarrow> string rd" where
  "ReadKnowHowText = read_nonblank KnowHowMaxTextBytes"
definition ReadKnowHowReason :: "reader \<Rightarrow> string rd" where
  "ReadKnowHowReason = read_nonblank KnowHowMaxReasonBytes"

text \<open>
  The readers of a string with a grammar of its own: \<^verbatim>\<open>s := r.String()\<close>, nothing more once an error is
  recorded, and a refusal at the reader's location with the code of the grammar's error.
\<close>

definition rd_grammar :: "(string \<Rightarrow> string \<Rightarrow> 'b res) \<Rightarrow> reader \<Rightarrow> string rd" where
  "rd_grammar parse = rd_with [] (\<lambda>loc s. case parse loc s of Inl e \<Rightarrow> Inl (Errorf (e_Code e) loc) | Inr _ \<Rightarrow> Inr s)"

definition accept_if :: "(string \<Rightarrow> bool) \<Rightarrow> string \<Rightarrow> string \<Rightarrow> string res" where
  "accept_if ok loc s = (if ok s then Inr s else Inl (Errorf CodeMalformed loc))"

definition ReadKnowHowSymbol :: "reader \<Rightarrow> string rd" where
  "ReadKnowHowSymbol = rd_grammar ParseKnowHowSymbol"
definition ReadKnowHowRepository :: "reader \<Rightarrow> string rd" where
  "ReadKnowHowRepository = rd_grammar ParseKnowHowRepository"

definition ReadKnowHowFile :: "reader \<Rightarrow> string rd" where
  "ReadKnowHowFile = rd_check rd_Path CodeMalformed (\<lambda>s. HasSuffix s ''/'') []"

definition ReadKnowHowRoutes :: "reader \<Rightarrow> string list rd" where
  "ReadKnowHowRoutes = rd_Strings (int KnowHowMaxRoutes) False (rd_grammar (\<lambda>loc s. ParseToken loc s KnowHowMaxRouteBytes))"

definition holdConditionRef :: "reader \<Rightarrow> string rd" where
  "holdConditionRef = rd_grammar (accept_if HoldConditionRefValid)"

definition HoldConditionMaxSymbolBytes :: nat where "HoldConditionMaxSymbolBytes = 128"

definition symbol_start :: "char \<Rightarrow> bool" where
  "symbol_start c \<longleftrightarrow> c = CHR ''_'' \<or> is_lower c \<or> is_upper c"

definition hold_symbol :: "string \<Rightarrow> bool" where
  "hold_symbol s \<longleftrightarrow> s \<noteq> [] \<and> length s \<le> HoldConditionMaxSymbolBytes \<and> symbol_start (hd s) \<and>
     list_all (\<lambda>c. symbol_start c \<or> is_digit c) (tl s)"

definition holdConditionSymbol :: "reader \<Rightarrow> string rd" where
  "holdConditionSymbol = rd_grammar (accept_if hold_symbol)"

definition ObligationsMaxEntries :: nat where "ObligationsMaxEntries = 256"
definition ObligationsMaxEvents :: nat where "ObligationsMaxEvents = 1024"
definition ObligationsMaxPrefixBytes :: nat where "ObligationsMaxPrefixBytes = 16"

definition ParseObligationPrefix :: "string \<Rightarrow> string \<Rightarrow> string res" where
  "ParseObligationPrefix loc s =
     (if s = [] \<or> length s > ObligationsMaxPrefixBytes then Inl (Errorf CodeMalformed loc)
      else if \<not> is_upper (hd s) \<or> \<not> list_all (\<lambda>c. is_upper c \<or> is_digit c) (tl s) then Inl (Errorf CodeMalformed loc)
      else Inr s)"

definition readObligationPrefix :: "reader \<Rightarrow> string rd" where
  "readObligationPrefix = rd_grammar ParseObligationPrefix"

definition rd_some :: "(reader \<Rightarrow> 'a rd) \<Rightarrow> reader \<Rightarrow> 'a option rd" where
  "rd_some rd r = do { x \<leftarrow> rd r; return (Some x) }"

text \<open>\<^verbatim>\<open>if !f.IsNull() { x := ...; p = &x }\<close>.\<close>

definition rd_unless_null :: "(reader \<Rightarrow> 'a rd) \<Rightarrow> reader \<Rightarrow> 'a option rd" where
  "rd_unless_null rd r = (if IsNull r then return None else rd_some rd r)"

subsection \<open>Optional members\<close>

definition OperatorNote_Value :: "OperatorNoteReference \<Rightarrow> val" where
  "OperatorNote_Value n = VObject [(''revision'', VString (on_Revision n)), (''current'', StringOrNull (on_Current n)),
     (''head'', VString (on_Head n))]"

definition MaxOperatorNoteEvents :: int where "MaxOperatorNoteEvents = 4096"

definition read_OperatorNote :: "reader \<Rightarrow> OperatorNoteReference rd" where
  "read_OperatorNote r = do {
     rd_Closed [''revision'', ''current'', ''head''] r;
     rev \<leftarrow> rd_at ''revision'' rd_Count r; cur \<leftarrow> rd_at ''current'' rd_DigestOrNull r; hd \<leftarrow> rd_at ''head'' rd_Digest r;
     return \<lparr>on_Revision = rev, on_Current = cur, on_Head = hd\<rparr>
   }"

definition OperatorNoteReferenceFromValue :: "val \<Rightarrow> OperatorNoteReference res" where
  "OperatorNoteReferenceFromValue v =
     rbind (run_reader (read_OperatorNote (fst (NewReader v ''/operatorNote'')))) (\<lambda>n.
       if Count_Int (on_Revision n) < 1 \<or> Count_Int (on_Revision n) > MaxOperatorNoteEvents
       then Inl (Errorf CodeLimitExceeded ''/operatorNote/revision'')
       else if (case on_Current n of Some c \<Rightarrow> c \<noteq> on_Head n | None \<Rightarrow> False) then Inl (Errorf CodeMalformed ''/operatorNote/current'')
       else Inr n)"

definition ExternalReviewRef_Value :: "ExternalReviewRef \<Rightarrow> val" where
  "ExternalReviewRef_Value n = VObject [(''generation'', VString (er_Generation n)), (''revision'', VString (er_Revision n)),
     (''head'', VString (er_Head n))]"

definition ExternalReviewsValue :: "(string \<times> ExternalReviewRef) list \<Rightarrow> val" where
  "ExternalReviewsValue m = VObject (map (\<lambda>(g, n). (g, ExternalReviewRef_Value n)) (sort_key fst m))"

definition MaxExternalReviewGates :: nat where "MaxExternalReviewGates = 16"
definition MaxExternalReviewEvents :: int where "MaxExternalReviewEvents = 4096"

definition read_ExternalReviewRef :: "reader \<Rightarrow> ExternalReviewRef rd" where
  "read_ExternalReviewRef g = do {
     rd_Closed [''generation'', ''revision'', ''head''] g;
     gen \<leftarrow> rd_at ''generation'' rd_Count g; rev \<leftarrow> rd_at ''revision'' rd_Count g; hd \<leftarrow> rd_at ''head'' rd_Digest g;
     return \<lparr>er_Generation = gen, er_Revision = rev, er_Head = hd\<rparr>
   }"

fun reviews_loop :: "reader \<Rightarrow> string list \<Rightarrow> (string \<times> ExternalReviewRef) list res" where
  "reviews_loop r [] = Inr []"
| "reviews_loop r (gate # gates) =
     rbind (ParseLabel ''/externalReviews'' gate) (\<lambda>_.
     rbind (run_reader (rd_at gate read_ExternalReviewRef r)) (\<lambda>ref.
       if Count_Int (er_Generation ref) < 1 \<or> Count_Int (er_Generation ref) > Count_Int (er_Revision ref) \<or>
          Count_Int (er_Revision ref) > MaxExternalReviewEvents
       then Inl (Errorf CodeMalformed (''/externalReviews/'' @ gate))
       else map_sum id ((#) (gate, ref)) (reviews_loop r gates)))"

definition ExternalReviewsFromValue :: "val \<Rightarrow> (string \<times> ExternalReviewRef) list res" where
  "ExternalReviewsFromValue v = (case v of
     VObject kvs \<Rightarrow>
       if length (obj_Keys kvs) < 1 \<or> length (obj_Keys kvs) > MaxExternalReviewGates
       then Inl (Errorf CodeLimitExceeded ''/externalReviews'')
       else reviews_loop (fst (NewReader v ''/externalReviews'')) (obj_Keys kvs)
   | _ \<Rightarrow> Inl (Errorf CodeMalformed ''/externalReviews''))"

definition StageRolesValue :: "(string \<times> string list) list \<Rightarrow> val" where
  "StageRolesValue roles = VObject (map (\<lambda>(k, v). (k, Strings v)) roles)"

fun stage_roles_loop :: "reader \<Rightarrow> string list \<Rightarrow> (string \<times> string list) list rd" where
  "stage_roles_loop r [] = return []"
| "stage_roles_loop r (stage # stages) = do {
     f \<leftarrow> rd_Field stage r;
     v \<leftarrow> rd_Strings (-1) False (rd_Enum StageRoles) f;
     (if v = [] then rd_Fail f CodeMalformed else return ());
     rest \<leftarrow> stage_roles_loop r stages;
     return ((stage, v) # rest)
   }"

definition ReadStageRoles :: "reader \<Rightarrow> (string \<times> string list) list rd" where
  "ReadStageRoles r = do { rd_Closed Stages r; stage_roles_loop r Stages }"

definition ReadVerdictPaths :: "reader \<Rightarrow> string list \<Rightarrow> string list option rd" where
  "ReadVerdictPaths ef touch = do {
     err \<leftarrow> rd_Err;
     (if err \<noteq> None \<or> \<not> val_Has (r_v ef) ''verdictPaths'' then return None
      else do {
        f \<leftarrow> rd_Field ''verdictPaths'' ef;
        paths \<leftarrow> rd_Strings (int MaxTouchPaths) False rd_Path f;
        err \<leftarrow> rd_Err;
        (if err \<noteq> None then return None
         else if paths = [] then do { rd_Fail f CodeMalformed; return None }
         else if UncoveredVerdictPath touch paths \<ge> 0 then do { rd_Fail f CodeOutOfScope; return None }
         else return (Some paths))
      })
   }"

subsection \<open>Prerequisites, evidence and progress\<close>

text \<open>\<^verbatim>\<open>sorted, _ := wire.SortedSet\<close>: on an error the zero value, null.\<close>

definition sorted_set_value :: "val list \<Rightarrow> val" where
  "sorted_set_value vs = (case SortedSet [] vs of Inr v \<Rightarrow> v | Inl _ \<Rightarrow> VNull)"

definition Prerequisite_Value :: "Prerequisite \<Rightarrow> val" where
  "Prerequisite_Value p = VObject [(''ticketId'', VString (t_Raw (p_TicketID p))), (''obligation'', VString (p_Obligation p)),
     (''gateId'', StringOrNull (p_GateID p)), (''stages'', sorted_set_value (map VString (p_Stages p)))]"

definition PrerequisitesValue :: "Prerequisite list \<Rightarrow> val" where
  "PrerequisitesValue ps = sorted_set_value (map Prerequisite_Value ps)"

text \<open>The entry reader stops the loop (\<open>None\<close>) once an error is recorded.\<close>

definition read_Prerequisite :: "reader \<Rightarrow> Prerequisite option rd" where
  "read_Prerequisite e = do {
     rd_Closed [''gateId'', ''obligation'', ''stages'', ''ticketId''] e;
     t \<leftarrow> rd_at ''ticketId'' rd_TicketID e; ob \<leftarrow> rd_at ''obligation'' (rd_Enum Obligations) e;
     g \<leftarrow> rd_at ''gateId'' rd_LabelOrNull e;
     st \<leftarrow> rd_Field ''stages'' e;
     ss \<leftarrow> rd_Strings (int (length Stages)) False (rd_Enum Stages) st;
     err \<leftarrow> rd_Err;
     (if err \<noteq> None then return None
      else if ss = [] then do { rd_Fail st CodeMalformed; return None }
      else return (Some \<lparr>p_TicketID = t, p_Obligation = ob, p_GateID = g, p_Stages = ss\<rparr>))
   }"

definition ReadPrerequisites :: "reader \<Rightarrow> Prerequisite list rd" where
  "ReadPrerequisites r = do {
     items \<leftarrow> rd_Array (int MaxDependencies) False r;
     err \<leftarrow> rd_Err;
     (if err \<noteq> None then return []
      else if items = [] then do { rd_Fail r CodeMalformed; return [] }
      else do { ps \<leftarrow> rd_until read_Prerequisite items; return (case ps of None \<Rightarrow> [] | Some ps \<Rightarrow> ps) })
   }"

definition ReadEvidenceDigests :: "reader \<Rightarrow> string list rd" where
  "ReadEvidenceDigests = rd_check (rd_array_each (int AttachedEvidenceMaxDigests) False rd_Digest) CodeMalformed (\<lambda>ds. ds = []) []"

definition AttachedEvidence_Value :: "AttachedEvidence \<Rightarrow> val" where
  "AttachedEvidence_Value a = VObject [(''acceptanceRevision'', VString (ae_AcceptanceRevision a)), (''actor'', VString (ae_Actor a)),
     (''evidence'', Strings (ae_Evidence a)), (''reason'', VString (ae_Reason a)), (''recordedAt'', VString (ae_RecordedAt a))]"

definition AttachedEvidenceValue :: "AttachedEvidence list \<Rightarrow> val" where
  "AttachedEvidenceValue es = VArray (map AttachedEvidence_Value es)"

definition read_AttachedEvidence :: "reader \<Rightarrow> AttachedEvidence rd" where
  "read_AttachedEvidence e = do {
     rd_Closed [''acceptanceRevision'', ''actor'', ''evidence'', ''reason'', ''recordedAt''] e;
     acc \<leftarrow> rd_at ''acceptanceRevision'' rd_Count e; ac \<leftarrow> rd_at ''actor'' rd_Label e;
     ev \<leftarrow> rd_at ''evidence'' ReadEvidenceDigests e; rs \<leftarrow> rd_at ''reason'' ReadEvidenceReason e;
     at \<leftarrow> rd_at ''recordedAt'' rd_Timestamp e;
     return \<lparr>ae_AcceptanceRevision = acc, ae_Actor = ac, ae_Evidence = ev, ae_Reason = rs, ae_RecordedAt = at\<rparr>
   }"

text \<open>
  The ledgers that are omitted when empty: an empty array is refused, the entries are read in order.
  Refusing after the loop instead of before it records the same error, since an empty loop records none.
\<close>

definition rd_nonempty :: "nat \<Rightarrow> (reader \<Rightarrow> 'a rd) \<Rightarrow> reader \<Rightarrow> 'a list rd" where
  "rd_nonempty mx rd = rd_check (rd_array_each (int mx) True rd) CodeMalformed (\<lambda>xs. xs = []) []"

definition ReadAttachedEvidence :: "reader \<Rightarrow> AttachedEvidence list rd" where
  "ReadAttachedEvidence = rd_nonempty AttachedEvidenceMaxEntries read_AttachedEvidence"

definition ProgressMarkKeys :: "string list" where
  "ProgressMarkKeys = [''branch'', ''head'', ''host'', ''lane'', ''phase'', ''pr'', ''reason'']"

definition ReadProgressMark :: "reader \<Rightarrow> ProgressMark rd" where
  "ReadProgressMark r = do {
     ph \<leftarrow> rd_at ''phase'' (rd_Enum ProgressPhases) r; ln \<leftarrow> rd_at ''lane'' rd_LabelOrNull r;
     ho \<leftarrow> rd_at ''host'' rd_LabelOrNull r; br \<leftarrow> rd_at ''branch'' (rd_StringOrNull rd_Identifier) r;
     hd \<leftarrow> rd_at ''head'' (rd_StringOrNull rd_OID) r; pr \<leftarrow> rd_at ''pr'' rd_CountOrNull r;
     rs \<leftarrow> rd_at ''reason'' (rd_StringOrNull readProgressReason) r;
     let m = \<lparr>pm_Phase = ph, pm_Lane = ln, pm_Host = ho, pm_Branch = br, pm_Head = hd, pm_PR = pr, pm_Reason = rs\<rparr>;
     err \<leftarrow> rd_Err;
     (if err = None \<and> ProgressMark_Validate m \<noteq> Inr () then rd_Fail r CodeMalformed else return ());
     return m
   }"

definition ProgressMark_members :: "ProgressMark \<Rightarrow> object" where
  "ProgressMark_members m = [(''phase'', VString (pm_Phase m)), (''lane'', StringOrNull (pm_Lane m)), (''host'', StringOrNull (pm_Host m)),
     (''branch'', StringOrNull (pm_Branch m)), (''head'', StringOrNull (pm_Head m)), (''pr'', StringOrNull (pm_PR m)),
     (''reason'', StringOrNull (pm_Reason m))]"

definition ProgressEntryValue :: "Progress \<Rightarrow> val" where
  "ProgressEntryValue p = VObject (ProgressMark_members (ProgressMark.truncate p) @
     [(''actor'', VString (pr_Actor p)), (''recordedAt'', VString (pr_RecordedAt p))])"

definition ProgressValue :: "Progress list \<Rightarrow> val" where
  "ProgressValue ps = VArray (map ProgressEntryValue ps)"

definition mark_entry :: "ProgressMark \<Rightarrow> string \<Rightarrow> string \<Rightarrow> Progress" where
  "mark_entry m actor at = ProgressMark.extend m \<lparr>pr_Actor = actor, pr_RecordedAt = at\<rparr>"

definition read_Progress :: "reader \<Rightarrow> Progress rd" where
  "read_Progress e = do {
     rd_Closed ([''actor'', ''recordedAt''] @ ProgressMarkKeys) e;
     m \<leftarrow> ReadProgressMark e; ac \<leftarrow> rd_at ''actor'' rd_Label e; at \<leftarrow> rd_at ''recordedAt'' rd_Timestamp e;
     return (mark_entry m ac at)
   }"

definition ReadProgress :: "reader \<Rightarrow> Progress list rd" where
  "ReadProgress = rd_nonempty ProgressMaxEntries read_Progress"

subsection \<open>The know-how ledger\<close>

definition KnowHowAnchor_Value :: "KnowHowAnchor \<Rightarrow> val" where
  "KnowHowAnchor_Value a = VObject ([(''blob'', VString (ka_Blob a)), (''path'', VString (ka_Path a))] @
     (if ka_Symbol a \<noteq> [] then [(''symbol'', VString (ka_Symbol a)), (''symbolSha256'', VString (ka_SymbolSha256 a))] else []))"

definition KnowHowAnchorsValue :: "KnowHowAnchor list \<Rightarrow> val" where
  "KnowHowAnchorsValue as = VArray (map KnowHowAnchor_Value as)"

definition read_KnowHowAnchor :: "reader \<Rightarrow> KnowHowAnchor rd" where
  "read_KnowHowAnchor it =
     (let symbol = val_Has (r_v it) ''symbol'' \<or> val_Has (r_v it) ''symbolSha256''
      in do {
        (if symbol then rd_Closed [''blob'', ''path'', ''symbol'', ''symbolSha256''] it else rd_Closed [''blob'', ''path''] it);
        p \<leftarrow> rd_at ''path'' ReadKnowHowFile it; b \<leftarrow> rd_at ''blob'' rd_OID it;
        (if symbol then do {
           s \<leftarrow> rd_at ''symbol'' ReadKnowHowSymbol it; d \<leftarrow> rd_at ''symbolSha256'' rd_Digest it;
           return \<lparr>ka_Path = p, ka_Blob = b, ka_Symbol = s, ka_SymbolSha256 = d\<rparr>
         } else return \<lparr>ka_Path = p, ka_Blob = b, ka_Symbol = [], ka_SymbolSha256 = []\<rparr>)
      })"

text \<open>The loop over the anchors; \<open>out\<close> is what it appended so far, \<open>r\<close> the reader of the array.\<close>

fun anchors_loop :: "reader \<Rightarrow> reader list \<Rightarrow> KnowHowAnchor list \<Rightarrow> KnowHowAnchor list rd" where
  "anchors_loop r [] out = return out"
| "anchors_loop r (it # its) out = do {
     a \<leftarrow> read_KnowHowAnchor it;
     err \<leftarrow> rd_Err;
     (if err \<noteq> None then return []
      else if out \<noteq> [] \<and> \<not> KnowHowAnchorLess (last out) a then do { rd_Fail r CodeMalformed; return [] }
      else if out \<noteq> [] \<and> ka_Path (last out) = ka_Path a \<and> ka_Blob (last out) \<noteq> ka_Blob a then do { rd_Fail r CodeMalformed; return [] }
      else anchors_loop r its (out @ [a]))
   }"

definition ReadKnowHowAnchors :: "reader \<Rightarrow> KnowHowAnchor list rd" where
  "ReadKnowHowAnchors r = do {
     items \<leftarrow> rd_Array (int KnowHowMaxAnchors) True r;
     err \<leftarrow> rd_Err;
     (if err = None \<and> items = [] then do { rd_Fail r CodeMalformed; return [] } else anchors_loop r items [])
   }"

definition knowHowAddKeys :: "string list" where
  "knowHowAddKeys = [''actor'', ''anchors'', ''attempt'', ''commit'', ''evidencePath'', ''generation'', ''operation'', ''reason'',
     ''recordedAt'', ''routes'', ''seq'', ''supersedes'', ''text'']"
definition knowHowRetractKeys :: "string list" where
  "knowHowRetractKeys = [''actor'', ''note'', ''operation'', ''reason'', ''recordedAt'', ''seq'']"
definition knowHowReconfirmKeys :: "string list" where
  "knowHowReconfirmKeys = [''actor'', ''anchors'', ''attempt'', ''commit'', ''generation'', ''note'', ''operation'', ''recordedAt'', ''seq'']"

definition zero_KnowHow :: "string \<Rightarrow> KnowHowEntry" where
  "zero_KnowHow op = \<lparr>kh_Seq = [], kh_Operation = op, kh_Text = [], kh_Anchors = [], kh_Routes = [], kh_Commit = [],
     kh_Supersedes = None, kh_Attempt = None, kh_Generation = None, kh_EvidencePath = None, kh_Note = [], kh_Reason = None,
     kh_Repository = [], kh_ActorID = [], kh_ActorRole = [], kh_RecordedAt = []\<rparr>"

definition read_KnowHowAdd :: "reader \<Rightarrow> KnowHowEntry rd" where
  "read_KnowHowAdd e =
     (let named = val_Has (r_v e) ''repository''
      in do {
        rd_Closed ((if named then [''repository''] else []) @ knowHowAddKeys) e;
        repo \<leftarrow> (if named then rd_at ''repository'' ReadKnowHowRepository e else return []);
        tx \<leftarrow> rd_at ''text'' ReadKnowHowText e; an \<leftarrow> rd_at ''anchors'' ReadKnowHowAnchors e;
        ro \<leftarrow> rd_at ''routes'' ReadKnowHowRoutes e; co \<leftarrow> rd_at ''commit'' rd_OID e;
        su \<leftarrow> rd_at ''supersedes'' rd_CountOrNull e; att \<leftarrow> rd_at ''attempt'' (rd_StringOrNull rd_Identifier) e;
        gen \<leftarrow> rd_at ''generation'' rd_SizeOrNull e; ev \<leftarrow> rd_at ''evidencePath'' (rd_StringOrNull ReadKnowHowFile) e;
        err \<leftarrow> rd_Err;
        (if err = None \<and> repo \<noteq> [] \<and> KnowHowRepositoryRefusal repo an \<noteq> []
         then do { f \<leftarrow> rd_Field ''anchors'' e; rd_Fail f CodeMalformed } else return ());
        rs \<leftarrow> rd_at ''reason'' (rd_unless_null ReadKnowHowReason) e;
        return ((zero_KnowHow KnowHowAdd)\<lparr>kh_Text := tx, kh_Anchors := an, kh_Routes := ro, kh_Commit := co, kh_Supersedes := su,
          kh_Attempt := att, kh_Generation := gen, kh_EvidencePath := ev, kh_Reason := rs, kh_Repository := repo\<rparr>)
      })"

definition read_KnowHowRetract :: "reader \<Rightarrow> KnowHowEntry rd" where
  "read_KnowHowRetract e = do {
     rd_Closed knowHowRetractKeys e;
     n \<leftarrow> rd_at ''note'' rd_Count e; rs \<leftarrow> rd_at ''reason'' ReadKnowHowReason e;
     return ((zero_KnowHow KnowHowRetract)\<lparr>kh_Note := n, kh_Reason := Some rs\<rparr>)
   }"

definition read_KnowHowReconfirm :: "reader \<Rightarrow> KnowHowEntry rd" where
  "read_KnowHowReconfirm e = do {
     rd_Closed knowHowReconfirmKeys e;
     n \<leftarrow> rd_at ''note'' rd_Count e; an \<leftarrow> rd_at ''anchors'' ReadKnowHowAnchors e; co \<leftarrow> rd_at ''commit'' rd_OID e;
     att \<leftarrow> rd_at ''attempt'' (rd_StringOrNull rd_Identifier) e; gen \<leftarrow> rd_at ''generation'' rd_SizeOrNull e;
     return ((zero_KnowHow KnowHowReconfirm)\<lparr>kh_Note := n, kh_Anchors := an, kh_Commit := co, kh_Attempt := att, kh_Generation := gen\<rparr>)
   }"

definition read_KnowHowActor :: "reader \<Rightarrow> (string \<times> string) rd" where
  "read_KnowHowActor a = do {
     rd_Closed [''id'', ''role''] a;
     ai \<leftarrow> rd_at ''id'' rd_Label a; ar \<leftarrow> rd_at ''role'' (rd_Enum [''OWNER'', ''OPERATOR'', ''WORKER'']) a;
     return (ai, ar)
   }"

text \<open>One entry; \<open>None\<close> when the operation is not readable, which ends the loop.\<close>

definition read_ledger :: "string \<Rightarrow> reader \<Rightarrow> KnowHowEntry rd" where
  "read_ledger op e = (if op = KnowHowAdd then read_KnowHowAdd e else if op = KnowHowRetract then read_KnowHowRetract e
     else read_KnowHowReconfirm e)"

definition read_KnowHowBody :: "string \<Rightarrow> reader \<Rightarrow> KnowHowEntry rd" where
  "read_KnowHowBody op e = do {
     k \<leftarrow> read_ledger op e;
     sq \<leftarrow> rd_at ''seq'' rd_Count e;
     ac \<leftarrow> rd_at ''actor'' read_KnowHowActor e;
     at \<leftarrow> rd_at ''recordedAt'' rd_Timestamp e;
     return (k\<lparr>kh_Seq := sq, kh_ActorID := fst ac, kh_ActorRole := snd ac, kh_RecordedAt := at\<rparr>)
   }"

definition read_KnowHowEntry :: "reader \<Rightarrow> KnowHowEntry option rd" where
  "read_KnowHowEntry e = do {
     op \<leftarrow> rd_at ''operation'' (rd_Enum [KnowHowAdd, KnowHowRetract, KnowHowReconfirm]) e;
     err \<leftarrow> rd_Err;
     (if err \<noteq> None then return None else do { k \<leftarrow> read_KnowHowBody op e; return (Some k) })
   }"

definition ReadKnowHow :: "reader \<Rightarrow> KnowHowEntry list rd" where
  "ReadKnowHow r = do {
     entries \<leftarrow> rd_Array (int KnowHowMaxEntries) True r;
     err \<leftarrow> rd_Err;
     (if err = None \<and> entries = [] then do { rd_Fail r CodeMalformed; return [] }
      else do { ks \<leftarrow> rd_until read_KnowHowEntry entries; return (case ks of None \<Rightarrow> [] | Some ks \<Rightarrow> ks) })
   }"

definition KnowHowEntry_Value :: "KnowHowEntry \<Rightarrow> val" where
  "KnowHowEntry_Value k = VObject ([(''seq'', VString (kh_Seq k)), (''operation'', VString (kh_Operation k))] @
     (if kh_Operation k = KnowHowAdd then
        [(''text'', VString (kh_Text k)), (''anchors'', KnowHowAnchorsValue (kh_Anchors k)), (''routes'', Strings (kh_Routes k)),
         (''commit'', VString (kh_Commit k)), (''supersedes'', StringOrNull (kh_Supersedes k)), (''attempt'', StringOrNull (kh_Attempt k)),
         (''generation'', StringOrNull (kh_Generation k)), (''evidencePath'', StringOrNull (kh_EvidencePath k)),
         (''reason'', StringOrNull (kh_Reason k))] @
        (if kh_Repository k \<noteq> [] then [(''repository'', VString (kh_Repository k))] else [])
      else if kh_Operation k = KnowHowRetract then
        [(''note'', VString (kh_Note k)), (''reason'', StringOrNull (kh_Reason k))]
      else
        [(''note'', VString (kh_Note k)), (''anchors'', KnowHowAnchorsValue (kh_Anchors k)), (''commit'', VString (kh_Commit k)),
         (''attempt'', StringOrNull (kh_Attempt k)), (''generation'', StringOrNull (kh_Generation k))]) @
     [(''actor'', VObject [(''id'', VString (kh_ActorID k)), (''role'', VString (kh_ActorRole k))]),
      (''recordedAt'', VString (kh_RecordedAt k))])"

definition KnowHowValue :: "KnowHowEntry list \<Rightarrow> val" where
  "KnowHowValue ks = VArray (map KnowHowEntry_Value ks)"

subsection \<open>The obligation reference\<close>

definition countValue :: "int \<Rightarrow> val" where
  "countValue n = VString (CountOf n)"

definition ObligationCounts_Value :: "ObligationCounts \<Rightarrow> val" where
  "ObligationCounts_Value c = VObject [(''witnessed'', countValue (oc_Witnessed c)), (''total'', countValue (oc_Total c)),
     (''deferred'', countValue (oc_Deferred c)), (''coreWitnessed'', countValue (oc_CoreWitnessed c)), (''coreTotal'', countValue (oc_CoreTotal c))]"

definition read_int :: "reader \<Rightarrow> int rd" where
  "read_int r = do { c \<leftarrow> rd_Count r; return (Count_Int c) }"

definition readObligationCounts :: "reader \<Rightarrow> ObligationCounts rd" where
  "readObligationCounts r = do {
     rd_Closed [''witnessed'', ''total'', ''deferred'', ''coreWitnessed'', ''coreTotal''] r;
     w \<leftarrow> rd_at ''witnessed'' read_int r; t \<leftarrow> rd_at ''total'' read_int r; d \<leftarrow> rd_at ''deferred'' read_int r;
     cw \<leftarrow> rd_at ''coreWitnessed'' read_int r; ct \<leftarrow> rd_at ''coreTotal'' read_int r;
     return \<lparr>oc_Witnessed = w, oc_Total = t, oc_Deferred = d, oc_CoreWitnessed = cw, oc_CoreTotal = ct\<rparr>
   }"

definition counts_valid :: "ObligationCounts \<Rightarrow> bool" where
  "counts_valid c \<longleftrightarrow> oc_Witnessed c \<le> oc_Total c \<and> oc_CoreWitnessed c \<le> oc_CoreTotal c \<and> oc_CoreTotal c \<le> oc_Total c \<and>
     oc_CoreWitnessed c \<le> oc_Witnessed c \<and> oc_Total c + oc_Deferred c \<le> int ObligationsMaxEntries"

definition ObligationRaise_Value :: "ObligationRaise option \<Rightarrow> val" where
  "ObligationRaise_Value lr = (case lr of
     None \<Rightarrow> VNull
   | Some x \<Rightarrow> VObject [(''attempt'', VString (or_Attempt x)), (''generation'', VString (or_Generation x)),
       (''acceptanceRevision'', VString (or_AcceptanceRevision x))])"

definition HighWater_Value :: "ObligationHighWater \<Rightarrow> val" where
  "HighWater_Value h = VObject [(''acceptanceRevision'', VString (hw_AcceptanceRevision h)), (''witnessed'', countValue (hw_Witnessed h))]"

definition ObligationsReference_Value :: "ObligationsReference \<Rightarrow> val" where
  "ObligationsReference_Value ob = VObject [(''prefix'', VString (ob_Prefix ob)), (''revision'', VString (ob_Revision ob)),
     (''head'', VString (ob_Head ob)), (''counts'', ObligationCounts_Value (ob_Counts ob)),
     (''highWater'', HighWater_Value (ob_HighWater ob)), (''lastRaise'', ObligationRaise_Value (ob_LastRaise ob))]"

definition read_HighWater :: "reader \<Rightarrow> ObligationHighWater rd" where
  "read_HighWater hw = do {
     rd_Closed [''acceptanceRevision'', ''witnessed''] hw;
     acc \<leftarrow> rd_at ''acceptanceRevision'' rd_Count hw; w \<leftarrow> rd_at ''witnessed'' read_int hw;
     return \<lparr>hw_AcceptanceRevision = acc, hw_Witnessed = w\<rparr>
   }"

definition read_ObligationRaise :: "reader \<Rightarrow> ObligationRaise option rd" where
  "read_ObligationRaise lr =
     (if IsNull lr then return None
      else do {
        rd_Closed [''attempt'', ''generation'', ''acceptanceRevision''] lr;
        att \<leftarrow> rd_at ''attempt'' rd_Identifier lr; gen \<leftarrow> rd_at ''generation'' rd_Size lr;
        acc \<leftarrow> rd_at ''acceptanceRevision'' rd_Count lr;
        return (Some \<lparr>or_Attempt = att, or_Generation = gen, or_AcceptanceRevision = acc\<rparr>)
      })"

text \<open>The range checks of a reference that was read without an error: the code and the field they fail at.\<close>

definition reference_problem :: "ObligationsReference \<Rightarrow> (string \<times> string option) option" where
  "reference_problem ob =
     (if Count_Int (ob_Revision ob) < 1 \<or> Count_Int (ob_Revision ob) > int ObligationsMaxEvents then Some (CodeLimitExceeded, None)
      else if \<not> counts_valid (ob_Counts ob) then Some (CodeMalformed, Some ''counts'')
      else if Count_Int (hw_AcceptanceRevision (ob_HighWater ob)) < 1 \<or> hw_Witnessed (ob_HighWater ob) > int ObligationsMaxEntries
        then Some (CodeMalformed, Some ''highWater'')
      else if (case ob_LastRaise ob of Some lr \<Rightarrow> Count_Int (or_AcceptanceRevision lr) < 1 | None \<Rightarrow> False)
        then Some (CodeMalformed, Some ''lastRaise'')
      else None)"

definition check_reference_range :: "reader \<Rightarrow> ObligationsReference \<Rightarrow> ObligationsReference option rd" where
  "check_reference_range r ob = (case reference_problem ob of
     None \<Rightarrow> return (Some ob)
   | Some (code, field) \<Rightarrow> do {
       f \<leftarrow> (case field of None \<Rightarrow> return r | Some key \<Rightarrow> rd_Field key r);
       rd_Fail f code;
       return None
     })"

definition ReadObligationsReference :: "reader \<Rightarrow> ObligationsReference option rd" where
  "ReadObligationsReference r = do {
     rd_Closed [''prefix'', ''revision'', ''head'', ''counts'', ''highWater'', ''lastRaise''] r;
     rev \<leftarrow> rd_at ''revision'' rd_Count r; hd \<leftarrow> rd_at ''head'' rd_Digest r; co \<leftarrow> rd_at ''counts'' readObligationCounts r;
     pre \<leftarrow> rd_at ''prefix'' readObligationPrefix r;
     hw \<leftarrow> rd_at ''highWater'' read_HighWater r; lr \<leftarrow> rd_at ''lastRaise'' read_ObligationRaise r;
     err \<leftarrow> rd_Err;
     (if err \<noteq> None then return None
      else check_reference_range r
        \<lparr>ob_Prefix = pre, ob_Revision = rev, ob_Head = hd, ob_Counts = co, ob_HighWater = hw, ob_LastRaise = lr\<rparr>)
   }"

subsection \<open>Escalation references\<close>

definition EscalationMaxEventBytes :: nat where "EscalationMaxEventBytes = 65536"

definition EscalationRef_Value :: "EscalationRef \<Rightarrow> val" where
  "EscalationRef_Value e = VObject [(''requestId'', VString (es_RequestID e)), (''originSha256'', VString (es_OriginSha256 e)),
     (''headSha256'', VString (es_HeadSha256 e)), (''revision'', VString (es_Revision e)),
     (''acceptanceRevision'', VString (es_AcceptanceRevision e)), (''kind'', VString (es_Kind e)), (''state'', VString (es_State e))]"

definition escalationRefsValue :: "EscalationRefs \<Rightarrow> val" where
  "escalationRefsValue r = VObject [(''revision'', VString (ers_Revision r)),
     (''lastControlTicketRevision'', VString (ers_LastControlTicketRevision r)), (''workRevision'', VString (ers_WorkRevision r)),
     (''entries'', VArray (map EscalationRef_Value (ers_Entries r)))]"

text \<open>
  \<^verbatim>\<open>escalationDecode\<close> reads a struct with \<^verbatim>\<open>encoding/json\<close>, refusing unknown fields, and requires the bytes to
  be the canonical encoding of what it read. A missing field, a null and a name in another case are
  read back differently, so what passes is an object with exactly the field names and string values.
\<close>

definition json_strings :: "string list \<Rightarrow> val \<Rightarrow> (string \<Rightarrow> string) option" where
  "json_strings keys v = (case v of
     VObject kvs \<Rightarrow>
       if closed_ok keys kvs \<and> list_all (\<lambda>k. case obj_Get kvs k of Some (VString _) \<Rightarrow> True | _ \<Rightarrow> False) keys
       then Some (\<lambda>k. case obj_Get kvs k of Some (VString s) \<Rightarrow> s | _ \<Rightarrow> [])
       else None
   | _ \<Rightarrow> None)"

definition escalation_ref_keys :: "string list" where
  "escalation_ref_keys = [''requestId'', ''originSha256'', ''headSha256'', ''revision'', ''acceptanceRevision'', ''kind'', ''state'']"

definition json_ref :: "val \<Rightarrow> EscalationRef option" where
  "json_ref v = map_option (\<lambda>f. \<lparr>es_RequestID = f ''requestId'', es_OriginSha256 = f ''originSha256'', es_HeadSha256 = f ''headSha256'',
     es_Revision = f ''revision'', es_AcceptanceRevision = f ''acceptanceRevision'', es_Kind = f ''kind'', es_State = f ''state''\<rparr>)
     (json_strings escalation_ref_keys v)"

fun json_refs_loop :: "val list \<Rightarrow> EscalationRef list option" where
  "json_refs_loop [] = Some []"
| "json_refs_loop (v # vs) = (case json_ref v of None \<Rightarrow> None | Some e \<Rightarrow> map_option ((#) e) (json_refs_loop vs))"

definition json_refs :: "val \<Rightarrow> EscalationRefs option" where
  "json_refs v = (case v of
     VObject kvs \<Rightarrow>
       if closed_ok [''revision'', ''lastControlTicketRevision'', ''workRevision'', ''entries''] kvs
       then (case (obj_Get kvs ''revision'', obj_Get kvs ''lastControlTicketRevision'', obj_Get kvs ''workRevision'', obj_Get kvs ''entries'') of
           (Some (VString a), Some (VString b), Some (VString c), Some (VArray vs)) \<Rightarrow>
             map_option (\<lambda>es. \<lparr>ers_Revision = a, ers_LastControlTicketRevision = b, ers_WorkRevision = c, ers_Entries = es\<rparr>)
               (json_refs_loop vs)
         | _ \<Rightarrow> None)
       else None
   | _ \<Rightarrow> None)"

definition escalationPositive :: "string \<Rightarrow> bool" where
  "escalationPositive c \<longleftrightarrow> ParseCount ''/escalation'' c = Inr c \<and> Count_Int c \<ge> 1"

definition escalationKind :: "string \<Rightarrow> bool" where
  "escalationKind k \<longleftrightarrow> k = ''decision'' \<or> k = ''infrastructure'' \<or> k = ''scope'' \<or> k = ''blocked''"

definition ref_valid :: "EscalationRef \<Rightarrow> bool" where
  "ref_valid e \<longleftrightarrow> ParseIdentifier ''/escalation'' (es_RequestID e) = Inr (es_RequestID e) \<and>
     ParseDigest ''/escalation'' (es_OriginSha256 e) = Inr (es_OriginSha256 e) \<and>
     ParseDigest ''/escalation'' (es_HeadSha256 e) = Inr (es_HeadSha256 e) \<and>
     escalationPositive (es_Revision e) \<and> Count_Int (es_Revision e) \<le> 64 \<and> escalationPositive (es_AcceptanceRevision e) \<and>
     escalationKind (es_Kind e) \<and> es_State e \<in> {''OPEN'', ''ANSWERED'', ''SUPERSEDED''}"

fun refs_loop :: "string option \<Rightarrow> EscalationRef list \<Rightarrow> int \<Rightarrow> int option" where
  "refs_loop prev [] acc = Some acc"
| "refs_loop prev (e # es) acc =
     (if (case prev of Some p \<Rightarrow> p \<ge> es_RequestID e | None \<Rightarrow> False) \<or> \<not> ref_valid e then None
      else refs_loop (Some (es_RequestID e)) es (acc + Count_Int (es_Revision e)))"

text \<open>\<^verbatim>\<open>EscalationRefs.Validate\<close> returns no error.\<close>

definition EscalationRefs_Validate :: "EscalationRefs \<Rightarrow> bool" where
  "EscalationRefs_Validate r \<longleftrightarrow>
     escalationPositive (ers_Revision r) \<and> escalationPositive (ers_LastControlTicketRevision r) \<and> escalationPositive (ers_WorkRevision r) \<and>
     Count_Int (ers_WorkRevision r) < Count_Int (ers_LastControlTicketRevision r) \<and>
     length (ers_Entries r) \<ge> 1 \<and> length (ers_Entries r) \<le> 64 \<and>
     (case refs_loop None (ers_Entries r) 0 of
        None \<Rightarrow> False
      | Some tot \<Rightarrow> tot \<le> 4096 \<and> Count_Int (ers_Revision r) \<le> tot \<and> tot \<le> 2 * Count_Int (ers_Revision r))"

definition DecodeEscalationRefs :: "string \<Rightarrow> EscalationRefs option" where
  "DecodeEscalationRefs raw =
     (if length raw > EscalationMaxEventBytes then None
      else (case Parse raw of
          Inl _ \<Rightarrow> None
        | Inr v \<Rightarrow> (case json_refs v of Some r \<Rightarrow> if EscalationRefs_Validate r then Some r else None | None \<Rightarrow> None)))"

subsection \<open>Members of a record\<close>

definition HoldConditionKinds :: "string list" where
  "HoldConditionKinds = [HoldConditionCommitContained, HoldConditionPathExists, HoldConditionSymbolDefined]"

definition condition_kind :: "val \<Rightarrow> string" where
  "condition_kind v = (case v of
     VObject kvs \<Rightarrow> (case obj_Get kvs ''kind'' of Some (VString s) \<Rightarrow> s | _ \<Rightarrow> [])
   | _ \<Rightarrow> [])"

definition close_condition :: "string \<Rightarrow> reader \<Rightarrow> unit rd" where
  "close_condition kind r =
     (if kind = HoldConditionCommitContained then rd_Closed [''kind'', ''ref'', ''commit''] r
      else if kind = HoldConditionPathExists then rd_Closed [''kind'', ''ref'', ''path''] r
      else if kind = HoldConditionSymbolDefined then rd_Closed [''kind'', ''ref'', ''path'', ''symbol''] r
      else return ())"

definition condition_fields :: "string \<Rightarrow> string \<Rightarrow> reader \<Rightarrow> HoldCondition rd" where
  "condition_fields k rf r =
     (if k = HoldConditionCommitContained then do {
        c \<leftarrow> rd_at ''commit'' rd_OID r;
        return \<lparr>hc_Kind = k, hc_Ref = rf, hc_Commit = c, hc_Path = [], hc_Symbol = []\<rparr>
      } else if k = HoldConditionPathExists then do {
        p \<leftarrow> rd_at ''path'' rd_Path r;
        return \<lparr>hc_Kind = k, hc_Ref = rf, hc_Commit = [], hc_Path = p, hc_Symbol = []\<rparr>
      } else if k = HoldConditionSymbolDefined then do {
        p \<leftarrow> rd_at ''path'' rd_Path r;
        s \<leftarrow> rd_at ''symbol'' holdConditionSymbol r;
        (if HasSuffix p ''/'' then do { f \<leftarrow> rd_Field ''path'' r; rd_Fail f CodeMalformed } else return ());
        return \<lparr>hc_Kind = k, hc_Ref = rf, hc_Commit = [], hc_Path = p, hc_Symbol = s\<rparr>
      } else return \<lparr>hc_Kind = k, hc_Ref = rf, hc_Commit = [], hc_Path = [], hc_Symbol = []\<rparr>)"

definition ReadHoldCondition :: "reader \<Rightarrow> HoldCondition rd" where
  "ReadHoldCondition r = do {
     close_condition (condition_kind (r_v r)) r;
     k \<leftarrow> rd_at ''kind'' (rd_Enum HoldConditionKinds) r;
     rf \<leftarrow> rd_at ''ref'' holdConditionRef r;
     condition_fields k rf r
   }"

definition HoldCondition_Value :: "HoldCondition \<Rightarrow> val" where
  "HoldCondition_Value c = VObject ([(''kind'', VString (hc_Kind c)), (''ref'', VString (hc_Ref c))] @
     (if hc_Kind c = HoldConditionCommitContained then [(''commit'', VString (hc_Commit c))]
      else if hc_Kind c = HoldConditionPathExists then [(''path'', VString (hc_Path c))]
      else if hc_Kind c = HoldConditionSymbolDefined then [(''path'', VString (hc_Path c)), (''symbol'', VString (hc_Symbol c))]
      else []))"

definition Dependency_Value :: "Dependency \<Rightarrow> val" where
  "Dependency_Value d = VObject [(''ticketId'', VString (t_Raw (d_TicketID d))), (''obligation'', VString (d_Obligation d)),
     (''gateId'', StringOrNull (d_GateID d))]"

definition read_Dependency :: "reader \<Rightarrow> Dependency rd" where
  "read_Dependency d = do {
     rd_Closed [''ticketId'', ''obligation'', ''gateId''] d;
     t \<leftarrow> rd_at ''ticketId'' rd_TicketID d; ob \<leftarrow> rd_at ''obligation'' (rd_Enum Obligations) d;
     g \<leftarrow> rd_at ''gateId'' rd_LabelOrNull d;
     return \<lparr>d_TicketID = t, d_Obligation = ob, d_GateID = g\<rparr>
   }"

definition Source_Value :: "Source \<Rightarrow> val" where
  "Source_Value s = VObject [(''kind'', VString (s_Kind s)), (''sourceQueueId'', VString (s_SourceQueueID s)),
     (''sourceItemId'', StringOrNull (s_SourceItemID s)), (''sourceRevisionSha256'', StringOrNull (s_SourceRevisionSha256 s))]"

definition read_Source :: "reader \<Rightarrow> Source rd" where
  "read_Source src = do {
     rd_Closed [''kind'', ''sourceQueueId'', ''sourceItemId'', ''sourceRevisionSha256''] src;
     k \<leftarrow> rd_at ''kind'' (rd_Enum SourceKinds) src; q \<leftarrow> rd_at ''sourceQueueId'' rd_Identifier src;
     i \<leftarrow> rd_at ''sourceItemId'' (rd_StringOrNull rd_Identifier) src; d \<leftarrow> rd_at ''sourceRevisionSha256'' rd_DigestOrNull src;
     return \<lparr>s_Kind = k, s_SourceQueueID = q, s_SourceItemID = i, s_SourceRevisionSha256 = d\<rparr>
   }"

definition Resource_Value :: "Resource \<Rightarrow> val" where
  "Resource_Value x = VObject [(''class'', VString (res_Class x)), (''key'', VString (res_Key x))]"

definition read_Resource :: "reader \<Rightarrow> Resource rd" where
  "read_Resource rs = do {
     rd_Closed [''class'', ''key''] rs;
     c \<leftarrow> rd_at ''class'' (rd_Enum ResourceClasses) rs; k \<leftarrow> rd_at ''key'' rd_Identifier rs;
     err \<leftarrow> rd_Err;
     (if c = ''PATH'' \<and> err = None then do {
        f \<leftarrow> rd_Field ''key'' rs;
        (case ParsePath (r_where f) k of Inl e \<Rightarrow> rd_Fail f (e_Code e) | Inr _ \<Rightarrow> return ())
      } else return ());
     return \<lparr>res_Class = c, res_Key = k\<rparr>
   }"

definition Effects_Value :: "Effects \<Rightarrow> val" where
  "Effects_Value e = VObject ([(''coverage'', VString (ef_Coverage e)), (''touchPaths'', Strings (ef_TouchPaths e)),
     (''resources'', VArray (map Resource_Value (ef_Resources e))), (''externalUnbounded'', VBool (ef_ExternalUnbounded e))] @
     (case ef_VerdictPaths e of None \<Rightarrow> [] | Some ps \<Rightarrow> [(''verdictPaths'', Strings ps)]))"

definition read_Effects :: "reader \<Rightarrow> Effects rd" where
  "read_Effects ef = do {
     rd_Closed (OptionalKeys (r_v ef) TicketEffectsKeys TicketEffectsOptionalKeys) ef;
     c \<leftarrow> rd_at ''coverage'' (rd_Enum Coverages) ef;
     t \<leftarrow> rd_at ''touchPaths'' (rd_Strings (int MaxTouchPaths) False rd_Path) ef;
     rs \<leftarrow> rd_at ''resources'' (rd_array_each (int MaxResources) False read_Resource) ef;
     u \<leftarrow> rd_at ''externalUnbounded'' rd_Bool ef;
     v \<leftarrow> ReadVerdictPaths ef t;
     return \<lparr>ef_Coverage = c, ef_TouchPaths = t, ef_Resources = rs, ef_ExternalUnbounded = u, ef_VerdictPaths = v\<rparr>
   }"

definition Hold_Value :: "Hold \<Rightarrow> val" where
  "Hold_Value h = VObject ([(''holdId'', VString (h_HoldID h)), (''actor'', VString (h_Actor h)), (''reason'', VString (h_Reason h)),
     (''placedAt'', VString (h_PlacedAt h))] @ (case h_Condition h of None \<Rightarrow> [] | Some c \<Rightarrow> [(''condition'', HoldCondition_Value c)]))"

definition read_Hold :: "reader \<Rightarrow> Hold rd" where
  "read_Hold h = do {
     rd_Closed (OptionalKeys (r_v h) [''holdId'', ''actor'', ''reason'', ''placedAt''] [''condition'']) h;
     i \<leftarrow> rd_at ''holdId'' rd_Label h; a \<leftarrow> rd_at ''actor'' rd_Label h; rs \<leftarrow> rd_at ''reason'' (rd_Prose 0 MaxProseBytes) h;
     at \<leftarrow> rd_at ''placedAt'' rd_Timestamp h;
     c \<leftarrow> rd_optional ''condition'' (rd_some ReadHoldCondition) None h;
     return \<lparr>h_HoldID = i, h_Actor = a, h_Reason = rs, h_PlacedAt = at, h_Condition = c\<rparr>
   }"

definition Approval_Value :: "Approval \<Rightarrow> val" where
  "Approval_Value a = VObject [(''grantId'', VString (a_GrantID a)), (''actor'', VString (a_Actor a)), (''operation'', VString (a_Operation a)),
     (''targetRevision'', VString (a_TargetRevision a)), (''scope'', Strings (a_Scope a)), (''revoked'', VBool (a_Revoked a)),
     (''grantedAt'', VString (a_GrantedAt a))]"

definition read_Approval :: "reader \<Rightarrow> Approval rd" where
  "read_Approval a = do {
     rd_Closed [''grantId'', ''actor'', ''operation'', ''targetRevision'', ''scope'', ''revoked'', ''grantedAt''] a;
     g \<leftarrow> rd_at ''grantId'' rd_Label a; ac \<leftarrow> rd_at ''actor'' rd_Label a; op \<leftarrow> rd_at ''operation'' (rd_Enum ApprovalOps) a;
     t \<leftarrow> rd_at ''targetRevision'' rd_Count a; sc \<leftarrow> rd_at ''scope'' (rd_Strings (-1) False rd_Identifier) a;
     rv \<leftarrow> rd_at ''revoked'' rd_Bool a; at \<leftarrow> rd_at ''grantedAt'' rd_Timestamp a;
     return \<lparr>a_GrantID = g, a_Actor = ac, a_Operation = op, a_TargetRevision = t, a_Scope = sc, a_Revoked = rv, a_GrantedAt = at\<rparr>
   }"

definition Completion_Value :: "Completion option \<Rightarrow> val" where
  "Completion_Value cp = (case cp of
     None \<Rightarrow> VNull
   | Some c \<Rightarrow> VObject [(''kind'', VString (c_Kind c)), (''actor'', VString (c_Actor c)), (''reason'', StringOrNull (c_Reason c)),
       (''evidence'', Strings (c_Evidence c)), (''manifestSha256'', StringOrNull (c_ManifestSha256 c)), (''recordedAt'', VString (c_RecordedAt c))])"

definition read_Completion :: "reader \<Rightarrow> Completion option rd" where
  "read_Completion cp =
     (if IsNull cp then return None
      else do {
        rd_Closed [''kind'', ''actor'', ''reason'', ''evidence'', ''manifestSha256'', ''recordedAt''] cp;
        k \<leftarrow> rd_at ''kind'' (rd_Enum CompletionKinds) cp; a \<leftarrow> rd_at ''actor'' rd_Label cp;
        rs \<leftarrow> rd_at ''reason'' (rd_ProseOrNull MaxProseBytes) cp; ev \<leftarrow> rd_at ''evidence'' (rd_array_each (-1) False rd_Digest) cp;
        mf \<leftarrow> rd_at ''manifestSha256'' rd_DigestOrNull cp; at \<leftarrow> rd_at ''recordedAt'' rd_Timestamp cp;
        return (Some \<lparr>c_Kind = k, c_Actor = a, c_Reason = rs, c_Evidence = ev, c_ManifestSha256 = mf, c_RecordedAt = at\<rparr>)
      })"

subsection \<open>The record\<close>

definition ticketOrNull :: "TicketID option \<Rightarrow> val" where
  "ticketOrNull t = (case t of None \<Rightarrow> VNull | Some t \<Rightarrow> VString (t_Raw t))"

definition read_Priority :: "reader \<Rightarrow> string rd" where
  "read_Priority pr = do {
     ps \<leftarrow> rd_String pr;
     err \<leftarrow> rd_Err;
     (if err = None \<and> ps \<notin> set Priorities then rd_Fail pr CodeInvalidPriority else return ());
     return ps
   }"

definition read_Date :: "reader \<Rightarrow> string rd" where
  "read_Date dd = do {
     s \<leftarrow> rd_String dd;
     err \<leftarrow> rd_Err;
     (if err = None \<and> ParseDate (r_where dd) s \<noteq> Inr s then rd_Fail dd CodeMalformed else return ());
     return s
   }"

text \<open>The fields of \<^verbatim>\<open>FromValue\<close> in the order they are read, in five groups.\<close>

definition read_optional_members :: "reader \<Rightarrow> Record \<Rightarrow> Record rd" where
  "read_optional_members r x = do {
     ro \<leftarrow> rd_optional ''requiredRoles'' (rd_some ReadStageRoles) None r;
     pq \<leftarrow> rd_optional ''executionPrerequisites'' ReadPrerequisites [] r;
     ae \<leftarrow> rd_optional ''attachedEvidence'' ReadAttachedEvidence [] r;
     pg \<leftarrow> rd_optional ''progress'' ReadProgress [] r;
     kh \<leftarrow> rd_optional ''knowHow'' ReadKnowHow [] r;
     ob \<leftarrow> rd_optional ''obligations'' ReadObligationsReference None r;
     return (x\<lparr>rec_RequiredRoles := ro, rec_ExecutionPrerequisites := pq, rec_AttachedEvidence := ae, rec_Progress := pg,
       rec_KnowHow := kh, rec_ObligationsRef := ob\<rparr>)
   }"

definition read_identity :: "reader \<Rightarrow> Record \<Rightarrow> Record rd" where
  "read_identity r x = do {
     t \<leftarrow> rd_at ''ticketId'' rd_TicketID r; rev \<leftarrow> rd_at ''revision'' rd_Count r; acc \<leftarrow> rd_at ''acceptanceRevision'' rd_Count r;
     prv \<leftarrow> rd_at ''previousRecordSha256'' rd_DigestOrNull r; st \<leftarrow> rd_at ''status'' (rd_Enum Statuses) r;
     af \<leftarrow> rd_at ''archivedFrom'' (rd_unless_null (rd_Enum ArchivedFroms)) r;
     ti \<leftarrow> rd_at ''title'' (rd_Prose 1 MaxTitleBytes) r; bo \<leftarrow> rd_at ''body'' (rd_ProseOrNull MaxBodyBytes) r;
     ki \<leftarrow> rd_at ''kind'' (rd_Enum Kinds) r;
     return (x\<lparr>rec_TicketID := t, rec_Revision := rev, rec_AcceptanceRevision := acc, rec_PreviousRecordSha256 := prv, rec_Status := st,
       rec_ArchivedFrom := af, rec_Title := ti, rec_Body := bo, rec_Kind := ki\<rparr>)
   }"

definition read_planning :: "reader \<Rightarrow> Record \<Rightarrow> Record rd" where
  "read_planning r x = do {
     po \<leftarrow> rd_optional ''requiresPool'' rd_Label [] r;
     ow \<leftarrow> rd_at ''owner'' rd_LabelOrNull r; mi \<leftarrow> rd_at ''milestone'' rd_LabelOrNull r;
     pr \<leftarrow> rd_at ''priority'' read_Priority r; od \<leftarrow> rd_at ''order'' rd_Count r;
     la \<leftarrow> rd_at ''labels'' (rd_Strings (int MaxLabels) False rd_Label) r;
     de \<leftarrow> rd_at ''dependencies'' (rd_array_each (int MaxDependencies) True read_Dependency) r;
     cr \<leftarrow> rd_at ''acceptanceCriteria'' (rd_Strings (int MaxAcceptanceCriteria) True (rd_Prose 0 MaxCriterionBytes)) r;
     rr \<leftarrow> rd_at ''requirementRefs'' (rd_Strings (int MaxRequirementRefs) False rd_Identifier) r;
     return (x\<lparr>rec_RequiresPool := po, rec_Owner := ow, rec_Milestone := mi, rec_Priority := pr, rec_Order := od, rec_Labels := la,
       rec_Dependencies := de, rec_AcceptanceCriteria := cr, rec_RequirementRefs := rr\<rparr>)
   }"

definition read_execution :: "reader \<Rightarrow> Record \<Rightarrow> Record rd" where
  "read_execution r x = do {
     so \<leftarrow> rd_at ''source'' read_Source r; ef \<leftarrow> rd_at ''effects'' read_Effects r;
     ca \<leftarrow> rd_at ''capabilities'' (rd_Strings (int MaxCapabilities) False rd_Identifier) r;
     rg \<leftarrow> rd_at ''requiredGates'' (rd_Strings (int MaxRequiredGates) False rd_Label) r;
     ho \<leftarrow> rd_at ''holds'' (rd_array_each (int MaxHolds) True read_Hold) r;
     ec \<leftarrow> rd_at ''executionClass'' (rd_Enum ExecutionClasses) r;
     ap \<leftarrow> rd_at ''approvals'' (rd_array_each (int MaxApprovals) True read_Approval) r;
     cp \<leftarrow> rd_at ''completion'' read_Completion r;
     return (x\<lparr>rec_Source := so, rec_Effects := ef, rec_Capabilities := ca, rec_RequiredGates := rg, rec_Holds := ho,
       rec_ExecutionClass := ec, rec_Approvals := ap, rec_Completion := cp\<rparr>)
   }"

definition read_tail :: "reader \<Rightarrow> Record \<Rightarrow> Record rd" where
  "read_tail r x = do {
     dd \<leftarrow> rd_at ''dueDate'' (rd_unless_null read_Date) r; em \<leftarrow> rd_at ''estimateMinutes'' rd_CountOrNull r;
     sp \<leftarrow> rd_at ''supersedes'' (rd_unless_null rd_TicketID) r; sb \<leftarrow> rd_at ''supersededBy'' (rd_unless_null rd_TicketID) r;
     sh \<leftarrow> rd_at ''shadowOverlay'' rd_Bool r; cat \<leftarrow> rd_at ''createdAt'' rd_Timestamp r;
     uat \<leftarrow> rd_at ''updatedAt'' rd_Timestamp r; ub \<leftarrow> rd_at ''updatedBy'' rd_Label r;
     return (x\<lparr>rec_DueDate := dd, rec_EstimateMinutes := em, rec_Supersedes := sp, rec_SupersededBy := sb, rec_ShadowOverlay := sh,
       rec_CreatedAt := cat, rec_UpdatedAt := uat, rec_UpdatedBy := ub\<rparr>)
   }"

definition read_record :: "reader \<Rightarrow> Record \<Rightarrow> Record rd" where
  "read_record r x = do {
     x \<leftarrow> read_optional_members r x; x \<leftarrow> read_identity r x; x \<leftarrow> read_planning r x; x \<leftarrow> read_execution r x; read_tail r x
   }"

definition read_escalations :: "val \<Rightarrow> EscalationRefs option res" where
  "read_escalations v = (case v of
     VObject kvs \<Rightarrow>
       (case obj_Get kvs ''escalations'' of
          None \<Rightarrow> Inr None
        | Some f \<Rightarrow> (case DecodeEscalationRefs (EncodeFile f) of
              None \<Rightarrow> Inl (Errorf CodeMalformed ''/escalations'') | Some refs \<Rightarrow> Inr (Some refs)))
   | _ \<Rightarrow> Inr None)"

definition field_value :: "val \<Rightarrow> string \<Rightarrow> val option" where
  "field_value v key = (case v of VObject kvs \<Rightarrow> obj_Get kvs key | _ \<Rightarrow> None)"

text \<open>
  \<^verbatim>\<open>FromValue\<close>; \<open>flip\<close> is the order in which \<^verbatim>\<open>validate\<close> meets its two references. The profile member is
  read before it is compared: a value of another kind reads as the empty string.
\<close>

definition FromValue :: "bool \<Rightarrow> val \<Rightarrow> Record res" where
  "FromValue flip v =
     (let r = fst (NewReader v ''/'')
      in rbind (ProfileVersion ''/profile'' v Profile) (\<lambda>_.
         rbind (run_reader (rd_Closed (OptionalKeys v TicketRecordKeys TicketRecordOptionalKeys) r)) (\<lambda>_.
         rbind (CheckProfile ''/profile'' (fst (run_state (rd_at ''profile'' rd_String r) fresh)) Profile) (\<lambda>_.
         rbind (case field_value v ''operatorNote'' of
             None \<Rightarrow> Inr None | Some w \<Rightarrow> map_sum id Some (OperatorNoteReferenceFromValue w)) (\<lambda>note.
         rbind (case field_value v ''externalReviews'' of None \<Rightarrow> Inr [] | Some w \<Rightarrow> ExternalReviewsFromValue w) (\<lambda>reviews.
         rbind (run_reader (read_record r (zero_Record\<lparr>rec_OperatorNote := note, rec_ExternalReviews := reviews\<rparr>))) (\<lambda>x.
         rbind (read_escalations v) (\<lambda>esc.
           let x = x\<lparr>rec_Escalations := esc\<rparr>
           in rbind (validate flip x) (\<lambda>_. Inr x)))))))))"

definition Decode :: "bool \<Rightarrow> string \<Rightarrow> Record res" where
  "Decode flip data =
     (if length data > MaxTicketFileBytes then Inl (Errorf CodeLimitExceeded ''/'')
      else rbind (Parse data) (FromValue flip))"

definition record_members :: "Record \<Rightarrow> object" where
  "record_members x =
     [(''profile'', VString Profile), (''ticketId'', VString (t_Raw (rec_TicketID x))), (''revision'', VString (rec_Revision x)),
      (''acceptanceRevision'', VString (rec_AcceptanceRevision x)), (''previousRecordSha256'', StringOrNull (rec_PreviousRecordSha256 x)),
      (''status'', VString (rec_Status x)), (''archivedFrom'', StringOrNull (rec_ArchivedFrom x)), (''title'', VString (rec_Title x)),
      (''body'', StringOrNull (rec_Body x)), (''kind'', VString (rec_Kind x))] @
     (case rec_RequiredRoles x of None \<Rightarrow> [] | Some ro \<Rightarrow> [(''requiredRoles'', StageRolesValue ro)]) @
     (if rec_RequiresPool x \<noteq> [] then [(''requiresPool'', VString (rec_RequiresPool x))] else []) @
     (case rec_Escalations x of None \<Rightarrow> [] | Some es \<Rightarrow> [(''escalations'', escalationRefsValue es)]) @
     (case rec_OperatorNote x of None \<Rightarrow> [] | Some n \<Rightarrow> [(''operatorNote'', OperatorNote_Value n)]) @
     (if rec_ExternalReviews x \<noteq> [] then [(''externalReviews'', ExternalReviewsValue (rec_ExternalReviews x))] else []) @
     (if rec_ExecutionPrerequisites x \<noteq> [] then [(''executionPrerequisites'', PrerequisitesValue (rec_ExecutionPrerequisites x))] else []) @
     (if rec_AttachedEvidence x \<noteq> [] then [(''attachedEvidence'', AttachedEvidenceValue (rec_AttachedEvidence x))] else []) @
     (if rec_Progress x \<noteq> [] then [(''progress'', ProgressValue (rec_Progress x))] else []) @
     (if rec_KnowHow x \<noteq> [] then [(''knowHow'', KnowHowValue (rec_KnowHow x))] else []) @
     (case rec_ObligationsRef x of None \<Rightarrow> [] | Some ob \<Rightarrow> [(''obligations'', ObligationsReference_Value ob)]) @
     [(''owner'', StringOrNull (rec_Owner x)), (''milestone'', StringOrNull (rec_Milestone x)), (''priority'', VString (rec_Priority x)),
      (''order'', VString (rec_Order x)), (''labels'', Strings (rec_Labels x)),
      (''dependencies'', VArray (map Dependency_Value (rec_Dependencies x))), (''acceptanceCriteria'', Strings (rec_AcceptanceCriteria x)),
      (''requirementRefs'', Strings (rec_RequirementRefs x)), (''source'', Source_Value (rec_Source x)),
      (''effects'', Effects_Value (rec_Effects x)), (''capabilities'', Strings (rec_Capabilities x)),
      (''requiredGates'', Strings (rec_RequiredGates x)), (''holds'', VArray (map Hold_Value (rec_Holds x))),
      (''executionClass'', VString (rec_ExecutionClass x)), (''approvals'', VArray (map Approval_Value (rec_Approvals x))),
      (''completion'', Completion_Value (rec_Completion x)), (''dueDate'', StringOrNull (rec_DueDate x)),
      (''estimateMinutes'', StringOrNull (rec_EstimateMinutes x)), (''supersedes'', ticketOrNull (rec_Supersedes x)),
      (''supersededBy'', ticketOrNull (rec_SupersededBy x)), (''shadowOverlay'', VBool (rec_ShadowOverlay x)),
      (''createdAt'', VString (rec_CreatedAt x)), (''updatedAt'', VString (rec_UpdatedAt x)), (''updatedBy'', VString (rec_UpdatedBy x))]"

definition Record_Value :: "Record \<Rightarrow> val" where
  "Record_Value x = VObject (record_members x)"

definition Record_Encode :: "Record \<Rightarrow> string" where
  "Record_Encode x = EncodeFile (Record_Value x)"

text \<open>The digest \<^verbatim>\<open>wire.Sum\<close> (SHA-256) is a parameter.\<close>

definition FileDigest :: "(string \<Rightarrow> string) \<Rightarrow> Record \<Rightarrow> string" where
  "FileDigest sha256 x = sha256 (Record_Encode x)"

end
