(* ===== verification/Ticket_Parts.thy ===== *)
theory Ticket_Parts
  imports Ticket_Codec
begin

text \<open>
  The bytes of a ticket record are recomputed from the decoded record: every reader of
  \<^verbatim>\<open>Ticket_Codec\<close> meets the contract of an inverse reader, and so does the decoder of the whole file.
\<close>

subsection \<open>Closed objects\<close>

definition member :: "object \<Rightarrow> string \<Rightarrow> val \<Rightarrow> bool" where
  "member kvs k w \<longleftrightarrow> (\<exists>v. obj_Get kvs k = Some v \<and> canon v = canon w)"

definition wf_obj :: "object \<Rightarrow> bool" where
  "wf_obj kvs \<longleftrightarrow> distinct_val (VObject kvs)"

definition renders :: "object \<Rightarrow> object \<Rightarrow> bool" where
  "renders kvs ms \<longleftrightarrow> distinct (map fst ms) \<and> list_all (\<lambda>(k, w). member kvs k w) ms \<and>
     (\<exists>keys. closed_ok keys kvs \<and> set keys \<subseteq> fst ` set ms)"

lemma renders_canon:
  assumes "renders kvs ms" "wf_obj kvs"
  shows "canon (VObject kvs) = canon (VObject ms)"
proof -
  obtain keys where keys: "closed_ok keys kvs" "set keys \<subseteq> fst ` set ms" using assms(1) by (auto simp: renders_def)
  have m: "\<exists>v. obj_Get kvs k = Some v \<and> canon v = canon w" if "(k, w) \<in> set ms" for k w
    using assms(1) that by (auto simp: renders_def list_all_iff member_def)
  have "fst ` set ms \<subseteq> set keys"
  proof
    fix k assume "k \<in> fst ` set ms"
    then have "k \<in> set (obj_Keys kvs)" using m by (metis (no_types, lifting) imageE obj_Get_None option.distinct(1) prod.collapse)
    then show "k \<in> set keys" using keys(1) by (auto simp: closed_ok_def filter_empty_conv)
  qed
  then have "set (map fst ms) = set keys" using keys(2) by auto
  then show ?thesis
    using assms(2) assms(1) m by (intro closed_object [OF keys(1)]) (auto simp: wf_obj_def renders_def)
qed

lemma object_reader:
  assumes "\<And>r. sticky (rd r)" "\<And>r x. yields (rd r) x \<Longrightarrow> \<exists>kvs. r_v r = VObject kvs"
    and "\<And>kvs loc x. yields (rd \<lparr>r_v = VObject kvs, r_where = loc\<rparr>) x \<Longrightarrow> wf_obj kvs \<Longrightarrow> renders kvs (ms x)"
  shows "inverse_reader rd (\<lambda>x. VObject (ms x))"
proof
  fix r :: reader and x
  assume y: "yields (rd r) x" and d: "distinct_val (r_v r)"
  obtain kvs where k: "r_v r = VObject kvs" using assms(2) [OF y] by blast
  then have "r = \<lparr>r_v = VObject kvs, r_where = r_where r\<rparr>" by (cases r) simp
  then have "yields (rd \<lparr>r_v = VObject kvs, r_where = r_where r\<rparr>) x" using y by simp
  then have "renders kvs (ms x)" using assms(3) d k by (simp add: wf_obj_def)
  then show "canon (r_v r) = canon (VObject (ms x))" using renders_canon d k by (simp add: wf_obj_def)
qed (rule assms(1))

lemma renders_intro:
  "closed_ok keys kvs \<Longrightarrow> set keys \<subseteq> fst ` set ms \<Longrightarrow> distinct (map fst ms) \<Longrightarrow> list_all (\<lambda>(k, w). member kvs k w) ms \<Longrightarrow> renders kvs ms"
  by (auto simp: renders_def)

lemma at_member:
  assumes "inverse_reader rd render" "yields (rd_at key rd \<lparr>r_v = VObject kvs, r_where = loc\<rparr>) x" "wf_obj kvs"
  shows "member kvs key (render x)"
  using inverse_reader.at_object [OF assms(1,2)] assms(3) by (auto simp: member_def wf_obj_def)

lemmas scalar_axioms =
  String_inverse.inverse_reader_axioms Enum_inverse.inverse_reader_axioms Bool_inverse.inverse_reader_axioms
  Identifier_inverse.inverse_reader_axioms Label_inverse.inverse_reader_axioms Prose_inverse.inverse_reader_axioms
  Count_inverse.inverse_reader_axioms Size_inverse.inverse_reader_axioms Digest_inverse.inverse_reader_axioms
  Path_inverse.inverse_reader_axioms OID_inverse.inverse_reader_axioms Timestamp_inverse.inverse_reader_axioms
  TicketID_inverse.inverse_reader_axioms DigestOrNull_inverse.inverse_reader_axioms LabelOrNull_inverse.inverse_reader_axioms
  ProseOrNull_inverse.inverse_reader_axioms CountOrNull_inverse.inverse_reader_axioms SizeOrNull_inverse.inverse_reader_axioms

lemmas scalar_members = scalar_axioms [THEN at_member]
lemmas scalar_sticky = scalar_axioms [THEN inverse_reader.stuck]

lemmas prog_simps = yields_bind yields_return yields_Err yields_Fail sticky_bind sticky_return sticky_Err sticky_Fail sticky_Field sticky_at
  sticky_optional sticky_get sticky_each sticky_Array Closed_reader.is_sticky Closed_reader.yields_dec dec_closed_iff

interpretation Dependency_inverse: inverse_reader read_Dependency Dependency_Value
  unfolding Dependency_Value_def [abs_def]
  by (rule object_reader)
    (auto simp: read_Dependency_def prog_simps scalar_sticky dest!: scalar_members intro!: renders_intro)

subsection \<open>The members of a record\<close>

interpretation IdentifierOrNull_inverse: inverse_reader "rd_StringOrNull rd_Identifier" StringOrNull
  unfolding rd_StringOrNull_def by (rule or_null_inverse) unfold_locales

interpretation OIDOrNull_inverse: inverse_reader "rd_StringOrNull rd_OID" StringOrNull
  unfolding rd_StringOrNull_def by (rule or_null_inverse) unfold_locales

interpretation Identifiers_inverse: inverse_reader "rd_Strings mx sem rd_Identifier" Strings
  by (rule strings_inverse) unfold_locales

interpretation Labels_inverse: inverse_reader "rd_Strings mx sem rd_Label" Strings
  by (rule strings_inverse) unfold_locales

interpretation Paths_inverse: inverse_reader "rd_Strings mx sem rd_Path" Strings
  by (rule strings_inverse) unfold_locales

interpretation Proses_inverse: inverse_reader "rd_Strings mx sem (rd_Prose mn mb)" Strings
  by (rule strings_inverse) unfold_locales

interpretation Enums_inverse: inverse_reader "rd_Strings mx sem (rd_Enum xs)" Strings
  by (rule strings_inverse) unfold_locales

lemma digests_inverse: "inverse_reader (rd_array_each mx sem rd_Digest) Strings"
  using Digest_inverse.array_each [of mx sem] by (simp add: Strings_def [abs_def])

interpretation Digests_inverse: inverse_reader "rd_array_each mx sem rd_Digest" Strings
  by (rule digests_inverse)

lemma unless_null_inverse:
  assumes "inverse_reader rd render"
  shows "inverse_reader (rd_unless_null rd) (\<lambda>x. case x of None \<Rightarrow> VNull | Some y \<Rightarrow> render y)"
  by unfold_locales
    (use inverse_reader.stuck [OF assms] inverse_reader.inverse [OF assms] in
      \<open>auto simp: rd_unless_null_def rd_some_def prog_simps IsNull_def split: if_splits\<close>)

lemma grammar_inverse: "inverse_reader (rd_grammar parse) VString"
  unfolding rd_grammar_def
  by (rule returns_inverse [OF rd_with_reader]) (auto intro!: returns_input_with split: sum.splits)

interpretation Symbol_inverse: inverse_reader ReadKnowHowSymbol VString
  unfolding ReadKnowHowSymbol_def by (rule grammar_inverse)

interpretation Repository_inverse: inverse_reader ReadKnowHowRepository VString
  unfolding ReadKnowHowRepository_def by (rule grammar_inverse)

interpretation File_inverse: inverse_reader ReadKnowHowFile VString
  unfolding ReadKnowHowFile_def by (rule Path_inverse.checked)

interpretation FileOrNull_inverse: inverse_reader "rd_StringOrNull ReadKnowHowFile" StringOrNull
  unfolding rd_StringOrNull_def by (rule or_null_inverse) unfold_locales

interpretation Routes_inverse: inverse_reader ReadKnowHowRoutes Strings
  unfolding ReadKnowHowRoutes_def by (rule strings_inverse [OF grammar_inverse])

interpretation Ref_inverse: inverse_reader holdConditionRef VString
  unfolding holdConditionRef_def by (rule grammar_inverse)

interpretation HoldSymbol_inverse: inverse_reader holdConditionSymbol VString
  unfolding holdConditionSymbol_def by (rule grammar_inverse)

interpretation Prefix_inverse: inverse_reader readObligationPrefix VString
  unfolding readObligationPrefix_def by (rule grammar_inverse)

lemma nonblank_inverse: "inverse_reader (read_nonblank mx) VString"
  unfolding read_nonblank_def by (rule Prose_inverse.checked)

interpretation EvidenceReason_inverse: inverse_reader ReadEvidenceReason VString
  unfolding ReadEvidenceReason_def by (rule nonblank_inverse)

interpretation ProgressReason_inverse: inverse_reader readProgressReason VString
  unfolding readProgressReason_def by (rule nonblank_inverse)

interpretation ProgressReasonOrNull_inverse: inverse_reader "rd_StringOrNull readProgressReason" StringOrNull
  unfolding rd_StringOrNull_def by (rule or_null_inverse) unfold_locales

interpretation KnowHowText_inverse: inverse_reader ReadKnowHowText VString
  unfolding ReadKnowHowText_def by (rule nonblank_inverse)

interpretation KnowHowReason_inverse: inverse_reader ReadKnowHowReason VString
  unfolding ReadKnowHowReason_def by (rule nonblank_inverse)

interpretation EvidenceDigests_inverse: inverse_reader ReadEvidenceDigests Strings
  unfolding ReadEvidenceDigests_def by (rule Digests_inverse.checked)

lemma unless_null_string: "inverse_reader rd VString \<Longrightarrow> inverse_reader (rd_unless_null rd) StringOrNull"
  using unless_null_inverse [of rd VString] by (simp add: StringOrNull_def [abs_def])

interpretation ReasonUnlessNull_inverse: inverse_reader "rd_unless_null ReadKnowHowReason" StringOrNull
  by (rule unless_null_string) unfold_locales

lemmas text_axioms =
  IdentifierOrNull_inverse.inverse_reader_axioms OIDOrNull_inverse.inverse_reader_axioms Identifiers_inverse.inverse_reader_axioms
  Labels_inverse.inverse_reader_axioms Paths_inverse.inverse_reader_axioms Proses_inverse.inverse_reader_axioms
  Enums_inverse.inverse_reader_axioms Digests_inverse.inverse_reader_axioms Symbol_inverse.inverse_reader_axioms
  Repository_inverse.inverse_reader_axioms File_inverse.inverse_reader_axioms FileOrNull_inverse.inverse_reader_axioms
  Routes_inverse.inverse_reader_axioms Ref_inverse.inverse_reader_axioms HoldSymbol_inverse.inverse_reader_axioms
  Prefix_inverse.inverse_reader_axioms EvidenceReason_inverse.inverse_reader_axioms ProgressReasonOrNull_inverse.inverse_reader_axioms
  KnowHowText_inverse.inverse_reader_axioms KnowHowReason_inverse.inverse_reader_axioms EvidenceDigests_inverse.inverse_reader_axioms
  ReasonUnlessNull_inverse.inverse_reader_axioms

lemmas members = scalar_members text_axioms [THEN at_member]
lemmas prog = prog_simps scalar_sticky text_axioms [THEN inverse_reader.stuck]

interpretation Source_inverse: inverse_reader read_Source Source_Value
  unfolding Source_Value_def [abs_def]
  by (rule object_reader) (auto simp: read_Source_def prog dest!: members intro!: renders_intro)

interpretation Resource_inverse: inverse_reader read_Resource Resource_Value
  unfolding Resource_Value_def [abs_def]
  by (rule object_reader)
    (auto simp: read_Resource_def prog dest!: members intro!: renders_intro split: sum.splits)

interpretation Approval_inverse: inverse_reader read_Approval Approval_Value
  unfolding Approval_Value_def [abs_def]
  by (rule object_reader) (auto simp: read_Approval_def prog dest!: members intro!: renders_intro)

interpretation AttachedEvidence_inverse: inverse_reader read_AttachedEvidence AttachedEvidence_Value
  unfolding AttachedEvidence_Value_def [abs_def]
  by (rule object_reader) (auto simp: read_AttachedEvidence_def prog dest!: members intro!: renders_intro)

interpretation OperatorNote_inverse: inverse_reader read_OperatorNote OperatorNote_Value
  unfolding OperatorNote_Value_def [abs_def]
  by (rule object_reader) (auto simp: read_OperatorNote_def prog dest!: members intro!: renders_intro)

interpretation ExternalReviewRef_inverse: inverse_reader read_ExternalReviewRef ExternalReviewRef_Value
  unfolding ExternalReviewRef_Value_def [abs_def]
  by (rule object_reader) (auto simp: read_ExternalReviewRef_def prog dest!: members intro!: renders_intro)

lemma optional_closed:
  assumes "closed_ok (OptionalKeys (VObject kvs) req opt) kvs" "k \<in> set (OptionalKeys (VObject kvs) req opt)"
  shows "k \<in> set req \<or> k \<in> set opt \<and> obj_Get kvs k \<noteq> None"
  using assms by (auto simp: OptionalKeys_def)

lemma OptionalKeys_one:
  "OptionalKeys (VObject kvs) req [k] = req @ (if obj_Get kvs k = None then [] else [k])"
  by (simp add: OptionalKeys_def)

lemma val_Has_obj [simp]: "val_Has (VObject kvs) k \<longleftrightarrow> obj_Get kvs k \<noteq> None"
  by (simp add: val_Has_def)

lemma VerdictPaths_read:
  assumes "yields (ReadVerdictPaths \<lparr>r_v = VObject kvs, r_where = loc\<rparr> touch) v" "wf_obj kvs"
  shows "case v of None \<Rightarrow> obj_Get kvs ''verdictPaths'' = None | Some ps \<Rightarrow> member kvs ''verdictPaths'' (Strings ps)"
proof (cases "obj_Get kvs ''verdictPaths''")
  case None
  then show ?thesis using assms by (auto simp: ReadVerdictPaths_def prog simp del: obj_Get_None)
next
  case (Some w)
  then obtain ps where ps: "v = Some ps" "yields (rd_at ''verdictPaths'' (rd_Strings (int MaxTouchPaths) False rd_Path) \<lparr>r_v = VObject kvs, r_where = loc\<rparr>) ps"
    using assms by (auto simp: ReadVerdictPaths_def prog rd_at_def simp del: obj_Get_None split: if_splits)
  then show ?thesis using assms(2) by (auto dest: members)
qed

lemma sticky_VerdictPaths: "sticky (ReadVerdictPaths r touch)"
  by (simp add: ReadVerdictPaths_def prog)

interpretation Resources_inverse: inverse_reader "rd_array_each mx sem read_Resource" "\<lambda>xs. VArray (map Resource_Value xs)"
  by (rule Resource_inverse.array_each)

interpretation Effects_inverse: inverse_reader read_Effects Effects_Value
  unfolding Effects_Value_def [abs_def]
proof (rule object_reader)
  show "sticky (read_Effects r)" for r
    by (simp add: read_Effects_def prog sticky_VerdictPaths Resources_inverse.stuck)
  show "\<exists>kvs. r_v r = VObject kvs" if "yields (read_Effects r) x" for r x
    using that by (auto simp: read_Effects_def prog sticky_VerdictPaths Resources_inverse.stuck)
next
  fix kvs loc x
  assume y: "yields (read_Effects \<lparr>r_v = VObject kvs, r_where = loc\<rparr>) x" and w: "wf_obj kvs"
  show "renders kvs ([(''coverage'', VString (ef_Coverage x)), (''touchPaths'', Strings (ef_TouchPaths x)),
     (''resources'', VArray (map Resource_Value (ef_Resources x))), (''externalUnbounded'', VBool (ef_ExternalUnbounded x))] @
     (case ef_VerdictPaths x of None \<Rightarrow> [] | Some ps \<Rightarrow> [(''verdictPaths'', Strings ps)]))"
    using y w
    by (auto simp: read_Effects_def prog sticky_VerdictPaths Resources_inverse.stuck TicketEffectsKeys_def TicketEffectsOptionalKeys_def
        OptionalKeys_one dest!: members Resources_inverse.inverse_reader_axioms [THEN at_member] VerdictPaths_read
        intro!: renders_intro split: option.splits if_splits simp del: obj_Get_None)
qed

lemma condition_kind_read:
  assumes "yields (rd_at ''kind'' (rd_Enum xs) \<lparr>r_v = VObject kvs, r_where = loc\<rparr>) k"
  shows "condition_kind (VObject kvs) = k \<and> k \<in> set xs"
proof -
  obtain v l where v: "obj_Get kvs ''kind'' = Some v" "dec_enum xs l v = Inr k"
    using assms by (auto simp: run_simps)
  then have "v = VString k" using returns_input_rules(2) by (auto simp: returns_input_def)
  then show ?thesis using v by (auto simp: condition_kind_def dec_enum_def dec_with_def dec_string_def split: if_splits)
qed

lemma condition_kinds_distinct [simp]:
  "HoldConditionCommitContained \<noteq> HoldConditionPathExists" "HoldConditionPathExists \<noteq> HoldConditionCommitContained"
  "HoldConditionCommitContained \<noteq> HoldConditionSymbolDefined" "HoldConditionSymbolDefined \<noteq> HoldConditionCommitContained"
  "HoldConditionPathExists \<noteq> HoldConditionSymbolDefined" "HoldConditionSymbolDefined \<noteq> HoldConditionPathExists"
  by (simp_all add: HoldConditionCommitContained_def HoldConditionPathExists_def HoldConditionSymbolDefined_def)

lemma sticky_conditions: "sticky (close_condition k r)" "sticky (condition_fields k rf r)"
  by (simp_all add: close_condition_def condition_fields_def prog)

interpretation HoldCondition_inverse: inverse_reader ReadHoldCondition HoldCondition_Value
  unfolding HoldCondition_Value_def [abs_def]
proof (rule object_reader)
  show "sticky (ReadHoldCondition r)" for r by (simp add: ReadHoldCondition_def prog sticky_conditions)
  show "\<exists>kvs. r_v r = VObject kvs" if "yields (ReadHoldCondition r) x" for r x
    using that by (auto simp: ReadHoldCondition_def prog sticky_conditions yields_at)
next
  fix kvs loc x
  assume y: "yields (ReadHoldCondition \<lparr>r_v = VObject kvs, r_where = loc\<rparr>) x" and w: "wf_obj kvs"
  let ?r = "\<lparr>r_v = VObject kvs, r_where = loc\<rparr>"
  obtain k rf where k: "yields (rd_at ''kind'' (rd_Enum HoldConditionKinds) ?r) k"
    and rf: "yields (rd_at ''ref'' holdConditionRef ?r) rf" "yields (condition_fields k rf ?r) x"
    and closed: "yields (close_condition (condition_kind (VObject kvs)) ?r) ()"
    using y by (auto simp: ReadHoldCondition_def prog sticky_conditions)
  note kind = condition_kind_read [OF k]
  consider "k = HoldConditionCommitContained" | "k = HoldConditionPathExists" | "k = HoldConditionSymbolDefined"
    using kind by (auto simp: HoldConditionKinds_def)
  then show "renders kvs ([(''kind'', VString (hc_Kind x)), (''ref'', VString (hc_Ref x))] @
     (if hc_Kind x = HoldConditionCommitContained then [(''commit'', VString (hc_Commit x))]
      else if hc_Kind x = HoldConditionPathExists then [(''path'', VString (hc_Path x))]
      else if hc_Kind x = HoldConditionSymbolDefined then [(''path'', VString (hc_Path x)), (''symbol'', VString (hc_Symbol x))]
      else []))"
    using k rf closed kind w
    by cases (auto simp: prog close_condition_def condition_fields_def dest!: members intro!: renders_intro split: if_splits)
qed

lemma some_inverse:
  assumes "inverse_reader rd render"
  shows "inverse_reader (rd_some rd) (\<lambda>x. case x of None \<Rightarrow> VNull | Some y \<Rightarrow> render y)"
  by unfold_locales
    (use inverse_reader.stuck [OF assms] inverse_reader.inverse [OF assms] in \<open>auto simp: rd_some_def prog_simps\<close>)

lemma yields_some: "(\<And>r. sticky (rd r)) \<Longrightarrow> yields (rd_some rd r) x \<longleftrightarrow> (\<exists>y. x = Some y \<and> yields (rd r) y)"
  by (auto simp: rd_some_def prog_simps)

text \<open>An optional member: rendered exactly when it was present.\<close>

lemma optional_some:
  assumes "inverse_reader rd render" "yields (rd_optional key (rd_some rd) None \<lparr>r_v = VObject kvs, r_where = loc\<rparr>) x" "wf_obj kvs"
  shows "case x of None \<Rightarrow> obj_Get kvs key = None | Some y \<Rightarrow> member kvs key (render y)"
proof (cases "obj_Get kvs key")
  case None
  then show ?thesis using assms(2) inverse_reader.stuck [OF some_inverse [OF assms(1)]]
    by (simp add: yields_optional del: obj_Get_None)
next
  case (Some v)
  then have y: "yields (rd_at key (rd_some rd) \<lparr>r_v = VObject kvs, r_where = loc\<rparr>) x"
    using assms(2) inverse_reader.stuck [OF some_inverse [OF assms(1)]] by (simp add: yields_optional del: obj_Get_None)
  then have "x \<noteq> None"
    using inverse_reader.stuck [OF assms(1)] inverse_reader.stuck [OF some_inverse [OF assms(1)]]
    by (auto simp: yields_at yields_some)
  then show ?thesis using at_member [OF some_inverse [OF assms(1)] y assms(3)] by (auto split: option.splits)
qed

interpretation Hold_inverse: inverse_reader read_Hold Hold_Value
  unfolding Hold_Value_def [abs_def]
proof (rule object_reader)
  have st: "sticky (rd_some ReadHoldCondition r)" for r
    by (rule inverse_reader.stuck [OF some_inverse [OF HoldCondition_inverse.inverse_reader_axioms]])
  show "sticky (read_Hold r)" for r by (simp add: read_Hold_def prog st)
  show "\<exists>kvs. r_v r = VObject kvs" if "yields (read_Hold r) x" for r x
    using that by (auto simp: read_Hold_def prog st)
  fix kvs loc x
  assume y: "yields (read_Hold \<lparr>r_v = VObject kvs, r_where = loc\<rparr>) x" and w: "wf_obj kvs"
  show "renders kvs ([(''holdId'', VString (h_HoldID x)), (''actor'', VString (h_Actor x)), (''reason'', VString (h_Reason x)),
     (''placedAt'', VString (h_PlacedAt x))] @ (case h_Condition x of None \<Rightarrow> [] | Some c \<Rightarrow> [(''condition'', HoldCondition_Value c)]))"
    using y w
    by (auto simp: read_Hold_def prog st OptionalKeys_one
        dest!: members optional_some [OF HoldCondition_inverse.inverse_reader_axioms]
        intro!: renders_intro split: option.splits if_splits simp del: obj_Get_None)
qed

text \<open>A member that is null or an object.\<close>

lemma nullable_object_reader:
  assumes "\<And>r. sticky (rd r)"
    and "\<And>r x. yields (rd r) x \<Longrightarrow> r_v r = VNull \<and> x = None \<or> (\<exists>kvs y. r_v r = VObject kvs \<and> x = Some y)"
    and "\<And>kvs loc y. yields (rd \<lparr>r_v = VObject kvs, r_where = loc\<rparr>) (Some y) \<Longrightarrow> wf_obj kvs \<Longrightarrow> renders kvs (ms y)"
  shows "inverse_reader rd (\<lambda>x. case x of None \<Rightarrow> VNull | Some y \<Rightarrow> VObject (ms y))"
proof
  fix r :: reader and x
  assume y: "yields (rd r) x" and d: "distinct_val (r_v r)"
  show "canon (r_v r) = canon (case x of None \<Rightarrow> VNull | Some y \<Rightarrow> VObject (ms y))"
  proof (cases x)
    case None
    then show ?thesis using assms(2) [OF y] by auto
  next
    case (Some z)
    then obtain kvs where k: "r_v r = VObject kvs" using assms(2) [OF y] by auto
    then have "r = \<lparr>r_v = VObject kvs, r_where = r_where r\<rparr>" by (cases r) simp
    then have "yields (rd \<lparr>r_v = VObject kvs, r_where = r_where r\<rparr>) (Some z)" using y Some by simp
    then have "renders kvs (ms z)" using assms(3) d k by (simp add: wf_obj_def)
    then show ?thesis using renders_canon d k Some by (simp add: wf_obj_def)
  qed
qed (rule assms(1))

interpretation Completion_inverse: inverse_reader read_Completion Completion_Value
  unfolding Completion_Value_def [abs_def]
  by (rule nullable_object_reader)
    (auto simp: read_Completion_def prog IsNull_def dest!: members intro!: renders_intro split: if_splits)

lemma mark_entry_sel [simp]:
  "ProgressMark.truncate (mark_entry m a t) = m" "pr_Actor (mark_entry m a t) = a" "pr_RecordedAt (mark_entry m a t) = t"
  by (simp_all add: mark_entry_def ProgressMark.defs)

lemma ReadProgressMark_read:
  assumes "yields (ReadProgressMark \<lparr>r_v = VObject kvs, r_where = loc\<rparr>) m" "wf_obj kvs"
  shows "list_all (\<lambda>(k, w). member kvs k w) (ProgressMark_members m)"
  using assms by (auto simp: ReadProgressMark_def prog Let_def ProgressMark_members_def dest!: members split: if_splits)

lemma sticky_ProgressMark: "sticky (ReadProgressMark r)"
  by (simp add: ReadProgressMark_def prog Let_def)

interpretation Progress_inverse: inverse_reader read_Progress ProgressEntryValue
  unfolding ProgressEntryValue_def [abs_def]
proof (rule object_reader)
  show "sticky (read_Progress r)" for r by (simp add: read_Progress_def prog sticky_ProgressMark)
  show "\<exists>kvs. r_v r = VObject kvs" if "yields (read_Progress r) x" for r x
    using that by (auto simp: read_Progress_def prog sticky_ProgressMark)
  fix kvs loc x
  assume "yields (read_Progress \<lparr>r_v = VObject kvs, r_where = loc\<rparr>) x" "wf_obj kvs"
  then show "renders kvs (ProgressMark_members (ProgressMark.truncate x) @
      [(''actor'', VString (pr_Actor x)), (''recordedAt'', VString (pr_RecordedAt x))])"
    by (auto simp: read_Progress_def prog sticky_ProgressMark dest!: ReadProgressMark_read members intro!: renders_intro)
      (auto simp: ProgressMark_members_def ProgressMarkKeys_def)
qed

lemma nonempty_inverse:
  assumes "inverse_reader rd render"
  shows "inverse_reader (rd_nonempty mx rd) (\<lambda>xs. VArray (map render xs))"
  unfolding rd_nonempty_def by (rule inverse_reader.checked [OF inverse_reader.array_each [OF assms]])

lemma nonempty_nonempty:
  assumes "inverse_reader rd render" "yields (rd_nonempty mx rd r) xs"
  shows "xs \<noteq> []"
  using assms(2) inverse_reader.stuck [OF inverse_reader.array_each [OF assms(1)]]
  by (auto simp: rd_nonempty_def yields_check)

interpretation AttachedEvidences_inverse: inverse_reader ReadAttachedEvidence AttachedEvidenceValue
  unfolding ReadAttachedEvidence_def AttachedEvidenceValue_def [abs_def]
  by (rule nonempty_inverse) unfold_locales

interpretation Progresses_inverse: inverse_reader ReadProgress ProgressValue
  unfolding ReadProgress_def ProgressValue_def [abs_def]
  by (rule nonempty_inverse) unfold_locales

subsection \<open>Obligations\<close>

interpretation int_inverse: inverse_reader read_int countValue
proof
  show "sticky (read_int r)" for r by (simp add: read_int_def prog)
  fix r :: reader and n
  assume "yields (read_int r) n"
  then obtain c where c: "yields (rd_Count r) c" "n = Count_Int c" by (auto simp: read_int_def prog)
  then obtain s where s: "r_v r = VString s" "ParseCount (r_where r) s = Inr c"
    by (auto simp: Count_reader.yields_dec dec_with_def dec_string_def split: val.splits)
  show "canon (r_v r) = canon (countValue n)" using c s CountOf_Count_Int(1,2) [OF s(2)] by (simp add: countValue_def)
qed

lemmas int_members = int_inverse.inverse_reader_axioms [THEN at_member]

interpretation Counts_inverse: inverse_reader readObligationCounts ObligationCounts_Value
  unfolding ObligationCounts_Value_def [abs_def]
  by (rule object_reader)
    (auto simp: readObligationCounts_def prog int_inverse.stuck dest!: int_members intro!: renders_intro)

interpretation HighWater_inverse: inverse_reader read_HighWater HighWater_Value
  unfolding HighWater_Value_def [abs_def]
  by (rule object_reader)
    (auto simp: read_HighWater_def prog int_inverse.stuck dest!: int_members members intro!: renders_intro)

interpretation Raise_inverse: inverse_reader read_ObligationRaise ObligationRaise_Value
  unfolding ObligationRaise_Value_def [abs_def]
  by (rule nullable_object_reader)
    (auto simp: read_ObligationRaise_def prog IsNull_def dest!: members intro!: renders_intro split: if_splits)

lemmas obligation_members = Counts_inverse.inverse_reader_axioms [THEN at_member]
  HighWater_inverse.inverse_reader_axioms [THEN at_member] Raise_inverse.inverse_reader_axioms [THEN at_member]

lemma check_reference_range:
  "sticky (check_reference_range r ob)" "yields (check_reference_range r ob) x \<Longrightarrow> x = Some ob"
  by (auto simp: check_reference_range_def prog split: option.splits prod.splits)

lemmas obligation_prog = prog Counts_inverse.stuck HighWater_inverse.stuck Raise_inverse.stuck check_reference_range(1)

lemma sticky_ObligationsReference: "sticky (ReadObligationsReference r)"
  by (simp add: ReadObligationsReference_def obligation_prog)

lemma ObligationsReference_read:
  assumes "yields (ReadObligationsReference r) x"
  shows "\<exists>kvs ob. r_v r = VObject kvs \<and> x = Some ob"
  using assms by (auto simp: ReadObligationsReference_def obligation_prog dest: check_reference_range(2))

interpretation ObligationsReference_inverse: inverse_reader ReadObligationsReference
  "\<lambda>x. case x of None \<Rightarrow> VNull | Some ob \<Rightarrow> ObligationsReference_Value ob"
  unfolding ObligationsReference_Value_def [abs_def]
proof (rule nullable_object_reader [OF sticky_ObligationsReference])
  show "r_v r = VNull \<and> x = None \<or> (\<exists>kvs y. r_v r = VObject kvs \<and> x = Some y)"
    if "yields (ReadObligationsReference r) x" for r x
    using ObligationsReference_read [OF that] by blast
  fix kvs loc x
  assume "yields (ReadObligationsReference \<lparr>r_v = VObject kvs, r_where = loc\<rparr>) (Some x)" "wf_obj kvs"
  then show "renders kvs [(''prefix'', VString (ob_Prefix x)), (''revision'', VString (ob_Revision x)),
     (''head'', VString (ob_Head x)), (''counts'', ObligationCounts_Value (ob_Counts x)),
     (''highWater'', HighWater_Value (ob_HighWater x)), (''lastRaise'', ObligationRaise_Value (ob_LastRaise x))]"
    by (auto simp: ReadObligationsReference_def obligation_prog dest!: members obligation_members check_reference_range(2)
        intro!: renders_intro)
qed

subsection \<open>Prerequisites\<close>

lemma sorted_set_value:
  assumes "CheckSortedUnique loc vs = Inr u" "map Encode ws = map Encode vs"
  shows "sorted_set_value ws = VArray ws"
proof -
  have "sorted_wrt (<) (map Encode vs)" using assms(1) by simp
  then have "distinct (map Encode ws)" "sorted (map Encode ws)"
    unfolding assms(2) by (auto simp: strict_sorted_iff)
  then show ?thesis by (simp add: sorted_set_value_def SortedSet_eq sort_key_id_if_sorted)
qed

lemma yields_set_Array:
  assumes "yields (rd_Array mx False r) rs"
  shows "CheckSortedUnique (r_where r) (map r_v rs) = Inr ()"
  using assms
  by (auto simp: yields_def rd_Array_def rd_Fail_def rd_adopt_def rd_child_def fresh_def Let_def comp_def case_prod_beta'
      split: val.splits if_splits sum.splits simp del: CheckSortedUnique_iff)

lemma sticky_Prerequisite: "sticky (read_Prerequisite r)"
  by (simp add: read_Prerequisite_def prog)

lemma stages_sorted:
  assumes "yields (rd_Strings mx False (rd_Enum xs) r) ss"
  shows "sorted_set_value (map VString ss) = Strings ss"
proof -
  have "dec_strings mx False (dec_enum xs) (r_where r) (r_v r) = Inr ss"
    using assms field_reader.yields_dec [OF Enum_reader.strings] by blast
  then have "sorted_wrt (<) (map Encode (map VString ss))"
    using dec_strings_sorted [OF returns_input_rules(2)] by (simp add: comp_def)
  then show ?thesis
    using sorted_set_value [of _ "map VString ss" "()" "map VString ss"] by (simp add: Strings_def)
qed

interpretation Prerequisite_inverse: inverse_reader read_Prerequisite
  "\<lambda>x. case x of None \<Rightarrow> VNull | Some p \<Rightarrow> Prerequisite_Value p"
  unfolding Prerequisite_Value_def [abs_def]
proof (rule nullable_object_reader [OF sticky_Prerequisite])
  show "r_v r = VNull \<and> x = None \<or> (\<exists>kvs y. r_v r = VObject kvs \<and> x = Some y)" if "yields (read_Prerequisite r) x" for r x
    using that by (auto simp: read_Prerequisite_def prog split: if_splits)
  fix kvs loc p
  assume y: "yields (read_Prerequisite \<lparr>r_v = VObject kvs, r_where = loc\<rparr>) (Some p)" and w: "wf_obj kvs"
  obtain f where f: "yields (rd_Field ''stages'' \<lparr>r_v = VObject kvs, r_where = loc\<rparr>) f"
      "yields (rd_Strings (int (length Stages)) False (rd_Enum Stages) f) (p_Stages p)"
    using y by (auto simp: read_Prerequisite_def prog split: if_splits)
  then have "yields (rd_at ''stages'' (rd_Strings (int (length Stages)) False (rd_Enum Stages)) \<lparr>r_v = VObject kvs, r_where = loc\<rparr>) (p_Stages p)"
    by (auto simp: rd_at_def prog)
  then have "member kvs ''stages'' (sorted_set_value (map VString (p_Stages p)))"
    using w members stages_sorted [OF f(2)] by auto
  then show "renders kvs [(''ticketId'', VString (t_Raw (p_TicketID p))), (''obligation'', VString (p_Obligation p)),
     (''gateId'', StringOrNull (p_GateID p)), (''stages'', sorted_set_value (map VString (p_Stages p)))]"
    using y w by (auto simp: read_Prerequisite_def prog dest!: members intro!: renders_intro split: if_splits)
qed

lemma read_Prerequisite_some: "\<not> yields (read_Prerequisite r) None"
  by (auto simp: read_Prerequisite_def prog split: if_splits)

text \<open>The elements of a loop that stops early, once it ran to its end.\<close>

lemma until_elements:
  assumes "inverse_reader rd (\<lambda>x. case x of None \<Rightarrow> VNull | Some p \<Rightarrow> render p)" "\<And>r. \<not> yields (rd r) None"
    and "yields (rd_until rd rs) x" "\<forall>r\<in>set rs. distinct_val (r_v r)"
  shows "\<exists>ps. x = Some ps \<and> map canon (map r_v rs) = map canon (map render ps)"
proof -
  obtain ps where ps: "x = Some ps" "list_all2 (\<lambda>r y. yields (rd r) (Some y)) rs ps"
    using yields_until [OF inverse_reader.stuck [OF assms(1)] assms(2), THEN iffD1, OF assms(3)] by (elim exE conjE)
  have "list_all2 (\<lambda>r x. yields (rd r) x) rs (map Some ps)" using ps(2) by (simp add: list_all2_map2)
  from inverse_reader.elements [OF assms(1) this assms(4)] show ?thesis using ps(1) by (simp add: comp_def)
qed

lemma canon_Encode: "canon v = canon w \<Longrightarrow> distinct_val v \<Longrightarrow> distinct_val w \<Longrightarrow> Encode v = Encode w"
  unfolding Encode_eq using enc_canon [of v] enc_canon [of w] by simp

lemma distinct_Prerequisite: "distinct_val (Prerequisite_Value p)"
proof -
  have "distinct_val (sorted_set_value (map VString ss))" for ss
    by (auto simp: sorted_set_value_def SortedSet_eq)
  then show ?thesis by (simp add: Prerequisite_Value_def)
qed

interpretation Prerequisites_inverse: inverse_reader ReadPrerequisites PrerequisitesValue
proof
  show "sticky (ReadPrerequisites r)" for r
    by (simp add: ReadPrerequisites_def prog sticky_until sticky_Prerequisite)
  fix r :: reader and ps
  assume y: "yields (ReadPrerequisites r) ps" and d: "distinct_val (r_v r)"
  obtain rs x where rs: "yields (rd_Array (int MaxDependencies) False r) rs" "yields (rd_until read_Prerequisite rs) x"
      "ps = (case x of None \<Rightarrow> [] | Some ps \<Rightarrow> ps)"
    using y by (auto simp: ReadPrerequisites_def prog sticky_until sticky_Prerequisite split: if_splits)
  have v: "r_v r = VArray (map r_v rs)" by (rule rd_Array_values [OF rs(1)])
  have dv: "\<forall>x\<in>set rs. distinct_val (r_v x)" using d v by simp
  have el: "map canon (map r_v rs) = map canon (map Prerequisite_Value ps)"
    using until_elements [OF Prerequisite_inverse.inverse_reader_axioms read_Prerequisite_some rs(2) dv] rs(3) by auto
  have "map Encode (map Prerequisite_Value ps) = map Encode (map r_v rs)"
  proof (rule nth_equalityI)
    show len: "length (map Encode (map Prerequisite_Value ps)) = length (map Encode (map r_v rs))"
      using el by (metis length_map)
    fix i assume i: "i < length (map Encode (map Prerequisite_Value ps))"
    have "map canon (map r_v rs) ! i = map canon (map Prerequisite_Value ps) ! i" using el by simp
    then show "map Encode (map Prerequisite_Value ps) ! i = map Encode (map r_v rs) ! i"
      using i len dv distinct_Prerequisite by (auto intro!: canon_Encode)
  qed
  then have "PrerequisitesValue ps = VArray (map Prerequisite_Value ps)"
    unfolding PrerequisitesValue_def by (rule sorted_set_value [OF yields_set_Array [OF rs(1)]])
  then show "canon (r_v r) = canon (PrerequisitesValue ps)" using v el by simp
qed

lemma ReadPrerequisites_nonempty: "yields (ReadPrerequisites r) ps \<Longrightarrow> ps \<noteq> []"
  using read_Prerequisite_some
  by (auto simp: ReadPrerequisites_def prog sticky_until sticky_Prerequisite yields_until [OF sticky_Prerequisite read_Prerequisite_some]
      split: if_splits option.splits)

subsection \<open>The know-how ledger\<close>

lemma sticky_anchor: "sticky (read_KnowHowAnchor r)"
  by (simp add: read_KnowHowAnchor_def Let_def prog)

lemma symbol_nonempty: "yields (rd_at ''symbol'' ReadKnowHowSymbol r) s \<Longrightarrow> s \<noteq> []"
  using Symbol_inverse.stuck
  by (auto simp: yields_at ReadKnowHowSymbol_def rd_grammar_def field_reader.yields_dec [OF rd_with_reader] dec_with_def
      ParseKnowHowSymbol_def split: sum.splits if_splits)

interpretation Anchor_inverse: inverse_reader read_KnowHowAnchor KnowHowAnchor_Value
  unfolding KnowHowAnchor_Value_def [abs_def]
proof (rule object_reader [OF sticky_anchor])
  show "\<exists>kvs. r_v r = VObject kvs" if "yields (read_KnowHowAnchor r) x" for r x
    using that by (auto simp: read_KnowHowAnchor_def Let_def prog split: if_splits)
  fix kvs loc x
  assume y: "yields (read_KnowHowAnchor \<lparr>r_v = VObject kvs, r_where = loc\<rparr>) x" and w: "wf_obj kvs"
  show "renders kvs ([(''blob'', VString (ka_Blob x)), (''path'', VString (ka_Path x))] @
     (if ka_Symbol x \<noteq> [] then [(''symbol'', VString (ka_Symbol x)), (''symbolSha256'', VString (ka_SymbolSha256 x))] else []))"
  proof (cases "val_Has (VObject kvs) ''symbol'' \<or> val_Has (VObject kvs) ''symbolSha256''")
    case True
    let ?r = "\<lparr>r_v = VObject kvs, r_where = loc\<rparr>"
    obtain p b s d where f: "yields (rd_at ''path'' ReadKnowHowFile ?r) p" "yields (rd_at ''blob'' rd_OID ?r) b"
        "yields (rd_at ''symbol'' ReadKnowHowSymbol ?r) s" "yields (rd_at ''symbolSha256'' rd_Digest ?r) d"
        "x = \<lparr>ka_Path = p, ka_Blob = b, ka_Symbol = s, ka_SymbolSha256 = d\<rparr>"
        "closed_ok [''blob'', ''path'', ''symbol'', ''symbolSha256''] kvs"
      using y True by (auto simp: read_KnowHowAnchor_def Let_def prog simp del: val_Has_obj)
    have "s \<noteq> []" by (rule symbol_nonempty [OF f(3)])
    then show ?thesis using f w by (auto dest!: members intro!: renders_intro)
  next
    case False
    then show ?thesis using y w
      by (auto simp: read_KnowHowAnchor_def Let_def prog dest!: members intro!: renders_intro simp del: val_Has_obj)
  qed
qed

lemma sticky_anchors_loop: "sticky (anchors_loop r its out)"
  by (induction its arbitrary: out) (auto simp: prog sticky_anchor)

lemma anchors_loop_read:
  "yields (anchors_loop r its out) as \<Longrightarrow> \<exists>bs. as = out @ bs \<and> list_all2 (\<lambda>r x. yields (read_KnowHowAnchor r) x) its bs"
proof (induction its arbitrary: out)
  case (Cons it its)
  then obtain a where "yields (read_KnowHowAnchor it) a" "yields (anchors_loop r its (out @ [a])) as"
    by (auto simp: prog sticky_anchor sticky_anchors_loop split: if_splits)
  then show ?case using Cons.IH [of "out @ [a]"] by (auto simp: list_all2_Cons1)
qed (auto simp: prog)

interpretation Anchors_inverse: inverse_reader ReadKnowHowAnchors KnowHowAnchorsValue
proof
  show "sticky (ReadKnowHowAnchors r)" for r by (simp add: ReadKnowHowAnchors_def prog sticky_anchors_loop)
  fix r :: reader and as
  assume y: "yields (ReadKnowHowAnchors r) as" and d: "distinct_val (r_v r)"
  obtain rs where rs: "yields (rd_Array (int KnowHowMaxAnchors) True r) rs" "yields (anchors_loop r rs []) as"
    using y by (auto simp: ReadKnowHowAnchors_def prog sticky_anchors_loop split: if_splits)
  have v: "r_v r = VArray (map r_v rs)" by (rule rd_Array_values [OF rs(1)])
  have "list_all2 (\<lambda>r x. yields (read_KnowHowAnchor r) x) rs as" using anchors_loop_read [OF rs(2)] by simp
  then show "canon (r_v r) = canon (KnowHowAnchorsValue as)"
    using Anchor_inverse.elements d v by (simp add: KnowHowAnchorsValue_def)
qed

lemmas knowhow_members = members Anchors_inverse.inverse_reader_axioms [THEN at_member]
lemmas knowhow_prog = prog Anchors_inverse.stuck

lemma repository_nonempty: "yields (rd_at ''repository'' ReadKnowHowRepository r) s \<Longrightarrow> s \<noteq> []"
  using Repository_inverse.stuck
  by (auto simp: yields_at ReadKnowHowRepository_def rd_grammar_def field_reader.yields_dec [OF rd_with_reader] dec_with_def
      ParseKnowHowRepository_def is_token_def split: sum.splits if_splits)

lemma knowhow_ops_distinct [simp]:
  "KnowHowAdd \<noteq> KnowHowRetract" "KnowHowRetract \<noteq> KnowHowAdd" "KnowHowAdd \<noteq> KnowHowReconfirm"
  "KnowHowReconfirm \<noteq> KnowHowAdd" "KnowHowRetract \<noteq> KnowHowReconfirm" "KnowHowReconfirm \<noteq> KnowHowRetract"
  by (simp_all add: KnowHowAdd_def KnowHowRetract_def KnowHowReconfirm_def)

lemma sticky_knowhow: "sticky (read_KnowHowAdd e)" "sticky (read_KnowHowRetract e)" "sticky (read_KnowHowReconfirm e)"
  by (simp_all add: read_KnowHowAdd_def read_KnowHowRetract_def read_KnowHowReconfirm_def Let_def knowhow_prog)

definition add_members :: "KnowHowEntry \<Rightarrow> object" where
  "add_members k = [(''text'', VString (kh_Text k)), (''anchors'', KnowHowAnchorsValue (kh_Anchors k)), (''routes'', Strings (kh_Routes k)),
     (''commit'', VString (kh_Commit k)), (''supersedes'', StringOrNull (kh_Supersedes k)), (''attempt'', StringOrNull (kh_Attempt k)),
     (''generation'', StringOrNull (kh_Generation k)), (''evidencePath'', StringOrNull (kh_EvidencePath k)),
     (''reason'', StringOrNull (kh_Reason k))] @
     (if kh_Repository k \<noteq> [] then [(''repository'', VString (kh_Repository k))] else [])"

definition retract_members :: "KnowHowEntry \<Rightarrow> object" where
  "retract_members k = [(''note'', VString (kh_Note k)), (''reason'', StringOrNull (kh_Reason k))]"

definition reconfirm_members :: "KnowHowEntry \<Rightarrow> object" where
  "reconfirm_members k = [(''note'', VString (kh_Note k)), (''anchors'', KnowHowAnchorsValue (kh_Anchors k)),
     (''commit'', VString (kh_Commit k)), (''attempt'', StringOrNull (kh_Attempt k)), (''generation'', StringOrNull (kh_Generation k))]"

lemma KnowHowAdd_read:
  assumes y: "yields (read_KnowHowAdd \<lparr>r_v = VObject kvs, r_where = loc\<rparr>) k" and w: "wf_obj kvs"
  shows "kh_Operation k = KnowHowAdd \<and> closed_ok ((if kh_Repository k \<noteq> [] then [''repository''] else []) @ knowHowAddKeys) kvs \<and>
    list_all (\<lambda>(k, w). member kvs k w) (add_members k)"
proof (cases "val_Has (VObject kvs) ''repository''")
  case True
  let ?r = "\<lparr>r_v = VObject kvs, r_where = loc\<rparr>"
  obtain repo where r: "yields (rd_at ''repository'' ReadKnowHowRepository ?r) repo" "kh_Repository k = repo"
    using y True by (auto simp: read_KnowHowAdd_def Let_def knowhow_prog zero_KnowHow_def simp del: val_Has_obj)
  note ne = repository_nonempty [OF r(1)]
  show ?thesis using y w True ne r(2)
    by (auto simp: read_KnowHowAdd_def Let_def knowhow_prog zero_KnowHow_def add_members_def dest!: knowhow_members simp del: val_Has_obj)
next
  case False
  then show ?thesis using y w
    by (auto simp: read_KnowHowAdd_def Let_def knowhow_prog zero_KnowHow_def add_members_def dest!: knowhow_members simp del: val_Has_obj)
qed

lemma StringOrNull_Some [simp]: "StringOrNull (Some s) = VString s"
  by (simp add: StringOrNull_def)

lemma KnowHowRetract_read:
  assumes "yields (read_KnowHowRetract \<lparr>r_v = VObject kvs, r_where = loc\<rparr>) k" "wf_obj kvs"
  shows "kh_Operation k = KnowHowRetract \<and> closed_ok knowHowRetractKeys kvs \<and> list_all (\<lambda>(k, w). member kvs k w) (retract_members k)"
  using assms
  by (auto simp: read_KnowHowRetract_def knowhow_prog zero_KnowHow_def retract_members_def dest!: knowhow_members)

lemma KnowHowReconfirm_read:
  assumes "yields (read_KnowHowReconfirm \<lparr>r_v = VObject kvs, r_where = loc\<rparr>) k" "wf_obj kvs"
  shows "kh_Operation k = KnowHowReconfirm \<and> closed_ok knowHowReconfirmKeys kvs \<and> list_all (\<lambda>(k, w). member kvs k w) (reconfirm_members k)"
  using assms
  by (auto simp: read_KnowHowReconfirm_def knowhow_prog zero_KnowHow_def reconfirm_members_def dest!: knowhow_members)

interpretation Actor_inverse: inverse_reader read_KnowHowActor "\<lambda>x. VObject [(''id'', VString (fst x)), (''role'', VString (snd x))]"
  by (rule object_reader) (auto simp: read_KnowHowActor_def prog dest!: members intro!: renders_intro)

lemma sticky_ledger: "sticky (read_ledger op e)"
  by (simp add: read_ledger_def sticky_knowhow)

lemma sticky_KnowHowBody: "sticky (read_KnowHowBody op e)"
  by (simp add: read_KnowHowBody_def prog sticky_ledger Actor_inverse.stuck)

lemma sticky_KnowHowEntry: "sticky (read_KnowHowEntry e)"
  by (simp add: read_KnowHowEntry_def prog sticky_KnowHowBody)

lemma KnowHowBody_parts:
  "yields (read_KnowHowBody op e) x \<longleftrightarrow> (\<exists>k sq ac at.
    x = k\<lparr>kh_Seq := sq, kh_ActorID := fst ac, kh_ActorRole := snd ac, kh_RecordedAt := at\<rparr> \<and> yields (read_ledger op e) k \<and>
    yields (rd_at ''seq'' rd_Count e) sq \<and> yields (rd_at ''actor'' read_KnowHowActor e) ac \<and> yields (rd_at ''recordedAt'' rd_Timestamp e) at)"
  by (simp add: read_KnowHowBody_def prog sticky_ledger Actor_inverse.stuck del: yields_at) blast

lemma KnowHowEntry_parts:
  "yields (read_KnowHowEntry e) x \<longleftrightarrow> (\<exists>op k. x = Some k \<and>
    yields (rd_at ''operation'' (rd_Enum [KnowHowAdd, KnowHowRetract, KnowHowReconfirm]) e) op \<and> yields (read_KnowHowBody op e) k)"
  by (simp add: read_KnowHowEntry_def prog sticky_KnowHowBody del: yields_at) blast

lemma enum_at_mem: "yields (rd_at key (rd_Enum xs) r) k \<Longrightarrow> k \<in> set xs"
  by (auto simp: yields_at Enum_inverse.stuck Enum_reader.yields_dec dest: dec_enum_mem)

lemma KnowHowEntry_Value_parts:
  "KnowHowEntry_Value k = VObject ([(''seq'', VString (kh_Seq k)), (''operation'', VString (kh_Operation k))] @
     (if kh_Operation k = KnowHowAdd then add_members k else if kh_Operation k = KnowHowRetract then retract_members k
      else reconfirm_members k) @
     [(''actor'', VObject [(''id'', VString (kh_ActorID k)), (''role'', VString (kh_ActorRole k))]),
      (''recordedAt'', VString (kh_RecordedAt k))])"
  by (simp add: KnowHowEntry_Value_def add_members_def retract_members_def reconfirm_members_def)

lemma ledger_members_keep [simp]:
  "add_members (k\<lparr>kh_Seq := sq, kh_ActorID := a, kh_ActorRole := b, kh_RecordedAt := t\<rparr>) = add_members k"
  "retract_members (k\<lparr>kh_Seq := sq, kh_ActorID := a, kh_ActorRole := b, kh_RecordedAt := t\<rparr>) = retract_members k"
  "reconfirm_members (k\<lparr>kh_Seq := sq, kh_ActorID := a, kh_ActorRole := b, kh_RecordedAt := t\<rparr>) = reconfirm_members k"
  by (simp_all add: add_members_def retract_members_def reconfirm_members_def)

lemma KnowHowEntry_renders:
  assumes y: "yields (read_KnowHowEntry \<lparr>r_v = VObject kvs, r_where = loc\<rparr>) (Some k)" and w: "wf_obj kvs"
  shows "renders kvs ([(''seq'', VString (kh_Seq k)), (''operation'', VString (kh_Operation k))] @
     (if kh_Operation k = KnowHowAdd then add_members k else if kh_Operation k = KnowHowRetract then retract_members k
      else reconfirm_members k) @
     [(''actor'', VObject [(''id'', VString (kh_ActorID k)), (''role'', VString (kh_ActorRole k))]),
      (''recordedAt'', VString (kh_RecordedAt k))])"
proof -
  let ?r = "\<lparr>r_v = VObject kvs, r_where = loc\<rparr>"
  obtain op where op: "yields (rd_at ''operation'' (rd_Enum [KnowHowAdd, KnowHowRetract, KnowHowReconfirm]) ?r) op"
    and body: "yields (read_KnowHowBody op ?r) k"
    using y by (auto simp: KnowHowEntry_parts)
  obtain k0 sq ac at where k: "k = k0\<lparr>kh_Seq := sq, kh_ActorID := fst ac, kh_ActorRole := snd ac, kh_RecordedAt := at\<rparr>"
    and k0: "yields (read_ledger op ?r) k0"
    and f: "yields (rd_at ''seq'' rd_Count ?r) sq" "yields (rd_at ''actor'' read_KnowHowActor ?r) ac" "yields (rd_at ''recordedAt'' rd_Timestamp ?r) at"
    using body unfolding KnowHowBody_parts by blast
  note m = members(7) [OF f(1) w] members(12) [OF f(3) w] members(2) [OF op w] at_member [OF Actor_inverse.inverse_reader_axioms f(2) w]
  consider "op = KnowHowAdd" | "op = KnowHowRetract" | "op = KnowHowReconfirm" using enum_at_mem [OF op] by auto
  then show ?thesis
  proof cases
    case 1
    have r: "kh_Operation k0 = KnowHowAdd" "closed_ok ((if kh_Repository k0 \<noteq> [] then [''repository''] else []) @ knowHowAddKeys) kvs"
        "list_all (\<lambda>(k, w). member kvs k w) (add_members k0)"
      using KnowHowAdd_read [of kvs loc k0] k0 w by (simp_all add: 1 read_ledger_def)
    show ?thesis using m r unfolding k 1
      by (cases "kh_Repository k0 = []"; intro renders_intro [OF r(2)]; simp add: knowHowAddKeys_def add_members_def)
  next
    case 2
    have r: "kh_Operation k0 = KnowHowRetract" "closed_ok knowHowRetractKeys kvs" "list_all (\<lambda>(k, w). member kvs k w) (retract_members k0)"
      using KnowHowRetract_read [of kvs loc k0] k0 w by (simp_all add: 2 read_ledger_def)
    show ?thesis using m r unfolding k 2
      by (intro renders_intro [OF r(2)]) (auto simp: knowHowRetractKeys_def retract_members_def)
  next
    case 3
    have r: "kh_Operation k0 = KnowHowReconfirm" "closed_ok knowHowReconfirmKeys kvs" "list_all (\<lambda>(k, w). member kvs k w) (reconfirm_members k0)"
      using KnowHowReconfirm_read [of kvs loc k0] k0 w by (simp_all add: 3 read_ledger_def)
    show ?thesis using m r unfolding k 3
      by (intro renders_intro [OF r(2)]) (auto simp: knowHowReconfirmKeys_def reconfirm_members_def)
  qed
qed

interpretation KnowHowEntry_inverse: inverse_reader read_KnowHowEntry "\<lambda>x. case x of None \<Rightarrow> VNull | Some k \<Rightarrow> KnowHowEntry_Value k"
  unfolding KnowHowEntry_Value_parts
proof (rule nullable_object_reader [OF sticky_KnowHowEntry])
  show "r_v r = VNull \<and> x = None \<or> (\<exists>kvs y. r_v r = VObject kvs \<and> x = Some y)" if y: "yields (read_KnowHowEntry r) x" for r x
    using y by (auto simp: KnowHowEntry_parts KnowHowBody_parts yields_at Count_inverse.stuck)
qed (rule KnowHowEntry_renders)

lemma KnowHowEntry_some: "\<not> yields (read_KnowHowEntry r) None"
  by (simp add: KnowHowEntry_parts)

lemma ReadKnowHow_parts:
  assumes "yields (ReadKnowHow r) ks"
  shows "\<exists>es x. yields (rd_Array (int KnowHowMaxEntries) True r) es \<and> es \<noteq> [] \<and> yields (rd_until read_KnowHowEntry es) x \<and>
    ks = (case x of None \<Rightarrow> [] | Some ps \<Rightarrow> ps)"
  using assms by (auto simp: ReadKnowHow_def prog sticky_until sticky_KnowHowEntry split: if_splits)

interpretation KnowHow_inverse: inverse_reader ReadKnowHow KnowHowValue
proof
  show "sticky (ReadKnowHow r)" for r by (simp add: ReadKnowHow_def prog sticky_until sticky_KnowHowEntry)
  fix r :: reader and ks
  assume y: "yields (ReadKnowHow r) ks" and d: "distinct_val (r_v r)"
  obtain es x where es: "yields (rd_Array (int KnowHowMaxEntries) True r) es" "yields (rd_until read_KnowHowEntry es) x"
      "ks = (case x of None \<Rightarrow> [] | Some ps \<Rightarrow> ps)"
    using ReadKnowHow_parts [OF y] by blast
  have v: "r_v r = VArray (map r_v es)" by (rule rd_Array_values [OF es(1)])
  have dv: "\<forall>x\<in>set es. distinct_val (r_v x)" using d v by simp
  obtain ps where "x = Some ps" "map canon (map r_v es) = map canon (map KnowHowEntry_Value ps)"
    using until_elements [OF KnowHowEntry_inverse.inverse_reader_axioms KnowHowEntry_some es(2) dv] by blast
  then show "canon (r_v r) = canon (KnowHowValue ks)" using v es(3) by (simp add: KnowHowValue_def)
qed

lemma ReadKnowHow_nonempty:
  assumes "yields (ReadKnowHow r) ks"
  shows "ks \<noteq> []"
proof -
  obtain es x where es: "es \<noteq> []" "yields (rd_until read_KnowHowEntry es) x" "ks = (case x of None \<Rightarrow> [] | Some ps \<Rightarrow> ps)"
    using ReadKnowHow_parts [OF assms] by blast
  then show ?thesis using yields_until [where rd = read_KnowHowEntry and rs = es and x = x, OF sticky_KnowHowEntry KnowHowEntry_some] by auto
qed

end
