(* ===== verification/Ticket_Roundtrip.thy ===== *)
theory Ticket_Roundtrip
  imports Ticket_Parts
begin

text \<open>
  The round trip of the whole ticket record: every reader of \<^verbatim>\<open>FromValue\<close> is the inverse of the
  renderer of its member, so \<^verbatim>\<open>Encode\<close> of a decoded record is the file it was decoded from.
\<close>

subsection \<open>Required roles\<close>

lemma distinct_canon: "distinct_val (canon v) \<longleftrightarrow> distinct_val v"
proof (induction v)
  case (VObject kvs)
  have "distinct (map fst (sort_key fst (map (\<lambda>(k, v). (k, canon v)) kvs))) \<longleftrightarrow> distinct (map fst kvs)"
    unfolding distinct_sort_fst map_fst_map ..
  then show ?case using VObject by fastforce
qed auto

lemma EncodeFile_canon:
  assumes "Parse raw = Inr v" "canon v = canon w"
  shows "EncodeFile w = raw"
proof -
  have v: "raw = EncodeFile v" "distinct_val v" using assms(1) fits_distinct by (auto simp: Parse_iff within_bounds_def)
  then have "distinct_val w" using assms(2) distinct_canon by metis
  then have "Encode v = Encode w" using assms(2) v(2) by (intro canon_Encode)
  then show ?thesis using v(1) by (simp add: EncodeFile_def)
qed

lemma sticky_stage_roles: "sticky (stage_roles_loop r stages)"
  by (induction stages) (simp_all add: prog)

lemma stage_roles_read:
  assumes "yields (stage_roles_loop \<lparr>r_v = VObject kvs, r_where = loc\<rparr> stages) roles" "wf_obj kvs"
  shows "map fst roles = stages \<and> list_all (\<lambda>(k, v). member kvs k (Strings v)) roles"
  using assms
proof (induction stages arbitrary: roles)
  case (Cons stage stages)
  obtain v rest where "roles = (stage, v) # rest" "yields (stage_roles_loop \<lparr>r_v = VObject kvs, r_where = loc\<rparr> stages) rest"
      "yields (rd_at stage (rd_Strings (-1) False (rd_Enum StageRoles)) \<lparr>r_v = VObject kvs, r_where = loc\<rparr>) v"
    using Cons.prems(1) by (fastforce simp: prog sticky_stage_roles rd_at_def split: if_splits)
  then show ?case using Cons.IH Cons.prems(2) by (auto dest: members)
qed (simp add: prog)

interpretation StageRoles_inverse: inverse_reader ReadStageRoles StageRolesValue
  unfolding StageRolesValue_def [abs_def]
proof (rule object_reader)
  show "sticky (ReadStageRoles r)" for r by (simp add: ReadStageRoles_def prog sticky_stage_roles)
  show "\<exists>kvs. r_v r = VObject kvs" if "yields (ReadStageRoles r) x" for r x
    using that by (auto simp: ReadStageRoles_def prog sticky_stage_roles)
  fix kvs loc x
  assume y: "yields (ReadStageRoles \<lparr>r_v = VObject kvs, r_where = loc\<rparr>) x" and w: "wf_obj kvs"
  then have c: "closed_ok Stages kvs" and l: "yields (stage_roles_loop \<lparr>r_v = VObject kvs, r_where = loc\<rparr> Stages) x"
    by (auto simp: ReadStageRoles_def prog sticky_stage_roles)
  note m = stage_roles_read [OF l w]
  show "renders kvs (map (\<lambda>(k, v). (k, Strings v)) x)"
  proof (rule renders_intro [OF c])
    have f: "map fst (map (\<lambda>(k, v). (k, Strings v)) x) = Stages" unfolding map_fst_map using m by simp
    then show "set Stages \<subseteq> fst ` set (map (\<lambda>(k, v). (k, Strings v)) x)" by (metis list.set_map order_refl)
    show "distinct (map fst (map (\<lambda>(k, v). (k, Strings v)) x))" unfolding f by (simp add: Stages_def)
    show "list_all (\<lambda>(k, w). member kvs k w) (map (\<lambda>(k, v). (k, Strings v)) x)"
      using m by (auto simp: list_all_iff)
  qed
qed

subsection \<open>External reviews\<close>

lemma reviews_read:
  assumes "reviews_loop \<lparr>r_v = VObject kvs, r_where = loc\<rparr> gates = Inr m" "wf_obj kvs"
  shows "map fst m = gates \<and> list_all (\<lambda>(g, n). member kvs g (ExternalReviewRef_Value n)) m"
  using assms
proof (induction gates arbitrary: m)
  case (Cons gate gates)
  have st: "sticky (rd_at gate read_ExternalReviewRef r)" for r by (simp add: prog ExternalReviewRef_inverse.stuck)
  obtain ref rest where m: "m = (gate, ref) # rest" "reviews_loop \<lparr>r_v = VObject kvs, r_where = loc\<rparr> gates = Inr rest"
      "yields (rd_at gate read_ExternalReviewRef \<lparr>r_v = VObject kvs, r_where = loc\<rparr>) ref"
    using Cons.prems(1) by (auto simp: rbind_def run_reader_Inr [OF st] map_sum_def split: sum.splits if_splits)
  show ?case
    using Cons.IH [OF m(2) Cons.prems(2)] at_member [OF ExternalReviewRef_inverse.inverse_reader_axioms m(3) Cons.prems(2)] m(1) by simp
qed simp

lemma ExternalReviews_read:
  assumes "ExternalReviewsFromValue v = Inr m" "distinct_val v"
  shows "canon v = canon (ExternalReviewsValue m) \<and> m \<noteq> []"
proof -
  obtain kvs where v: "v = VObject kvs" and len: "kvs \<noteq> []"
    and l: "reviews_loop (fst (NewReader v ''/externalReviews'')) (obj_Keys kvs) = Inr m"
    using assms(1) by (auto simp: ExternalReviewsFromValue_def obj_Keys_def split: val.splits if_splits)
  have w: "wf_obj kvs" using assms(2) v by (simp add: wf_obj_def)
  have m: "map fst m = map fst kvs" "list_all (\<lambda>(g, n). member kvs g (ExternalReviewRef_Value n)) m"
    using reviews_read [of kvs "''/externalReviews''" "obj_Keys kvs" m] l w by (simp_all add: v NewReader_def obj_Keys_def)
  let ?ms = "map (\<lambda>(g, n). (g, ExternalReviewRef_Value n)) (sort_key fst m)"
  have keys: "set (map fst ?ms) = set (map fst m)" "distinct (map fst ?ms)"
    unfolding map_fst_map by (simp_all only: set_map set_sort distinct_sort_fst) (use w m(1) in \<open>simp add: wf_obj_def\<close>)
  have "canon (VObject kvs) = canon (VObject ?ms)"
  proof (rule closed_object [of "map fst kvs"])
    show "closed_ok (map fst kvs) kvs" by (auto simp: closed_ok_def filter_empty_conv obj_Keys_def obj_Get_def map_of_eq_None_iff)
    show "\<exists>v. obj_Get kvs k = Some v \<and> canon v = canon w" if "(k, w) \<in> set ?ms" for k w
      using m(2) that by (fastforce simp: list_all_iff member_def)
    show "set (map fst ?ms) = set (map fst kvs)" unfolding keys(1) m(1) ..
  qed (use keys w in \<open>simp_all add: wf_obj_def\<close>)
  then show ?thesis using v m(1) len by (auto simp: ExternalReviewsValue_def)
qed

subsection \<open>Escalation references\<close>

lemma json_ref_read:
  assumes "json_ref v = Some e" "distinct_val v"
  shows "canon v = canon (EscalationRef_Value e)"
proof -
  obtain kvs where v: "v = VObject kvs" and c: "closed_ok escalation_ref_keys kvs"
    and all: "list_all (\<lambda>k. case obj_Get kvs k of Some (VString _) \<Rightarrow> True | _ \<Rightarrow> False) escalation_ref_keys"
    and e: "e = (let f = \<lambda>k. case obj_Get kvs k of Some (VString s) \<Rightarrow> s | _ \<Rightarrow> [] in \<lparr>es_RequestID = f ''requestId'',
      es_OriginSha256 = f ''originSha256'', es_HeadSha256 = f ''headSha256'', es_Revision = f ''revision'',
      es_AcceptanceRevision = f ''acceptanceRevision'', es_Kind = f ''kind'', es_State = f ''state''\<rparr>)"
    using assms(1) by (auto simp: json_ref_def json_strings_def split: val.splits if_splits)
  have f: "\<exists>s. obj_Get kvs k = Some (VString s)" if "k \<in> set escalation_ref_keys" for k
    using all that by (cases "obj_Get kvs k") (fastforce simp: list_all_iff split: val.splits simp del: obj_Get_None)+
  have "\<exists>a b c d e f g. obj_Get kvs ''requestId'' = Some (VString a) \<and> obj_Get kvs ''originSha256'' = Some (VString b) \<and>
     obj_Get kvs ''headSha256'' = Some (VString c) \<and> obj_Get kvs ''revision'' = Some (VString d) \<and>
     obj_Get kvs ''acceptanceRevision'' = Some (VString e) \<and> obj_Get kvs ''kind'' = Some (VString f) \<and> obj_Get kvs ''state'' = Some (VString g)"
    using f by (simp add: escalation_ref_keys_def)
  then show ?thesis using c assms(2) unfolding e v Let_def EscalationRef_Value_def
    by (intro renders_canon renders_intro [of escalation_ref_keys]) (auto simp: escalation_ref_keys_def wf_obj_def member_def)
qed

lemma json_refs_loop_read:
  "json_refs_loop vs = Some es \<Longrightarrow> \<forall>v\<in>set vs. distinct_val v \<Longrightarrow> map canon vs = map (canon \<circ> EscalationRef_Value) es"
  by (induction vs arbitrary: es) (auto simp: json_ref_read split: option.splits)

lemma json_refs_read:
  assumes "json_refs v = Some r" "distinct_val v"
  shows "canon v = canon (escalationRefsValue r)"
proof -
  let ?keys = "[''revision'', ''lastControlTicketRevision'', ''workRevision'', ''entries'']"
  obtain kvs a b c vs es where v: "v = VObject kvs" and cl: "closed_ok ?keys kvs"
    and f: "obj_Get kvs ''revision'' = Some (VString a)" "obj_Get kvs ''lastControlTicketRevision'' = Some (VString b)"
      "obj_Get kvs ''workRevision'' = Some (VString c)" "obj_Get kvs ''entries'' = Some (VArray vs)" "json_refs_loop vs = Some es"
    and r: "r = \<lparr>ers_Revision = a, ers_LastControlTicketRevision = b, ers_WorkRevision = c, ers_Entries = es\<rparr>"
    using assms(1) by (auto simp: json_refs_def split: val.splits if_splits option.splits)
  have "distinct_val (VArray vs)"
    using assms(2) f(4) unfolding v obj_Get_def by (auto dest: map_of_SomeD)
  then have "map canon vs = map (canon \<circ> EscalationRef_Value) es" using json_refs_loop_read [OF f(5)] by simp
  then show ?thesis using cl assms(2) f unfolding r v escalationRefsValue_def
    by (intro renders_canon renders_intro [of ?keys]) (auto simp: wf_obj_def member_def)
qed

lemma escalations_read:
  assumes "read_escalations (VObject kvs) = Inr e" "wf_obj kvs"
  shows "case e of None \<Rightarrow> obj_Get kvs ''escalations'' = None | Some r \<Rightarrow> member kvs ''escalations'' (escalationRefsValue r)"
proof (cases "obj_Get kvs ''escalations''")
  case None
  then show ?thesis using assms(1) by (simp add: read_escalations_def del: obj_Get_None)
next
  case (Some f)
  obtain r v where r: "e = Some r" "Parse (EncodeFile f) = Inr v" "json_refs v = Some r"
    using assms(1) Some by (auto simp: read_escalations_def DecodeEscalationRefs_def split: option.splits if_splits sum.splits)
  have d: "distinct_val f" using assms(2) Some unfolding wf_obj_def obj_Get_def by (auto dest: map_of_SomeD)
  have v: "v = canon f"
    using ParseWith_encoded [of f "\<lparr>WideArrayKey = [], WideArrayMax = 0, MaxNodes = 0\<rparr>" v] r(2) d by (simp add: Parse_def)
  have "canon v = canon (escalationRefsValue r)" using json_refs_read [OF r(3)] d by (simp add: v distinct_canon)
  then show ?thesis using r(1) Some v canon_sorted [OF sorted_canon] by (simp add: member_def)
qed

subsection \<open>The members of a record\<close>

lemma yields_Priority: "yields (read_Priority r) s \<longleftrightarrow> yields (rd_String r) s \<and> s \<in> set Priorities"
  by (auto simp: read_Priority_def prog split: if_splits)

interpretation Priority_inverse: inverse_reader read_Priority VString
proof
  show "sticky (read_Priority r)" for r by (simp add: read_Priority_def prog)
qed (use String_inverse.inverse in \<open>auto simp: yields_Priority simp del: canon.simps\<close>)

interpretation Date_inverse: inverse_reader read_Date VString
proof
  show "sticky (read_Date r)" for r by (simp add: read_Date_def prog)
  show "canon (r_v r) = canon (VString s)" if "yields (read_Date r) s" "distinct_val (r_v r)" for r s
    using that String_inverse.inverse [of r s] by (auto simp: read_Date_def prog simp del: canon.simps split: if_splits)
qed

interpretation DateUnlessNull_inverse: inverse_reader "rd_unless_null read_Date" StringOrNull
  by (rule unless_null_string) unfold_locales

interpretation ArchivedFrom_inverse: inverse_reader "rd_unless_null (rd_Enum xs)" StringOrNull
  by (rule unless_null_string) unfold_locales

interpretation TicketOrNull_inverse: inverse_reader "rd_unless_null rd_TicketID" ticketOrNull
  using unless_null_inverse [OF TicketID_inverse.inverse_reader_axioms] by (simp add: ticketOrNull_def [abs_def])

lemma label_nonempty: "\<not> yields (rd_Label r) []"
  by (auto simp: Label_reader.yields_dec dec_with_def dec_string_def ParseLabel_def parseText_def Let_def split: val.splits if_splits sum.splits)

text \<open>An optional member is rendered exactly when the object has it.\<close>

definition opt_member :: "object \<Rightarrow> string \<Rightarrow> val option \<Rightarrow> bool" where
  "opt_member kvs k o1 \<longleftrightarrow> (case o1 of None \<Rightarrow> obj_Get kvs k = None | Some w \<Rightarrow> member kvs k w)"

definition list_option :: "('a list \<Rightarrow> val) \<Rightarrow> 'a list \<Rightarrow> val option" where
  "list_option render xs = (if xs = [] then None else Some (render xs))"

lemma optional_list:
  assumes "inverse_reader rd render" "\<And>r. \<not> yields (rd r) []"
    and "yields (rd_optional key rd [] \<lparr>r_v = VObject kvs, r_where = loc\<rparr>) x" "wf_obj kvs"
  shows "opt_member kvs key (list_option render x)"
proof (cases "obj_Get kvs key")
  case None
  then show ?thesis using assms(3) inverse_reader.stuck [OF assms(1)]
    by (simp add: yields_optional opt_member_def list_option_def del: obj_Get_None)
next
  case (Some v)
  then have y: "yields (rd_at key rd \<lparr>r_v = VObject kvs, r_where = loc\<rparr>) x"
    using assms(3) inverse_reader.stuck [OF assms(1)] by (simp add: yields_optional del: obj_Get_None)
  then have "x \<noteq> []" using assms(2) inverse_reader.stuck [OF assms(1)] by (cases x) (auto simp: yields_at)
  then show ?thesis using at_member [OF assms(1) y assms(4)] by (simp add: opt_member_def list_option_def)
qed

lemma optional_option:
  assumes "inverse_reader rd (\<lambda>x. case x of None \<Rightarrow> VNull | Some y \<Rightarrow> render y)" "\<And>r. \<not> yields (rd r) None"
    and "yields (rd_optional key rd None \<lparr>r_v = VObject kvs, r_where = loc\<rparr>) x" "wf_obj kvs"
  shows "opt_member kvs key (map_option render x)"
proof (cases "obj_Get kvs key")
  case None
  then show ?thesis using assms(3) inverse_reader.stuck [OF assms(1)]
    by (simp add: yields_optional opt_member_def del: obj_Get_None)
next
  case (Some v)
  then have y: "yields (rd_at key rd \<lparr>r_v = VObject kvs, r_where = loc\<rparr>) x"
    using assms(3) inverse_reader.stuck [OF assms(1)] by (simp add: yields_optional del: obj_Get_None)
  then have "x \<noteq> None" using assms(2) inverse_reader.stuck [OF assms(1)] by (cases x) (auto simp: yields_at)
  then show ?thesis using at_member [OF assms(1) y assms(4)] by (auto simp: opt_member_def)
qed

definition identity_members :: "Record \<Rightarrow> object" where
  "identity_members x =
     [(''ticketId'', VString (t_Raw (rec_TicketID x))), (''revision'', VString (rec_Revision x)),
      (''acceptanceRevision'', VString (rec_AcceptanceRevision x)), (''previousRecordSha256'', StringOrNull (rec_PreviousRecordSha256 x)),
      (''status'', VString (rec_Status x)), (''archivedFrom'', StringOrNull (rec_ArchivedFrom x)), (''title'', VString (rec_Title x)),
      (''body'', StringOrNull (rec_Body x)), (''kind'', VString (rec_Kind x))]"

definition planning_members :: "Record \<Rightarrow> object" where
  "planning_members x =
     [(''owner'', StringOrNull (rec_Owner x)), (''milestone'', StringOrNull (rec_Milestone x)), (''priority'', VString (rec_Priority x)),
      (''order'', VString (rec_Order x)), (''labels'', Strings (rec_Labels x)),
      (''dependencies'', VArray (map Dependency_Value (rec_Dependencies x))), (''acceptanceCriteria'', Strings (rec_AcceptanceCriteria x)),
      (''requirementRefs'', Strings (rec_RequirementRefs x))]"

definition execution_members :: "Record \<Rightarrow> object" where
  "execution_members x =
     [(''source'', Source_Value (rec_Source x)),
      (''effects'', Effects_Value (rec_Effects x)), (''capabilities'', Strings (rec_Capabilities x)),
      (''requiredGates'', Strings (rec_RequiredGates x)), (''holds'', VArray (map Hold_Value (rec_Holds x))),
      (''executionClass'', VString (rec_ExecutionClass x)), (''approvals'', VArray (map Approval_Value (rec_Approvals x))),
      (''completion'', Completion_Value (rec_Completion x))]"

definition tail_members :: "Record \<Rightarrow> object" where
  "tail_members x =
     [(''dueDate'', StringOrNull (rec_DueDate x)),
      (''estimateMinutes'', StringOrNull (rec_EstimateMinutes x)), (''supersedes'', ticketOrNull (rec_Supersedes x)),
      (''supersededBy'', ticketOrNull (rec_SupersededBy x)), (''shadowOverlay'', VBool (rec_ShadowOverlay x)),
      (''createdAt'', VString (rec_CreatedAt x)), (''updatedAt'', VString (rec_UpdatedAt x)), (''updatedBy'', VString (rec_UpdatedBy x))]"

abbreviation ms_ok :: "object \<Rightarrow> object \<Rightarrow> bool" where
  "ms_ok kvs ms \<equiv> list_all (\<lambda>(k, w). member kvs k w) ms"

lemmas record_axioms =
  Priority_inverse.inverse_reader_axioms DateUnlessNull_inverse.inverse_reader_axioms ArchivedFrom_inverse.inverse_reader_axioms
  TicketOrNull_inverse.inverse_reader_axioms Source_inverse.inverse_reader_axioms Effects_inverse.inverse_reader_axioms
  Completion_inverse.inverse_reader_axioms Dependency_inverse.array_each Hold_inverse.array_each Approval_inverse.array_each

lemmas record_members_rules = members record_axioms [THEN at_member]
lemmas record_prog = prog record_axioms [THEN inverse_reader.stuck] Label_inverse.stuck

lemma sticky_tail_groups:
  "sticky (read_identity r x)" "sticky (read_planning r x)" "sticky (read_execution r x)" "sticky (read_tail r x)"
  by (simp_all add: read_identity_def read_planning_def read_execution_def read_tail_def record_prog)

lemma identity_read:
  assumes "yields (read_identity \<lparr>r_v = VObject kvs, r_where = loc\<rparr> x0) x" "wf_obj kvs"
  shows "ms_ok kvs (identity_members x)"
  using assms by (auto simp: read_identity_def record_prog identity_members_def dest!: record_members_rules simp del: yields_at)

lemma tail_read:
  assumes "yields (read_tail \<lparr>r_v = VObject kvs, r_where = loc\<rparr> x0) x" "wf_obj kvs"
  shows "ms_ok kvs (tail_members x)"
  using assms by (auto simp: read_tail_def record_prog tail_members_def dest!: record_members_rules)

lemma execution_read:
  assumes "yields (read_execution \<lparr>r_v = VObject kvs, r_where = loc\<rparr> x0) x" "wf_obj kvs"
  shows "ms_ok kvs (execution_members x)"
  using assms by (auto simp: read_execution_def record_prog execution_members_def dest!: record_members_rules)

lemma planning_read:
  assumes "yields (read_planning \<lparr>r_v = VObject kvs, r_where = loc\<rparr> x0) x" "wf_obj kvs"
  shows "ms_ok kvs (planning_members x)"
  using assms by (auto simp: read_planning_def record_prog planning_members_def dest!: record_members_rules)

text \<open>The optional members, in the order of \<^verbatim>\<open>Value\<close>.\<close>

definition pool_option :: "Record \<Rightarrow> val option" where
  "pool_option x = list_option VString (rec_RequiresPool x)"

definition optional_options :: "Record \<Rightarrow> (string \<times> val option) list" where
  "optional_options x =
     [(''requiredRoles'', map_option StageRolesValue (rec_RequiredRoles x)),
      (''executionPrerequisites'', list_option PrerequisitesValue (rec_ExecutionPrerequisites x)),
      (''attachedEvidence'', list_option AttachedEvidenceValue (rec_AttachedEvidence x)),
      (''progress'', list_option ProgressValue (rec_Progress x)),
      (''knowHow'', list_option KnowHowValue (rec_KnowHow x)),
      (''obligations'', map_option ObligationsReference_Value (rec_ObligationsRef x))]"

abbreviation opts_ok :: "object \<Rightarrow> (string \<times> val option) list \<Rightarrow> bool" where
  "opts_ok kvs os \<equiv> list_all (\<lambda>(k, o1). opt_member kvs k o1) os"

lemma some_StageRoles: "sticky (rd_some ReadStageRoles r)" "\<not> yields (rd_some ReadStageRoles r) None"
  using yields_some [OF StageRoles_inverse.stuck] inverse_reader.stuck [OF some_inverse [OF StageRoles_inverse.inverse_reader_axioms]]
  by auto

lemma nonempty_lists:
  "\<not> yields (ReadPrerequisites r) []" "\<not> yields (ReadAttachedEvidence r) []" "\<not> yields (ReadProgress r) []" "\<not> yields (ReadKnowHow r) []"
  unfolding ReadAttachedEvidence_def ReadProgress_def
  using ReadPrerequisites_nonempty ReadKnowHow_nonempty nonempty_nonempty [OF AttachedEvidence_inverse.inverse_reader_axioms]
    nonempty_nonempty [OF Progress_inverse.inverse_reader_axioms]
  by (blast | meson)+

lemma obligations_some: "\<not> yields (ReadObligationsReference r) None"
  using ObligationsReference_read by blast

lemmas optional_stuck = some_StageRoles(1) Prerequisites_inverse.stuck AttachedEvidences_inverse.stuck Progresses_inverse.stuck
  KnowHow_inverse.stuck sticky_ObligationsReference

lemma sticky_optional_members: "sticky (read_optional_members r x)"
  by (simp add: read_optional_members_def sticky_bind sticky_return sticky_optional optional_stuck)

lemmas sticky_groups = sticky_tail_groups sticky_optional_members

lemmas optional_rules =
  optional_option [OF some_inverse [OF StageRoles_inverse.inverse_reader_axioms] some_StageRoles(2)]
  optional_list [OF Prerequisites_inverse.inverse_reader_axioms nonempty_lists(1)]
  optional_list [OF AttachedEvidences_inverse.inverse_reader_axioms nonempty_lists(2)]
  optional_list [OF Progresses_inverse.inverse_reader_axioms nonempty_lists(3)]
  optional_list [OF KnowHow_inverse.inverse_reader_axioms nonempty_lists(4)]
  optional_option [OF ObligationsReference_inverse.inverse_reader_axioms obligations_some]

lemma optional_members_read:
  assumes "yields (read_optional_members \<lparr>r_v = VObject kvs, r_where = loc\<rparr> x0) x" "wf_obj kvs"
  shows "opts_ok kvs (optional_options x)"
proof -
  let ?r = "\<lparr>r_v = VObject kvs, r_where = loc\<rparr>"
  obtain ro pq ae pg kh ob where
    x: "x = x0\<lparr>rec_RequiredRoles := ro, rec_ExecutionPrerequisites := pq, rec_AttachedEvidence := ae, rec_Progress := pg,
       rec_KnowHow := kh, rec_ObligationsRef := ob\<rparr>"
    and y: "yields (rd_optional ''requiredRoles'' (rd_some ReadStageRoles) None ?r) ro"
      "yields (rd_optional ''executionPrerequisites'' ReadPrerequisites [] ?r) pq"
      "yields (rd_optional ''attachedEvidence'' ReadAttachedEvidence [] ?r) ae"
      "yields (rd_optional ''progress'' ReadProgress [] ?r) pg"
      "yields (rd_optional ''knowHow'' ReadKnowHow [] ?r) kh"
      "yields (rd_optional ''obligations'' ReadObligationsReference None ?r) ob"
    using assms(1) by (auto simp: read_optional_members_def yields_bind sticky_bind yields_return sticky_return sticky_optional optional_stuck)
  show ?thesis
    using optional_rules(1) [OF y(1) assms(2)] optional_rules(2) [OF y(2) assms(2)] optional_rules(3) [OF y(3) assms(2)]
      optional_rules(4) [OF y(4) assms(2)] optional_rules(5) [OF y(5) assms(2)] optional_rules(6) [OF y(6) assms(2)]
    by (simp add: x optional_options_def)
qed

lemma pool_read:
  assumes "yields (read_planning \<lparr>r_v = VObject kvs, r_where = loc\<rparr> x0) x" "wf_obj kvs"
  shows "opt_member kvs ''requiresPool'' (pool_option x)"
proof -
  have "yields (rd_optional ''requiresPool'' rd_Label [] \<lparr>r_v = VObject kvs, r_where = loc\<rparr>) (rec_RequiresPool x)"
    using assms(1) by (auto simp: read_planning_def record_prog yields_optional)
  from optional_list [OF Label_inverse.inverse_reader_axioms label_nonempty this assms(2)] show ?thesis
    by (simp add: pool_option_def)
qed

subsection \<open>The groups keep each other's fields\<close>

lemmas group_members = identity_members_def planning_members_def execution_members_def tail_members_def optional_options_def pool_option_def

lemma optional_keeps:
  "yields (read_optional_members r x0) x \<Longrightarrow> rec_OperatorNote x = rec_OperatorNote x0 \<and> rec_ExternalReviews x = rec_ExternalReviews x0"
  by (auto simp: read_optional_members_def yields_bind sticky_bind yields_return sticky_return sticky_optional optional_stuck)

lemma identity_keeps:
  "yields (read_identity r x0) x \<Longrightarrow> rec_OperatorNote x = rec_OperatorNote x0 \<and> rec_ExternalReviews x = rec_ExternalReviews x0 \<and>
     optional_options x = optional_options x0"
  by (auto simp: read_identity_def record_prog group_members simp del: yields_at)

lemma planning_keeps:
  "yields (read_planning r x0) x \<Longrightarrow> rec_OperatorNote x = rec_OperatorNote x0 \<and> rec_ExternalReviews x = rec_ExternalReviews x0 \<and>
     optional_options x = optional_options x0 \<and> identity_members x = identity_members x0"
  by (simp add: read_planning_def record_prog del: yields_at yields_optional) (elim exE conjE, hypsubst, simp add: group_members)

lemma execution_keeps:
  "yields (read_execution r x0) x \<Longrightarrow> rec_OperatorNote x = rec_OperatorNote x0 \<and> rec_ExternalReviews x = rec_ExternalReviews x0 \<and>
     optional_options x = optional_options x0 \<and> identity_members x = identity_members x0 \<and> planning_members x = planning_members x0 \<and>
     pool_option x = pool_option x0"
  by (simp add: read_execution_def record_prog del: yields_at) (elim exE conjE, hypsubst, simp add: group_members)

lemma tail_keeps:
  "yields (read_tail r x0) x \<Longrightarrow> rec_OperatorNote x = rec_OperatorNote x0 \<and> rec_ExternalReviews x = rec_ExternalReviews x0 \<and>
     optional_options x = optional_options x0 \<and> identity_members x = identity_members x0 \<and> planning_members x = planning_members x0 \<and>
     pool_option x = pool_option x0 \<and> execution_members x = execution_members x0"
  by (simp add: read_tail_def record_prog del: yields_at) (elim exE conjE, hypsubst, simp add: group_members)

subsection \<open>The record as a closed object\<close>

definition present :: "(string \<times> val option) list \<Rightarrow> object" where
  "present os = concat (map (\<lambda>(k, o1). case o1 of None \<Rightarrow> [] | Some w \<Rightarrow> [(k, w)]) os)"

lemma present_simps [simp]:
  "present [] = []" "present ((k, None) # os) = present os" "present ((k, Some w) # os) = (k, w) # present os"
  by (simp_all add: present_def)

lemma present_mem: "(k, w) \<in> set (present os) \<longleftrightarrow> (k, Some w) \<in> set os"
proof (induction os)
  case (Cons a os)
  then show ?case by (cases a; cases "snd a") auto
qed simp

lemma present_sub: "fst ` set (present os) \<subseteq> fst ` set os"
  using present_mem by force

lemma present_distinct: "distinct (map fst os) \<Longrightarrow> distinct (map fst (present os))"
proof (induction os)
  case (Cons a os)
  then show ?case using present_sub [of os] by (cases a; cases "snd a") auto
qed simp

lemma present_member: "opts_ok kvs os \<Longrightarrow> ms_ok kvs (present os)"
  by (force simp: list_all_iff opt_member_def present_mem)

lemma present_has:
  assumes "opts_ok kvs os" "k \<in> fst ` set os" "obj_Get kvs k \<noteq> None"
  shows "k \<in> fst ` set (present os)"
proof -
  obtain o1 where o1: "(k, o1) \<in> set os" using assms(2) by auto
  then have "opt_member kvs k o1" using assms(1) by (auto simp: list_all_iff)
  then obtain w where "o1 = Some w" using assms(3) by (cases o1) (simp_all add: opt_member_def)
  then have "(k, w) \<in> set (present os)" using o1 by (simp add: present_mem)
  then show ?thesis by (rule rev_image_eqI) simp
qed

lemma renders_present:
  assumes "closed_ok (OptionalKeys (VObject kvs) req opt) kvs" "ms_ok kvs a" "ms_ok kvs b" "opts_ok kvs os"
    and "set req \<subseteq> fst ` set a \<union> fst ` set b" "set opt \<subseteq> fst ` set os"
    and "distinct (map fst a @ map fst os @ map fst b)"
  shows "renders kvs (a @ present os @ b)"
proof (rule renders_intro [OF assms(1)])
  have d: "distinct (map fst a)" "distinct (map fst os)" "distinct (map fst b)" "fst ` set os \<inter> fst ` set b = {}"
      "fst ` set a \<inter> (fst ` set os \<union> fst ` set b) = {}"
    using assms(7) by simp_all
  have mono: "A \<inter> (B' \<union> C) = {} \<and> B' \<inter> C = {}" if "A \<inter> (B \<union> C) = {}" "B \<inter> C = {}" "B' \<subseteq> B" for A B B' C :: "string set"
    using that by blast
  show "distinct (map fst (a @ present os @ b))"
    using d(1,3) present_distinct [OF d(2)] mono [OF d(5,4) present_sub] by simp
  show "ms_ok kvs (a @ present os @ b)" using assms(2,3) present_member [OF assms(4)] by simp
  show "set (OptionalKeys (VObject kvs) req opt) \<subseteq> fst ` set (a @ present os @ b)"
  proof
    fix k assume "k \<in> set (OptionalKeys (VObject kvs) req opt)"
    then consider "k \<in> set req" | "k \<in> set opt" "obj_Get kvs k \<noteq> None" by (auto simp: OptionalKeys_def)
    then have "k \<in> fst ` set a \<union> fst ` set b \<union> fst ` set (present os)"
    proof cases
      case 1
      then show ?thesis using subsetD [OF assms(5)] by blast
    next
      case 2
      then show ?thesis using present_has [OF assms(4) subsetD [OF assms(6)]] by blast
    qed
    then show "k \<in> fst ` set (a @ present os @ b)" by (simp only: set_append image_Un Un_iff) blast
  qed
qed

definition record_options :: "Record \<Rightarrow> (string \<times> val option) list" where
  "record_options x =
     hd (optional_options x) # (''requiresPool'', pool_option x) # (''escalations'', map_option escalationRefsValue (rec_Escalations x)) #
     (''operatorNote'', map_option OperatorNote_Value (rec_OperatorNote x)) #
     (''externalReviews'', list_option ExternalReviewsValue (rec_ExternalReviews x)) # tl (optional_options x)"

lemma present_if: "present ((k, list_option f xs) # os) = (if xs \<noteq> [] then [(k, f xs)] else []) @ present os"
  by (simp add: list_option_def)

lemma present_case: "present ((k, map_option f o1) # os) = (case o1 of None \<Rightarrow> [] | Some y \<Rightarrow> [(k, f y)]) @ present os"
  by (simp split: option.split)

lemma record_members_groups:
  "record_members x = ((''profile'', VString Profile) # identity_members x) @ present (record_options x) @
     (planning_members x @ execution_members x @ tail_members x)"
  unfolding record_options_def optional_options_def pool_option_def list.sel present_if present_case present_simps(1)
  unfolding record_members_def identity_members_def planning_members_def execution_members_def tail_members_def by simp

lemma record_keys:
  "set TicketRecordKeys \<subseteq> fst ` set ((''profile'', VString Profile) # identity_members x) \<union>
     fst ` set (planning_members x @ execution_members x @ tail_members x)"
  "set TicketRecordOptionalKeys \<subseteq> fst ` set (record_options x)"
  by (simp_all add: TicketRecordKeys_def TicketRecordOptionalKeys_def identity_members_def planning_members_def
      execution_members_def tail_members_def record_options_def optional_options_def)

lemma record_distinct:
  "distinct (map fst ((''profile'', VString Profile) # identity_members x) @ map fst (record_options x) @
     map fst (planning_members x @ execution_members x @ tail_members x))"
  by (simp add: identity_members_def planning_members_def execution_members_def tail_members_def record_options_def optional_options_def)

lemma sticky_record: "sticky (read_record r x)"
  by (simp add: read_record_def sticky_bind sticky_groups)

lemma record_read:
  assumes "yields (read_record \<lparr>r_v = VObject kvs, r_where = loc\<rparr> x0) x" "wf_obj kvs"
  shows "ms_ok kvs (identity_members x @ planning_members x @ execution_members x @ tail_members x) \<and>
    opts_ok kvs (optional_options x) \<and> opt_member kvs ''requiresPool'' (pool_option x) \<and>
    rec_OperatorNote x = rec_OperatorNote x0 \<and> rec_ExternalReviews x = rec_ExternalReviews x0"
proof -
  let ?r = "\<lparr>r_v = VObject kvs, r_where = loc\<rparr>"
  obtain x1 x2 x3 x4 where y: "yields (read_optional_members ?r x0) x1" "yields (read_identity ?r x1) x2"
      "yields (read_planning ?r x2) x3" "yields (read_execution ?r x3) x4" "yields (read_tail ?r x4) x"
    using assms(1) sticky_groups unfolding read_record_def by (auto simp: yields_bind sticky_bind)
  show ?thesis
    using optional_members_read [OF y(1) assms(2)] identity_read [OF y(2) assms(2)] planning_read [OF y(3) assms(2)]
      pool_read [OF y(3) assms(2)] execution_read [OF y(4) assms(2)] tail_read [OF y(5) assms(2)]
      optional_keeps [OF y(1)] identity_keeps [OF y(2)] planning_keeps [OF y(3)] execution_keeps [OF y(4)] tail_keeps [OF y(5)]
    by simp
qed

lemma note_read:
  assumes "OperatorNoteReferenceFromValue v = Inr n" "distinct_val v"
  shows "canon v = canon (OperatorNote_Value n)"
proof -
  have "yields (read_OperatorNote (fst (NewReader v ''/operatorNote''))) n"
    using assms(1) by (auto simp: OperatorNoteReferenceFromValue_def run_reader_Inr [OF OperatorNote_inverse.stuck] split: if_splits)
  from OperatorNote_inverse.inverse [OF this] show ?thesis using assms(2) by (simp add: NewReader_def)
qed

lemma profile_read:
  assumes "CheckProfile ''/profile'' (fst (run_state (rd_at ''profile'' rd_String \<lparr>r_v = VObject kvs, r_where = ''/''\<rparr>) fresh)) Profile = Inr u"
    and "obj_Get kvs ''profile'' \<noteq> None"
  shows "member kvs ''profile'' (VString Profile)"
proof -
  obtain v where v: "obj_Get kvs ''profile'' = Some v" using assms(2) by blast
  have "fst (run_state (rd_at ''profile'' rd_String \<lparr>r_v = VObject kvs, r_where = ''/''\<rparr>) fresh) = Profile"
    using assms(1) by (auto simp: CheckProfile_def split: if_splits)
  then have "v = VString Profile"
    using v by (auto simp: rd_at_def rd_Field_def rd_String_def rd_Fail_def rd_adopt_def fresh_def rd_child_def Let_def Profile_def
        split: val.splits if_splits option.splits)
  then show ?thesis using v by (simp add: member_def)
qed

lemma object_value:
  assumes "obj_Get kvs k = Some v" "wf_obj kvs"
  shows "distinct_val v"
  using assms unfolding wf_obj_def obj_Get_def by (auto dest: map_of_SomeD)

lemma FromValue_read:
  assumes f: "FromValue flip v = Inr x" and d: "distinct_val v"
  shows "canon v = canon (Record_Value x) \<and> validate flip x = Inr ()"
proof -
  obtain kvs nt reviews y esc where v: "v = VObject kvs"
    and closed: "closed_ok (OptionalKeys (VObject kvs) TicketRecordKeys TicketRecordOptionalKeys) kvs"
    and prof: "CheckProfile ''/profile'' (fst (run_state (rd_at ''profile'' rd_String \<lparr>r_v = VObject kvs, r_where = ''/''\<rparr>) fresh)) Profile = Inr ()"
    and nt: "(case obj_Get kvs ''operatorNote'' of None \<Rightarrow> Inr None | Some w \<Rightarrow> map_sum id Some (OperatorNoteReferenceFromValue w)) = Inr nt"
    and reviews: "(case obj_Get kvs ''externalReviews'' of None \<Rightarrow> Inr [] | Some w \<Rightarrow> ExternalReviewsFromValue w) = Inr reviews"
    and rec: "yields (read_record \<lparr>r_v = VObject kvs, r_where = ''/''\<rparr> (zero_Record\<lparr>rec_OperatorNote := nt, rec_ExternalReviews := reviews\<rparr>)) y"
    and esc: "read_escalations (VObject kvs) = Inr esc" and x: "x = y\<lparr>rec_Escalations := esc\<rparr>" and val: "validate flip x = Inr ()"
    using f sticky_record unfolding FromValue_def Let_def rbind_eq_Inr
    by (auto simp: run_reader_Inr Closed_reader.is_sticky Closed_reader.yields_dec dec_closed_iff NewReader_def field_value_def)
  have w: "wf_obj kvs" using d v by (simp add: wf_obj_def)
  note r = record_read [OF rec w]
  have n: "opt_member kvs ''operatorNote'' (map_option OperatorNote_Value nt)"
    using nt note_read object_value [OF _ w] by (auto simp: opt_member_def member_def map_sum_def split: option.splits sum.splits simp del: obj_Get_None)
  have rv: "opt_member kvs ''externalReviews'' (list_option ExternalReviewsValue reviews)"
    using reviews ExternalReviews_read object_value [OF _ w]
    by (auto simp: opt_member_def member_def list_option_def split: option.splits simp del: obj_Get_None)
  have e: "opt_member kvs ''escalations'' (map_option escalationRefsValue esc)"
    using escalations_read [OF esc w] by (auto simp: opt_member_def split: option.splits)
  have p: "member kvs ''profile'' (VString Profile)"
  proof (rule profile_read [OF prof])
    have "''profile'' \<in> set (OptionalKeys (VObject kvs) TicketRecordKeys TicketRecordOptionalKeys)"
      by (simp add: OptionalKeys_def TicketRecordKeys_def)
    then show "obj_Get kvs ''profile'' \<noteq> None" using closed unfolding closed_ok_def filter_empty_conv by blast
  qed
  have keep: "identity_members x = identity_members y" "planning_members x = planning_members y" "execution_members x = execution_members y"
      "tail_members x = tail_members y" "optional_options x = optional_options y" "pool_option x = pool_option y"
    by (simp_all add: x group_members)
  have opts: "opts_ok kvs (record_options x)"
    using r n rv e unfolding record_options_def keep by (simp add: optional_options_def x zero_Record_def)
  have "renders kvs (record_members x)"
    unfolding record_members_groups
    by (rule renders_present [OF closed _ _ opts record_keys record_distinct])
      (use r p keep in simp_all)
  then show ?thesis using renders_canon w v val by (simp add: Record_Value_def)
qed

end
