(* ===== verification/Ticket_File.thy ===== *)
theory Ticket_File
  imports Ticket_Roundtrip
begin

text \<open>
  The ticket file: \<^verbatim>\<open>Decode\<close> and \<^verbatim>\<open>Encode\<close> of \<^verbatim>\<open>internal/tasks/ticket/record.go\<close> are inverse on the files that
  \<^verbatim>\<open>Decode\<close> accepts. A small native draft is the file on which the property is instantiated.
\<close>

subsection \<open>A sample file\<close>

definition sample_effects :: object where
  "sample_effects = [(''coverage'', VString ''UNKNOWN''), (''externalUnbounded'', VBool False), (''resources'', VArray []), (''touchPaths'', VArray [])]"

definition sample_source :: object where
  "sample_source = [(''kind'', VString ''NATIVE''), (''sourceItemId'', VNull), (''sourceQueueId'', VString ''queue:a:q''), (''sourceRevisionSha256'', VNull)]"

definition sample_file :: object where
  "sample_file = [(''acceptanceCriteria'', VArray []), (''acceptanceRevision'', VString ''1''), (''approvals'', VArray []),
     (''archivedFrom'', VNull), (''body'', VNull), (''capabilities'', VArray []), (''completion'', VNull),
     (''createdAt'', VString ''2026-01-01T00:00:00Z''), (''dependencies'', VArray []), (''dueDate'', VNull), (''effects'', VObject sample_effects),
     (''estimateMinutes'', VNull), (''executionClass'', VString ''MANUAL''), (''holds'', VArray []), (''kind'', VString ''CHORE''),
     (''labels'', VArray []), (''milestone'', VNull), (''order'', VString ''1''), (''owner'', VNull), (''previousRecordSha256'', VNull),
     (''priority'', VString ''P2''), (''profile'', VString Profile), (''requiredGates'', VArray []), (''requirementRefs'', VArray []),
     (''revision'', VString ''1''), (''shadowOverlay'', VBool False), (''source'', VObject sample_source), (''status'', VString ''DRAFT''),
     (''supersededBy'', VNull), (''supersedes'', VNull), (''ticketId'', VString ''ticket:a:q:T1''), (''title'', VString ''t''),
     (''updatedAt'', VString ''2026-01-01T00:00:00Z''), (''updatedBy'', VString ''op'')]"

lemma sample_file_get:
  "obj_Get sample_file ''acceptanceCriteria'' = Some (VArray [])"
  "obj_Get sample_file ''acceptanceRevision'' = Some (VString ''1'')"
  "obj_Get sample_file ''approvals'' = Some (VArray [])"
  "obj_Get sample_file ''archivedFrom'' = Some VNull"
  "obj_Get sample_file ''body'' = Some VNull"
  "obj_Get sample_file ''capabilities'' = Some (VArray [])"
  "obj_Get sample_file ''completion'' = Some VNull"
  "obj_Get sample_file ''createdAt'' = Some (VString ''2026-01-01T00:00:00Z'')"
  "obj_Get sample_file ''dependencies'' = Some (VArray [])"
  "obj_Get sample_file ''dueDate'' = Some VNull"
  "obj_Get sample_file ''effects'' = Some (VObject sample_effects)"
  "obj_Get sample_file ''estimateMinutes'' = Some VNull"
  "obj_Get sample_file ''executionClass'' = Some (VString ''MANUAL'')"
  "obj_Get sample_file ''holds'' = Some (VArray [])"
  "obj_Get sample_file ''kind'' = Some (VString ''CHORE'')"
  "obj_Get sample_file ''labels'' = Some (VArray [])"
  "obj_Get sample_file ''milestone'' = Some VNull"
  "obj_Get sample_file ''order'' = Some (VString ''1'')"
  "obj_Get sample_file ''owner'' = Some VNull"
  "obj_Get sample_file ''previousRecordSha256'' = Some VNull"
  "obj_Get sample_file ''priority'' = Some (VString ''P2'')"
  "obj_Get sample_file ''profile'' = Some (VString Profile)"
  "obj_Get sample_file ''requiredGates'' = Some (VArray [])"
  "obj_Get sample_file ''requirementRefs'' = Some (VArray [])"
  "obj_Get sample_file ''revision'' = Some (VString ''1'')"
  "obj_Get sample_file ''shadowOverlay'' = Some (VBool False)"
  "obj_Get sample_file ''source'' = Some (VObject sample_source)"
  "obj_Get sample_file ''status'' = Some (VString ''DRAFT'')"
  "obj_Get sample_file ''supersededBy'' = Some VNull"
  "obj_Get sample_file ''supersedes'' = Some VNull"
  "obj_Get sample_file ''ticketId'' = Some (VString ''ticket:a:q:T1'')"
  "obj_Get sample_file ''title'' = Some (VString ''t'')"
  "obj_Get sample_file ''updatedAt'' = Some (VString ''2026-01-01T00:00:00Z'')"
  "obj_Get sample_file ''updatedBy'' = Some (VString ''op'')"
  "obj_Get sample_file ''requiresPool'' = None"
  "obj_Get sample_file ''requiredRoles'' = None"
  "obj_Get sample_file ''escalations'' = None"
  "obj_Get sample_file ''operatorNote'' = None"
  "obj_Get sample_file ''externalReviews'' = None"
  "obj_Get sample_file ''executionPrerequisites'' = None"
  "obj_Get sample_file ''attachedEvidence'' = None"
  "obj_Get sample_file ''knowHow'' = None"
  "obj_Get sample_file ''obligations'' = None"
  "obj_Get sample_file ''progress'' = None"
  by (simp_all add: sample_file_def obj_Get_def del: obj_Get_None)

lemma sample_source_get:
  "obj_Get sample_source ''kind'' = Some (VString ''NATIVE'')"
  "obj_Get sample_source ''sourceItemId'' = Some VNull"
  "obj_Get sample_source ''sourceQueueId'' = Some (VString ''queue:a:q'')"
  "obj_Get sample_source ''sourceRevisionSha256'' = Some VNull"
  by (simp_all add: sample_source_def obj_Get_def del: obj_Get_None)

lemma sample_effects_get:
  "obj_Get sample_effects ''coverage'' = Some (VString ''UNKNOWN'')"
  "obj_Get sample_effects ''externalUnbounded'' = Some (VBool False)"
  "obj_Get sample_effects ''resources'' = Some (VArray [])"
  "obj_Get sample_effects ''touchPaths'' = Some (VArray [])"
  "obj_Get sample_effects ''verdictPaths'' = None"
  by (simp_all add: sample_effects_def obj_Get_def del: obj_Get_None)

lemma file_within: "within_bounds (VObject sample_file)"
  by (auto simp: within_bounds_def sample_file_def sample_source_def sample_effects_def Profile_def limit_defs plainASCII_def input_options_def intro!: clean_plain)

lemma file_sorted: "sorted_val (VObject sample_file)"
  by (simp add: sample_file_def sample_source_def sample_effects_def)

lemma file_closed: "closed_ok (OptionalKeys (VObject sample_file) TicketRecordKeys TicketRecordOptionalKeys) sample_file"
  by code_simp

lemma effects_closed: "closed_ok (OptionalKeys (VObject sample_effects) TicketEffectsKeys TicketEffectsOptionalKeys) sample_effects"
  by code_simp

lemma file_count: "dec_with ParseCount loc (VString ''1'') = Inr ''1''"
proof -
  have "CountOf (int 1) = ''1''" by code_simp
  moreover have "1 \<le> MaxCountValue" by (simp add: MaxCountValue_def)
  ultimately show ?thesis by (auto simp: dec_with_def dec_string_def ParseCount_eq intro!: exI [of _ 1])
qed

lemma file_ticket:
  "dec_with ParseTicketID loc (VString ''ticket:a:q:T1'') = Inr \<lparr>t_Raw = ''ticket:a:q:T1'', t_Authority = ''a'', t_Queue = ''q'', t_Local = ''T1''\<rparr>"
proof -
  have "isTokenByte (CHR ''a'') True" "isTokenByte (CHR ''q'') True" "isTokenByte (CHR ''T'') True" "isTokenByte (CHR ''1'') False"
    by code_simp+
  then show ?thesis by (simp add: dec_with_def dec_string_def ParseTicketID_def checkIDLength_def limit_defs ParseToken_def)
qed

lemma file_time:
  "dec_with ParseTimestamp loc (VString ''2026-01-01T00:00:00Z'') = Inr ''2026-01-01T00:00:00Z''"
  by code_simp

lemma file_texts:
  "dec_with ParseLabel loc (VString ''op'') = Inr ''op''"
  "dec_with (\<lambda>loc s. ParseProse loc s (Suc 0) MaxTitleBytes) loc (VString ''t'') = Inr ''t''"
  "dec_with ParseIdentifier loc (VString ''queue:a:q'') = Inr ''queue:a:q''"
  by (simp_all add: dec_with_def dec_string_def ParseLabel_def ParseProse_def ParseIdentifier_def parseText_plain plainASCII_def limit_defs)

lemma yields_Array_nil: "yields (rd_Array mx sem \<lparr>r_v = VArray [], r_where = loc\<rparr>) es \<longleftrightarrow> es = []"
  by (auto simp: yields_def rd_Array_def rd_child_def fresh_def CheckSortedUnique_def split: if_splits)

lemma yields_nil:
  "yields (rd_Strings mx sem rd \<lparr>r_v = VArray [], r_where = loc\<rparr>) ss \<longleftrightarrow> ss = []"
  "yields (rd_array_each mx sem rd2 \<lparr>r_v = VArray [], r_where = loc\<rparr>) xs \<longleftrightarrow> xs = []"
  by (auto simp: yields_def rd_Strings_def rd_array_each_def rd_Array_def rd_child_def fresh_def CheckSortedUnique_def split: if_splits)

lemma yields_unless_null: "yields (rd_unless_null rd \<lparr>r_v = VNull, r_where = loc\<rparr>) x \<longleftrightarrow> x = None"
  by (auto simp: rd_unless_null_def IsNull_def yields_return)

lemma file_enum: "s \<in> set xs \<Longrightarrow> dec_enum xs loc (VString s) = Inr s"
  by (simp add: dec_enum_def dec_with_def dec_string_def)

lemma file_members:
  "''DRAFT'' \<in> set Statuses" "''CHORE'' \<in> set Kinds" "''UNKNOWN'' \<in> set Coverages" "''NATIVE'' \<in> set SourceKinds"
  "''MANUAL'' \<in> set ExecutionClasses" "''P2'' \<in> set Priorities"
  by code_simp+

lemmas sample_simps = run_simps record_prog rd_StringOrNull_def rd_LabelOrNull_def rd_DigestOrNull_def rd_ProseOrNull_def rd_CountOrNull_def
  IsNull_def yields_unless_null yields_nil file_count file_ticket file_time file_texts file_enum file_members dec_bool_def

lemma sample_optional: "yields (read_optional_members \<lparr>r_v = VObject sample_file, r_where = ''/''\<rparr> zero_Record) zero_Record"
  by (simp add: read_optional_members_def run_simps sticky_groups optional_stuck sample_file_get val_Has_def del: obj_Get_None)
   (simp add: zero_Record_def)

definition file_identity :: "Record \<Rightarrow> Record" where
  "file_identity x = x\<lparr>rec_TicketID := \<lparr>t_Raw = ''ticket:a:q:T1'', t_Authority = ''a'', t_Queue = ''q'', t_Local = ''T1''\<rparr>,
     rec_Revision := ''1'', rec_AcceptanceRevision := ''1'', rec_PreviousRecordSha256 := None, rec_Status := ''DRAFT'',
     rec_ArchivedFrom := None, rec_Title := ''t'', rec_Body := None, rec_Kind := ''CHORE''\<rparr>"

lemma sample_identity: "yields (read_identity \<lparr>r_v = VObject sample_file, r_where = ''/''\<rparr> x) (file_identity x)"
  by (simp add: read_identity_def record_prog del: yields_at)
    (simp add: sample_simps sample_file_get file_identity_def del: obj_Get_None)

definition file_planning :: "Record \<Rightarrow> Record" where
  "file_planning x = x\<lparr>rec_RequiresPool := [], rec_Owner := None, rec_Milestone := None, rec_Priority := ''P2'', rec_Order := ''1'', rec_Labels := [],
       rec_Dependencies := [], rec_AcceptanceCriteria := [], rec_RequirementRefs := []\<rparr>"

lemma sample_planning: "yields (read_planning \<lparr>r_v = VObject sample_file, r_where = ''/''\<rparr> x) (file_planning x)"
proof -
  have p: "yields (read_Priority \<lparr>r_v = VString ''P2'', r_where = loc\<rparr>) z \<longleftrightarrow> z = ''P2''" for loc z
    by (auto simp: yields_Priority run_simps dec_string_def file_members)
  show ?thesis
  by (simp add: read_planning_def record_prog del: yields_at)
    (simp add: sample_simps p dec_strings_nil sample_file_get val_Has_def file_planning_def del: obj_Get_None)
qed

definition file_tail :: "Record \<Rightarrow> Record" where
  "file_tail x = x\<lparr>rec_DueDate := None, rec_EstimateMinutes := None, rec_Supersedes := None, rec_SupersededBy := None, rec_ShadowOverlay := False,
       rec_CreatedAt := ''2026-01-01T00:00:00Z'', rec_UpdatedAt := ''2026-01-01T00:00:00Z'', rec_UpdatedBy := ''op''\<rparr>"

lemma sample_tail: "yields (read_tail \<lparr>r_v = VObject sample_file, r_where = ''/''\<rparr> x) (file_tail x)"
  by (simp add: read_tail_def record_prog del: yields_at)
    (simp add: sample_simps sample_file_get file_tail_def del: obj_Get_None, rule exI [of _ False], simp)

definition file_execution :: "Record \<Rightarrow> Record" where
  "file_execution x = x\<lparr>rec_Source := \<lparr>s_Kind = ''NATIVE'', s_SourceQueueID = ''queue:a:q'', s_SourceItemID = None, s_SourceRevisionSha256 = None\<rparr>,
     rec_Effects := \<lparr>ef_Coverage = ''UNKNOWN'', ef_TouchPaths = [], ef_Resources = [], ef_ExternalUnbounded = False, ef_VerdictPaths = None\<rparr>,
     rec_Capabilities := [], rec_RequiredGates := [], rec_Holds := [], rec_ExecutionClass := ''MANUAL'', rec_Approvals := [], rec_Completion := None\<rparr>"

lemma sample_source: "yields (read_Source \<lparr>r_v = VObject sample_source, r_where = loc\<rparr>)
   \<lparr>s_Kind = ''NATIVE'', s_SourceQueueID = ''queue:a:q'', s_SourceItemID = None, s_SourceRevisionSha256 = None\<rparr>"
proof -
  have "closed_ok [''kind'', ''sourceQueueId'', ''sourceItemId'', ''sourceRevisionSha256''] sample_source" by code_simp
  then show ?thesis
    by (simp add: read_Source_def prog del: yields_at) (simp add: sample_simps sample_source_get del: obj_Get_None)
qed

lemma sample_effects: "yields (read_Effects \<lparr>r_v = VObject sample_effects, r_where = loc\<rparr>)
   \<lparr>ef_Coverage = ''UNKNOWN'', ef_TouchPaths = [], ef_Resources = [], ef_ExternalUnbounded = False, ef_VerdictPaths = None\<rparr>"
  using effects_closed
  by (simp add: read_Effects_def prog sticky_VerdictPaths Resources_inverse.stuck del: yields_at)
    (simp add: sample_simps sample_effects_get ReadVerdictPaths_def val_Has_def Resources_inverse.stuck dec_strings_nil del: obj_Get_None,
      rule exI [of _ False], simp)

lemma sample_execution: "yields (read_execution \<lparr>r_v = VObject sample_file, r_where = ''/''\<rparr> x) (file_execution x)"
proof -
  have c: "yields (read_Completion \<lparr>r_v = VNull, r_where = loc\<rparr>) z \<longleftrightarrow> z = None" for loc z
    by (auto simp: read_Completion_def IsNull_def yields_return)
  have s: "yields (rd_at ''source'' read_Source \<lparr>r_v = VObject sample_file, r_where = ''/''\<rparr>)
      \<lparr>s_Kind = ''NATIVE'', s_SourceQueueID = ''queue:a:q'', s_SourceItemID = None, s_SourceRevisionSha256 = None\<rparr>"
    and e: "yields (rd_at ''effects'' read_Effects \<lparr>r_v = VObject sample_file, r_where = ''/''\<rparr>)
      \<lparr>ef_Coverage = ''UNKNOWN'', ef_TouchPaths = [], ef_Resources = [], ef_ExternalUnbounded = False, ef_VerdictPaths = None\<rparr>"
    unfolding yields_at [OF Source_inverse.stuck] yields_at [OF Effects_inverse.stuck]
    by (simp_all add: sample_file_get sample_source sample_effects del: obj_Get_None)
  have o1: "yields (rd_at ''capabilities'' (rd_Strings (int MaxCapabilities) False rd_Identifier) \<lparr>r_v = VObject sample_file, r_where = ''/''\<rparr>) []"
     "yields (rd_at ''requiredGates'' (rd_Strings (int MaxRequiredGates) False rd_Label) \<lparr>r_v = VObject sample_file, r_where = ''/''\<rparr>) []"
     "yields (rd_at ''holds'' (rd_array_each (int MaxHolds) True read_Hold) \<lparr>r_v = VObject sample_file, r_where = ''/''\<rparr>) []"
     "yields (rd_at ''executionClass'' (rd_Enum ExecutionClasses) \<lparr>r_v = VObject sample_file, r_where = ''/''\<rparr>) ''MANUAL''"
     "yields (rd_at ''approvals'' (rd_array_each (int MaxApprovals) True read_Approval) \<lparr>r_v = VObject sample_file, r_where = ''/''\<rparr>) []"
     "yields (rd_at ''completion'' read_Completion \<lparr>r_v = VObject sample_file, r_where = ''/''\<rparr>) None"
    by (simp_all add: sample_simps sample_file_get c dec_strings_nil del: obj_Get_None)
  show ?thesis
    unfolding read_execution_def file_execution_def
    by (simp add: record_prog del: yields_at)
     (rule exI, rule conjI, rule s, rule exI, rule conjI, rule e, rule exI, rule conjI, rule o1(1)
     , rule exI, rule conjI, rule o1(2), rule exI, rule conjI, rule o1(3), rule exI, rule conjI, rule o1(4)
     , rule exI, rule conjI, rule o1(5), rule exI, rule conjI, rule o1(6), rule refl)
qed

definition file_record :: Record where
  "file_record = file_tail (file_execution (file_planning (file_identity zero_Record)))"

lemma file_record_ok: "validate flip file_record = Inr ()"
  by (simp add: validate_record_ok)
    (simp add: file_record_def file_tail_def file_execution_def file_planning_def file_identity_def zero_Record_def record_ok_def
      revisions_ok_def status_ok_def source_ok_def edges_ok_def evidence_ok_def obligations_ok_def escalations_ok_def reference_ok_def
      validateKnowHow_def EffectiveStatus_def sample_seqs StatusArchived_def StatusHeld_def StatusCompleted_def)

lemma file_read: "yields (read_record \<lparr>r_v = VObject sample_file, r_where = ''/''\<rparr> zero_Record) file_record"
  unfolding read_record_def file_record_def
  by (simp add: yields_bind sticky_bind sticky_groups)
    (rule exI, rule conjI, rule sample_optional, rule exI, rule conjI, rule sample_identity, rule exI, rule conjI,
      rule sample_planning, rule exI, rule conjI, rule sample_execution, rule sample_tail)

lemma enc_str_length: "length (enc_str s) \<le> 6 * length s + 2"
proof -
  have b: "length (enc_byte c) \<le> 6" for c by (simp add: enc_byte_def escape_byte_def)
  have "length (concat (map enc_byte s)) \<le> 6 * length s"
    using b by (induction s) (auto intro: add_mono)
  then show ?thesis by (simp add: enc_str_def)
qed

subsection \<open>The size of an encoding\<close>

text \<open>An upper bound of the length of an encoding that is a sum over the members.\<close>

fun weight :: "val \<Rightarrow> nat" where
  "weight VNull = 4"
| "weight (VBool b) = 5"
| "weight (VString s) = 6 * length s + 2"
| "weight (VArray vs) = 2 + sum_list (map (\<lambda>v. weight v + 1) vs)"
| "weight (VObject kvs) = 2 + sum_list (map (\<lambda>(k, v). 6 * length k + 4 + weight v) kvs)"

lemma join_length: "length (join '','' ss) \<le> sum_list (map (\<lambda>s. length s + 1) ss)"
  by (induction "'',''" ss rule: join.induct) auto

lemma enc_weight: "distinct_val v \<Longrightarrow> length (enc v) \<le> weight v"
proof (induction v)
  case (VString s)
  then show ?case using enc_str_length [of s] by simp
next
  case (VArray vs)
  then have "sum_list (map (\<lambda>s. length s + 1) (map enc vs)) \<le> sum_list (map (\<lambda>v. weight v + 1) vs)"
    by (auto simp: comp_def intro!: sum_list_mono)
  then show ?case using join_length [of "map enc vs"] by simp
next
  case (VObject kvs)
  let ?f = "\<lambda>k. enc_str k @ '':'' @ the (map_of (map (\<lambda>(k, v). (k, enc v)) kvs) k)"
  let ?g = "\<lambda>(k, v). 6 * length k + 4 + weight v"
  have d: "distinct (map fst kvs)" using VObject.prems by simp
  have le: "length (?f (fst kv)) + 1 \<le> ?g kv" if "kv \<in> set kvs" for kv
  proof -
    obtain k v where kv: "kv = (k, v)" by (cases kv)
    have "map_of kvs k = Some v" using that kv d by simp
    then have "the (map_of (map (\<lambda>(k, v). (k, enc v)) kvs) k) = enc v"
      using that kv the_map_of_map [of k kvs enc] by force
    moreover have "length (enc v) \<le> weight v" using VObject.IH [of kv v] VObject.prems that kv by auto
    ultimately show ?thesis using kv enc_str_length [of k] by simp
  qed
  have "sum_list (map (\<lambda>s. length s + 1) (map ?f (SortedKeys kvs))) = sum_list (map (\<lambda>k. length (?f k) + 1) (map fst kvs))"
    using sum_list_sort_key [of "\<lambda>k. length (?f k) + 1" id "map fst kvs"]
    by (simp only: map_map comp_def SortedKeys_def obj_Keys_def id_def)
  also have "\<dots> \<le> sum_list (map ?g kvs)" unfolding map_map comp_def by (intro sum_list_mono le)
  finally show ?case using join_length [of "map ?f (SortedKeys kvs)"] by simp
qed auto

lemma file_decodes: "Decode False (EncodeFile (VObject sample_file)) = Inr file_record"
proof -
  have p: "Parse (EncodeFile (VObject sample_file)) = Inr (VObject sample_file)"
    using file_within file_sorted by (simp add: Parse_iff)
  have len: "length (EncodeFile (VObject sample_file)) \<le> MaxTicketFileBytes"
  proof -
    have "distinct_val (VObject sample_file)" using file_within fits_distinct by (auto simp: within_bounds_def)
    then have "length (enc (VObject sample_file)) \<le> weight (VObject sample_file)" by (rule enc_weight)
    also have "\<dots> \<le> 100000" by (simp add: sample_file_def sample_source_def sample_effects_def Profile_def)
    finally show ?thesis by (simp add: EncodeFile_eq limit_defs)
  qed
  have v: "FromValue False (VObject sample_file) = Inr file_record"
  proof -
    have pr: "fst (run_state (rd_at ''profile'' rd_String \<lparr>r_v = VObject sample_file, r_where = ''/''\<rparr>) fresh) = Profile"
      by (simp add: rd_at_def rd_Field_def rd_String_def rd_child_def fresh_def sample_file_get del: obj_Get_None)
    have pv: "ProfileVersion ''/profile'' (VObject sample_file) Profile = Inr ()"
      by (simp add: ProfileVersion_def otherVersion_def CheckProfile_def sample_file_get del: obj_Get_None)
    have cl: "run_reader (rd_Closed (OptionalKeys (VObject sample_file) TicketRecordKeys TicketRecordOptionalKeys)
        \<lparr>r_v = VObject sample_file, r_where = ''/''\<rparr>) = Inr ()"
      using file_closed by (simp add: run_reader_Inr Closed_reader.is_sticky Closed_reader.yields_dec dec_closed_iff)
    have es: "read_escalations (VObject sample_file) = Inr None"
      by (simp add: read_escalations_def sample_file_get del: obj_Get_None)
    have z: "zero_Record\<lparr>rec_OperatorNote := None, rec_ExternalReviews := []\<rparr> = zero_Record"
      "file_record\<lparr>rec_Escalations := None\<rparr> = file_record"
      by (simp_all add: zero_Record_def file_record_def file_tail_def file_execution_def file_planning_def file_identity_def)
    have rd: "run_reader (read_record \<lparr>r_v = VObject sample_file, r_where = ''/''\<rparr> zero_Record) = Inr file_record"
      using file_read by (simp add: run_reader_Inr sticky_record)
    show ?thesis
      by (simp add: FromValue_def Let_def NewReader_def pr pv cl es z rd field_value_def sample_file_get CheckProfile_def file_record_ok del: obj_Get_None)
  qed
  show ?thesis using p len v by (simp add: Decode_def)
qed

text \<open>
  C13: a record file is determined by the record it decodes to. What \<^verbatim>\<open>Decode\<close> accepts is within the size
  bound, satisfies \<^verbatim>\<open>validate\<close>, and \<^verbatim>\<open>Encode\<close> of the decoded record is the file byte for byte, so the
  digest that chains a revision to its predecessor is a function of the decoded record.
\<close>

theorem Decode_Encode:
  assumes "Decode flip data = Inr x"
  shows "Record_Encode x = data \<and> validate flip x = Inr () \<and> length data \<le> MaxTicketFileBytes"
proof -
  obtain v where v: "Parse data = Inr v" "FromValue flip v = Inr x" and len: "length data \<le> MaxTicketFileBytes"
    using assms by (auto simp: Decode_def split: if_splits)
  have p: "data = EncodeFile v" "sorted_val v" "distinct_val v"
    using v(1) fits_distinct by (auto simp: Parse_iff within_bounds_def)
  note r = FromValue_read [OF v(2) p(3)]
  have "canon (Record_Value x) = v" using r canon_sorted [OF p(2)] by simp
  then have "distinct_val (Record_Value x)" using p(3) distinct_canon by metis
  then have "Encode v = Encode (Record_Value x)" using r p(3) by (intro canon_Encode) auto
  then show ?thesis using p(1) r len by (simp add: Record_Encode_def EncodeFile_def)
qed

theorem Decode_Encode_witness:
  "Record_Encode file_record = EncodeFile (VObject sample_file) \<and> Decode False (Record_Encode file_record) = Inr file_record"
  using Decode_Encode [OF file_decodes] file_decodes by simp

end
