(* ===== verification/Obligations.thy ===== *)
theory Obligations
  imports Ticket_Codec
begin

text \<open>
  The data of the obligation ledger (\<^verbatim>\<open>internal/tasks/ticket/obligations.go\<close>, \<^verbatim>\<open>obligation_review.go\<close>,
  \<^verbatim>\<open>obligation_scope.go\<close>, \<^verbatim>\<open>obligation_mirror.go\<close>) with the grammars of \<^verbatim>\<open>wire/obligations.go\<close>. A slice
  whose nil and empty values the code tells apart is an \<open>option\<close>.
\<close>

subsection \<open>Constants\<close>

definition ObligationEventProfile :: string where "ObligationEventProfile = ''taskman-obligation-event/0''"
definition MaxObligationEventBytes :: nat where "MaxObligationEventBytes = 65536"
definition MaxObligationTitleBytes :: nat where "MaxObligationTitleBytes = 256"
definition MaxObligationReasonBytes :: nat where "MaxObligationReasonBytes = 512"
definition MaxObligationChanges :: nat where "MaxObligationChanges = 64"
definition MaxObligationMatches :: nat where "MaxObligationMatches = 16"
definition MaxObligationPathElems :: nat where "MaxObligationPathElems = 16"
definition MaxObligationPathElemBytes :: nat where "MaxObligationPathElemBytes = 512"
definition MaxObligationTestIDBytes :: nat where "MaxObligationTestIDBytes = 256"
definition MaxObligationEvidenceRefBytes :: nat where "MaxObligationEvidenceRefBytes = 256"
definition MaxObligationSources :: nat where "MaxObligationSources = 16"
definition MaxObligationSourceRefBytes :: nat where "MaxObligationSourceRefBytes = 256"
definition MaxObligationSourceQueryBytes :: nat where "MaxObligationSourceQueryBytes = 1024"
definition MaxObligationSourceSearched :: nat where "MaxObligationSourceSearched = 32"
definition MaxObligationReviewers :: nat where "MaxObligationReviewers = 16"
definition MaxObligationReviewAuthors :: nat where "MaxObligationReviewAuthors = 64"
definition MaxObligationCites :: nat where "MaxObligationCites = 16"
definition MaxObligationScopeEvidenceBytes :: nat where "MaxObligationScopeEvidenceBytes = 512"
definition ObligationsMaxIDDigits :: nat where "ObligationsMaxIDDigits = 6"
definition ObligationsMaxAliasBytes :: nat where "ObligationsMaxAliasBytes = 128"

definition OpObligationsSeed :: string where "OpObligationsSeed = ''OBLIGATIONS_SEED''"
definition OpObligationsSet :: string where "OpObligationsSet = ''OBLIGATIONS_SET''"
definition OpObligationsWitness :: string where "OpObligationsWitness = ''OBLIGATIONS_WITNESS''"

definition ObligationOperations :: "string list" where
  "ObligationOperations = [OpObligationsSeed, OpObligationsSet, OpObligationsWitness]"

definition IsObligationOperation :: "string \<Rightarrow> bool" where
  "IsObligationOperation op \<longleftrightarrow> op = OpObligationsSeed \<or> op = OpObligationsSet \<or> op = OpObligationsWitness"

definition ObligationOpen :: string where "ObligationOpen = ''OPEN''"
definition ObligationWitnessed :: string where "ObligationWitnessed = ''WITNESSED''"
definition ObligationDefect :: string where "ObligationDefect = ''DEFECT''"
definition ObligationBlocked :: string where "ObligationBlocked = ''BLOCKED''"
definition ObligationDeferred :: string where "ObligationDeferred = ''DEFERRED''"
definition ObligationPartial :: string where "ObligationPartial = ''PARTIAL''"

lemmas obligation_state_defs = ObligationOpen_def ObligationWitnessed_def ObligationDefect_def ObligationBlocked_def
  ObligationDeferred_def ObligationPartial_def

lemmas obligation_op_defs = OpObligationsSeed_def OpObligationsSet_def OpObligationsWitness_def

definition ObligationStates :: "string list" where
  "ObligationStates = [ObligationOpen, ObligationWitnessed, ObligationDefect, ObligationBlocked, ObligationDeferred, ObligationPartial]"

definition ObligationPending :: "string \<Rightarrow> bool" where
  "ObligationPending s \<longleftrightarrow> s = ObligationOpen \<or> s = ObligationPartial \<or> s = ObligationDefect \<or> s = ObligationBlocked"

definition ObligationSourceReport :: string where "ObligationSourceReport = ''PLAYWRIGHT_REPORT''"
definition ObligationSourceDeclared :: string where "ObligationSourceDeclared = ''DECLARED''"
definition ObligationSourceReviewed :: string where "ObligationSourceReviewed = ''REVIEWED''"

definition ObligationReviewLegacyCase :: string where "ObligationReviewLegacyCase = ''legacy-case''"
definition ObligationReviewLegacySpec :: string where "ObligationReviewLegacySpec = ''legacy-spec''"
definition ObligationReviewManualCase :: string where "ObligationReviewManualCase = ''manual-case''"
definition ObligationReviewNone :: string where "ObligationReviewNone = ''none''"

definition ObligationReviewCredited :: string where "ObligationReviewCredited = ''CREDITED''"
definition ObligationReviewHeld :: string where "ObligationReviewHeld = ''HELD''"

definition VerdictCorrect :: string where "VerdictCorrect = ''correct''"
definition VerdictPartial :: string where "VerdictPartial = ''partial''"
definition VerdictWrong :: string where "VerdictWrong = ''wrong''"

definition StubRiskNone :: string where "StubRiskNone = ''none''"
definition StubRiskBoundary :: string where "StubRiskBoundary = ''boundary''"
definition StubRiskOnPath :: string where "StubRiskOnPath = ''on-path''"

definition ObligationScopePropose :: string where "ObligationScopePropose = ''PROPOSE''"
definition ObligationScopeAccept :: string where "ObligationScopeAccept = ''ACCEPT''"
definition ObligationScopeProposed :: string where "ObligationScopeProposed = ''PROPOSED''"
definition ObligationScopeAccepted :: string where "ObligationScopeAccepted = ''ACCEPTED''"
definition VerdictFindingNoFalsifiableText :: string where "VerdictFindingNoFalsifiableText = ''NO_FALSIFIABLE_TEXT''"

text \<open>\<^verbatim>\<open>stubRiskRank\<close> is a Go map: a key it does not hold has rank 0.\<close>

definition stubRiskRank :: "string \<Rightarrow> nat" where
  "stubRiskRank s = (if s = StubRiskNone then 0 else if s = StubRiskBoundary then 1 else if s = StubRiskOnPath then 2 else 0)"

subsection \<open>Grammars\<close>

definition alnum_byte :: "char \<Rightarrow> bool" where
  "alnum_byte c \<longleftrightarrow> is_upper c \<or> is_lower c \<or> is_digit c"

definition ObligationAliasByte :: "char \<Rightarrow> bool" where
  "ObligationAliasByte c \<longleftrightarrow> is_upper c \<or> is_lower c \<or> is_digit c \<or> c = CHR ''.'' \<or> c = CHR ''_'' \<or> c = CHR '':'' \<or> c = CHR ''-''"

definition ParseObligationAlias :: "string \<Rightarrow> string \<Rightarrow> string res" where
  "ParseObligationAlias loc s =
     (if s = [] \<or> length s > ObligationsMaxAliasBytes then Inl (Errorf CodeMalformed loc)
      else if \<not> list_all ObligationAliasByte s then Inl (Errorf CodeMalformed loc)
      else if \<not> alnum_byte (hd s) \<or> \<not> alnum_byte (last s) then Inl (Errorf CodeMalformed loc)
      else Inr s)"

text \<open>The index of the last dash, as \<^verbatim>\<open>strings.LastIndexByte\<close> and the backward loop of the parser compute it.\<close>

definition last_dash :: "string \<Rightarrow> nat option" where
  "last_dash s = (let tail = takeWhile (\<lambda>c. c \<noteq> CHR ''-'') (rev s)
     in if length tail = length s then None else Some (length s - length tail - 1))"

text \<open>A valid identifier is a prefix, a dash and 1 to 6 digits without a leading zero; the prefix is returned.\<close>

definition ParseObligationID :: "string \<Rightarrow> string \<Rightarrow> string res" where
  "ParseObligationID loc s = (case last_dash s of
     None \<Rightarrow> Inl (Errorf CodeMalformed loc)
   | Some d \<Rightarrow>
       if d = 0 then Inl (Errorf CodeMalformed loc)
       else rbind (ParseObligationPrefix loc (take d s)) (\<lambda>_.
         let n = drop (d + 1) s
         in if n = [] \<or> length n > ObligationsMaxIDDigits \<or> hd n = CHR ''0'' then Inl (Errorf CodeMalformed loc)
            else if \<not> list_all is_digit n then Inl (Errorf CodeMalformed loc)
            else Inr (take d s)))"

text \<open>Only called on a valid identifier, so the slice bound is in range.\<close>

definition ObligationIDPrefix :: "string \<Rightarrow> string" where
  "ObligationIDPrefix i = (case last_dash i of None \<Rightarrow> i | Some d \<Rightarrow> take d i)"

lemma ParseObligationID_prefix: "ParseObligationID loc s = Inr p \<Longrightarrow> ObligationIDPrefix s = p"
  by (auto simp: ParseObligationID_def ObligationIDPrefix_def Let_def split: option.splits if_splits)

subsection \<open>Evidence\<close>

record ObligationMatch =
  mt_Path :: string
  mt_TestID :: string
  mt_TitlePath :: "string list"
  mt_StepTitle :: "string option"
  mt_StepPath :: "string list"

record ObligationDeclaration =
  dl_ManifestSha256 :: string
  dl_TestID :: string
  dl_Reason :: string

record ObligationProvenance =
  pv_TestCommit :: "string option"
  pv_EnvironmentTree :: "string option"
  pv_EvidenceRef :: "string option"
  pv_TestTitle :: "string option"

record ObligationEvidence =
  ev_Source :: string
  ev_EventSha256 :: string
  ev_Commit :: string
  ev_ReportSha256 :: "string option"
  ev_PlaywrightVersion :: "string option"
  ev_Matches :: "ObligationMatch list option"
  ev_Declaration :: "ObligationDeclaration option"
  ev_Provenance :: "ObligationProvenance option"
  ev_TestRepository :: "string option"

definition pv_Strings :: "ObligationProvenance option \<Rightarrow> string list" where
  "pv_Strings p = (case p of None \<Rightarrow> [] | Some p \<Rightarrow>
     (case pv_EvidenceRef p of None \<Rightarrow> [] | Some s \<Rightarrow> [s]) @ (case pv_TestTitle p of None \<Rightarrow> [] | Some s \<Rightarrow> [s]))"

record ObligationReviewSource =
  sr_Kind :: string
  sr_Ref :: string
  sr_Digest :: string
  sr_Query :: string
  sr_Searched :: "string list"
  sr_At :: string

subsection \<open>Reviews\<close>

record ObligationVerdict =
  vd_Reviewer :: string
  vd_Verdict :: string
  vd_StubRisk :: string
  vd_Reason :: string
  vd_Finding :: string

record ObligationReviewSubject =
  sj_Path :: string
  sj_StartLine :: int
  sj_EndLine :: int
  sj_BlobSha256 :: string

record ObligationReview =
  rw_Reviewers :: int
  rw_MaxStubRisk :: string
  rw_Subject :: ObligationReviewSubject
  rw_Authors :: "string list"
  rw_Verdicts :: "ObligationVerdict list"

text \<open>The failing axes are appended in the order \<^verbatim>\<open>reviewers\<close>, \<^verbatim>\<open>stubRisk\<close>, \<^verbatim>\<open>verdict\<close> and sorted.\<close>

definition review_axes :: "ObligationReview \<Rightarrow> string list" where
  "review_axes r = sort (
     (if int (length (rw_Verdicts r)) < rw_Reviewers r then [''reviewers''] else []) @
     (if list_ex (\<lambda>v. stubRiskRank (vd_StubRisk v) > stubRiskRank (rw_MaxStubRisk r)) (rw_Verdicts r) then [''stubRisk''] else []) @
     (if list_ex (\<lambda>v. vd_Verdict v \<noteq> VerdictCorrect) (rw_Verdicts r) then [''verdict''] else []))"

definition review_Outcome :: "ObligationReview \<Rightarrow> string \<times> string list" where
  "review_Outcome r = (if review_axes r = [] then (ObligationReviewCredited, []) else (ObligationReviewHeld, review_axes r))"

record ObligationReviewRecord =
  vr_Outcome :: string
  vr_Axes :: "string list"
  vr_EventSha256 :: string
  vr_Commit :: string
  vr_Review :: ObligationReview
  vr_TestRepository :: "string option"

subsection \<open>Citations, scope decisions, candidates and mirrors\<close>

record ObligationCite =
  ct_Repository :: "string option"
  ct_Path :: string

record ObligationScopeChange =
  sc_Action :: string
  sc_Core :: bool
  sc_Evidence :: string

record ObligationScope =
  sp_Status :: string
  sp_Core :: bool
  sp_Reason :: string
  sp_Evidence :: string
  sp_ProposedByID :: string
  sp_ProposedByRole :: string
  sp_ProposedAt :: string
  sp_AcceptedByID :: string
  sp_AcceptedByRole :: string
  sp_AcceptedAt :: string

record ObligationCandidate =
  cd_Path :: string
  cd_StartLine :: int
  cd_EndLine :: int
  cd_At :: string

record ObligationMirrorRef =
  mr_TicketID :: TicketID
  mr_ID :: string

text \<open>\<^verbatim>\<open>ObligationMirrorChange{Owner}\<close>: a nil owner clears the mirror.\<close>

type_synonym ObligationMirrorChange = "ObligationMirrorRef option"

subsection \<open>Entries, requests and events\<close>

record ObligationEntry =
  en_ID :: string
  en_Alias :: string
  en_Title :: string
  en_Core :: bool
  en_State :: string
  en_Reason :: "string option"
  en_Evidence :: "ObligationEvidence option"
  en_Sources :: "ObligationReviewSource list option"
  en_Review :: "ObligationReviewRecord option"
  en_Cites :: "ObligationCite list option"
  en_Scope :: "ObligationScope option"
  en_Candidate :: "ObligationCandidate option"
  en_SatisfiedBy :: "ObligationMirrorRef option"
  en_UpdatedAt :: string
  en_UpdatedByID :: string
  en_UpdatedByRole :: string

record ObligationSeedItem =
  si_ID :: string
  si_Alias :: string
  si_Title :: string
  si_Core :: bool

record ObligationSeedPayload =
  sd_Prefix :: string
  sd_Obligations :: "ObligationSeedItem list"

record ObligationChange =
  ch_ID :: string
  ch_State :: "string option"
  ch_Core :: "bool option"
  ch_Reason :: string
  ch_Sources :: "ObligationReviewSource list option"
  ch_Cites :: "ObligationCite list option"
  ch_Scope :: "ObligationScopeChange option"
  ch_Candidate :: "ObligationCandidate option"
  ch_Mirror :: "ObligationMirrorChange option"

record ObligationCredit =
  cr_ID :: string
  cr_Matches :: "ObligationMatch list option"

record ObligationWitnessPayload =
  wt_Source :: string
  wt_Commit :: string
  wt_ReportSha256 :: "string option"
  wt_PlaywrightVersion :: "string option"
  wt_Credits :: "ObligationCredit list"
  wt_Declaration :: "ObligationDeclaration option"
  wt_Attempt :: "string option"
  wt_Generation :: "string option"
  wt_Provenance :: "ObligationProvenance option"
  wt_TestRepository :: "string option"
  wt_Review :: "ObligationReview option"

text \<open>
  \<^verbatim>\<open>Seed\<close>, \<^verbatim>\<open>Set\<close> and \<^verbatim>\<open>Witness\<close> of a request or a payload are pointers of which the one its operation names
  is set: a sum. \<^verbatim>\<open>Set\<close> holds only its changes.
\<close>

datatype ObligationsPayload =
  SeedPayload ObligationSeedPayload | SetPayload "ObligationChange list" | WitnessPayload ObligationWitnessPayload

definition obligations_operation :: "ObligationsPayload \<Rightarrow> string" where
  "obligations_operation p = (case p of SeedPayload _ \<Rightarrow> OpObligationsSeed | SetPayload _ \<Rightarrow> OpObligationsSet
     | WitnessPayload _ \<Rightarrow> OpObligationsWitness)"

record ObligationRequest =
  oq_RequestID :: string
  oq_QueueID :: QueueID
  oq_TicketID :: TicketID
  oq_ExpectedRevision :: string
  oq_ActorID :: string
  oq_ActorRole :: string
  oq_Operation :: string
  oq_IssuedAt :: string
  oq_Payload :: ObligationsPayload
  oq_Raw :: string

record ObligationEvent =
  oe_TicketID :: TicketID
  oe_Revision :: string
  oe_Previous :: "string option"
  oe_RequestSha256 :: string
  oe_Request :: string
  oe_Decoded :: ObligationRequest

record ObligationLedger =
  ol_Prefix :: string
  ol_Revision :: int
  ol_Head :: string
  ol_Entries :: "ObligationEntry list"
  ol_Events :: "string list"
  ol_Unblocks :: int

end
