(* ===== verification/Obligation_Codec.thy ===== *)
theory Obligation_Codec
  imports Obligations
begin

text \<open>
  The document format of the obligation ledger: the readers and renderers of payloads, entries and
  evidence, the retained request and the ledger event (\<^verbatim>\<open>ticket/obligations.go\<close>, \<^verbatim>\<open>obligation_review.go\<close>,
  \<^verbatim>\<open>obligation_scope.go\<close>, \<^verbatim>\<open>obligation_mirror.go\<close>). A reader that returns nil after an error returns some
  value here: the recorded error is what its caller reports.
\<close>

subsection \<open>Reading combinators\<close>

text \<open>\<^verbatim>\<open>if r.Err() == nil && bad { f.Fail(code) }\<close>, at the reader or at one of its fields.\<close>

definition rd_fail_if :: "bool \<Rightarrow> reader \<Rightarrow> string \<Rightarrow> unit rd" where
  "rd_fail_if bad r code = do { err \<leftarrow> rd_Err; (if err = None \<and> bad then rd_Fail r code else return ()) }"

definition rd_fail_at :: "bool \<Rightarrow> string \<Rightarrow> reader \<Rightarrow> string \<Rightarrow> unit rd" where
  "rd_fail_at bad key r code = do {
     err \<leftarrow> rd_Err;
     (if err = None \<and> bad then do { f \<leftarrow> rd_Field key r; rd_Fail f code } else return ())
   }"

text \<open>An array that must hold an element, read up to the first element that fails.\<close>

definition rd_some_array :: "nat \<Rightarrow> bool \<Rightarrow> (reader \<Rightarrow> 'a rd) \<Rightarrow> reader \<Rightarrow> 'a list rd" where
  "rd_some_array mx semantic rd r = do {
     items \<leftarrow> rd_Array (int mx) semantic r;
     err \<leftarrow> rd_Err;
     (if err \<noteq> None then return []
      else if items = [] then do { rd_Fail r CodeMalformed; return [] }
      else strings_loop rd items [])
   }"

definition readObligationID :: "reader \<Rightarrow> string rd" where
  "readObligationID = rd_grammar ParseObligationID"

definition readObligationAlias :: "reader \<Rightarrow> string rd" where
  "readObligationAlias = rd_grammar ParseObligationAlias"

text \<open>\<^verbatim>\<open>readIDKeyed\<close>: strictly ascending identifiers; the first element has no predecessor.\<close>

fun id_loop :: "(reader \<Rightarrow> 'a rd) \<Rightarrow> ('a \<Rightarrow> string) \<Rightarrow> string option \<Rightarrow> reader list \<Rightarrow> 'a list rd" where
  "id_loop each ident prev [] = return []"
| "id_loop each ident prev (it # items) = do {
     x \<leftarrow> each it;
     err \<leftarrow> rd_Err;
     (if err \<noteq> None then return []
      else case prev of
        Some p \<Rightarrow>
          if ident x \<le> p then do { rd_Fail it (if ident x = p then CodeDuplicateID else CodeMalformed); return [] }
          else do { xs \<leftarrow> id_loop each ident (Some (ident x)) items; return (x # xs) }
      | None \<Rightarrow> do { xs \<leftarrow> id_loop each ident (Some (ident x)) items; return (x # xs) })
   }"

definition readIDKeyed :: "nat \<Rightarrow> (reader \<Rightarrow> 'a rd) \<Rightarrow> ('a \<Rightarrow> string) \<Rightarrow> reader \<Rightarrow> 'a list rd" where
  "readIDKeyed mx each ident r = do {
     items \<leftarrow> rd_Array (int mx) True r;
     err \<leftarrow> rd_Err;
     (if err \<noteq> None then return []
      else if items = [] then do { rd_Fail r CodeMalformed; return [] }
      else id_loop each ident None items)
   }"

subsection \<open>Matches, declarations and provenance\<close>

definition Match_Value :: "ObligationMatch \<Rightarrow> val" where
  "Match_Value m = VObject [(''path'', VString (mt_Path m)), (''testId'', VString (mt_TestID m)), (''titlePath'', Strings (mt_TitlePath m)),
     (''stepTitle'', StringOrNull (mt_StepTitle m)), (''stepPath'', Strings (mt_StepPath m))]"

definition readTitleElems :: "nat \<Rightarrow> reader \<Rightarrow> string list rd" where
  "readTitleElems mn = rd_check (rd_Strings (int MaxObligationPathElems) True (rd_Prose 1 MaxObligationPathElemBytes)) CodeMalformed
     (\<lambda>xs. length xs < mn) []"

definition step_path_ok :: "ObligationMatch \<Rightarrow> bool" where
  "step_path_ok m = (case mt_StepTitle m of
     None \<Rightarrow> mt_StepPath m = []
   | Some t \<Rightarrow> mt_StepPath m \<noteq> [] \<and> last (mt_StepPath m) = t)"

definition readObligationMatch :: "reader \<Rightarrow> ObligationMatch rd" where
  "readObligationMatch r = do {
     rd_Closed [''path'', ''testId'', ''titlePath'', ''stepTitle'', ''stepPath''] r;
     pa \<leftarrow> rd_at ''path'' ReadKnowHowFile r; ti \<leftarrow> rd_at ''testId'' (rd_Prose 1 MaxObligationTestIDBytes) r;
     tp \<leftarrow> rd_at ''titlePath'' (readTitleElems 1) r; st \<leftarrow> rd_at ''stepTitle'' (rd_ProseOrNull MaxObligationPathElemBytes) r;
     sp \<leftarrow> rd_at ''stepPath'' (readTitleElems 0) r;
     let m = \<lparr>mt_Path = pa, mt_TestID = ti, mt_TitlePath = tp, mt_StepTitle = st, mt_StepPath = sp\<rparr>;
     rd_fail_if (\<not> step_path_ok m) r CodeMalformed;
     return m
   }"

definition readObligationMatches :: "reader \<Rightarrow> ObligationMatch list rd" where
  "readObligationMatches = rd_check (rd_array_each (int MaxObligationMatches) False readObligationMatch) CodeMalformed (\<lambda>ms. ms = []) []"

definition MatchesValue :: "ObligationMatch list \<Rightarrow> val" where
  "MatchesValue ms = (case SortedSet ''/matches'' (map Match_Value ms) of Inl _ \<Rightarrow> VArray (map Match_Value ms) | Inr v \<Rightarrow> v)"

definition Declaration_Value :: "ObligationDeclaration \<Rightarrow> val" where
  "Declaration_Value d = VObject [(''manifestSha256'', VString (dl_ManifestSha256 d)), (''testId'', VString (dl_TestID d)),
     (''reason'', VString (dl_Reason d))]"

definition readObligationDeclaration :: "reader \<Rightarrow> ObligationDeclaration option rd" where
  "readObligationDeclaration r =
     (if IsNull r then return None
      else do {
        rd_Closed [''manifestSha256'', ''testId'', ''reason''] r;
        ms \<leftarrow> rd_at ''manifestSha256'' rd_Digest r; ti \<leftarrow> rd_at ''testId'' (rd_Prose 1 MaxObligationTestIDBytes) r;
        rs \<leftarrow> rd_at ''reason'' (read_nonblank MaxObligationReasonBytes) r;
        return (Some \<lparr>dl_ManifestSha256 = ms, dl_TestID = ti, dl_Reason = rs\<rparr>)
      })"

definition optional_member :: "string \<Rightarrow> string option \<Rightarrow> object" where
  "optional_member key x = (case x of None \<Rightarrow> [] | Some s \<Rightarrow> [(key, VString s)])"

definition Provenance_Value :: "ObligationProvenance \<Rightarrow> val" where
  "Provenance_Value p = VObject (optional_member ''environmentTree'' (pv_EnvironmentTree p) @ optional_member ''evidenceRef'' (pv_EvidenceRef p) @
     optional_member ''testCommit'' (pv_TestCommit p) @ optional_member ''testTitle'' (pv_TestTitle p))"

definition readObligationProvenance :: "reader \<Rightarrow> ObligationProvenance rd" where
  "readObligationProvenance r = do {
     rd_Closed (OptionalKeys (r_v r) [] [''testCommit'', ''environmentTree'', ''evidenceRef'', ''testTitle'']) r;
     tc \<leftarrow> rd_optional ''testCommit'' (rd_some rd_OID) None r; et \<leftarrow> rd_optional ''environmentTree'' (rd_some rd_OID) None r;
     er \<leftarrow> rd_optional ''evidenceRef'' (rd_some (read_nonblank MaxObligationEvidenceRefBytes)) None r;
     tt \<leftarrow> rd_optional ''testTitle'' (rd_some (read_nonblank MaxObligationTestIDBytes)) None r;
     rd_fail_if (tc = None \<and> et = None \<and> er = None \<and> tt = None) r CodeMalformed;
     return \<lparr>pv_TestCommit = tc, pv_EnvironmentTree = et, pv_EvidenceRef = er, pv_TestTitle = tt\<rparr>
   }"

definition Evidence_Value :: "ObligationEvidence \<Rightarrow> val" where
  "Evidence_Value e = VObject ([(''source'', VString (ev_Source e)), (''eventSha256'', VString (ev_EventSha256 e)),
     (''commit'', VString (ev_Commit e)), (''reportSha256'', StringOrNull (ev_ReportSha256 e)),
     (''playwrightVersion'', StringOrNull (ev_PlaywrightVersion e)),
     (''matches'', case ev_Matches e of None \<Rightarrow> VNull | Some ms \<Rightarrow> MatchesValue ms),
     (''declaration'', case ev_Declaration e of None \<Rightarrow> VNull | Some d \<Rightarrow> Declaration_Value d)] @
     (case ev_Provenance e of None \<Rightarrow> [] | Some p \<Rightarrow> [(''provenance'', Provenance_Value p)]) @
     optional_member ''testRepository'' (ev_TestRepository e))"

definition evidence_members_ok :: "ObligationEvidence \<Rightarrow> bool" where
  "evidence_members_ok e \<longleftrightarrow>
     (ev_Source e = ObligationSourceReport \<longleftrightarrow> ev_ReportSha256 e \<noteq> None) \<and> (ev_Source e = ObligationSourceReport \<longleftrightarrow> ev_PlaywrightVersion e \<noteq> None) \<and>
     (ev_Source e = ObligationSourceReport \<longleftrightarrow> ev_Matches e \<noteq> None) \<and> (ev_Source e = ObligationSourceDeclared \<longleftrightarrow> ev_Declaration e \<noteq> None)"

definition ReadObligationEvidence :: "reader \<Rightarrow> ObligationEvidence rd" where
  "ReadObligationEvidence r = do {
     rd_Closed (OptionalKeys (r_v r) [''source'', ''eventSha256'', ''commit'', ''reportSha256'', ''playwrightVersion'', ''matches'', ''declaration'']
       [''provenance'', ''testRepository'']) r;
     so \<leftarrow> rd_at ''source'' (rd_Enum [ObligationSourceReport, ObligationSourceDeclared, ObligationSourceReviewed]) r;
     es \<leftarrow> rd_at ''eventSha256'' rd_Digest r; co \<leftarrow> rd_at ''commit'' rd_OID r;
     rp \<leftarrow> rd_at ''reportSha256'' rd_DigestOrNull r; pw \<leftarrow> rd_at ''playwrightVersion'' rd_LabelOrNull r;
     ms \<leftarrow> rd_at ''matches'' (rd_unless_null readObligationMatches) r; dc \<leftarrow> rd_at ''declaration'' readObligationDeclaration r;
     pv \<leftarrow> rd_optional ''provenance'' (rd_some readObligationProvenance) None r;
     tr \<leftarrow> rd_optional ''testRepository'' (rd_some rd_Label) None r;
     let e = \<lparr>ev_Source = so, ev_EventSha256 = es, ev_Commit = co, ev_ReportSha256 = rp, ev_PlaywrightVersion = pw, ev_Matches = ms,
       ev_Declaration = dc, ev_Provenance = pv, ev_TestRepository = tr\<rparr>;
     rd_fail_if (\<not> evidence_members_ok e) r CodeMalformed;
     return e
   }"

subsection \<open>Review sources\<close>

definition ReviewSource_Value :: "ObligationReviewSource \<Rightarrow> val" where
  "ReviewSource_Value s = VObject (
     if sr_Kind s = ObligationReviewNone
     then [(''kind'', VString (sr_Kind s)), (''query'', VString (sr_Query s)), (''searched'', Strings (sr_Searched s)), (''at'', VString (sr_At s))]
     else [(''kind'', VString (sr_Kind s)), (''ref'', VString (sr_Ref s)), (''digest'', VString (sr_Digest s))])"

definition obligationSourcesValue :: "ObligationReviewSource list \<Rightarrow> val" where
  "obligationSourcesValue ss = VArray (map ReviewSource_Value ss)"

text \<open>A tagged object: the tag is read when the object has it, and otherwise the closed check on it fails.\<close>

definition rd_tag :: "string \<Rightarrow> string list \<Rightarrow> reader \<Rightarrow> string rd" where
  "rd_tag key kinds r = (if val_Has (r_v r) key then rd_at key (rd_Enum kinds) r else do { rd_Closed [key] r; return [] })"

definition read_review_source :: "reader \<Rightarrow> ObligationReviewSource rd" where
  "read_review_source it = do {
     k \<leftarrow> rd_tag ''kind'' [ObligationReviewLegacyCase, ObligationReviewLegacySpec, ObligationReviewManualCase, ObligationReviewNone] it;
     (if k = ObligationReviewNone then do {
        rd_Closed [''kind'', ''query'', ''searched'', ''at''] it;
        q \<leftarrow> rd_at ''query'' (rd_Prose 0 MaxObligationSourceQueryBytes) it;
        ss \<leftarrow> rd_at ''searched'' (rd_Strings (int MaxObligationSourceSearched) False (read_nonblank MaxObligationSourceRefBytes)) it;
        at \<leftarrow> rd_at ''at'' rd_Timestamp it;
        return \<lparr>sr_Kind = k, sr_Ref = [], sr_Digest = [], sr_Query = q, sr_Searched = ss, sr_At = at\<rparr>
      } else do {
        rd_Closed [''kind'', ''ref'', ''digest''] it;
        rf \<leftarrow> rd_at ''ref'' (read_nonblank MaxObligationSourceRefBytes) it;
        d \<leftarrow> rd_at ''digest'' rd_Digest it;
        return \<lparr>sr_Kind = k, sr_Ref = rf, sr_Digest = d, sr_Query = [], sr_Searched = [], sr_At = []\<rparr>
      })
   }"

definition readObligationSources :: "reader \<Rightarrow> ObligationReviewSource list rd" where
  "readObligationSources = rd_some_array MaxObligationSources True read_review_source"

subsection \<open>Citations, scope decisions, candidates and mirrors\<close>

definition Cite_Value :: "ObligationCite \<Rightarrow> val" where
  "Cite_Value c = VObject [(''repository'', StringOrNull (ct_Repository c)), (''path'', VString (ct_Path c))]"

definition obligationCitesValue :: "ObligationCite list \<Rightarrow> val" where
  "obligationCitesValue cs = VArray (map Cite_Value cs)"

definition read_cite :: "reader \<Rightarrow> ObligationCite rd" where
  "read_cite it = do {
     rd_Closed [''repository'', ''path''] it;
     re \<leftarrow> rd_at ''repository'' rd_LabelOrNull it; pa \<leftarrow> rd_at ''path'' rd_Path it;
     return \<lparr>ct_Repository = re, ct_Path = pa\<rparr>
   }"

definition readObligationCites :: "reader \<Rightarrow> ObligationCite list rd" where
  "readObligationCites = rd_some_array MaxObligationCites False read_cite"

definition ScopeChange_Value :: "ObligationScopeChange \<Rightarrow> val" where
  "ScopeChange_Value s = VObject (
     if sc_Action s = ObligationScopeAccept then [(''action'', VString (sc_Action s)), (''core'', VBool (sc_Core s))]
     else [(''action'', VString (sc_Action s)), (''core'', VBool (sc_Core s)), (''evidence'', VString (sc_Evidence s))])"

definition readObligationScopeChange :: "reader \<Rightarrow> ObligationScopeChange rd" where
  "readObligationScopeChange r = do {
     a \<leftarrow> rd_tag ''action'' [ObligationScopePropose, ObligationScopeAccept] r;
     ev \<leftarrow> (if a = ObligationScopeAccept then do { rd_Closed [''action'', ''core''] r; return [] }
       else do { rd_Closed [''action'', ''core'', ''evidence''] r; rd_at ''evidence'' (read_nonblank MaxObligationScopeEvidenceBytes) r });
     co \<leftarrow> rd_at ''core'' rd_Bool r;
     return \<lparr>sc_Action = a, sc_Core = co, sc_Evidence = ev\<rparr>
   }"

definition actor_value :: "string \<Rightarrow> string \<Rightarrow> val" where
  "actor_value i role = VObject [(''id'', VString i), (''role'', VString role)]"

definition Scope_Value :: "ObligationScope \<Rightarrow> val" where
  "Scope_Value s = VObject ([(''status'', VString (sp_Status s)), (''core'', VBool (sp_Core s)), (''reason'', VString (sp_Reason s)),
     (''evidence'', VString (sp_Evidence s)), (''proposedBy'', actor_value (sp_ProposedByID s) (sp_ProposedByRole s)),
     (''proposedAt'', VString (sp_ProposedAt s))] @
     (if sp_Status s = ObligationScopeAccepted
      then [(''acceptedBy'', actor_value (sp_AcceptedByID s) (sp_AcceptedByRole s)), (''acceptedAt'', VString (sp_AcceptedAt s))] else []))"

definition readObligationActor :: "reader \<Rightarrow> (string \<times> string) rd" where
  "readObligationActor r = do {
     rd_Closed [''id'', ''role''] r;
     i \<leftarrow> rd_at ''id'' rd_Label r; ro \<leftarrow> rd_at ''role'' (rd_Enum [''OWNER'', ''OPERATOR'', ''WORKER'']) r;
     return (i, ro)
   }"

definition readObligationScope :: "reader \<Rightarrow> ObligationScope rd" where
  "readObligationScope r = do {
     st \<leftarrow> rd_tag ''status'' [ObligationScopeProposed, ObligationScopeAccepted] r;
     rd_Closed ([''status'', ''core'', ''reason'', ''evidence'', ''proposedBy'', ''proposedAt''] @
       (if st = ObligationScopeAccepted then [''acceptedBy'', ''acceptedAt''] else [])) r;
     co \<leftarrow> rd_at ''core'' rd_Bool r; rs \<leftarrow> rd_at ''reason'' (read_nonblank MaxObligationReasonBytes) r;
     ev \<leftarrow> rd_at ''evidence'' (read_nonblank MaxObligationScopeEvidenceBytes) r;
     p \<leftarrow> rd_at ''proposedBy'' readObligationActor r; pa \<leftarrow> rd_at ''proposedAt'' rd_Timestamp r;
     (if st = ObligationScopeAccepted then do {
        a \<leftarrow> rd_at ''acceptedBy'' readObligationActor r; aa \<leftarrow> rd_at ''acceptedAt'' rd_Timestamp r;
        rd_fail_if (fst a = fst p) r CodeMalformed;
        return \<lparr>sp_Status = st, sp_Core = co, sp_Reason = rs, sp_Evidence = ev, sp_ProposedByID = fst p, sp_ProposedByRole = snd p,
          sp_ProposedAt = pa, sp_AcceptedByID = fst a, sp_AcceptedByRole = snd a, sp_AcceptedAt = aa\<rparr>
      } else return \<lparr>sp_Status = st, sp_Core = co, sp_Reason = rs, sp_Evidence = ev, sp_ProposedByID = fst p, sp_ProposedByRole = snd p,
          sp_ProposedAt = pa, sp_AcceptedByID = [], sp_AcceptedByRole = [], sp_AcceptedAt = []\<rparr>)
   }"

definition Candidate_Value :: "ObligationCandidate \<Rightarrow> val" where
  "Candidate_Value c = VObject ([(''path'', VString (cd_Path c)), (''startLine'', VString (CountOf (cd_StartLine c))),
     (''endLine'', VString (CountOf (cd_EndLine c)))] @ (if cd_At c \<noteq> [] then [(''at'', VString (cd_At c))] else []))"

definition readObligationCandidate :: "bool \<Rightarrow> reader \<Rightarrow> ObligationCandidate rd" where
  "readObligationCandidate withAt r = do {
     rd_Closed ([''path'', ''startLine'', ''endLine''] @ (if withAt then [''at''] else [])) r;
     pa \<leftarrow> rd_at ''path'' rd_Path r; sl \<leftarrow> rd_at ''startLine'' read_int r; el \<leftarrow> rd_at ''endLine'' read_int r;
     at \<leftarrow> (if withAt then rd_at ''at'' rd_Timestamp r else return []);
     rd_fail_if (sl < 1 \<or> el < sl) r CodeMalformed;
     return \<lparr>cd_Path = pa, cd_StartLine = sl, cd_EndLine = el, cd_At = at\<rparr>
   }"

definition MirrorRef_Value :: "ObligationMirrorRef \<Rightarrow> val" where
  "MirrorRef_Value m = VObject [(''ticketId'', VString (t_Raw (mr_TicketID m))), (''id'', VString (mr_ID m))]"

definition readObligationMirrorRef :: "reader \<Rightarrow> ObligationMirrorRef rd" where
  "readObligationMirrorRef r = do {
     rd_Closed [''ticketId'', ''id''] r;
     t \<leftarrow> rd_at ''ticketId'' rd_TicketID r; i \<leftarrow> rd_at ''id'' readObligationID r;
     return \<lparr>mr_TicketID = t, mr_ID = i\<rparr>
   }"

definition MirrorChange_Value :: "ObligationMirrorChange \<Rightarrow> val" where
  "MirrorChange_Value c = (case c of None \<Rightarrow> VNull | Some m \<Rightarrow> MirrorRef_Value m)"

definition readObligationMirrorChange :: "reader \<Rightarrow> ObligationMirrorChange rd" where
  "readObligationMirrorChange = rd_unless_null readObligationMirrorRef"

subsection \<open>Reviews\<close>

definition Verdict_Value :: "ObligationVerdict \<Rightarrow> val" where
  "Verdict_Value v = VObject ([(''reviewer'', VString (vd_Reviewer v)), (''verdict'', VString (vd_Verdict v)),
     (''stubRisk'', VString (vd_StubRisk v)), (''reason'', VString (vd_Reason v))] @
     (if vd_Finding v \<noteq> [] then [(''finding'', VString (vd_Finding v))] else []))"

definition Review_Value :: "ObligationReview \<Rightarrow> val" where
  "Review_Value r = VObject
     [(''policy'', VObject [(''reviewers'', VString (CountOf (rw_Reviewers r))), (''maxStubRisk'', VString (rw_MaxStubRisk r))]),
      (''subject'', VObject [(''path'', VString (sj_Path (rw_Subject r))), (''startLine'', VString (CountOf (sj_StartLine (rw_Subject r)))),
        (''endLine'', VString (CountOf (sj_EndLine (rw_Subject r)))), (''blobSha256'', VString (sj_BlobSha256 (rw_Subject r)))]),
      (''authors'', Strings (rw_Authors r)), (''verdicts'', VArray (map Verdict_Value (rw_Verdicts r)))]"

definition read_review_policy :: "reader \<Rightarrow> (int \<times> string) rd" where
  "read_review_policy pol = do {
     rd_Closed [''reviewers'', ''maxStubRisk''] pol;
     n \<leftarrow> rd_at ''reviewers'' read_int pol; ms \<leftarrow> rd_at ''maxStubRisk'' (rd_Enum [StubRiskNone, StubRiskBoundary]) pol;
     rd_fail_at (n < 1 \<or> n > int MaxObligationReviewers) ''reviewers'' pol CodeMalformed;
     return (n, ms)
   }"

definition read_review_subject :: "reader \<Rightarrow> ObligationReviewSubject rd" where
  "read_review_subject sub = do {
     rd_Closed [''path'', ''startLine'', ''endLine'', ''blobSha256''] sub;
     pa \<leftarrow> rd_at ''path'' rd_Path sub; sl \<leftarrow> rd_at ''startLine'' read_int sub; el \<leftarrow> rd_at ''endLine'' read_int sub;
     bl \<leftarrow> rd_at ''blobSha256'' rd_Digest sub;
     rd_fail_if (sl < 1 \<or> el < sl) sub CodeMalformed;
     return \<lparr>sj_Path = pa, sj_StartLine = sl, sj_EndLine = el, sj_BlobSha256 = bl\<rparr>
   }"

definition read_verdict :: "reader \<Rightarrow> ObligationVerdict rd" where
  "read_verdict it = do {
     rd_Closed (OptionalKeys (r_v it) [''reviewer'', ''verdict'', ''stubRisk'', ''reason''] [''finding'']) it;
     re \<leftarrow> rd_at ''reviewer'' rd_Label it; ve \<leftarrow> rd_at ''verdict'' (rd_Enum [VerdictCorrect, VerdictPartial, VerdictWrong]) it;
     sr \<leftarrow> rd_at ''stubRisk'' (rd_Enum [StubRiskNone, StubRiskBoundary, StubRiskOnPath]) it;
     rs \<leftarrow> rd_at ''reason'' (read_nonblank MaxObligationReasonBytes) it;
     fi \<leftarrow> rd_optional ''finding'' (rd_Enum [VerdictFindingNoFalsifiableText]) [] it;
     rd_fail_at (fi \<noteq> [] \<and> ve = VerdictCorrect) ''finding'' it CodeMalformed;
     return \<lparr>vd_Reviewer = re, vd_Verdict = ve, vd_StubRisk = sr, vd_Reason = rs, vd_Finding = fi\<rparr>
   }"

text \<open>Verdicts are strictly ascending by reviewer, and no reviewer is an author.\<close>

fun verdict_loop :: "string list \<Rightarrow> string option \<Rightarrow> reader list \<Rightarrow> ObligationVerdict list rd" where
  "verdict_loop authors prev [] = return []"
| "verdict_loop authors prev (it # items) = do {
     v \<leftarrow> read_verdict it;
     err \<leftarrow> rd_Err;
     (if err \<noteq> None then return []
      else if (case prev of None \<Rightarrow> False | Some p \<Rightarrow> vd_Reviewer v \<le> p) \<or> vd_Reviewer v \<in> set authors
      then do { f \<leftarrow> rd_Field ''reviewer'' it; rd_Fail f CodeMalformed; return [] }
      else do { vs \<leftarrow> verdict_loop authors (Some (vd_Reviewer v)) items; return (v # vs) })
   }"

definition read_verdicts :: "string list \<Rightarrow> reader \<Rightarrow> ObligationVerdict list rd" where
  "read_verdicts authors f = do {
     items \<leftarrow> rd_Array (int MaxObligationReviewers) True f;
     err \<leftarrow> rd_Err;
     (if err \<noteq> None then return []
      else if items = [] then do { rd_Fail f CodeMalformed; return [] }
      else verdict_loop authors None items)
   }"

definition ReadObligationReview :: "reader \<Rightarrow> ObligationReview rd" where
  "ReadObligationReview r = do {
     rd_Closed [''policy'', ''subject'', ''authors'', ''verdicts''] r;
     p \<leftarrow> rd_at ''policy'' read_review_policy r; sj \<leftarrow> rd_at ''subject'' read_review_subject r;
     au \<leftarrow> rd_at ''authors'' (rd_Strings (int MaxObligationReviewAuthors) False rd_Label) r;
     vs \<leftarrow> rd_at ''verdicts'' (read_verdicts au) r;
     return \<lparr>rw_Reviewers = fst p, rw_MaxStubRisk = snd p, rw_Subject = sj, rw_Authors = au, rw_Verdicts = vs\<rparr>
   }"

definition ReviewRecord_Value :: "ObligationReviewRecord \<Rightarrow> val" where
  "ReviewRecord_Value r = VObject ([(''outcome'', VString (vr_Outcome r)), (''axes'', Strings (vr_Axes r)),
     (''eventSha256'', VString (vr_EventSha256 r)), (''commit'', VString (vr_Commit r)), (''review'', Review_Value (vr_Review r))] @
     optional_member ''testRepository'' (vr_TestRepository r))"

definition readObligationReviewRecord :: "reader \<Rightarrow> ObligationReviewRecord rd" where
  "readObligationReviewRecord r = do {
     rd_Closed (OptionalKeys (r_v r) [''outcome'', ''axes'', ''eventSha256'', ''commit'', ''review''] [''testRepository'']) r;
     oc \<leftarrow> rd_at ''outcome'' (rd_Enum [ObligationReviewCredited, ObligationReviewHeld]) r;
     ax \<leftarrow> rd_at ''axes'' (rd_Strings 3 False (rd_Enum [''reviewers'', ''stubRisk'', ''verdict''])) r;
     es \<leftarrow> rd_at ''eventSha256'' rd_Digest r; co \<leftarrow> rd_at ''commit'' rd_OID r;
     rv \<leftarrow> rd_at ''review'' ReadObligationReview r;
     tr \<leftarrow> rd_optional ''testRepository'' (rd_some rd_Label) None r;
     rd_fail_if (fst (review_Outcome rv) \<noteq> oc \<or> join '','' (snd (review_Outcome rv)) \<noteq> join '','' ax) r CodeMalformed;
     return \<lparr>vr_Outcome = oc, vr_Axes = ax, vr_EventSha256 = es, vr_Commit = co, vr_Review = rv, vr_TestRepository = tr\<rparr>
   }"

subsection \<open>Entries\<close>

definition Entry_Value :: "ObligationEntry \<Rightarrow> val" where
  "Entry_Value e = VObject ([(''id'', VString (en_ID e)), (''title'', VString (en_Title e)), (''core'', VBool (en_Core e)),
     (''state'', VString (en_State e)), (''reason'', StringOrNull (en_Reason e)),
     (''evidence'', case en_Evidence e of None \<Rightarrow> VNull | Some v \<Rightarrow> Evidence_Value v), (''updatedAt'', VString (en_UpdatedAt e)),
     (''updatedBy'', actor_value (en_UpdatedByID e) (en_UpdatedByRole e))] @
     (if en_Alias e \<noteq> [] then [(''alias'', VString (en_Alias e))] else []) @
     (case en_Sources e of None \<Rightarrow> [] | Some x \<Rightarrow> [(''sources'', obligationSourcesValue x)]) @
     (case en_Review e of None \<Rightarrow> [] | Some x \<Rightarrow> [(''review'', ReviewRecord_Value x)]) @
     (case en_Cites e of None \<Rightarrow> [] | Some x \<Rightarrow> [(''cites'', obligationCitesValue x)]) @
     (case en_Scope e of None \<Rightarrow> [] | Some x \<Rightarrow> [(''scope'', Scope_Value x)]) @
     (case en_Candidate e of None \<Rightarrow> [] | Some x \<Rightarrow> [(''candidate'', Candidate_Value x)]) @
     (case en_SatisfiedBy e of None \<Rightarrow> [] | Some x \<Rightarrow> [(''satisfiedBy'', MirrorRef_Value x)]))"

definition EntriesValue :: "ObligationLedger option \<Rightarrow> val" where
  "EntriesValue l = VArray (case l of None \<Rightarrow> [] | Some l \<Rightarrow> map Entry_Value (ol_Entries l))"

definition ReadObligationEntry :: "reader \<Rightarrow> ObligationEntry rd" where
  "ReadObligationEntry r = do {
     rd_Closed (OptionalKeys (r_v r) [''id'', ''title'', ''core'', ''state'', ''reason'', ''evidence'', ''updatedAt'', ''updatedBy'']
       [''alias'', ''sources'', ''review'', ''cites'', ''scope'', ''candidate'', ''satisfiedBy'']) r;
     i \<leftarrow> rd_at ''id'' readObligationID r; ti \<leftarrow> rd_at ''title'' (read_nonblank MaxObligationTitleBytes) r;
     co \<leftarrow> rd_at ''core'' rd_Bool r; st \<leftarrow> rd_at ''state'' (rd_Enum ObligationStates) r; ua \<leftarrow> rd_at ''updatedAt'' rd_Timestamp r;
     al \<leftarrow> rd_optional ''alias'' readObligationAlias [] r;
     so \<leftarrow> rd_optional ''sources'' (rd_some readObligationSources) None r;
     rv \<leftarrow> rd_optional ''review'' (rd_some readObligationReviewRecord) None r;
     ci \<leftarrow> rd_optional ''cites'' (rd_some readObligationCites) None r;
     sc \<leftarrow> rd_optional ''scope'' (rd_some readObligationScope) None r;
     ca \<leftarrow> rd_optional ''candidate'' (rd_some (readObligationCandidate True)) None r;
     sb \<leftarrow> rd_optional ''satisfiedBy'' (rd_some readObligationMirrorRef) None r;
     rs \<leftarrow> rd_at ''reason'' (rd_StringOrNull (read_nonblank MaxObligationReasonBytes)) r;
     ev \<leftarrow> rd_at ''evidence'' (rd_unless_null ReadObligationEvidence) r;
     by \<leftarrow> rd_at ''updatedBy'' readObligationActor r;
     rd_fail_if ((st = ObligationWitnessed) \<noteq> (ev \<noteq> None)) r CodeMalformed;
     return \<lparr>en_ID = i, en_Alias = al, en_Title = ti, en_Core = co, en_State = st, en_Reason = rs, en_Evidence = ev, en_Sources = so,
       en_Review = rv, en_Cites = ci, en_Scope = sc, en_Candidate = ca, en_SatisfiedBy = sb, en_UpdatedAt = ua,
       en_UpdatedByID = fst by, en_UpdatedByRole = snd by\<rparr>
   }"

end
