(* ===== verification/Obligation_Event.thy ===== *)
theory Obligation_Event
  imports Obligation_Codec
begin

text \<open>
  The payloads of the three ledger operations, the retained mutation request and the immutable ledger
  event (\<^verbatim>\<open>ReadObligationSeedPayload\<close>, \<^verbatim>\<open>ReadObligationSetPayload\<close>, \<^verbatim>\<open>ReadObligationWitnessPayload\<close>,
  \<^verbatim>\<open>DecodeObligationRequest\<close>, \<^verbatim>\<open>DecodeObligationEvent\<close> and \<^verbatim>\<open>Encode\<close> of \<^verbatim>\<open>ticket/obligations.go\<close>).
  SHA-256 is the argument \<open>sha256\<close>.
\<close>

subsection \<open>Payloads\<close>

definition SeedItem_Value :: "ObligationSeedItem \<Rightarrow> val" where
  "SeedItem_Value x = VObject ([(''id'', VString (si_ID x)), (''title'', VString (si_Title x)), (''core'', VBool (si_Core x))] @
     (if si_Alias x \<noteq> [] then [(''alias'', VString (si_Alias x))] else []))"

definition SeedPayload_Value :: "ObligationSeedPayload \<Rightarrow> val" where
  "SeedPayload_Value p = VObject [(''prefix'', VString (sd_Prefix p)), (''obligations'', VArray (map SeedItem_Value (sd_Obligations p)))]"

definition read_seed_item :: "string \<Rightarrow> reader \<Rightarrow> ObligationSeedItem rd" where
  "read_seed_item pfx it = do {
     rd_Closed (OptionalKeys (r_v it) [''id'', ''title'', ''core''] [''alias'']) it;
     i \<leftarrow> rd_at ''id'' readObligationID it; ti \<leftarrow> rd_at ''title'' (read_nonblank MaxObligationTitleBytes) it; co \<leftarrow> rd_at ''core'' rd_Bool it;
     al \<leftarrow> rd_optional ''alias'' readObligationAlias [] it;
     rd_fail_at (ObligationIDPrefix i \<noteq> pfx) ''id'' it CodeMalformed;
     return \<lparr>si_ID = i, si_Alias = al, si_Title = ti, si_Core = co\<rparr>
   }"

definition ReadObligationSeedPayload :: "reader \<Rightarrow> ObligationSeedPayload rd" where
  "ReadObligationSeedPayload r = do {
     rd_Closed [''prefix'', ''obligations''] r;
     pfx \<leftarrow> rd_at ''prefix'' readObligationPrefix r;
     xs \<leftarrow> rd_at ''obligations'' (readIDKeyed ObligationsMaxEntries (read_seed_item pfx) si_ID) r;
     return \<lparr>sd_Prefix = pfx, sd_Obligations = xs\<rparr>
   }"

definition Change_Value :: "ObligationChange \<Rightarrow> val" where
  "Change_Value c = VObject ([(''id'', VString (ch_ID c)), (''state'', StringOrNull (ch_State c)),
     (''core'', case ch_Core c of None \<Rightarrow> VNull | Some b \<Rightarrow> VBool b), (''reason'', VString (ch_Reason c))] @
     (case ch_Sources c of None \<Rightarrow> [] | Some x \<Rightarrow> [(''sources'', obligationSourcesValue x)]) @
     (case ch_Cites c of None \<Rightarrow> [] | Some x \<Rightarrow> [(''cites'', obligationCitesValue x)]) @
     (case ch_Scope c of None \<Rightarrow> [] | Some x \<Rightarrow> [(''scope'', ScopeChange_Value x)]) @
     (case ch_Candidate c of None \<Rightarrow> [] | Some x \<Rightarrow> [(''candidate'', Candidate_Value x)]) @
     (case ch_Mirror c of None \<Rightarrow> [] | Some x \<Rightarrow> [(''satisfiedBy'', MirrorChange_Value x)]))"

definition SetPayload_Value :: "ObligationChange list \<Rightarrow> val" where
  "SetPayload_Value cs = VObject [(''changes'', VArray (map Change_Value cs))]"

definition settable_states :: "string list" where
  "settable_states = [ObligationOpen, ObligationDefect, ObligationBlocked, ObligationDeferred, ObligationPartial]"

definition change_empty :: "ObligationChange \<Rightarrow> bool" where
  "change_empty c \<longleftrightarrow> ch_State c = None \<and> ch_Core c = None \<and> ch_Sources c = None \<and> ch_Cites c = None \<and> ch_Scope c = None \<and>
     ch_Candidate c = None \<and> ch_Mirror c = None"

definition read_change :: "reader \<Rightarrow> ObligationChange rd" where
  "read_change it = do {
     rd_Closed (OptionalKeys (r_v it) [''id'', ''state'', ''core'', ''reason''] [''sources'', ''cites'', ''scope'', ''candidate'', ''satisfiedBy'']) it;
     i \<leftarrow> rd_at ''id'' readObligationID it; rs \<leftarrow> rd_at ''reason'' (read_nonblank MaxObligationReasonBytes) it;
     st \<leftarrow> rd_at ''state'' (rd_StringOrNull (rd_Enum settable_states)) it; co \<leftarrow> rd_at ''core'' (rd_unless_null rd_Bool) it;
     so \<leftarrow> rd_optional ''sources'' (rd_some readObligationSources) None it;
     ci \<leftarrow> rd_optional ''cites'' (rd_some readObligationCites) None it;
     sc \<leftarrow> rd_optional ''scope'' (rd_some readObligationScopeChange) None it;
     ca \<leftarrow> rd_optional ''candidate'' (rd_some (readObligationCandidate False)) None it;
     mi \<leftarrow> rd_optional ''satisfiedBy'' (rd_some readObligationMirrorChange) None it;
     let c = \<lparr>ch_ID = i, ch_State = st, ch_Core = co, ch_Reason = rs, ch_Sources = so, ch_Cites = ci, ch_Scope = sc, ch_Candidate = ca,
       ch_Mirror = mi\<rparr>;
     rd_fail_if (change_empty c) it CodeMalformed;
     rd_fail_if (ch_Scope c \<noteq> None \<and> ch_Core c \<noteq> None) it CodeMalformed;
     return c
   }"

definition ReadObligationSetPayload :: "reader \<Rightarrow> ObligationChange list rd" where
  "ReadObligationSetPayload r = do {
     rd_Closed [''changes''] r;
     rd_at ''changes'' (readIDKeyed MaxObligationChanges read_change ch_ID) r
   }"

definition Credit_Value :: "string \<Rightarrow> ObligationCredit \<Rightarrow> val" where
  "Credit_Value source c = VObject ((''id'', VString (cr_ID c)) #
     (if source = ObligationSourceReport then [(''matches'', MatchesValue (case cr_Matches c of None \<Rightarrow> [] | Some ms \<Rightarrow> ms))] else []))"

definition WitnessPayload_Value :: "ObligationWitnessPayload \<Rightarrow> val" where
  "WitnessPayload_Value p = VObject ([(''source'', VString (wt_Source p)), (''commit'', VString (wt_Commit p)),
     (''reportSha256'', StringOrNull (wt_ReportSha256 p)), (''playwrightVersion'', StringOrNull (wt_PlaywrightVersion p)),
     (''credits'', VArray (map (Credit_Value (wt_Source p)) (wt_Credits p))),
     (''declaration'', case wt_Declaration p of None \<Rightarrow> VNull | Some d \<Rightarrow> Declaration_Value d),
     (''attempt'', StringOrNull (wt_Attempt p)), (''generation'', StringOrNull (wt_Generation p))] @
     (case wt_Provenance p of None \<Rightarrow> [] | Some x \<Rightarrow> [(''provenance'', Provenance_Value x)]) @
     optional_member ''testRepository'' (wt_TestRepository p) @
     (case wt_Review p of None \<Rightarrow> [] | Some x \<Rightarrow> [(''review'', Review_Value x)]))"

definition witness_members_ok :: "ObligationWitnessPayload \<Rightarrow> bool" where
  "witness_members_ok p \<longleftrightarrow>
     (wt_Source p = ObligationSourceReport \<longleftrightarrow> wt_ReportSha256 p \<noteq> None) \<and> (wt_Source p = ObligationSourceReport \<longleftrightarrow> wt_PlaywrightVersion p \<noteq> None) \<and>
     (wt_Source p = ObligationSourceDeclared \<longleftrightarrow> wt_Declaration p \<noteq> None) \<and> (wt_Source p = ObligationSourceReviewed \<longleftrightarrow> wt_Review p \<noteq> None)"

definition read_credit :: "string \<Rightarrow> reader \<Rightarrow> ObligationCredit rd" where
  "read_credit source it =
     (if source = ObligationSourceReport then do {
        rd_Closed [''id'', ''matches''] it;
        i \<leftarrow> rd_at ''id'' readObligationID it; ms \<leftarrow> rd_at ''matches'' readObligationMatches it;
        return \<lparr>cr_ID = i, cr_Matches = Some ms\<rparr>
      } else do {
        rd_Closed [''id''] it;
        i \<leftarrow> rd_at ''id'' readObligationID it;
        return \<lparr>cr_ID = i, cr_Matches = None\<rparr>
      })"

definition read_witness_members :: "reader \<Rightarrow> ObligationWitnessPayload rd" where
  "read_witness_members r = do {
     rd_Closed (OptionalKeys (r_v r)
       [''source'', ''commit'', ''reportSha256'', ''playwrightVersion'', ''credits'', ''declaration'', ''attempt'', ''generation'']
       [''provenance'', ''testRepository'', ''review'']) r;
     so \<leftarrow> rd_at ''source'' (rd_Enum [ObligationSourceReport, ObligationSourceDeclared, ObligationSourceReviewed]) r;
     co \<leftarrow> rd_at ''commit'' rd_OID r; rp \<leftarrow> rd_at ''reportSha256'' rd_DigestOrNull r; pw \<leftarrow> rd_at ''playwrightVersion'' rd_LabelOrNull r;
     dc \<leftarrow> rd_at ''declaration'' readObligationDeclaration r;
     att \<leftarrow> rd_at ''attempt'' (rd_StringOrNull rd_Identifier) r; gen \<leftarrow> rd_at ''generation'' rd_SizeOrNull r;
     pv \<leftarrow> rd_optional ''provenance'' (rd_some readObligationProvenance) None r;
     tr \<leftarrow> rd_optional ''testRepository'' (rd_some rd_Label) None r;
     rv \<leftarrow> rd_optional ''review'' (rd_some ReadObligationReview) None r;
     return \<lparr>wt_Source = so, wt_Commit = co, wt_ReportSha256 = rp, wt_PlaywrightVersion = pw, wt_Credits = [], wt_Declaration = dc,
       wt_Attempt = att, wt_Generation = gen, wt_Provenance = pv, wt_TestRepository = tr, wt_Review = rv\<rparr>
   }"

definition ReadObligationWitnessPayload :: "reader \<Rightarrow> ObligationWitnessPayload rd" where
  "ReadObligationWitnessPayload r = do {
     p \<leftarrow> read_witness_members r;
     rd_fail_if (\<not> witness_members_ok p) r CodeMalformed;
     rd_fail_if ((wt_Attempt p = None) \<noteq> (wt_Generation p = None)) r CodeMalformed;
     cs \<leftarrow> rd_at ''credits'' (readIDKeyed ObligationsMaxEntries (read_credit (wt_Source p)) cr_ID) r;
     rd_fail_at (wt_Source p = ObligationSourceReviewed \<and> length cs \<noteq> 1) ''credits'' r CodeMalformed;
     return (p\<lparr>wt_Credits := cs\<rparr>)
   }"

definition obligations_value :: "ObligationsPayload \<Rightarrow> val" where
  "obligations_value p = (case p of SeedPayload s \<Rightarrow> SeedPayload_Value s | SetPayload cs \<Rightarrow> SetPayload_Value cs
     | WitnessPayload w \<Rightarrow> WitnessPayload_Value w)"

definition readObligations :: "string \<Rightarrow> reader \<Rightarrow> ObligationsPayload rd" where
  "readObligations op r =
     (if op = OpObligationsSeed then do { s \<leftarrow> ReadObligationSeedPayload r; return (SeedPayload s) }
      else if op = OpObligationsSet then do { cs \<leftarrow> ReadObligationSetPayload r; return (SetPayload cs) }
      else do { w \<leftarrow> ReadObligationWitnessPayload r; return (WitnessPayload w) })"

text \<open>The command line sorts the array its operation keys by identifier; an element without one sorts first.\<close>

definition sort_key_of :: "val \<Rightarrow> string" where
  "sort_key_of v = (case field_value v ''id'' of Some (VString s) \<Rightarrow> s | _ \<Rightarrow> [])"

definition SortObligationPayload :: "string \<Rightarrow> val \<Rightarrow> val" where
  "SortObligationPayload op v =
     (let key = (if op = OpObligationsSeed then ''obligations'' else if op = OpObligationsSet then ''changes''
        else if op = OpObligationsWitness then ''credits'' else [])
      in case v of
        VObject kvs \<Rightarrow>
          if key = [] then v
          else VObject (map (\<lambda>(k, w). (k, if k = key then (case w of VArray xs \<Rightarrow> VArray (sort_key sort_key_of xs) | _ \<Rightarrow> w) else w)) kvs)
      | _ \<Rightarrow> v)"

subsection \<open>The opening of a document\<close>

definition MutationProfile :: string where "MutationProfile = ''taskman-mutation/0''"

text \<open>The opening checks of a decoder over a document with a profile and a closed key set.\<close>

definition open_document :: "string \<Rightarrow> string \<Rightarrow> string list \<Rightarrow> string \<Rightarrow> val \<Rightarrow> reader res" where
  "open_document loc ploc keys profile v =
     (let r = fst (NewReader v loc)
      in rbind (ProfileVersion ploc v profile) (\<lambda>_.
         rbind (run_reader (rd_Closed keys r)) (\<lambda>_.
         rbind (CheckProfile ploc (fst (run_state (rd_at ''profile'' rd_String r) fresh)) profile) (\<lambda>_. Inr r))))"

subsection \<open>The retained request\<close>

definition read_obligation_request :: "string \<Rightarrow> reader \<Rightarrow> ObligationRequest rd" where
  "read_obligation_request raw r = do {
     rid \<leftarrow> rd_at ''requestId'' rd_Identifier r; q \<leftarrow> rd_at ''queueId'' rd_QueueID r; t \<leftarrow> rd_at ''targetId'' rd_TicketID r;
     er \<leftarrow> rd_at ''expectedRevision'' rd_Count r; op \<leftarrow> rd_at ''operation'' (rd_Enum ObligationOperations) r;
     ia \<leftarrow> rd_at ''issuedAt'' rd_Timestamp r; a \<leftarrow> rd_at ''actor'' readObligationActor r;
     p \<leftarrow> rd_at ''payload'' (readObligations op) r;
     return \<lparr>oq_RequestID = rid, oq_QueueID = q, oq_TicketID = t, oq_ExpectedRevision = er, oq_ActorID = fst a, oq_ActorRole = snd a,
       oq_Operation = op, oq_IssuedAt = ia, oq_Payload = p, oq_Raw = raw\<rparr>
   }"

definition DecodeObligationRequest :: "string \<Rightarrow> ObligationRequest res" where
  "DecodeObligationRequest raw =
     (if length raw > MaxObligationEventBytes then Inl (Errorf CodeLimitExceeded ''/request'')
      else rbind (Parse raw) (\<lambda>v.
        rbind (open_document ''/request'' ''/request/profile''
          [''profile'', ''requestId'', ''actor'', ''queueId'', ''targetId'', ''expectedRevision'', ''operation'', ''payload'', ''issuedAt'']
          MutationProfile v) (\<lambda>r.
        rbind (run_reader (read_obligation_request raw r)) (\<lambda>q.
          if length (oq_RequestID q) > MaxRequestIDBytes then Inl (Errorf CodeLimitExceeded ''/request/requestId'')
          else if TicketID_QueueID (oq_TicketID q) \<noteq> q_Raw (oq_QueueID q) then Inl (Errorf CodeMalformed ''/request/targetId'')
          else Inr q))))"

subsection \<open>Events\<close>

definition event_value :: "ObligationEvent \<Rightarrow> val \<Rightarrow> val" where
  "event_value e q = VObject [(''profile'', VString ObligationEventProfile), (''ticketId'', VString (t_Raw (oe_TicketID e))),
     (''revision'', VString (oe_Revision e)), (''previous'', StringOrNull (oe_Previous e)),
     (''requestSha256'', VString (oe_RequestSha256 e)), (''request'', q)]"

definition event_keys :: "string list" where
  "event_keys = [''profile'', ''ticketId'', ''revision'', ''previous'', ''requestSha256'', ''request'']"

definition read_event_head :: "reader \<Rightarrow> (TicketID \<times> string \<times> string option \<times> string) rd" where
  "read_event_head r = do {
     t \<leftarrow> rd_at ''ticketId'' rd_TicketID r; rev \<leftarrow> rd_at ''revision'' rd_Count r;
     pv \<leftarrow> rd_at ''previous'' rd_DigestOrNull r; sha \<leftarrow> rd_at ''requestSha256'' rd_Digest r;
     return (t, rev, pv, sha)
   }"

definition check_event :: "(string \<Rightarrow> string) \<Rightarrow> ObligationEvent \<Rightarrow> unit res" where
  "check_event sha256 e =
     (if Count_Int (oe_Revision e) < 1 \<or> Count_Int (oe_Revision e) > int ObligationsMaxEvents then Inl (Errorf CodeLimitExceeded ''/revision'')
      else if (oe_Revision e = ''1'') \<noteq> (oe_Previous e = None) then Inl (Errorf CodeMalformed ''/previous'')
      else if sha256 (oe_Request e) \<noteq> oe_RequestSha256 e then Inl (Errorf CodeMalformed ''/requestSha256'')
      else if t_Raw (oq_TicketID (oe_Decoded e)) \<noteq> t_Raw (oe_TicketID e) then Inl (Errorf CodeMalformed ''/request/targetId'')
      else Inr ())"

definition DecodeObligationEvent :: "(string \<Rightarrow> string) \<Rightarrow> string \<Rightarrow> ObligationEvent res" where
  "DecodeObligationEvent sha256 raw =
     (if length raw > MaxObligationEventBytes then Inl (Errorf CodeLimitExceeded ''/'')
      else rbind (Parse raw) (\<lambda>v.
        rbind (open_document ''/'' ''/profile'' event_keys ObligationEventProfile v) (\<lambda>r.
        rbind (run_reader (read_event_head r)) (\<lambda>(t, rev, pv, sha).
          let req = EncodeFile (case field_value v ''request'' of Some w \<Rightarrow> w | None \<Rightarrow> VNull)
          in rbind (DecodeObligationRequest req) (\<lambda>q.
            let e = \<lparr>oe_TicketID = t, oe_Revision = rev, oe_Previous = pv, oe_RequestSha256 = sha, oe_Request = req, oe_Decoded = q\<rparr>
            in rbind (check_event sha256 e) (\<lambda>_. Inr e))))))"

definition Event_Encode :: "(string \<Rightarrow> string) \<Rightarrow> ObligationEvent \<Rightarrow> string res" where
  "Event_Encode sha256 e =
     rbind (Parse (oe_Request e)) (\<lambda>q.
       let raw = EncodeFile (event_value e q)
       in rbind (DecodeObligationEvent sha256 raw) (\<lambda>_. Inr raw))"

text \<open>\<^verbatim>\<open>bytes.Contains\<close>.\<close>

fun Contains :: "string \<Rightarrow> string \<Rightarrow> bool" where
  "Contains [] p \<longleftrightarrow> p = []"
| "Contains (c # s) p \<longleftrightarrow> HasPrefix (c # s) p \<or> Contains s p"

definition ObligationEventOf :: "(string \<Rightarrow> string) \<Rightarrow> string \<Rightarrow> ObligationEvent option" where
  "ObligationEventOf sha256 raw =
     (if \<not> Contains raw ObligationEventProfile then None
      else case DecodeObligationEvent sha256 raw of Inl _ \<Rightarrow> None | Inr e \<Rightarrow> Some e)"

end
