(* ===== verification/Obligation_Ledger.thy ===== *)
theory Obligation_Ledger
  imports Obligation_Event
begin

text \<open>
  The folded ledger and its single transition (\<^verbatim>\<open>ObligationLedger\<close>, \<^verbatim>\<open>ApplyObligationEvent\<close>,
  \<^verbatim>\<open>FoldObligationChain\<close> and the readers of the chain in \<^verbatim>\<open>ticket/obligations.go\<close>, \<^verbatim>\<open>applyScopeChange\<close>,
  \<^verbatim>\<open>applyMirrorChange\<close>, \<^verbatim>\<open>countUnblocks\<close> and \<^verbatim>\<open>applyReviewedWitness\<close> of the files beside it). A nil
  ledger is \<open>None\<close>; a pointer into the entries is the index it points at, so an update through it is a
  list update of the cloned entries.
\<close>

subsection \<open>Lookup\<close>

text \<open>\<^verbatim>\<open>sort.Search(n, f)\<close>: the binary search of Go's \<^verbatim>\<open>sort\<close> package, also on entries that are not in order.\<close>

function search_loop :: "(nat \<Rightarrow> bool) \<Rightarrow> nat \<Rightarrow> nat \<Rightarrow> nat" where
  "search_loop f i j = (if i < j then
     (let h = (i + j) div 2 in if \<not> f h then search_loop f (h + 1) j else search_loop f i h) else i)"
  by pat_completeness auto
termination
  by (relation "measure (\<lambda>(f, i, j). j - i)") auto

declare search_loop.simps [simp del]

definition sort_Search :: "nat \<Rightarrow> (nat \<Rightarrow> bool) \<Rightarrow> nat" where
  "sort_Search n f = search_loop f 0 n"

definition entry_index :: "ObligationEntry list \<Rightarrow> string \<Rightarrow> nat option" where
  "entry_index es i =
     (let k = sort_Search (length es) (\<lambda>k. en_ID (es ! k) \<ge> i)
      in if k < length es \<and> en_ID (es ! k) = i then Some k else None)"

definition ledger_Entry :: "ObligationLedger option \<Rightarrow> string \<Rightarrow> ObligationEntry option" where
  "ledger_Entry l i = (case l of None \<Rightarrow> None | Some l \<Rightarrow> map_option (\<lambda>k. ol_Entries l ! k) (entry_index (ol_Entries l) i))"

subsection \<open>Counts\<close>

definition count_entry :: "ObligationCounts \<Rightarrow> ObligationEntry \<Rightarrow> ObligationCounts" where
  "count_entry c e =
     (if en_State e = ObligationDeferred then c\<lparr>oc_Deferred := oc_Deferred c + 1\<rparr>
      else let c = c\<lparr>oc_Total := oc_Total c + 1\<rparr>;
               c = (if en_Core e then c\<lparr>oc_CoreTotal := oc_CoreTotal c + 1\<rparr> else c)
           in if en_State e = ObligationWitnessed
              then (let c = c\<lparr>oc_Witnessed := oc_Witnessed c + 1\<rparr>
                    in if en_Core e then c\<lparr>oc_CoreWitnessed := oc_CoreWitnessed c + 1\<rparr> else c)
              else c)"

definition zero_Counts :: ObligationCounts where
  "zero_Counts = \<lparr>oc_Witnessed = 0, oc_Total = 0, oc_Deferred = 0, oc_CoreWitnessed = 0, oc_CoreTotal = 0\<rparr>"

definition ledger_Counts :: "ObligationLedger option \<Rightarrow> ObligationCounts" where
  "ledger_Counts l = (case l of None \<Rightarrow> zero_Counts | Some l \<Rightarrow> foldl count_entry zero_Counts (ol_Entries l))"

subsection \<open>Aliases\<close>

definition id_byte :: "char \<Rightarrow> bool" where
  "id_byte c \<longleftrightarrow> is_upper c \<or> is_lower c \<or> is_digit c \<or> c = CHR ''-''"

text \<open>Whether a whole token of identifier bytes is a valid identifier with the prefix.\<close>

function nativeIDIn :: "string \<Rightarrow> string \<Rightarrow> bool" where
  "nativeIDIn s pfx =
     (if s = [] then False
      else if \<not> id_byte (hd s) then nativeIDIn (tl s) pfx
      else if ParseObligationID ''id'' (takeWhile id_byte s) = Inr pfx then True
      else nativeIDIn (dropWhile id_byte s) pfx)"
  by pat_completeness auto
termination
proof (relation "measure (\<lambda>(s, p). length s)")
  fix s pfx :: string
  assume "s \<noteq> []" "\<not> \<not> id_byte (hd s)"
  then show "((dropWhile id_byte s, pfx), s, pfx) \<in> measure (\<lambda>(s, p). length s)"
    by (cases s) (auto simp: less_Suc_eq_le length_dropWhile_le)
qed auto

declare nativeIDIn.simps [simp del]

definition admitAlias :: "ObligationLedger \<Rightarrow> string \<Rightarrow> unit res" where
  "admitAlias l alias =
     (if list_ex (\<lambda>e. en_Alias e = alias) (ol_Entries l) then Inl (Errorf CodeDuplicateID ''/request/payload/obligations'')
      else if nativeIDIn alias (ol_Prefix l) then Inl (Errorf CodeDuplicateID ''/request/payload/obligations'')
      else Inr ())"

definition Aliases :: "ObligationLedger option \<Rightarrow> string \<rightharpoonup> string" where
  "Aliases l = (case l of None \<Rightarrow> Map.empty
     | Some l \<Rightarrow> foldl (\<lambda>m e. if en_Alias e \<noteq> [] then m(en_Alias e \<mapsto> en_ID e) else m) Map.empty (ol_Entries l))"

subsection \<open>Changes of an entry\<close>

definition stamp :: "ObligationRequest \<Rightarrow> ObligationEntry \<Rightarrow> ObligationEntry" where
  "stamp q e = e\<lparr>en_UpdatedAt := oq_IssuedAt q, en_UpdatedByID := oq_ActorID q, en_UpdatedByRole := oq_ActorRole q\<rparr>"

definition applyScopeChange :: "ObligationEntry \<Rightarrow> ObligationScopeChange \<Rightarrow> string \<Rightarrow> ObligationRequest \<Rightarrow> ObligationEntry res" where
  "applyScopeChange e s reason q =
     (if sc_Action s = ObligationScopePropose then
        Inr (e\<lparr>en_Scope := Some \<lparr>sp_Status = ObligationScopeProposed, sp_Core = sc_Core s, sp_Reason = reason, sp_Evidence = sc_Evidence s,
          sp_ProposedByID = oq_ActorID q, sp_ProposedByRole = oq_ActorRole q, sp_ProposedAt = oq_IssuedAt q,
          sp_AcceptedByID = [], sp_AcceptedByRole = [], sp_AcceptedAt = []\<rparr>\<rparr>)
      else case en_Scope e of
        None \<Rightarrow> Inl (Errorf CodeMalformed ''/request/payload/changes'')
      | Some p \<Rightarrow>
          if sp_Status p \<noteq> ObligationScopeProposed \<or> sp_Core p \<noteq> sc_Core s then Inl (Errorf CodeMalformed ''/request/payload/changes'')
          else if sp_ProposedByID p = oq_ActorID q then Inl (Errorf CodeMalformed ''/request/payload/changes'')
          else Inr (e\<lparr>en_Scope := Some (p\<lparr>sp_Status := ObligationScopeAccepted, sp_AcceptedByID := oq_ActorID q,
              sp_AcceptedByRole := oq_ActorRole q, sp_AcceptedAt := oq_IssuedAt q\<rparr>), en_Core := sc_Core s\<rparr>))"

definition applyMirrorChange :: "ObligationEntry \<Rightarrow> ObligationMirrorChange \<Rightarrow> ObligationRequest \<Rightarrow> ObligationEntry res" where
  "applyMirrorChange e c q = (case c of
     None \<Rightarrow> Inr (e\<lparr>en_SatisfiedBy := None\<rparr>)
   | Some owner \<Rightarrow>
       if t_Raw (mr_TicketID owner) = t_Raw (oq_TicketID q) then Inl (Errorf CodeMalformed ''/request/payload/changes'')
       else Inr (e\<lparr>en_SatisfiedBy := Some owner\<rparr>))"

definition apply_fields :: "ObligationRequest \<Rightarrow> ObligationChange \<Rightarrow> ObligationEntry \<Rightarrow> ObligationEntry" where
  "apply_fields q c e =
     (let e = (case ch_State c of None \<Rightarrow> e
          | Some s \<Rightarrow> (if en_State e = ObligationWitnessed \<and> s \<noteq> ObligationWitnessed then e\<lparr>en_Evidence := None\<rparr> else e)\<lparr>en_State := s\<rparr>);
          e = (case ch_Core c of None \<Rightarrow> e | Some b \<Rightarrow> e\<lparr>en_Core := b\<rparr>);
          e = (case ch_Sources c of None \<Rightarrow> e | Some x \<Rightarrow> e\<lparr>en_Sources := Some x\<rparr>);
          e = (case ch_Cites c of None \<Rightarrow> e | Some x \<Rightarrow> e\<lparr>en_Cites := Some x\<rparr>)
      in (case ch_Candidate c of None \<Rightarrow> e | Some x \<Rightarrow> e\<lparr>en_Candidate := Some (x\<lparr>cd_At := oq_IssuedAt q\<rparr>)\<rparr>))"

definition apply_change :: "ObligationRequest \<Rightarrow> ObligationChange \<Rightarrow> ObligationEntry \<Rightarrow> ObligationEntry res" where
  "apply_change q c e =
     rbind (case ch_Scope c of None \<Rightarrow> Inr (apply_fields q c e) | Some s \<Rightarrow> applyScopeChange (apply_fields q c e) s (ch_Reason c) q) (\<lambda>e.
     rbind (case ch_Mirror c of None \<Rightarrow> Inr e | Some m \<Rightarrow> applyMirrorChange e m q) (\<lambda>e.
       Inr (stamp q (e\<lparr>en_Reason := Some (ch_Reason c)\<rparr>))))"

definition applyReviewedWitness :: "ObligationEntry \<Rightarrow> ObligationWitnessPayload \<Rightarrow> string \<Rightarrow> ObligationEntry res" where
  "applyReviewedWitness e w eventSha =
     (if en_State e = ObligationDeferred \<or>
        en_State e = ObligationWitnessed \<and> (case en_Evidence e of None \<Rightarrow> False | Some v \<Rightarrow> ev_Source v \<noteq> ObligationSourceReviewed)
      then Inl (Errorf CodeMalformed ''/request/payload/credits'')
      else if en_State e = ObligationWitnessed \<and> (case en_Review e of None \<Rightarrow> False
          | Some rv \<Rightarrow> sj_BlobSha256 (rw_Subject (vr_Review rv)) = sj_BlobSha256 (rw_Subject (the (wt_Review w))))
      then Inl (Errorf CodeMalformed ''/request/payload/review/subject'')
      else let out = review_Outcome (the (wt_Review w));
               e = e\<lparr>en_Review := Some \<lparr>vr_Outcome = fst out, vr_Axes = snd out, vr_EventSha256 = eventSha, vr_Commit = wt_Commit w,
                 vr_Review = the (wt_Review w), vr_TestRepository = wt_TestRepository w\<rparr>\<rparr>
           in if fst out = ObligationReviewCredited
              then Inr (e\<lparr>en_State := ObligationWitnessed, en_Reason := None,
                en_Evidence := Some \<lparr>ev_Source = ObligationSourceReviewed, ev_EventSha256 = eventSha, ev_Commit = wt_Commit w,
                  ev_ReportSha256 = None, ev_PlaywrightVersion = None, ev_Matches = None, ev_Declaration = None,
                  ev_Provenance = wt_Provenance w, ev_TestRepository = wt_TestRepository w\<rparr>\<rparr>)
              else if en_State e = ObligationWitnessed then Inr (e\<lparr>en_State := ObligationOpen, en_Evidence := None\<rparr>)
              else Inr e)"

definition apply_credit :: "ObligationRequest \<Rightarrow> ObligationWitnessPayload \<Rightarrow> string \<Rightarrow> ObligationCredit \<Rightarrow> ObligationEntry \<Rightarrow> ObligationEntry res" where
  "apply_credit q w eventSha c e =
     (if wt_Source w = ObligationSourceReviewed
      then rbind (applyReviewedWitness e w eventSha) (\<lambda>e. Inr (stamp q (e\<lparr>en_Candidate := None\<rparr>)))
      else if en_State e = ObligationWitnessed \<or> en_State e = ObligationDeferred then Inl (Errorf CodeMalformed ''/request/payload/credits'')
      else Inr (stamp q (e\<lparr>en_State := ObligationWitnessed, en_Reason := None, en_Candidate := None,
        en_Evidence := Some \<lparr>ev_Source = wt_Source w, ev_EventSha256 = eventSha, ev_Commit = wt_Commit w,
          ev_ReportSha256 = wt_ReportSha256 w, ev_PlaywrightVersion = wt_PlaywrightVersion w, ev_Matches = cr_Matches c,
          ev_Declaration = wt_Declaration w, ev_Provenance = wt_Provenance w, ev_TestRepository = wt_TestRepository w\<rparr>\<rparr>)))"

subsection \<open>The transition\<close>

definition seed_entry :: "ObligationRequest \<Rightarrow> ObligationSeedItem \<Rightarrow> ObligationEntry" where
  "seed_entry q x = stamp q \<lparr>en_ID = si_ID x, en_Alias = si_Alias x, en_Title = si_Title x, en_Core = si_Core x, en_State = ObligationOpen,
     en_Reason = None, en_Evidence = None, en_Sources = None, en_Review = None, en_Cites = None, en_Scope = None, en_Candidate = None,
     en_SatisfiedBy = None, en_UpdatedAt = [], en_UpdatedByID = [], en_UpdatedByRole = []\<rparr>"

text \<open>The loop of a seed: it looks up each identifier among the entries appended so far, which are not in order.\<close>

fun seed_loop :: "ObligationRequest \<Rightarrow> ObligationLedger \<Rightarrow> ObligationSeedItem list \<Rightarrow> ObligationLedger res" where
  "seed_loop q l [] = Inr l"
| "seed_loop q l (x # xs) =
     (if ledger_Entry (Some l) (si_ID x) \<noteq> None then Inl (Errorf CodeDuplicateID ''/request/payload/obligations'')
      else rbind (if si_Alias x \<noteq> [] then admitAlias l (si_Alias x) else Inr ()) (\<lambda>_.
        seed_loop q (l\<lparr>ol_Entries := ol_Entries l @ [seed_entry q x]\<rparr>) xs))"

text \<open>
  \<^verbatim>\<open>sort.Slice\<close> by identifier: with distinct identifiers there is one sorted list; equal ones keep their order here.
\<close>

definition apply_seed :: "ObligationRequest \<Rightarrow> ObligationSeedPayload \<Rightarrow> ObligationLedger \<Rightarrow> ObligationLedger res" where
  "apply_seed q s l =
     (if ol_Prefix l \<noteq> [] \<and> ol_Prefix l \<noteq> sd_Prefix s then Inl (Errorf CodeMalformed ''/request/payload/prefix'')
      else rbind (seed_loop q (l\<lparr>ol_Prefix := sd_Prefix s\<rparr>) (sd_Obligations s)) (\<lambda>l.
        if length (ol_Entries l) > ObligationsMaxEntries then Inl (Errorf CodeLimitExceeded ''/request/payload/obligations'')
        else Inr (l\<lparr>ol_Entries := sort_key en_ID (ol_Entries l)\<rparr>)))"

text \<open>A loop that looks an entry up, refuses when there is none, and updates it in place.\<close>

fun update_loop :: "string \<Rightarrow> ('a \<Rightarrow> string) \<Rightarrow> ('a \<Rightarrow> ObligationEntry \<Rightarrow> ObligationEntry res) \<Rightarrow> ObligationEntry list \<Rightarrow> 'a list \<Rightarrow> ObligationEntry list res" where
  "update_loop loc ident f es [] = Inr es"
| "update_loop loc ident f es (x # xs) = (case entry_index es (ident x) of
     None \<Rightarrow> Inl (Errorf CodeMalformed loc)
   | Some k \<Rightarrow> rbind (f x (es ! k)) (\<lambda>e. update_loop loc ident f (es[k := e]) xs))"

definition apply_set :: "ObligationRequest \<Rightarrow> ObligationChange list \<Rightarrow> ObligationLedger \<Rightarrow> ObligationLedger res" where
  "apply_set q cs l = rbind (update_loop ''/request/payload/changes'' ch_ID (apply_change q) (ol_Entries l) cs) (\<lambda>es. Inr (l\<lparr>ol_Entries := es\<rparr>))"

definition apply_witness :: "ObligationRequest \<Rightarrow> ObligationWitnessPayload \<Rightarrow> string \<Rightarrow> ObligationLedger \<Rightarrow> ObligationLedger res" where
  "apply_witness q w eventSha l =
     rbind (update_loop ''/request/payload/credits'' cr_ID (apply_credit q w eventSha) (ol_Entries l) (wt_Credits w)) (\<lambda>es. Inr (l\<lparr>ol_Entries := es\<rparr>))"

definition countUnblocks :: "ObligationLedger option \<Rightarrow> ObligationLedger \<Rightarrow> int" where
  "countUnblocks before after = (case before of None \<Rightarrow> 0
     | Some l \<Rightarrow> int (length (filter (\<lambda>e. en_State e = ObligationBlocked \<and>
         (case ledger_Entry (Some after) (en_ID e) of None \<Rightarrow> False | Some x \<Rightarrow> en_State x \<noteq> ObligationBlocked)) (ol_Entries l))))"

definition ledger_clone :: "ObligationLedger option \<Rightarrow> ObligationLedger" where
  "ledger_clone l = (case l of None \<Rightarrow> \<lparr>ol_Prefix = [], ol_Revision = 0, ol_Head = [], ol_Entries = [], ol_Events = [], ol_Unblocks = 0\<rparr>
     | Some l \<Rightarrow> l)"

definition revisionOf :: "ObligationLedger option \<Rightarrow> int" where
  "revisionOf l = (case l of None \<Rightarrow> 0 | Some l \<Rightarrow> ol_Revision l)"

definition apply_payload :: "ObligationRequest \<Rightarrow> string \<Rightarrow> ObligationLedger \<Rightarrow> ObligationLedger res" where
  "apply_payload q eventSha l = (case oq_Payload q of
     SeedPayload s \<Rightarrow> apply_seed q s l
   | SetPayload cs \<Rightarrow> apply_set q cs l
   | WitnessPayload w \<Rightarrow> apply_witness q w eventSha l)"

definition ApplyObligationEvent :: "ObligationLedger option \<Rightarrow> ObligationEvent \<Rightarrow> string \<Rightarrow> ObligationLedger res" where
  "ApplyObligationEvent l ev eventSha =
     (if Count_Int (oe_Revision ev) \<noteq> revisionOf l + 1 then Inl (Errorf CodeMalformed ''/revision'')
      else if oe_Previous ev \<noteq> map_option ol_Head l then Inl (Errorf CodeMalformed ''/previous'')
      else rbind (apply_payload (oe_Decoded ev) eventSha (ledger_clone l)) (\<lambda>out.
        Inr (out\<lparr>ol_Unblocks := ol_Unblocks out + countUnblocks l out, ol_Revision := Count_Int (oe_Revision ev),
          ol_Head := eventSha, ol_Events := ol_Events out @ [eventSha]\<rparr>)))"

subsection \<open>The chain\<close>

text \<open>A reader of the evidence store: an error, an absent event or its bytes.\<close>

type_synonym event_reader = "string \<Rightarrow> string option res"

text \<open>A \<^verbatim>\<open>ChainError\<close> is its code. The walk back from the head, at most the event bound of events.\<close>

fun walk_chain :: "(string \<Rightarrow> string) \<Rightarrow> TicketID \<Rightarrow> event_reader \<Rightarrow> nat \<Rightarrow> string option \<Rightarrow> string + (ObligationEvent \<times> string) list" where
  "walk_chain sha256 tid rd n None = Inr []"
| "walk_chain sha256 tid rd 0 (Some h) = Inl CodeMalformed"
| "walk_chain sha256 tid rd (Suc n) (Some h) = (case rd h of
     Inl _ \<Rightarrow> Inl CodeMissingEvidence
   | Inr None \<Rightarrow> Inl CodeMissingEvidence
   | Inr (Some raw) \<Rightarrow>
       if sha256 raw \<noteq> h then Inl CodeMalformed
       else (case DecodeObligationEvent sha256 raw of
           Inl _ \<Rightarrow> Inl CodeMalformed
         | Inr ev \<Rightarrow>
             if t_Raw (oe_TicketID ev) \<noteq> t_Raw tid then Inl CodeMalformed
             else map_sum id ((#) (ev, h)) (walk_chain sha256 tid rd n (oe_Previous ev))))"

fun fold_events :: "ObligationLedger option \<Rightarrow> (ObligationEvent \<times> string) list \<Rightarrow> string + ObligationLedger option" where
  "fold_events l [] = Inr l"
| "fold_events l ((ev, h) # evs) = (case ApplyObligationEvent l ev h of Inl _ \<Rightarrow> Inl CodeMalformed | Inr l' \<Rightarrow> fold_events (Some l') evs)"

definition FoldObligationChain :: "(string \<Rightarrow> string) \<Rightarrow> TicketID \<Rightarrow> ObligationsReference \<Rightarrow> event_reader \<Rightarrow> string + ObligationLedger" where
  "FoldObligationChain sha256 tid ref rd =
     rbind (walk_chain sha256 tid rd ObligationsMaxEvents (Some (ob_Head ref))) (\<lambda>chain.
     rbind (fold_events None (rev chain)) (\<lambda>l. case l of
         None \<Rightarrow> Inl CodeMalformed
       | Some out \<Rightarrow>
           if ol_Revision out \<noteq> Count_Int (ob_Revision ref) \<or> ol_Prefix out \<noteq> ob_Prefix ref \<or> ledger_Counts l \<noteq> ob_Counts ref
           then Inl CodeMalformed else Inr out))"

text \<open>
  The ledger before the event that retains a request. A read error of the store is its own error (\<open>Inr\<close> of
  the left sum), any other refusal is a chain error; absent bytes are decoded as empty.
\<close>

fun before_loop ::
  "(string \<Rightarrow> string) \<Rightarrow> event_reader \<Rightarrow> string \<Rightarrow> ObligationLedger option \<Rightarrow> string list \<Rightarrow>
     (string + wire_error) + ObligationLedger option option" where
  "before_loop sha256 rd rid l [] = Inr None"
| "before_loop sha256 rd rid l (d # ds) = (case rd d of
     Inl e \<Rightarrow> Inl (Inr e)
   | Inr raw \<Rightarrow> (case DecodeObligationEvent sha256 (case raw of None \<Rightarrow> [] | Some s \<Rightarrow> s) of
       Inl _ \<Rightarrow> Inl (Inl CodeMalformed)
     | Inr ev \<Rightarrow>
         if oq_RequestID (oe_Decoded ev) = rid then Inr (Some l)
         else (case ApplyObligationEvent l ev d of
             Inl _ \<Rightarrow> Inl (Inl CodeMalformed)
           | Inr l' \<Rightarrow> before_loop sha256 rd rid (Some l') ds)))"

definition ObligationLedgerBeforeRequest ::
  "(string \<Rightarrow> string) \<Rightarrow> TicketID \<Rightarrow> ObligationsReference \<Rightarrow> event_reader \<Rightarrow> string \<Rightarrow>
     (string + wire_error) + ObligationLedger option option" where
  "ObligationLedgerBeforeRequest sha256 tid ref rd rid =
     (case FoldObligationChain sha256 tid ref rd of
        Inl c \<Rightarrow> Inl (Inl c)
      | Inr l \<Rightarrow> before_loop sha256 rd rid None (ol_Events l))"

text \<open>
  The events from a head back to the first, at most the event bound of reads: it stops at an absent, an
  undecodable or an already visited event. The error of the store is returned with what was collected.
\<close>

fun collect_chain :: "(string \<Rightarrow> string) \<Rightarrow> event_reader \<Rightarrow> nat \<Rightarrow> string option \<Rightarrow> (string \<rightharpoonup> string) \<Rightarrow> (string \<rightharpoonup> string) \<times> wire_error option" where
  "collect_chain sha256 rd n None out = (out, None)"
| "collect_chain sha256 rd 0 (Some h) out = (out, None)"
| "collect_chain sha256 rd (Suc n) (Some h) out =
     (if out h \<noteq> None then (out, None)
      else case rd h of
        Inl e \<Rightarrow> (out, Some e)
      | Inr None \<Rightarrow> (out, None)
      | Inr (Some raw) \<Rightarrow> (case DecodeObligationEvent sha256 raw of
            Inl _ \<Rightarrow> (out(h \<mapsto> raw), None)
          | Inr ev \<Rightarrow> collect_chain sha256 rd n (oe_Previous ev) (out(h \<mapsto> raw))))"

definition ObligationChainEvents ::
  "(string \<Rightarrow> string) \<Rightarrow> event_reader \<Rightarrow> ObligationsReference option \<Rightarrow> (string \<rightharpoonup> string) \<times> wire_error option" where
  "ObligationChainEvents sha256 rd ref = (case ref of
     None \<Rightarrow> (Map.empty, None)
   | Some r \<Rightarrow> collect_chain sha256 rd ObligationsMaxEvents (Some (ob_Head r)) Map.empty)"

end
