(* ===== verification/Obligation_Laws.thy ===== *)
theory Obligation_Laws
  imports Obligation_Ledger
begin

text \<open>
  The laws of the ledger transition: the binary search finds an entry exactly when the entries are in
  order and hold it, what an update does to an entry, and the invariant every event keeps.
\<close>

subsection \<open>Lookup\<close>

lemma search_loop_step:
  "search_loop f i j = (if i < j then (if f ((i + j) div 2) then search_loop f i ((i + j) div 2) else search_loop f ((i + j) div 2 + 1) j) else i)"
  by (subst search_loop.simps) (simp add: Let_def)

lemma search_loop_mono:
  assumes "i \<le> j" "j \<le> n" "\<And>a b. a \<le> b \<Longrightarrow> b < n \<Longrightarrow> f a \<Longrightarrow> f b" "\<forall>k<i. \<not> f k" "\<forall>k. j \<le> k \<and> k < n \<longrightarrow> f k"
  shows "(\<forall>k < search_loop f i j. \<not> f k) \<and> (\<forall>k. search_loop f i j \<le> k \<and> k < n \<longrightarrow> f k)"
  using assms(1,2,4,5)
proof (induction "j - i" arbitrary: i j rule: less_induct)
  case less
  show ?case
  proof (cases "i < j")
    case False
    then have "search_loop f i j = i" by (subst search_loop_step) simp
    then show ?thesis using less.prems False by auto
  next
    case True
    define h where "h = (i + j) div 2"
    have h: "i \<le> h" "h < j" using True by (auto simp: h_def)
    show ?thesis
    proof (cases "f h")
      case True
      then have up: "\<forall>k. h \<le> k \<and> k < n \<longrightarrow> f k" using assms(3) by blast
      have e: "search_loop f i j = search_loop f i h"
        using True \<open>i < j\<close> by (subst search_loop_step) (simp add: h_def)
      have "h \<le> n" "h - i < j - i" using h less.prems(2) by auto
      then show ?thesis using less.hyps [of h i] h(1) less.prems(3) up unfolding e by blast
    next
      case False
      then have low: "\<forall>k < h + 1. \<not> f k" using assms(3) [of _ h] h less.prems(2) by (auto simp: less_Suc_eq_le)
      have e: "search_loop f i j = search_loop f (h + 1) j"
        using False \<open>i < j\<close> by (subst search_loop_step) (simp add: h_def)
      have "h + 1 \<le> j" "j - (h + 1) < j - i" using h by auto
      then show ?thesis using less.hyps [of j "h + 1"] less.prems(2,4) low unfolding e by blast
    qed
  qed
qed

lemma entry_index_Some: "entry_index es i = Some k \<Longrightarrow> k < length es \<and> en_ID (es ! k) = i"
  by (auto simp: entry_index_def Let_def split: if_splits)

lemma sort_Search_sorted:
  assumes "sorted (map en_ID es)"
  obtains r where "sort_Search (length es) (\<lambda>k. en_ID (es ! k) \<ge> i) = r"
    "\<And>k. k < r \<Longrightarrow> en_ID (es ! k) < i" "\<And>k. r \<le> k \<Longrightarrow> k < length es \<Longrightarrow> en_ID (es ! k) \<ge> i"
proof -
  let ?f = "\<lambda>k. en_ID (es ! k) \<ge> i"
  have m: "?f b" if "a \<le> b" "b < length es" "?f a" for a b
  proof -
    have "en_ID (es ! a) \<le> en_ID (es ! b)" using sorted_nth_mono [OF assms, of a b] that by simp
    then show ?thesis using that(3) by (rule order_trans [rotated])
  qed
  have s: "(\<forall>k < sort_Search (length es) ?f. \<not> ?f k) \<and> (\<forall>k. sort_Search (length es) ?f \<le> k \<and> k < length es \<longrightarrow> ?f k)"
    unfolding sort_Search_def
  proof (rule search_loop_mono [where n = "length es"])
    show "i \<le> en_ID (es ! b)" if "a \<le> b" "b < length es" "i \<le> en_ID (es ! a)" for a b using m that by blast
    show "\<forall>k. length es \<le> k \<and> k < length es \<longrightarrow> i \<le> en_ID (es ! k)" by (simp add: not_less [symmetric])
  qed simp_all
  show thesis
  proof (rule that [OF refl])
    fix k
    show "en_ID (es ! k) < i" if "k < sort_Search (length es) ?f" using s that by (blast intro: not_le_imp_less)
    show "i \<le> en_ID (es ! k)" if "sort_Search (length es) ?f \<le> k" "k < length es" using s that by blast
  qed
qed

lemma entry_index_sorted:
  assumes "sorted (map en_ID es)"
  shows "entry_index es i = None \<longleftrightarrow> i \<notin> en_ID ` set es"
proof
  assume n: "entry_index es i = None"
  show "i \<notin> en_ID ` set es"
  proof
    assume "i \<in> en_ID ` set es"
    then obtain k where k: "k < length es" "en_ID (es ! k) = i" by (auto simp: in_set_conv_nth)
    obtain r where r: "sort_Search (length es) (\<lambda>k. en_ID (es ! k) \<ge> i) = r"
      "\<And>k. k < r \<Longrightarrow> en_ID (es ! k) < i" "\<And>k. r \<le> k \<Longrightarrow> k < length es \<Longrightarrow> en_ID (es ! k) \<ge> i"
      by (rule sort_Search_sorted [OF assms, of i]) blast
    have "\<not> k < r" using r(2) [of k] k(2) by auto
    then have "r \<le> k" by simp
    then have "r < length es" "en_ID (es ! r) \<ge> i" using r(3) [of r] k(1) by simp_all
    moreover have "en_ID (es ! r) \<le> i" using sorted_nth_mono [OF assms, of r k] \<open>r \<le> k\<close> k by simp
    ultimately show False using n r(1) by (simp add: entry_index_def)
  qed
next
  assume "i \<notin> en_ID ` set es"
  then show "entry_index es i = None" using entry_index_Some [of es i] by (cases "entry_index es i") auto
qed

lemma entry_index_distinct:
  assumes "sorted (map en_ID es)" "distinct (map en_ID es)" "k < length es"
  shows "entry_index es (en_ID (es ! k)) = Some k"
proof -
  obtain m where m: "entry_index es (en_ID (es ! k)) = Some m"
    using entry_index_sorted [OF assms(1), of "en_ID (es ! k)"] assms(3) by (cases "entry_index es (en_ID (es ! k))") auto
  then have "m < length es" "map en_ID es ! m = map en_ID es ! k" using entry_index_Some [OF m] assms(3) by auto
  then have "m = k" using nth_eq_iff_index_eq [OF assms(2), of m k] assms(3) by simp
  then show ?thesis using m by simp
qed

subsection \<open>The order of identifiers can hide a duplicate\<close>

lemma seed_ids:
  "seed_loop q l xs = Inr l' \<Longrightarrow> map en_ID (ol_Entries l') = map en_ID (ol_Entries l) @ map si_ID xs"
  by (induction q l xs rule: seed_loop.induct) (auto simp: seed_entry_def stamp_def split: if_splits)

lemma seed_entries:
  "seed_loop q l xs = Inr l' \<Longrightarrow> l' = l\<lparr>ol_Entries := ol_Entries l @ map (seed_entry q) xs\<rparr>"
  by (induction q l xs rule: seed_loop.induct) (auto split: if_splits)

subsection \<open>Updates\<close>

lemma update_loop_map:
  assumes "update_loop loc ident f es xs = Inr es'" "\<And>x e e'. f x e = Inr e' \<Longrightarrow> g e' = g e"
  shows "map g es' = map g es"
  using assms(1)
proof (induction xs arbitrary: es)
  case (Cons x xs)
  then obtain k e where k: "entry_index es (ident x) = Some k" "f x (es ! k) = Inr e" "update_loop loc ident f (es[k := e]) xs = Inr es'"
    by (auto split: option.splits)
  have "map g (es[k := e]) = map g es"
    using entry_index_Some [OF k(1)] assms(2) [OF k(2)] by (simp add: map_update list_update_same_conv)
  then show ?case using Cons.IH [OF k(3)] by simp
qed simp

lemma update_loop_all:
  assumes "update_loop loc ident f es xs = Inr es'" "list_all P es"
    and "\<And>x e e'. x \<in> set xs \<Longrightarrow> P e \<Longrightarrow> f x e = Inr e' \<Longrightarrow> P e'"
  shows "list_all P es'"
  using assms
proof (induction xs arbitrary: es)
  case (Cons x xs)
  then obtain k e where k: "entry_index es (ident x) = Some k" "f x (es ! k) = Inr e" "update_loop loc ident f (es[k := e]) xs = Inr es'"
    by (auto split: option.splits)
  have "P (es ! k)" using Cons.prems(2) entry_index_Some [OF k(1)] by (simp add: list_all_iff)
  then have "P e" using Cons.prems(3) [OF _ _ k(2)] by simp
  then have "list_all P (es[k := e])" using Cons.prems(2) by (auto simp: list_all_iff dest!: set_update_subset_insert [THEN subsetD])
  then show ?case using Cons.IH [OF k(3)] Cons.prems(3) by auto
qed simp

subsection \<open>Counts\<close>

text \<open>The reference counts as numbers of entries.\<close>

definition counts_of :: "ObligationEntry list \<Rightarrow> ObligationCounts" where
  "counts_of es = (let n = \<lambda>P. int (length (filter P es)) in
     \<lparr>oc_Witnessed = n (\<lambda>e. en_State e = ObligationWitnessed), oc_Total = n (\<lambda>e. en_State e \<noteq> ObligationDeferred),
      oc_Deferred = n (\<lambda>e. en_State e = ObligationDeferred),
      oc_CoreWitnessed = n (\<lambda>e. en_Core e \<and> en_State e = ObligationWitnessed),
      oc_CoreTotal = n (\<lambda>e. en_Core e \<and> en_State e \<noteq> ObligationDeferred)\<rparr>)"

lemma states_distinct [simp]:
  "ObligationWitnessed \<noteq> ObligationDeferred" "ObligationDeferred \<noteq> ObligationWitnessed"
  "ObligationWitnessed \<noteq> ObligationOpen" "ObligationOpen \<noteq> ObligationWitnessed"
  "ObligationWitnessed \<notin> set settable_states" "ObligationWitnessed \<in> set ObligationStates" "ObligationOpen \<in> set ObligationStates"
  by (simp_all add: obligation_state_defs settable_states_def ObligationStates_def)

lemma foldl_counts:
  "foldl count_entry c es = \<lparr>oc_Witnessed = oc_Witnessed c + oc_Witnessed (counts_of es), oc_Total = oc_Total c + oc_Total (counts_of es),
     oc_Deferred = oc_Deferred c + oc_Deferred (counts_of es), oc_CoreWitnessed = oc_CoreWitnessed c + oc_CoreWitnessed (counts_of es),
     oc_CoreTotal = oc_CoreTotal c + oc_CoreTotal (counts_of es)\<rparr>"
  by (induction es arbitrary: c) (simp_all add: counts_of_def count_entry_def Let_def)

lemma ledger_Counts_eq: "ledger_Counts (Some l) = counts_of (ol_Entries l)"
  by (simp add: ledger_Counts_def foldl_counts zero_Counts_def)

lemma filter_le: "(\<And>x. P x \<Longrightarrow> Q x) \<Longrightarrow> length (filter P xs) \<le> length (filter Q xs)"
  by (induction xs) auto

lemma counts_of_valid: "length es \<le> ObligationsMaxEntries \<Longrightarrow> counts_valid (counts_of es)"
proof -
  assume len: "length es \<le> ObligationsMaxEntries"
  have "length (filter (\<lambda>e. en_State e \<noteq> ObligationDeferred) es) + length (filter (\<lambda>e. en_State e = ObligationDeferred) es) = length es"
    using sum_length_filter_compl [of "\<lambda>e. en_State e \<noteq> ObligationDeferred" es] by simp
  then show ?thesis using len by (auto simp: counts_valid_def counts_of_def Let_def intro!: filter_le)
qed

subsection \<open>The invariant\<close>

definition scope_ok :: "ObligationScope \<Rightarrow> bool" where
  "scope_ok s \<longleftrightarrow> (sp_Status s = ObligationScopeProposed \<or> sp_Status s = ObligationScopeAccepted \<and> sp_AcceptedByID s \<noteq> sp_ProposedByID s)"

definition entry_ok :: "string \<Rightarrow> ObligationEntry \<Rightarrow> bool" where
  "entry_ok pfx e \<longleftrightarrow> ParseObligationID ''id'' (en_ID e) = Inr pfx \<and> en_State e \<in> set ObligationStates \<and>
     (en_State e = ObligationWitnessed \<longleftrightarrow> en_Evidence e \<noteq> None) \<and> (\<forall>s. en_Scope e = Some s \<longrightarrow> scope_ok s)"

definition used_aliases :: "ObligationEntry list \<Rightarrow> string list" where
  "used_aliases es = filter (\<lambda>a. a \<noteq> []) (map en_Alias es)"

definition entries_ok :: "string \<Rightarrow> ObligationEntry list \<Rightarrow> bool" where
  "entries_ok pfx es \<longleftrightarrow> sorted (map en_ID es) \<and> es \<noteq> [] \<and> length es \<le> ObligationsMaxEntries \<and> list_all (entry_ok pfx) es \<and>
     distinct (used_aliases es)"

definition ledger_ok :: "ObligationLedger \<Rightarrow> bool" where
  "ledger_ok l \<longleftrightarrow> ol_Prefix l \<noteq> [] \<and> entries_ok (ol_Prefix l) (ol_Entries l) \<and> ol_Revision l = int (length (ol_Events l)) \<and>
     ol_Events l \<noteq> [] \<and> ol_Head l = last (ol_Events l)"

text \<open>What the decoder of an event guarantees of a payload.\<close>

definition seed_ok :: "ObligationSeedPayload \<Rightarrow> bool" where
  "seed_ok s \<longleftrightarrow> sd_Prefix s \<noteq> [] \<and> sd_Obligations s \<noteq> [] \<and> sorted_wrt (<) (map si_ID (sd_Obligations s)) \<and>
     list_all (\<lambda>x. ParseObligationID ''id'' (si_ID x) = Inr (sd_Prefix s)) (sd_Obligations s)"

definition change_ok :: "ObligationChange \<Rightarrow> bool" where
  "change_ok c \<longleftrightarrow> (\<forall>s. ch_State c = Some s \<longrightarrow> s \<in> set settable_states) \<and> (ch_Scope c = None \<or> ch_Core c = None)"

definition set_ok :: "ObligationChange list \<Rightarrow> bool" where
  "set_ok cs \<longleftrightarrow> cs \<noteq> [] \<and> sorted_wrt (<) (map ch_ID cs) \<and> list_all change_ok cs"

definition review_ok :: "ObligationReview \<Rightarrow> bool" where
  "review_ok r \<longleftrightarrow> 1 \<le> rw_Reviewers r \<and> sorted_wrt (<) (map vd_Reviewer (rw_Verdicts r)) \<and>
     list_all (\<lambda>v. vd_Reviewer v \<notin> set (rw_Authors r)) (rw_Verdicts r)"

definition witness_ok :: "ObligationWitnessPayload \<Rightarrow> bool" where
  "witness_ok w \<longleftrightarrow> witness_members_ok w \<and> (wt_Attempt w = None \<longleftrightarrow> wt_Generation w = None) \<and> wt_Credits w \<noteq> [] \<and>
     sorted_wrt (<) (map cr_ID (wt_Credits w)) \<and> (wt_Source w = ObligationSourceReviewed \<longrightarrow> length (wt_Credits w) = 1) \<and>
     (\<forall>r. wt_Review w = Some r \<longrightarrow> review_ok r)"

definition payload_ok :: "ObligationsPayload \<Rightarrow> bool" where
  "payload_ok p \<longleftrightarrow> (case p of SeedPayload s \<Rightarrow> seed_ok s | SetPayload cs \<Rightarrow> set_ok cs | WitnessPayload w \<Rightarrow> witness_ok w)"

subsection \<open>Seeds keep it\<close>

lemma seed_aliases:
  assumes "seed_loop q l xs = Inr l'" "distinct (used_aliases (ol_Entries l))"
  shows "distinct (used_aliases (ol_Entries l'))"
  using assms
proof (induction q l xs rule: seed_loop.induct)
  case (2 q l x xs)
  have d: "distinct (used_aliases (ol_Entries l @ [seed_entry q x]))"
    using "2.prems" by (auto simp: used_aliases_def seed_entry_def stamp_def admitAlias_def list_ex_iff split: if_splits)
  then show ?case using "2.IH" "2.prems"(1) by (auto split: if_splits)
qed simp

lemma seed_entry_ok: "ParseObligationID ''id'' (si_ID x) = Inr pfx \<Longrightarrow> entry_ok pfx (seed_entry q x)"
  by (simp add: entry_ok_def seed_entry_def stamp_def ObligationStates_def)

lemma used_aliases_mset: "mset es = mset es' \<Longrightarrow> distinct (used_aliases es) \<longleftrightarrow> distinct (used_aliases es')"
  unfolding used_aliases_def by (metis mset_eq_imp_distinct_iff mset_filter mset_map)

lemma apply_seed_ok:
  assumes "apply_seed q s l = Inr l'" "seed_ok s" "ol_Entries l = [] \<and> ol_Prefix l = [] \<or> entries_ok (ol_Prefix l) (ol_Entries l) \<and> ol_Prefix l \<noteq> []"
  shows "entries_ok (ol_Prefix l') (ol_Entries l') \<and> ol_Prefix l' = sd_Prefix s \<and> ol_Events l' = ol_Events l"
proof -
  obtain m where m: "seed_loop q (l\<lparr>ol_Prefix := sd_Prefix s\<rparr>) (sd_Obligations s) = Inr m" "length (ol_Entries m) \<le> ObligationsMaxEntries"
      "l' = m\<lparr>ol_Entries := sort_key en_ID (ol_Entries m)\<rparr>" "ol_Prefix l = [] \<or> ol_Prefix l = sd_Prefix s"
    using assms(1) by (auto simp: apply_seed_def split: if_splits)
  have e: "ol_Entries m = ol_Entries l @ map (seed_entry q) (sd_Obligations s)" "ol_Prefix m = sd_Prefix s" "ol_Events m = ol_Events l"
    using seed_entries [OF m(1)] by simp_all
  have "list_all (entry_ok (sd_Prefix s)) (ol_Entries m)"
    using assms(2,3) m(4) unfolding e by (auto simp: seed_ok_def entries_ok_def list_all_iff intro!: seed_entry_ok)
  moreover have "distinct (used_aliases (ol_Entries m))"
    using seed_aliases [OF m(1)] assms(3) by (auto simp: entries_ok_def used_aliases_def)
  moreover have "ol_Entries m \<noteq> []" using assms(2) by (simp add: e seed_ok_def)
  moreover have "sort_key en_ID (ol_Entries m) \<noteq> []" using \<open>ol_Entries m \<noteq> []\<close> by (metis length_0_conv length_sort)
  ultimately show ?thesis using m(2,3) e used_aliases_mset [of "sort_key en_ID (ol_Entries m)" "ol_Entries m"]
    by (simp add: entries_ok_def list_all_iff)
qed

subsection \<open>Changes and witnesses keep it\<close>

lemma scope_change_keeps:
  "applyScopeChange e s r q = Inr e' \<Longrightarrow> en_ID e' = en_ID e \<and> en_Alias e' = en_Alias e \<and> en_Title e' = en_Title e \<and>
     en_State e' = en_State e \<and> en_Evidence e' = en_Evidence e \<and> en_SatisfiedBy e' = en_SatisfiedBy e"
  by (auto simp: applyScopeChange_def split: if_splits option.splits)

lemma scope_change_ok:
  "applyScopeChange e s r q = Inr e' \<Longrightarrow> (\<forall>s. en_Scope e' = Some s \<longrightarrow> scope_ok s)"
  by (auto simp: applyScopeChange_def scope_ok_def split: if_splits option.splits)

lemma scope_change_core:
  "applyScopeChange e s r q = Inr e' \<Longrightarrow> en_Core e' = (if sc_Action s = ObligationScopePropose then en_Core e else sc_Core s)"
  by (auto simp: applyScopeChange_def split: if_splits option.splits)

lemma mirror_change_keeps:
  "applyMirrorChange e c q = Inr e' \<Longrightarrow> \<exists>m. e' = e\<lparr>en_SatisfiedBy := m\<rparr> \<and>
     (\<forall>r. m = Some r \<longrightarrow> t_Raw (mr_TicketID r) \<noteq> t_Raw (oq_TicketID q))"
  by (auto simp: applyMirrorChange_def split: if_splits option.splits)

lemma apply_fields_sel [simp]:
  "en_ID (apply_fields q c e) = en_ID e" "en_Alias (apply_fields q c e) = en_Alias e" "en_Title (apply_fields q c e) = en_Title e"
  "en_Scope (apply_fields q c e) = en_Scope e" "en_SatisfiedBy (apply_fields q c e) = en_SatisfiedBy e"
  "en_Core (apply_fields q c e) = (case ch_Core c of None \<Rightarrow> en_Core e | Some b \<Rightarrow> b)"
  "en_State (apply_fields q c e) = (case ch_State c of None \<Rightarrow> en_State e | Some s \<Rightarrow> s)"
  "en_Evidence (apply_fields q c e) = (case ch_State c of None \<Rightarrow> en_Evidence e
     | Some s \<Rightarrow> if en_State e = ObligationWitnessed \<and> s \<noteq> ObligationWitnessed then None else en_Evidence e)"
  by (cases "ch_State c"; cases "ch_Core c"; cases "ch_Sources c"; cases "ch_Cites c"; cases "ch_Candidate c"; simp add: apply_fields_def)+

lemma stamp_sel [simp]:
  "en_ID (stamp q e) = en_ID e" "en_Alias (stamp q e) = en_Alias e" "en_Title (stamp q e) = en_Title e" "en_State (stamp q e) = en_State e"
  "en_Evidence (stamp q e) = en_Evidence e" "en_Scope (stamp q e) = en_Scope e" "en_Core (stamp q e) = en_Core e"
  "en_SatisfiedBy (stamp q e) = en_SatisfiedBy e" "en_Candidate (stamp q e) = en_Candidate e" "en_Review (stamp q e) = en_Review e"
  "en_Reason (stamp q e) = en_Reason e"
  by (simp_all add: stamp_def)

text \<open>A change fixes identity, alias and title; the scope decision and the mirror are the only parts that can refuse it.\<close>

lemma apply_changeE:
  assumes "apply_change q c e = Inr e'"
  obtains x y m where "ch_Scope c = None \<and> x = apply_fields q c e \<or> (\<exists>s. ch_Scope c = Some s \<and> applyScopeChange (apply_fields q c e) s (ch_Reason c) q = Inr x)"
    "y = x\<lparr>en_SatisfiedBy := m\<rparr>" "e' = stamp q (y\<lparr>en_Reason := Some (ch_Reason c)\<rparr>)"
    "ch_Mirror c = None \<Longrightarrow> m = en_SatisfiedBy x" "\<And>r. ch_Mirror c \<noteq> None \<Longrightarrow> m = Some r \<Longrightarrow> t_Raw (mr_TicketID r) \<noteq> t_Raw (oq_TicketID q)"
proof -
  obtain x y where xy: "(case ch_Scope c of None \<Rightarrow> Inr (apply_fields q c e)
      | Some s \<Rightarrow> applyScopeChange (apply_fields q c e) s (ch_Reason c) q) = Inr x"
      "(case ch_Mirror c of None \<Rightarrow> Inr x | Some m \<Rightarrow> applyMirrorChange x m q) = Inr y"
      "e' = stamp q (y\<lparr>en_Reason := Some (ch_Reason c)\<rparr>)"
    using assms by (auto simp: apply_change_def)
  obtain m where m: "y = x\<lparr>en_SatisfiedBy := m\<rparr>" "ch_Mirror c = None \<Longrightarrow> m = en_SatisfiedBy x"
      "\<And>r. ch_Mirror c \<noteq> None \<Longrightarrow> m = Some r \<Longrightarrow> t_Raw (mr_TicketID r) \<noteq> t_Raw (oq_TicketID q)"
  proof (cases "ch_Mirror c")
    case None
    then show ?thesis using that [of "en_SatisfiedBy x"] xy(2) by simp
  next
    case (Some mc)
    then show ?thesis using mirror_change_keeps [of x mc q y] xy(2) that by auto
  qed
  have x: "ch_Scope c = None \<and> x = apply_fields q c e \<or> (\<exists>s. ch_Scope c = Some s \<and> applyScopeChange (apply_fields q c e) s (ch_Reason c) q = Inr x)"
    using xy(1) by (cases "ch_Scope c") simp_all
  show thesis by (rule that [OF x m(1) xy(3) m(2,3)])
qed

lemma apply_change_keeps:
  assumes "apply_change q c e = Inr e'"
  shows "en_ID e' = en_ID e" "en_Alias e' = en_Alias e" "en_Title e' = en_Title e"
    "en_State e' = (case ch_State c of None \<Rightarrow> en_State e | Some s \<Rightarrow> s)"
    "en_Evidence e' = (case ch_State c of None \<Rightarrow> en_Evidence e
       | Some s \<Rightarrow> if en_State e = ObligationWitnessed \<and> s \<noteq> ObligationWitnessed then None else en_Evidence e)"
    "en_Core e' = (case ch_Scope c of Some s \<Rightarrow> if sc_Action s = ObligationScopePropose then en_Core (apply_fields q c e) else sc_Core s
       | None \<Rightarrow> en_Core (apply_fields q c e))"
proof -
  obtain x y m where x: "ch_Scope c = None \<and> x = apply_fields q c e \<or> (\<exists>s. ch_Scope c = Some s \<and> applyScopeChange (apply_fields q c e) s (ch_Reason c) q = Inr x)"
    and y: "y = x\<lparr>en_SatisfiedBy := m\<rparr>" and e': "e' = stamp q (y\<lparr>en_Reason := Some (ch_Reason c)\<rparr>)"
    using assms by (rule apply_changeE)
  let ?f = "apply_fields q c e"
  have "en_ID x = en_ID ?f \<and> en_Alias x = en_Alias ?f \<and> en_Title x = en_Title ?f \<and> en_State x = en_State ?f \<and> en_Evidence x = en_Evidence ?f"
    using x scope_change_keeps by blast
  moreover have "en_ID e' = en_ID x" "en_Alias e' = en_Alias x" "en_Title e' = en_Title x" "en_State e' = en_State x" "en_Evidence e' = en_Evidence x"
      "en_Core e' = en_Core x" "en_Scope e' = en_Scope x"
    by (simp_all add: e' y)
  ultimately show "en_ID e' = en_ID e" "en_Alias e' = en_Alias e" "en_Title e' = en_Title e"
    "en_State e' = (case ch_State c of None \<Rightarrow> en_State e | Some s \<Rightarrow> s)"
    "en_Evidence e' = (case ch_State c of None \<Rightarrow> en_Evidence e
       | Some s \<Rightarrow> if en_State e = ObligationWitnessed \<and> s \<noteq> ObligationWitnessed then None else en_Evidence e)"
    by (simp_all only: apply_fields_sel)
  show "en_Core e' = (case ch_Scope c of Some s \<Rightarrow> if sc_Action s = ObligationScopePropose then en_Core ?f else sc_Core s | None \<Rightarrow> en_Core ?f)"
  proof (cases "ch_Scope c")
    case None
    then show ?thesis using x \<open>en_Core e' = en_Core x\<close> by (simp del: apply_fields_sel)
  next
    case (Some s)
    then have "applyScopeChange ?f s (ch_Reason c) q = Inr x" using x by simp
    then show ?thesis using Some \<open>en_Core e' = en_Core x\<close> scope_change_core by simp
  qed
qed

lemma apply_change_scope:
  assumes "apply_change q c e = Inr e'" "\<And>s. en_Scope e = Some s \<Longrightarrow> scope_ok s" "en_Scope e' = Some s"
  shows "scope_ok s"
proof -
  obtain x y m where x: "ch_Scope c = None \<and> x = apply_fields q c e \<or> (\<exists>s. ch_Scope c = Some s \<and> applyScopeChange (apply_fields q c e) s (ch_Reason c) q = Inr x)"
    and y: "y = x\<lparr>en_SatisfiedBy := m\<rparr>" and e': "e' = stamp q (y\<lparr>en_Reason := Some (ch_Reason c)\<rparr>)"
    using assms(1) by (rule apply_changeE)
  have s: "en_Scope x = Some s" using assms(3) by (simp add: e' y)
  from x show ?thesis
  proof
    assume "ch_Scope c = None \<and> x = apply_fields q c e"
    then have "en_Scope e = Some s" using s by simp
    then show ?thesis by (rule assms(2))
  next
    assume "\<exists>s. ch_Scope c = Some s \<and> applyScopeChange (apply_fields q c e) s (ch_Reason c) q = Inr x"
    then show ?thesis using s scope_change_ok by blast
  qed
qed

lemma settable_in: "s \<in> set settable_states \<Longrightarrow> s \<in> set ObligationStates \<and> s \<noteq> ObligationWitnessed"
  by (auto simp: settable_states_def ObligationStates_def obligation_state_defs)

lemma apply_change_ok:
  assumes "apply_change q c e = Inr e'" "entry_ok pfx e" "change_ok c"
  shows "entry_ok pfx e'"
proof (cases "ch_State c")
  case None
  then show ?thesis using assms(2) apply_change_keeps [OF assms(1)] apply_change_scope [OF assms(1)] by (auto simp: entry_ok_def)
next
  case (Some s)
  then have "s \<in> set ObligationStates" "s \<noteq> ObligationWitnessed" using assms(3) settable_in by (auto simp: change_ok_def)
  then show ?thesis using Some assms(2) apply_change_keeps [OF assms(1)] apply_change_scope [OF assms(1)] by (auto simp: entry_ok_def)
qed

lemma reviewed_keeps:
  assumes "applyReviewedWitness e w h = Inr e'"
  shows "en_ID e' = en_ID e" "en_Alias e' = en_Alias e" "en_Title e' = en_Title e" "en_Core e' = en_Core e" "en_Scope e' = en_Scope e"
    "en_State e' = (if fst (review_Outcome (the (wt_Review w))) = ObligationReviewCredited then ObligationWitnessed
       else if en_State e = ObligationWitnessed then ObligationOpen else en_State e)"
    "en_Evidence e' = (if fst (review_Outcome (the (wt_Review w))) = ObligationReviewCredited
       then Some \<lparr>ev_Source = ObligationSourceReviewed, ev_EventSha256 = h, ev_Commit = wt_Commit w, ev_ReportSha256 = None,
         ev_PlaywrightVersion = None, ev_Matches = None, ev_Declaration = None, ev_Provenance = wt_Provenance w, ev_TestRepository = wt_TestRepository w\<rparr>
       else if en_State e = ObligationWitnessed then None else en_Evidence e)"
  using assms by (auto simp: applyReviewedWitness_def Let_def split: if_splits)

lemma apply_credit_keeps:
  assumes "apply_credit q w h c e = Inr e'"
  shows "en_ID e' = en_ID e" "en_Alias e' = en_Alias e" "en_Title e' = en_Title e" "en_Core e' = en_Core e" "en_Scope e' = en_Scope e"
    "en_Candidate e' = None"
  using assms by (auto simp: apply_credit_def reviewed_keeps split: if_splits)

lemma apply_credit_ok:
  assumes "apply_credit q w h c e = Inr e'" "entry_ok pfx e"
  shows "entry_ok pfx e'"
proof -
  have "en_State e' \<in> set ObligationStates \<and> (en_State e' = ObligationWitnessed \<longleftrightarrow> en_Evidence e' \<noteq> None)"
    using assms by (auto simp: apply_credit_def entry_ok_def reviewed_keeps split: if_splits)
  then show ?thesis using assms apply_credit_keeps [OF assms(1)] by (simp add: entry_ok_def)
qed

lemma entries_ok_update:
  assumes "update_loop loc ident f es xs = Inr es'" "entries_ok pfx es"
    and "\<And>x e e'. f x e = Inr e' \<Longrightarrow> en_ID e' = en_ID e \<and> en_Alias e' = en_Alias e"
    and "\<And>x e e'. x \<in> set xs \<Longrightarrow> entry_ok pfx e \<Longrightarrow> f x e = Inr e' \<Longrightarrow> entry_ok pfx e'"
  shows "entries_ok pfx es'"
proof -
  have "map en_ID es' = map en_ID es" "map en_Alias es' = map en_Alias es"
    using update_loop_map [OF assms(1)] assms(3) by blast+
  moreover from this have "length es' = length es" by (metis length_map)
  moreover have "list_all (entry_ok pfx) es'"
    using update_loop_all [OF assms(1), of "entry_ok pfx"] assms(2,4) by (simp add: entries_ok_def)
  ultimately show ?thesis using assms(2) by (auto simp: entries_ok_def used_aliases_def)
qed

lemma apply_set_ok:
  assumes "apply_set q cs l = Inr l'" "set_ok cs" "entries_ok pfx (ol_Entries l)"
  shows "entries_ok pfx (ol_Entries l')" "ol_Prefix l' = ol_Prefix l" "ol_Events l' = ol_Events l"
proof -
  obtain es where es: "update_loop ''/request/payload/changes'' ch_ID (apply_change q) (ol_Entries l) cs = Inr es" "l' = l\<lparr>ol_Entries := es\<rparr>"
    using assms(1) by (auto simp: apply_set_def)
  have "entries_ok pfx es"
    by (rule entries_ok_update [OF es(1) assms(3)])
      (use assms(2) apply_change_keeps apply_change_ok in \<open>auto simp: set_ok_def list_all_iff\<close>)
  then show "entries_ok pfx (ol_Entries l')" "ol_Prefix l' = ol_Prefix l" "ol_Events l' = ol_Events l" using es(2) by simp_all
qed

lemma apply_witness_ok:
  assumes "apply_witness q w h l = Inr l'" "entries_ok pfx (ol_Entries l)"
  shows "entries_ok pfx (ol_Entries l')" "ol_Prefix l' = ol_Prefix l" "ol_Events l' = ol_Events l"
proof -
  obtain es where es: "update_loop ''/request/payload/credits'' cr_ID (apply_credit q w h) (ol_Entries l) (wt_Credits w) = Inr es" "l' = l\<lparr>ol_Entries := es\<rparr>"
    using assms(1) by (auto simp: apply_witness_def)
  have "entries_ok pfx es"
    by (rule entries_ok_update [OF es(1) assms(2)]) (use apply_credit_keeps apply_credit_ok in auto)
  then show "entries_ok pfx (ol_Entries l')" "ol_Prefix l' = ol_Prefix l" "ol_Events l' = ol_Events l" using es(2) by simp_all
qed

lemma empty_update: "update_loop loc ident f [] xs = Inr es \<Longrightarrow> xs = []"
  by (cases xs) (auto simp: entry_index_def)

text \<open>An event keeps the invariant; the first one must be a seed.\<close>

lemma ApplyObligationEvent_ok:
  assumes "ApplyObligationEvent l ev h = Inr l'" "payload_ok (oq_Payload (oe_Decoded ev))" "\<And>k. l = Some k \<Longrightarrow> ledger_ok k"
  shows "ledger_ok l' \<and> ol_Revision l' = Count_Int (oe_Revision ev) \<and> ol_Head l' = h \<and>
    ol_Events l' = (case l of None \<Rightarrow> [] | Some k \<Rightarrow> ol_Events k) @ [h]"
proof -
  let ?q = "oe_Decoded ev" and ?l = "ledger_clone l"
  obtain m where m: "apply_payload ?q h ?l = Inr m" "Count_Int (oe_Revision ev) = revisionOf l + 1"
      "l' = m\<lparr>ol_Unblocks := ol_Unblocks m + countUnblocks l m, ol_Revision := Count_Int (oe_Revision ev), ol_Head := h, ol_Events := ol_Events m @ [h]\<rparr>"
    using assms(1) by (auto simp: ApplyObligationEvent_def split: if_splits)
  have l: "ol_Entries ?l = [] \<and> ol_Prefix ?l = [] \<or> entries_ok (ol_Prefix ?l) (ol_Entries ?l) \<and> ol_Prefix ?l \<noteq> []"
      "ol_Events ?l = (case l of None \<Rightarrow> [] | Some k \<Rightarrow> ol_Events k)" "revisionOf l = int (length (ol_Events ?l))"
    using assms(3) by (cases l; simp add: ledger_clone_def ledger_ok_def revisionOf_def)+
  have "entries_ok (ol_Prefix m) (ol_Entries m) \<and> ol_Prefix m \<noteq> [] \<and> ol_Events m = ol_Events ?l"
  proof (cases "oq_Payload ?q")
    case (SeedPayload s)
    then have a: "apply_seed ?q s ?l = Inr m" "seed_ok s" using m(1) assms(2) by (simp_all add: apply_payload_def payload_ok_def)
    then have "sd_Prefix s \<noteq> []" by (simp add: seed_ok_def)
    then show ?thesis using apply_seed_ok [OF a l(1)] by auto
  next
    case (SetPayload cs)
    then have a: "apply_set ?q cs ?l = Inr m" "set_ok cs" using m(1) assms(2) by (simp_all add: apply_payload_def payload_ok_def)
    then have "ol_Entries ?l \<noteq> []" by (auto simp: apply_set_def set_ok_def dest: empty_update)
    then have e: "entries_ok (ol_Prefix ?l) (ol_Entries ?l)" "ol_Prefix ?l \<noteq> []" using l(1) by auto
    then show ?thesis using apply_set_ok [OF a e(1)] by simp
  next
    case (WitnessPayload w)
    then have a: "apply_witness ?q w h ?l = Inr m" "witness_ok w" using m(1) assms(2) by (simp_all add: apply_payload_def payload_ok_def)
    then have "ol_Entries ?l \<noteq> []" by (auto simp: apply_witness_def witness_ok_def dest: empty_update)
    then have e: "entries_ok (ol_Prefix ?l) (ol_Entries ?l)" "ol_Prefix ?l \<noteq> []" using l(1) by auto
    then show ?thesis using apply_witness_ok [OF a(1) e(1)] by simp
  qed
  then show ?thesis using m(2,3) l(2,3) by (simp add: ledger_ok_def)
qed

end
