(* ===== verification/Obligation_Sample.thy ===== *)
theory Obligation_Sample
  imports Obligation_Wire Ticket_File
begin

text \<open>
  A small ledger: the document of a first event that seeds one obligation, and the events on which the
  properties of the transition are instantiated. The digest of every document is \<open>zeros\<close> here.
\<close>

subsection \<open>The document of a seed\<close>

definition zeros :: string where "zeros = replicate 64 CHR ''0''"

definition const_sha :: "string \<Rightarrow> string" where "const_sha _ = zeros"

definition seed_actor :: object where
  "seed_actor = [(''id'', VString ''op''), (''role'', VString ''OWNER'')]"

definition seed_item :: object where
  "seed_item = [(''core'', VBool True), (''id'', VString ''AB-1''), (''title'', VString ''op'')]"

definition seed_payload :: object where
  "seed_payload = [(''obligations'', VArray [VObject seed_item]), (''prefix'', VString ''AB'')]"

definition seed_file :: object where
  "seed_file = [(''actor'', VObject seed_actor), (''expectedRevision'', VString ''1''),
     (''issuedAt'', VString ''2026-01-01T00:00:00Z''), (''operation'', VString ''OBLIGATIONS_SEED''), (''payload'', VObject seed_payload),
     (''profile'', VString MutationProfile), (''queueId'', VString ''queue:a:q''), (''requestId'', VString ''queue:a:q''),
     (''targetId'', VString ''ticket:a:q:T1'')]"

definition event_file :: object where
  "event_file = [(''previous'', VNull), (''profile'', VString ObligationEventProfile), (''request'', VObject seed_file),
     (''requestSha256'', VString zeros), (''revision'', VString ''1''), (''ticketId'', VString ''ticket:a:q:T1'')]"

definition sample_ticket :: TicketID where
  "sample_ticket = \<lparr>t_Raw = ''ticket:a:q:T1'', t_Authority = ''a'', t_Queue = ''q'', t_Local = ''T1''\<rparr>"

definition seed_request :: "string \<Rightarrow> ObligationRequest" where
  "seed_request raw = \<lparr>oq_RequestID = ''queue:a:q'', oq_QueueID = \<lparr>q_Raw = ''queue:a:q'', q_Authority = ''a'', q_Queue = ''q''\<rparr>,
     oq_TicketID = sample_ticket, oq_ExpectedRevision = ''1'', oq_ActorID = ''op'', oq_ActorRole = ''OWNER'', oq_Operation = ''OBLIGATIONS_SEED'',
     oq_IssuedAt = ''2026-01-01T00:00:00Z'',
     oq_Payload = SeedPayload \<lparr>sd_Prefix = ''AB'', sd_Obligations = [\<lparr>si_ID = ''AB-1'', si_Alias = [], si_Title = ''op'', si_Core = True\<rparr>]\<rparr>,
     oq_Raw = raw\<rparr>"

definition seed_event :: ObligationEvent where
  "seed_event = \<lparr>oe_TicketID = sample_ticket, oe_Revision = ''1'', oe_Previous = None, oe_RequestSha256 = zeros,
     oe_Request = EncodeFile (VObject seed_file), oe_Decoded = seed_request (EncodeFile (VObject seed_file))\<rparr>"

definition event_raw :: string where "event_raw = EncodeFile (VObject event_file)"

subsection \<open>Its bytes are canonical\<close>

lemma seed_get:
  "obj_Get seed_file ''actor'' = Some (VObject seed_actor)" "obj_Get seed_file ''expectedRevision'' = Some (VString ''1'')"
  "obj_Get seed_file ''issuedAt'' = Some (VString ''2026-01-01T00:00:00Z'')"
  "obj_Get seed_file ''operation'' = Some (VString ''OBLIGATIONS_SEED'')" "obj_Get seed_file ''payload'' = Some (VObject seed_payload)"
  "obj_Get seed_file ''profile'' = Some (VString MutationProfile)" "obj_Get seed_file ''queueId'' = Some (VString ''queue:a:q'')"
  "obj_Get seed_file ''requestId'' = Some (VString ''queue:a:q'')" "obj_Get seed_file ''targetId'' = Some (VString ''ticket:a:q:T1'')"
  "obj_Get seed_actor ''id'' = Some (VString ''op'')" "obj_Get seed_actor ''role'' = Some (VString ''OWNER'')"
  "obj_Get seed_payload ''obligations'' = Some (VArray [VObject seed_item])" "obj_Get seed_payload ''prefix'' = Some (VString ''AB'')"
  "obj_Get seed_item ''core'' = Some (VBool True)" "obj_Get seed_item ''id'' = Some (VString ''AB-1'')"
  "obj_Get seed_item ''title'' = Some (VString ''op'')" "obj_Get seed_item ''alias'' = None"
  "obj_Get event_file ''previous'' = Some VNull" "obj_Get event_file ''profile'' = Some (VString ObligationEventProfile)"
  "obj_Get event_file ''request'' = Some (VObject seed_file)" "obj_Get event_file ''requestSha256'' = Some (VString zeros)"
  "obj_Get event_file ''revision'' = Some (VString ''1'')" "obj_Get event_file ''ticketId'' = Some (VString ''ticket:a:q:T1'')"
  by (simp_all add: seed_file_def seed_actor_def seed_payload_def seed_item_def event_file_def obj_Get_def del: obj_Get_None)

lemmas seed_docs = seed_file_def seed_actor_def seed_payload_def seed_item_def event_file_def MutationProfile_def ObligationEventProfile_def

lemma zeros_plain: "zeros = ''0000000000000000000000000000000000000000000000000000000000000000''"
  by code_simp

lemma event_within: "within_bounds (VObject event_file)"
  by (auto simp: within_bounds_def seed_docs zeros_plain limit_defs plainASCII_def input_options_def intro!: clean_plain)

lemma seed_within: "within_bounds (VObject seed_file)"
  by (auto simp: within_bounds_def seed_docs limit_defs plainASCII_def input_options_def intro!: clean_plain)

lemma docs_sorted: "sorted_val (VObject event_file)" "sorted_val (VObject seed_file)"
  by (simp_all add: seed_docs)

lemma docs_parse: "Parse event_raw = Inr (VObject event_file)" "Parse (EncodeFile (VObject seed_file)) = Inr (VObject seed_file)"
  using event_within seed_within docs_sorted by (simp_all add: Parse_iff event_raw_def)

lemma docs_length: "length event_raw \<le> MaxObligationEventBytes" "length (EncodeFile (VObject seed_file)) \<le> MaxObligationEventBytes"
proof -
  have d: "distinct_val (VObject event_file)" "distinct_val (VObject seed_file)"
    using event_within seed_within fits_distinct by (auto simp: within_bounds_def)
  have "weight (VObject event_file) \<le> 10000" "weight (VObject seed_file) \<le> 10000" by (simp_all add: seed_docs zeros_plain)
  then show "length event_raw \<le> MaxObligationEventBytes" "length (EncodeFile (VObject seed_file)) \<le> MaxObligationEventBytes"
    using enc_weight [OF d(1)] enc_weight [OF d(2)] by (simp_all add: EncodeFile_eq event_raw_def MaxObligationEventBytes_def)
qed

lemma docs_closed:
  "closed_ok [''profile'', ''requestId'', ''actor'', ''queueId'', ''targetId'', ''expectedRevision'', ''operation'', ''payload'', ''issuedAt''] seed_file"
  "closed_ok event_keys event_file" "closed_ok [''id'', ''role''] seed_actor" "closed_ok [''prefix'', ''obligations''] seed_payload"
  "closed_ok (OptionalKeys (VObject seed_item) [''id'', ''title'', ''core''] [''alias'']) seed_item"
  by code_simp+

subsection \<open>It decodes\<close>

lemma open_document_Inr:
  assumes "closed_ok keys kvs" "obj_Get kvs ''profile'' = Some (VString profile)" "loc \<noteq> []"
  shows "open_document loc ploc keys profile (VObject kvs) = Inr \<lparr>r_v = VObject kvs, r_where = loc\<rparr>"
proof -
  have pr: "fst (run_state (rd_at ''profile'' rd_String \<lparr>r_v = VObject kvs, r_where = loc\<rparr>) fresh) = profile"
    using assms(2) by (simp add: rd_at_def rd_Field_def rd_String_def rd_child_def fresh_def del: obj_Get_None)
  have pv: "ProfileVersion ploc (VObject kvs) profile = Inr ()"
    using assms(2) by (simp add: ProfileVersion_def otherVersion_def CheckProfile_def del: obj_Get_None)
  have cl: "run_reader (rd_Closed keys \<lparr>r_v = VObject kvs, r_where = loc\<rparr>) = Inr ()"
    using assms(1) by (simp add: run_reader_Inr Closed_reader.is_sticky Closed_reader.yields_dec dec_closed_iff)
  show ?thesis using assms(3) pr by (simp add: open_document_def Let_def NewReader_def pv cl CheckProfile_def)
qed

lemma seed_queue:
  "dec_with ParseQueueID loc (VString ''queue:a:q'') = Inr \<lparr>q_Raw = ''queue:a:q'', q_Authority = ''a'', q_Queue = ''q''\<rparr>"
proof -
  have "isTokenByte (CHR ''a'') True" "isTokenByte (CHR ''q'') True" by code_simp+
  then show ?thesis by (simp add: dec_with_def dec_string_def ParseQueueID_def checkIDLength_def limit_defs ParseToken_def)
qed

lemma seed_scalars:
  "yields (readObligationID \<lparr>r_v = VString ''AB-1'', r_where = loc\<rparr>) ''AB-1''"
  "yields (readObligationPrefix \<lparr>r_v = VString ''AB'', r_where = loc\<rparr>) ''AB''"
  "dec_with ParseDigest loc (VString zeros) = Inr zeros"
  unfolding readObligationID_def readObligationPrefix_def rd_grammar_def field_reader.yields_dec [OF rd_with_reader]
  by code_simp+

lemma seed_title: "yields (read_nonblank MaxObligationTitleBytes \<lparr>r_v = VString ''op'', r_where = loc\<rparr>) ''op''"
proof -
  have "\<not> space_rune (fst (decode_rune ''op''))" by (simp add: decode_rune_ascii space_rune_def)
  then have "\<not> blank ''op''" by (subst blank.simps) simp
  then show ?thesis
    by (simp add: read_nonblank_def yields_check Prose_inverse.stuck Prose_reader.yields_dec dec_with_def dec_string_def ParseProse_def parseText_plain
        plainASCII_def MaxObligationTitleBytes_def limit_defs)
qed

lemma at_value:
  "obj_Get kvs key = Some v \<Longrightarrow> (\<And>r. sticky (rd r)) \<Longrightarrow> yields (rd \<lparr>r_v = v, r_where = child_loc loc key\<rparr>) x \<Longrightarrow>
     yields (rd_at key rd \<lparr>r_v = VObject kvs, r_where = loc\<rparr>) x"
  by (simp add: yields_at del: obj_Get_None)

text \<open>A reader that fails when a condition holds, on a document for which it does not.\<close>

lemma yields_fail_at_no: "yields (rd_fail_at False key r code) ()"
  by (simp add: rd_fail_at_def yields_bind sticky_Err sticky_return yields_return yields_Err)

lemma seed_item_read:
  "yields (read_seed_item ''AB'' \<lparr>r_v = VObject seed_item, r_where = loc\<rparr>) \<lparr>si_ID = ''AB-1'', si_Alias = [], si_Title = ''op'', si_Core = True\<rparr>"
proof -
  let ?r = "\<lparr>r_v = VObject seed_item, r_where = loc\<rparr>"
  have "yields (rd_at ''id'' readObligationID ?r) ''AB-1''" "yields (rd_at ''title'' (read_nonblank MaxObligationTitleBytes) ?r) ''op''"
      "yields (rd_at ''core'' rd_Bool ?r) True" "yields (rd_optional ''alias'' readObligationAlias [] ?r) []"
      "yields (rd_Closed (OptionalKeys (r_v ?r) [''id'', ''title'', ''core''] [''alias'']) ?r) ()"
    using docs_closed(5)
    by (auto intro!: at_value [OF seed_get(15)] at_value [OF seed_get(16)] at_value [OF seed_get(14)] seed_scalars seed_title stuck_rules
        simp: yields_optional stuck_rules val_Has_def seed_get Bool_reader.yields_dec dec_bool_def Closed_reader.yields_dec dec_closed_iff
        simp del: obj_Get_None)
  moreover have "ObligationIDPrefix ''AB-1'' = ''AB''" by code_simp
  ultimately show ?thesis
    unfolding read_seed_item_def by (auto simp: yields_bind yields_return stuck_rules yields_fail_at_no intro!: exI)
qed

lemma yields_bindI: "yields m x \<Longrightarrow> yields (k x) z \<Longrightarrow> sticky m \<Longrightarrow> (\<And>x. sticky (k x)) \<Longrightarrow> yields (do { x \<leftarrow> m; k x }) z"
  by (auto simp: yields_bind)

lemma keyed_one:
  assumes "\<And>r. sticky (each r)" "\<And>loc. yields (each \<lparr>r_v = v, r_where = loc\<rparr>) x" "1 \<le> mx"
  shows "yields (readIDKeyed mx each ident \<lparr>r_v = VArray [v], r_where = loc\<rparr>) [x]"
proof -
  let ?it = "\<lparr>r_v = v, r_where = child_loc loc (format_nat 0)\<rparr>"
  have "yields (rd_Array (int mx) True \<lparr>r_v = VArray [v], r_where = loc\<rparr>) [?it]"
    using assms(3) by (auto simp: yields_def rd_Array_def rd_child_def fresh_def CheckSortedUnique_def Let_def)
  moreover have "yields (do { err \<leftarrow> rd_Err; (if err \<noteq> None then return [] else do { xs \<leftarrow> return []; return (x # xs) }) }) [x]"
    by (subst yields_guard) (auto simp: yields_bind yields_return sticky_bind sticky_return)
  then have "yields (do { x \<leftarrow> each ?it; err \<leftarrow> rd_Err; (if err \<noteq> None then return [] else do { xs \<leftarrow> return []; return (x # xs) }) }) [x]"
    by (rule yields_bindI [OF assms(2)]) (intro stuck_rules assms(1))+
  then have "yields (id_loop each ident None [?it]) [x]" by (simp only: id_loop.simps option.case)
  then have "yields (do { err \<leftarrow> rd_Err; (if err \<noteq> None then return [] else if [?it] = [] then do { rd_Fail r CodeMalformed; return [] }
      else id_loop each ident None [?it]) }) [x]" for r
    by (subst yields_guard, intro stuck_rules sticky_id_loop assms(1)) (simp only: list.simps if_False)
  ultimately show ?thesis
    unfolding readIDKeyed_def by (rule yields_bindI) (intro stuck_rules sticky_id_loop assms(1))+
qed

lemma seed_payload_read:
  "yields (readObligations ''OBLIGATIONS_SEED'' \<lparr>r_v = VObject seed_payload, r_where = loc\<rparr>)
     (SeedPayload \<lparr>sd_Prefix = ''AB'', sd_Obligations = [\<lparr>si_ID = ''AB-1'', si_Alias = [], si_Title = ''op'', si_Core = True\<rparr>]\<rparr>)"
proof -
  let ?r = "\<lparr>r_v = VObject seed_payload, r_where = loc\<rparr>"
  have "yields (rd_Closed [''prefix'', ''obligations''] ?r) ()" "yields (rd_at ''prefix'' readObligationPrefix ?r) ''AB''"
      "yields (rd_at ''obligations'' (readIDKeyed ObligationsMaxEntries (read_seed_item ''AB'') si_ID) ?r)
         [\<lparr>si_ID = ''AB-1'', si_Alias = [], si_Title = ''op'', si_Core = True\<rparr>]"
    using docs_closed(4)
    by (auto intro!: at_value [OF seed_get(13)] at_value [OF seed_get(12)] seed_scalars keyed_one sticky_seed_item sticky_keyed seed_item_read stuck_rules
        simp: Closed_reader.yields_dec dec_closed_iff ObligationsMaxEntries_def)
  then have "yields (ReadObligationSeedPayload ?r) \<lparr>sd_Prefix = ''AB'', sd_Obligations = [\<lparr>si_ID = ''AB-1'', si_Alias = [], si_Title = ''op'', si_Core = True\<rparr>]\<rparr>"
    unfolding ReadObligationSeedPayload_def by (auto simp: yields_bind yields_return stuck_rules sticky_seed_item intro!: exI)
  moreover have "sticky (ReadObligationSeedPayload r)" for r
    unfolding ReadObligationSeedPayload_def by (intro stuck_rules sticky_seed_item)
  ultimately show ?thesis by (auto simp: readObligations_def OpObligationsSeed_def yields_bind yields_return sticky_return)
qed

lemma seed_request_read:
  "yields (read_obligation_request raw \<lparr>r_v = VObject seed_file, r_where = ''/request''\<rparr>) (seed_request raw)"
proof -
  let ?r = "\<lparr>r_v = VObject seed_file, r_where = ''/request''\<rparr>"
  have a: "yields (readObligationActor \<lparr>r_v = VObject seed_actor, r_where = loc\<rparr>) (''op'', ''OWNER'')" for loc
    using docs_closed(3) unfolding readObligationActor_def
    by (auto simp: yields_bind yields_return stuck_rules Closed_reader.yields_dec dec_closed_iff Label_reader.yields_dec Enum_reader.yields_dec file_texts file_enum
        intro!: at_value [OF seed_get(10)] at_value [OF seed_get(11)])
  have "yields (rd_at ''requestId'' rd_Identifier ?r) ''queue:a:q''"
    "yields (rd_at ''queueId'' rd_QueueID ?r) \<lparr>q_Raw = ''queue:a:q'', q_Authority = ''a'', q_Queue = ''q''\<rparr>"
    "yields (rd_at ''targetId'' rd_TicketID ?r) sample_ticket" "yields (rd_at ''expectedRevision'' rd_Count ?r) ''1''"
    "yields (rd_at ''operation'' (rd_Enum ObligationOperations) ?r) ''OBLIGATIONS_SEED''"
    "yields (rd_at ''issuedAt'' rd_Timestamp ?r) ''2026-01-01T00:00:00Z''" "yields (rd_at ''actor'' readObligationActor ?r) (''op'', ''OWNER'')"
    "yields (rd_at ''payload'' (readObligations ''OBLIGATIONS_SEED'') ?r) (oq_Payload (seed_request raw))"
    by (auto intro!: at_value [OF seed_get(8)] at_value [OF seed_get(7)] at_value [OF seed_get(9)] at_value [OF seed_get(2)]
        at_value [OF seed_get(4)] at_value [OF seed_get(3)] at_value [OF seed_get(1)] at_value [OF seed_get(5)] stuck_rules sticky_actor sticky_obligations
        QueueID_reader.is_sticky a file_enum
        simp: Identifier_reader.yields_dec QueueID_reader.yields_dec TicketID_reader.yields_dec Count_reader.yields_dec Enum_reader.yields_dec
          Timestamp_reader.yields_dec file_texts seed_queue file_ticket file_count file_time sample_ticket_def ObligationOperations_def obligation_op_defs
          seed_request_def seed_payload_read)
  then show ?thesis
    unfolding read_obligation_request_def
    by (auto simp: yields_bind yields_return stuck_rules sticky_actor sticky_obligations QueueID_reader.is_sticky seed_request_def intro!: exI)
qed

subsection \<open>The one-event chain\<close>

lemma seed_decodes: "DecodeObligationRequest (EncodeFile (VObject seed_file)) = Inr (seed_request (EncodeFile (VObject seed_file)))"
proof -
  have "run_reader (read_obligation_request raw \<lparr>r_v = VObject seed_file, r_where = ''/request''\<rparr>) = Inr (seed_request raw)" for raw
    using seed_request_read by (simp add: run_reader_Inr sticky_request)
  then show ?thesis
    using docs_length(2) docs_parse(2) open_document_Inr [OF docs_closed(1) seed_get(6), of "''/request''" "''/request/profile''"]
    by (simp add: DecodeObligationRequest_def seed_request_def sample_ticket_def TicketID_QueueID_def MaxRequestIDBytes_def)
qed

lemma sticky_event_head: "sticky (read_event_head r)"
  unfolding read_event_head_def by (intro stuck_rules)

lemma event_decodes: "DecodeObligationEvent const_sha event_raw = Inr seed_event"
proof -
  let ?r = "\<lparr>r_v = VObject event_file, r_where = ''/''\<rparr>"
  have null: "yields (rd_DigestOrNull \<lparr>r_v = VNull, r_where = loc\<rparr>) None" for loc
    by (simp add: rd_DigestOrNull_def yields_or_null stuck_rules IsNull_def)
  have "yields (rd_at ''ticketId'' rd_TicketID ?r) sample_ticket" "yields (rd_at ''revision'' rd_Count ?r) ''1''"
      "yields (rd_at ''previous'' rd_DigestOrNull ?r) None" "yields (rd_at ''requestSha256'' rd_Digest ?r) zeros"
    by (auto intro!: at_value [OF seed_get(23)] at_value [OF seed_get(22)] at_value [OF seed_get(18)] at_value [OF seed_get(21)] stuck_rules null
        simp: TicketID_reader.yields_dec Count_reader.yields_dec Digest_reader.yields_dec file_ticket file_count sample_ticket_def seed_scalars(3))
  then have "yields (read_event_head ?r) (sample_ticket, ''1'', None, zeros)"
    unfolding read_event_head_def by (auto simp: yields_bind yields_return stuck_rules intro!: exI)
  then have h: "run_reader (read_event_head ?r) = Inr (sample_ticket, ''1'', None, zeros)"
    by (simp add: run_reader_Inr sticky_event_head)
  have c: "Count_Int ''1'' = 1" by (rule sample_seqs(1))
  have o: "open_document ''/'' ''/profile'' event_keys ObligationEventProfile (VObject event_file) = Inr ?r"
    by (rule open_document_Inr [OF docs_closed(2) seed_get(19)]) simp
  show ?thesis
    using docs_length(1) docs_parse(1)
    by (simp add: DecodeObligationEvent_def o h field_value_def seed_get seed_decodes check_event_def c ObligationsMaxEvents_def const_sha_def
        seed_request_def seed_event_def Let_def del: obj_Get_None)
qed

definition sample_store :: event_reader where
  "sample_store h = Inr (if h = zeros then Some event_raw else None)"

definition sample_reference :: ObligationsReference where
  "sample_reference = \<lparr>ob_Prefix = ''AB'', ob_Revision = ''1'', ob_Head = zeros,
     ob_Counts = \<lparr>oc_Witnessed = 0, oc_Total = 1, oc_Deferred = 0, oc_CoreWitnessed = 0, oc_CoreTotal = 1\<rparr>,
     ob_HighWater = \<lparr>hw_AcceptanceRevision = ''1'', hw_Witnessed = 0\<rparr>, ob_LastRaise = None\<rparr>"

definition seeded_ledger :: ObligationLedger where
  "seeded_ledger = \<lparr>ol_Prefix = ''AB'', ol_Revision = 1, ol_Head = zeros,
     ol_Entries = [seed_entry (oe_Decoded seed_event) \<lparr>si_ID = ''AB-1'', si_Alias = [], si_Title = ''op'', si_Core = True\<rparr>],
     ol_Events = [zeros], ol_Unblocks = 0\<rparr>"

lemma seeded_applies: "ApplyObligationEvent None seed_event zeros = Inr seeded_ledger"
proof -
  have c: "Count_Int ''1'' = 1" by (rule sample_seqs(1))
  have i: "entry_index [] x = None" for x by (simp add: entry_index_def Let_def)
  show ?thesis
    by (simp add: ApplyObligationEvent_def seed_event_def revisionOf_def c apply_payload_def apply_seed_def ledger_clone_def ledger_Entry_def i ObligationsMaxEntries_def countUnblocks_def seeded_ledger_def seed_request_def)
qed

lemma seeded_fields:
  "ob_Head sample_reference = zeros" "ob_Revision sample_reference = ''1''" "ob_Prefix sample_reference = ''AB''"
  "ol_Revision seeded_ledger = 1" "ol_Prefix seeded_ledger = ''AB''" "ol_Events seeded_ledger = [zeros]"
  by (simp_all add: sample_reference_def seeded_ledger_def)

lemma sample_folds: "FoldObligationChain const_sha sample_ticket sample_reference sample_store = Inr seeded_ledger"
proof -
  have w: "walk_chain const_sha sample_ticket sample_store ObligationsMaxEvents (Some zeros) = Inr [(seed_event, zeros)]"
  proof -
    have "const_sha event_raw = zeros" by (simp add: const_sha_def)
    moreover have "oe_TicketID seed_event = sample_ticket" "oe_Previous seed_event = None" by (simp_all add: seed_event_def)
    ultimately have "walk_chain const_sha sample_ticket sample_store (Suc n) (Some zeros) = Inr [(seed_event, zeros)]" for n
      by (simp add: sample_store_def event_decodes)
    from this [of 1023] show ?thesis by (simp add: ObligationsMaxEvents_def)
  qed
  have c: "Count_Int ''1'' = 1" by (rule sample_seqs(1))
  have n: "ledger_Counts (Some seeded_ledger) = ob_Counts sample_reference"
    by (simp add: ledger_Counts_def seeded_ledger_def zero_Counts_def count_entry_def Let_def seed_entry_def stamp_def sample_reference_def
        obligation_state_defs)
  show ?thesis
    using n c seeded_applies w
    by (simp add: FoldObligationChain_def seeded_fields)
qed

subsection \<open>Events that follow\<close>

definition next_event :: "ObligationsPayload \<Rightarrow> ObligationEvent" where
  "next_event p = \<lparr>oe_TicketID = sample_ticket, oe_Revision = ''2'', oe_Previous = Some zeros, oe_RequestSha256 = zeros, oe_Request = [],
     oe_Decoded = (seed_request [])\<lparr>oq_Operation := obligations_operation p, oq_Payload := p\<rparr>\<rparr>"

definition drop_core :: ObligationChange where
  "drop_core = \<lparr>ch_ID = ''AB-1'', ch_State = None, ch_Core = Some False, ch_Reason = ''op'', ch_Sources = None, ch_Cites = None,
     ch_Scope = None, ch_Candidate = None, ch_Mirror = None\<rparr>"

definition declared :: ObligationWitnessPayload where
  "declared = \<lparr>wt_Source = ObligationSourceDeclared, wt_Commit = zeros, wt_ReportSha256 = None, wt_PlaywrightVersion = None,
     wt_Credits = [\<lparr>cr_ID = ''AB-1'', cr_Matches = None\<rparr>],
     wt_Declaration = Some \<lparr>dl_ManifestSha256 = zeros, dl_TestID = ''op'', dl_Reason = ''op''\<rparr>, wt_Attempt = None, wt_Generation = None,
     wt_Provenance = None, wt_TestRepository = None, wt_Review = None\<rparr>"

lemma sample_entry:
  "en_ID (ol_Entries seeded_ledger ! 0) = ''AB-1''" "en_Core (ol_Entries seeded_ledger ! 0)" "en_State (ol_Entries seeded_ledger ! 0) = ObligationOpen"
  "en_Evidence (ol_Entries seeded_ledger ! 0) = None" "length (ol_Entries seeded_ledger) = 1"
  by (simp_all add: seeded_ledger_def seed_entry_def stamp_def)

lemma sample_index: "entry_index (ol_Entries seeded_ledger) ''AB-1'' = Some 0"
  using entry_index_distinct [of "ol_Entries seeded_ledger" 0] sample_entry
  by (cases "ol_Entries seeded_ledger") auto

lemma payloads_ok: "payload_ok (SetPayload [drop_core])" "payload_ok (WitnessPayload declared)"
  by (simp_all add: payload_ok_def set_ok_def change_ok_def drop_core_def witness_ok_def witness_members_ok_def declared_def
      ObligationSourceDeclared_def ObligationSourceReport_def ObligationSourceReviewed_def)

lemma next_event_applies:
  assumes "apply_payload (oe_Decoded (next_event p)) h seeded_ledger = Inr m"
  shows "\<exists>l'. ApplyObligationEvent (Some seeded_ledger) (next_event p) h = Inr l' \<and> ol_Entries l' = ol_Entries m"
  using assms sample_seqs(2)
  by (simp add: ApplyObligationEvent_def next_event_def revisionOf_def seeded_fields ledger_clone_def) (simp add: seeded_ledger_def)

lemma drop_core_applies:
  "\<exists>l'. ApplyObligationEvent (Some seeded_ledger) (next_event (SetPayload [drop_core])) h = Inr l' \<and> \<not> en_Core (ol_Entries l' ! 0)"
proof -
  let ?q = "oe_Decoded (next_event (SetPayload [drop_core]))"
  obtain e where e: "apply_change ?q drop_core (ol_Entries seeded_ledger ! 0) = Inr e"
    by (simp add: apply_change_def drop_core_def)
  then have "\<not> en_Core e" using apply_change_keeps(6) [OF e] by (simp add: drop_core_def)
  moreover have "apply_payload ?q h seeded_ledger = Inr (seeded_ledger\<lparr>ol_Entries := (ol_Entries seeded_ledger)[0 := e]\<rparr>)"
    using e sample_index by (simp add: next_event_def apply_payload_def apply_set_def drop_core_def)
  ultimately show ?thesis using next_event_applies sample_entry(5) by fastforce
qed

lemma declared_applies:
  "\<exists>l' v. ApplyObligationEvent (Some seeded_ledger) (next_event (WitnessPayload declared)) h = Inr l' \<and> en_Evidence (ol_Entries l' ! 0) = Some v"
proof -
  let ?q = "oe_Decoded (next_event (WitnessPayload declared))"
  have "ObligationOpen \<noteq> ObligationDeferred" by (simp add: obligation_state_defs)
  then obtain e where e: "apply_credit ?q declared h \<lparr>cr_ID = ''AB-1'', cr_Matches = None\<rparr> (ol_Entries seeded_ledger ! 0) = Inr e" "en_Evidence e \<noteq> None"
    using sample_entry(3) by (simp add: apply_credit_def declared_def ObligationSourceDeclared_def ObligationSourceReviewed_def stamp_def)
  have "apply_payload ?q h seeded_ledger = Inr (seeded_ledger\<lparr>ol_Entries := (ol_Entries seeded_ledger)[0 := e]\<rparr>)"
    using e sample_index by (simp add: next_event_def apply_payload_def apply_witness_def) (simp add: declared_def)
  then show ?thesis using next_event_applies e(2) sample_entry(5) by fastforce
qed

end
