(* ===== verification/Obligation_File.thy ===== *)
theory Obligation_File
  imports Obligation_Sample
begin

text \<open>
  The bytes of a ledger event (\<^verbatim>\<open>DecodeObligationEvent\<close> and \<^verbatim>\<open>Encode\<close> of
  \<^verbatim>\<open>internal/tasks/ticket/obligations.go\<close>): what the decoder accepts is what the encoder writes.
\<close>

subsection \<open>The opening of a document\<close>

lemma open_document_ok:
  assumes "open_document loc ploc keys profile v = Inr r" "''profile'' \<in> set keys" "profile \<noteq> []"
  shows "\<exists>kvs. v = VObject kvs \<and> r_v r = VObject kvs \<and> closed_ok keys kvs \<and> obj_Get kvs ''profile'' = Some (VString profile)"
proof -
  obtain kvs loc where k: "v = VObject kvs" "closed_ok keys kvs"
      "CheckProfile ploc (fst (run_state (rd_at ''profile'' rd_String \<lparr>r_v = VObject kvs, r_where = loc\<rparr>) fresh)) profile = Inr ()"
      "r = \<lparr>r_v = VObject kvs, r_where = loc\<rparr>"
    using assms(1) by (auto simp: open_document_def Let_def run_reader_Inr Closed_reader.is_sticky Closed_reader.yields_dec dec_closed_iff NewReader_def)
  have "obj_Get kvs ''profile'' \<noteq> None" using k(2) assms(2) unfolding closed_ok_def filter_empty_conv by blast
  then obtain w where w: "obj_Get kvs ''profile'' = Some w" by blast
  have "fst (run_state (rd_at ''profile'' rd_String \<lparr>r_v = VObject kvs, r_where = loc\<rparr>) fresh) = profile"
    using k(3) by (auto simp: CheckProfile_def split: if_splits)
  then have "w = VString profile"
    using w assms(3) by (auto simp: rd_at_def rd_Field_def rd_String_def rd_Fail_def rd_adopt_def fresh_def rd_child_def Let_def
        split: val.splits if_splits option.splits)
  then show ?thesis using k w by auto
qed

text \<open>
  C15: an accepted event is determined by its head and the request it retains: encoding the decoded event
  gives back its bytes, within the bound; the retained request decodes, under the digest the event
  records for it, to a payload of its operation for a ticket of its queue, which is the ticket of the
  event; the revision is within the bound of a chain, and exactly revision 1 has no previous event.
\<close>

theorem Event_Encode_inverse:
  assumes "DecodeObligationEvent sha256 raw = Inr e"
  shows "Event_Encode sha256 e = Inr raw \<and> length raw \<le> MaxObligationEventBytes \<and>
    DecodeObligationRequest (oe_Request e) = Inr (oe_Decoded e) \<and> sha256 (oe_Request e) = oe_RequestSha256 e \<and>
    obligations_operation (oq_Payload (oe_Decoded e)) = oq_Operation (oe_Decoded e) \<and> 
    TicketID_QueueID (oq_TicketID (oe_Decoded e)) = q_Raw (oq_QueueID (oe_Decoded e)) \<and>
    t_Raw (oq_TicketID (oe_Decoded e)) = t_Raw (oe_TicketID e) \<and>
    1 \<le> Count_Int (oe_Revision e) \<and> Count_Int (oe_Revision e) \<le> int ObligationsMaxEvents \<and> (oe_Revision e = ''1'' \<longleftrightarrow> oe_Previous e = None) \<and>
    payload_ok (oq_Payload (oe_Decoded e))"
proof -
  obtain v r t rev pv sha where v: "Parse raw = Inr v" "open_document ''/'' ''/profile'' event_keys ObligationEventProfile v = Inr r"
      "run_reader (read_event_head r) = Inr (t, rev, pv, sha)" "length raw \<le> MaxObligationEventBytes"
      "e = \<lparr>oe_TicketID = t, oe_Revision = rev, oe_Previous = pv, oe_RequestSha256 = sha,
         oe_Request = EncodeFile (case field_value v ''request'' of Some w \<Rightarrow> w | None \<Rightarrow> VNull), oe_Decoded = oe_Decoded e\<rparr>"
    using assms by (auto simp: DecodeObligationEvent_def Let_def split: if_splits)
  obtain kvs where k: "v = VObject kvs" "r_v r = VObject kvs" "closed_ok event_keys kvs" "obj_Get kvs ''profile'' = Some (VString ObligationEventProfile)"
    using open_document_ok [OF v(2)] by (auto simp: event_keys_def ObligationEventProfile_def)
  have d: "sorted_val v" "distinct_val v" using v(1) fits_distinct by (auto simp: Parse_iff within_bounds_def)
  then have wf: "wf_obj kvs" by (simp add: wf_obj_def k(1))
  have e: "oe_TicketID e = t" "oe_Revision e = rev" "oe_Previous e = pv" "oe_RequestSha256 e = sha" by (subst v(5), simp)+
  have "obj_Get kvs ''request'' \<noteq> None" using k(3) unfolding closed_ok_def filter_empty_conv event_keys_def by auto
  then obtain w where w: "obj_Get kvs ''request'' = Some w" by blast
  have req: "oe_Request e = EncodeFile w" by (subst v(5)) (simp add: field_value_def k(1) w)
  have dec: "DecodeObligationRequest (oe_Request e) = Inr (oe_Decoded e)" by (rule DecodeObligationEvent_ok(7) [OF assms])
  then obtain q where q: "Parse (oe_Request e) = Inr q" by (auto simp: DecodeObligationRequest_def split: if_splits)
  have "distinct_val q" using q fits_distinct by (auto simp: Parse_iff within_bounds_def)
  have "canon w = canon q"
  proof -
    have "EncodeFile w = EncodeFile q" using q req by (simp add: Parse_iff)
    moreover have "distinct_val w" by (rule object_value [OF w wf])
    ultimately show ?thesis using enc_prefix [OF _ \<open>distinct_val q\<close>, of w "[]" "[]"] by (simp add: EncodeFile_eq)
  qed
  then have "member kvs ''request'' q" using w by (simp add: member_def)
  moreover have "yields (read_event_head r) (t, rev, pv, sha)" using v(3) by (simp add: run_reader_Inr sticky_event_head)
  then have "member kvs ''ticketId'' (VString (t_Raw t)) \<and> member kvs ''revision'' (VString rev) \<and>
      member kvs ''previous'' (StringOrNull pv) \<and> member kvs ''requestSha256'' (VString sha)"
    using wf k(2) by (cases r) (auto simp: read_event_head_def prog dest!: members)
  moreover have "member kvs ''profile'' (VString ObligationEventProfile)" using k(4) by (simp add: member_def)
  ultimately have "canon v = canon (event_value e q)"
    unfolding k(1) event_value_def
    by (intro renders_canon [OF renders_intro [OF k(3)] wf]) (auto simp: event_keys_def e)
  then have "EncodeFile (event_value e q) = raw" by (rule EncodeFile_canon [OF v(1)])
  then have "Event_Encode sha256 e = Inr raw" using q assms by (simp add: Event_Encode_def Let_def)
  then show ?thesis using v(4) DecodeObligationEvent_ok [OF assms] DecodeObligationRequest_ok [OF dec] by simp
qed

theorem Event_Encode_inverse_witness:
  "Event_Encode const_sha seed_event = Inr event_raw"
  using Event_Encode_inverse [OF event_decodes] by simp

end
