(* ===== verification/Obligation_Chain.thy ===== *)
theory Obligation_Chain
  imports Obligation_Sample
begin

text \<open>
  The chain of ledger events: what a successful fold of a reference says of the ledger and of the store,
  that the head alone determines the ledger, that the events collected for a planner fold to the same
  ledger, and what the ledger before a request is.
\<close>

subsection \<open>The walk\<close>

definition retains :: "(string \<Rightarrow> string) \<Rightarrow> event_reader \<Rightarrow> string \<Rightarrow> string \<Rightarrow> ObligationEvent \<Rightarrow> bool" where
  "retains sha256 rd t h ev \<longleftrightarrow> (\<exists>raw. rd h = Inr (Some raw) \<and> sha256 raw = h \<and> DecodeObligationEvent sha256 raw = Inr ev \<and> t_Raw (oe_TicketID ev) = t)"

definition head_of :: "(ObligationEvent \<times> string) list \<Rightarrow> string option" where
  "head_of c = (case c of [] \<Rightarrow> None | x # _ \<Rightarrow> Some (snd x))"

lemma head_of_simps [simp]: "head_of [] = None" "head_of (x # c) = Some (snd x)"
  by (simp_all add: head_of_def)

text \<open>A walk succeeds exactly when the events of the list are retained, linked to one another, and at most the bound.\<close>

fun linked :: "(string \<Rightarrow> string) \<Rightarrow> event_reader \<Rightarrow> string \<Rightarrow> (ObligationEvent \<times> string) list \<Rightarrow> bool" where
  "linked sha256 rd t [] \<longleftrightarrow> True"
| "linked sha256 rd t ((ev, h) # c) \<longleftrightarrow> retains sha256 rd t h ev \<and> oe_Previous ev = head_of c \<and> linked sha256 rd t c"

lemma map_sum_Inr: "map_sum id f x = Inr y \<longleftrightarrow> (\<exists>z. x = Inr z \<and> y = f z)"
  by (cases x) auto

lemma walk_chain_iff:
  "walk_chain sha256 tid rd n p = Inr c \<longleftrightarrow> linked sha256 rd (t_Raw tid) c \<and> head_of c = p \<and> length c \<le> n"
proof (induction n arbitrary: p c)
  case 0
  then show ?case by (cases p; cases c) auto
next
  case (Suc n)
  show ?case
  proof (cases p)
    case None
    then show ?thesis by (cases c) auto
  next
    case (Some h)
    show ?thesis
      by (cases c) (auto simp: Some retains_def map_sum_Inr Suc.IH split: sum.splits option.splits)
  qed
qed

lemma linked_retains: "linked sha256 rd t c \<Longrightarrow> (ev, h) \<in> set c \<Longrightarrow> retains sha256 rd t h ev"
  by (induction c) auto

lemma linked_append: "linked sha256 rd t (a @ b) \<Longrightarrow> linked sha256 rd t b"
  by (induction a) auto

lemma linked_cong: "(\<And>h. h \<in> snd ` set c \<Longrightarrow> rd' h = rd h) \<Longrightarrow> linked sha256 rd' t c \<longleftrightarrow> linked sha256 rd t c"
  by (induction c) (auto simp: retains_def)

lemma retains_fun: "retains sha256 rd t h ev \<Longrightarrow> retains sha256 rd t' h ev' \<Longrightarrow> ev = ev' \<and> t = t'"
  by (auto simp: retains_def)

text \<open>Without a collision of the digest between two stores, what they retain under a digest is the same.\<close>

lemma linked_unique:
  assumes "linked sha256 rd1 t1 c1" "linked sha256 rd2 t2 c2" "head_of c1 = head_of c2"
    and "\<And>h k a b. rd1 h = Inr (Some a) \<Longrightarrow> rd2 k = Inr (Some b) \<Longrightarrow> sha256 a = sha256 b \<Longrightarrow> a = b"
  shows "c1 = c2"
  using assms(1-3)
proof (induction c1 arbitrary: c2)
  case Nil
  then show ?case by (cases c2) auto
next
  case (Cons x c1)
  obtain ev h where x: "x = (ev, h)" by fastforce
  obtain ev' c2' where c2: "c2 = (ev', h) # c2'" using Cons.prems(3) x by (cases c2) auto
  obtain a b where "rd1 h = Inr (Some a)" "sha256 a = h" "DecodeObligationEvent sha256 a = Inr ev"
      "rd2 h = Inr (Some b)" "sha256 b = h" "DecodeObligationEvent sha256 b = Inr ev'"
    using Cons.prems(1,2) x c2 by (auto simp: retains_def)
  moreover from this have "a = b" using assms(4) by simp
  ultimately have "ev = ev'" by simp
  then show ?case using Cons.IH [of c2'] Cons.prems x c2 by auto
qed

subsection \<open>The fold\<close>

lemma fold_events_append:
  "fold_events l (a @ b) = Inr l' \<longleftrightarrow> (\<exists>m. fold_events l a = Inr m \<and> fold_events m b = Inr l')"
  by (induction l a rule: fold_events.induct) (auto split: sum.splits)

lemma fold_events_revision:
  assumes "fold_events l evs = Inr l'" "i < length evs"
  shows "Count_Int (oe_Revision (fst (evs ! i))) = revisionOf l + int i + 1"
  using assms
proof (induction l evs arbitrary: i rule: fold_events.induct)
  case (2 l ev h evs)
  obtain m where m: "ApplyObligationEvent l ev h = Inr m" "fold_events (Some m) evs = Inr l'"
    using "2.prems"(1) by (auto split: sum.splits)
  have r: "Count_Int (oe_Revision ev) = revisionOf l + 1" "ol_Revision m = revisionOf l + 1"
    using m(1) by (auto simp: ApplyObligationEvent_def split: if_splits)
  show ?case
  proof (cases i)
    case 0
    then show ?thesis using r by simp
  next
    case (Suc j)
    then show ?thesis using "2.IH" [OF m(1,2), of j] "2.prems"(2) r by (simp add: revisionOf_def)
  qed
qed simp

lemma fold_events_ok:
  assumes "fold_events l evs = Inr l'" "\<And>ev h. (ev, h) \<in> set evs \<Longrightarrow> payload_ok (oq_Payload (oe_Decoded ev))"
    and "\<And>k. l = Some k \<Longrightarrow> ledger_ok k" "evs \<noteq> []"
  shows "\<exists>k. l' = Some k \<and> ledger_ok k \<and> ol_Events k = (case l of None \<Rightarrow> [] | Some k \<Rightarrow> ol_Events k) @ map snd evs"
  using assms
proof (induction l evs rule: fold_events.induct)
  case (2 l ev h evs)
  obtain m where m: "ApplyObligationEvent l ev h = Inr m" "fold_events (Some m) evs = Inr l'"
    using "2.prems"(1) by (auto split: sum.splits)
  have ok: "ledger_ok m \<and> ol_Events m = (case l of None \<Rightarrow> [] | Some k \<Rightarrow> ol_Events k) @ [h]"
    using ApplyObligationEvent_ok [OF m(1)] "2.prems"(2,3) by auto
  show ?case
  proof (cases "evs = []")
    case True
    then show ?thesis using m ok by auto
  next
    case False
    then show ?thesis using "2.IH" [OF m] "2.prems"(2) ok by auto
  qed
qed simp

lemma FoldObligationChain_iff:
  "FoldObligationChain sha256 tid ref rd = Inr l \<longleftrightarrow>
    (\<exists>evs. linked sha256 rd (t_Raw tid) (rev evs) \<and> head_of (rev evs) = Some (ob_Head ref) \<and> length evs \<le> ObligationsMaxEvents \<and>
      fold_events None evs = Inr (Some l) \<and> ol_Revision l = Count_Int (ob_Revision ref) \<and> ol_Prefix l = ob_Prefix ref \<and>
      ledger_Counts (Some l) = ob_Counts ref)"
proof
  assume "FoldObligationChain sha256 tid ref rd = Inr l"
  then obtain c where c: "walk_chain sha256 tid rd ObligationsMaxEvents (Some (ob_Head ref)) = Inr c"
      "fold_events None (rev c) = Inr (Some l)" "ol_Revision l = Count_Int (ob_Revision ref)" "ol_Prefix l = ob_Prefix ref"
      "ledger_Counts (Some l) = ob_Counts ref"
    by (auto simp: FoldObligationChain_def split: option.splits if_splits)
  then show "\<exists>evs. linked sha256 rd (t_Raw tid) (rev evs) \<and> head_of (rev evs) = Some (ob_Head ref) \<and> length evs \<le> ObligationsMaxEvents \<and>
      fold_events None evs = Inr (Some l) \<and> ol_Revision l = Count_Int (ob_Revision ref) \<and> ol_Prefix l = ob_Prefix ref \<and>
      ledger_Counts (Some l) = ob_Counts ref"
    by (intro exI [of _ "rev c"]) (simp add: walk_chain_iff)
next
  assume "\<exists>evs. linked sha256 rd (t_Raw tid) (rev evs) \<and> head_of (rev evs) = Some (ob_Head ref) \<and> length evs \<le> ObligationsMaxEvents \<and>
      fold_events None evs = Inr (Some l) \<and> ol_Revision l = Count_Int (ob_Revision ref) \<and> ol_Prefix l = ob_Prefix ref \<and>
      ledger_Counts (Some l) = ob_Counts ref"
  then obtain evs where e: "walk_chain sha256 tid rd ObligationsMaxEvents (Some (ob_Head ref)) = Inr (rev evs)"
      "fold_events None evs = Inr (Some l)" "ol_Revision l = Count_Int (ob_Revision ref)" "ol_Prefix l = ob_Prefix ref"
      "ledger_Counts (Some l) = ob_Counts ref"
    by (auto simp: walk_chain_iff)
  then show "FoldObligationChain sha256 tid ref rd = Inr l" by (simp add: FoldObligationChain_def)
qed


lemma folded_facts:
  assumes "linked sha256 rd t (rev evs)" "head_of (rev evs) = Some hd0" "fold_events None evs = Inr (Some l)"
  shows "ledger_ok l" "ol_Events l = map snd evs" "distinct (map snd evs)" "ol_Head l = hd0" "ol_Revision l = int (length evs)"
    "\<And>h. h \<in> set (ol_Events l) \<Longrightarrow> \<exists>ev. retains sha256 rd t h ev"
proof -
  have ne: "evs \<noteq> []" using assms(2) by auto
  have r: "retains sha256 rd t h ev" if "(ev, h) \<in> set evs" for ev h
    using linked_retains [OF assms(1)] that by simp
  then have "payload_ok (oq_Payload (oe_Decoded ev))" if "(ev, h) \<in> set evs" for ev h
    using that DecodeObligationEvent_ok(1) by (fastforce simp: retains_def)
  then show ok: "ledger_ok l" and ev: "ol_Events l = map snd evs"
    using fold_events_ok [OF assms(3)] ne by auto
  show "ol_Revision l = int (length evs)" using ok ev by (simp add: ledger_ok_def)
  show "ol_Head l = hd0"
    using ok ev assms(2) ne by (cases evs rule: rev_cases) (auto simp: ledger_ok_def)
  have nth: "retains sha256 rd t (snd (evs ! i)) (fst (evs ! i))" if "i < length evs" for i
    using r that by (metis nth_mem prod.collapse)
  show "distinct (map snd evs)"
    unfolding distinct_conv_nth
  proof (intro allI impI)
    fix i j assume ij: "i < length (map snd evs)" "j < length (map snd evs)" "i \<noteq> j"
    show "map snd evs ! i \<noteq> map snd evs ! j"
    proof
      assume "map snd evs ! i = map snd evs ! j"
      then have "fst (evs ! i) = fst (evs ! j)" using nth [of i] nth [of j] ij retains_fun by (metis length_map nth_map)
      then show False using fold_events_revision [OF assms(3), of i] fold_events_revision [OF assms(3), of j] ij by simp
    qed
  qed
  show "\<exists>ev. retains sha256 rd t h ev" if "h \<in> set (ol_Events l)" for h
  proof -
    obtain ev0 where "(ev0, h) \<in> set evs" using \<open>h \<in> set (ol_Events l)\<close> ev by auto
    then show ?thesis using r by blast
  qed
qed

text \<open>
  C7: a ledger that folds from a reference is well formed: its entries are in identifier order, at most
  the bound, all of its prefix and in a known state, witnessed exactly when they carry evidence, with
  distinct aliases and accepted scope decisions of two different actors; its revision is the number of
  its events, each retained by the store under its own digest as a valid event of the ticket, no digest
  twice and the head last; and the counts of the reference are those of the entries.
\<close>

theorem FoldObligationChain_ledger:
  assumes "FoldObligationChain sha256 tid ref rd = Inr l"
  shows "entries_ok (ob_Prefix ref) (ol_Entries l) \<and> ol_Prefix l = ob_Prefix ref \<and> ol_Prefix l \<noteq> [] \<and>
    counts_of (ol_Entries l) = ob_Counts ref \<and> counts_valid (ob_Counts ref) \<and>
    ol_Revision l = Count_Int (ob_Revision ref) \<and> ol_Revision l = int (length (ol_Events l)) \<and>
    ol_Events l \<noteq> [] \<and> last (ol_Events l) = ob_Head ref \<and> ol_Head l = ob_Head ref \<and>
    distinct (ol_Events l) \<and> length (ol_Events l) \<le> ObligationsMaxEvents \<and>
    (\<forall>h. h \<in> set (ol_Events l) \<longrightarrow> (\<exists>raw ev. rd h = Inr (Some raw) \<and> sha256 raw = h \<and>
      DecodeObligationEvent sha256 raw = Inr ev \<and> t_Raw (oe_TicketID ev) = t_Raw tid))"
proof -
  obtain evs where e: "linked sha256 rd (t_Raw tid) (rev evs)" "head_of (rev evs) = Some (ob_Head ref)" "length evs \<le> ObligationsMaxEvents"
      "fold_events None evs = Inr (Some l)" "ol_Revision l = Count_Int (ob_Revision ref)" "ol_Prefix l = ob_Prefix ref"
      "ledger_Counts (Some l) = ob_Counts ref"
    using assms by (auto simp: FoldObligationChain_iff)
  note f = folded_facts [OF e(1,2,4)]
  have c: "counts_of (ol_Entries l) = ob_Counts ref" using e(7) by (simp add: ledger_Counts_eq)
  moreover have "counts_valid (ob_Counts ref)"
    using counts_of_valid [of "ol_Entries l"] f(1) c by (simp add: ledger_ok_def entries_ok_def)
  moreover have "\<forall>h. h \<in> set (ol_Events l) \<longrightarrow> (\<exists>raw ev. rd h = Inr (Some raw) \<and> sha256 raw = h \<and>
      DecodeObligationEvent sha256 raw = Inr ev \<and> t_Raw (oe_TicketID ev) = t_Raw tid)"
    using f(6) unfolding retains_def by blast
  ultimately show ?thesis using f(1-5) e(3,5,6) by (simp add: ledger_ok_def)
qed

theorem FoldObligationChain_ledger_witness:
  "ol_Events seeded_ledger \<noteq> [] \<and> last (ol_Events seeded_ledger) = ob_Head sample_reference"
  using FoldObligationChain_ledger [OF sample_folds] by simp

text \<open>
  C9: the head commits the ledger. Where no two retained events collide under the digest, two references
  with the same head that both fold, from whatever stores, fold to the same ledger; so the head
  determines the ticket, the prefix, the revision and the counts a reference can state.
\<close>

theorem head_commits_ledger:
  assumes "FoldObligationChain sha256 tid1 ref1 rd1 = Inr l1" "FoldObligationChain sha256 tid2 ref2 rd2 = Inr l2"
    and "ob_Head ref1 = ob_Head ref2"
    and "\<And>h k a b. rd1 h = Inr (Some a) \<Longrightarrow> rd2 k = Inr (Some b) \<Longrightarrow> sha256 a = sha256 b \<Longrightarrow> a = b"
  shows "l1 = l2 \<and> t_Raw tid1 = t_Raw tid2 \<and> ob_Prefix ref1 = ob_Prefix ref2 \<and> ob_Counts ref1 = ob_Counts ref2 \<and>
    Count_Int (ob_Revision ref1) = Count_Int (ob_Revision ref2)"
proof -
  obtain c1 where c1: "linked sha256 rd1 (t_Raw tid1) (rev c1)" "head_of (rev c1) = Some (ob_Head ref1)" "fold_events None c1 = Inr (Some l1)"
      "ol_Revision l1 = Count_Int (ob_Revision ref1)" "ol_Prefix l1 = ob_Prefix ref1" "ledger_Counts (Some l1) = ob_Counts ref1"
    using assms(1) by (auto simp: FoldObligationChain_iff)
  obtain c2 where c2: "linked sha256 rd2 (t_Raw tid2) (rev c2)" "head_of (rev c2) = Some (ob_Head ref2)" "fold_events None c2 = Inr (Some l2)"
      "ol_Revision l2 = Count_Int (ob_Revision ref2)" "ol_Prefix l2 = ob_Prefix ref2" "ledger_Counts (Some l2) = ob_Counts ref2"
    using assms(2) by (auto simp: FoldObligationChain_iff)
  have "rev c1 = rev c2" by (rule linked_unique [OF c1(1) c2(1)]) (use c1(2) c2(2) assms(3,4) in auto)
  then have c: "c1 = c2" by simp
  then have l: "l1 = l2" using c1(3) c2(3) by simp
  have "c1 \<noteq> []" using c1(2) by auto
  then obtain ev h where "(ev, h) \<in> set c1" by (metis last_in_set prod.collapse)
  then obtain a b where "rd1 h = Inr (Some a)" "rd2 h = Inr (Some b)" "t_Raw (oe_TicketID ev) = t_Raw tid1" "t_Raw (oe_TicketID ev) = t_Raw tid2"
    using linked_retains [OF c1(1), of ev h] linked_retains [OF c2(1), of ev h] c by (auto simp: retains_def)
  then show ?thesis using l c1(4-6) c2(4-6) by auto
qed

theorem head_commits_ledger_witness:
  "ob_Prefix sample_reference = ob_Prefix sample_reference \<and> FoldObligationChain const_sha sample_ticket sample_reference sample_store = Inr seeded_ledger"
proof -
  have "a = b" if "sample_store h = Inr (Some a)" "sample_store k = Inr (Some b)" for h k a b
    using that by (simp add: sample_store_def split: if_splits)
  then have "seeded_ledger = seeded_ledger \<and> ob_Prefix sample_reference = ob_Prefix sample_reference"
    using head_commits_ledger [OF sample_folds sample_folds] by blast
  then show ?thesis using sample_folds by simp
qed


subsection \<open>Collecting the events\<close>

lemma collect_chain_linked:
  assumes "linked sha256 rd t c" "length c \<le> n" "distinct (map snd c)" "\<And>h. h \<in> snd ` set c \<Longrightarrow> out h = None"
  shows "\<exists>m. collect_chain sha256 rd n (head_of c) out = (m, None) \<and>
    (\<forall>h. m h = (if h \<in> snd ` set c then (case rd h of Inr x \<Rightarrow> x | Inl _ \<Rightarrow> None) else out h))"
  using assms
proof (induction c arbitrary: n out)
  case Nil
  then show ?case by simp
next
  case (Cons x c)
  obtain ev h where x: "x = (ev, h)" by fastforce
  obtain k where n: "n = Suc k" using Cons.prems(2) by (cases n) auto
  obtain raw where raw: "rd h = Inr (Some raw)" "DecodeObligationEvent sha256 raw = Inr ev" "oe_Previous ev = head_of c"
    using Cons.prems(1) x by (auto simp: retains_def)
  have "\<exists>m. collect_chain sha256 rd k (head_of c) (out(h \<mapsto> raw)) = (m, None) \<and>
    (\<forall>h'. m h' = (if h' \<in> snd ` set c then (case rd h' of Inr x \<Rightarrow> x | Inl _ \<Rightarrow> None) else (out(h \<mapsto> raw)) h'))"
    by (rule Cons.IH) (use Cons.prems x n in auto)
  moreover have "collect_chain sha256 rd n (head_of (x # c)) out = collect_chain sha256 rd k (head_of c) (out(h \<mapsto> raw))"
    using Cons.prems(4) [of h] x n raw by simp
  ultimately show ?case using raw(1) x by fastforce
qed

text \<open>
  C27: collecting the chain of a reference that folds is enough to fold it again: it stops without an
  error, holds exactly the events of the ledger with the bytes of the store, and the fold over what it
  collected gives the same ledger.
\<close>

theorem ObligationChainEvents_folds:
  assumes "FoldObligationChain sha256 tid ref rd = Inr l"
  shows "\<exists>m. ObligationChainEvents sha256 rd (Some ref) = (m, None) \<and> dom m = set (ol_Events l) \<and>
    (\<forall>h. h \<in> dom m \<longrightarrow> rd h = Inr (m h)) \<and> FoldObligationChain sha256 tid ref (\<lambda>h. Inr (m h)) = Inr l"
proof -
  obtain evs where e: "linked sha256 rd (t_Raw tid) (rev evs)" "head_of (rev evs) = Some (ob_Head ref)" "length evs \<le> ObligationsMaxEvents"
      "fold_events None evs = Inr (Some l)" "ol_Revision l = Count_Int (ob_Revision ref)" "ol_Prefix l = ob_Prefix ref"
      "ledger_Counts (Some l) = ob_Counts ref"
    using assms by (auto simp: FoldObligationChain_iff)
  note f = folded_facts [OF e(1,2,4)]
  have "distinct (map snd (rev evs))" using f(3) by (simp flip: rev_map)
  then obtain m where m: "collect_chain sha256 rd ObligationsMaxEvents (Some (ob_Head ref)) Map.empty = (m, None)"
      "\<And>h. m h = (if h \<in> snd ` set evs then (case rd h of Inr x \<Rightarrow> x | Inl _ \<Rightarrow> None) else None)"
    using collect_chain_linked [OF e(1), of ObligationsMaxEvents Map.empty] e(2,3) by auto
  have r: "\<exists>raw. rd h = Inr (Some raw)" if "h \<in> snd ` set evs" for h
    using f(2,6) that by (fastforce simp: retains_def)
  have same: "Inr (m h) = rd h" if "h \<in> snd ` set evs" for h
    using r [OF that] m(2) that by auto
  have "linked sha256 (\<lambda>h. Inr (m h)) (t_Raw tid) (rev evs)"
    using e(1) linked_cong [of "rev evs" "\<lambda>h. Inr (m h)" rd] same by simp
  then have "FoldObligationChain sha256 tid ref (\<lambda>h. Inr (m h)) = Inr l"
    using e(2-7) unfolding FoldObligationChain_iff by blast
  moreover have "dom m = set (ol_Events l)"
  proof (rule set_eqI)
    fix h
    have "m h \<noteq> None \<longleftrightarrow> h \<in> snd ` set evs"
      using m(2) [of h] same [of h] r [of h] by (cases "h \<in> snd ` set evs") (simp, metis option.distinct(1) sum.inject(2), simp)
    then show "h \<in> dom m \<longleftrightarrow> h \<in> set (ol_Events l)" by (simp add: dom_def f(2))
  qed
  moreover have "\<forall>h. h \<in> dom m \<longrightarrow> rd h = Inr (m h)" using same m(2) by (metis domIff)
  ultimately show ?thesis using m(1) by (auto simp: ObligationChainEvents_def)
qed

theorem ObligationChainEvents_folds_witness:
  "\<exists>m. ObligationChainEvents const_sha sample_store (Some sample_reference) = (m, None) \<and> dom m = {zeros}"
  using ObligationChainEvents_folds [OF sample_folds] by (auto simp: seeded_fields)

subsection \<open>The ledger before a request\<close>

lemma before_loop_events:
  assumes "fold_events l evs = Inr l'" "list_all (\<lambda>(ev, h). retains sha256 rd t h ev) evs"
  shows "(before_loop sha256 rd rid l (map snd evs) = Inr None \<and> (\<forall>x. x \<in> set evs \<longrightarrow> oq_RequestID (oe_Decoded (fst x)) \<noteq> rid)) \<or>
    (\<exists>pre x post m. evs = pre @ x # post \<and> (\<forall>y. y \<in> set pre \<longrightarrow> oq_RequestID (oe_Decoded (fst y)) \<noteq> rid) \<and>
      oq_RequestID (oe_Decoded (fst x)) = rid \<and> fold_events l pre = Inr m \<and> before_loop sha256 rd rid l (map snd evs) = Inr (Some m))"
  using assms
proof (induction l evs rule: fold_events.induct)
  case (2 l ev h evs)
  obtain k where k: "ApplyObligationEvent l ev h = Inr k" "fold_events (Some k) evs = Inr l'"
    using "2.prems"(1) by (auto split: sum.splits)
  obtain raw where raw: "rd h = Inr (Some raw)" "DecodeObligationEvent sha256 raw = Inr ev"
    using "2.prems"(2) by (auto simp: retains_def)
  show ?case
  proof (cases "oq_RequestID (oe_Decoded ev) = rid")
    case True
    then have "before_loop sha256 rd rid l (map snd ((ev, h) # evs)) = Inr (Some l)" using raw by simp
    then show ?thesis using True by (intro disjI2 exI [of _ "[]"] exI [of _ "(ev, h)"] exI [of _ evs] exI [of _ l]) simp
  next
    case False
    then have b: "before_loop sha256 rd rid l (map snd ((ev, h) # evs)) = before_loop sha256 rd rid (Some k) (map snd evs)"
      using raw k(1) by simp
    have IH: "(before_loop sha256 rd rid (Some k) (map snd evs) = Inr None \<and> (\<forall>x. x \<in> set evs \<longrightarrow> oq_RequestID (oe_Decoded (fst x)) \<noteq> rid)) \<or>
      (\<exists>pre x post m. evs = pre @ x # post \<and> (\<forall>y. y \<in> set pre \<longrightarrow> oq_RequestID (oe_Decoded (fst y)) \<noteq> rid) \<and>
        oq_RequestID (oe_Decoded (fst x)) = rid \<and> fold_events (Some k) pre = Inr m \<and> before_loop sha256 rd rid (Some k) (map snd evs) = Inr (Some m))"
      by (rule "2.IH" [OF k]) (use "2.prems"(2) in auto)
    then show ?thesis
    proof (elim disjE exE conjE)
      fix pre x post m
      assume h: "evs = pre @ x # post" "\<forall>y. y \<in> set pre \<longrightarrow> oq_RequestID (oe_Decoded (fst y)) \<noteq> rid" "oq_RequestID (oe_Decoded (fst x)) = rid"
        "fold_events (Some k) pre = Inr m" "before_loop sha256 rd rid (Some k) (map snd evs) = Inr (Some m)"
      then show ?thesis using False b k(1)
        by (intro disjI2 exI [of _ "(ev, h) # pre"] exI [of _ x] exI [of _ post] exI [of _ m]) auto
    qed (use False b in auto)
  qed
qed simp

definition request_of :: "(string \<Rightarrow> string) \<Rightarrow> event_reader \<Rightarrow> string \<Rightarrow> string option" where
  "request_of sha256 rd h = (case rd h of
     Inr (Some raw) \<Rightarrow> (case DecodeObligationEvent sha256 raw of Inr ev \<Rightarrow> Some (oq_RequestID (oe_Decoded ev)) | Inl _ \<Rightarrow> None)
   | _ \<Rightarrow> None)"

lemma retains_request: "retains sha256 rd t h ev \<Longrightarrow> request_of sha256 rd h = Some (oq_RequestID (oe_Decoded ev))"
  by (auto simp: retains_def request_of_def)

text \<open>The fold of an initial part of a chain is the fold of a reference to its last event.\<close>

lemma fold_prefix:
  assumes "linked sha256 rd (t_Raw tid) (rev (pre @ post))" "length (pre @ post) \<le> ObligationsMaxEvents" "fold_events None pre = Inr m"
  shows "(m = None \<longleftrightarrow> pre = []) \<and> (\<forall>k. m = Some k \<longrightarrow> ol_Events k = map snd pre \<and> (\<exists>ref. FoldObligationChain sha256 tid ref rd = Inr k))"
proof (cases pre rule: rev_cases)
  case Nil
  then show ?thesis using assms(3) by simp
next
  case (snoc es x)
  have l: "linked sha256 rd (t_Raw tid) (rev pre)" using assms(1) linked_append by (metis rev_append)
  obtain i where i: "m = Some i"
  proof -
    obtain a where "fold_events None es = Inr a" "fold_events a [x] = Inr m" using assms(3) snoc fold_events_append by metis
    then show ?thesis using that by (cases x) (auto split: sum.splits)
  qed
  have h: "head_of (rev pre) = Some (snd x)" using snoc by simp
  have f: "fold_events None pre = Inr (Some i)" using assms(3) i by simp
  have "Count_Int (oe_Revision (fst x)) = int (length pre)"
    using fold_events_revision [OF f, of "length es"] snoc by (simp add: revisionOf_def)
  then have "FoldObligationChain sha256 tid \<lparr>ob_Prefix = ol_Prefix i, ob_Revision = oe_Revision (fst x), ob_Head = snd x,
      ob_Counts = ledger_Counts (Some i), ob_HighWater = undefined, ob_LastRaise = None\<rparr> rd = Inr i"
    unfolding FoldObligationChain_iff using l h f assms(2) folded_facts(5) [OF l h f] by (intro exI [of _ pre]) simp
  then show ?thesis using i snoc folded_facts(2) [OF l h f] by auto
qed

text \<open>
  C26: the ledger before a request. When the reference folds, the second walk never refuses; it finds
  nothing exactly when no event of the ledger retains the request, and otherwise it returns what the
  events before the first that does fold to: nothing before the first event of all, and else the ledger
  of a reference to the event preceding it.
\<close>

theorem ObligationLedgerBeforeRequest_exact:
  assumes "FoldObligationChain sha256 tid ref rd = Inr l"
  shows "(ObligationLedgerBeforeRequest sha256 tid ref rd rid = Inr None \<and> Some rid \<notin> request_of sha256 rd ` set (ol_Events l)) \<or>
    (\<exists>pre h post m. ol_Events l = pre @ h # post \<and> Some rid \<notin> request_of sha256 rd ` set pre \<and> request_of sha256 rd h = Some rid \<and>
      ObligationLedgerBeforeRequest sha256 tid ref rd rid = Inr (Some m) \<and> (m = None \<longleftrightarrow> pre = []) \<and>
      (\<forall>k. m = Some k \<longrightarrow> ol_Events k = pre \<and> (\<exists>ref0. FoldObligationChain sha256 tid ref0 rd = Inr k)))"
proof -
  obtain evs where e: "linked sha256 rd (t_Raw tid) (rev evs)" "head_of (rev evs) = Some (ob_Head ref)" "length evs \<le> ObligationsMaxEvents"
      "fold_events None evs = Inr (Some l)"
    using assms by (auto simp: FoldObligationChain_iff)
  note f = folded_facts [OF e(1,2,4)]
  have r: "retains sha256 rd (t_Raw tid) h ev" if "(ev, h) \<in> set evs" for ev h
    using linked_retains [OF e(1)] that by simp
  have req: "request_of sha256 rd (snd x) = Some (oq_RequestID (oe_Decoded (fst x)))" if "x \<in> set evs" for x
    using r [of "fst x" "snd x"] that retains_request by simp
  have b: "ObligationLedgerBeforeRequest sha256 tid ref rd rid = before_loop sha256 rd rid None (map snd evs)"
    using assms f(2) by (simp add: ObligationLedgerBeforeRequest_def)
  have ra: "list_all (\<lambda>(ev, h). retains sha256 rd (t_Raw tid) h ev) evs" using r by (auto simp: list_all_iff)
  from before_loop_events [OF e(4) ra, of rid] show ?thesis
  proof (elim disjE exE conjE)
    assume "before_loop sha256 rd rid None (map snd evs) = Inr None" "\<forall>x. x \<in> set evs \<longrightarrow> oq_RequestID (oe_Decoded (fst x)) \<noteq> rid"
    then show ?thesis using b req f(2) by auto
  next
    fix pre x post m
    assume p: "evs = pre @ x # post" "\<forall>y. y \<in> set pre \<longrightarrow> oq_RequestID (oe_Decoded (fst y)) \<noteq> rid" "oq_RequestID (oe_Decoded (fst x)) = rid"
      "fold_events None pre = Inr m" "before_loop sha256 rd rid None (map snd evs) = Inr (Some m)"
    have m: "(m = None \<longleftrightarrow> pre = []) \<and> (\<forall>k. m = Some k \<longrightarrow> ol_Events k = map snd pre \<and> (\<exists>ref. FoldObligationChain sha256 tid ref rd = Inr k))"
      by (rule fold_prefix [where post = "x # post", OF _ _ p(4)]) (use e(1,3) p(1) in auto)
    have "Some rid \<noteq> request_of sha256 rd (snd y)" if "y \<in> set pre" for y
      using p(1) p(2) [rule_format, OF that] req [of y] that by auto
    then have "Some rid \<notin> request_of sha256 rd ` set (map snd pre)" by fastforce
    moreover have "request_of sha256 rd (snd x) = Some rid" using p(1,3) req by simp
    ultimately show ?thesis using b f(2) p(1,5) m
      by (intro disjI2 exI [of _ "map snd pre"] exI [of _ "snd x"] exI [of _ "map snd post"] exI [of _ m]) simp
  qed
qed

theorem ObligationLedgerBeforeRequest_exact_witness:
  "ObligationLedgerBeforeRequest const_sha sample_ticket sample_reference sample_store ''queue:a:q'' = Inr (Some None)"
proof -
  have r: "request_of const_sha sample_store zeros = Some ''queue:a:q''"
    by (simp add: request_of_def sample_store_def event_decodes) (simp add: seed_event_def seed_request_def)
  have "pre = []" if "ol_Events seeded_ledger = pre @ h # post" for pre h post using that by (cases pre) (simp_all add: seeded_fields)
  then show ?thesis
    using ObligationLedgerBeforeRequest_exact [OF sample_folds, of "''queue:a:q''"] r by (auto simp: seeded_fields)
qed

end
