(* ===== verification/Obligation_Authority.thy ===== *)
theory Obligation_Authority
  imports Obligation_Sample
begin

text \<open>
  What one accepted event can change, entry by entry: seeds only add open entries, only a change may
  move an entry in or out of the core, and only a witness event gives it evidence.
\<close>

subsection \<open>Updates, entry by entry\<close>

lemma update_loop_nth:
  assumes "update_loop loc ident f es xs = Inr es'" "distinct (map ident xs)"
    and "\<And>x e e'. f x e = Inr e' \<Longrightarrow> en_ID e' = en_ID e"
  shows "length es' = length es \<and>
    (\<forall>k < length es. es' ! k = es ! k \<or> (\<exists>x. x \<in> set xs \<and> ident x = en_ID (es ! k) \<and> f x (es ! k) = Inr (es' ! k)))"
  using assms(1,2)
proof (induction xs arbitrary: es)
  case (Cons x xs)
  obtain j e where j: "entry_index es (ident x) = Some j" "f x (es ! j) = Inr e" "update_loop loc ident f (es[j := e]) xs = Inr es'"
    using Cons.prems(1) by (auto split: option.splits)
  note i = entry_index_Some [OF j(1)]
  have IH: "length es' = length (es[j := e])"
      "\<And>k. k < length (es[j := e]) \<Longrightarrow> es' ! k = es[j := e] ! k \<or>
        (\<exists>y. y \<in> set xs \<and> ident y = en_ID (es[j := e] ! k) \<and> f y (es[j := e] ! k) = Inr (es' ! k))"
    using Cons.IH [OF j(3)] Cons.prems(2) by simp_all
  have "es' ! k = es ! k \<or> (\<exists>y. y \<in> set (x # xs) \<and> ident y = en_ID (es ! k) \<and> f y (es ! k) = Inr (es' ! k))" if "k < length es" for k
  proof (cases "k = j")
    case True
    have "en_ID e = ident x" using assms(3) [OF j(2)] i by simp
    moreover have "ident y \<noteq> ident x" if "y \<in> set xs" for y using Cons.prems(2) that by (force simp: image_iff)
    moreover have "es[j := e] ! k = e" using True i by simp
    then have "es' ! k = e \<or> (\<exists>y. y \<in> set xs \<and> ident y = en_ID e \<and> f y e = Inr (es' ! k))" using IH(2) [of k] that by (simp only: length_list_update)
    ultimately have "es' ! k = e" by metis
    then show ?thesis using True i j(2) by auto
  next
    case False
    then show ?thesis using IH(2) [of k] that by auto
  qed
  then show ?case using IH(1) by simp
qed simp

lemma update_loop_length: "update_loop loc ident f es xs = Inr es' \<Longrightarrow> length es' = length es"
  by (induction loc ident f es xs rule: update_loop.induct) (auto split: option.splits)

lemma distinct_asc: "sorted_wrt (<) (xs :: string list) \<Longrightarrow> distinct xs"
  by (simp add: strict_sorted_iff)

text \<open>Where an accepted event changes an entry of the ledger.\<close>

lemma changed_entry:
  assumes "ApplyObligationEvent (Some l) ev h = Inr l'" "payload_ok (oq_Payload (oe_Decoded ev))"
    and "\<And>s. oq_Payload (oe_Decoded ev) \<noteq> SeedPayload s" "k < length (ol_Entries l)"
  shows "length (ol_Entries l') = length (ol_Entries l) \<and> (ol_Entries l' ! k = ol_Entries l ! k \<or>
    (\<exists>cs c. oq_Payload (oe_Decoded ev) = SetPayload cs \<and> c \<in> set cs \<and> ch_ID c = en_ID (ol_Entries l ! k) \<and>
      apply_change (oe_Decoded ev) c (ol_Entries l ! k) = Inr (ol_Entries l' ! k)) \<or>
    (\<exists>w c. oq_Payload (oe_Decoded ev) = WitnessPayload w \<and> c \<in> set (wt_Credits w) \<and> cr_ID c = en_ID (ol_Entries l ! k) \<and>
      apply_credit (oe_Decoded ev) w h c (ol_Entries l ! k) = Inr (ol_Entries l' ! k)))"
proof -
  let ?q = "oe_Decoded ev"
  obtain m where m: "apply_payload ?q h l = Inr m" "ol_Entries l' = ol_Entries m"
    using assms(1) by (auto simp: ApplyObligationEvent_def ledger_clone_def split: if_splits)
  show ?thesis
  proof (cases "oq_Payload ?q")
    case (SetPayload cs)
    then obtain es where es: "update_loop ''/request/payload/changes'' ch_ID (apply_change ?q) (ol_Entries l) cs = Inr es" "ol_Entries m = es"
      using m(1) by (auto simp: apply_payload_def apply_set_def)
    have "distinct (map ch_ID cs)" using assms(2) SetPayload by (simp add: payload_ok_def set_ok_def distinct_asc)
    from update_loop_nth [OF es(1) this] show ?thesis
      using apply_change_keeps(1) SetPayload assms(4) es(2) m(2) by auto
  next
    case (WitnessPayload w)
    then obtain es where es: "update_loop ''/request/payload/credits'' cr_ID (apply_credit ?q w h) (ol_Entries l) (wt_Credits w) = Inr es" "ol_Entries m = es"
      using m(1) by (auto simp: apply_payload_def apply_witness_def)
    have "distinct (map cr_ID (wt_Credits w))" using assms(2) WitnessPayload by (simp add: payload_ok_def witness_ok_def distinct_asc)
    from update_loop_nth [OF es(1) this] show ?thesis
      using apply_credit_keeps(1) WitnessPayload assms(4) es(2) m(2) by auto
  qed (use assms(3) in auto)
qed

lemma entries_length:
  assumes "ApplyObligationEvent l ev h = Inr l'" "\<And>s. oq_Payload (oe_Decoded ev) \<noteq> SeedPayload s"
  shows "length (ol_Entries l') = length (ol_Entries (ledger_clone l))"
  using assms by (cases "oq_Payload (oe_Decoded ev)")
    (auto simp: ApplyObligationEvent_def apply_payload_def apply_set_def apply_witness_def dest: update_loop_length split: if_splits)

lemma apply_credit_direct:
  assumes "apply_credit q w h c e = Inr e'" "wt_Source w \<noteq> ObligationSourceReviewed"
  shows "en_State e \<noteq> ObligationWitnessed" "en_State e \<noteq> ObligationDeferred" "en_State e' = ObligationWitnessed"
    "\<exists>v. en_Evidence e' = Some v \<and> ev_Source v = wt_Source w \<and> ev_EventSha256 v = h \<and> ev_Commit v = wt_Commit w"
  using assms by (auto simp: apply_credit_def stamp_def split: if_splits)

subsection \<open>Seeds\<close>

lemma seed_mset:
  assumes "ApplyObligationEvent l ev h = Inr l'" "oq_Payload (oe_Decoded ev) = SeedPayload s"
  shows "mset (ol_Entries l') = mset (ol_Entries (ledger_clone l)) + mset (map (seed_entry (oe_Decoded ev)) (sd_Obligations s))"
    "sorted (map en_ID (ol_Entries l'))" "ol_Prefix l' = sd_Prefix s"
proof -
  let ?q = "oe_Decoded ev" and ?l = "ledger_clone l"
  obtain m where m: "apply_seed ?q s ?l = Inr m" "ol_Entries l' = ol_Entries m" "ol_Prefix l' = ol_Prefix m"
    using assms(1,2) by (auto simp: ApplyObligationEvent_def apply_payload_def split: if_splits)
  obtain n where n: "seed_loop ?q (?l\<lparr>ol_Prefix := sd_Prefix s\<rparr>) (sd_Obligations s) = Inr n"
      "ol_Entries m = sort_key en_ID (ol_Entries n)" "ol_Prefix m = ol_Prefix n"
    using m(1) by (auto simp: apply_seed_def split: if_splits)
  have e: "ol_Entries n = ol_Entries ?l @ map (seed_entry ?q) (sd_Obligations s)" "ol_Prefix n = sd_Prefix s"
    using seed_entries [OF n(1)] by simp_all
  show "mset (ol_Entries l') = mset (ol_Entries ?l) + mset (map (seed_entry ?q) (sd_Obligations s))"
    by (simp add: m(2) n(2) e(1))
  show "sorted (map en_ID (ol_Entries l'))" "ol_Prefix l' = sd_Prefix s" by (simp_all add: m(2,3) n(2,3) e(2))
qed

text \<open>
  C28: a seed adds its obligations and nothing else: the entries after it are those before it and one
  entry for each item, open, without evidence, review or scope decision and stamped with the actor and
  time of the request; and the first seed of a ledger leaves no identifier twice.
\<close>

theorem seed_adds_open_entries:
  assumes "ApplyObligationEvent l ev h = Inr l'" "oq_Payload (oe_Decoded ev) = SeedPayload s" "seed_ok s"
  shows "mset (ol_Entries l') = mset (ol_Entries (ledger_clone l)) + mset (map (seed_entry (oe_Decoded ev)) (sd_Obligations s)) \<and>
    sorted (map en_ID (ol_Entries l')) \<and> ol_Prefix l' = sd_Prefix s \<and>
    (\<forall>x. x \<in> set (sd_Obligations s) \<longrightarrow> (\<exists>e. e \<in> set (ol_Entries l') \<and> en_ID e = si_ID x \<and> en_Title e = si_Title x \<and> en_Core e = si_Core x \<and>
      en_State e = ObligationOpen \<and> en_Evidence e = None \<and> en_Review e = None \<and> en_Scope e = None \<and>
      en_UpdatedByID e = oq_ActorID (oe_Decoded ev) \<and> en_UpdatedAt e = oq_IssuedAt (oe_Decoded ev))) \<and>
    (ol_Entries (ledger_clone l) = [] \<longrightarrow> distinct (map en_ID (ol_Entries l')))"
proof -
  let ?q = "oe_Decoded ev" and ?l = "ledger_clone l"
  have ms: "mset (ol_Entries l') = mset (ol_Entries ?l) + mset (map (seed_entry ?q) (sd_Obligations s))"
    by (rule seed_mset(1) [OF assms(1,2)])
  then have st: "set (ol_Entries l') = set (ol_Entries ?l) \<union> set (map (seed_entry ?q) (sd_Obligations s))"
    by (metis set_mset_mset set_mset_union)
  have "\<exists>e. e \<in> set (ol_Entries l') \<and> en_ID e = si_ID x \<and> en_Title e = si_Title x \<and> en_Core e = si_Core x \<and>
      en_State e = ObligationOpen \<and> en_Evidence e = None \<and> en_Review e = None \<and> en_Scope e = None \<and>
      en_UpdatedByID e = oq_ActorID ?q \<and> en_UpdatedAt e = oq_IssuedAt ?q" if "x \<in> set (sd_Obligations s)" for x
    by (rule exI [of _ "seed_entry ?q x"]) (use that st in \<open>simp add: seed_entry_def stamp_def\<close>)
  moreover have "distinct (map en_ID (ol_Entries l'))" if "ol_Entries ?l = []"
  proof -
    have "mset (map en_ID (ol_Entries l')) = mset (map si_ID (sd_Obligations s))"
    proof -
      have "mset (map en_ID (ol_Entries l')) = image_mset en_ID (mset (map (seed_entry ?q) (sd_Obligations s)))" using ms that by simp
      also have "\<dots> = mset (map en_ID (map (seed_entry ?q) (sd_Obligations s)))" by (simp only: mset_map)
      also have "map en_ID (map (seed_entry ?q) (sd_Obligations s)) = map si_ID (sd_Obligations s)" by (simp add: seed_entry_def stamp_def)
      finally show ?thesis .
    qed
    then show ?thesis using assms(3) distinct_asc mset_eq_imp_distinct_iff by (metis seed_ok_def)
  qed
  ultimately show ?thesis using ms seed_mset(2,3) [OF assms(1,2)] by simp
qed

theorem seed_adds_open_entries_witness:
  "sorted (map en_ID (ol_Entries seeded_ledger)) \<and> distinct (map en_ID (ol_Entries seeded_ledger))"
proof -
  have s: "oq_Payload (oe_Decoded seed_event) = SeedPayload \<lparr>sd_Prefix = ''AB'', sd_Obligations = [\<lparr>si_ID = ''AB-1'', si_Alias = [], si_Title = ''op'', si_Core = True\<rparr>]\<rparr>"
    by (simp add: seed_event_def seed_request_def)
  have "seed_ok \<lparr>sd_Prefix = ''AB'', sd_Obligations = [\<lparr>si_ID = ''AB-1'', si_Alias = [], si_Title = ''op'', si_Core = True\<rparr>]\<rparr>"
    using DecodeObligationEvent_ok(1) [OF event_decodes] s by (simp add: payload_ok_def)
  from seed_adds_open_entries [OF seeded_applies s this] show ?thesis by (simp add: ledger_clone_def)
qed

text \<open>The core change an accepted change of an entry makes.\<close>

definition core_change :: "ObligationRequest \<Rightarrow> ObligationEntry \<Rightarrow> bool \<Rightarrow> ObligationChange \<Rightarrow> bool" where
  "core_change q e core c \<longleftrightarrow> ch_ID c = en_ID e \<and>
    (ch_Scope c = None \<and> ch_Core c = Some core \<or>
     (\<exists>s p. ch_Scope c = Some s \<and> ch_Core c = None \<and> sc_Action s \<noteq> ObligationScopePropose \<and> en_Scope e = Some p \<and>
       sp_Status p = ObligationScopeProposed \<and> sp_Core p = core \<and> sc_Core s = core \<and> sp_ProposedByID p \<noteq> oq_ActorID q))"

lemma changed_core:
  assumes "ApplyObligationEvent (Some l) ev h = Inr l'" "payload_ok (oq_Payload (oe_Decoded ev))"
    and "\<And>s. oq_Payload (oe_Decoded ev) \<noteq> SeedPayload s" "k < length (ol_Entries l)"
    and "en_Core (ol_Entries l' ! k) \<noteq> en_Core (ol_Entries l ! k)"
  shows "\<exists>cs c. oq_Payload (oe_Decoded ev) = SetPayload cs \<and> c \<in> set cs \<and>
    core_change (oe_Decoded ev) (ol_Entries l ! k) (en_Core (ol_Entries l' ! k)) c"
proof -
  let ?e = "ol_Entries l ! k" and ?e' = "ol_Entries l' ! k" and ?q = "oe_Decoded ev"
  have "\<not> (\<exists>w c. apply_credit ?q w h c ?e = Inr ?e')" using apply_credit_keeps(4) assms(5) by blast
  then obtain cs c where c: "oq_Payload ?q = SetPayload cs" "c \<in> set cs" "ch_ID c = en_ID ?e" "apply_change ?q c ?e = Inr ?e'"
    using changed_entry [OF assms(1-4)] assms(5) by auto
  then have ok: "change_ok c" using assms(2) by (auto simp: payload_ok_def set_ok_def list_all_iff)
  have core: "en_Core ?e' = (case ch_Scope c of Some s \<Rightarrow> if sc_Action s = ObligationScopePropose then en_Core (apply_fields ?q c ?e) else sc_Core s
       | None \<Rightarrow> en_Core (apply_fields ?q c ?e))"
    by (rule apply_change_keeps(6) [OF c(4)])
  show ?thesis
  proof (cases "ch_Scope c")
    case None
    then show ?thesis using c core assms(5) by (auto simp: core_change_def split: option.splits)
  next
    case (Some s)
    then have n: "ch_Core c = None" using ok by (simp add: change_ok_def)
    then have a: "sc_Action s \<noteq> ObligationScopePropose" "en_Core ?e' = sc_Core s" using core Some assms(5) by (auto split: if_splits)
    obtain x where "applyScopeChange (apply_fields ?q c ?e) s (ch_Reason c) ?q = Inr x"
      using c(4) Some by (auto simp: apply_change_def)
    then show ?thesis using c Some n a by (auto simp: core_change_def applyScopeChange_def split: option.splits if_splits)
  qed
qed

text \<open>An event on no ledger that is not a seed leaves no entries.\<close>

lemma update_loop_Nil: "update_loop loc ident f [] xs = Inr es \<Longrightarrow> es = []"
  by (cases xs) (auto simp: entry_index_def sort_Search_def Let_def split: option.splits if_splits)

lemma first_not_seed:
  assumes "ApplyObligationEvent None ev h = Inr l'" "\<And>s. oq_Payload (oe_Decoded ev) \<noteq> SeedPayload s"
  shows "ol_Entries l' = []"
  using assms by (cases "oq_Payload (oe_Decoded ev)")
    (auto simp: ApplyObligationEvent_def apply_payload_def apply_set_def apply_witness_def ledger_clone_def dest: update_loop_Nil split: if_splits)

text \<open>
  C25: the core of a ledger changes only by decision. A seed adds exactly its obligations, each in or out of
  the core as the seed says, and changes no other entry's core. Any other accepted event keeps the entries
  and their identifiers, and an entry enters or leaves the core only by a change of that very entry, either
  directly or by accepting a pending scope decision for that value which another actor had proposed; a
  proposal and a witness never do it.
\<close>

theorem core_needs_decision:
  assumes "ApplyObligationEvent l ev h = Inr l'" "payload_ok (oq_Payload (oe_Decoded ev))"
  defines "old \<equiv> ol_Entries (ledger_clone l)" and "new \<equiv> ol_Entries l'"
  shows "case oq_Payload (oe_Decoded ev) of
      SeedPayload s \<Rightarrow> mset (map (\<lambda>e. (en_ID e, en_Core e)) new) =
        mset (map (\<lambda>e. (en_ID e, en_Core e)) old) + mset (map (\<lambda>x. (si_ID x, si_Core x)) (sd_Obligations s))
    | SetPayload cs \<Rightarrow> map en_ID new = map en_ID old \<and> (\<forall>k<length old. en_Core (new ! k) = en_Core (old ! k) \<or>
        (\<exists>c\<in>set cs. core_change (oe_Decoded ev) (old ! k) (en_Core (new ! k)) c))
    | WitnessPayload w \<Rightarrow> map (\<lambda>e. (en_ID e, en_Core e)) new = map (\<lambda>e. (en_ID e, en_Core e)) old"
proof (cases "oq_Payload (oe_Decoded ev)")
  case (SeedPayload s)
  let ?q = "oe_Decoded ev" and ?pair = "\<lambda>e. (en_ID e, en_Core e)"
  have ms: "mset new = mset old + mset (map (seed_entry ?q) (sd_Obligations s))"
    using seed_mset [OF assms(1) SeedPayload] by (simp add: new_def old_def)
  have "mset (map ?pair new) = image_mset ?pair (mset new)" by simp
  also have "\<dots> = mset (map ?pair old) + mset (map ?pair (map (seed_entry ?q) (sd_Obligations s)))" by (simp only: ms image_mset_union mset_map)
  also have "map ?pair (map (seed_entry ?q) (sd_Obligations s)) = map (\<lambda>x. (si_ID x, si_Core x)) (sd_Obligations s)"
    by (simp add: seed_entry_def stamp_def)
  finally show ?thesis using SeedPayload by simp
next
  case (SetPayload cs)
  then have ns: "\<And>s. oq_Payload (oe_Decoded ev) \<noteq> SeedPayload s" by simp
  show ?thesis
  proof (cases l)
    case None
    then show ?thesis using first_not_seed [OF assms(1) [unfolded None] ns] SetPayload by (simp add: old_def new_def ledger_clone_def)
  next
    case (Some m)
    note step = changed_entry [OF assms(1) [unfolded Some] assms(2) ns]
    have len: "length new = length old"
      using entries_length [OF assms(1) ns] by (simp add: old_def new_def)
    have "en_ID (new ! k) = en_ID (old ! k)" if "k < length old" for k
      using step [of k] that SetPayload apply_change_keeps(1) by (auto simp: old_def new_def Some ledger_clone_def)
    then have "map en_ID new = map en_ID old" using len by (auto intro!: nth_equalityI)
    moreover have "en_Core (new ! k) = en_Core (old ! k) \<or> (\<exists>c\<in>set cs. core_change (oe_Decoded ev) (old ! k) (en_Core (new ! k)) c)"
      if k: "k < length old" for k
    proof (cases "en_Core (new ! k) = en_Core (old ! k)")
      case False
      then have "\<exists>c\<in>set cs. core_change (oe_Decoded ev) (old ! k) (en_Core (new ! k)) c"
        using changed_core [OF assms(1) [unfolded Some] assms(2) ns, of k] k SetPayload
        unfolding old_def new_def Some ledger_clone_def option.case by (metis ObligationsPayload.inject(2))
      then show ?thesis ..
    qed simp
    ultimately show ?thesis using SetPayload by simp
  qed
next
  case (WitnessPayload w)
  then have ns: "\<And>s. oq_Payload (oe_Decoded ev) \<noteq> SeedPayload s" by simp
  show ?thesis
  proof (cases l)
    case None
    then show ?thesis using first_not_seed [OF assms(1) [unfolded None] ns] WitnessPayload by (simp add: old_def new_def ledger_clone_def)
  next
    case (Some m)
    note step = changed_entry [OF assms(1) [unfolded Some] assms(2) ns]
    have len: "length new = length old"
      using entries_length [OF assms(1) ns] by (simp add: old_def new_def)
    have "en_ID (new ! k) = en_ID (old ! k) \<and> en_Core (new ! k) = en_Core (old ! k)" if "k < length old" for k
      using step [of k] that WitnessPayload apply_credit_keeps(1,4) by (auto simp: old_def new_def Some ledger_clone_def)
    then show ?thesis using WitnessPayload len by (auto intro!: nth_equalityI)
  qed
qed

theorem core_needs_decision_witness:
  "\<exists>l' c. ApplyObligationEvent (Some seeded_ledger) (next_event (SetPayload [drop_core])) [] = Inr l' \<and>
    core_change (oe_Decoded (next_event (SetPayload [drop_core]))) (ol_Entries seeded_ledger ! 0) (en_Core (ol_Entries l' ! 0)) c"
proof -
  obtain l' where l': "ApplyObligationEvent (Some seeded_ledger) (next_event (SetPayload [drop_core])) [] = Inr l'" "\<not> en_Core (ol_Entries l' ! 0)"
    using drop_core_applies by blast
  show ?thesis
    using core_needs_decision [OF l'(1)] l' sample_entry payloads_ok(1) by (auto simp: next_event_def ledger_clone_def)
qed

text \<open>
  C8: evidence comes only from a witness event. An accepted event that is not a seed gives an entry new
  evidence only as a witness event that credits it; the entry was not deferred, is witnessed afterwards
  and its evidence names this event, its source and its commit. A reviewed witness needs a review by at
  least one and the required number of distinct reviewers, none an author, every verdict correct and
  within the stub risk; any other source never replaces the evidence of a witnessed entry.
\<close>

theorem evidence_needs_witness:
  assumes "ApplyObligationEvent (Some l) ev h = Inr l'" "payload_ok (oq_Payload (oe_Decoded ev))"
    and "\<And>s. oq_Payload (oe_Decoded ev) \<noteq> SeedPayload s" "k < length (ol_Entries l)"
    and "en_Evidence (ol_Entries l' ! k) = Some v" "en_Evidence (ol_Entries l ! k) \<noteq> Some v"
  shows "\<exists>w c. oq_Payload (oe_Decoded ev) = WitnessPayload w \<and> c \<in> set (wt_Credits w) \<and> cr_ID c = en_ID (ol_Entries l ! k) \<and>
    en_State (ol_Entries l ! k) \<noteq> ObligationDeferred \<and> en_State (ol_Entries l' ! k) = ObligationWitnessed \<and>
    ev_EventSha256 v = h \<and> ev_Source v = wt_Source w \<and> ev_Commit v = wt_Commit w \<and>
    (wt_Source w \<noteq> ObligationSourceReviewed \<longrightarrow> en_State (ol_Entries l ! k) \<noteq> ObligationWitnessed) \<and>
    (wt_Source w = ObligationSourceReviewed \<longrightarrow> (\<exists>r. wt_Review w = Some r \<and> 1 \<le> rw_Reviewers r \<and> rw_Reviewers r \<le> int (length (rw_Verdicts r)) \<and>
      distinct (map vd_Reviewer (rw_Verdicts r)) \<and> (\<forall>d. d \<in> set (rw_Verdicts r) \<longrightarrow> vd_Reviewer d \<notin> set (rw_Authors r) \<and>
        vd_Verdict d = VerdictCorrect \<and> stubRiskRank (vd_StubRisk d) \<le> stubRiskRank (rw_MaxStubRisk r))))"
proof -
  let ?e = "ol_Entries l ! k" and ?e' = "ol_Entries l' ! k" and ?q = "oe_Decoded ev"
  have "apply_change ?q c ?e = Inr ?e' \<Longrightarrow> False" for c
    using apply_change_keeps(5) [of ?q c ?e ?e'] assms(5,6) by (auto split: option.splits if_splits)
  then obtain w c where c: "oq_Payload ?q = WitnessPayload w" "c \<in> set (wt_Credits w)" "cr_ID c = en_ID ?e" "apply_credit ?q w h c ?e = Inr ?e'"
    using changed_entry [OF assms(1-4)] assms(5,6) by auto
  then have ok: "witness_ok w" using assms(2) by (simp add: payload_ok_def)
  show ?thesis
  proof (cases "wt_Source w = ObligationSourceReviewed")
    case True
    then obtain x where x: "applyReviewedWitness ?e w h = Inr x" "?e' = stamp ?q (x\<lparr>en_Candidate := None\<rparr>)"
      using c(4) by (auto simp: apply_credit_def)
    obtain r where r: "wt_Review w = Some r" "review_ok r" using True ok by (auto simp: witness_ok_def witness_members_ok_def)
    have credited: "fst (review_Outcome r) = ObligationReviewCredited"
      using reviewed_keeps(7) [OF x(1)] x(2) assms(5,6) r(1) by (auto split: if_splits)
    have "review_axes r = []"
      using credited by (simp add: review_Outcome_def ObligationReviewCredited_def ObligationReviewHeld_def split: if_splits)
    then have "rw_Reviewers r \<le> int (length (rw_Verdicts r))"
        "\<forall>d. d \<in> set (rw_Verdicts r) \<longrightarrow> vd_Verdict d = VerdictCorrect \<and> stubRiskRank (vd_StubRisk d) \<le> stubRiskRank (rw_MaxStubRisk r)"
      by (auto simp: review_axes_def list_ex_iff not_less split: if_splits)
    moreover have "1 \<le> rw_Reviewers r" "distinct (map vd_Reviewer (rw_Verdicts r))" "\<forall>d. d \<in> set (rw_Verdicts r) \<longrightarrow> vd_Reviewer d \<notin> set (rw_Authors r)"
      using r(2) by (simp_all add: review_ok_def distinct_asc list_all_iff)
    moreover have "en_State ?e \<noteq> ObligationDeferred" using x(1) by (auto simp: applyReviewedWitness_def)
    moreover have "en_State ?e' = ObligationWitnessed" "ev_EventSha256 v = h" "ev_Source v = wt_Source w" "ev_Commit v = wt_Commit w"
      using reviewed_keeps(6,7) [OF x(1)] x(2) assms(5) credited True r(1) by auto
    ultimately show ?thesis using c(1-3) r(1) True by (intro exI [of _ w] exI [of _ c]) auto
  next
    case False
    note d = apply_credit_direct [OF c(4) False]
    then have "ev_Source v = wt_Source w" "ev_EventSha256 v = h" "ev_Commit v = wt_Commit w" using assms(5) by auto
    then show ?thesis using c(1-3) d False by (intro exI [of _ w] exI [of _ c]) simp
  qed
qed

theorem evidence_needs_witness_witness:
  "\<exists>w c. oq_Payload (oe_Decoded (next_event (WitnessPayload declared))) = WitnessPayload w \<and> c \<in> set (wt_Credits w) \<and>
    cr_ID c = en_ID (ol_Entries seeded_ledger ! 0)"
proof -
  obtain l' v where l': "ApplyObligationEvent (Some seeded_ledger) (next_event (WitnessPayload declared)) [] = Inr l'"
      "en_Evidence (ol_Entries l' ! 0) = Some v"
    using declared_applies by blast
  show ?thesis
    using evidence_needs_witness [OF l'(1) _ _ _ l'(2)] sample_entry payloads_ok(2) by (auto simp: next_event_def)
qed

subsection \<open>A duplicate that a seed does not see\<close>

definition dup_seed :: "string list \<Rightarrow> ObligationSeedPayload" where
  "dup_seed ids = \<lparr>sd_Prefix = ''AB'', sd_Obligations = map (\<lambda>i. \<lparr>si_ID = i, si_Alias = [], si_Title = ''op'', si_Core = False\<rparr>) ids\<rparr>"

definition dup_event :: "string \<Rightarrow> string option \<Rightarrow> string list \<Rightarrow> ObligationEvent" where
  "dup_event r prev ids = seed_event\<lparr>oe_Revision := r, oe_Previous := prev,
     oe_Decoded := (seed_request [])\<lparr>oq_Payload := SeedPayload (dup_seed ids)\<rparr>\<rparr>"

lemma dup_seeds_ok:
  "seed_ok (dup_seed [''AB-5'', ''AB-6'', ''AB-7''])" "seed_ok (dup_seed [''AB-1'', ''AB-2'', ''AB-3'', ''AB-4'', ''AB-7''])"
  by code_simp+

definition dup_ledger :: ObligationLedger where
  "dup_ledger = \<lparr>ol_Prefix = ''AB'', ol_Revision = 1, ol_Head = ''h'',
     ol_Entries = map (seed_entry (oe_Decoded (dup_event ''1'' None [''AB-5'', ''AB-6'', ''AB-7'']))) (sd_Obligations (dup_seed [''AB-5'', ''AB-6'', ''AB-7''])),
     ol_Events = [''h''], ol_Unblocks = 0\<rparr>"

lemma dup_head: "oe_Revision (dup_event r p ids) = r" "oe_Previous (dup_event r p ids) = p"
  by (simp_all add: dup_event_def)

lemma dup_first:
  "apply_payload (oe_Decoded (dup_event ''1'' None [''AB-5'', ''AB-6'', ''AB-7''])) ''h'' (ledger_clone None) =
     Inr (dup_ledger\<lparr>ol_Revision := 0, ol_Head := [], ol_Events := []\<rparr>)"
  by code_simp

lemma dup_second:
  "map_sum id (\<lambda>l. map en_ID (ol_Entries l))
     (apply_payload (oe_Decoded (dup_event ''2'' (Some ''h'') [''AB-1'', ''AB-2'', ''AB-3'', ''AB-4'', ''AB-7''])) ''i'' dup_ledger) =
   Inr [''AB-1'', ''AB-2'', ''AB-3'', ''AB-4'', ''AB-5'', ''AB-6'', ''AB-7'', ''AB-7'']"
  by code_simp

text \<open>
  The duplicate check of a later seed is not complete: it searches the entries by bisection while the
  ones it has appended are not yet in order. Two seeds of distinct ascending identifiers, the second
  repeating one of the first, are both accepted, and the ledger then holds that identifier twice.
\<close>

theorem seed_accepts_duplicate:
  "map_sum id (\<lambda>l. map en_ID (ol_Entries l))
     (rbind (ApplyObligationEvent None (dup_event ''1'' None [''AB-5'', ''AB-6'', ''AB-7'']) ''h'') (\<lambda>l.
        ApplyObligationEvent (Some l) (dup_event ''2'' (Some ''h'') [''AB-1'', ''AB-2'', ''AB-3'', ''AB-4'', ''AB-7'']) ''i'')) =
   Inr [''AB-1'', ''AB-2'', ''AB-3'', ''AB-4'', ''AB-5'', ''AB-6'', ''AB-7'', ''AB-7''] \<and>
   seed_ok (dup_seed [''AB-5'', ''AB-6'', ''AB-7'']) \<and> seed_ok (dup_seed [''AB-1'', ''AB-2'', ''AB-3'', ''AB-4'', ''AB-7''])"
proof -
  let ?e1 = "dup_event ''1'' None [''AB-5'', ''AB-6'', ''AB-7'']"
    and ?e2 = "dup_event ''2'' (Some ''h'') [''AB-1'', ''AB-2'', ''AB-3'', ''AB-4'', ''AB-7'']"
  have a: "ApplyObligationEvent None ?e1 ''h'' = Inr dup_ledger"
    using dup_first sample_seqs(1) by (simp add: ApplyObligationEvent_def revisionOf_def countUnblocks_def dup_head) (simp add: dup_ledger_def)
  obtain m where m: "apply_payload (oe_Decoded ?e2) ''i'' dup_ledger = Inr m"
      "map en_ID (ol_Entries m) = [''AB-1'', ''AB-2'', ''AB-3'', ''AB-4'', ''AB-5'', ''AB-6'', ''AB-7'', ''AB-7'']"
    using dup_second by (auto simp: map_sum_def split: sum.splits)
  have "ol_Revision dup_ledger = 1" "ol_Head dup_ledger = ''h''" by (simp_all add: dup_ledger_def)
  then have "\<exists>l. ApplyObligationEvent (Some dup_ledger) ?e2 ''i'' = Inr l \<and> ol_Entries l = ol_Entries m"
    using m(1) sample_seqs(2) by (simp add: ApplyObligationEvent_def revisionOf_def ledger_clone_def dup_head)
  then show ?thesis using a m(2) dup_seeds_ok by auto
qed

end
