(* ===== verification/Mutation_Types.thy ===== *)
theory Mutation_Types
  imports Ticket_View Ticket_Roundtrip Obligation_Ledger
begin

text \<open>
  The vocabulary and data of the mutation planner (\<^verbatim>\<open>internal/tasks/mutation\<close>): operations, roles and
  the role matrix (\<^verbatim>\<open>intent/policy.go\<close>), payloads, the decoded envelope, the queue manifest and the part
  of the policy the planner reads, outcomes, plans and refusals. A refusal keeps its outcome and code;
  the detail text, which only explains it to a human, is left out.
\<close>

subsection \<open>Operations\<close>

definition OpCreate :: string where "OpCreate = ''CREATE''"
definition OpRefine :: string where "OpRefine = ''REFINE''"
definition OpPrioritize :: string where "OpPrioritize = ''PRIORITIZE''"
definition OpSetDependencies :: string where "OpSetDependencies = ''SET_DEPENDENCIES''"
definition OpSetGates :: string where "OpSetGates = ''SET_GATES''"
definition OpSetEffects :: string where "OpSetEffects = ''SET_EFFECTS''"
definition OpHold :: string where "OpHold = ''HOLD''"
definition OpReleaseHold :: string where "OpReleaseHold = ''RELEASE_HOLD''"
definition OpReopen :: string where "OpReopen = ''REOPEN''"
definition OpArchive :: string where "OpArchive = ''ARCHIVE''"
definition OpRestore :: string where "OpRestore = ''RESTORE''"
definition OpCompleteManual :: string where "OpCompleteManual = ''COMPLETE_MANUAL''"
definition OpGrantApproval :: string where "OpGrantApproval = ''GRANT_APPROVAL''"
definition OpRevokeApproval :: string where "OpRevokeApproval = ''REVOKE_APPROVAL''"
definition OpAttachEvidence :: string where "OpAttachEvidence = ''ATTACH_EVIDENCE''"
definition OpProgressSet :: string where "OpProgressSet = ''PROGRESS_SET''"
definition OpKnowHowAdd :: string where "OpKnowHowAdd = ''KNOWHOW_ADD''"
definition OpKnowHowRetract :: string where "OpKnowHowRetract = ''KNOWHOW_RETRACT''"
definition OpKnowHowReconfirm :: string where "OpKnowHowReconfirm = ''KNOWHOW_RECONFIRM''"
definition OpNoteSet :: string where "OpNoteSet = ''NOTE_SET''"
definition OpNoteClear :: string where "OpNoteClear = ''NOTE_CLEAR''"
definition OpReviewRecord :: string where "OpReviewRecord = ''REVIEW_RECORD''"
definition OpReviewResubmit :: string where "OpReviewResubmit = ''REVIEW_RESUBMIT''"

lemmas op_defs = OpCreate_def OpRefine_def OpPrioritize_def OpSetDependencies_def OpSetGates_def OpSetEffects_def OpHold_def
  OpReleaseHold_def OpReopen_def OpArchive_def OpRestore_def OpCompleteManual_def OpGrantApproval_def OpRevokeApproval_def
  OpAttachEvidence_def OpProgressSet_def OpKnowHowAdd_def OpKnowHowRetract_def OpKnowHowReconfirm_def OpNoteSet_def
  OpNoteClear_def OpReviewRecord_def OpReviewResubmit_def OpObligationsSeed_def OpObligationsSet_def OpObligationsWitness_def

definition IsNoteOperation :: "string \<Rightarrow> bool" where
  "IsNoteOperation op \<longleftrightarrow> op = OpNoteSet \<or> op = OpNoteClear"

definition IsReviewOperation :: "string \<Rightarrow> bool" where
  "IsReviewOperation op \<longleftrightarrow> op = OpReviewRecord \<or> op = OpReviewResubmit"

definition DeclaresDerivedEvent :: "string \<Rightarrow> bool" where
  "DeclaresDerivedEvent op \<longleftrightarrow> IsNoteOperation op \<or> IsReviewOperation op \<or> IsObligationOperation op"

subsection \<open>Roles\<close>

definition Roles :: "string list" where
  "Roles = [''OWNER'', ''OPERATOR'', ''WORKER'', ''REVIEWER'', ''IMPORTER'', ''SYSTEM'']"

definition Operations :: "string list" where
  "Operations = [''CREATE'', ''REFINE'', ''PRIORITIZE'', ''SET_DEPENDENCIES'', ''SET_GATES'', ''SET_EFFECTS'',
     ''HOLD'', ''RELEASE_HOLD'', ''REOPEN'', ''ARCHIVE'', ''RESTORE'', ''COMPLETE_MANUAL'', ''GRANT_APPROVAL'', ''REVOKE_APPROVAL'',
     ''RELEASE_CREATE'', ''RELEASE_UPDATE'', ''RELEASE_CANDIDATE'', ''RELEASE_EXTERNAL_ATTEST'', ''RELEASE_MANUAL_ATTEST'', ''RELEASE_PROMOTE'',
     ''ESCALATE'', ''ANSWER'', ''NOTE_SET'', ''NOTE_CLEAR'', ''REVIEW_RECORD'', ''REVIEW_RESUBMIT'',
     ''ATTACH_EVIDENCE'', ''KNOWHOW_ADD'', ''KNOWHOW_RETRACT'', ''KNOWHOW_RECONFIRM'',
     ''OBLIGATIONS_SEED'', ''OBLIGATIONS_SET'', ''OBLIGATIONS_WITNESS'',
     ''PROGRESS_SET'']"

definition DefaultRoleMatrix :: "string \<Rightarrow> string list" where
  "DefaultRoleMatrix role = (case map_of
     [(''OWNER'', Operations),
      (''OPERATOR'', [''CREATE'', ''REFINE'', ''PRIORITIZE'', ''SET_DEPENDENCIES'', ''SET_GATES'', ''SET_EFFECTS'', ''HOLD'', ''RELEASE_HOLD'',
         ''REOPEN'', ''ARCHIVE'', ''RESTORE'', ''COMPLETE_MANUAL'', ''GRANT_APPROVAL'', ''REVOKE_APPROVAL'', ''RELEASE_CREATE'',
         ''RELEASE_UPDATE'', ''RELEASE_CANDIDATE'', ''RELEASE_EXTERNAL_ATTEST'', ''PROGRESS_SET'']),
      (''IMPORTER'', [''CREATE'', ''REFINE'']),
      (''WORKER'', [''REFINE'']),
      (''SYSTEM'', [''HOLD'']),
      (''REVIEWER'', [])] role of Some ops \<Rightarrow> ops | None \<Rightarrow> [])"

definition ExplicitGrantOperations :: "string \<Rightarrow> string list" where
  "ExplicitGrantOperations role =
     (if role = ''OPERATOR''
      then [''NOTE_SET'', ''NOTE_CLEAR'', ''ESCALATE'', ''ANSWER'', ''ATTACH_EVIDENCE'', ''KNOWHOW_ADD'', ''KNOWHOW_RETRACT'',
            ''KNOWHOW_RECONFIRM'', ''OBLIGATIONS_SEED'', ''OBLIGATIONS_SET'', ''OBLIGATIONS_WITNESS'']
      else [])"

definition PolicyGrantable :: "string \<Rightarrow> string list" where
  "PolicyGrantable role = DefaultRoleMatrix role @ ExplicitGrantOperations role"

subsection \<open>Queue manifest and policy\<close>

record ExecutionCutover =
  ec_EnabledBy :: string
  ec_DecisionRef :: string
  ec_GateEvidence :: "string list"

record WriteBarrier =
  wb_Reason :: string
  wb_Since :: "string option"

record Queue =
  qm_QueueID :: QueueID
  qm_RepositoryAuthorityID :: string
  qm_Prefix :: string
  qm_NextSerial :: string
  qm_SchemaVersion :: string
  qm_CanonicalWriter :: string
  qm_ForeignAdapterID :: "string option"
  qm_IntentBranch :: string
  qm_Fixture :: bool
  qm_ExecutionCutover :: "ExecutionCutover option"
  qm_ImportMapSha256 :: "string option"
  qm_WriteBarrier :: WriteBarrier

text \<open>The members of the policy document the planner reads.\<close>

record KnowHowPolicy =
  khp_WorkerAdd :: bool

record ObligationsPolicy =
  obp_WorkerWitness :: bool
  obp_RequireScopeDecision :: bool
  obp_TestRepositories :: "string \<rightharpoonup> string"
  obp_AllowUndeclaredCites :: bool

record MilestonePolicy =
  msp_Required :: bool

record Policy =
  pol_Roles :: "string \<rightharpoonup> string list"
  pol_Gates :: "string list"
  pol_Pools :: "string list"
  pol_KnowHow :: "KnowHowPolicy option"
  pol_Obligations :: "ObligationsPolicy option"
  pol_Milestones :: "MilestonePolicy option"

definition WorkerKnowHowAdd :: "Policy \<Rightarrow> bool" where
  "WorkerKnowHowAdd p = (case pol_KnowHow p of None \<Rightarrow> False | Some k \<Rightarrow> khp_WorkerAdd k)"

definition WorkerObligationWitness :: "Policy \<Rightarrow> bool" where
  "WorkerObligationWitness p = (case pol_Obligations p of None \<Rightarrow> False | Some o1 \<Rightarrow> obp_WorkerWitness o1)"

definition ObligationScopeDecisionRequired :: "Policy option \<Rightarrow> bool" where
  "ObligationScopeDecisionRequired p = (case Option.bind p pol_Obligations of None \<Rightarrow> False | Some o1 \<Rightarrow> obp_RequireScopeDecision o1)"

definition ObligationCitesDeclaredRequired :: "Policy option \<Rightarrow> bool" where
  "ObligationCitesDeclaredRequired p = (case Option.bind p pol_Obligations of None \<Rightarrow> True | Some o1 \<Rightarrow> \<not> obp_AllowUndeclaredCites o1)"

definition ObligationTestRepository :: "Policy option \<Rightarrow> string \<Rightarrow> string option" where
  "ObligationTestRepository p name = (case Option.bind p pol_Obligations of None \<Rightarrow> None | Some o1 \<Rightarrow> obp_TestRepositories o1 name)"

definition MilestoneRequired :: "Policy \<Rightarrow> bool" where
  "MilestoneRequired p = (case pol_Milestones p of None \<Rightarrow> False | Some m \<Rightarrow> msp_Required m)"

text \<open>\<^verbatim>\<open>GateIDs\<close> is a membership test over the gate definitions, \<^verbatim>\<open>Pool\<close> a search by identifier.\<close>

definition GateIDs :: "Policy \<Rightarrow> string \<Rightarrow> bool" where
  "GateIDs p g \<longleftrightarrow> g \<in> set (pol_Gates p)"

definition policy_Pool :: "Policy \<Rightarrow> string \<Rightarrow> string option" where
  "policy_Pool p pid = find (\<lambda>q. q = pid) (pol_Pools p)"

subsection \<open>Payloads\<close>

record CreatePayload =
  cp_RequiredRoles :: "(string \<times> string list) list option"
  cp_RequiresPool :: string
  cp_LocalToken :: "string option"
  cp_Title :: string
  cp_Body :: "string option"
  cp_Kind :: string
  cp_Owner :: "string option"
  cp_Milestone :: "string option"
  cp_Priority :: string
  cp_Order :: string
  cp_Labels :: "string list"
  cp_Dependencies :: "Dependency list"
  cp_AcceptanceCriteria :: "string list"
  cp_RequirementRefs :: "string list"
  cp_Source :: Source
  cp_Effects :: Effects
  cp_Capabilities :: "string list"
  cp_RequiredGates :: "string list"
  cp_ExecutionClass :: string
  cp_DueDate :: "string option"
  cp_EstimateMinutes :: "string option"
  cp_Supersedes :: "TicketID option"
  cp_SupersededBy :: "TicketID option"

definition RefineFields :: "string list" where
  "RefineFields = [''acceptanceCriteria'', ''body'', ''dueDate'', ''estimateMinutes'', ''executionPrerequisites'', ''kind'', ''labels'',
     ''milestone'', ''owner'', ''requirementRefs'', ''requiredRoles'', ''requiresPool'', ''supersededBy'', ''supersedes'', ''title'']"

text \<open>\<^verbatim>\<open>Present\<close> is a Go map to true: the list of its keys.\<close>

record RefinePayload =
  rf_ExecutionPrerequisites :: "Prerequisite list"
  rf_RequiredRoles :: "(string \<times> string list) list option"
  rf_RequiresPool :: "string option"
  rf_Present :: "string list"
  rf_Title :: string
  rf_Body :: "string option"
  rf_Kind :: string
  rf_Owner :: "string option"
  rf_Milestone :: "string option"
  rf_Labels :: "string list"
  rf_AcceptanceCriteria :: "string list"
  rf_RequirementRefs :: "string list"
  rf_DueDate :: "string option"
  rf_EstimateMinutes :: "string option"
  rf_Supersedes :: "TicketID option"
  rf_SupersededBy :: "TicketID option"

definition refine_Has :: "RefinePayload \<Rightarrow> string \<Rightarrow> bool" where
  "refine_Has p key \<longleftrightarrow> key \<in> set (rf_Present p)"

definition refine_Keys :: "RefinePayload \<Rightarrow> string list" where
  "refine_Keys p = filter (\<lambda>k. k \<in> set (rf_Present p)) RefineFields"

record GrantApprovalPayload =
  ga_GrantID :: string
  ga_Actor :: string
  ga_Operation :: string
  ga_TargetRevision :: string
  ga_Scope :: "string list"

record KnowHowAddPayload =
  kp_Text :: string
  kp_Anchors :: "KnowHowAnchor list"
  kp_Routes :: "string list"
  kp_Commit :: string
  kp_Supersedes :: "string option"
  kp_Reason :: "string option"
  kp_Attempt :: "string option"
  kp_Generation :: "string option"
  kp_EvidencePath :: "string option"
  kp_Repository :: string

record KnowHowReconfirmPayload =
  kc_Note :: string
  kc_Anchors :: "KnowHowAnchor list"
  kc_Commit :: string
  kc_Attempt :: "string option"
  kc_Generation :: "string option"

text \<open>The payload interface with its implementations.\<close>

datatype Payload =
  CreateP CreatePayload
| RefineP RefinePayload
| PrioritizeP string string
| SetDependenciesP "Dependency list"
| SetGatesP "string list"
| SetEffectsP Effects "string list" string
| HoldP string string "HoldCondition option"
| ReleaseHoldP string
| ReasonP string string
| CompleteManualP string "string list"
| GrantApprovalP GrantApprovalPayload
| RevokeApprovalP string string
| AttachEvidenceP "string list" string
| ProgressSetP ProgressMark
| KnowHowAddP KnowHowAddPayload
| KnowHowRetractP string string
| KnowHowReconfirmP KnowHowReconfirmPayload
| NoteP string string "string option"
| ReviewP string val
| ObligationsP ObligationsPayload

definition payload_operation :: "Payload \<Rightarrow> string" where
  "payload_operation p = (case p of
     CreateP _ \<Rightarrow> OpCreate
   | RefineP _ \<Rightarrow> OpRefine
   | PrioritizeP _ _ \<Rightarrow> OpPrioritize
   | SetDependenciesP _ \<Rightarrow> OpSetDependencies
   | SetGatesP _ \<Rightarrow> OpSetGates
   | SetEffectsP _ _ _ \<Rightarrow> OpSetEffects
   | HoldP _ _ _ \<Rightarrow> OpHold
   | ReleaseHoldP _ \<Rightarrow> OpReleaseHold
   | ReasonP op _ \<Rightarrow> op
   | CompleteManualP _ _ \<Rightarrow> OpCompleteManual
   | GrantApprovalP _ \<Rightarrow> OpGrantApproval
   | RevokeApprovalP _ _ \<Rightarrow> OpRevokeApproval
   | AttachEvidenceP _ _ \<Rightarrow> OpAttachEvidence
   | ProgressSetP _ \<Rightarrow> OpProgressSet
   | KnowHowAddP _ \<Rightarrow> OpKnowHowAdd
   | KnowHowRetractP _ _ \<Rightarrow> OpKnowHowRetract
   | KnowHowReconfirmP _ \<Rightarrow> OpKnowHowReconfirm
   | NoteP op _ _ \<Rightarrow> op
   | ReviewP op _ \<Rightarrow> op
   | ObligationsP q \<Rightarrow> obligations_operation q)"

subsection \<open>Envelope and trusted binding\<close>

record Actor =
  act_ID :: string
  act_Role :: string

record MutationEnvelope =
  me_RequestID :: string
  me_Actor :: Actor
  me_QueueID :: QueueID
  me_TargetID :: "TicketID option"
  me_ExpectedRevision :: "string option"
  me_Operation :: string
  me_Payload :: "Payload option"
  me_IssuedAt :: string
  me_Raw :: string

record Binding =
  bd_ID :: string
  bd_Role :: string

record RetryRecovery =
  rr_TicketID :: string
  rr_AcceptanceRevision :: string
  rr_State :: Observation
  rr_Phase :: string
  rr_Reason :: string

record AttemptProvenance =
  ap_TicketID :: TicketID
  ap_Generation :: string
  ap_Prior :: "string list"
  ap_Live :: bool
  ap_Holder :: string

type_synonym AttemptLedger = "string \<rightharpoonup> AttemptProvenance"

record ExternalReviewPost =
  xp_GateID :: string
  xp_Ref :: ExternalReviewRef
  xp_Event :: "string option"
  xp_Outcome :: string
  xp_Code :: string

text \<open>
  The writer's recomputation of a Playwright report; \<^verbatim>\<open>Eligible\<close> is a map from identifiers, here an
  association list with distinct keys, and no test repository is the empty string.
\<close>

record ObligationReportCheck =
  rc_ReportSha256 :: string
  rc_PlaywrightVersion :: string
  rc_Commit :: string
  rc_IDs :: "string list option"
  rc_Eligible :: "(string \<times> ObligationMatch list) list"
  rc_TestRepository :: string
  rc_TestRepositoryPath :: string

subsection \<open>Outcomes, plans and refusals\<close>

definition OutcomeCompleted :: string where "OutcomeCompleted = ''COMPLETED''"
definition OutcomeRevisionConflict :: string where "OutcomeRevisionConflict = ''REVISION_CONFLICT''"
definition OutcomeValidationFailed :: string where "OutcomeValidationFailed = ''VALIDATION_FAILED''"
definition OutcomeUnauthorized :: string where "OutcomeUnauthorized = ''UNAUTHORIZED''"
definition OutcomeBlocked :: string where "OutcomeBlocked = ''BLOCKED''"
definition OutcomeUnsupported :: string where "OutcomeUnsupported = ''UNSUPPORTED''"
definition OutcomeCapacityExhausted :: string where "OutcomeCapacityExhausted = ''CAPACITY_EXHAUSTED''"
definition OutcomeUncertainEffect :: string where "OutcomeUncertainEffect = ''UNCERTAIN_EFFECT''"
definition OutcomeRequestIDConflict :: string where "OutcomeRequestIDConflict = ''REQUEST_ID_CONFLICT''"
definition OutcomeStorageFailed :: string where "OutcomeStorageFailed = ''STORAGE_FAILED''"

lemmas outcome_defs = OutcomeCompleted_def OutcomeRevisionConflict_def OutcomeValidationFailed_def OutcomeUnauthorized_def
  OutcomeBlocked_def OutcomeUnsupported_def OutcomeCapacityExhausted_def OutcomeUncertainEffect_def OutcomeRequestIDConflict_def
  OutcomeStorageFailed_def

definition Outcomes :: "string list" where
  "Outcomes = [OutcomeCompleted, OutcomeRevisionConflict, OutcomeValidationFailed, OutcomeUnauthorized,
     OutcomeBlocked, OutcomeUnsupported, OutcomeCapacityExhausted, OutcomeUncertainEffect,
     OutcomeRequestIDConflict, OutcomeStorageFailed]"

record Outcome =
  oc_RequestID :: string
  oc_Outcome :: string
  oc_Replayed :: bool
  oc_ResultingRevision :: "string option"
  oc_ResultingAcceptanceRevision :: "string option"
  oc_ReleaseID :: "string option"
  oc_ResultingReleaseRevision :: "string option"
  oc_ReceiptSeq :: "string option"
  oc_Codes :: "string list"

definition zero_Outcome :: Outcome where
  "zero_Outcome = \<lparr>oc_RequestID = [], oc_Outcome = [], oc_Replayed = False, oc_ResultingRevision = None,
     oc_ResultingAcceptanceRevision = None, oc_ReleaseID = None, oc_ResultingReleaseRevision = None, oc_ReceiptSeq = None, oc_Codes = []\<rparr>"

record Plan =
  pn_Outcome :: Outcome
  pn_MutationSha256 :: string
  pn_Pre :: "Record option"
  pn_Post :: "Record option"
  pn_QueuePost :: "Queue option"
  pn_Composed :: "string list"
  pn_DerivedEvent :: "string option"

definition zero_Plan :: Plan where
  "zero_Plan = \<lparr>pn_Outcome = zero_Outcome, pn_MutationSha256 = [], pn_Pre = None, pn_Post = None, pn_QueuePost = None,
     pn_Composed = [], pn_DerivedEvent = None\<rparr>"

definition Planned :: "Plan \<Rightarrow> bool" where
  "Planned p \<longleftrightarrow> oc_Outcome (pn_Outcome p) = OutcomeCompleted \<and> \<not> oc_Replayed (pn_Outcome p) \<and> pn_Post p \<noteq> None"

text \<open>
  What ends a computation early: a refusal with outcome and code, the \<^verbatim>\<open>MaterializeError\<close> panic of a lazily
  held record that cannot be loaded, the panic of a nil pointer that is dereferenced, or a dependency
  search that does not return.
\<close>

datatype stop = Refuse string string | Panic wire_error | NilDeref | Hang

type_synonym 'a planning = "stop + 'a"

definition deref :: "'a option \<Rightarrow> 'a planning" where
  "deref p = (case p of None \<Rightarrow> Inl NilDeref | Some x \<Rightarrow> Inr x)"

definition refuse :: "string \<Rightarrow> string \<Rightarrow> 'a planning" where
  "refuse outcome code = Inl (Refuse outcome code)"

definition refuseErr :: "wire_error \<Rightarrow> 'a planning" where
  "refuseErr e = (if e_Code e = CodeUnsupportedVersion then refuse OutcomeUnsupported (e_Code e)
     else refuse OutcomeValidationFailed (e_Code e))"

definition refused :: "Plan \<Rightarrow> string \<Rightarrow> string \<Rightarrow> Plan" where
  "refused p outcome code = p\<lparr>pn_Outcome := (pn_Outcome p)\<lparr>oc_Outcome := outcome, oc_Replayed := False,
       oc_ResultingRevision := None, oc_ResultingAcceptanceRevision := None, oc_ReceiptSeq := None,
       oc_Codes := (if code \<noteq> [] then [code] else [])\<rparr>,
     pn_Post := None, pn_QueuePost := None, pn_DerivedEvent := None\<rparr>"

definition completed :: "Plan \<Rightarrow> Record \<Rightarrow> Plan" where
  "completed p post = p\<lparr>pn_Outcome := (pn_Outcome p)\<lparr>oc_Outcome := OutcomeCompleted, oc_Replayed := False,
       oc_ResultingRevision := Some (rec_Revision post), oc_ResultingAcceptanceRevision := Some (rec_AcceptanceRevision post),
       oc_ReceiptSeq := None, oc_Codes := []\<rparr>,
     pn_Post := Some post\<rparr>"

text \<open>\<^verbatim>\<open>if r := ...; r != nil { return plan.refused(r) }\<close>: a refusal ends in a plan, the rest goes on.\<close>

definition or_refused :: "Plan \<Rightarrow> 'a planning \<Rightarrow> ('a \<Rightarrow> Plan planning) \<Rightarrow> Plan planning" where
  "or_refused p m f = (case m of
     Inr x \<Rightarrow> f x
   | Inl (Refuse outcome code) \<Rightarrow> Inr (refused p outcome code)
   | Inl s \<Rightarrow> Inl s)"

end
