(* ===== verification/Value_Screen.thy ===== *)
theory Value_Screen
  imports Mutation_Types
begin

text \<open>
  The adopter value screen (\<^verbatim>\<open>internal/tasks/mutation/value_screen.go\<close>): the declared values of a values
  file, the personal-data classes matched by regular expressions, digit boundaries and the Luhn check.
  The regular expressions use ASCII classes, sequence and greedy repetition only; \<open>ends\<close> lists the
  remainders of the matches at the head of a text in the order of preference of \<^verbatim>\<open>regexp\<close>.
\<close>

subsection \<open>Regular expressions\<close>

datatype rx = RCls "char \<Rightarrow> bool" | RSeq rx rx | RRep nat "nat option" rx

text \<open>Between \<open>mn\<close> and \<open>k\<close> repetitions, more of them first; without an upper bound the length of the text bounds them.\<close>

fun rep_ends :: "(string \<Rightarrow> string list) \<Rightarrow> nat \<Rightarrow> nat \<Rightarrow> string \<Rightarrow> string list" where
  "rep_ends body 0 mn s = (if mn = 0 then [s] else [])"
| "rep_ends body (Suc k) mn s = concat (map (rep_ends body k (mn - 1)) (body s)) @ (if mn = 0 then [s] else [])"

primrec ends :: "rx \<Rightarrow> string \<Rightarrow> string list" where
  "ends (RCls p) s = (case s of [] \<Rightarrow> [] | c # cs \<Rightarrow> if p c then [cs] else [])"
| "ends (RSeq a b) s = concat (map (ends b) (ends a s))"
| "ends (RRep mn mx a) s = rep_ends (ends a) (case mx of Some m \<Rightarrow> m | None \<Rightarrow> length s) mn s"

definition rx_seq :: "rx list \<Rightarrow> rx" where
  "rx_seq rs = foldr RSeq (butlast rs) (last rs)"

definition rx_str :: "string \<Rightarrow> rx" where
  "rx_str s = rx_seq (map (\<lambda>c. RCls (\<lambda>x. x = c)) s)"

definition rx_opt :: "rx \<Rightarrow> rx" where "rx_opt r = RRep 0 (Some 1) r"
definition rx_digit :: rx where "rx_digit = RCls is_digit"
definition rx_any :: "string \<Rightarrow> rx" where "rx_any cs = RCls (\<lambda>c. c \<in> set cs)"

definition MatchString :: "rx \<Rightarrow> string \<Rightarrow> bool" where
  "MatchString re s \<longleftrightarrow> list_ex (\<lambda>i. ends re (drop i s) \<noteq> []) [0..<Suc (length s)]"

text \<open>\<^verbatim>\<open>FindAllStringIndex(s, -1)\<close> for an expression that never matches the empty text.\<close>

function find_all :: "rx \<Rightarrow> string \<Rightarrow> nat \<Rightarrow> (nat \<times> nat) list" where
  "find_all re s i =
     (if i > length s then []
      else (case ends re (drop i s) of
          [] \<Rightarrow> find_all re s (Suc i)
        | t # _ \<Rightarrow> (i, length s - length t) # find_all re s (max (Suc i) (length s - length t))))"
  by pat_completeness auto
termination
  by (relation "measure (\<lambda>(re, s, i). Suc (length s) - i)") auto

declare find_all.simps [simp del]

definition alpha :: "char \<Rightarrow> bool" where "alpha c \<longleftrightarrow> is_upper c \<or> is_lower c"

definition envKey :: "string \<Rightarrow> bool" where
  "envKey s \<longleftrightarrow> [] \<in> set (ends (RSeq (RCls (\<lambda>c. alpha c \<or> c = CHR ''_'')) (RRep 0 None (RCls (\<lambda>c. alpha c \<or> is_digit c \<or> c = CHR ''_'')))) s)"

definition emailShape :: rx where
  "emailShape = rx_seq [RRep 1 None (RCls (\<lambda>c. alpha c \<or> is_digit c \<or> c \<in> set ''._%+-'')), rx_any [CHR 0x40],
     RRep 1 None (RCls (\<lambda>c. alpha c \<or> is_digit c \<or> c = CHR ''-'')),
     RRep 0 None (RSeq (rx_any ''.'') (RRep 1 None (RCls (\<lambda>c. alpha c \<or> is_digit c \<or> c = CHR ''-'')))),
     rx_any ''.'', RRep 2 None (RCls alpha)]"

definition phoneShapes :: "rx list" where
  "phoneShapes =
     [rx_seq [rx_any ''+'', rx_digit, RRep 9 (Some 14) (RSeq (rx_opt (rx_any '' .-'')) rx_digit)],
      rx_seq [rx_opt (rx_any ''(''), RRep 3 (Some 3) rx_digit, rx_opt (rx_any '')''), rx_any '' .-'', RRep 3 (Some 3) rx_digit,
        rx_any '' .-'', RRep 4 (Some 4) rx_digit]]"

definition cardShape :: rx where
  "cardShape = RSeq rx_digit (RRep 12 (Some 18) (RSeq (rx_opt (rx_any '' -'')) rx_digit))"

subsection \<open>The values file\<close>

text \<open>\<^verbatim>\<open>strings.TrimSpace\<close>: white space runes are dropped at both ends; at the end \<^verbatim>\<open>utf8.DecodeLastRune\<close> reads backwards.\<close>

function trim_left :: "string \<Rightarrow> string" where
  "trim_left s = (if s \<noteq> [] \<and> space_rune (fst (decode_rune s)) then trim_left (drop (snd (decode_rune s)) s) else s)"
  by pat_completeness auto
termination
  by (relation "measure length") (simp_all add: decode_rune_size_pos)

declare trim_left.simps [simp del]

definition rune_start :: "char \<Rightarrow> bool" where
  "rune_start c \<longleftrightarrow> \<not> cont c"

text \<open>The start of the last rune: the nearest byte, at most four from the end, that starts a rune.\<close>

definition last_start :: "string \<Rightarrow> nat" where
  "last_start s =
     (let n = length s; lim = n - 4
      in (case find (\<lambda>i. rune_start (s ! i)) (rev [lim..<n - 1]) of Some i \<Rightarrow> i | None \<Rightarrow> (if lim = 0 then 0 else lim - 1)))"

definition decode_last_rune :: "string \<Rightarrow> nat \<times> nat" where
  "decode_last_rune s =
     (if s = [] then (RuneError, 0)
      else if bv (last s) < 0x80 then (bv (last s), 1)
      else let start = last_start s; (r, size) = decode_rune (drop start s)
           in if start + size \<noteq> length s then (RuneError, 1) else (r, size))"

lemma find_member: "find P xs = Some x \<Longrightarrow> x \<in> set xs"
  by (induction xs) (auto split: if_splits)

lemma decode_last_rune_size: "s \<noteq> [] \<Longrightarrow> 0 < snd (decode_last_rune s)"
proof -
  assume s: "s \<noteq> []"
  have "decode_rune (drop (last_start s) s) = (r, size) \<Longrightarrow> last_start s + size = length s \<Longrightarrow> 0 < size" for r size
  proof (rule ccontr)
    assume a: "decode_rune (drop (last_start s) s) = (r, size)" "last_start s + size = length s" "\<not> 0 < size"
    have "last_start s < length s"
      using s by (auto simp: last_start_def Let_def dest!: find_member split: option.splits if_splits)
    then show False using a by simp
  qed
  then show ?thesis using s by (auto simp: decode_last_rune_def Let_def split: prod.splits)
qed

function trim_right :: "string \<Rightarrow> string" where
  "trim_right s = (if s \<noteq> [] \<and> space_rune (fst (decode_last_rune s))
     then trim_right (take (length s - snd (decode_last_rune s)) s) else s)"
  by pat_completeness auto
termination
proof (relation "measure length")
  fix s :: string
  assume s: "s \<noteq> [] \<and> space_rune (fst (decode_last_rune s))"
  then have "0 < snd (decode_last_rune s)" "0 < length s" using decode_last_rune_size by simp_all
  then show "(take (length s - snd (decode_last_rune s)) s, s) \<in> measure length" by simp
qed simp

declare trim_right.simps [simp del]

definition TrimSpace :: "string \<Rightarrow> string" where
  "TrimSpace s = trim_right (trim_left s)"

definition TrimPrefix :: "string \<Rightarrow> string \<Rightarrow> string" where
  "TrimPrefix s p = (if HasPrefix s p then drop (length p) s else s)"

definition TrimSuffix :: "string \<Rightarrow> string \<Rightarrow> string" where
  "TrimSuffix s p = (if HasSuffix s p then take (length s - length p) s else s)"

definition MinDenyValueBytes :: nat where "MinDenyValueBytes = 8"

definition unquote :: "string \<Rightarrow> string" where
  "unquote s = (if length s \<ge> 2 \<and> (hd s = CHR 0x22 \<or> hd s = CHR 0x27) \<and> last s = hd s then butlast (tl s) else s)"

definition env_value :: "string \<Rightarrow> string" where
  "env_value s =
     (let i = length (takeWhile (\<lambda>c. c \<noteq> CHR ''='') s)
      in if i < length s \<and> i > 0 \<and> envKey (take i s)
         then (let v = unquote (TrimSpace (drop (i + 1) s)) in if length v \<ge> MinDenyValueBytes then v else s)
         else s)"

definition deny_value :: "string \<Rightarrow> string option" where
  "deny_value line =
     (let s = TrimSpace (TrimSuffix line [CHR 0x0D])
      in if s = [] \<or> HasPrefix s ''#'' then None
         else let s = unquote (env_value (TrimSpace (TrimPrefix s ''export '')))
              in if length s \<ge> MinDenyValueBytes then Some s else None)"

definition ParseDenyValues :: "string \<Rightarrow> string list" where
  "ParseDenyValues raw = List.map_filter deny_value (split_on (CHR 0x0A) raw)"

subsection \<open>The screen\<close>

definition ScreenClassDenyValue :: string where "ScreenClassDenyValue = ''DENY_VALUE''"
definition ScreenClassEmail :: string where "ScreenClassEmail = ''EMAIL''"
definition ScreenClassPhone :: string where "ScreenClassPhone = ''PHONE''"
definition ScreenClassCard :: string where "ScreenClassCard = ''CARD''"

record ValueScreen =
  vs_values :: "string list"
  vs_classes :: "string list"

definition NewValueScreen :: "string \<Rightarrow> string list \<Rightarrow> ValueScreen" where
  "NewValueScreen denyFile classes = \<lparr>vs_values = ParseDenyValues denyFile, vs_classes = classes\<rparr>"

text \<open>\<^verbatim>\<open>luhn\<close>: the loop over the bytes from the last to the first.\<close>

fun luhn_loop :: "string \<Rightarrow> nat \<Rightarrow> bool \<Rightarrow> nat" where
  "luhn_loop [] acc double = acc"
| "luhn_loop (c # cs) acc double =
     (if \<not> is_digit c then luhn_loop cs acc double
      else let d = bv c - bv CHR ''0''; d = (if double then (if d * 2 > 9 then d * 2 - 9 else d * 2) else d)
           in luhn_loop cs (acc + d) (\<not> double))"

definition luhn :: "string \<Rightarrow> bool" where
  "luhn s \<longleftrightarrow> luhn_loop (rev s) 0 False mod 10 = 0"

definition digitBounded :: "string \<Rightarrow> rx \<Rightarrow> (string \<Rightarrow> bool) option \<Rightarrow> bool" where
  "digitBounded s re check \<longleftrightarrow> list_ex (\<lambda>(m0, m1).
     \<not> (m0 > 0 \<and> is_digit (s ! (m0 - 1)) \<or> m1 < length s \<and> is_digit (s ! m1)) \<and>
     (case check of None \<Rightarrow> True | Some f \<Rightarrow> f (drop m0 (take m1 s)))) (find_all re s 0)"

definition class_matches :: "string \<Rightarrow> string \<Rightarrow> bool" where
  "class_matches s c =
     (if c = ScreenClassEmail then MatchString emailShape s
      else if c = ScreenClassPhone then list_ex (\<lambda>re. digitBounded s re None) phoneShapes
      else if c = ScreenClassCard then digitBounded s cardShape (Some luhn)
      else False)"

definition vs_Match :: "ValueScreen option \<Rightarrow> string \<Rightarrow> string" where
  "vs_Match scr s = (case scr of
     None \<Rightarrow> []
   | Some v \<Rightarrow>
      if s = [] then []
      else if list_ex (str_contains s) (vs_values v) then ScreenClassDenyValue
      else (case find (class_matches s) (vs_classes v) of Some c \<Rightarrow> c | None \<Rightarrow> []))"

text \<open>A \<^verbatim>\<open>screenField\<close> is a name with the stored text.\<close>

fun screen_loop :: "ValueScreen option \<Rightarrow> (string \<times> string) list \<Rightarrow> unit planning" where
  "screen_loop scr [] = Inr ()"
| "screen_loop scr ((name, txt) # fs) =
     (if vs_Match scr txt \<noteq> [] then refuse OutcomeValidationFailed CodeSecretDetected else screen_loop scr fs)"

definition screenValues :: "ValueScreen option \<Rightarrow> (string \<times> string) list \<Rightarrow> unit planning" where
  "screenValues scr fs = (if scr = None then Inr () else screen_loop scr fs)"

text \<open>The shared credential screen (\<^verbatim>\<open>internal/secretscreen\<close>) is the parameter \<open>secret\<close>.\<close>

definition noteScreen :: "(string \<Rightarrow> bool) \<Rightarrow> ValueScreen option \<Rightarrow> string \<Rightarrow> unit planning" where
  "noteScreen secret scr txt =
     (if scr = None then Inr ()
      else if secret txt then refuse OutcomeValidationFailed CodeSecretDetected
      else screenValues scr [(''/payload/text'', txt)])"

subsection \<open>Correctness of the scan\<close>

text \<open>The Luhn sum of the digits, counted from the right.\<close>

definition luhn_digit :: "nat \<Rightarrow> nat \<Rightarrow> nat" where
  "luhn_digit i d = (if even i then d else if d < 5 then 2 * d else 2 * d - 9)"

definition digits_rev :: "string \<Rightarrow> nat list" where
  "digits_rev s = map (\<lambda>c. bv c - bv CHR ''0'') (filter is_digit (rev s))"

lemma luhn_loop_sum:
  "luhn_loop cs acc double =
     acc + (\<Sum>i<length (filter is_digit cs). luhn_digit (if double then Suc i else i) (bv (filter is_digit cs ! i) - bv CHR ''0''))"
proof (induction cs arbitrary: acc double)
  case (Cons c cs)
  have two: "(if d * 2 > 9 then d * 2 - 9 else d * 2) = luhn_digit (Suc 0) d" for d :: nat
    by (auto simp: luhn_digit_def)
  have shift: "luhn_digit (Suc (Suc i)) = luhn_digit i" for i
    by (simp add: luhn_digit_def fun_eq_iff)
  have first: "d = luhn_digit 0 d" for d by (simp add: luhn_digit_def)
  show ?case
  proof (cases "is_digit c")
    case True
    then show ?thesis
      using Cons.IH first [of "bv c - bv CHR ''0''"]
      by (cases double) (simp_all add: Let_def two sum.lessThan_Suc_shift shift del: sum.lessThan_Suc)
  qed (use Cons in simp)
qed simp

lemma luhn_eq: "luhn s \<longleftrightarrow> (\<Sum>i<length (digits_rev s). luhn_digit i (digits_rev s ! i)) mod 10 = 0"
  by (simp add: luhn_def luhn_loop_sum digits_rev_def)

lemma deny_value_length: "deny_value line = Some v \<Longrightarrow> MinDenyValueBytes \<le> length v"
  by (auto simp: deny_value_def Let_def split: if_splits)

lemma screen_loop_Inr: "screen_loop scr fs = Inr () \<longleftrightarrow> (\<forall>f\<in>set fs. vs_Match scr (snd f) = [])"
  by (induction scr fs rule: screen_loop.induct) (auto simp: refuse_def)

end
