(* ===== verification/Mutation_Step.thy ===== *)
theory Mutation_Step
  imports Value_Screen
begin

text \<open>
  One operation on a working record (\<^verbatim>\<open>Context.step\<close> of \<^verbatim>\<open>internal/tasks/mutation/apply.go\<close>, with
  \<^verbatim>\<open>know_how.go\<close> and \<^verbatim>\<open>know_how_provenance.go\<close>): the role matrix and the restrictions inside a permitted
  row, the tombstone rule and the status rule and field computation of every payload. The checks run
  in the order of the code, so the first refusal is the one reported.
\<close>

subsection \<open>The context of a mutation\<close>

record IndexEntry =
  ix_RequestID :: string
  ix_MutationSha256 :: string
  ix_Outcome :: Outcome

type_synonym RequestIndex = "string \<Rightarrow> IndexEntry option res"

text \<open>A nil interface or pointer is \<open>None\<close>.\<close>

record MutationContext =
  mc_Binding :: Binding
  mc_Queue :: "Queue option"
  mc_Policy :: "Policy option"
  mc_Inventory :: "Inventory option"
  mc_Attempts :: "attempt_oracle option"
  mc_RetryRecovery :: "RetryRecovery option"
  mc_Requests :: "RequestIndex option"
  mc_Now :: string
  mc_PriorNoteEvent :: string
  mc_ExternalReview :: "ExternalReviewPost option"
  mc_KnowHowAttempts :: "AttemptLedger option"
  mc_ObligationEvents :: "string \<rightharpoonup> string"
  mc_ObligationReport :: "ObligationReportCheck option"
  mc_ObligationReplay :: bool
  mc_Screen :: "ValueScreen option"

text \<open>
  What the planner calls outside the modelled code: SHA-256, the shared credential screen, the loader
  of lazily held records, and the iteration order of the map in \<^verbatim>\<open>validate\<close>.
\<close>

record Externals =
  x_Sum :: "string \<Rightarrow> string"
  x_Secret :: "string \<Rightarrow> bool"
  x_Load :: "Summary \<Rightarrow> Record res"
  x_Flip :: bool

abbreviation ctx_Policy :: "MutationContext \<Rightarrow> Policy" where "ctx_Policy ctx \<equiv> the (mc_Policy ctx)"
abbreviation ctx_Queue :: "MutationContext \<Rightarrow> Queue" where "ctx_Queue ctx \<equiv> the (mc_Queue ctx)"
abbreviation ctx_Inventory :: "MutationContext \<Rightarrow> Inventory" where "ctx_Inventory ctx \<equiv> the (mc_Inventory ctx)"
abbreviation ctx_Role :: "MutationContext \<Rightarrow> string" where "ctx_Role ctx \<equiv> bd_Role (mc_Binding ctx)"
abbreviation ctx_ID :: "MutationContext \<Rightarrow> string" where "ctx_ID ctx \<equiv> bd_ID (mc_Binding ctx)"

text \<open>\<^verbatim>\<open>Inventory.Get\<close> under a loader that answers the same throughout one call: the memo it keeps cannot be observed.\<close>

definition ctx_Get :: "Externals \<Rightarrow> MutationContext \<Rightarrow> string \<Rightarrow> Record option planning" where
  "ctx_Get X ctx raw = (case fst (inv_Get (x_Load X) raw (ctx_Inventory ctx)) of Inl e \<Rightarrow> Inl (Panic e) | Inr r \<Rightarrow> Inr r)"

text \<open>\<^verbatim>\<open>c.Inventory.Get(env.TargetID.Raw)\<close>.\<close>

definition ctx_Target :: "Externals \<Rightarrow> MutationContext \<Rightarrow> MutationEnvelope \<Rightarrow> Record option planning" where
  "ctx_Target X ctx env = rbind (deref (me_TargetID env)) (\<lambda>t. ctx_Get X ctx (t_Raw t))"

definition require :: "bool \<Rightarrow> string \<Rightarrow> string \<Rightarrow> unit planning" where
  "require ok outcome code = (if ok then Inr () else refuse outcome code)"

subsection \<open>The role matrix\<close>

definition permittedOps :: "MutationContext \<Rightarrow> string \<Rightarrow> string list" where
  "permittedOps ctx role =
     (case pol_Roles (ctx_Policy ctx) role of
        Some ops \<Rightarrow> ops
      | None \<Rightarrow>
          if role = ''WORKER''
          then DefaultRoleMatrix role @
            (if WorkerKnowHowAdd (ctx_Policy ctx) then [OpKnowHowAdd] else []) @
            (if WorkerObligationWitness (ctx_Policy ctx) then [OpObligationsWitness] else [])
          else DefaultRoleMatrix role)"

definition checkRole :: "MutationContext \<Rightarrow> string \<Rightarrow> unit planning" where
  "checkRole ctx op = require (op \<in> set (permittedOps ctx (ctx_Role ctx))) OutcomeUnauthorized []"

subsection \<open>Know-how writes\<close>

fun generation_loop :: "string \<Rightarrow> string list \<Rightarrow> bool" where
  "generation_loop g [] = False"
| "generation_loop g (h # hs) = (if g = h then True else generation_loop g hs)"

definition CheckKnowHowProvenance :: "AttemptLedger option \<Rightarrow> TicketID \<Rightarrow> string option \<Rightarrow> string option \<Rightarrow> unit res" where
  "CheckKnowHowProvenance ledger home attempt generation =
     (case attempt of
        None \<Rightarrow> (if generation = None then Inr () else Inl (Errorf CodeProvenanceUnverified ''/payload/generation''))
      | Some at \<Rightarrow> (case ledger of
          None \<Rightarrow> Inl (Errorf CodeProvenanceUnverified ''/payload/attempt'')
        | Some l \<Rightarrow> (case l at of
            None \<Rightarrow> Inl (Errorf CodeProvenanceUnverified ''/payload/attempt'')
          | Some a \<Rightarrow>
              if t_Raw (ap_TicketID a) \<noteq> t_Raw home then Inl (Errorf CodeProvenanceUnverified ''/payload/attempt'')
              else (case generation of
                  None \<Rightarrow> Inr ()
                | Some g \<Rightarrow> if g = ap_Generation a \<or> generation_loop g (ap_Prior a) then Inr ()
                            else Inl (Errorf CodeProvenanceUnverified ''/payload/generation'')))))"

definition err_refused :: "'a res \<Rightarrow> 'a planning" where
  "err_refused x = (case x of Inl e \<Rightarrow> refuseErr e | Inr v \<Rightarrow> Inr v)"

fun anchors_covered :: "string list \<Rightarrow> KnowHowAnchor list \<Rightarrow> unit planning" where
  "anchors_covered touch [] = Inr ()"
| "anchors_covered touch (an # ans) =
     (if list_ex (\<lambda>tp. PathCovers tp (ka_Path an)) touch then anchors_covered touch ans
      else refuse OutcomeBlocked CodeOutOfScope)"

text \<open>\<^verbatim>\<open>ctx.KnowHowAttempts[*p.Attempt]\<close> after the provenance check found it.\<close>

definition ledger_entry :: "MutationContext \<Rightarrow> string \<Rightarrow> AttemptProvenance" where
  "ledger_entry ctx at = the (the (mc_KnowHowAttempts ctx) at)"

definition workerKnowHowScope :: "MutationContext \<Rightarrow> Record \<Rightarrow> KnowHowAddPayload \<Rightarrow> unit planning" where
  "workerKnowHowScope ctx work p =
     (if kp_Supersedes p \<noteq> None then refuse OutcomeUnauthorized []
      else if kp_Attempt p = None \<or> kp_Generation p = None then refuse OutcomeValidationFailed CodeMalformed
      else rbind (err_refused (CheckKnowHowProvenance (mc_KnowHowAttempts ctx) (rec_TicketID work) (kp_Attempt p) (kp_Generation p))) (\<lambda>_.
        let a = ledger_entry ctx (the (kp_Attempt p))
        in if \<not> ap_Live a \<or> ap_Holder a = [] \<or> ap_Generation a \<noteq> the (kp_Generation p)
           then refuse OutcomeRevisionConflict CodeFenced
           else if ap_Holder a \<noteq> ctx_ID ctx then refuse OutcomeUnauthorized []
           else anchors_covered (ef_TouchPaths (rec_Effects work)) (kp_Anchors p)))"

definition knowHowEffectivePins :: "KnowHowEntry list \<Rightarrow> string \<Rightarrow> KnowHowAnchor list" where
  "knowHowEffectivePins entries note1 =
     fold (\<lambda>k pins. if (kh_Operation k = KnowHowAdd \<and> kh_Seq k = note1) \<or> (kh_Operation k = KnowHowReconfirm \<and> kh_Note k = note1)
        then kh_Anchors k else pins) entries []"

definition screenKnowHowPaths :: "(string \<Rightarrow> bool) \<Rightarrow> KnowHowAnchor list \<Rightarrow> string list \<Rightarrow> string option \<Rightarrow> unit planning" where
  "screenKnowHowPaths secret anchors routes evidencePath =
     (let extra = routes @ concat (map (\<lambda>a. ka_Path a # (if ka_Symbol a \<noteq> [] then [ka_Symbol a] else [])) anchors) @
        (case evidencePath of None \<Rightarrow> [] | Some p \<Rightarrow> [p])
      in require (\<not> list_ex secret extra) OutcomeValidationFailed CodeSecretDetected)"

text \<open>The named free-text fields are the text and the reason, in this order.\<close>

definition named_fields :: "string option \<Rightarrow> string option \<Rightarrow> (string \<times> string) list" where
  "named_fields txt reason =
     (case txt of None \<Rightarrow> [] | Some t \<Rightarrow> [(''text'', t)]) @ (case reason of None \<Rightarrow> [] | Some r \<Rightarrow> [(''reason'', r)])"

definition screenKnowHow :: "(string \<Rightarrow> bool) \<Rightarrow> (string \<times> string) list \<Rightarrow> KnowHowAddPayload option \<Rightarrow> unit planning" where
  "screenKnowHow secret fs add =
     (if list_ex (\<lambda>(n, s). secret s) fs then refuse OutcomeValidationFailed CodeSecretDetected
      else (case add of None \<Rightarrow> Inr () | Some p \<Rightarrow> screenKnowHowPaths secret (kp_Anchors p) (kp_Routes p) (kp_EvidencePath p)))"

definition knowHowScreenFields ::
  "(string \<times> string) list \<Rightarrow> KnowHowAnchor list \<Rightarrow> string list \<Rightarrow> string option \<Rightarrow> (string \<times> string) list" where
  "knowHowScreenFields fs anchors routes evidencePath =
     map (\<lambda>(n, s). (''/payload/'' @ n, s)) fs @ map (\<lambda>r. (''/payload/routes'', r)) routes @
     concat (map (\<lambda>a. [(''/payload/anchors'', ka_Path a), (''/payload/anchors'', ka_Symbol a)]) anchors) @
     (case evidencePath of None \<Rightarrow> [] | Some p \<Rightarrow> [(''/payload/evidencePath'', p)])"

definition isLive :: "string \<Rightarrow> bool" where
  "isLive status \<longleftrightarrow> status = StatusDraft \<or> status = StatusOpen \<or> status = StatusHeld"

definition fresh_entry :: "MutationContext \<Rightarrow> Record \<Rightarrow> KnowHowEntry" where
  "fresh_entry ctx work = \<lparr>kh_Seq = CountOf (int (length (rec_KnowHow work) + 1)), kh_Operation = [], kh_Text = [], kh_Anchors = [],
     kh_Routes = [], kh_Commit = [], kh_Supersedes = None, kh_Attempt = None, kh_Generation = None, kh_EvidencePath = None,
     kh_Note = [], kh_Reason = None, kh_Repository = [], kh_ActorID = ctx_ID ctx, kh_ActorRole = ctx_Role ctx,
     kh_RecordedAt = mc_Now ctx\<rparr>"

definition add_entry :: "Externals \<Rightarrow> MutationContext \<Rightarrow> Record \<Rightarrow> KnowHowAddPayload \<Rightarrow> KnowHowEntry planning" where
  "add_entry X ctx work p =
     (let fs = named_fields (Some (kp_Text p)) (kp_Reason p)
      in rbind (require (case kp_Supersedes p of None \<Rightarrow> True | Some n \<Rightarrow> n \<in> set (KnowHowActiveSeqs (rec_KnowHow work)))
           OutcomeValidationFailed CodeMalformed) (\<lambda>_.
         rbind (screenKnowHow (x_Secret X) fs (Some p)) (\<lambda>_.
         rbind (screenValues (mc_Screen ctx) (knowHowScreenFields fs (kp_Anchors p) (kp_Routes p) (kp_EvidencePath p))) (\<lambda>_.
         rbind (err_refused (CheckKnowHowProvenance (mc_KnowHowAttempts ctx) (rec_TicketID work) (kp_Attempt p) (kp_Generation p))) (\<lambda>_.
           Inr ((fresh_entry ctx work)\<lparr>kh_Operation := KnowHowAdd, kh_Text := kp_Text p, kh_Anchors := kp_Anchors p,
             kh_Routes := kp_Routes p, kh_Commit := kp_Commit p, kh_Supersedes := kp_Supersedes p, kh_Reason := kp_Reason p,
             kh_Attempt := kp_Attempt p, kh_Generation := kp_Generation p, kh_EvidencePath := kp_EvidencePath p,
             kh_Repository := kp_Repository p\<rparr>))))))"

definition retract_entry :: "Externals \<Rightarrow> MutationContext \<Rightarrow> Record \<Rightarrow> string \<Rightarrow> string \<Rightarrow> KnowHowEntry planning" where
  "retract_entry X ctx work note1 reason =
     rbind (require (note1 \<in> set (KnowHowActiveSeqs (rec_KnowHow work))) OutcomeValidationFailed CodeMalformed) (\<lambda>_.
     rbind (screenKnowHow (x_Secret X) (named_fields None (Some reason)) None) (\<lambda>_.
     rbind (screenValues (mc_Screen ctx) [(''/payload/reason'', reason)]) (\<lambda>_.
       Inr ((fresh_entry ctx work)\<lparr>kh_Operation := KnowHowRetract, kh_Note := note1, kh_Reason := Some reason\<rparr>))))"

definition reconfirm_entry :: "Externals \<Rightarrow> MutationContext \<Rightarrow> Record \<Rightarrow> KnowHowReconfirmPayload \<Rightarrow> KnowHowEntry planning" where
  "reconfirm_entry X ctx work p =
     rbind (require (kc_Note p \<in> set (KnowHowActiveSeqs (rec_KnowHow work))) OutcomeValidationFailed CodeMalformed) (\<lambda>_.
     rbind (require (KnowHowReconfirmRefusal (knowHowEffectivePins (rec_KnowHow work) (kc_Note p)) (kc_Anchors p) = [])
       OutcomeValidationFailed CodeMalformed) (\<lambda>_.
     rbind (screenKnowHowPaths (x_Secret X) (kc_Anchors p) [] None) (\<lambda>_.
     rbind (screenValues (mc_Screen ctx) (knowHowScreenFields [] (kc_Anchors p) [] None)) (\<lambda>_.
     rbind (err_refused (CheckKnowHowProvenance (mc_KnowHowAttempts ctx) (rec_TicketID work) (kc_Attempt p) (kc_Generation p))) (\<lambda>_.
       Inr ((fresh_entry ctx work)\<lparr>kh_Operation := KnowHowReconfirm, kh_Note := kc_Note p, kh_Anchors := kc_Anchors p,
         kh_Commit := kc_Commit p, kh_Attempt := kc_Attempt p, kh_Generation := kc_Generation p\<rparr>))))))"

definition knowHowStep :: "Externals \<Rightarrow> MutationContext \<Rightarrow> Record \<Rightarrow> (Record \<Rightarrow> KnowHowEntry planning) \<Rightarrow> Record planning" where
  "knowHowStep X ctx work entry =
     (if \<not> isLive (rec_Status work) then refuse OutcomeBlocked CodeTicketState
      else if s_Kind (rec_Source work) \<noteq> ''NATIVE'' then refuse OutcomeBlocked CodeTicketState
      else if length (rec_KnowHow work) \<ge> KnowHowMaxEntries then refuse OutcomeValidationFailed CodeLimitExceeded
      else rbind (entry work) (\<lambda>e. Inr (work\<lparr>rec_KnowHow := rec_KnowHow work @ [e]\<rparr>)))"

subsection \<open>The payloads\<close>

definition opens :: "Record \<Rightarrow> bool" where
  "opens rec \<longleftrightarrow> length (rec_AcceptanceCriteria rec) > 0 \<or> rec_Kind rec = ''MANUAL'' \<or> rec_Kind rec = ''EXTERNAL''"

definition when_has :: "RefinePayload \<Rightarrow> string \<Rightarrow> 'a \<Rightarrow> 'a \<Rightarrow> 'a" where
  "when_has p key new old = (if refine_Has p key then new else old)"

definition refine_fields :: "RefinePayload \<Rightarrow> Record \<Rightarrow> Record" where
  "refine_fields p w = w\<lparr>
     rec_ExecutionPrerequisites := when_has p ''executionPrerequisites'' (rf_ExecutionPrerequisites p) (rec_ExecutionPrerequisites w),
     rec_RequiredRoles := when_has p ''requiredRoles'' (rf_RequiredRoles p) (rec_RequiredRoles w),
     rec_RequiresPool := when_has p ''requiresPool'' (case rf_RequiresPool p of None \<Rightarrow> [] | Some s \<Rightarrow> s) (rec_RequiresPool w),
     rec_Title := when_has p ''title'' (rf_Title p) (rec_Title w),
     rec_Body := when_has p ''body'' (rf_Body p) (rec_Body w),
     rec_Kind := when_has p ''kind'' (rf_Kind p) (rec_Kind w),
     rec_Owner := when_has p ''owner'' (rf_Owner p) (rec_Owner w),
     rec_Milestone := when_has p ''milestone'' (rf_Milestone p) (rec_Milestone w),
     rec_Labels := when_has p ''labels'' (rf_Labels p) (rec_Labels w),
     rec_AcceptanceCriteria := when_has p ''acceptanceCriteria'' (rf_AcceptanceCriteria p) (rec_AcceptanceCriteria w),
     rec_RequirementRefs := when_has p ''requirementRefs'' (rf_RequirementRefs p) (rec_RequirementRefs w),
     rec_DueDate := when_has p ''dueDate'' (rf_DueDate p) (rec_DueDate w),
     rec_EstimateMinutes := when_has p ''estimateMinutes'' (rf_EstimateMinutes p) (rec_EstimateMinutes w),
     rec_Supersedes := when_has p ''supersedes'' (rf_Supersedes p) (rec_Supersedes w),
     rec_SupersededBy := when_has p ''supersededBy'' (rf_SupersededBy p) (rec_SupersededBy w)\<rparr>"

definition step_refine :: "MutationContext \<Rightarrow> Record \<Rightarrow> RefinePayload \<Rightarrow> Record planning" where
  "step_refine ctx work p =
     (if refine_Has p ''milestone'' \<and> rf_Milestone p = None \<and> MilestoneRequired (ctx_Policy ctx)
      then refuse OutcomeValidationFailed CodeMilestoneRequired
      else let w = refine_fields p work
           in Inr (if rec_Status w = StatusDraft \<and> opens w then w\<lparr>rec_Status := StatusOpen\<rparr> else w))"

text \<open>The three replacements that need a live status.\<close>

definition live_only :: "Record \<Rightarrow> (Record \<Rightarrow> Record) \<Rightarrow> Record planning" where
  "live_only work f = (if \<not> isLive (rec_Status work) then refuse OutcomeBlocked CodeTicketState else Inr (f work))"

definition step_hold :: "MutationContext \<Rightarrow> Record \<Rightarrow> string \<Rightarrow> string \<Rightarrow> HoldCondition option \<Rightarrow> Record planning" where
  "step_hold ctx work hid reason cond1 =
     (if rec_Status work \<noteq> StatusOpen \<and> rec_Status work \<noteq> StatusHeld then refuse OutcomeBlocked CodeTicketState
      else if list_ex (\<lambda>h. h_HoldID h = hid) (rec_Holds work) then refuse OutcomeValidationFailed CodeDuplicateID
      else if length (rec_Holds work) \<ge> MaxHolds then refuse OutcomeValidationFailed CodeLimitExceeded
      else Inr (work\<lparr>rec_Holds := rec_Holds work @ [\<lparr>h_HoldID = hid, h_Actor = ctx_ID ctx, h_Reason = reason,
          h_PlacedAt = mc_Now ctx, h_Condition = cond1\<rparr>], rec_Status := StatusHeld\<rparr>))"

text \<open>The scans that keep the last index whose entry matches.\<close>

definition last_index :: "('a \<Rightarrow> bool) \<Rightarrow> 'a list \<Rightarrow> nat option" where
  "last_index P xs = find (\<lambda>i. P (xs ! i)) (rev [0..<length xs])"

definition step_release :: "Record \<Rightarrow> string \<Rightarrow> Record planning" where
  "step_release work hid =
     (if rec_Status work \<noteq> StatusHeld then refuse OutcomeBlocked CodeTicketState
      else (case last_index (\<lambda>h. h_HoldID h = hid) (rec_Holds work) of
          None \<Rightarrow> refuse OutcomeValidationFailed CodeMalformed
        | Some i \<Rightarrow> let holds = take i (rec_Holds work) @ drop (i + 1) (rec_Holds work)
            in Inr (work\<lparr>rec_Holds := holds, rec_Status := (if holds = [] then StatusOpen else rec_Status work)\<rparr>)))"

definition recovery_ok :: "MutationContext \<Rightarrow> Record \<Rightarrow> bool" where
  "recovery_ok ctx work = (case mc_RetryRecovery ctx of
     None \<Rightarrow> False
   | Some r \<Rightarrow> rr_State r = Satisfied \<and> rr_TicketID r = t_Raw (rec_TicketID work) \<and>
       rr_AcceptanceRevision r = rec_AcceptanceRevision work \<and> (rr_Phase r = ''FAILED'' \<or> rr_Phase r = ''CANCELLED''))"

definition step_reopen :: "MutationContext \<Rightarrow> Record \<Rightarrow> string \<Rightarrow> Record planning" where
  "step_reopen ctx work reason =
     rbind (if rec_Status work = StatusOpen then
              (if ctx_Role ctx \<noteq> ''OWNER'' then refuse OutcomeUnauthorized []
               else if TrimSpace reason = [] then refuse OutcomeValidationFailed CodeMalformed
               else if \<not> recovery_ok ctx work then refuse OutcomeBlocked CodeTicketState
               else Inr ())
            else if rec_Status work \<noteq> StatusCompleted then refuse OutcomeBlocked CodeTicketState
            else Inr ()) (\<lambda>_.
       Inr (work\<lparr>rec_Completion := None, rec_Status := StatusOpen\<rparr>))"

definition step_reason :: "MutationContext \<Rightarrow> Record \<Rightarrow> string \<Rightarrow> string \<Rightarrow> Record planning" where
  "step_reason ctx work op reason =
     (if op = OpReopen then step_reopen ctx work reason
      else if op = OpArchive then Inr (work\<lparr>rec_ArchivedFrom := Some (rec_Status work), rec_Status := StatusArchived\<rparr>)
      else if op = OpRestore then
        (case rec_ArchivedFrom work of
           None \<Rightarrow> refuse OutcomeBlocked CodeTicketState
         | Some from1 \<Rightarrow>
             if rec_Status work \<noteq> StatusArchived then refuse OutcomeBlocked CodeTicketState
             else Inr (work\<lparr>rec_Status := from1, rec_ArchivedFrom := None\<rparr>))
      else refuse OutcomeValidationFailed CodeMalformed)"

definition step_complete :: "MutationContext \<Rightarrow> Record \<Rightarrow> string \<Rightarrow> string list \<Rightarrow> Record planning" where
  "step_complete ctx work reason evidence =
     (if rec_Status work \<noteq> StatusOpen then refuse OutcomeBlocked CodeTicketState
      else Inr (work\<lparr>rec_Completion := Some \<lparr>c_Kind = ''MANUAL'', c_Actor = ctx_ID ctx, c_Reason = Some reason,
          c_Evidence = evidence, c_ManifestSha256 = None, c_RecordedAt = mc_Now ctx\<rparr>, rec_Status := StatusCompleted\<rparr>))"

definition step_attach :: "MutationContext \<Rightarrow> Record \<Rightarrow> string list \<Rightarrow> string \<Rightarrow> Record planning" where
  "step_attach ctx work evidence reason =
     (if rec_Status work \<noteq> StatusOpen then refuse OutcomeBlocked CodeTicketState
      else if s_Kind (rec_Source work) \<noteq> ''NATIVE'' then refuse OutcomeBlocked CodeTicketState
      else if list_ex (AttachedAt (rec_AttachedEvidence work) (rec_AcceptanceRevision work)) evidence
        then refuse OutcomeValidationFailed CodeDuplicateID
      else if length (rec_AttachedEvidence work) \<ge> AttachedEvidenceMaxEntries then refuse OutcomeValidationFailed CodeLimitExceeded
      else Inr (work\<lparr>rec_AttachedEvidence := rec_AttachedEvidence work @ [\<lparr>ae_AcceptanceRevision = rec_AcceptanceRevision work,
          ae_Actor = ctx_ID ctx, ae_Evidence = evidence, ae_Reason = reason, ae_RecordedAt = mc_Now ctx\<rparr>]\<rparr>))"

definition step_progress :: "MutationContext \<Rightarrow> Record \<Rightarrow> ProgressMark \<Rightarrow> Record planning" where
  "step_progress ctx work mark =
     (if \<not> Live (rec_Status work) then refuse OutcomeBlocked CodeTicketState
      else if s_Kind (rec_Source work) \<noteq> ''NATIVE'' then refuse OutcomeBlocked CodeTicketState
      else if rec_Progress work \<noteq> [] \<and> ProgressMark_Equal (last (rec_Progress work)) mark
        then refuse OutcomeValidationFailed CodeDuplicateID
      else if length (rec_Progress work) \<ge> ProgressMaxEntries then refuse OutcomeValidationFailed CodeLimitExceeded
      else Inr (work\<lparr>rec_Progress := rec_Progress work @
          [ProgressMark.extend mark \<lparr>pr_Actor = ctx_ID ctx, pr_RecordedAt = mc_Now ctx\<rparr>]\<rparr>))"

definition step_grant :: "MutationContext \<Rightarrow> Record \<Rightarrow> GrantApprovalPayload \<Rightarrow> Record planning" where
  "step_grant ctx work p =
     (if ga_Actor p \<noteq> ctx_ID ctx then refuse OutcomeUnauthorized []
      else if ga_TargetRevision p \<noteq> rec_AcceptanceRevision work then refuse OutcomeValidationFailed CodeMalformed
      else if list_ex (\<lambda>a. a_GrantID a = ga_GrantID p) (rec_Approvals work) then refuse OutcomeValidationFailed CodeDuplicateID
      else if length (rec_Approvals work) \<ge> MaxApprovals then refuse OutcomeValidationFailed CodeLimitExceeded
      else Inr (work\<lparr>rec_Approvals := rec_Approvals work @ [\<lparr>a_GrantID = ga_GrantID p, a_Actor = ga_Actor p,
          a_Operation = ga_Operation p, a_TargetRevision = ga_TargetRevision p, a_Scope = ga_Scope p, a_Revoked = False,
          a_GrantedAt = mc_Now ctx\<rparr>]\<rparr>))"

definition step_revoke :: "Record \<Rightarrow> string \<Rightarrow> Record planning" where
  "step_revoke work gid =
     (case last_index (\<lambda>a. a_GrantID a = gid) (rec_Approvals work) of
        None \<Rightarrow> refuse OutcomeValidationFailed CodeMalformed
      | Some i \<Rightarrow>
          if a_Revoked (rec_Approvals work ! i) then refuse OutcomeValidationFailed CodeMalformed
          else Inr (work\<lparr>rec_Approvals := (rec_Approvals work)[i := (rec_Approvals work ! i)\<lparr>a_Revoked := True\<rparr>]\<rparr>))"

definition step_payload :: "Externals \<Rightarrow> MutationContext \<Rightarrow> Record \<Rightarrow> Payload \<Rightarrow> Record planning" where
  "step_payload X ctx work p = (case p of
     RefineP r \<Rightarrow> step_refine ctx work r
   | PrioritizeP pr od \<Rightarrow> Inr (work\<lparr>rec_Priority := pr, rec_Order := od\<rparr>)
   | SetDependenciesP ds \<Rightarrow> live_only work (\<lambda>w. w\<lparr>rec_Dependencies := ds\<rparr>)
   | SetGatesP gs \<Rightarrow> live_only work (\<lambda>w. w\<lparr>rec_RequiredGates := gs\<rparr>)
   | SetEffectsP ef ca ec \<Rightarrow> live_only work (\<lambda>w. w\<lparr>rec_Effects := ef, rec_Capabilities := ca, rec_ExecutionClass := ec\<rparr>)
   | HoldP hid reason c \<Rightarrow> step_hold ctx work hid reason c
   | ReleaseHoldP hid \<Rightarrow> step_release work hid
   | ReasonP op reason \<Rightarrow> step_reason ctx work op reason
   | CompleteManualP reason evidence \<Rightarrow> step_complete ctx work reason evidence
   | AttachEvidenceP evidence reason \<Rightarrow> step_attach ctx work evidence reason
   | ProgressSetP mark \<Rightarrow> step_progress ctx work mark
   | KnowHowAddP k \<Rightarrow> knowHowStep X ctx work (\<lambda>w. add_entry X ctx w k)
   | KnowHowRetractP n reason \<Rightarrow> knowHowStep X ctx work (\<lambda>w. retract_entry X ctx w n reason)
   | KnowHowReconfirmP k \<Rightarrow> knowHowStep X ctx work (\<lambda>w. reconfirm_entry X ctx w k)
   | GrantApprovalP g \<Rightarrow> step_grant ctx work g
   | RevokeApprovalP gid reason \<Rightarrow> step_revoke work gid
   | _ \<Rightarrow> refuse OutcomeValidationFailed CodeMalformed)"

subsection \<open>The step\<close>

text \<open>The restrictions inside a permitted row of the matrix.\<close>

definition role_limits :: "MutationContext \<Rightarrow> Record \<Rightarrow> Payload \<Rightarrow> unit planning" where
  "role_limits ctx work p =
     (let role = ctx_Role ctx
      in if role = ''WORKER'' then
           (case p of
              KnowHowAddP k \<Rightarrow> workerKnowHowScope ctx work k
            | RefineP r \<Rightarrow> require (length (rf_Present r) = 1 \<and> refine_Has r ''body'') OutcomeUnauthorized []
            | _ \<Rightarrow> refuse OutcomeUnauthorized [])
         else if role = ''IMPORTER'' then require (s_Kind (rec_Source work) = ''IMPORT'') OutcomeUnauthorized []
         else if role = ''SYSTEM'' then
           (case p of HoldP hid _ _ \<Rightarrow> require (hid = ''ESCALATED'') OutcomeUnauthorized [] | _ \<Rightarrow> refuse OutcomeUnauthorized [])
         else if role = ''OPERATOR'' then
           (case p of GrantApprovalP g \<Rightarrow> require (ga_Operation g \<noteq> ''ADJUDICATE'') OutcomeUnauthorized [] | _ \<Rightarrow> Inr ())
         else if role = ''REVIEWER'' then refuse OutcomeUnauthorized []
         else Inr ())"

definition step :: "Externals \<Rightarrow> MutationContext \<Rightarrow> Record \<Rightarrow> Payload \<Rightarrow> Record planning" where
  "step X ctx work p =
     (let op = payload_operation p
      in rbind (checkRole ctx op) (\<lambda>_.
         rbind (role_limits ctx work p) (\<lambda>_.
           if rec_Status work = StatusArchived \<and> op \<noteq> OpRestore then refuse OutcomeBlocked CodeTicketState
           else step_payload X ctx work p)))"

end
