(* ===== verification/Mutation_Final.thy ===== *)
theory Mutation_Final
  imports Mutation_Step
begin

text \<open>
  The end of every change to a record (\<^verbatim>\<open>internal/tasks/mutation/apply.go\<close>): the working copy, the checks
  against the inventory and the policy, the chain fields set once per plan and the revalidation of the
  post record; with it the two changes that are not envelope operations (\<^verbatim>\<open>verified.go\<close>) and the review
  operations (\<^verbatim>\<open>external_review.go\<close>). The lemmas state exactly which chain fields an accepted change sets.
\<close>

subsection \<open>Definitions\<close>

definition clone :: "Externals \<Rightarrow> Record \<Rightarrow> Record res" where
  "clone X r = FromValue (x_Flip X) (Record_Value r)"

text \<open>A member by key; a missing member is the zero \<^verbatim>\<open>Value\<close>, which is null.\<close>

definition get_or_null :: "object \<Rightarrow> string \<Rightarrow> val" where
  "get_or_null o1 k = (case obj_Get o1 k of None \<Rightarrow> VNull | Some v \<Rightarrow> v)"

definition fieldChanged :: "Record \<Rightarrow> Record \<Rightarrow> string \<Rightarrow> bool" where
  "fieldChanged pre post field \<longleftrightarrow> \<not> val_Equal (get_or_null (record_members pre) field) (get_or_null (record_members post) field)"

definition acceptanceChanged :: "Record \<Rightarrow> Record \<Rightarrow> bool" where
  "acceptanceChanged pre post \<longleftrightarrow> list_ex (fieldChanged pre post) AcceptanceRelevantFields"

fun prerequisite_loop :: "Externals \<Rightarrow> MutationContext \<Rightarrow> Prerequisite list \<Rightarrow> unit planning" where
  "prerequisite_loop X ctx [] = Inr ()"
| "prerequisite_loop X ctx (p # ps) =
     rbind (ctx_Get X ctx (t_Raw (p_TicketID p))) (\<lambda>r.
       if r = None then refuse OutcomeValidationFailed CodeDependencyMissing
       else if (case p_GateID p of None \<Rightarrow> False | Some g \<Rightarrow> \<not> GateIDs (ctx_Policy ctx) g) then refuse OutcomeValidationFailed CodeGateUnknown
       else prerequisite_loop X ctx ps)"

definition checkPrerequisites :: "Externals \<Rightarrow> MutationContext \<Rightarrow> Record \<Rightarrow> unit planning" where
  "checkPrerequisites X ctx work = prerequisite_loop X ctx (rec_ExecutionPrerequisites work)"

definition check_gates :: "MutationContext \<Rightarrow> Record \<Rightarrow> unit planning" where
  "check_gates ctx work =
     require (list_all (GateIDs (ctx_Policy ctx)) (rec_RequiredGates work) \<and>
       list_all (\<lambda>d. case d_GateID d of None \<Rightarrow> True | Some g \<Rightarrow> GateIDs (ctx_Policy ctx) g) (rec_Dependencies work))
       OutcomeValidationFailed CodeGateUnknown"

definition check_dependencies :: "MutationContext \<Rightarrow> Record \<Rightarrow> unit planning" where
  "check_dependencies ctx work =
     (case CheckDependencies (ctx_Inventory ctx) work of None \<Rightarrow> Inl Hang | Some r \<Rightarrow> err_refused r)"

definition check_supersedes :: "Externals \<Rightarrow> MutationContext \<Rightarrow> Record \<Rightarrow> unit planning" where
  "check_supersedes X ctx work =
     (case rec_Supersedes work of
        None \<Rightarrow> Inr ()
      | Some t \<Rightarrow> rbind (ctx_Get X ctx (t_Raw t)) (\<lambda>r. require (r \<noteq> None) OutcomeValidationFailed CodeDependencyMissing))"

definition check_superseded :: "Externals \<Rightarrow> MutationContext \<Rightarrow> Record \<Rightarrow> unit planning" where
  "check_superseded X ctx work =
     (case rec_SupersededBy work of
        None \<Rightarrow> Inr ()
      | Some t \<Rightarrow>
          if t_Raw t = t_Raw (rec_TicketID work) then refuse OutcomeValidationFailed CodeMalformed
          else rbind (ctx_Get X ctx (t_Raw t)) (\<lambda>r. require (r \<noteq> None) OutcomeValidationFailed CodeDependencyMissing))"

definition only_if :: "bool \<Rightarrow> unit planning \<Rightarrow> unit planning" where
  "only_if b m = (if b then m else Inr ())"

text \<open>Whether a field of a new record, or one that differs from the canonical record, has to be checked.\<close>

definition changed :: "Record option \<Rightarrow> Record \<Rightarrow> string \<Rightarrow> bool" where
  "changed pre work field = (case pre of None \<Rightarrow> True | Some p \<Rightarrow> fieldChanged p work field)"

definition checkRecord :: "Externals \<Rightarrow> MutationContext \<Rightarrow> Record option \<Rightarrow> Record \<Rightarrow> unit planning" where
  "checkRecord X ctx pre work =
     rbind (require (rec_RequiresPool work = [] \<or> policy_Pool (ctx_Policy ctx) (rec_RequiresPool work) \<noteq> None)
       OutcomeValidationFailed CodeMalformed) (\<lambda>_.
     let depsChanged = changed pre work ''dependencies''; gatesChanged = changed pre work ''requiredGates''
     in rbind (only_if depsChanged (check_dependencies ctx work)) (\<lambda>_.
        rbind (only_if (depsChanged \<or> gatesChanged) (check_gates ctx work)) (\<lambda>_.
        rbind (only_if (changed pre work ''executionPrerequisites'') (checkPrerequisites X ctx work)) (\<lambda>_.
        rbind (only_if (changed pre work ''supersedes'') (check_supersedes X ctx work)) (\<lambda>_.
          only_if (changed pre work ''supersededBy'') (check_superseded X ctx work))))))"

definition revalidate :: "Externals \<Rightarrow> Record \<Rightarrow> unit planning" where
  "revalidate X work =
     (case FromValue (x_Flip X) (Record_Value work) of
        Inl e \<Rightarrow> refuseErr e
      | Inr _ \<Rightarrow> require (length (Record_Encode work) \<le> MaxTicketFileBytes) OutcomeValidationFailed CodeLimitExceeded)"

definition LiveAttempt :: "MutationContext \<Rightarrow> Record \<Rightarrow> Observation" where
  "LiveAttempt ctx work = (case mc_Attempts ctx of None \<Rightarrow> NotObserved | Some f \<Rightarrow> f (t_Raw (rec_TicketID work)))"

definition check_live :: "MutationContext \<Rightarrow> Record \<Rightarrow> unit planning" where
  "check_live ctx work = (case LiveAttempt ctx work of
     Unsatisfied \<Rightarrow> Inr ()
   | Satisfied \<Rightarrow> refuse OutcomeBlocked CodeAttemptLive
   | NotObserved \<Rightarrow> refuse OutcomeBlocked CodeAttemptLive)"

text \<open>\<^verbatim>\<open>Count.Int() + 1\<close>, refused past the maximum.\<close>

definition next_count :: "string \<Rightarrow> string planning" where
  "next_count c =
     (let n = Count_Int c + 1 in if n > int MaxCountValue then refuse OutcomeValidationFailed CodeLimitExceeded else Inr (CountOf n))"

definition chained :: "Externals \<Rightarrow> MutationContext \<Rightarrow> Record \<Rightarrow> Record \<Rightarrow> string \<Rightarrow> string \<Rightarrow> Record" where
  "chained X ctx pre work nrev acc = work\<lparr>rec_Revision := nrev, rec_AcceptanceRevision := acc,
     rec_PreviousRecordSha256 := Some (FileDigest (x_Sum X) pre), rec_UpdatedAt := mc_Now ctx, rec_UpdatedBy := ctx_ID ctx\<rparr>"

definition finalize :: "Externals \<Rightarrow> MutationContext \<Rightarrow> Record \<Rightarrow> Record \<Rightarrow> bool \<Rightarrow> Record planning" where
  "finalize X ctx pre work forced =
     (let ch = acceptanceChanged pre work; bump = forced \<or> ch
      in rbind (require (\<not> (rec_Status pre = StatusCompleted \<and> ch)) OutcomeBlocked CodeTicketState) (\<lambda>_.
         rbind (checkRecord X ctx (Some pre) work) (\<lambda>_.
         rbind (only_if bump (check_live ctx work)) (\<lambda>_.
         rbind (next_count (rec_Revision pre)) (\<lambda>nrev.
         rbind (if bump then next_count (rec_AcceptanceRevision pre) else Inr (rec_AcceptanceRevision pre)) (\<lambda>acc.
           let post = chained X ctx pre work nrev acc
           in rbind (revalidate X post) (\<lambda>_. Inr post)))))))"

definition forcesAcceptanceBump :: "string \<Rightarrow> bool" where
  "forcesAcceptanceBump op \<longleftrightarrow> op = OpReopen \<or> op = OpRestore \<or> op = OpCompleteManual"

text \<open>A refusal of \<^verbatim>\<open>finalize\<close> as the error the two internal changes return.\<close>

definition as_wire_error :: "Record planning \<Rightarrow> Record res planning" where
  "as_wire_error m = (case m of
     Inr r \<Rightarrow> Inr (Inr r)
   | Inl (Refuse outcome code) \<Rightarrow> Inr (Inl (Errorf (if code \<noteq> [] then code else CodeMalformed) ''/''))
   | Inl s \<Rightarrow> Inl s)"

definition clone_err :: "Externals \<Rightarrow> Record \<Rightarrow> Record planning" where
  "clone_err X pre = (case clone X pre of Inl e \<Rightarrow> refuse OutcomeValidationFailed (e_Code e) | Inr w \<Rightarrow> Inr w)"

definition CompleteVerified :: "Externals \<Rightarrow> MutationContext \<Rightarrow> Record \<Rightarrow> string list \<Rightarrow> string \<Rightarrow> Record res planning" where
  "CompleteVerified X ctx pre evidence manifest = (case clone X pre of
     Inl e \<Rightarrow> Inr (Inl e)
   | Inr work \<Rightarrow>
       if rec_Status work \<noteq> StatusOpen then Inr (Inl (Errorf CodeTicketState ''/status''))
       else as_wire_error (finalize X ctx pre (work\<lparr>rec_Completion := Some \<lparr>c_Kind = ''VERIFIED'', c_Actor = ctx_ID ctx,
         c_Reason = None, c_Evidence = evidence, c_ManifestSha256 = Some manifest, c_RecordedAt = mc_Now ctx\<rparr>,
         rec_Status := StatusCompleted\<rparr>) False))"

definition SetEscalations :: "Externals \<Rightarrow> MutationContext \<Rightarrow> Record \<Rightarrow> EscalationRefs \<Rightarrow> Record res planning" where
  "SetEscalations X ctx pre refs = (case clone X pre of
     Inl e \<Rightarrow> Inr (Inl e)
   | Inr work \<Rightarrow> as_wire_error (finalize X ctx pre (work\<lparr>rec_Escalations := Some refs\<rparr>) False))"

text \<open>The review map as an association list: an existing gate keeps its place.\<close>

fun set_review :: "string \<Rightarrow> ExternalReviewRef \<Rightarrow> (string \<times> ExternalReviewRef) list \<Rightarrow> (string \<times> ExternalReviewRef) list" where
  "set_review g x [] = [(g, x)]"
| "set_review g x ((h, y) # m) = (if g = h then (g, x) # m else (h, y) # set_review g x m)"

definition review_record :: "ExternalReviewPost \<Rightarrow> Record \<Rightarrow> Record planning" where
  "review_record x work =
     (if map_of (rec_ExternalReviews work) (xp_GateID x) = None \<and> length (rec_ExternalReviews work) \<ge> MaxExternalReviewGates
      then refuse OutcomeValidationFailed CodeLimitExceeded
      else Inr (work\<lparr>rec_ExternalReviews := set_review (xp_GateID x) (xp_Ref x) (rec_ExternalReviews work)\<rparr>))"

definition advances_only :: "Record \<Rightarrow> Record \<Rightarrow> unit planning" where
  "advances_only pre work =
     require (Count_Int (rec_Revision work) = Count_Int (rec_Revision pre) + 1 \<and> rec_AcceptanceRevision work = rec_AcceptanceRevision pre)
       OutcomeValidationFailed CodeMalformed"

text \<open>The observation the transaction layer supplied, checked against its own reference.\<close>

definition review_observed :: "Externals \<Rightarrow> MutationContext \<Rightarrow> ExternalReviewPost planning" where
  "review_observed X ctx = (case mc_ExternalReview ctx of
     None \<Rightarrow> refuse OutcomeValidationFailed CodeMalformed
   | Some x \<Rightarrow>
      if xp_Outcome x \<noteq> [] then refuse (xp_Outcome x) (xp_Code x)
      else (case xp_Event x of
          None \<Rightarrow> refuse OutcomeValidationFailed CodeMalformed
        | Some ev \<Rightarrow> if x_Sum X ev \<noteq> er_Head (xp_Ref x) then refuse OutcomeValidationFailed CodeMalformed else Inr x))"

definition review_post :: "Externals \<Rightarrow> MutationContext \<Rightarrow> Record \<Rightarrow> MutationEnvelope \<Rightarrow> (Record \<times> string option) planning" where
  "review_post X ctx pre env =
     (if rec_Status pre = StatusArchived then refuse OutcomeBlocked CodeTicketState
      else if s_Kind (rec_Source pre) \<noteq> ''NATIVE'' \<or> rec_ShadowOverlay pre then refuse OutcomeUnauthorized []
      else if (case me_ExpectedRevision env of None \<Rightarrow> False | Some e \<Rightarrow> e \<noteq> rec_Revision pre) then refuse OutcomeRevisionConflict []
      else rbind (review_observed X ctx) (\<lambda>x.
           rbind (clone_err X pre) (\<lambda>work.
           rbind (review_record x work) (\<lambda>work.
           rbind (finalize X ctx pre work False) (\<lambda>post.
           rbind (advances_only pre post) (\<lambda>_. Inr (post, xp_Event x)))))))"

definition review :: "Externals \<Rightarrow> MutationContext \<Rightarrow> Plan \<Rightarrow> MutationEnvelope \<Rightarrow> Plan planning" where
  "review X ctx plan env =
     or_refused plan (ctx_Target X ctx env) (\<lambda>r. case r of
       None \<Rightarrow> Inr (refused plan OutcomeValidationFailed CodeMalformed)
     | Some pre \<Rightarrow>
         let plan = plan\<lparr>pn_Pre := Some pre\<rparr>
         in or_refused plan (review_post X ctx pre env) (\<lambda>(work, ev). Inr (completed (plan\<lparr>pn_DerivedEvent := ev\<rparr>) work)))"

end
