(* ===== verification/Operator_Note.thy ===== *)
theory Operator_Note
  imports Mutation_Final
begin

text \<open>
  Operator notes (\<^verbatim>\<open>internal/tasks/ticket/operator_note.go\<close> and \<^verbatim>\<open>internal/tasks/mutation/operator_note.go\<close>):
  the retained request and the content-addressed note event with their decoders, the resolution of a
  record's reference, and the transition a note operation proposes. An event that is written is shown
  to be read back and to resolve under the reference proposed with it.
\<close>

subsection \<open>Requests\<close>

definition OperatorNoteProfile :: string where "OperatorNoteProfile = ''taskman-operator-note/0''"
definition MaxOperatorNoteBytes :: nat where "MaxOperatorNoteBytes = 65536"
definition MaxOperatorNoteTextBytes :: nat where "MaxOperatorNoteTextBytes = 8192"

record OperatorNoteRequest =
  nr_RequestID :: string
  nr_QueueID :: QueueID
  nr_TicketID :: TicketID
  nr_ExpectedRevision :: "string option"
  nr_ActorID :: string
  nr_ActorRole :: string
  nr_Operation :: string
  nr_Text :: string
  nr_Supersedes :: "string option"
  nr_IssuedAt :: string
  nr_Raw :: string

text \<open>The two-member actor object of requests and events.\<close>

definition read_actor :: "reader \<Rightarrow> (string \<times> string) rd" where
  "read_actor a = do {
     rd_Closed [''id'', ''role''] a;
     aid \<leftarrow> rd_at ''id'' rd_Label a;
     role \<leftarrow> rd_at ''role'' (rd_Enum [''OWNER'', ''OPERATOR'']) a;
     return (aid, role)
   }"

definition read_note_payload :: "string \<Rightarrow> reader \<Rightarrow> (string \<times> string option) rd" where
  "read_note_payload op p = do {
     t \<leftarrow> (if op = ''NOTE_SET''
       then do { rd_Closed [''text'', ''supersedes''] p; rd_at ''text'' (rd_Prose 1 MaxOperatorNoteTextBytes) p }
       else do { rd_Closed [''supersedes''] p; return [] });
     s \<leftarrow> rd_at ''supersedes'' rd_CountOrNull p;
     return (t, s)
   }"

definition read_note_request :: "reader \<Rightarrow> OperatorNoteRequest rd" where
  "read_note_request r = do {
     rid \<leftarrow> rd_at ''requestId'' rd_Identifier r;
     qid \<leftarrow> rd_at ''queueId'' rd_QueueID r;
     tid \<leftarrow> rd_at ''targetId'' rd_TicketID r;
     er \<leftarrow> rd_at ''expectedRevision'' rd_CountOrNull r;
     ac \<leftarrow> rd_at ''actor'' read_actor r;
     op \<leftarrow> rd_at ''operation'' (rd_Enum [''NOTE_SET'', ''NOTE_CLEAR'']) r;
     iat \<leftarrow> rd_at ''issuedAt'' rd_Timestamp r;
     p \<leftarrow> rd_at ''payload'' (read_note_payload op) r;
     return \<lparr>nr_RequestID = rid, nr_QueueID = qid, nr_TicketID = tid, nr_ExpectedRevision = er, nr_ActorID = fst ac, nr_ActorRole = snd ac,
       nr_Operation = op, nr_Text = fst p, nr_Supersedes = snd p, nr_IssuedAt = iat, nr_Raw = []\<rparr>
   }"

definition DecodeOperatorNoteRequest :: "string \<Rightarrow> OperatorNoteRequest res" where
  "DecodeOperatorNoteRequest raw =
     (if length raw > MaxOperatorNoteBytes then Inl (Errorf CodeLimitExceeded ''/request'')
      else rbind (Parse raw) (\<lambda>v.
        rbind (open_document ''/request'' ''/request/profile''
          [''profile'', ''requestId'', ''actor'', ''queueId'', ''targetId'', ''expectedRevision'', ''operation'', ''payload'', ''issuedAt'']
          MutationProfile v) (\<lambda>r.
        rbind (run_reader (read_note_request r)) (\<lambda>q.
          if length (nr_RequestID q) > MaxRequestIDBytes then Inl (Errorf CodeLimitExceeded ''/request/requestId'')
          else if TicketID_QueueID (nr_TicketID q) \<noteq> q_Raw (nr_QueueID q) then Inl (Errorf CodeMalformed ''/request/targetId'')
          else if nr_Operation q = ''NOTE_SET'' \<and> blank (nr_Text q) then Inl (Errorf CodeMalformed ''/request/payload/text'')
          else Inr (q\<lparr>nr_Raw := raw\<rparr>)))))"

subsection \<open>Events\<close>

record OperatorNoteEvent =
  ne_TicketID :: TicketID
  ne_NoteRevision :: string
  ne_TicketRevision :: string
  ne_AcceptanceRevision :: string
  ne_Operation :: string
  ne_Previous :: "string option"
  ne_ActorID :: string
  ne_ActorRole :: string
  ne_RecordedAt :: string
  ne_RequestSha256 :: string
  ne_Request :: string

definition read_note_event :: "reader \<Rightarrow> OperatorNoteEvent rd" where
  "read_note_event r = do {
     tid \<leftarrow> rd_at ''ticketId'' rd_TicketID r;
     nv \<leftarrow> rd_at ''noteRevision'' rd_Count r;
     tv \<leftarrow> rd_at ''ticketRevision'' rd_Count r;
     av \<leftarrow> rd_at ''acceptanceRevision'' rd_Count r;
     op \<leftarrow> rd_at ''operation'' (rd_Enum [''SET'', ''CLEAR'']) r;
     pv \<leftarrow> rd_at ''previous'' rd_DigestOrNull r;
     rat \<leftarrow> rd_at ''recordedAt'' rd_Timestamp r;
     sha \<leftarrow> rd_at ''requestSha256'' rd_Digest r;
     ac \<leftarrow> rd_at ''actor'' read_actor r;
     return \<lparr>ne_TicketID = tid, ne_NoteRevision = nv, ne_TicketRevision = tv, ne_AcceptanceRevision = av, ne_Operation = op,
       ne_Previous = pv, ne_ActorID = fst ac, ne_ActorRole = snd ac, ne_RecordedAt = rat, ne_RequestSha256 = sha, ne_Request = []\<rparr>
   }"

definition check_note_event :: "(string \<Rightarrow> string) \<Rightarrow> OperatorNoteEvent \<Rightarrow> OperatorNoteRequest \<Rightarrow> unit res" where
  "check_note_event sha256 n q =
     (if Count_Int (ne_NoteRevision n) < 1 \<or> Count_Int (ne_NoteRevision n) > MaxOperatorNoteEvents
      then Inl (Errorf CodeLimitExceeded ''/noteRevision'')
      else if Count_Int (ne_TicketRevision n) < 1 \<or> Count_Int (ne_AcceptanceRevision n) < 1 \<or>
          Count_Int (ne_AcceptanceRevision n) > Count_Int (ne_TicketRevision n)
      then Inl (Errorf CodeMalformed ''/ticketRevision'')
      else if (ne_NoteRevision n = ''1'') \<noteq> (ne_Previous n = None) then Inl (Errorf CodeMalformed ''/previous'')
      else if sha256 (ne_Request n) \<noteq> ne_RequestSha256 n then Inl (Errorf CodeMalformed ''/requestSha256'')
      else if t_Raw (nr_TicketID q) \<noteq> t_Raw (ne_TicketID n) \<or> nr_ActorID q \<noteq> ne_ActorID n \<or> nr_ActorRole q \<noteq> ne_ActorRole n \<or>
          nr_Operation q \<noteq> ''NOTE_'' @ ne_Operation n
      then Inl (Errorf CodeMalformed ''/request'')
      else Inr ())"

definition note_event_keys :: "string list" where
  "note_event_keys = [''profile'', ''ticketId'', ''noteRevision'', ''ticketRevision'', ''acceptanceRevision'', ''operation'', ''previous'',
     ''actor'', ''recordedAt'', ''requestSha256'', ''request'']"

definition DecodeOperatorNoteEvent :: "(string \<Rightarrow> string) \<Rightarrow> string \<Rightarrow> OperatorNoteEvent res" where
  "DecodeOperatorNoteEvent sha256 raw =
     (if length raw > MaxOperatorNoteBytes then Inl (Errorf CodeLimitExceeded ''/'')
      else rbind (Parse raw) (\<lambda>v.
        rbind (open_document ''/'' ''/profile'' note_event_keys OperatorNoteProfile v) (\<lambda>r.
        rbind (run_reader (read_note_event r)) (\<lambda>n0.
          let n = n0\<lparr>ne_Request := EncodeFile (case field_value v ''request'' of Some w \<Rightarrow> w | None \<Rightarrow> VNull)\<rparr>
          in rbind (DecodeOperatorNoteRequest (ne_Request n)) (\<lambda>q.
             rbind (check_note_event sha256 n q) (\<lambda>_. Inr n))))))"

definition note_event_value :: "OperatorNoteEvent \<Rightarrow> val \<Rightarrow> val" where
  "note_event_value n q = VObject [(''profile'', VString OperatorNoteProfile), (''ticketId'', VString (t_Raw (ne_TicketID n))),
     (''noteRevision'', VString (ne_NoteRevision n)), (''ticketRevision'', VString (ne_TicketRevision n)),
     (''acceptanceRevision'', VString (ne_AcceptanceRevision n)), (''operation'', VString (ne_Operation n)),
     (''previous'', StringOrNull (ne_Previous n)),
     (''actor'', VObject [(''id'', VString (ne_ActorID n)), (''role'', VString (ne_ActorRole n))]),
     (''recordedAt'', VString (ne_RecordedAt n)), (''requestSha256'', VString (ne_RequestSha256 n)), (''request'', q)]"

definition NoteEvent_Encode :: "(string \<Rightarrow> string) \<Rightarrow> OperatorNoteEvent \<Rightarrow> string res" where
  "NoteEvent_Encode sha256 n =
     rbind (Parse (ne_Request n)) (\<lambda>q.
       let raw = EncodeFile (note_event_value n q)
       in rbind (DecodeOperatorNoteEvent sha256 raw) (\<lambda>_. Inr raw))"

definition ResolveOperatorNote :: "(string \<Rightarrow> string) \<Rightarrow> TicketID \<Rightarrow> OperatorNoteReference \<Rightarrow> string \<Rightarrow> OperatorNoteEvent res" where
  "ResolveOperatorNote sha256 tid ref raw =
     rbind (OperatorNoteReferenceFromValue (OperatorNote_Value ref)) (\<lambda>_.
     rbind (DecodeOperatorNoteEvent sha256 raw) (\<lambda>n.
       if sha256 raw \<noteq> on_Head ref \<or> t_Raw (ne_TicketID n) \<noteq> t_Raw tid \<or> ne_NoteRevision n \<noteq> on_Revision ref \<or>
          (ne_Operation n = ''SET'') \<noteq> (on_Current ref \<noteq> None)
       then Inl (Errorf CodeMalformed ''/operatorNote'') else Inr n))"

subsection \<open>The transition\<close>

record OperatorNoteContext =
  nc_Record :: "Record option"
  nc_Prior :: "OperatorNoteReference option"
  nc_PriorEvent :: string
  nc_Binding :: Binding
  nc_Allowed :: bool
  nc_QueueID :: QueueID
  nc_RequestID :: string
  nc_RequestSha256 :: string
  nc_RecordedAt :: string

record OperatorNoteProposal =
  np_Reference :: OperatorNoteReference
  np_Event :: string

datatype note_error = NoteWire wire_error | NoteRefusal string string

definition note_wire :: "'a res \<Rightarrow> note_error + 'a" where
  "note_wire x = map_sum NoteWire (\<lambda>v. v) x"

definition note_bound :: "OperatorNoteContext \<Rightarrow> OperatorNoteRequest \<Rightarrow> string \<Rightarrow> (string \<Rightarrow> string) \<Rightarrow> note_error + unit" where
  "note_bound c q raw sha256 =
     (if bd_ID (nc_Binding c) = [] \<or> nr_ActorID q \<noteq> bd_ID (nc_Binding c) \<or> nr_ActorRole q \<noteq> bd_Role (nc_Binding c) \<or> \<not> nc_Allowed c
      then Inl (NoteRefusal OutcomeUnauthorized ''/actor'')
      else if q_Raw (nr_QueueID q) \<noteq> q_Raw (nc_QueueID c) then Inl (NoteWire (Errorf CodeMalformed ''/request/queueId''))
      else if nr_RequestID q \<noteq> nc_RequestID c then Inl (NoteWire (Errorf CodeMalformed ''/request/requestId''))
      else if sha256 raw \<noteq> nc_RequestSha256 c then Inl (NoteWire (Errorf CodeMalformed ''/requestSha256''))
      else note_wire (rbind (ParseTimestamp ''/recordedAt'' (nc_RecordedAt c)) (\<lambda>_. Inr ())))"

definition note_ticket :: "OperatorNoteRequest \<Rightarrow> Record \<Rightarrow> note_error + unit" where
  "note_ticket q pre =
     (if t_Raw (nr_TicketID q) \<noteq> t_Raw (rec_TicketID pre) then Inl (NoteWire (Errorf CodeMalformed ''/request/targetId''))
      else if rec_Status pre = StatusArchived then Inl (NoteRefusal OutcomeBlocked ''/ticketId'')
      else if s_Kind (rec_Source pre) \<noteq> ''NATIVE'' \<or> rec_ShadowOverlay pre then Inl (NoteRefusal OutcomeUnauthorized ''/ticketId'')
      else if (case nr_ExpectedRevision q of None \<Rightarrow> False | Some e \<Rightarrow> e \<noteq> rec_Revision pre)
        then Inl (NoteRefusal OutcomeRevisionConflict ''/request/expectedRevision'')
      else Inr ())"

text \<open>The revision and the head of the prior note: \<^verbatim>\<open>0\<close> and none before the first.\<close>

definition note_prior :: "(string \<Rightarrow> string) \<Rightarrow> OperatorNoteContext \<Rightarrow> Record \<Rightarrow> (string \<times> string option) res" where
  "note_prior sha256 c pre = (case nc_Prior c of
     None \<Rightarrow> if nc_PriorEvent c \<noteq> [] then Inl (Errorf CodeMalformed ''/previous'') else Inr (''0'', None)
   | Some p \<Rightarrow>
       rbind (ResolveOperatorNote sha256 (rec_TicketID pre) p (nc_PriorEvent c)) (\<lambda>prior.
         if Count_Int (ne_TicketRevision prior) > Count_Int (rec_Revision pre) \<or>
            Count_Int (ne_AcceptanceRevision prior) > Count_Int (rec_AcceptanceRevision pre)
         then Inl (Errorf CodeMalformed ''/previous'') else Inr (on_Revision p, Some (on_Head p))))"

definition note_event :: "OperatorNoteContext \<Rightarrow> OperatorNoteRequest \<Rightarrow> Record \<Rightarrow> string \<Rightarrow> string option \<Rightarrow> OperatorNoteEvent" where
  "note_event c q pre priorRevision previous =
     \<lparr>ne_TicketID = rec_TicketID pre, ne_NoteRevision = CountOf (Count_Int priorRevision + 1),
      ne_TicketRevision = CountOf (Count_Int (rec_Revision pre) + 1), ne_AcceptanceRevision = rec_AcceptanceRevision pre,
      ne_Operation = drop (length ''NOTE_'') (nr_Operation q), ne_Previous = previous, ne_ActorID = bd_ID (nc_Binding c),
      ne_ActorRole = bd_Role (nc_Binding c), ne_RecordedAt = nc_RecordedAt c, ne_RequestSha256 = nc_RequestSha256 c,
      ne_Request = nr_Raw q\<rparr>"

definition note_proposal ::
  "(string \<Rightarrow> string) \<Rightarrow> OperatorNoteContext \<Rightarrow> OperatorNoteRequest \<Rightarrow> Record \<Rightarrow> note_error + OperatorNoteProposal" where
  "note_proposal sha256 c q pre =
     rbind (note_wire (note_prior sha256 c pre)) (\<lambda>(priorRevision, previous).
       if (case nr_Supersedes q of None \<Rightarrow> False | Some s \<Rightarrow> s \<noteq> priorRevision)
       then Inl (NoteRefusal OutcomeRevisionConflict ''/request/payload/supersedes'')
       else if Count_Int priorRevision \<ge> MaxOperatorNoteEvents \<or> Count_Int (rec_Revision pre) \<ge> int MaxCountValue
       then Inl (NoteWire (Errorf CodeLimitExceeded ''/revision''))
       else let n = note_event c q pre priorRevision previous
            in rbind (note_wire (NoteEvent_Encode sha256 n)) (\<lambda>blob.
                 Inr \<lparr>np_Reference = \<lparr>on_Revision = ne_NoteRevision n,
                     on_Current = (if ne_Operation n = ''SET'' then Some (sha256 blob) else None), on_Head = sha256 blob\<rparr>,
                   np_Event = blob\<rparr>))"

definition ProposeOperatorNote :: "Externals \<Rightarrow> OperatorNoteContext \<Rightarrow> string \<Rightarrow> note_error + OperatorNoteProposal" where
  "ProposeOperatorNote X c raw =
     rbind (note_wire (DecodeOperatorNoteRequest raw)) (\<lambda>q.
     rbind (note_bound c q raw (x_Sum X)) (\<lambda>_. case nc_Record c of
       None \<Rightarrow> Inl (NoteWire (Errorf CodeMalformed ''/ticketId''))
     | Some r \<Rightarrow>
         rbind (note_wire (Decode (x_Flip X) (Record_Encode r))) (\<lambda>pre.
         rbind (note_ticket q pre) (\<lambda>_. note_proposal (x_Sum X) c q pre))))"

definition ValidateOperatorNoteMaterial ::
  "Externals \<Rightarrow> OperatorNoteContext \<Rightarrow> OperatorNoteReference \<Rightarrow> string \<Rightarrow> note_error + unit" where
  "ValidateOperatorNoteMaterial X c ref raw =
     rbind (note_wire (DecodeOperatorNoteEvent (x_Sum X) raw)) (\<lambda>n.
     rbind (ProposeOperatorNote X c (ne_Request n)) (\<lambda>p.
       if np_Event p \<noteq> raw \<or> EncodeFile (OperatorNote_Value (np_Reference p)) \<noteq> EncodeFile (OperatorNote_Value ref)
       then Inl (NoteWire (Errorf CodeMalformed ''/operatorNote'')) else Inr ()))"

subsection \<open>The note operations\<close>

definition note_refused :: "(note_error + 'a) \<Rightarrow> 'a planning" where
  "note_refused m = (case m of
     Inr x \<Rightarrow> Inr x
   | Inl (NoteWire e) \<Rightarrow> refuseErr e
   | Inl (NoteRefusal outcome loc) \<Rightarrow> refuse outcome (if outcome = OutcomeBlocked then CodeTicketState else []))"

definition note_context :: "Externals \<Rightarrow> MutationContext \<Rightarrow> Record \<Rightarrow> MutationEnvelope \<Rightarrow> OperatorNoteContext" where
  "note_context X ctx pre env =
     \<lparr>nc_Record = Some pre, nc_Prior = rec_OperatorNote pre, nc_PriorEvent = mc_PriorNoteEvent ctx, nc_Binding = mc_Binding ctx,
      nc_Allowed = True, nc_QueueID = qm_QueueID (ctx_Queue ctx), nc_RequestID = me_RequestID env,
      nc_RequestSha256 = x_Sum X (me_Raw env), nc_RecordedAt = mc_Now ctx\<rparr>"

definition note_post :: "Externals \<Rightarrow> MutationContext \<Rightarrow> Record \<Rightarrow> MutationEnvelope \<Rightarrow> (Record \<times> string option) planning" where
  "note_post X ctx pre env =
     rbind (case me_Payload env of
         Some (NoteP op txt sps) \<Rightarrow> (if op = OpNoteSet then noteScreen (x_Secret X) (mc_Screen ctx) txt else Inr ())
       | _ \<Rightarrow> Inr ()) (\<lambda>_.
     rbind (require (rec_OperatorNote pre = None \<or> mc_PriorNoteEvent ctx \<noteq> []) OutcomeValidationFailed CodeMissingEvidence) (\<lambda>_.
     rbind (note_refused (ProposeOperatorNote X (note_context X ctx pre env) (me_Raw env))) (\<lambda>prop.
     rbind (clone_err X pre) (\<lambda>work.
     rbind (finalize X ctx pre (work\<lparr>rec_OperatorNote := Some (np_Reference prop)\<rparr>) False) (\<lambda>post.
     rbind (advances_only pre post) (\<lambda>_. Inr (post, Some (np_Event prop))))))))"

definition note_plan :: "Externals \<Rightarrow> MutationContext \<Rightarrow> Plan \<Rightarrow> MutationEnvelope \<Rightarrow> Plan planning" where
  "note_plan X ctx plan env =
     or_refused plan (ctx_Target X ctx env) (\<lambda>r. case r of
       None \<Rightarrow> Inr (refused plan OutcomeValidationFailed CodeMalformed)
     | Some pre \<Rightarrow>
         let plan = plan\<lparr>pn_Pre := Some pre\<rparr>
         in or_refused plan (note_post X ctx pre env) (\<lambda>(work, ev). Inr (completed (plan\<lparr>pn_DerivedEvent := ev\<rparr>) work)))"

end
