(* ===== verification/Obligation_Plan.thy ===== *)
theory Obligation_Plan
  imports Mutation_Final
begin

text \<open>
  The planner of an obligation write (\<^verbatim>\<open>internal/tasks/mutation/obligations.go\<close>): who may write what, the
  comparison of a report witness with the writer's own recomputation, the screens of the stored text, and
  the write itself, which folds the ticket's chain, derives the next event, applies it by the single
  transition of the ledger and moves the record by one revision.
\<close>

subsection \<open>The recomputation of a report\<close>

definition credited_entry :: "ObligationReportCheck \<Rightarrow> ObligationLedger option \<Rightarrow> string \<Rightarrow> bool" where
  "credited_entry c l i \<longleftrightarrow>
     (case rc_IDs c of None \<Rightarrow> True | Some ids \<Rightarrow> i \<in> set ids) \<and>
     (case ledger_Entry l i of None \<Rightarrow> False | Some e \<Rightarrow> en_State e \<noteq> ObligationWitnessed \<and> en_State e \<noteq> ObligationDeferred)"

definition ExpectedCredits :: "ObligationReportCheck option \<Rightarrow> ObligationLedger option \<Rightarrow> ObligationCredit list" where
  "ExpectedCredits oc l = (case oc of
     None \<Rightarrow> []
   | Some c \<Rightarrow> sort_key cr_ID (map (\<lambda>(i, ms). \<lparr>cr_ID = i, cr_Matches = Some ms\<rparr>)
       (filter (\<lambda>(i, ms). credited_entry c l i) (rc_Eligible c))))"

definition ObligationsNameAttempt :: "MutationEnvelope option \<Rightarrow> bool" where
  "ObligationsNameAttempt oenv = (case oenv of
     None \<Rightarrow> False
   | Some env \<Rightarrow>
       if me_Operation env \<noteq> OpObligationsWitness then False
       else (case me_Payload env of
           Some (ObligationsP (WitnessPayload w)) \<Rightarrow> wt_Attempt w \<noteq> None \<or> wt_Generation w \<noteq> None
         | _ \<Rightarrow> False))"

definition mismatch :: "'a planning" where
  "mismatch = refuse OutcomeValidationFailed CodeMalformed"

definition credit_matches :: "ObligationCredit \<Rightarrow> val" where
  "credit_matches c = MatchesValue (case cr_Matches c of None \<Rightarrow> [] | Some ms \<Rightarrow> ms)"

text \<open>The loop over both lists, called with equal lengths.\<close>

fun credits_agree :: "ObligationCredit list \<Rightarrow> ObligationCredit list \<Rightarrow> unit planning" where
  "credits_agree (w # ws) (c # cs) =
     (if cr_ID w \<noteq> cr_ID c \<or> \<not> val_Equal (credit_matches w) (credit_matches c) then mismatch else credits_agree ws cs)"
| "credits_agree ws cs = Inr ()"

definition report_matches ::
  "ObligationReportCheck option \<Rightarrow> ObligationLedger option \<Rightarrow> ObligationWitnessPayload \<Rightarrow> unit planning" where
  "report_matches oc l w = (case oc of
     None \<Rightarrow> mismatch
   | Some c \<Rightarrow>
       if wt_ReportSha256 w \<noteq> Some (rc_ReportSha256 c) \<or> wt_PlaywrightVersion w \<noteq> Some (rc_PlaywrightVersion c) \<or> wt_Commit w \<noteq> rc_Commit c
       then mismatch
       else if (wt_TestRepository w = None) \<noteq> (rc_TestRepository c = []) \<or>
          (case wt_TestRepository w of None \<Rightarrow> False | Some n \<Rightarrow> n \<noteq> rc_TestRepository c)
       then mismatch
       else let want = ExpectedCredits oc l
            in if length want \<noteq> length (wt_Credits w) then mismatch else credits_agree want (wt_Credits w))"

subsection \<open>Authority\<close>

text \<open>The three loops over the changes of a SET.\<close>

definition set_authority :: "MutationContext \<Rightarrow> ObligationChange list \<Rightarrow> unit planning" where
  "set_authority ctx cs =
     rbind (require (\<not> (ctx_Role ctx \<noteq> ''OWNER'' \<and> list_ex (\<lambda>c. ch_Core c \<noteq> None \<or>
         (case ch_Scope c of None \<Rightarrow> False | Some s \<Rightarrow> sc_Action s = ObligationScopeAccept)) cs)) OutcomeUnauthorized []) (\<lambda>_.
     rbind (require (\<not> (ObligationScopeDecisionRequired (mc_Policy ctx) \<and> list_ex (\<lambda>c. ch_Core c \<noteq> None) cs))
       OutcomeValidationFailed CodeApprovalMissing) (\<lambda>_.
     require (\<not> (ObligationCitesDeclaredRequired (mc_Policy ctx) \<and> list_ex (\<lambda>c. list_ex (\<lambda>ct. case ct_Repository ct of
         None \<Rightarrow> False | Some r \<Rightarrow> ObligationTestRepository (mc_Policy ctx) r = None)
         (case ch_Cites c of None \<Rightarrow> [] | Some x \<Rightarrow> x)) cs)) OutcomeValidationFailed CodeMalformed))"

text \<open>The test repository a witness names, against the policy and the path its recomputation resolved.\<close>

definition repository_authority :: "MutationContext \<Rightarrow> ObligationWitnessPayload \<Rightarrow> unit planning" where
  "repository_authority ctx w = (case wt_TestRepository w of
     None \<Rightarrow> Inr ()
   | Some n \<Rightarrow> (case ObligationTestRepository (mc_Policy ctx) n of
       None \<Rightarrow> refuse OutcomeValidationFailed CodeMalformed
     | Some declared \<Rightarrow> require (mc_ObligationReplay ctx \<or> (case mc_ObligationReport ctx of
           None \<Rightarrow> False | Some c \<Rightarrow> rc_TestRepository c = n \<and> rc_TestRepositoryPath c = declared)) OutcomeRevisionConflict CodeStalePolicy))"

definition worker_witness :: "MutationContext \<Rightarrow> Record \<Rightarrow> ObligationWitnessPayload \<Rightarrow> unit planning" where
  "worker_witness ctx pre w =
     (if wt_Attempt w = None \<or> wt_Generation w = None then refuse OutcomeValidationFailed CodeMalformed
      else rbind (err_refused (CheckKnowHowProvenance (mc_KnowHowAttempts ctx) (rec_TicketID pre) (wt_Attempt w) (wt_Generation w))) (\<lambda>_.
        let a = ledger_entry ctx (the (wt_Attempt w))
        in if \<not> ap_Live a \<or> ap_Holder a = [] \<or> ap_Generation a \<noteq> the (wt_Generation w) then refuse OutcomeRevisionConflict CodeFenced
           else require (ap_Holder a = ctx_ID ctx) OutcomeUnauthorized []))"

definition witness_authority :: "MutationContext \<Rightarrow> Record \<Rightarrow> ObligationWitnessPayload \<Rightarrow> unit planning" where
  "witness_authority ctx pre w =
     rbind (require (\<not> (wt_Source w = ObligationSourceDeclared \<and> ctx_Role ctx \<noteq> ''OWNER'')) OutcomeUnauthorized []) (\<lambda>_.
     rbind (require (\<not> (wt_Source w = ObligationSourceReviewed \<and> ctx_Role ctx \<noteq> ''OWNER'')) OutcomeUnauthorized []) (\<lambda>_.
     rbind (repository_authority ctx w) (\<lambda>_.
       if ctx_Role ctx \<noteq> ''WORKER'' then require (wt_Attempt w = None \<and> wt_Generation w = None) OutcomeValidationFailed CodeMalformed
       else worker_witness ctx pre w)))"

definition obligationAuthority :: "MutationContext \<Rightarrow> Record \<Rightarrow> ObligationsPayload \<Rightarrow> unit planning" where
  "obligationAuthority ctx pre p = (case p of
     SeedPayload s \<Rightarrow> require (ctx_Role ctx \<noteq> ''WORKER'') OutcomeUnauthorized []
   | SetPayload cs \<Rightarrow> rbind (set_authority ctx cs) (\<lambda>_. require (ctx_Role ctx \<noteq> ''WORKER'') OutcomeUnauthorized [])
   | WitnessPayload w \<Rightarrow> witness_authority ctx pre w)"

subsection \<open>The screens\<close>

definition source_texts :: "ObligationReviewSource \<Rightarrow> string list" where
  "source_texts s = [sr_Ref s, sr_Query s] @ sr_Searched s"

definition change_texts :: "ObligationChange \<Rightarrow> string list" where
  "change_texts c = [ch_Reason c] @ map ct_Path (case ch_Cites c of None \<Rightarrow> [] | Some x \<Rightarrow> x) @
     (case ch_Scope c of None \<Rightarrow> [] | Some s \<Rightarrow> [sc_Evidence s]) @
     (case ch_Candidate c of None \<Rightarrow> [] | Some x \<Rightarrow> [cd_Path x]) @
     concat (map source_texts (case ch_Sources c of None \<Rightarrow> [] | Some x \<Rightarrow> x))"

definition match_texts :: "ObligationMatch \<Rightarrow> string list" where
  "match_texts m = [mt_Path m, mt_TestID m] @ mt_TitlePath m @ mt_StepPath m"

definition witness_texts :: "ObligationWitnessPayload \<Rightarrow> string list" where
  "witness_texts w = (case wt_Declaration w of None \<Rightarrow> [] | Some d \<Rightarrow> [dl_TestID d, dl_Reason d]) @ pv_Strings (wt_Provenance w) @
     (case wt_Review w of None \<Rightarrow> [] | Some rv \<Rightarrow>
        sj_Path (rw_Subject rv) # concat (map (\<lambda>v. [vd_Reviewer v, vd_Reason v]) (rw_Verdicts rv))) @
     concat (map (\<lambda>c. concat (map match_texts (case cr_Matches c of None \<Rightarrow> [] | Some ms \<Rightarrow> ms))) (wt_Credits w))"

definition obligationFields :: "ObligationsPayload \<Rightarrow> string list" where
  "obligationFields p = (case p of
     SeedPayload s \<Rightarrow> concat (map (\<lambda>x. [si_Title x, si_Alias x]) (sd_Obligations s))
   | SetPayload cs \<Rightarrow> concat (map change_texts cs)
   | WitnessPayload w \<Rightarrow> witness_texts w)"

definition screenObligations :: "(string \<Rightarrow> bool) \<Rightarrow> ObligationsPayload \<Rightarrow> unit planning" where
  "screenObligations secret p = require (\<not> list_ex secret (obligationFields p)) OutcomeValidationFailed CodeSecretDetected"

definition obligationScreenFields :: "ObligationsPayload \<Rightarrow> (string \<times> string) list" where
  "obligationScreenFields p = map (\<lambda>s. (''/payload'', s)) (obligationFields p)"

subsection \<open>The write\<close>

definition write_state :: "Record \<Rightarrow> MutationEnvelope \<Rightarrow> unit planning" where
  "write_state pre env =
     rbind (require (me_ExpectedRevision env = Some (rec_Revision pre)) OutcomeRevisionConflict []) (\<lambda>_.
     require (s_Kind (rec_Source pre) = ''NATIVE'' \<and> \<not> rec_ShadowOverlay pre \<and> (rec_Status pre = StatusOpen \<or> rec_Status pre = StatusHeld))
       OutcomeBlocked CodeTicketState)"

text \<open>The fold of the referenced chain; an event the context does not hold is absent.\<close>

definition prior_ledger :: "Externals \<Rightarrow> MutationContext \<Rightarrow> Record \<Rightarrow> ObligationLedger option planning" where
  "prior_ledger X ctx pre = (case rec_ObligationsRef pre of
     None \<Rightarrow> Inr None
   | Some ref \<Rightarrow> (case FoldObligationChain (x_Sum X) (rec_TicketID pre) ref (\<lambda>d. Inr (mc_ObligationEvents ctx d)) of
       Inl code \<Rightarrow> refuse OutcomeValidationFailed code
     | Inr l \<Rightarrow> Inr (Some l)))"

definition declares_prefix :: "Record \<Rightarrow> string \<Rightarrow> Record \<Rightarrow> bool" where
  "declares_prefix pre prefix other \<longleftrightarrow>
     t_Raw (rec_TicketID other) \<noteq> t_Raw (rec_TicketID pre) \<and> rec_Status other \<noteq> StatusArchived \<and> s_Kind (rec_Source other) = ''NATIVE'' \<and>
     (case rec_ObligationsRef other of None \<Rightarrow> False | Some r \<Rightarrow> ob_Prefix r = prefix)"

fun prefix_loop :: "Externals \<Rightarrow> MutationContext \<Rightarrow> Record \<Rightarrow> string \<Rightarrow> string list \<Rightarrow> unit planning" where
  "prefix_loop X ctx pre prefix [] = Inr ()"
| "prefix_loop X ctx pre prefix (i # ids) =
     rbind (ctx_Get X ctx i) (\<lambda>other.
       if (case other of None \<Rightarrow> False | Some r \<Rightarrow> declares_prefix pre prefix r) then refuse OutcomeValidationFailed CodeDuplicateID
       else prefix_loop X ctx pre prefix ids)"

text \<open>A first write has to be a seed, with a prefix no other live native ticket declares.\<close>

definition first_write :: "Externals \<Rightarrow> MutationContext \<Rightarrow> Record \<Rightarrow> ObligationsPayload \<Rightarrow> unit planning" where
  "first_write X ctx pre p = (case p of
     SeedPayload s \<Rightarrow> prefix_loop X ctx pre (sd_Prefix s) (inv_IDs (ctx_Inventory ctx))
   | _ \<Rightarrow> refuse OutcomeValidationFailed CodeMalformed)"

definition report_check :: "MutationContext \<Rightarrow> ObligationLedger option \<Rightarrow> ObligationsPayload \<Rightarrow> unit planning" where
  "report_check ctx l p = (case p of
     WitnessPayload w \<Rightarrow> only_if (wt_Source w = ObligationSourceReport \<and> \<not> mc_ObligationReplay ctx) (report_matches (mc_ObligationReport ctx) l w)
   | _ \<Rightarrow> Inr ())"

definition zero_Request :: ObligationRequest where
  "zero_Request = \<lparr>oq_RequestID = [], oq_QueueID = \<lparr>q_Raw = [], q_Authority = [], q_Queue = []\<rparr>,
     oq_TicketID = \<lparr>t_Raw = [], t_Authority = [], t_Queue = [], t_Local = []\<rparr>, oq_ExpectedRevision = [], oq_ActorID = [], oq_ActorRole = [],
     oq_Operation = [], oq_IssuedAt = [], oq_Payload = SetPayload [], oq_Raw = []\<rparr>"

text \<open>The event as it is encoded, before \<^verbatim>\<open>DecodeObligationEvent\<close> fills in the decoded request.\<close>

definition ledger_revision :: "Record \<Rightarrow> int" where
  "ledger_revision pre = (case rec_ObligationsRef pre of None \<Rightarrow> 0 | Some r \<Rightarrow> Count_Int (ob_Revision r))"

definition derived_event :: "Externals \<Rightarrow> Record \<Rightarrow> MutationEnvelope \<Rightarrow> ObligationEvent" where
  "derived_event X pre env = \<lparr>oe_TicketID = rec_TicketID pre, oe_Revision = CountOf (ledger_revision pre + 1),
     oe_Previous = map_option ob_Head (rec_ObligationsRef pre), oe_RequestSha256 = x_Sum X (me_Raw env), oe_Request = me_Raw env,
     oe_Decoded = zero_Request\<rparr>"

text \<open>The high-water mark is kept for one acceptance revision; the baseline is what a raise is measured against.\<close>

definition high_water :: "Record \<Rightarrow> int \<Rightarrow> int" where
  "high_water pre witnessed = (case rec_ObligationsRef pre of
     None \<Rightarrow> witnessed
   | Some r \<Rightarrow> if hw_AcceptanceRevision (ob_HighWater r) = rec_AcceptanceRevision pre \<and> hw_Witnessed (ob_HighWater r) > witnessed
       then hw_Witnessed (ob_HighWater r) else witnessed)"

definition baseline :: "Record \<Rightarrow> int" where
  "baseline pre = (case rec_ObligationsRef pre of
     None \<Rightarrow> 0
   | Some r \<Rightarrow> if hw_AcceptanceRevision (ob_HighWater r) = rec_AcceptanceRevision pre then hw_Witnessed (ob_HighWater r)
       else oc_Witnessed (ob_Counts r))"

definition last_raise :: "MutationContext \<Rightarrow> Record \<Rightarrow> ObligationsPayload \<Rightarrow> int \<Rightarrow> ObligationRaise option" where
  "last_raise ctx pre p witnessed =
     (let old = Option.bind (rec_ObligationsRef pre) ob_LastRaise
      in case p of
        WitnessPayload w \<Rightarrow> if ctx_Role ctx = ''WORKER'' \<and> witnessed > baseline pre
          then Some \<lparr>or_Attempt = the (wt_Attempt w), or_Generation = the (wt_Generation w), or_AcceptanceRevision = rec_AcceptanceRevision pre\<rparr>
          else old
      | _ \<Rightarrow> old)"

definition next_reference :: "MutationContext \<Rightarrow> Record \<Rightarrow> ObligationsPayload \<Rightarrow> string \<Rightarrow> ObligationLedger \<Rightarrow> ObligationsReference" where
  "next_reference ctx pre p head nxt =
     (let counts = ledger_Counts (Some nxt)
      in \<lparr>ob_Prefix = ol_Prefix nxt, ob_Revision = CountOf (ol_Revision nxt), ob_Head = head, ob_Counts = counts,
          ob_HighWater = \<lparr>hw_AcceptanceRevision = rec_AcceptanceRevision pre, hw_Witnessed = high_water pre (oc_Witnessed counts)\<rparr>,
          ob_LastRaise = last_raise ctx pre p (oc_Witnessed counts)\<rparr>)"

definition obligation_checks ::
  "Externals \<Rightarrow> MutationContext \<Rightarrow> Record \<Rightarrow> ObligationsPayload \<Rightarrow> ObligationLedger option planning" where
  "obligation_checks X ctx pre p =
     rbind (obligationAuthority ctx pre p) (\<lambda>_.
     rbind (prior_ledger X ctx pre) (\<lambda>l.
     rbind (only_if (l = None) (first_write X ctx pre p)) (\<lambda>_.
     rbind (report_check ctx l p) (\<lambda>_.
     rbind (screenObligations (x_Secret X) p) (\<lambda>_.
     rbind (screenValues (mc_Screen ctx) (obligationScreenFields p)) (\<lambda>_.
     rbind (require (ledger_revision pre < int ObligationsMaxEvents) OutcomeValidationFailed CodeLimitExceeded) (\<lambda>_. Inr l)))))))"

definition obligation_write ::
  "Externals \<Rightarrow> MutationContext \<Rightarrow> Record \<Rightarrow> MutationEnvelope \<Rightarrow> ObligationsPayload \<Rightarrow> (Record \<times> string option) planning" where
  "obligation_write X ctx pre env p =
     rbind (obligation_checks X ctx pre p) (\<lambda>l.
     rbind (err_refused (Event_Encode (x_Sum X) (derived_event X pre env))) (\<lambda>blob.
     rbind (err_refused (DecodeObligationEvent (x_Sum X) blob)) (\<lambda>ev.
     rbind (err_refused (ApplyObligationEvent l ev (x_Sum X blob))) (\<lambda>nxt.
     rbind (clone_err X pre) (\<lambda>work.
     rbind (finalize X ctx pre (work\<lparr>rec_ObligationsRef := Some (next_reference ctx pre p (x_Sum X blob) nxt)\<rparr>) False) (\<lambda>post.
     rbind (advances_only pre post) (\<lambda>_. Inr (post, Some blob))))))))"

text \<open>
  \<^verbatim>\<open>Decode\<close> gives an obligation operation an obligation payload; any other one would be a nil pointer
  whose use panics.
\<close>

definition obligations_of :: "Payload option \<Rightarrow> ObligationsPayload planning" where
  "obligations_of p = (case p of Some (ObligationsP q) \<Rightarrow> Inr q | _ \<Rightarrow> Inl NilDeref)"

definition obligations_post :: "Externals \<Rightarrow> MutationContext \<Rightarrow> Record \<Rightarrow> MutationEnvelope \<Rightarrow> (Record \<times> string option) planning" where
  "obligations_post X ctx pre env =
     rbind (write_state pre env) (\<lambda>_. rbind (obligations_of (me_Payload env)) (obligation_write X ctx pre env))"

definition obligations :: "Externals \<Rightarrow> MutationContext \<Rightarrow> Plan \<Rightarrow> MutationEnvelope \<Rightarrow> Plan planning" where
  "obligations X ctx plan env =
     or_refused plan (ctx_Target X ctx env) (\<lambda>r. case r of
       None \<Rightarrow> Inr (refused plan OutcomeValidationFailed CodeMalformed)
     | Some pre \<Rightarrow>
         let plan = plan\<lparr>pn_Pre := Some pre\<rparr>
         in or_refused plan (obligations_post X ctx pre env) (\<lambda>(work, ev).
              Inr (completed (plan\<lparr>pn_DerivedEvent := ev\<rparr>) work)))"

end
