(* ===== verification/Request_Index.thy ===== *)
theory Request_Index
  imports Mutation_Step
begin

text \<open>
  The request index (\<^verbatim>\<open>internal/tasks/mutation/replay.go\<close>): the replay rule, and the in-memory index with
  its append-only \<^verbatim>\<open>Record\<close>. The locale \<open>request_index\<close> is the interface the rule relies on: what a lookup
  answers after a record, and that nothing is recorded twice. In it, an identical retry of a recorded
  request is answered with the recorded outcome, and the same identifier with other bytes conflicts.
\<close>

subsection \<open>The rule\<close>

definition outcome_of :: "string \<Rightarrow> string \<Rightarrow> string \<Rightarrow> Outcome" where
  "outcome_of rid outcome code = zero_Outcome\<lparr>oc_RequestID := rid, oc_Outcome := outcome, oc_Codes := [code]\<rparr>"

definition replay :: "RequestIndex option \<Rightarrow> string \<Rightarrow> string \<Rightarrow> Outcome option" where
  "replay index rid digest = (case index of
     None \<Rightarrow> Some (outcome_of rid OutcomeValidationFailed CodeMalformed)
   | Some look \<Rightarrow> (case look rid of
       Inl e \<Rightarrow> Some (outcome_of rid OutcomeStorageFailed (e_Code e))
     | Inr None \<Rightarrow> None
     | Inr (Some e) \<Rightarrow>
         if ix_MutationSha256 e = digest then Some ((ix_Outcome e)\<lparr>oc_Replayed := True\<rparr>)
         else Some (outcome_of rid OutcomeRequestIDConflict CodeRequestIDConflict)))"

subsection \<open>The in-memory index\<close>

text \<open>The entries of a nil map are \<open>None\<close>.\<close>

type_synonym MemoryIndex = "(string \<rightharpoonup> IndexEntry) option"

definition NewMemoryIndex :: MemoryIndex where
  "NewMemoryIndex = Some Map.empty"

definition memory_Lookup :: "MemoryIndex \<Rightarrow> RequestIndex" where
  "memory_Lookup m rid = (case m of None \<Rightarrow> Inl (Errorf CodeMalformed ''/requests'') | Some es \<Rightarrow> Inr (es rid))"

definition memory_Record :: "MemoryIndex \<Rightarrow> IndexEntry \<Rightarrow> MemoryIndex res" where
  "memory_Record m e =
     (let es = (case m of None \<Rightarrow> Map.empty | Some es \<Rightarrow> es)
      in if es (ix_RequestID e) \<noteq> None then Inl (Errorf CodeRequestIDConflict ''/requestId'')
         else Inr (Some (es(ix_RequestID e \<mapsto> e))))"

subsection \<open>The interface\<close>

locale request_index =
  fixes lookup :: "'s \<Rightarrow> RequestIndex"
    and store :: "'s \<Rightarrow> IndexEntry \<Rightarrow> 's res"
    and fresh_store :: 's
  assumes fresh: "lookup fresh_store rid = Inr None"
    and stored: "lookup s (ix_RequestID e) = Inr None \<Longrightarrow>
      \<exists>s'. store s e = Inr s' \<and> lookup s' = (lookup s)(ix_RequestID e := Inr (Some e))"
    and once: "lookup s (ix_RequestID e) = Inr (Some d) \<Longrightarrow> \<exists>err. store s e = Inl err"
begin

text \<open>The states reached by recording.\<close>

inductive recorded :: "'s \<Rightarrow> bool" where
  empty: "recorded fresh_store"
| add: "recorded s \<Longrightarrow> store s e = Inr s' \<Longrightarrow> recorded s'"

lemma no_lookup_error: "recorded s \<Longrightarrow> \<exists>r. lookup s rid = Inr r"
proof (induction arbitrary: rid rule: recorded.induct)
  case (add s e s')
  obtain r where r: "lookup s (ix_RequestID e) = Inr r" using add.IH by blast
  then have "r = None" using once [of s e] add.hyps(2) by (cases r) auto
  then have "lookup s' = (lookup s)(ix_RequestID e := Inr (Some e))" using stored [of s e] r add.hyps(2) by auto
  then show ?case using add.IH by (cases "rid = ix_RequestID e") simp_all
qed (simp add: fresh)

text \<open>Recording keeps every earlier entry.\<close>

lemma kept:
  assumes "recorded s" "store s e = Inr s'" "lookup s rid = Inr (Some d)"
  shows "lookup s' rid = Inr (Some d)"
proof -
  obtain r where r: "lookup s (ix_RequestID e) = Inr r" using no_lookup_error [OF assms(1)] by blast
  have n: "lookup s (ix_RequestID e) = Inr None" using r once [of s e] assms(2) by (cases r) auto
  then have "lookup s' = (lookup s)(ix_RequestID e := Inr (Some e))" using stored [of s e] assms(2) by auto
  moreover have "rid \<noteq> ix_RequestID e" using n assms(3) by auto
  ultimately show ?thesis using assms(3) by simp
qed

lemma stored_entry:
  assumes "recorded s" "store s e = Inr s'"
  shows "lookup s' (ix_RequestID e) = Inr (Some e)"
proof -
  obtain r where r: "lookup s (ix_RequestID e) = Inr r" using no_lookup_error [OF assms(1)] by blast
  then have "r = None" using once [of s e] assms(2) by (cases r) auto
  then have "lookup s' = (lookup s)(ix_RequestID e := Inr (Some e))" using stored [of s e] r assms(2) by auto
  then show ?thesis by simp
qed

text \<open>Any sequence of records later, the answer to a recorded request is the one recorded with it.\<close>

inductive later :: "'s \<Rightarrow> 's \<Rightarrow> bool" where
  same: "later s s"
| more: "later s t \<Longrightarrow> store t e = Inr u \<Longrightarrow> later s u"

lemma later_recorded: "later s t \<Longrightarrow> recorded s \<Longrightarrow> recorded t"
  by (induction rule: later.induct) (auto intro: recorded.add)

lemma later_kept: "later s t \<Longrightarrow> recorded s \<Longrightarrow> lookup s rid = Inr (Some d) \<Longrightarrow> lookup t rid = Inr (Some d)"
  by (induction rule: later.induct) (auto intro: kept later_recorded)

lemma replay_later:
  assumes "recorded s" "store s e = Inr s'" "later s' t"
  shows "replay (Some (lookup t)) (ix_RequestID e) digest =
     (if digest = ix_MutationSha256 e then Some ((ix_Outcome e)\<lparr>oc_Replayed := True\<rparr>)
      else Some (outcome_of (ix_RequestID e) OutcomeRequestIDConflict CodeRequestIDConflict))"
proof -
  have "lookup t (ix_RequestID e) = Inr (Some e)"
    using later_kept [OF assms(3) _ stored_entry [OF assms(1,2)]] recorded.add [OF assms(1,2)] by blast
  then show ?thesis by (simp add: replay_def)
qed

end

interpretation memory: request_index memory_Lookup memory_Record NewMemoryIndex
proof
  show "memory_Lookup NewMemoryIndex rid = Inr None" for rid
    by (simp add: memory_Lookup_def NewMemoryIndex_def)
  fix m e
  show "\<exists>s'. memory_Record m e = Inr s' \<and> memory_Lookup s' = (memory_Lookup m)(ix_RequestID e := Inr (Some e))"
    if "memory_Lookup m (ix_RequestID e) = Inr None"
    using that by (cases m) (auto simp: memory_Lookup_def memory_Record_def fun_eq_iff)
  show "\<exists>err. memory_Record m e = Inl err" if "memory_Lookup m (ix_RequestID e) = Inr (Some d)" for d
    using that by (cases m) (auto simp: memory_Lookup_def memory_Record_def)
qed

end
