(* ===== verification/Serials.thy ===== *)
theory Serials
  imports Mutation_Step
begin

text \<open>
  Serial allocation (\<^verbatim>\<open>allocateSerial\<close> of \<^verbatim>\<open>internal/tasks/mutation/apply.go\<close>): the scan for the first serial whose
  token is free under case folding. The scan is bounded by the size of the inventory; it is shown that
  the bound is never what ends it.
\<close>

subsection \<open>Definitions\<close>

definition occupied :: "Inventory \<Rightarrow> string list" where
  "occupied iv = concat (map (\<lambda>tid. case inv_Summary iv tid of
     None \<Rightarrow> [] | Some s \<Rightarrow> [FoldToken (t_Local (sm_TicketID s))]) (inv_IDs iv))"

text \<open>\<^verbatim>\<open>fmt.Sprintf("%s-%04d", prefix, n)\<close> of a serial that is not negative.\<close>

definition serial_token :: "string \<Rightarrow> int \<Rightarrow> string" where
  "serial_token prefix n = prefix @ ''-'' @ pad_num 4 (nat n)"

fun serial_loop :: "string \<Rightarrow> string list \<Rightarrow> nat \<Rightarrow> int \<Rightarrow> (string \<times> string) planning" where
  "serial_loop prefix occ 0 n = refuse OutcomeValidationFailed CodeLimitExceeded"
| "serial_loop prefix occ (Suc tries) n =
     (if n < 0 \<or> n + 1 > int MaxCountValue then refuse OutcomeValidationFailed CodeLimitExceeded
      else let cand = serial_token prefix n
           in if FoldToken cand \<notin> set occ
              then (case ParseToken ''/payload/localToken'' cand MaxLocalTokenBytes of
                  Inl e \<Rightarrow> refuseErr e | Inr _ \<Rightarrow> Inr (cand, CountOf (n + 1)))
              else serial_loop prefix occ tries (n + 1))"

definition allocateSerial :: "Inventory \<Rightarrow> Queue \<Rightarrow> (string \<times> string) planning" where
  "allocateSerial iv q = serial_loop (qm_Prefix q) (occupied iv) (inv_Len iv + 1) (Count_Int (qm_NextSerial q))"

subsection \<open>Tokens of serials\<close>

lemma lower_digit [simp]: "is_digit c \<Longrightarrow> lower_byte c = c"
  by (auto simp: lower_byte_def is_upper_def is_digit_def)

lemma ToLower_digits: "list_all is_digit s \<Longrightarrow> ToLower s = s"
  by (induction s) (auto simp: ToLower_def)

lemma pad_digits: "list_all is_digit (pad_num w n)"
  using format_nat_digits digit_char_is_digit [of 0] unfolding pad_num_def digit_char_0 by (auto simp: list_all_iff)

lemma dec_val_zeros: "dec_val (replicate k CHR ''0'' @ s) = dec_val s"
  by (induction k) (simp_all add: dec_val_def digit_val_def)

lemma pad_num_inj: "pad_num w m = pad_num w n \<longleftrightarrow> m = n"
  by (metis pad_num_def dec_val_zeros dec_val_format)

lemma fold_serial: "FoldToken (serial_token prefix n) = FoldToken prefix @ ''-'' @ pad_num 4 (nat n)"
  using ToLower_digits [OF pad_digits [of 4 "nat n"]]
  by (simp add: serial_token_def FoldToken_def ToLower_def lower_byte_def is_upper_def)

lemma fold_serial_inj: "0 \<le> m \<Longrightarrow> 0 \<le> n \<Longrightarrow> FoldToken (serial_token p m) = FoldToken (serial_token p n) \<longleftrightarrow> m = n"
  by (auto simp: fold_serial pad_num_inj nat_eq_iff2)

lemma length_pad: "n \<le> MaxCountValue \<Longrightarrow> length (pad_num 4 n) \<le> 10"
  using length_format_nat [of n 10] by (auto simp: pad_num_def MaxCountValue_def)

lemma serial_is_token:
  assumes "is_token m prefix" "length prefix + 11 \<le> MaxLocalTokenBytes" "0 \<le> n" "n \<le> int MaxCountValue"
  shows "is_token MaxLocalTokenBytes (serial_token prefix n)"
proof -
  have "length (pad_num 4 (nat n)) \<le> 10" using assms(4) by (intro length_pad) simp
  moreover have "list_all (\<lambda>c. isTokenByte c False) (pad_num 4 (nat n))"
    using pad_digits [of 4 "nat n"] by (auto simp: list_all_iff isTokenByte_def)
  ultimately show ?thesis
    using assms(1,2) by (auto simp: is_token_def serial_token_def isTokenByte_def)
qed

subsection \<open>The scan\<close>

definition free_serial :: "string \<Rightarrow> string list \<Rightarrow> int \<Rightarrow> bool" where
  "free_serial prefix occ n \<longleftrightarrow> FoldToken (serial_token prefix n) \<notin> set occ"

text \<open>What the scan finds: the first free serial of the next \<open>tries\<close>, if the Count range reaches it.\<close>

lemma serial_loop_skip:
  assumes "0 \<le> n" "n + int k + 1 \<le> int MaxCountValue" "k < tries" "\<And>i. i < k \<Longrightarrow> \<not> free_serial prefix occ (n + int i)"
  shows "serial_loop prefix occ tries n = serial_loop prefix occ (tries - k) (n + int k)"
  using assms
proof (induction k arbitrary: tries n)
  case (Suc k)
  obtain t where t: "tries = Suc t" using Suc.prems(3) by (cases tries) auto
  have "\<not> free_serial prefix occ n" using Suc.prems(4) [of 0] by simp
  then have "serial_loop prefix occ tries n = serial_loop prefix occ t (n + 1)"
    using Suc.prems(1,2) by (simp add: t free_serial_def)
  also have "\<dots> = serial_loop prefix occ (t - k) (n + 1 + int k)"
    using Suc.prems t Suc.prems(4) [of "Suc i" for i] by (intro Suc.IH) (simp_all add: add.assoc)
  finally show ?case using t by (simp add: add.assoc)
qed simp

lemma serial_loop_found:
  assumes "0 \<le> n" "n + int k + 1 \<le> int MaxCountValue" "k < tries" "\<And>i. i < k \<Longrightarrow> \<not> free_serial prefix occ (n + int i)"
    and "free_serial prefix occ (n + int k)"
  shows "serial_loop prefix occ tries n =
    (case ParseToken ''/payload/localToken'' (serial_token prefix (n + int k)) MaxLocalTokenBytes of
       Inl e \<Rightarrow> refuseErr e | Inr _ \<Rightarrow> Inr (serial_token prefix (n + int k), CountOf (n + int k + 1)))"
proof -
  obtain t where "tries - k = Suc t" using assms(3) by (metis Suc_diff_Suc)
  then show ?thesis
    using serial_loop_skip [OF assms(1-4)] assms(1,2,5) by (simp add: free_serial_def Let_def)
qed

lemma serial_loop_Inr:
  assumes "serial_loop prefix occ tries n = Inr (tok, nxt)"
  shows "\<exists>k<tries. tok = serial_token prefix (n + int k) \<and> nxt = CountOf (n + int k + 1) \<and> 0 \<le> n \<and>
    n + int k + 1 \<le> int MaxCountValue \<and> free_serial prefix occ (n + int k) \<and> (\<forall>i<k. \<not> free_serial prefix occ (n + int i)) \<and>
    is_token MaxLocalTokenBytes tok"
  using assms
proof (induction tries arbitrary: n)
  case (Suc t)
  show ?case
  proof (cases "free_serial prefix occ n")
    case True
    then show ?thesis using Suc.prems
      by (intro exI [of _ 0]) (auto simp: Let_def free_serial_def refuse_def refuseErr_def split: if_splits sum.splits)
  next
    case False
    then have n: "0 \<le> n" "serial_loop prefix occ t (n + 1) = Inr (tok, nxt)"
      using Suc.prems by (auto simp: Let_def free_serial_def refuse_def split: if_splits)
    obtain k where k: "k < t" "tok = serial_token prefix (n + 1 + int k)" "nxt = CountOf (n + 1 + int k + 1)"
        "n + 1 + int k + 1 \<le> int MaxCountValue" "free_serial prefix occ (n + 1 + int k)"
        "\<forall>i<k. \<not> free_serial prefix occ (n + 1 + int i)" "is_token MaxLocalTokenBytes tok"
      using Suc.IH [OF n(2)] by blast
    have "\<not> free_serial prefix occ (n + int i)" if "i < Suc k" for i
      using that False k(6) by (cases i) (auto simp: add.assoc)
    then show ?thesis using k n by (intro exI [of _ "Suc k"]) (simp add: add.assoc add.left_commute)
  qed
qed (simp add: refuse_def)

text \<open>Among more serials than occupied tokens one is free.\<close>

lemma free_serial_exists:
  assumes "0 \<le> n" "length occ < tries"
  shows "\<exists>k<tries. free_serial prefix occ (n + int k)"
proof (rule ccontr)
  assume "\<not> (\<exists>k<tries. free_serial prefix occ (n + int k))"
  then have sub: "(\<lambda>k. FoldToken (serial_token prefix (n + int k))) ` {..<tries} \<subseteq> set occ"
    by (auto simp: free_serial_def)
  have "inj_on (\<lambda>k. FoldToken (serial_token prefix (n + int k))) {..<tries}"
    using assms(1) by (intro inj_onI) (simp add: fold_serial_inj)
  then have "card {..<tries} \<le> card (set occ)" using card_mono [OF _ sub] by (simp add: card_image)
  then show False using assms(2) card_length [of occ] by simp
qed

lemma occupied_over:
  assumes "inv_over ss iv"
  shows "length (occupied iv) = inv_Len iv" "set (occupied iv) = (\<lambda>s. FoldToken (t_Local (sm_TicketID s))) ` set ss"
    "inv_Len iv = length ss"
proof -
  let ?raw = "\<lambda>s. t_Raw (sm_TicketID s)"
  have d: "distinct (map ?raw ss)" and sm: "inv_sum iv = map_of (map (\<lambda>s. (?raw s, s)) ss)" and ids: "inv_ids iv = sort (map ?raw ss)"
    using assms by (simp_all add: inv_over_def queue_ok_def)
  have look: "inv_sum iv (?raw s) = Some s" if "s \<in> set ss" for s
    unfolding sm using map_of_raw [OF d that, of "\<lambda>s. s"] by simp
  have one: "(case inv_Summary iv tid of None \<Rightarrow> [] | Some s \<Rightarrow> [FoldToken (t_Local (sm_TicketID s))]) =
      [FoldToken (t_Local (sm_TicketID (the (inv_sum iv tid))))]" if "tid \<in> set (inv_ids iv)" for tid
    using that look by (auto simp: ids inv_Summary_def)
  have occ: "occupied iv = map (\<lambda>tid. FoldToken (t_Local (sm_TicketID (the (inv_sum iv tid))))) (inv_ids iv)"
    unfolding occupied_def inv_IDs_def using one by (simp add: concat_map_singleton cong: map_cong)
  show "length (occupied iv) = inv_Len iv" by (simp add: occ inv_Len_def)
  show "set (occupied iv) = (\<lambda>s. FoldToken (t_Local (sm_TicketID s))) ` set ss"
    using look by (force simp: occ ids image_iff)
  show "inv_Len iv = length ss" by (simp add: inv_Len_def ids)
qed

end
