(* ===== verification/Mutation_Apply.thy ===== *)
theory Mutation_Apply
  imports Operator_Note Obligation_Plan Request_Index Serials
begin

text \<open>
  The entry point of the mutation planner (\<^verbatim>\<open>Apply\<close> of \<^verbatim>\<open>internal/tasks/mutation/apply.go\<close>): the trust
  boundary, the input checks, the replay question, the role check and the dispatch to CREATE, the note,
  review and obligation operations and the ordinary steps.
\<close>

subsection \<open>Inputs\<close>

definition binding_validate :: "Binding \<Rightarrow> unit planning" where
  "binding_validate b =
     (if bd_ID b = [] \<and> bd_Role b = [] then refuse OutcomeUnauthorized []
      else (case ParseLabel ''/binding/id'' (bd_ID b) of
          Inl _ \<Rightarrow> refuse OutcomeUnauthorized []
        | Inr _ \<Rightarrow> require (bd_Role b \<in> set Roles) OutcomeUnauthorized []))"

definition checkInputs :: "MutationContext \<Rightarrow> unit planning" where
  "checkInputs ctx =
     (if mc_Queue ctx = None \<or> mc_Policy ctx = None \<or> mc_Inventory ctx = None then refuse OutcomeValidationFailed CodeMalformed
      else if mc_Requests ctx = None then refuse OutcomeValidationFailed CodeMalformed
      else if q_Raw (inv_QueueID (ctx_Inventory ctx)) \<noteq> q_Raw (qm_QueueID (ctx_Queue ctx)) then refuse OutcomeValidationFailed CodeMalformed
      else (case ParseTimestamp ''/context/now'' (mc_Now ctx) of
          Inl _ \<Rightarrow> refuse OutcomeValidationFailed CodeMalformed | Inr _ \<Rightarrow> Inr ()))"

subsection \<open>CREATE\<close>

definition create_role :: "MutationContext \<Rightarrow> CreatePayload \<Rightarrow> unit planning" where
  "create_role ctx p =
     (if ctx_Role ctx = ''IMPORTER'' then require (s_Kind (cp_Source p) = ''IMPORT'') OutcomeUnauthorized []
      else require (ctx_Role ctx \<notin> {''WORKER'', ''SYSTEM'', ''REVIEWER''}) OutcomeUnauthorized [])"

text \<open>The local token with the queue after the allocation.\<close>

definition create_token :: "MutationContext \<Rightarrow> CreatePayload \<Rightarrow> (string \<times> Queue) planning" where
  "create_token ctx p = (case cp_LocalToken p of
     Some loc \<Rightarrow> rbind (err_refused (CheckLocalToken (ctx_Inventory ctx) loc)) (\<lambda>_. Inr (loc, ctx_Queue ctx))
   | None \<Rightarrow> rbind (allocateSerial (ctx_Inventory ctx) (ctx_Queue ctx)) (\<lambda>(loc, nxt). Inr (loc, (ctx_Queue ctx)\<lparr>qm_NextSerial := nxt\<rparr>)))"

definition create_record :: "MutationContext \<Rightarrow> CreatePayload \<Rightarrow> TicketID \<Rightarrow> Record" where
  "create_record ctx p tid = zero_Record\<lparr>
     rec_RequiresPool := cp_RequiresPool p, rec_RequiredRoles := cp_RequiredRoles p, rec_TicketID := tid,
     rec_Revision := ''1'', rec_AcceptanceRevision := ''1'', rec_Status := StatusDraft,
     rec_Title := cp_Title p, rec_Body := cp_Body p, rec_Kind := cp_Kind p, rec_Owner := cp_Owner p, rec_Milestone := cp_Milestone p,
     rec_Priority := cp_Priority p, rec_Order := cp_Order p, rec_Labels := cp_Labels p, rec_Dependencies := cp_Dependencies p,
     rec_AcceptanceCriteria := cp_AcceptanceCriteria p, rec_RequirementRefs := cp_RequirementRefs p, rec_Source := cp_Source p,
     rec_Effects := cp_Effects p, rec_Capabilities := cp_Capabilities p, rec_RequiredGates := cp_RequiredGates p, rec_Holds := [],
     rec_ExecutionClass := cp_ExecutionClass p, rec_Approvals := [], rec_DueDate := cp_DueDate p,
     rec_EstimateMinutes := cp_EstimateMinutes p, rec_Supersedes := cp_Supersedes p, rec_SupersededBy := cp_SupersededBy p,
     rec_ShadowOverlay := False, rec_CreatedAt := mc_Now ctx, rec_UpdatedAt := mc_Now ctx, rec_UpdatedBy := ctx_ID ctx\<rparr>"

definition opened :: "Record \<Rightarrow> Record" where
  "opened rec = (if opens rec then rec\<lparr>rec_Status := StatusOpen\<rparr> else rec)"

definition create_post :: "Externals \<Rightarrow> MutationContext \<Rightarrow> CreatePayload \<Rightarrow> (Record \<times> Queue option) planning" where
  "create_post X ctx p =
     rbind (create_role ctx p) (\<lambda>_.
     rbind (require (\<not> (cp_Milestone p = None \<and> MilestoneRequired (ctx_Policy ctx))) OutcomeValidationFailed CodeMilestoneRequired) (\<lambda>_.
     rbind (require (inv_Len (ctx_Inventory ctx) < MaxTicketsPerQueue) OutcomeValidationFailed CodeLimitExceeded) (\<lambda>_.
     rbind (create_token ctx p) (\<lambda>(loc, q).
     rbind (err_refused (ParseTicketID ''/payload/localToken''
       (''ticket:'' @ q_Authority (qm_QueueID q) @ '':'' @ q_Queue (qm_QueueID q) @ '':'' @ loc))) (\<lambda>tid.
     rbind (err_refused (clone X (opened (create_record ctx p tid)))) (\<lambda>work.
     rbind (checkRecord X ctx None work) (\<lambda>_.
     rbind (revalidate X work) (\<lambda>_. Inr (work, if cp_LocalToken p = None then Some q else None)))))))))"

definition create :: "Externals \<Rightarrow> MutationContext \<Rightarrow> Plan \<Rightarrow> CreatePayload \<Rightarrow> Plan planning" where
  "create X ctx plan p =
     or_refused plan (create_post X ctx p) (\<lambda>(work, q). Inr (completed (plan\<lparr>pn_QueuePost := q\<rparr>) work))"

subsection \<open>The ordinary operations\<close>

definition ordinary_post :: "Externals \<Rightarrow> MutationContext \<Rightarrow> Record \<Rightarrow> MutationEnvelope \<Rightarrow> Payload \<Rightarrow> Record planning" where
  "ordinary_post X ctx pre env p =
     rbind (deref (me_ExpectedRevision env)) (\<lambda>e.
     rbind (require (e = rec_Revision pre) OutcomeRevisionConflict []) (\<lambda>_.
     rbind (clone_err X pre) (\<lambda>work.
     rbind (step X ctx work p) (\<lambda>work.
       finalize X ctx pre work (forcesAcceptanceBump (me_Operation env))))))"

definition ordinary :: "Externals \<Rightarrow> MutationContext \<Rightarrow> Plan \<Rightarrow> MutationEnvelope \<Rightarrow> Payload \<Rightarrow> Plan planning" where
  "ordinary X ctx plan env p =
     or_refused plan (ctx_Target X ctx env) (\<lambda>r. case r of
       None \<Rightarrow> Inr (refused plan OutcomeValidationFailed CodeMalformed)
     | Some pre \<Rightarrow>
         let plan = plan\<lparr>pn_Pre := Some pre\<rparr>
         in or_refused plan (ordinary_post X ctx pre env p) (\<lambda>work. Inr (completed plan work)))"

definition dispatch :: "Externals \<Rightarrow> MutationContext \<Rightarrow> Plan \<Rightarrow> MutationEnvelope \<Rightarrow> Plan planning" where
  "dispatch X ctx plan env =
     (if me_Operation env = OpCreate then
        (case me_Payload env of Some (CreateP p) \<Rightarrow> create X ctx plan p | _ \<Rightarrow> Inr (refused plan OutcomeValidationFailed CodeMalformed))
      else (case me_Payload env of
          None \<Rightarrow> Inr (refused plan OutcomeValidationFailed CodeMalformed)
        | Some p \<Rightarrow>
            if payload_operation p \<noteq> me_Operation env then Inr (refused plan OutcomeValidationFailed CodeMalformed)
            else if IsNoteOperation (me_Operation env) then note_plan X ctx plan env
            else if IsReviewOperation (me_Operation env) then review X ctx plan env
            else if IsObligationOperation (me_Operation env) then obligations X ctx plan env
            else ordinary X ctx plan env p))"

subsection \<open>The entry point\<close>

definition envelope_Sha256 :: "(string \<Rightarrow> string) \<Rightarrow> MutationEnvelope \<Rightarrow> string" where
  "envelope_Sha256 sha256 env = sha256 (me_Raw env)"

definition trusted :: "MutationContext \<Rightarrow> MutationEnvelope \<Rightarrow> unit planning" where
  "trusted ctx env =
     rbind (binding_validate (mc_Binding ctx)) (\<lambda>_.
     rbind (require (act_ID (me_Actor env) = ctx_ID ctx \<and> act_Role (me_Actor env) = ctx_Role ctx) OutcomeUnauthorized []) (\<lambda>_.
     rbind (checkInputs ctx) (\<lambda>_.
       require (q_Raw (me_QueueID env) = q_Raw (qm_QueueID (ctx_Queue ctx))) OutcomeValidationFailed CodeMalformed)))"

definition start_plan :: "Externals \<Rightarrow> MutationEnvelope \<Rightarrow> Plan" where
  "start_plan X env = zero_Plan\<lparr>pn_Outcome := zero_Outcome\<lparr>oc_RequestID := me_RequestID env\<rparr>,
     pn_MutationSha256 := envelope_Sha256 (x_Sum X) env\<rparr>"

definition Apply :: "Externals \<Rightarrow> MutationContext \<Rightarrow> MutationEnvelope option \<Rightarrow> Plan planning" where
  "Apply X ctx oenv = (case oenv of
     None \<Rightarrow> Inr (refused zero_Plan OutcomeValidationFailed CodeMalformed)
   | Some env \<Rightarrow>
       let plan = start_plan X env
       in or_refused plan (trusted ctx env) (\<lambda>_.
          case replay (mc_Requests ctx) (me_RequestID env) (pn_MutationSha256 plan) of
            Some out \<Rightarrow> Inr (plan\<lparr>pn_Outcome := out\<rparr>)
          | None \<Rightarrow>
              or_refused plan (if IsReviewOperation (me_Operation env) then Inr () else checkRole ctx (me_Operation env)) (\<lambda>_.
                dispatch X ctx plan env)))"

end
