(* ===== verification/Planner_Chain.thy ===== *)
theory Planner_Chain
  imports Mutation_Apply
begin

text \<open>
  The lemmas behind the planner's properties: a working copy has the canonical bytes of its record,
  which fields each step can change, and what \<^verbatim>\<open>finalize\<close> accepts.
\<close>

subsection \<open>Records with the same canonical bytes\<close>

text \<open>Go maps have one value for a key; the two maps of a record are association lists here.\<close>

definition go_maps :: "Record \<Rightarrow> bool" where
  "go_maps r \<longleftrightarrow> distinct_val (Record_Value r)"

definition same_bytes :: "Record \<Rightarrow> Record \<Rightarrow> bool" where
  "same_bytes a b \<longleftrightarrow> go_maps a \<and> go_maps b \<and> canon (Record_Value a) = canon (Record_Value b)"

lemma clone_same:
  assumes "clone X r = Inr w" "go_maps r"
  shows "same_bytes r w" "record_ok w"
proof -
  have w: "canon (Record_Value r) = canon (Record_Value w)" "validate (x_Flip X) w = Inr ()"
    using FromValue_read [of "x_Flip X" "Record_Value r" w] assms by (simp_all add: clone_def go_maps_def)
  then show "same_bytes r w"
    using assms(2) distinct_canon [of "Record_Value r"] distinct_canon [of "Record_Value w"] by (simp add: same_bytes_def go_maps_def)
  show "record_ok w" using w(2) by (rule validate_record_ok [THEN iffD1])
qed

lemma object_get_canon:
  assumes "canon (VObject a) = canon (VObject b)" "distinct (map fst a)" "distinct (map fst b)"
  shows "map_option canon (obj_Get a k) = map_option canon (obj_Get b k)"
  using assms obj_Get_canon [OF assms(2), of k] obj_Get_canon [OF assms(3), of k] by simp

lemma same_get:
  assumes "same_bytes a b"
  shows "map_option canon (obj_Get (record_members a) k) = map_option canon (obj_Get (record_members b) k)"
  using assms by (intro object_get_canon) (simp_all add: same_bytes_def go_maps_def Record_Value_def)

text \<open>The members a record always has.\<close>

lemma optional_skip [simp]:
  "k \<noteq> j \<Longrightarrow> map_of (case o1 of None \<Rightarrow> [] | Some x \<Rightarrow> [(j, f x)]) k = None"
  "k \<noteq> j \<Longrightarrow> map_of (if b then [(j, v)] else []) k = None"
  by (auto split: option.split)

lemma required_members:
  "obj_Get (record_members x) ''ticketId'' = Some (VString (t_Raw (rec_TicketID x)))"
  "obj_Get (record_members x) ''revision'' = Some (VString (rec_Revision x))"
  "obj_Get (record_members x) ''acceptanceRevision'' = Some (VString (rec_AcceptanceRevision x))"
  "obj_Get (record_members x) ''status'' = Some (VString (rec_Status x))"
  "obj_Get (record_members x) ''archivedFrom'' = Some (StringOrNull (rec_ArchivedFrom x))"
  "obj_Get (record_members x) ''kind'' = Some (VString (rec_Kind x))"
  "obj_Get (record_members x) ''createdAt'' = Some (VString (rec_CreatedAt x))"
  "obj_Get (record_members x) ''completion'' = Some (Completion_Value (rec_Completion x))"
  "obj_Get (record_members x) ''shadowOverlay'' = Some (VBool (rec_ShadowOverlay x))"
  "obj_Get (record_members x) ''source'' = Some (Source_Value (rec_Source x))"
  by (simp_all add: record_members_def obj_Get_def map_add_def cong: option.case_cong)

lemma relevant_members:
  "obj_Get (record_members x) ''acceptanceCriteria'' = Some (Strings (rec_AcceptanceCriteria x))"
  "obj_Get (record_members x) ''requirementRefs'' = Some (Strings (rec_RequirementRefs x))"
  "obj_Get (record_members x) ''dependencies'' = Some (VArray (map Dependency_Value (rec_Dependencies x)))"
  "obj_Get (record_members x) ''requiredGates'' = Some (Strings (rec_RequiredGates x))"
  "obj_Get (record_members x) ''effects'' = Some (Effects_Value (rec_Effects x))"
  "obj_Get (record_members x) ''capabilities'' = Some (Strings (rec_Capabilities x))"
  "obj_Get (record_members x) ''executionClass'' = Some (VString (rec_ExecutionClass x))"
  "obj_Get (record_members x) ''supersedes'' = Some (ticketOrNull (rec_Supersedes x))"
  by (simp_all add: record_members_def obj_Get_def map_add_def cong: option.case_cong)

lemma optional_here [simp]:
  "map_of (case o1 of None \<Rightarrow> [] | Some x \<Rightarrow> [(k, f x)]) k = map_option f o1"
  "map_of (if b then [(k, v)] else []) k = (if b then Some v else None)"
  by (auto split: option.split)

lemma option_again [simp]: "(case o1 of None \<Rightarrow> None | Some v \<Rightarrow> Some (f v)) = map_option f o1"
  by (simp split: option.split)

lemma optional_members:
  "obj_Get (record_members x) ''requiresPool'' = (if rec_RequiresPool x \<noteq> [] then Some (VString (rec_RequiresPool x)) else None)"
  "obj_Get (record_members x) ''requiredRoles'' = map_option StageRolesValue (rec_RequiredRoles x)"
  by (simp_all add: record_members_def obj_Get_def map_add_def cong: option.case_cong)

lemma same_fields:
  assumes "same_bytes a b"
  shows "t_Raw (rec_TicketID a) = t_Raw (rec_TicketID b)" "rec_Revision a = rec_Revision b"
    "rec_AcceptanceRevision a = rec_AcceptanceRevision b" "rec_Status a = rec_Status b" "rec_ArchivedFrom a = rec_ArchivedFrom b"
    "rec_Kind a = rec_Kind b" "rec_CreatedAt a = rec_CreatedAt b" "rec_ShadowOverlay a = rec_ShadowOverlay b"
  using same_get [OF assms, of "''ticketId''"] same_get [OF assms, of "''revision''"] same_get [OF assms, of "''acceptanceRevision''"]
    same_get [OF assms, of "''status''"] same_get [OF assms, of "''archivedFrom''"] same_get [OF assms, of "''kind''"]
    same_get [OF assms, of "''createdAt''"] same_get [OF assms, of "''shadowOverlay''"]
  by (simp_all add: required_members)

lemma member_distinct: "go_maps r \<Longrightarrow> obj_Get (record_members r) k = Some v \<Longrightarrow> distinct_val v"
  by (auto simp: go_maps_def Record_Value_def obj_Get_def dest: map_of_SomeD)

text \<open>Equal bytes mean no field has changed.\<close>

lemma field_same:
  assumes "go_maps a" "go_maps b" "map_option canon (obj_Get (record_members a) k) = map_option canon (obj_Get (record_members b) k)"
  shows "\<not> fieldChanged a b k"
proof (cases "obj_Get (record_members a) k")
  case None
  then show ?thesis using assms(3) by (simp add: fieldChanged_def get_or_null_def val_Equal_def del: obj_Get_None)
next
  case (Some v)
  then obtain w where w: "obj_Get (record_members b) k = Some w" "canon v = canon w"
    using assms(3) by (cases "obj_Get (record_members b) k") (simp_all del: obj_Get_None)
  then show ?thesis
    using Some canon_Encode [OF w(2)] member_distinct [OF assms(1) Some] member_distinct [OF assms(2) w(1)]
    by (simp add: fieldChanged_def get_or_null_def val_Equal_def)
qed

lemma same_unchanged: "same_bytes a b \<Longrightarrow> \<not> fieldChanged a b k"
  by (intro field_same same_get) (simp_all add: same_bytes_def)

subsection \<open>Fields a change leaves alone\<close>

text \<open>The members that decide acceptance.\<close>

definition relevant_part :: "Record \<Rightarrow> (string \<times> val option) list" where
  "relevant_part r = map (\<lambda>k. (k, obj_Get (record_members r) k)) AcceptanceRelevantFields"

lemma relevant_changed:
  assumes "relevant_part b = relevant_part c"
  shows "acceptanceChanged a b \<longleftrightarrow> acceptanceChanged a c"
proof -
  have "obj_Get (record_members b) k = obj_Get (record_members c) k" if "k \<in> set AcceptanceRelevantFields" for k
    using assms that by (auto simp: relevant_part_def)
  then show ?thesis unfolding acceptanceChanged_def fieldChanged_def get_or_null_def list_ex_iff by auto
qed

lemma relevant_fields:
  assumes "rec_Kind a = rec_Kind b" "rec_AcceptanceCriteria a = rec_AcceptanceCriteria b" "rec_RequirementRefs a = rec_RequirementRefs b"
    "rec_Dependencies a = rec_Dependencies b" "rec_RequiredGates a = rec_RequiredGates b" "rec_Effects a = rec_Effects b"
    "rec_Capabilities a = rec_Capabilities b" "rec_ExecutionClass a = rec_ExecutionClass b" "rec_Supersedes a = rec_Supersedes b"
    "rec_Source a = rec_Source b" "rec_RequiresPool a = rec_RequiresPool b" "rec_RequiredRoles a = rec_RequiredRoles b"
  shows "relevant_part a = relevant_part b"
  by (simp add: relevant_part_def AcceptanceRelevantFields_def required_members relevant_members optional_members assms)

lemma relevant_chained [simp]: "relevant_part (chained X ctx pre work nrev acc) = relevant_part work"
  by (rule relevant_fields) (simp_all add: chained_def)

lemma acceptanceChanged_chained [simp]: "acceptanceChanged a (chained X ctx pre work nrev acc) \<longleftrightarrow> acceptanceChanged a work"
  by (rule relevant_changed) simp

lemma same_not_changed: "same_bytes a b \<Longrightarrow> relevant_part b = relevant_part c \<Longrightarrow> \<not> acceptanceChanged a c"
  using relevant_changed [of b c a] same_unchanged [of a b] by (simp add: acceptanceChanged_def list_ex_iff)

subsection \<open>What \<^verbatim>\<open>finalize\<close> accepts\<close>

lemma require_Inr [simp]: "require b o1 c = Inr u \<longleftrightarrow> b"
  by (simp add: require_def refuse_def)

lemma only_if_Inr [simp]: "only_if b m = Inr u \<longleftrightarrow> (b \<longrightarrow> m = Inr ())"
  by (cases u) (simp add: only_if_def)

lemma refuse_Inr [simp]: "refuse o1 c \<noteq> Inr x"
  by (simp add: refuse_def)

lemma refuseErr_Inr [simp]: "refuseErr e \<noteq> Inr x"
  by (simp add: refuseErr_def)

lemma check_live_Inr [simp]: "check_live ctx work = Inr u \<longleftrightarrow> LiveAttempt ctx work = Unsatisfied"
  by (cases u) (simp add: check_live_def split: Observation.split)

lemma next_count_Inr [simp]: "next_count c = Inr d \<longleftrightarrow> d = CountOf (Count_Int c + 1) \<and> Count_Int c + 1 \<le> int MaxCountValue"
  by (auto simp: next_count_def Let_def)

lemma revalidate_Inr [simp]:
  "revalidate X work = Inr u \<longleftrightarrow> (\<exists>r. FromValue (x_Flip X) (Record_Value work) = Inr r) \<and> length (Record_Encode work) \<le> MaxTicketFileBytes"
  by (cases u) (auto simp: revalidate_def split: sum.splits)

lemma finalize_Inr:
  "finalize X ctx pre work forced = Inr post \<longleftrightarrow>
     (\<exists>nrev acc. let bump = forced \<or> acceptanceChanged pre work in
       \<not> (rec_Status pre = StatusCompleted \<and> acceptanceChanged pre work) \<and> checkRecord X ctx (Some pre) work = Inr () \<and>
       (bump \<longrightarrow> LiveAttempt ctx work = Unsatisfied) \<and>
       nrev = CountOf (Count_Int (rec_Revision pre) + 1) \<and> Count_Int (rec_Revision pre) + 1 \<le> int MaxCountValue \<and>
       (if bump then acc = CountOf (Count_Int (rec_AcceptanceRevision pre) + 1) \<and> Count_Int (rec_AcceptanceRevision pre) + 1 \<le> int MaxCountValue
        else acc = rec_AcceptanceRevision pre) \<and>
       post = chained X ctx pre work nrev acc \<and> revalidate X post = Inr ())"
  unfolding finalize_def Let_def
  by (auto simp del: revalidate_Inr)

lemma Count_succ: "1 \<le> Count_Int c \<Longrightarrow> Count_Int c + 1 \<le> int MaxCountValue \<Longrightarrow> Count_Int (CountOf (Count_Int c + 1)) = Count_Int c + 1"
  by (subst Count_Int_CountOf) (simp_all add: MaxCountValue_def)

end
