(* ===== verification/Planner_Laws.thy ===== *)
theory Planner_Laws
  imports Planner_Chain
begin

text \<open>
  The laws of the planner the properties rest on: which outcomes each part can refuse with, what a plan
  of each branch of \<^verbatim>\<open>Apply\<close> looks like, and how every payload moves the status of a record.
\<close>

subsection \<open>The outcomes of a refusal\<close>

definition RefusalOutcomes :: "string set" where
  "RefusalOutcomes = {OutcomeUnauthorized, OutcomeValidationFailed, OutcomeBlocked, OutcomeRevisionConflict, OutcomeUnsupported}"

text \<open>
  What a planning step may stop with: a refusal with a closed outcome, the panic of a record that cannot
  be loaded, or the dependency search when it does not return; never a nil pointer.
\<close>

definition allowed :: "Externals \<Rightarrow> MutationContext \<Rightarrow> stop \<Rightarrow> bool" where
  "allowed X ctx s = (case s of
     Refuse o1 c \<Rightarrow> o1 \<in> RefusalOutcomes
   | Panic e \<Rightarrow> \<exists>raw. fst (inv_Get (x_Load X) raw (ctx_Inventory ctx)) = Inl e
   | NilDeref \<Rightarrow> False
   | Hang \<Rightarrow> \<exists>work. CheckDependencies (ctx_Inventory ctx) work = None)"

definition lawful :: "Externals \<Rightarrow> MutationContext \<Rightarrow> 'a planning \<Rightarrow> bool" where
  "lawful X ctx m \<longleftrightarrow> (\<forall>s. m = Inl s \<longrightarrow> allowed X ctx s)"

lemma lawful_values [simp]:
  "lawful X ctx (Inr x)" "lawful X ctx (Inl s) \<longleftrightarrow> allowed X ctx s" "lawful X ctx (refuse o1 c) \<longleftrightarrow> o1 \<in> RefusalOutcomes"
  by (auto simp: lawful_def refuse_def allowed_def)

lemma allowed_Refuse [simp]: "allowed X ctx (Refuse o1 c) \<longleftrightarrow> o1 \<in> RefusalOutcomes"
  by (simp add: allowed_def)

lemma lawful_rbind [intro]:
  "lawful X ctx m \<Longrightarrow> (\<And>x. m = Inr x \<Longrightarrow> lawful X ctx (f x)) \<Longrightarrow> lawful X ctx (rbind m f)"
  by (cases m) (auto simp: lawful_def)

lemma lawful_if [intro]: "(b \<Longrightarrow> lawful X ctx m) \<Longrightarrow> (\<not> b \<Longrightarrow> lawful X ctx n) \<Longrightarrow> lawful X ctx (if b then m else n)"
  by simp

lemma refusal_outcomes [simp]:
  "OutcomeUnauthorized \<in> RefusalOutcomes" "OutcomeValidationFailed \<in> RefusalOutcomes" "OutcomeBlocked \<in> RefusalOutcomes"
  "OutcomeRevisionConflict \<in> RefusalOutcomes" "OutcomeUnsupported \<in> RefusalOutcomes" "OutcomeCompleted \<notin> RefusalOutcomes"
  by (simp_all add: RefusalOutcomes_def outcome_defs)

lemma lawful_basic [simp]:
  "lawful X ctx (refuseErr e)"
  "lawful X ctx (require b o1 c) \<longleftrightarrow> b \<or> o1 \<in> RefusalOutcomes"
  "lawful X ctx (err_refused r)"
  "lawful X ctx (only_if b m) \<longleftrightarrow> (b \<longrightarrow> lawful X ctx m)"
  "lawful X ctx (ctx_Get X ctx raw)"
  by (auto simp: refuseErr_def require_def err_refused_def only_if_def ctx_Get_def allowed_def split: sum.split)

lemma lawful_screen_loop [simp]: "lawful X ctx (screen_loop s fs)"
  by (induction s fs rule: screen_loop.induct) auto

lemma lawful_screens [simp]: "lawful X ctx (screenValues s fs)" "lawful X ctx (screenKnowHowPaths secret an ro ev)" "lawful X ctx (screenKnowHow secret fs add)"
  "lawful X ctx (noteScreen secret s txt)"
proof -
  show a: "lawful X ctx (screenValues s fs)" for s fs
    unfolding screenValues_def by (auto split: option.split sum.split)
  show b: "lawful X ctx (screenKnowHowPaths secret an ro ev)" for secret an ro ev
    by (simp add: screenKnowHowPaths_def Let_def)
  show "lawful X ctx (screenKnowHow secret fs add)"
    unfolding screenKnowHow_def using b by (auto split: option.split)
  show "lawful X ctx (noteScreen secret s txt)"
    unfolding noteScreen_def using a by auto
qed

lemma lawful_entries [simp]:
  "lawful X ctx (add_entry X ctx work p)" "lawful X ctx (retract_entry X ctx work n reason)" "lawful X ctx (reconfirm_entry X ctx work k)"
  unfolding add_entry_def retract_entry_def reconfirm_entry_def Let_def
  by ((rule lawful_rbind)?, simp)+

lemma lawful_anchors [simp]: "lawful X ctx (anchors_covered touch ans)"
  by (induction touch ans rule: anchors_covered.induct) simp_all

lemma lawful_scope [simp]: "lawful X ctx (workerKnowHowScope ctx work p)"
  unfolding workerKnowHowScope_def Let_def by (auto intro!: lawful_rbind)

lemma lawful_limits [simp]: "lawful X ctx (role_limits ctx work p)"
  unfolding role_limits_def Let_def by (cases p) auto

lemma lawful_steps [simp]:
  "lawful X ctx (step_refine ctx work r)" "lawful X ctx (live_only work f)" "lawful X ctx (step_hold ctx work hid reason c)" "lawful X ctx (step_release work hid)"
  "lawful X ctx (step_reopen ctx work reason)" "lawful X ctx (step_complete ctx work reason evidence)" "lawful X ctx (step_attach ctx work evidence reason)"
  "lawful X ctx (step_progress ctx work mark)" "lawful X ctx (step_grant ctx work g)" "lawful X ctx (step_revoke work gid)"
  unfolding step_refine_def live_only_def step_hold_def step_release_def step_reopen_def step_complete_def step_attach_def
    step_progress_def step_grant_def step_revoke_def Let_def
  by (auto split: option.split)

lemma lawful_reason [simp]: "lawful X ctx (step_reason ctx work op reason)"
  unfolding step_reason_def by (auto split: option.split)

lemma lawful_knowHow [simp]: "(\<And>w. lawful X ctx (entry w)) \<Longrightarrow> lawful X ctx (knowHowStep X ctx work entry)"
  unfolding knowHowStep_def by auto

lemma lawful_payload [simp]: "lawful X ctx (step_payload X ctx work p)"
  unfolding step_payload_def by (cases p) simp_all

lemma lawful_step [simp]: "lawful X ctx (step X ctx work p)"
  unfolding step_def Let_def checkRole_def by (auto intro!: lawful_rbind)

lemma lawful_prerequisites [simp]: "lawful X ctx (prerequisite_loop X ctx ps)"
  by (induction X ctx ps rule: prerequisite_loop.induct) (auto intro!: lawful_rbind)

lemma lawful_dependencies [simp]: "lawful X ctx (check_dependencies ctx work)"
  by (auto simp: check_dependencies_def allowed_def split: option.split)

lemma lawful_checks [simp]: "lawful X ctx (checkRecord X ctx pre work)"
  unfolding checkRecord_def check_gates_def checkPrerequisites_def check_supersedes_def check_superseded_def Let_def
  by (auto intro!: lawful_rbind split: option.split)

lemma lawful_revalidate [simp]: "lawful X ctx (revalidate X work)"
  unfolding revalidate_def by (simp split: sum.split)

lemma lawful_finalize [simp]: "lawful X ctx (finalize X ctx pre work forced)"
  unfolding finalize_def check_live_def next_count_def Let_def by (auto intro!: lawful_rbind split: Observation.split)

lemma lawful_clone [simp]: "lawful X ctx (clone_err X pre)" "lawful X ctx (advances_only pre work)"
  by (simp_all add: clone_err_def advances_only_def split: sum.split)

text \<open>What a successful or a refusing computation tells, as \<open>strict\<close> reading of the first stop.\<close>

lemma deref_simps [simp]:
  "deref (Some x) = Inr x" "deref p = Inr x \<longleftrightarrow> p = Some x" "deref p \<noteq> Inl (Refuse o1 c)" "lawful X ctx (deref p) \<longleftrightarrow> p \<noteq> None"
  by (auto simp: deref_def allowed_def split: option.split)

lemma lawful_Refuse: "lawful X ctx m \<Longrightarrow> m = Inl (Refuse o1 c) \<Longrightarrow> o1 \<in> RefusalOutcomes"
  by (auto simp: lawful_def)

lemma deref_Refuse:
  assumes "rbind (deref p) f = Inl (Refuse o1 c)" "\<And>x. lawful X ctx (f x)"
  shows "o1 \<in> RefusalOutcomes"
  using assms(1) lawful_Refuse [OF assms(2)] by (cases p) (auto simp: deref_def)

lemma ordinary_Refuse: "ordinary_post X ctx pre env p = Inl (Refuse o1 c) \<Longrightarrow> o1 \<in> RefusalOutcomes"
  unfolding ordinary_post_def by (erule deref_Refuse [where X = X and ctx = ctx]) (auto intro!: lawful_rbind)

lemma lawful_ordinary: "me_ExpectedRevision env \<noteq> None \<Longrightarrow> lawful X ctx (ordinary_post X ctx pre env p)"
  unfolding ordinary_post_def by (auto intro!: lawful_rbind)

lemma lawful_Target: "me_TargetID env \<noteq> None \<Longrightarrow> lawful X ctx (ctx_Target X ctx env)"
  unfolding ctx_Target_def by (auto intro!: lawful_rbind)

lemma Target_Refuse [simp]: "ctx_Target X ctx env \<noteq> Inl (Refuse o1 c)"
  by (auto simp: ctx_Target_def deref_def ctx_Get_def split: option.splits sum.splits)

lemma lawful_inputs [simp]: "lawful X ctx (checkInputs ctx)" "lawful X ctx (binding_validate b)" "lawful X ctx (checkRole ctx op)"
  by (simp_all add: checkInputs_def binding_validate_def checkRole_def split: sum.split)

lemma lawful_trusted [simp]: "lawful X ctx (trusted ctx env)"
  unfolding trusted_def by (intro lawful_rbind) simp_all

lemma lawful_serials [simp]: "lawful X ctx (serial_loop prefix occ tries n)"
  by (induction prefix occ tries n rule: serial_loop.induct) (auto simp: Let_def split: sum.split)

lemma lawful_allocate [simp]: "lawful X ctx (allocateSerial iv q)"
  unfolding allocateSerial_def by (rule lawful_serials)

lemma lawful_create [simp]: "lawful X ctx (create_post X ctx p)"
  unfolding create_post_def create_role_def create_token_def
  by (auto intro!: lawful_rbind split: option.split)

text \<open>The refusals of the note proposal carry their outcome.\<close>

definition note_lawful :: "note_error + 'a \<Rightarrow> bool" where
  "note_lawful m \<longleftrightarrow> (\<forall>o1 loc. m = Inl (NoteRefusal o1 loc) \<longrightarrow> o1 \<in> RefusalOutcomes)"

lemma note_lawful_values [simp]:
  "note_lawful (Inr x)" "note_lawful (Inl (NoteWire e))" "note_lawful (Inl (NoteRefusal o1 loc)) \<longleftrightarrow> o1 \<in> RefusalOutcomes"
  "note_lawful (note_wire r)"
  by (auto simp: note_lawful_def note_wire_def map_sum_def split: sum.splits)

lemma note_lawful_rbind [intro]:
  "note_lawful m \<Longrightarrow> (\<And>x. note_lawful (f x)) \<Longrightarrow> note_lawful (rbind m f)"
  by (cases m) (auto simp: note_lawful_def)

lemma note_lawful_propose [simp]: "note_lawful (ProposeOperatorNote X c raw)"
  unfolding ProposeOperatorNote_def note_bound_def note_ticket_def note_proposal_def Let_def
  by (auto intro!: note_lawful_rbind split: option.split)

lemma lawful_note_refused [simp]: "note_lawful m \<Longrightarrow> lawful X ctx (note_refused m)"
  by (cases m) (auto simp: note_refused_def note_lawful_def split: note_error.splits)

lemma lawful_note [simp]: "lawful X ctx (note_post X ctx pre env)"
  unfolding note_post_def by (auto intro!: lawful_rbind split: option.split Payload.split)

text \<open>A review the transaction layer did not accept is refused with the outcome that layer observed.\<close>

lemma review_rest [simp]:
  "lawful X ctx (rbind (clone_err X pre) (\<lambda>work. rbind (review_record x work) (\<lambda>work.
     rbind (finalize X ctx pre work False) (\<lambda>post. rbind (advances_only pre post) (\<lambda>_. Inr (post, xp_Event x))))))"
  unfolding review_record_def by (auto intro!: lawful_rbind)

lemma review_stop:
  assumes "review_post X ctx pre env = Inl s"
  shows "allowed X ctx s \<or> (\<exists>x c. mc_ExternalReview ctx = Some x \<and> s = Refuse (xp_Outcome x) c)"
proof (cases "review_observed X ctx")
  case (Inl s')
  then have "allowed X ctx s' \<or> (\<exists>x c. mc_ExternalReview ctx = Some x \<and> s' = Refuse (xp_Outcome x) c)"
    by (auto simp: review_observed_def refuse_def split: option.splits if_splits)
  then show ?thesis using assms Inl by (auto simp: review_post_def refuse_def split: if_splits)
next
  case (Inr x)
  then show ?thesis
    using assms review_rest [of X ctx pre x] by (auto simp: review_post_def refuse_def lawful_def split: if_splits)
qed

text \<open>An obligation write refuses with the same outcomes, whatever its payload; with an obligation payload it does not panic.\<close>

lemma lawful_agree [simp]: "lawful X ctx (credits_agree ws cs)"
  by (induction ws cs rule: credits_agree.induct) (auto simp: mismatch_def)

lemma lawful_prefix_loop [simp]: "lawful X ctx (prefix_loop X ctx pre prefix ids)"
  by (induction X ctx pre prefix ids rule: prefix_loop.induct) auto

lemma lawful_report [simp]: "lawful X ctx (report_matches c l w)" "lawful X ctx (report_check ctx l p)"
proof -
  show a: "lawful X ctx (report_matches c l w)" for c l w
    unfolding report_matches_def by (auto simp: mismatch_def Let_def split: option.split)
  show "lawful X ctx (report_check ctx l p)"
    unfolding report_check_def by (auto simp: a split: ObligationsPayload.split)
qed

lemma lawful_authority [simp]: "lawful X ctx (obligationAuthority ctx pre p)"
  unfolding obligationAuthority_def set_authority_def witness_authority_def repository_authority_def worker_witness_def Let_def
  by (auto intro!: lawful_rbind split: ObligationsPayload.split option.split)

lemma lawful_prior_ledger [simp]: "lawful X ctx (prior_ledger X ctx pre)" "lawful X ctx (first_write X ctx pre p)"
  by (auto simp: prior_ledger_def first_write_def split: option.split sum.split ObligationsPayload.split)

lemma lawful_write [simp]: "lawful X ctx (obligation_write X ctx pre env p)"
  unfolding obligation_write_def obligation_checks_def screenObligations_def by (auto intro!: lawful_rbind)

lemma lawful_write_state [simp]: "lawful X ctx (write_state pre env)"
  unfolding write_state_def by (auto intro!: lawful_rbind)

lemma lawful_obligations: "me_Payload env = Some (ObligationsP q) \<Longrightarrow> lawful X ctx (obligations_post X ctx pre env)"
  unfolding obligations_post_def by (auto intro!: lawful_rbind simp: obligations_of_def)

lemma obligations_Refuse:
  assumes "obligations_post X ctx pre env = Inl (Refuse o1 c)"
  shows "o1 \<in> RefusalOutcomes"
proof (cases "\<exists>q. me_Payload env = Some (ObligationsP q)")
  case True
  then have "lawful X ctx (obligations_post X ctx pre env)" by (auto intro: lawful_obligations)
  then show ?thesis using assms by (rule lawful_Refuse)
next
  case False
  then have "obligations_of (me_Payload env) = Inl NilDeref"
    by (auto simp: obligations_of_def split: option.split Payload.split)
  then show ?thesis
    using assms lawful_Refuse [OF lawful_write_state [of X ctx pre env]] by (cases "write_state pre env") (auto simp: obligations_post_def)
qed

subsection \<open>The plans of each branch\<close>

lemma or_refused_Inr:
  "or_refused p m f = Inr plan \<longleftrightarrow>
     (\<exists>o1 c. m = Inl (Refuse o1 c) \<and> plan = refused p o1 c) \<or> (\<exists>x. m = Inr x \<and> f x = Inr plan)"
  by (auto simp: or_refused_def split: sum.splits stop.splits)

text \<open>What a refusal reports: one of the closed outcomes, or the one observed for a review, and nothing to commit.\<close>

definition closed_outcome :: "MutationContext \<Rightarrow> MutationEnvelope \<Rightarrow> string \<Rightarrow> bool" where
  "closed_outcome ctx env o1 \<longleftrightarrow> o1 \<in> RefusalOutcomes \<or>
     IsReviewOperation (me_Operation env) \<and> (\<exists>x. mc_ExternalReview ctx = Some x \<and> xp_Outcome x = o1)"

lemma closed_outcomes [simp]: "o1 \<in> RefusalOutcomes \<Longrightarrow> closed_outcome ctx env o1"
  by (simp add: closed_outcome_def)

definition nothing_planned :: "MutationContext \<Rightarrow> MutationEnvelope \<Rightarrow> Plan \<Rightarrow> bool" where
  "nothing_planned ctx env plan \<longleftrightarrow> pn_Post plan = None \<and> pn_QueuePost plan = None \<and> pn_DerivedEvent plan = None \<and>
     closed_outcome ctx env (oc_Outcome (pn_Outcome plan)) \<and> \<not> oc_Replayed (pn_Outcome plan) \<and>
     oc_ResultingRevision (pn_Outcome plan) = None \<and> oc_ResultingAcceptanceRevision (pn_Outcome plan) = None \<and>
     oc_ReceiptSeq (pn_Outcome plan) = None \<and> length (oc_Codes (pn_Outcome plan)) \<le> 1"

lemma refused_plan [simp]: "nothing_planned ctx env (refused p o1 c) \<longleftrightarrow> closed_outcome ctx env o1"
  by (simp add: nothing_planned_def refused_def)

lemma refused_unplanned [simp]: "\<not> Planned (refused p o1 c)"
  by (simp add: Planned_def refused_def)

definition turned_down :: "MutationContext \<Rightarrow> MutationEnvelope \<Rightarrow> Plan \<Rightarrow> bool" where
  "turned_down ctx env plan \<longleftrightarrow> (\<exists>p o1 c. plan = refused p o1 c \<and> closed_outcome ctx env o1)"

lemma turned_down_refused [simp]: "closed_outcome ctx env o1 \<Longrightarrow> turned_down ctx env (refused p o1 c)"
  by (auto simp: turned_down_def)

lemma turned_down_nothing: "turned_down ctx env plan \<Longrightarrow> nothing_planned ctx env plan"
  and turned_down_unplanned: "turned_down ctx env plan \<Longrightarrow> \<not> Planned plan"
  by (auto simp: turned_down_def)

text \<open>What an accepted plan reports: the revisions of its post record.\<close>

definition reports :: "Plan \<Rightarrow> Record \<Rightarrow> bool" where
  "reports plan post \<longleftrightarrow> pn_Post plan = Some post \<and> oc_Outcome (pn_Outcome plan) = OutcomeCompleted \<and> \<not> oc_Replayed (pn_Outcome plan) \<and>
     oc_ResultingRevision (pn_Outcome plan) = Some (rec_Revision post) \<and>
     oc_ResultingAcceptanceRevision (pn_Outcome plan) = Some (rec_AcceptanceRevision post) \<and> oc_Codes (pn_Outcome plan) = []"

lemma completed_reports [simp]: "reports (completed p post) post"
  by (simp add: reports_def completed_def)

text \<open>The change of an accepted plan on an existing record: the working copy it submits to \<^verbatim>\<open>finalize\<close>.\<close>

definition change :: "Externals \<Rightarrow> MutationContext \<Rightarrow> MutationEnvelope \<Rightarrow> Record \<Rightarrow> Record \<Rightarrow> bool" where
  "change X ctx env pre work \<longleftrightarrow> (\<exists>w0. clone X pre = Inr w0 \<and>
     (\<not> IsNoteOperation (me_Operation env) \<and> \<not> IsReviewOperation (me_Operation env) \<and> \<not> IsObligationOperation (me_Operation env) \<and>
        (\<exists>p. me_Payload env = Some p \<and> payload_operation p = me_Operation env \<and>
          me_ExpectedRevision env = Some (rec_Revision pre) \<and> step X ctx w0 p = Inr work) \<or>
      IsNoteOperation (me_Operation env) \<and>
        (\<exists>n r. Decode (x_Flip X) (Record_Encode pre) = Inr r \<and> rec_Status r \<noteq> StatusArchived \<and>
          (\<exists>q. DecodeOperatorNoteRequest (me_Raw env) = Inr q \<and> nr_ExpectedRevision q \<in> {None, Some (rec_Revision r)}) \<and> work = w0\<lparr>rec_OperatorNote := Some n\<rparr>) \<or>
      IsReviewOperation (me_Operation env) \<and> rec_Status pre \<noteq> StatusArchived \<and> me_ExpectedRevision env \<in> {None, Some (rec_Revision pre)} \<and>
        (\<exists>g x. work = w0\<lparr>rec_ExternalReviews := set_review g x (rec_ExternalReviews w0)\<rparr>) \<or>
      IsObligationOperation (me_Operation env) \<and> me_ExpectedRevision env = Some (rec_Revision pre) \<and>
        (rec_Status pre = StatusOpen \<or> rec_Status pre = StatusHeld) \<and> (\<exists>ref. work = w0\<lparr>rec_ObligationsRef := Some ref\<rparr>)))"

lemma err_refused_Inr [simp]: "err_refused r = Inr v \<longleftrightarrow> r = Inr v"
  by (simp add: err_refused_def split: sum.split)

lemma clone_err_Inr [simp]: "clone_err X pre = Inr w \<longleftrightarrow> clone X pre = Inr w"
  by (simp add: clone_err_def split: sum.split)

lemma unforced: "IsNoteOperation op \<Longrightarrow> \<not> forcesAcceptanceBump op" "IsReviewOperation op \<Longrightarrow> \<not> forcesAcceptanceBump op"
  "IsObligationOperation op \<Longrightarrow> \<not> forcesAcceptanceBump op"
  by (auto simp: IsNoteOperation_def IsReviewOperation_def IsObligationOperation_def forcesAcceptanceBump_def op_defs)

lemma ordinary_change:
  assumes "ordinary_post X ctx pre env p = Inr post" "me_Payload env = Some p" "payload_operation p = me_Operation env"
    "\<not> IsNoteOperation (me_Operation env)" "\<not> IsReviewOperation (me_Operation env)" "\<not> IsObligationOperation (me_Operation env)"
  shows "\<exists>work. change X ctx env pre work \<and> finalize X ctx pre work (forcesAcceptanceBump (me_Operation env)) = Inr post"
  using assms unfolding ordinary_post_def change_def by (auto simp del: finalize_Inr)

lemma note_accepted:
  assumes "note_refused (ProposeOperatorNote X (note_context X ctx pre env) raw) = Inr prop"
  shows "\<exists>r. Decode (x_Flip X) (Record_Encode pre) = Inr r \<and> rec_Status r \<noteq> StatusArchived \<and>
    (\<exists>q. DecodeOperatorNoteRequest raw = Inr q \<and> nr_ExpectedRevision q \<in> {None, Some (rec_Revision r)})"
proof -
  have "ProposeOperatorNote X (note_context X ctx pre env) raw = Inr prop"
    using assms by (auto simp: note_refused_def refuse_def refuseErr_def split: sum.splits note_error.splits if_splits)
  then obtain r q where "note_wire (Decode (x_Flip X) (Record_Encode pre)) = Inr r" "note_ticket q r = Inr ()"
      "note_wire (DecodeOperatorNoteRequest raw) = Inr q"
    unfolding ProposeOperatorNote_def note_context_def by auto
  then show ?thesis by (auto simp: note_wire_def note_ticket_def map_sum_def split: sum.splits if_splits option.splits)
qed

lemma note_change:
  assumes "note_post X ctx pre env = Inr (post, ev)" "IsNoteOperation (me_Operation env)"
  shows "\<exists>work. change X ctx env pre work \<and> finalize X ctx pre work (forcesAcceptanceBump (me_Operation env)) = Inr post"
proof -
  obtain w0 pr where w: "clone X pre = Inr w0" "finalize X ctx pre (w0\<lparr>rec_OperatorNote := Some (np_Reference pr)\<rparr>) False = Inr post"
      "note_refused (ProposeOperatorNote X (note_context X ctx pre env) (me_Raw env)) = Inr pr"
    using assms(1) unfolding note_post_def by (auto simp del: finalize_Inr)
  have "change X ctx env pre (w0\<lparr>rec_OperatorNote := Some (np_Reference pr)\<rparr>)"
    using note_accepted [OF w(3)] w(1) assms(2) unfolding change_def by blast
  then show ?thesis using w(2) unforced(1) [OF assms(2)] by auto
qed

lemma review_change:
  assumes "review_post X ctx pre env = Inr (post, ev)" "IsReviewOperation (me_Operation env)"
  shows "\<exists>work. change X ctx env pre work \<and> finalize X ctx pre work (forcesAcceptanceBump (me_Operation env)) = Inr post"
proof -
  obtain w0 work x where w: "clone X pre = Inr w0" "review_record x w0 = Inr work" "finalize X ctx pre work False = Inr post"
      "rec_Status pre \<noteq> StatusArchived" "me_ExpectedRevision env \<in> {None, Some (rec_Revision pre)}"
    using assms(1) by (auto simp: review_post_def split: if_splits option.splits)
  have "work = w0\<lparr>rec_ExternalReviews := set_review (xp_GateID x) (xp_Ref x) (rec_ExternalReviews w0)\<rparr>"
    using w(2) by (simp add: review_record_def split: if_splits)
  then have "change X ctx env pre work" using w assms(2) unfolding change_def by blast
  then show ?thesis using w(3) unforced(2) [OF assms(2)] by auto
qed

text \<open>What an accepted obligation write went through.\<close>

lemma obligations_accepted:
  assumes "obligations_post X ctx pre env = Inr (post, ev)"
  obtains p l blob e nxt w0 where
    "me_Payload env = Some (ObligationsP p)" "write_state pre env = Inr ()" "obligation_checks X ctx pre p = Inr l"
    "Event_Encode (x_Sum X) (derived_event X pre env) = Inr blob" "ev = Some blob" "DecodeObligationEvent (x_Sum X) blob = Inr e"
    "ApplyObligationEvent l e (x_Sum X blob) = Inr nxt" "clone X pre = Inr w0"
    "finalize X ctx pre (w0\<lparr>rec_ObligationsRef := Some (next_reference ctx pre p (x_Sum X blob) nxt)\<rparr>) False = Inr post"
    "advances_only pre post = Inr ()"
  using assms unfolding obligations_post_def obligation_write_def
  by (auto simp: obligations_of_def simp del: finalize_Inr split: option.splits Payload.splits)

lemma write_state_Inr: "write_state pre env = Inr u \<longleftrightarrow> me_ExpectedRevision env = Some (rec_Revision pre) \<and>
    s_Kind (rec_Source pre) = ''NATIVE'' \<and> \<not> rec_ShadowOverlay pre \<and> (rec_Status pre = StatusOpen \<or> rec_Status pre = StatusHeld)"
  by (auto simp: write_state_def)

lemma obligations_change:
  assumes "obligations_post X ctx pre env = Inr (post, ev)" "IsObligationOperation (me_Operation env)"
  shows "\<exists>work. change X ctx env pre work \<and> finalize X ctx pre work (forcesAcceptanceBump (me_Operation env)) = Inr post"
proof -
  obtain ref w0 where w: "write_state pre env = Inr ()" "clone X pre = Inr w0"
      "finalize X ctx pre (w0\<lparr>rec_ObligationsRef := Some ref\<rparr>) False = Inr post"
    using obligations_accepted [OF assms(1)] by blast
  have "change X ctx env pre (w0\<lparr>rec_ObligationsRef := Some ref\<rparr>)"
    using w(1,2) assms(2) unfolding change_def write_state_Inr by blast
  then show ?thesis using w(3) unforced(3) [OF assms(2)] by auto
qed

text \<open>The four branches on an existing record.\<close>

definition changes :: "Externals \<Rightarrow> MutationContext \<Rightarrow> MutationEnvelope \<Rightarrow> Plan \<Rightarrow> bool" where
  "changes X ctx env plan \<longleftrightarrow> (\<exists>pre work post. pn_Pre plan = Some pre \<and>
     ctx_Target X ctx env = Inr (Some pre) \<and> change X ctx env pre work \<and>
     finalize X ctx pre work (forcesAcceptanceBump (me_Operation env)) = Inr post \<and> reports plan post \<and>
     pn_QueuePost plan = None \<and>
     (pn_DerivedEvent plan \<noteq> None \<longrightarrow> IsNoteOperation (me_Operation env) \<or> IsReviewOperation (me_Operation env) \<or>
        IsObligationOperation (me_Operation env)))"

definition blank :: "Plan \<Rightarrow> bool" where
  "blank plan \<longleftrightarrow> pn_QueuePost plan = None \<and> pn_DerivedEvent plan = None"

lemma start_blank [simp]: "blank (start_plan X env)"
  by (simp add: blank_def start_plan_def zero_Plan_def)

lemma reports_event [simp]: "pn_Pre (completed p w) = pn_Pre p" "pn_QueuePost (completed p w) = pn_QueuePost p"
  "pn_DerivedEvent (completed p w) = pn_DerivedEvent p"
  by (simp_all add: completed_def)

lemma record_plan:
  assumes "or_refused plan (ctx_Target X ctx env) (\<lambda>r. case r of
      None \<Rightarrow> Inr (refused plan OutcomeValidationFailed CodeMalformed)
    | Some pre \<Rightarrow> or_refused (plan\<lparr>pn_Pre := Some pre\<rparr>) (m pre) (\<lambda>x. Inr (f (plan\<lparr>pn_Pre := Some pre\<rparr>) x))) = Inr plan'"
    and law: "\<And>pre o1 c. m pre = Inl (Refuse o1 c) \<Longrightarrow> closed_outcome ctx env o1"
  shows "turned_down ctx env plan' \<or>
    (\<exists>pre x. ctx_Target X ctx env = Inr (Some pre) \<and> m pre = Inr x \<and> plan' = f (plan\<lparr>pn_Pre := Some pre\<rparr>) x)"
proof -
  have law: "turned_down ctx env (refused p o1 c)" if "m pre = Inl (Refuse o1 c)" for p pre o1 c
    using law [of pre] that by (auto simp: turned_down_def)
  show ?thesis using assms(1) law unfolding or_refused_Inr by (auto split: option.splits simp: or_refused_Inr)
qed

lemma ordinary_plan:
  assumes "ordinary X ctx plan env p = Inr plan'" "me_Payload env = Some p" "payload_operation p = me_Operation env"
    "\<not> IsNoteOperation (me_Operation env)" "\<not> IsReviewOperation (me_Operation env)" "\<not> IsObligationOperation (me_Operation env)" "blank plan"
  shows "turned_down ctx env plan' \<or> changes X ctx env plan'"
  using record_plan [OF assms(1) [unfolded ordinary_def Let_def] closed_outcomes [OF ordinary_Refuse]] ordinary_change [OF _ assms(2-6)] assms(7)
  by (fastforce simp: changes_def blank_def)

lemma note_changes:
  assumes "note_plan X ctx plan env = Inr plan'" "IsNoteOperation (me_Operation env)" "blank plan"
  shows "turned_down ctx env plan' \<or> changes X ctx env plan'"
  using record_plan [OF assms(1) [unfolded note_plan_def Let_def split_def] closed_outcomes [OF lawful_Refuse [OF lawful_note]]]
    note_change [OF _ assms(2)] assms(2,3)
  by (fastforce simp: changes_def blank_def)

lemma review_Refuse:
  "review_post X ctx pre env = Inl (Refuse o1 c) \<Longrightarrow> IsReviewOperation (me_Operation env) \<Longrightarrow> closed_outcome ctx env o1"
  by (drule review_stop) (auto simp: closed_outcome_def)

lemma review_changes:
  assumes "review X ctx plan env = Inr plan'" "IsReviewOperation (me_Operation env)" "blank plan"
  shows "turned_down ctx env plan' \<or> changes X ctx env plan'"
  using record_plan [OF assms(1) [unfolded review_def Let_def split_def] review_Refuse [OF _ assms(2)]] review_change [OF _ assms(2)] assms(2,3)
  by (fastforce simp: changes_def blank_def)

lemma obligations_changes:
  assumes "obligations X ctx plan env = Inr plan'" "IsObligationOperation (me_Operation env)" "blank plan"
  shows "turned_down ctx env plan' \<or> changes X ctx env plan'"
  using record_plan [OF assms(1) [unfolded obligations_def Let_def split_def] closed_outcomes [OF obligations_Refuse]]
    obligations_change [OF _ assms(2)] assms(2,3)
  by (fastforce simp: changes_def blank_def)

text \<open>CREATE: a record at its first revision, and the queue only when a serial was allocated.\<close>

definition creates :: "Externals \<Rightarrow> MutationContext \<Rightarrow> MutationEnvelope \<Rightarrow> Plan \<Rightarrow> bool" where
  "creates X ctx env plan \<longleftrightarrow> (\<exists>p post. me_Payload env = Some (CreateP p) \<and> create_post X ctx p = Inr (post, pn_QueuePost plan) \<and>
     reports plan post \<and> pn_Pre plan = None \<and> pn_DerivedEvent plan = None)"

lemma create_plan:
  assumes "create X ctx plan p = Inr plan'" "me_Payload env = Some (CreateP p)" "blank plan" "pn_Pre plan = None"
  shows "turned_down ctx env plan' \<or> creates X ctx env plan'"
proof -
  have law: "o1 \<in> RefusalOutcomes" if "create_post X ctx p = Inl (Refuse o1 c)" for o1 c
    using that lawful_create [of X ctx p] by simp
  show ?thesis
    using assms law unfolding create_def or_refused_Inr by (auto simp: creates_def blank_def)
qed

subsection \<open>The branches of \<^verbatim>\<open>Apply\<close>\<close>

lemma Apply_branches:
  assumes "Apply X ctx (Some env) = Inr plan"
  shows "turned_down ctx env plan \<or>
    (\<exists>out. trusted ctx env = Inr () \<and> replay (mc_Requests ctx) (me_RequestID env) (envelope_Sha256 (x_Sum X) env) = Some out \<and>
       plan = (start_plan X env)\<lparr>pn_Outcome := out\<rparr>) \<or>
    (if me_Operation env = OpCreate then creates X ctx env plan else changes X ctx env plan)"
proof -
  let ?plan = "start_plan X env"
  have sha: "pn_MutationSha256 ?plan = envelope_Sha256 (x_Sum X) env" and pre: "pn_Pre ?plan = None"
    by (simp_all add: start_plan_def zero_Plan_def)
  have law: "trusted ctx env = Inl (Refuse o1 c) \<Longrightarrow> o1 \<in> RefusalOutcomes"
      "checkRole ctx op = Inl (Refuse o1 c) \<Longrightarrow> o1 \<in> RefusalOutcomes" for o1 c op
    using lawful_trusted [of X ctx env, unfolded lawful_def] lawful_inputs(3) [of X ctx op, unfolded lawful_def] by fastforce+
  have "dispatch X ctx ?plan env = Inr plan \<Longrightarrow>
      turned_down ctx env plan \<or> (if me_Operation env = OpCreate then creates X ctx env plan else changes X ctx env plan)"
    unfolding dispatch_def
    using obligations_changes [of X ctx ?plan env plan] create_plan [of X ctx ?plan _ plan env] note_changes [of X ctx ?plan env plan] review_changes [of X ctx ?plan env plan]
      ordinary_plan [of X ctx ?plan env _ plan] pre
    by (auto split: if_splits option.splits Payload.splits)
  then show ?thesis
    using assms unfolding Apply_def Let_def or_refused_Inr sha option.case
    by (auto split: option.splits if_splits simp: or_refused_Inr dest: law)
qed

subsection \<open>What stops \<^verbatim>\<open>Apply\<close>\<close>

text \<open>The planner reports every refusal in a plan: only a panic or a search that does not return stops it.\<close>

definition reported :: "Externals \<Rightarrow> MutationContext \<Rightarrow> Plan planning \<Rightarrow> bool" where
  "reported X ctx m \<longleftrightarrow> (\<forall>s. m = Inl s \<longrightarrow> allowed X ctx s \<and> (\<forall>o1 c. s \<noteq> Refuse o1 c))"

lemma reported_Inr [simp]: "reported X ctx (Inr p)"
  by (simp add: reported_def)

lemma reported_or_refused:
  assumes "\<And>s. m = Inl s \<Longrightarrow> allowed X ctx s \<or> (\<exists>o1 c. s = Refuse o1 c)" "\<And>x. m = Inr x \<Longrightarrow> reported X ctx (f x)"
  shows "reported X ctx (or_refused p m f)"
  using assms by (auto simp: or_refused_def reported_def split: sum.splits stop.splits)

lemma lawful_stop: "lawful X ctx m \<Longrightarrow> m = Inl s \<Longrightarrow> allowed X ctx s \<or> (\<exists>o1 c. s = Refuse o1 c)"
  by (simp add: lawful_def)

lemma reported_record:
  assumes "me_TargetID env \<noteq> None" "\<And>pre s. m pre = Inl s \<Longrightarrow> allowed X ctx s \<or> (\<exists>o1 c. s = Refuse o1 c)"
  shows "reported X ctx (or_refused plan (ctx_Target X ctx env) (\<lambda>r. case r of
      None \<Rightarrow> Inr (refused plan OutcomeValidationFailed CodeMalformed)
    | Some pre \<Rightarrow> or_refused (plan\<lparr>pn_Pre := Some pre\<rparr>) (m pre) (\<lambda>x. Inr (f pre x))))"
  using lawful_stop [OF lawful_Target [OF assms(1), of X ctx]] assms(2)
  by (intro reported_or_refused) (auto split: option.split intro!: reported_or_refused)

text \<open>The pointers the planner follows without a check: the target, and what an ordinary or an obligation write carries.\<close>

definition addressed :: "MutationEnvelope \<Rightarrow> bool" where
  "addressed env \<longleftrightarrow> (me_Operation env \<noteq> OpCreate \<longrightarrow> me_TargetID env \<noteq> None \<and>
     (\<not> IsNoteOperation (me_Operation env) \<and> \<not> IsReviewOperation (me_Operation env) \<longrightarrow> me_ExpectedRevision env \<noteq> None) \<and>
     (IsObligationOperation (me_Operation env) \<longrightarrow> (\<exists>q. me_Payload env = Some (ObligationsP q))))"

lemma reported_Apply:
  assumes "addressed env"
  shows "reported X ctx (Apply X ctx (Some env))"
proof -
  let ?op = "me_Operation env"
  have tgt: "me_TargetID env \<noteq> None" if "?op \<noteq> OpCreate" using assms that by (simp add: addressed_def)
  have rs: "allowed X ctx s \<or> (\<exists>o1 c. s = Refuse o1 c)" if "review_post X ctx pre env = Inl s" for pre s
    using review_stop [OF that] by blast
  have n: "reported X ctx (note_plan X ctx plan env)" if "?op \<noteq> OpCreate" for plan
    unfolding note_plan_def Let_def split_def
    by (rule reported_record [OF tgt [OF that] lawful_stop [OF lawful_note]])
  have r: "reported X ctx (review X ctx plan env)" if "?op \<noteq> OpCreate" for plan
    unfolding review_def Let_def split_def
    by (rule reported_record [OF tgt [OF that] rs])
  have b: "reported X ctx (obligations X ctx plan env)" if at: "?op \<noteq> OpCreate" "IsObligationOperation ?op" for plan
  proof -
    obtain q where "me_Payload env = Some (ObligationsP q)" using assms at by (auto simp: addressed_def)
    then show ?thesis
      unfolding obligations_def Let_def split_def by (rule reported_record [OF tgt [OF at(1)] lawful_stop [OF lawful_obligations]])
  qed
  have o1: "reported X ctx (ordinary X ctx plan env p)"
    if "?op \<noteq> OpCreate" "\<not> IsNoteOperation ?op" "\<not> IsReviewOperation ?op" for plan p
  proof -
    have "me_ExpectedRevision env \<noteq> None" using assms that by (simp add: addressed_def)
    then show ?thesis
      unfolding ordinary_def Let_def by (rule reported_record [OF tgt [OF that(1)] lawful_stop [OF lawful_ordinary]])
  qed
  have c: "reported X ctx (create X ctx plan p)" for plan p
    unfolding create_def by (intro reported_or_refused) (use lawful_stop [OF lawful_create] in auto)
  have "reported X ctx (dispatch X ctx plan env)" for plan
    unfolding dispatch_def using b n r o1 c by (auto split: option.split Payload.split)
  moreover have "allowed X ctx s \<or> (\<exists>o1 c. s = Refuse o1 c)" if "trusted ctx env = Inl s" for s
    using lawful_stop [OF lawful_trusted that] .
  moreover have "allowed X ctx s \<or> (\<exists>o1 c. s = Refuse o1 c)" if "checkRole ctx ?op = Inl s" for s
    using lawful_stop [OF lawful_inputs(3) that] .
  ultimately show ?thesis
    unfolding Apply_def Let_def option.case
    by (intro reported_or_refused) (auto split: option.split if_splits intro!: reported_or_refused)
qed

end
