(* ===== verification/Planner_Status.thy ===== *)
theory Planner_Status
  imports Planner_Laws
begin

text \<open>
  The status machine of a ticket: every accepted change of an existing record is one of its steps. The
  machine is an inductive relation over the stored status and the status it was archived from.
\<close>

subsection \<open>The machine\<close>

definition quiet_ops :: "string set" where
  "quiet_ops = {OpHold, OpReleaseHold, OpReopen, OpArchive, OpRestore, OpCompleteManual}"

inductive status_step :: "string \<Rightarrow> string \<times> string option \<Rightarrow> string \<times> string option \<Rightarrow> bool" where
  keep: "s \<noteq> StatusArchived \<Longrightarrow> op \<notin> quiet_ops \<Longrightarrow> status_step op (s, a) (s, a)"
| refine: "status_step OpRefine (StatusDraft, a) (StatusOpen, a)"
| hold: "s = StatusOpen \<or> s = StatusHeld \<Longrightarrow> status_step OpHold (s, a) (StatusHeld, a)"
| release_one: "status_step OpReleaseHold (StatusHeld, a) (StatusHeld, a)"
| release_last: "status_step OpReleaseHold (StatusHeld, a) (StatusOpen, a)"
| reopen: "s = StatusOpen \<or> s = StatusCompleted \<Longrightarrow> status_step OpReopen (s, a) (StatusOpen, a)"
| archive: "s \<noteq> StatusArchived \<Longrightarrow> status_step OpArchive (s, a) (StatusArchived, Some s)"
| restore: "status_step OpRestore (StatusArchived, Some s) (s, None)"
| complete: "status_step OpCompleteManual (StatusOpen, a) (StatusCompleted, a)"

inductive_cases status_stepE: "status_step op (s, a) (t, b)"

definition status_of :: "Record \<Rightarrow> string \<times> string option" where
  "status_of r = (rec_Status r, rec_ArchivedFrom r)"

subsection \<open>Steps move along the machine\<close>

lemma refine_status:
  assumes "step_refine ctx w r = Inr w'"
  shows "rec_ArchivedFrom w' = rec_ArchivedFrom w \<and>
    (rec_Status w' = rec_Status w \<or> rec_Status w = StatusDraft \<and> rec_Status w' = StatusOpen)"
proof -
  have "w' = refine_fields r w \<or> rec_Status w = StatusDraft \<and> w' = (refine_fields r w)\<lparr>rec_Status := StatusOpen\<rparr>"
    using assms by (auto simp: step_refine_def Let_def refine_fields_def split: if_splits)
  then show ?thesis by (auto simp: refine_fields_def)
qed

lemma quiet [simp]: "OpRefine \<notin> quiet_ops" "OpPrioritize \<notin> quiet_ops" "OpSetDependencies \<notin> quiet_ops" "OpSetGates \<notin> quiet_ops"
  "OpSetEffects \<notin> quiet_ops" "OpGrantApproval \<notin> quiet_ops" "OpRevokeApproval \<notin> quiet_ops" "OpAttachEvidence \<notin> quiet_ops"
  "OpProgressSet \<notin> quiet_ops" "OpKnowHowAdd \<notin> quiet_ops" "OpKnowHowRetract \<notin> quiet_ops" "OpKnowHowReconfirm \<notin> quiet_ops"
  by (simp_all add: quiet_ops_def op_defs)

lemma payload_status:
  assumes "step_payload X ctx w p = Inr w'" "rec_Status w \<noteq> StatusArchived \<or> payload_operation p = OpRestore"
  shows "status_step (payload_operation p) (status_of w) (status_of w')"
proof (cases p)
  case (RefineP r)
  have "payload_operation p = OpRefine" "OpRefine \<noteq> OpRestore" using RefineP by (simp_all add: payload_operation_def op_defs)
  then show ?thesis using RefineP assms refine_status [of ctx w r w']
    by (auto simp: step_payload_def status_of_def intro: status_step.refine status_step.keep [OF _ quiet(1)])
next
  case (HoldP hid reason c)
  then show ?thesis using assms(1)
    by (auto simp: step_payload_def step_hold_def payload_operation_def status_of_def split: if_splits intro: status_step.hold)
next
  case (ReleaseHoldP hid)
  then show ?thesis using assms(1)
    by (auto simp: step_payload_def step_release_def Let_def payload_operation_def status_of_def split: if_splits option.splits
          intro: status_step.release_one status_step.release_last)
next
  case (ReasonP op reason)
  have p: "step_reason ctx w op reason = Inr w'" "payload_operation p = op"
    using ReasonP assms(1) by (simp_all add: step_payload_def payload_operation_def)
  then consider "op = OpReopen" "step_reopen ctx w reason = Inr w'"
    | "op = OpArchive" "w' = w\<lparr>rec_ArchivedFrom := Some (rec_Status w), rec_Status := StatusArchived\<rparr>"
    | s where "op = OpRestore" "rec_ArchivedFrom w = Some s" "rec_Status w = StatusArchived" "w' = w\<lparr>rec_Status := s, rec_ArchivedFrom := None\<rparr>"
    by (auto simp: step_reason_def split: if_splits option.splits)
  then show ?thesis
  proof cases
    case 1
    then have "(rec_Status w = StatusOpen \<or> rec_Status w = StatusCompleted) \<and> w' = w\<lparr>rec_Completion := None, rec_Status := StatusOpen\<rparr>"
      by (auto simp: step_reopen_def split: if_splits)
    then show ?thesis using p(2) 1(1) by (auto simp: status_of_def intro: status_step.reopen)
  next
    case 2
    then have "rec_Status w \<noteq> StatusArchived" using assms(2) p(2) by (auto simp: op_defs)
    then show ?thesis using 2 p(2) by (auto simp: status_of_def intro: status_step.archive)
  next
    case (3 s)
    then show ?thesis using p(2) by (auto simp: status_of_def intro: status_step.restore)
  qed
next
  case (CompleteManualP reason evidence)
  then show ?thesis using assms(1)
    by (auto simp: step_payload_def step_complete_def payload_operation_def status_of_def split: if_splits intro: status_step.complete)
next
  case (RevokeApprovalP gid reason)
  then show ?thesis using assms
    by (auto simp: step_payload_def payload_operation_def status_of_def step_revoke_def op_defs quiet_ops_def status_step.keep
          split: if_splits option.splits)
qed (use assms in \<open>auto simp: step_payload_def payload_operation_def status_of_def live_only_def isLive_def Live_def step_attach_def step_progress_def
    knowHowStep_def step_grant_def op_defs quiet_ops_def status_step.keep split: if_splits\<close>)

lemma step_status:
  assumes "step X ctx w p = Inr w'"
  shows "status_step (payload_operation p) (status_of w) (status_of w')"
proof -
  have "step_payload X ctx w p = Inr w'" "rec_Status w \<noteq> StatusArchived \<or> payload_operation p = OpRestore"
    using assms by (auto simp: step_def Let_def split: if_splits)
  then show ?thesis by (rule payload_status)
qed

text \<open>The stored bytes of a record decode to a record with the same members.\<close>

lemma decode_same:
  assumes "Decode flip (Record_Encode r) = Inr x" "go_maps r"
  shows "same_bytes r x"
proof -
  obtain v where v: "Parse (EncodeFile (Record_Value r)) = Inr v" "FromValue flip v = Inr x"
    using assms(1) by (auto simp: Decode_def Record_Encode_def split: if_splits)
  have p: "EncodeFile (Record_Value r) = EncodeFile v" "sorted_val v" "distinct_val v"
    using v(1) fits_distinct by (auto simp: Parse_iff within_bounds_def)
  have d: "distinct_val (Record_Value r)" using assms(2) by (simp add: go_maps_def)
  have "canon (Record_Value r) = canon v"
    using enc_prefix [OF d p(3), of "[]" "[]"] p(1) by (simp add: EncodeFile_eq)
  then have c: "canon (Record_Value r) = canon (Record_Value x)" using FromValue_read [OF v(2) p(3)] by simp
  then have "distinct_val (Record_Value x)" using d distinct_canon by metis
  then show ?thesis using c assms(2) by (simp add: same_bytes_def go_maps_def)
qed

lemma change_status:
  assumes "change X ctx env pre work" "go_maps pre"
  shows "status_step (me_Operation env) (status_of pre) (status_of work)"
proof -
  have quiet: "me_Operation env \<notin> quiet_ops" if "IsNoteOperation (me_Operation env) \<or> IsReviewOperation (me_Operation env) \<or> IsObligationOperation (me_Operation env)"
    using that by (auto simp: IsNoteOperation_def IsReviewOperation_def IsObligationOperation_def quiet_ops_def op_defs)
  have live: "rec_Status pre \<noteq> StatusArchived" if "Decode (x_Flip X) (Record_Encode pre) = Inr r" "rec_Status r \<noteq> StatusArchived" for r
    using that same_fields(4) [OF decode_same [OF that(1) assms(2)]] by simp
  have held: "rec_Status pre \<noteq> StatusArchived" if "rec_Status pre = StatusOpen \<or> rec_Status pre = StatusHeld"
    using that by (auto simp: StatusOpen_def StatusHeld_def StatusArchived_def)
  obtain w0 where w0: "clone X pre = Inr w0"
    and c: "(\<exists>p. payload_operation p = me_Operation env \<and> step X ctx w0 p = Inr work) \<or>
      me_Operation env \<notin> quiet_ops \<and> status_of work = status_of w0 \<and> rec_Status pre \<noteq> StatusArchived"
    using assms(1) quiet live held unfolding change_def by (elim exE conjE disjE) (auto simp: status_of_def)
  have st: "status_of w0 = status_of pre" using same_fields [OF clone_same(1) [OF w0 assms(2)]] by (simp add: status_of_def)
  consider p where "payload_operation p = me_Operation env" "step X ctx w0 p = Inr work"
    | "me_Operation env \<notin> quiet_ops" "status_of work = status_of w0" "rec_Status pre \<noteq> StatusArchived"
    using c by auto
  then show ?thesis
  proof cases
    case (1 p)
    then show ?thesis using step_status [of X ctx w0 p work] st by simp
  next
    case 2
    then show ?thesis using st by (auto simp: status_of_def intro: status_step.keep)
  qed
qed

lemma finalize_status:
  assumes "finalize X ctx pre work forced = Inr post"
  shows "status_of post = status_of work"
  using assms by (auto simp: finalize_Inr Let_def status_of_def chained_def)

end
