(* ===== verification/Go_Maps.thy ===== *)
theory Go_Maps
  imports Planner_Status
begin

text \<open>
  The maps of a record. A Go map has one value for a key; the model keeps maps as association lists, so
  a record stands for a Go value when the keys of its two maps are distinct.
\<close>

lemma distinct_prims [simp]:
  "distinct_val (Strings ss)" "distinct_val (StringOrNull o1)" "distinct_val (ticketOrNull t)" "distinct_val (countValue n)"
  by (auto simp: Strings_def StringOrNull_def ticketOrNull_def countValue_def split: option.split)

lemma distinct_parts [simp]:
  "distinct_val (Dependency_Value d)" "distinct_val (Source_Value s)" "distinct_val (Effects_Value e)" "distinct_val (Hold_Value h)"
  "distinct_val (Approval_Value a)" "distinct_val (Completion_Value c)" "distinct_val (OperatorNote_Value n)"
  "distinct_val (ExternalReviewRef_Value x)"
  by (auto simp: Dependency_Value_def Source_Value_def Effects_Value_def Resource_Value_def Hold_Value_def HoldCondition_Value_def
      Approval_Value_def Completion_Value_def OperatorNote_Value_def ExternalReviewRef_Value_def split: option.split)

lemma distinct_lists [simp]:
  "distinct_val (PrerequisitesValue ps)" "distinct_val (AttachedEvidenceValue es)" "distinct_val (ProgressValue pr)"
  "distinct_val (KnowHowValue ks)" "distinct_val (escalationRefsValue r)" "distinct_val (ObligationsReference_Value ob)"
  by (auto simp: PrerequisitesValue_def sorted_set_value_def SortedSet_eq distinct_Prerequisite AttachedEvidenceValue_def
      AttachedEvidence_Value_def ProgressValue_def ProgressEntryValue_def ProgressMark_members_def KnowHowValue_def KnowHowEntry_Value_def KnowHowAnchorsValue_def
      KnowHowAnchor_Value_def escalationRefsValue_def EscalationRef_Value_def ObligationsReference_Value_def ObligationCounts_Value_def
      HighWater_Value_def ObligationRaise_Value_def split: option.split)

lemma go_maps_iff:
  "go_maps r \<longleftrightarrow> (\<forall>ro. rec_RequiredRoles r = Some ro \<longrightarrow> distinct (map fst ro)) \<and> distinct (map fst (rec_ExternalReviews r))"
proof -
  have keys: "distinct (map fst (record_members r))"
  proof -
    have mono: "distinct (ks @ map fst (present os) @ ls)" if "distinct (ks @ map fst os @ ls)" for ks ls :: "string list" and os
      using that present_distinct [of os] present_sub [of os] by auto
    show ?thesis using mono [OF record_distinct [of r]] unfolding record_members_groups by simp
  qed
  have roles: "distinct_val (StageRolesValue ro) \<longleftrightarrow> distinct (map fst ro)" for ro
    by (auto simp: StageRolesValue_def comp_def split_def)
  have reviews: "distinct_val (ExternalReviewsValue m) \<longleftrightarrow> distinct (map fst m)" for m
  proof -
    have "mset (map fst (sort_key fst m)) = mset (map fst m)" by (simp add: mset_map)
    then have "distinct (map fst (sort_key fst m)) \<longleftrightarrow> distinct (map fst m)" by (metis mset_eq_imp_distinct_iff)
    then show ?thesis by (auto simp: ExternalReviewsValue_def comp_def split_def)
  qed
  have "(\<forall>kv\<in>set (record_members r). distinct_val (snd kv)) \<longleftrightarrow>
      (\<forall>ro. rec_RequiredRoles r = Some ro \<longrightarrow> distinct (map fst ro)) \<and> distinct (map fst (rec_ExternalReviews r))"
    unfolding record_members_def ball_Un set_append
    by (cases "rec_RequiredRoles r"; cases "rec_Escalations r"; cases "rec_OperatorNote r"; cases "rec_ObligationsRef r")
      (auto simp: roles reviews)
  then show ?thesis using keys by (simp add: go_maps_def Record_Value_def split_def)
qed

text \<open>A decoded ticket identifier is the parsed form of its raw text.\<close>

lemma keeps_ticket:
  "yields (read_planning r x0) x \<Longrightarrow> rec_TicketID x = rec_TicketID x0"
  "yields (read_execution r x0) x \<Longrightarrow> rec_TicketID x = rec_TicketID x0"
  "yields (read_tail r x0) x \<Longrightarrow> rec_TicketID x = rec_TicketID x0"
  by (simp add: read_planning_def record_prog del: yields_at yields_optional, elim exE conjE, hypsubst, simp)
   (simp add: read_execution_def read_tail_def record_prog del: yields_at, elim exE conjE, hypsubst, simp)+

lemma identity_ticket:
  assumes "yields (read_identity r x0) x"
  shows "\<exists>r'. yields (rd_TicketID r') (rec_TicketID x)"
proof -
  have "yields (rd_at ''ticketId'' rd_TicketID r) (rec_TicketID x)"
    using assms by (auto simp: read_identity_def record_prog simp del: yields_at)
  then show ?thesis by (auto simp: yields_at TicketID_reader.is_sticky)
qed

lemma FromValue_ticket:
  assumes "FromValue flip v = Inr x"
  shows "\<exists>loc. ParseTicketID loc (t_Raw (rec_TicketID x)) = Inr (rec_TicketID x)"
proof -
  obtain r x0 y esc where rec: "yields (read_record r x0) y" and x: "x = y\<lparr>rec_Escalations := esc\<rparr>"
    using assms sticky_record unfolding FromValue_def Let_def rbind_eq_Inr by (auto simp: run_reader_Inr)
  obtain r' where "yields (rd_TicketID r') (rec_TicketID y)"
    using rec sticky_groups unfolding read_record_def by (auto simp: yields_bind sticky_bind keeps_ticket dest!: identity_ticket)
  then have d: "dec_with ParseTicketID (r_where r') (r_v r') = Inr (rec_TicketID y)" by (simp add: TicketID_reader.yields_dec)
  have "r_v r' = VString (t_Raw (rec_TicketID y))" using dec_with_ids [OF d] .
  then show ?thesis using d by (auto simp: x dec_with_def dec_string_def)
qed

subsection \<open>Members outside the fields a change sets\<close>

text \<open>The members of the fields that a worker's change and the chain can set.\<close>

definition worker_fields :: "string list" where
  "worker_fields = [''revision'', ''previousRecordSha256'', ''status'', ''body'', ''knowHow'', ''updatedAt'', ''updatedBy'']"

lemma get_kept: "k \<notin> ks \<Longrightarrow> obj_Get ms k = obj_Get (filter (\<lambda>kv. fst kv \<notin> ks) ms) k"
  by (induction ms) (auto simp: obj_Get_def)

lemma kept_optional:
  "filter (\<lambda>kv. fst kv \<notin> ks) (case o1 of None \<Rightarrow> [] | Some x \<Rightarrow> [(k, f x)]) = (if k \<notin> ks then case o1 of None \<Rightarrow> [] | Some x \<Rightarrow> [(k, f x)] else [])"
  "filter (\<lambda>kv. fst kv \<notin> ks) (if b then [(k, v)] else []) = (if k \<notin> ks \<and> b then [(k, v)] else [])"
  by (auto split: option.split)

lemma members_agree:
  assumes "k \<notin> set worker_fields"
  shows "obj_Get (record_members (w\<lparr>rec_Revision := a, rec_PreviousRecordSha256 := b, rec_Status := s, rec_Body := e, rec_KnowHow := g,
     rec_UpdatedAt := c, rec_UpdatedBy := d\<rparr>)) k = obj_Get (record_members w) k"
proof -
  let ?w = "w\<lparr>rec_Revision := a, rec_PreviousRecordSha256 := b, rec_Status := s, rec_Body := e, rec_KnowHow := g, rec_UpdatedAt := c, rec_UpdatedBy := d\<rparr>"
  have "filter (\<lambda>kv. fst kv \<notin> set worker_fields) (record_members ?w) = filter (\<lambda>kv. fst kv \<notin> set worker_fields) (record_members w)"
    by (simp add: record_members_def kept_optional worker_fields_def)
  then show ?thesis using get_kept [OF assms, of "record_members w"] get_kept [OF assms, of "record_members ?w"] by simp
qed

lemma member_knowHow: "obj_Get (record_members w) ''knowHow'' = (if rec_KnowHow w \<noteq> [] then Some (KnowHowValue (rec_KnowHow w)) else None)"
  by (simp add: record_members_def obj_Get_def map_add_def cong: option.case_cong)

lemma member_body: "obj_Get (record_members w) ''body'' = Some (StringOrNull (rec_Body w))"
  by (simp add: record_members_def obj_Get_def map_add_def cong: option.case_cong)

lemma unchanged_same: "obj_Get (record_members a) k = obj_Get (record_members b) k \<Longrightarrow> \<not> fieldChanged a b k"
  by (simp add: fieldChanged_def get_or_null_def val_Equal_def)

end
