(* ===== verification/Planner_Sample.thy ===== *)
theory Planner_Sample
  imports Go_Maps Ticket_File "HOL-Library.Code_Target_Nat"
begin

text \<open>
  A concrete planning context on which the properties of the planner are instantiated: a queue whose only
  ticket is the sample file, and a worker that refines its body. The two evaluations of \<^verbatim>\<open>FromValue\<close> run
  on the code equations with natural numbers as integers.
\<close>

definition sample_externals :: Externals where
  "sample_externals = \<lparr>x_Sum = \<lambda>s. replicate 64 (CHR ''a''), x_Secret = \<lambda>s. False, x_Load = \<lambda>s. Inl (Errorf CodeMalformed ''/''), x_Flip = False\<rparr>"

definition planner_queue :: Queue where
  "planner_queue = \<lparr>qm_QueueID = sample_queue, qm_RepositoryAuthorityID = ''repo:a'', qm_Prefix = ''T'', qm_NextSerial = ''1'',
     qm_SchemaVersion = ''0'', qm_CanonicalWriter = ''NATIVE'', qm_ForeignAdapterID = None, qm_IntentBranch = ''main'', qm_Fixture = False,
     qm_ExecutionCutover = None, qm_ImportMapSha256 = None, qm_WriteBarrier = \<lparr>wb_Reason = ''NONE'', wb_Since = None\<rparr>\<rparr>"

definition planner_policy :: Policy where
  "planner_policy = \<lparr>pol_Roles = Map.empty, pol_Gates = [], pol_Pools = [], pol_KnowHow = None, pol_Obligations = None, pol_Milestones = None\<rparr>"

definition planner_inventory :: "Record list \<Rightarrow> Inventory" where
  "planner_inventory rs = (case NewLazyInventory sample_queue rs [] of Some (Inr iv) \<Rightarrow> iv | _ \<Rightarrow> undefined)"

definition sample_context :: "string \<Rightarrow> Record list \<Rightarrow> RequestIndex \<Rightarrow> MutationContext" where
  "sample_context role rs index = \<lparr>mc_Binding = \<lparr>bd_ID = ''op'', bd_Role = role\<rparr>, mc_Queue = Some planner_queue, mc_Policy = Some planner_policy,
     mc_Inventory = Some (planner_inventory rs), mc_Attempts = None, mc_RetryRecovery = None, mc_Requests = Some index,
     mc_Now = ''2026-01-01T00:00:00Z'', mc_PriorNoteEvent = [], mc_ExternalReview = None, mc_KnowHowAttempts = None,
     mc_ObligationEvents = Map.empty, mc_ObligationReport = None, mc_ObligationReplay = False, mc_Screen = None\<rparr>"

definition sample_refine :: RefinePayload where
  "sample_refine = \<lparr>rf_ExecutionPrerequisites = [], rf_RequiredRoles = None, rf_RequiresPool = None, rf_Present = [''body''], rf_Title = [],
     rf_Body = Some ''b'', rf_Kind = [], rf_Owner = None, rf_Milestone = None, rf_Labels = [], rf_AcceptanceCriteria = [],
     rf_RequirementRefs = [], rf_DueDate = None, rf_EstimateMinutes = None, rf_Supersedes = None, rf_SupersededBy = None\<rparr>"

definition sample_envelope :: MutationEnvelope where
  "sample_envelope = \<lparr>me_RequestID = ''r1'', me_Actor = \<lparr>act_ID = ''op'', act_Role = ''WORKER''\<rparr>, me_QueueID = sample_queue,
     me_TargetID = Some (rec_TicketID file_record), me_ExpectedRevision = Some ''1'', me_Operation = OpRefine,
     me_Payload = Some (RefineP sample_refine), me_IssuedAt = ''2026-01-01T00:00:00Z'', me_Raw = ''raw''\<rparr>"

definition refined_record :: Record where
  "refined_record = file_record\<lparr>rec_Body := Some ''b'', rec_Revision := ''2'', rec_PreviousRecordSha256 := Some (replicate 64 (CHR ''a'')),
     rec_UpdatedAt := ''2026-01-01T00:00:00Z'', rec_UpdatedBy := ''op''\<rparr>"

definition refined_identity :: Record where
  "refined_identity = (file_identity zero_Record)\<lparr>rec_Body := Some ''b'', rec_Revision := ''2'',
     rec_PreviousRecordSha256 := Some (replicate 64 (CHR ''a''))\<rparr>"

lemma file_reads_optional:
  "yields (read_optional_members \<lparr>r_v = Record_Value file_record, r_where = ''/''\<rparr> zero_Record) zero_Record"
  by (rule run_reader_Inr [THEN iffD1], rule sticky_groups, code_simp)

lemma file_reads_identity:
  "yields (read_identity \<lparr>r_v = Record_Value file_record, r_where = ''/''\<rparr> zero_Record) (file_identity zero_Record)"
  by (rule run_reader_Inr [THEN iffD1], rule sticky_groups, code_simp)

lemma file_reads_planning:
  "yields (read_planning \<lparr>r_v = Record_Value file_record, r_where = ''/''\<rparr> (file_identity zero_Record)) (file_planning (file_identity zero_Record))"
  by (rule run_reader_Inr [THEN iffD1], rule sticky_groups, code_simp)

lemma file_reads_execution:
  "yields (read_execution \<lparr>r_v = Record_Value file_record, r_where = ''/''\<rparr> (file_planning (file_identity zero_Record))) (file_execution (file_planning (file_identity zero_Record)))"
  by (rule run_reader_Inr [THEN iffD1], rule sticky_groups, code_simp)

lemma file_reads_tail:
  "yields (read_tail \<lparr>r_v = Record_Value file_record, r_where = ''/''\<rparr> (file_execution (file_planning (file_identity zero_Record)))) file_record"
  by (rule run_reader_Inr [THEN iffD1], rule sticky_groups, code_simp)

lemmas file_reads = file_reads_optional file_reads_identity file_reads_planning file_reads_execution file_reads_tail

lemma file_all_closed:
  "closed_ok (OptionalKeys (Record_Value file_record) TicketRecordKeys TicketRecordOptionalKeys) (record_members file_record)"
  by code_simp

lemma refined_reads_optional:
  "yields (read_optional_members \<lparr>r_v = Record_Value refined_record, r_where = ''/''\<rparr> zero_Record) zero_Record"
  by (rule run_reader_Inr [THEN iffD1], rule sticky_groups, code_simp)

lemma refined_reads_identity:
  "yields (read_identity \<lparr>r_v = Record_Value refined_record, r_where = ''/''\<rparr> zero_Record) refined_identity"
  by (rule run_reader_Inr [THEN iffD1], rule sticky_groups, code_simp)

lemma refined_reads_planning:
  "yields (read_planning \<lparr>r_v = Record_Value refined_record, r_where = ''/''\<rparr> refined_identity) (file_planning refined_identity)"
  by (rule run_reader_Inr [THEN iffD1], rule sticky_groups, code_simp)

lemma refined_reads_execution:
  "yields (read_execution \<lparr>r_v = Record_Value refined_record, r_where = ''/''\<rparr> (file_planning refined_identity)) (file_execution (file_planning refined_identity))"
  by (rule run_reader_Inr [THEN iffD1], rule sticky_groups, code_simp)

lemma refined_reads_tail:
  "yields (read_tail \<lparr>r_v = Record_Value refined_record, r_where = ''/''\<rparr> (file_execution (file_planning refined_identity))) refined_record"
  by (rule run_reader_Inr [THEN iffD1], rule sticky_groups, code_simp)

lemmas refined_reads = refined_reads_optional refined_reads_identity refined_reads_planning refined_reads_execution refined_reads_tail

lemma refined_closed:
  "closed_ok (OptionalKeys (Record_Value refined_record) TicketRecordKeys TicketRecordOptionalKeys) (record_members refined_record)"
  by code_simp

text \<open>The groups of readers put together, for a record without the members that are decoded on their own.\<close>

lemma own_members:
  "obj_Get (record_members r) ''profile'' = Some (VString Profile)"
  "obj_Get (record_members r) ''operatorNote'' = map_option OperatorNote_Value (rec_OperatorNote r)"
  "obj_Get (record_members r) ''externalReviews'' =
     (if rec_ExternalReviews r \<noteq> [] then Some (ExternalReviewsValue (rec_ExternalReviews r)) else None)"
  "obj_Get (record_members r) ''escalations'' = map_option escalationRefsValue (rec_Escalations r)"
  by (simp_all add: record_members_def obj_Get_def map_add_def cong: option.case_cong)

lemma record_reads:
  assumes "yields (read_record \<lparr>r_v = Record_Value r, r_where = ''/''\<rparr> zero_Record) r"
    and "closed_ok (OptionalKeys (Record_Value r) TicketRecordKeys TicketRecordOptionalKeys) (record_members r)"
    and none: "rec_OperatorNote r = None" "rec_ExternalReviews r = []" "rec_Escalations r = None"
    and "validate flip r = Inr ()"
  shows "FromValue flip (Record_Value r) = Inr r"
proof -
  have pr: "fst (run_state (rd_at ''profile'' rd_String \<lparr>r_v = Record_Value r, r_where = ''/''\<rparr>) fresh) = Profile"
    by (simp add: Record_Value_def rd_at_def rd_Field_def rd_String_def rd_child_def fresh_def own_members del: obj_Get_None)
  have pv: "ProfileVersion ''/profile'' (Record_Value r) Profile = Inr ()"
    by (simp add: Record_Value_def ProfileVersion_def otherVersion_def CheckProfile_def own_members del: obj_Get_None)
  have cl: "run_reader (rd_Closed (OptionalKeys (Record_Value r) TicketRecordKeys TicketRecordOptionalKeys)
      \<lparr>r_v = Record_Value r, r_where = ''/''\<rparr>) = Inr ()"
    using assms(2) by (simp add: Record_Value_def run_reader_Inr Closed_reader.is_sticky Closed_reader.yields_dec dec_closed_iff)
  have es: "read_escalations (Record_Value r) = Inr None"
    using none by (simp add: Record_Value_def read_escalations_def own_members del: obj_Get_None)
  have z: "zero_Record\<lparr>rec_OperatorNote := None, rec_ExternalReviews := []\<rparr> = zero_Record" by (simp add: zero_Record_def)
  have e: "r\<lparr>rec_Escalations := None\<rparr> = r" using none by simp
  have rd: "run_reader (read_record \<lparr>r_v = Record_Value r, r_where = ''/''\<rparr> zero_Record) = Inr r"
    using assms(1) by (simp add: run_reader_Inr sticky_record)
  have f: "field_value (Record_Value r) ''operatorNote'' = None" "field_value (Record_Value r) ''externalReviews'' = None"
    using none by (simp_all add: field_value_def Record_Value_def own_members del: obj_Get_None)
  show ?thesis
    by (simp add: FromValue_def Let_def NewReader_def pr pv cl es z e rd f CheckProfile_def assms(6))
qed

lemma group_reads:
  assumes "yields (read_optional_members R x0) x1" "yields (read_identity R x1) x2" "yields (read_planning R x2) x3"
    "yields (read_execution R x3) x4" "yields (read_tail R x4) x5"
  shows "yields (read_record R x0) x5"
  unfolding read_record_def using assms by (auto simp: yields_bind sticky_bind sticky_groups)

lemma file_none: "rec_OperatorNote file_record = None" "rec_ExternalReviews file_record = []" "rec_Escalations file_record = None"
  by (simp_all add: file_record_def file_tail_def file_execution_def file_planning_def file_identity_def zero_Record_def)

lemma file_reads_back: "FromValue flip (Record_Value file_record) = Inr file_record"
  by (rule record_reads [OF group_reads [OF file_reads] file_all_closed file_none file_record_ok])

lemma refined_none: "rec_OperatorNote refined_record = None" "rec_ExternalReviews refined_record = []" "rec_Escalations refined_record = None"
  by (simp_all add: refined_record_def file_none)

lemma refined_ok: "validate False refined_record = Inr ()"
  by code_simp

lemma refined_reads_back: "FromValue False (Record_Value refined_record) = Inr refined_record"
  by (rule record_reads [OF group_reads [OF refined_reads] refined_closed refined_none refined_ok])

lemma refined_small: "length (Record_Encode refined_record) \<le> MaxTicketFileBytes" "length (Record_Encode file_record) \<le> MaxTicketFileBytes"
  by code_simp+

subsection \<open>A plan\<close>

lemma sample_built: "NewLazyInventory sample_queue [file_record] [] = Some (Inr (planner_inventory [file_record]))"
  "NewLazyInventory sample_queue [] [] = Some (Inr (planner_inventory []))"
proof -
  have "TicketID_QueueID (rec_TicketID file_record) = q_Raw sample_queue"
    by (simp add: file_record_def file_tail_def file_execution_def file_planning_def file_identity_def TicketID_QueueID_def sample_queue_def)
  then have "queue_ok sample_queue (map SummaryOf [file_record])" by (simp add: queue_ok_def)
  then obtain iv where "NewLazyInventory sample_queue [file_record] [] = Some (Inr iv)"
    using NewLazyInventory_ok [of "[file_record]" "[]" sample_queue] by (auto simp: MaxTicketsPerQueue_def)
  then show "NewLazyInventory sample_queue [file_record] [] = Some (Inr (planner_inventory [file_record]))"
    by (simp add: planner_inventory_def)
  obtain iv where "NewLazyInventory sample_queue [] [] = Some (Inr iv)"
    using NewLazyInventory_ok [of "[]" "[]" sample_queue] by (auto simp: MaxTicketsPerQueue_def queue_ok_def)
  then show "NewLazyInventory sample_queue [] [] = Some (Inr (planner_inventory []))"
    by (simp add: planner_inventory_def)
qed

lemma file_fields:
  "rec_TicketID file_record = \<lparr>t_Raw = ''ticket:a:q:T1'', t_Authority = ''a'', t_Queue = ''q'', t_Local = ''T1''\<rparr>"
  "rec_Status file_record = StatusDraft" "rec_Revision file_record = ''1''" "rec_AcceptanceRevision file_record = ''1''"
  "rec_AcceptanceCriteria file_record = []" "rec_Kind file_record = ''CHORE''" "rec_RequiresPool file_record = []"
  "rec_RequiredRoles file_record = None"
  by (simp_all add: file_record_def file_tail_def file_execution_def file_planning_def file_identity_def StatusDraft_def zero_Record_def)

lemma sample_target:
  "ctx_Get X (sample_context role [file_record] index) ''ticket:a:q:T1'' = Inr (Some file_record)"
  using NewLazyInventory_over(4) [OF sample_built(1)]
  by (simp add: ctx_Get_def sample_context_def inv_Get_def file_fields)

lemma sample_trusted: "trusted (sample_context ''WORKER'' [file_record] index) sample_envelope = Inr ()"
proof -
  have "ParseLabel ''/binding/id'' ''op'' = Inr ''op''" by (simp add: ParseLabel_def parseText_plain plainASCII_def limit_defs)
  moreover have "ParseTimestamp ''/context/now'' ''2026-01-01T00:00:00Z'' = Inr ''2026-01-01T00:00:00Z''" by code_simp
  moreover have "inv_QueueID (planner_inventory [file_record]) = sample_queue" by (rule NewLazyInventory_over(2) [OF sample_built(1)])
  ultimately show ?thesis
    by (simp add: trusted_def binding_validate_def checkInputs_def sample_context_def sample_envelope_def Roles_def planner_queue_def)
qed

lemma sample_step: "step X (sample_context ''WORKER'' [file_record] index) file_record (RefineP sample_refine) = Inr (file_record\<lparr>rec_Body := Some ''b''\<rparr>)"
  by (simp add: step_def Let_def payload_operation_def checkRole_def permittedOps_def sample_context_def planner_policy_def DefaultRoleMatrix_def
      WorkerKnowHowAdd_def WorkerObligationWitness_def op_defs role_limits_def sample_refine_def refine_Has_def step_payload_def step_refine_def
      refine_fields_def when_has_def opens_def file_fields StatusDraft_def StatusArchived_def)

lemma unchanged_body:
  assumes "k \<notin> set worker_fields"
  shows "\<not> fieldChanged w (w\<lparr>rec_Body := b\<rparr>) k"
proof (rule unchanged_same)
  have "w\<lparr>rec_Body := b\<rparr> = w\<lparr>rec_Revision := rec_Revision w, rec_PreviousRecordSha256 := rec_PreviousRecordSha256 w, rec_Status := rec_Status w,
      rec_Body := b, rec_KnowHow := rec_KnowHow w, rec_UpdatedAt := rec_UpdatedAt w, rec_UpdatedBy := rec_UpdatedBy w\<rparr>"
    by (cases w) simp
  then show "obj_Get (record_members w) k = obj_Get (record_members (w\<lparr>rec_Body := b\<rparr>)) k"
    using members_agree [OF assms] by metis
qed

lemma sample_finalize:
  "finalize sample_externals (sample_context ''WORKER'' [file_record] index) file_record (file_record\<lparr>rec_Body := Some ''b''\<rparr>) False = Inr refined_record"
proof -
  let ?w = "file_record\<lparr>rec_Body := Some ''b''\<rparr>"
  have "acceptanceChanged file_record ?w \<longleftrightarrow> acceptanceChanged file_record file_record"
    by (rule relevant_changed, rule relevant_fields) simp_all
  then have "\<not> acceptanceChanged file_record ?w"
    by (simp add: acceptanceChanged_def list_ex_iff unchanged_same)
  moreover have "CountOf (Count_Int ''1'' + 1) = ''2''" by code_simp
  moreover have "Count_Int ''1'' + 1 \<le> int MaxCountValue" by code_simp
  moreover have "checkRecord sample_externals (sample_context ''WORKER'' [file_record] index) (Some file_record) ?w = Inr ()"
    by (simp add: checkRecord_def Let_def changed_def unchanged_body worker_fields_def file_fields)
  ultimately show ?thesis
    using refined_reads_back refined_small(1)
    by (simp add: finalize_Inr Let_def file_fields chained_def refined_record_def sample_externals_def sample_context_def FileDigest_def)
qed

definition sample_plan :: Plan where
  "sample_plan = completed ((start_plan sample_externals sample_envelope)\<lparr>pn_Pre := Some file_record\<rparr>) refined_record"

lemma sample_plan_simps: "Planned sample_plan" "pn_Pre sample_plan = Some file_record" "pn_Post sample_plan = Some refined_record"
  by (simp_all add: sample_plan_def completed_def Planned_def)

lemma sample_operation: "\<not> IsNoteOperation OpRefine" "\<not> IsReviewOperation OpRefine" "\<not> IsObligationOperation OpRefine" "OpRefine \<noteq> OpCreate"
  by (simp_all add: IsNoteOperation_def IsReviewOperation_def IsObligationOperation_def op_defs)

lemma envelope_fields:
  "me_RequestID sample_envelope = ''r1''" "me_TargetID sample_envelope = Some (rec_TicketID file_record)"
  "me_ExpectedRevision sample_envelope = Some ''1''" "me_Operation sample_envelope = OpRefine"
  "me_Payload sample_envelope = Some (RefineP sample_refine)"
  by (simp_all add: sample_envelope_def)

lemma sample_envelope_target: "ctx_Target X (sample_context role [file_record] index) sample_envelope = Inr (Some file_record)"
  using sample_target [of X role index] by (simp add: ctx_Target_def envelope_fields file_fields(1))

lemma sample_applies:
  assumes "index ''r1'' = Inr None"
  shows "Apply sample_externals (sample_context ''WORKER'' [file_record] index) (Some sample_envelope) = Inr sample_plan"
proof -
  let ?ctx = "sample_context ''WORKER'' [file_record] index"
  have role: "checkRole ?ctx OpRefine = Inr ()"
    by (simp add: checkRole_def permittedOps_def sample_context_def planner_policy_def DefaultRoleMatrix_def OpRefine_def)
  have replay: "replay (mc_Requests ?ctx) ''r1'' d = None" for d
    using assms by (simp add: replay_def sample_context_def)
  have "\<not> forcesAcceptanceBump OpRefine" by (simp add: forcesAcceptanceBump_def op_defs)
  then have post: "ordinary_post sample_externals ?ctx file_record sample_envelope (RefineP sample_refine) = Inr refined_record"
    using sample_finalize [of index] sample_step [of sample_externals index] file_reads_back
    by (simp add: ordinary_post_def clone_def file_fields envelope_fields del: finalize_Inr)
  have op: "payload_operation (RefineP sample_refine) = OpRefine" by (simp add: payload_operation_def)
  have "dispatch sample_externals ?ctx plan sample_envelope = Inr (completed (plan\<lparr>pn_Pre := Some file_record\<rparr>) refined_record)" for plan
    using sample_envelope_target [of sample_externals "''WORKER''" index] post
    by (simp add: dispatch_def ordinary_def or_refused_def envelope_fields sample_operation op Let_def)
  then show ?thesis
    using sample_trusted role replay
    by (simp add: Apply_def Let_def or_refused_def sample_plan_def envelope_fields sample_operation)
qed

end
