(* ===== verification/Planner.thy ===== *)
theory Planner
  imports Planner_Sample
begin

text \<open>
  The properties of the mutation planner, of every operation with the obligation writes: what an accepted
  change does to the revision chain, the closed set of refusals, the status history of a ticket, and
  exactly-once replay. That the planner always answers is in \<^verbatim>\<open>Planner_Answers\<close>.
\<close>

subsection \<open>Accepted changes\<close>

lemma planned_changes:
  assumes "Apply X ctx (Some env) = Inr plan" "Planned plan" "me_Operation env \<noteq> OpCreate"
  shows "changes X ctx env plan"
proof -
  have "\<not> Planned ((start_plan X env)\<lparr>pn_Outcome := out\<rparr>)" for out
    by (simp add: Planned_def start_plan_def zero_Plan_def)
  then show ?thesis using Apply_branches [OF assms(1)] assms(2,3) turned_down_unplanned by auto
qed

lemma planned_creates:
  assumes "Apply X ctx (Some env) = Inr plan" "Planned plan" "me_Operation env = OpCreate"
  shows "creates X ctx env plan"
proof -
  have "\<not> Planned ((start_plan X env)\<lparr>pn_Outcome := out\<rparr>)" for out
    by (simp add: Planned_def start_plan_def zero_Plan_def)
  then show ?thesis using Apply_branches [OF assms(1)] assms(2,3) turned_down_unplanned by auto
qed

text \<open>What an accepted plan has passed before it was dispatched.\<close>

lemma planned_admitted:
  assumes "Apply X ctx (Some env) = Inr plan" "Planned plan"
  shows "trusted ctx env = Inr ()" "IsReviewOperation (me_Operation env) \<or> checkRole ctx (me_Operation env) = Inr ()"
proof -
  have "\<not> Planned ((start_plan X env)\<lparr>pn_Outcome := out\<rparr>)" for out
    by (simp add: Planned_def start_plan_def zero_Plan_def)
  then show "trusted ctx env = Inr ()" "IsReviewOperation (me_Operation env) \<or> checkRole ctx (me_Operation env) = Inr ()"
    using assms unfolding Apply_def Let_def or_refused_Inr option.case
    by (auto split: option.splits if_splits simp: or_refused_Inr)
qed

lemma trusted_queue:
  assumes "trusted ctx env = Inr ()"
  shows "q_Raw (inv_QueueID (ctx_Inventory ctx)) = q_Raw (qm_QueueID (ctx_Queue ctx))"
  using assms by (auto simp: trusted_def checkInputs_def split: if_splits)

lemma clone_counts:
  assumes "clone X pre = Inr w" "go_maps pre"
  shows "1 \<le> Count_Int (rec_AcceptanceRevision pre)" "Count_Int (rec_AcceptanceRevision pre) \<le> Count_Int (rec_Revision pre)"
  using clone_same [OF assms] same_fields(2,3) [OF clone_same(1) [OF assms]] by (simp_all add: record_ok_def revisions_ok_def)

lemma step_keeps:
  assumes "step X ctx w p = Inr w'"
  shows "rec_TicketID w' = rec_TicketID w \<and> rec_CreatedAt w' = rec_CreatedAt w"
proof -
  have refine: "rec_TicketID r = rec_TicketID w \<and> rec_CreatedAt r = rec_CreatedAt w" if "step_refine ctx w q = Inr r" for q r
    using that by (simp add: step_refine_def Let_def refine_fields_def split: if_splits; hypsubst; simp)
  have "step_payload X ctx w p = Inr w'" using assms by (auto simp: step_def Let_def split: if_splits)
  then show ?thesis
    by (cases p) (auto simp: step_payload_def live_only_def step_hold_def step_release_def Let_def step_reason_def step_reopen_def
      step_complete_def step_attach_def step_progress_def knowHowStep_def step_grant_def step_revoke_def
      split: if_splits option.splits dest!: refine)
qed

text \<open>The expected revision of an accepted change.\<close>

lemma kinds_differ:
  "IsNoteOperation op \<Longrightarrow> \<not> IsReviewOperation op" "IsNoteOperation op \<Longrightarrow> \<not> IsObligationOperation op"
  "IsReviewOperation op \<Longrightarrow> \<not> IsObligationOperation op"
  by (auto simp: IsNoteOperation_def IsReviewOperation_def IsObligationOperation_def op_defs)

lemma change_expected:
  assumes "change X ctx env pre work" "go_maps pre"
  shows "if IsNoteOperation (me_Operation env)
     then \<exists>q. DecodeOperatorNoteRequest (me_Raw env) = Inr q \<and> nr_ExpectedRevision q \<in> {None, Some (rec_Revision pre)}
     else if IsReviewOperation (me_Operation env) then me_ExpectedRevision env \<in> {None, Some (rec_Revision pre)}
     else me_ExpectedRevision env = Some (rec_Revision pre)"
proof -
  have same: "rec_Revision r = rec_Revision pre" if "Decode (x_Flip X) (Record_Encode pre) = Inr r" for r
    using same_fields(2) [OF decode_same [OF that assms(2)]] by simp
  show ?thesis
    using assms(1) same kinds_differ [of "me_Operation env"] unfolding change_def by (elim exE conjE disjE) auto
qed

text \<open>
  C3: the revision chain. An accepted change of an existing record, by any operation other than CREATE, is
  made on the revision the caller expected (a note and a review may leave it open, every other operation
  has to name it; a note names it in the request it retains), raises the revision by one and chains the new
  record to the digest of the old one; the acceptance revision rises by one exactly when the operation forces it or an acceptance-relevant field differs, and then only
  when no attempt is known or suspected to be live; a completed ticket never has such a difference. The
  identity of the ticket is kept, and the new record decodes and is within the file bound.
\<close>

theorem Apply_revision_chain:
  assumes "Apply X ctx (Some env) = Inr plan" "Planned plan"
    and "me_Operation env \<noteq> OpCreate"
    and "ctx_Target X ctx env = Inr (Some pre)" "go_maps pre"
  shows "\<exists>post. pn_Pre plan = Some pre \<and> pn_Post plan = Some post \<and> pn_QueuePost plan = None \<and>
    (if IsNoteOperation (me_Operation env)
     then \<exists>q. DecodeOperatorNoteRequest (me_Raw env) = Inr q \<and> nr_ExpectedRevision q \<in> {None, Some (rec_Revision pre)}
     else if IsReviewOperation (me_Operation env) then me_ExpectedRevision env \<in> {None, Some (rec_Revision pre)}
     else me_ExpectedRevision env = Some (rec_Revision pre)) \<and>
    (let differs = acceptanceChanged pre post; bump = forcesAcceptanceBump (me_Operation env) \<or> differs
     in Count_Int (rec_Revision post) = Count_Int (rec_Revision pre) + 1 \<and>
        Count_Int (rec_AcceptanceRevision post) = Count_Int (rec_AcceptanceRevision pre) + (if bump then 1 else 0) \<and>
        (bump \<longrightarrow> LiveAttempt ctx post = Unsatisfied) \<and> (rec_Status pre = StatusCompleted \<longrightarrow> \<not> differs) \<and>
        rec_PreviousRecordSha256 post = Some (FileDigest (x_Sum X) pre) \<and>
        rec_UpdatedAt post = mc_Now ctx \<and> rec_UpdatedBy post = ctx_ID ctx \<and>
        t_Raw (rec_TicketID post) = t_Raw (rec_TicketID pre) \<and> rec_CreatedAt post = rec_CreatedAt pre \<and>
        length (Record_Encode post) \<le> MaxTicketFileBytes \<and> (\<exists>r. FromValue (x_Flip X) (Record_Value post) = Inr r))"
proof -
  obtain work post where c: "pn_Pre plan = Some pre" "change X ctx env pre work"
      "finalize X ctx pre work (forcesAcceptanceBump (me_Operation env)) = Inr post" "pn_Post plan = Some post" "pn_QueuePost plan = None"
    using planned_changes [OF assms(1,2,3)] assms(4) unfolding changes_def reports_def by auto
  obtain w0 where w0: "clone X pre = Inr w0" "t_Raw (rec_TicketID work) = t_Raw (rec_TicketID w0)" "rec_CreatedAt work = rec_CreatedAt w0"
    using c(2) step_keeps unfolding change_def by (elim exE conjE disjE) fastforce+
  have cas: "if IsNoteOperation (me_Operation env)
     then \<exists>q. DecodeOperatorNoteRequest (me_Raw env) = Inr q \<and> nr_ExpectedRevision q \<in> {None, Some (rec_Revision pre)}
     else if IsReviewOperation (me_Operation env) then me_ExpectedRevision env \<in> {None, Some (rec_Revision pre)}
     else me_ExpectedRevision env = Some (rec_Revision pre)"
    by (rule change_expected [OF c(2) assms(5)])
  note same = same_fields [OF clone_same(1) [OF w0(1) assms(5)]]
  obtain nrev acc where f: "nrev = CountOf (Count_Int (rec_Revision pre) + 1)" "Count_Int (rec_Revision pre) + 1 \<le> int MaxCountValue"
      "post = chained X ctx pre work nrev acc" "revalidate X post = Inr ()"
      "rec_Status pre = StatusCompleted \<longrightarrow> \<not> acceptanceChanged pre work"
      "forcesAcceptanceBump (me_Operation env) \<or> acceptanceChanged pre work \<longrightarrow> LiveAttempt ctx work = Unsatisfied"
      "if forcesAcceptanceBump (me_Operation env) \<or> acceptanceChanged pre work
       then acc = CountOf (Count_Int (rec_AcceptanceRevision pre) + 1) \<and> Count_Int (rec_AcceptanceRevision pre) + 1 \<le> int MaxCountValue
       else acc = rec_AcceptanceRevision pre"
    using c(3) unfolding finalize_Inr Let_def by auto
  have "LiveAttempt ctx post = LiveAttempt ctx work" "acceptanceChanged pre post = acceptanceChanged pre work"
    by (simp_all add: f(3), simp add: chained_def LiveAttempt_def split: option.split)
  moreover have "Count_Int nrev = Count_Int (rec_Revision pre) + 1"
    using f(1,2) clone_counts [OF w0(1) assms(5)] by (simp add: Count_succ)
  moreover have "Count_Int acc = Count_Int (rec_AcceptanceRevision pre) +
      (if forcesAcceptanceBump (me_Operation env) \<or> acceptanceChanged pre work then 1 else 0)"
    using f(7) clone_counts [OF w0(1) assms(5)] by (auto simp: Count_succ split: if_splits)
  ultimately show ?thesis
    using c cas f same w0 by (intro exI [of _ post]) (simp add: Let_def chained_def)
qed

theorem Apply_revision_chain_witness:
  "\<exists>post. pn_Post sample_plan = Some post \<and> Count_Int (rec_Revision post) = Count_Int (rec_Revision file_record) + 1"
proof -
  have g: "go_maps file_record" using file_none file_fields by (simp add: go_maps_iff)
  have a: "Apply sample_externals (sample_context ''WORKER'' [file_record] (\<lambda>_. Inr None)) (Some sample_envelope) = Inr sample_plan"
    by (rule sample_applies) simp
  show ?thesis
    using Apply_revision_chain [OF a sample_plan_simps(1) _ _ g] sample_operation sample_envelope_target [of sample_externals]
    by (auto simp: envelope_fields file_fields Let_def)
qed

subsection \<open>The history of a ticket\<close>

text \<open>The records a ticket goes through: every step is an accepted plan on the record of the step before.\<close>

inductive evolves ::
  "Externals \<Rightarrow> Record \<Rightarrow> string list \<Rightarrow> Record \<Rightarrow> bool"
  for X r where
  start: "evolves X r [] r"
| more: "evolves X r ops pre \<Longrightarrow> Apply X ctx (Some env) = Inr plan \<Longrightarrow> Planned plan \<Longrightarrow> me_Operation env \<noteq> OpCreate \<Longrightarrow>
    pn_Pre plan = Some pre \<Longrightarrow> go_maps pre \<Longrightarrow> pn_Post plan = Some post \<Longrightarrow>
    evolves X r (ops @ [me_Operation env]) post"

definition effective :: "string \<times> string option \<Rightarrow> string" where
  "effective sa = (case snd sa of Some s \<Rightarrow> s | None \<Rightarrow> fst sa)"

text \<open>Only a tombstone remembers the status it was archived from.\<close>

definition tombstones :: "string \<times> string option \<Rightarrow> bool" where
  "tombstones sa \<longleftrightarrow> (snd sa \<noteq> None \<longrightarrow> fst sa = StatusArchived)"

lemma effective_status: "effective (status_of r) = EffectiveStatus r"
  by (cases "rec_ArchivedFrom r") (simp_all add: effective_def status_of_def EffectiveStatus_def)

lemma statuses_differ [simp]:
  "StatusDraft \<noteq> StatusArchived" "StatusOpen \<noteq> StatusArchived" "StatusHeld \<noteq> StatusArchived" "StatusCompleted \<noteq> StatusArchived"
  "StatusArchived \<noteq> StatusDraft" "StatusArchived \<noteq> StatusOpen" "StatusArchived \<noteq> StatusHeld" "StatusArchived \<noteq> StatusCompleted"
  "StatusDraft \<noteq> StatusCompleted" "StatusOpen \<noteq> StatusCompleted" "StatusHeld \<noteq> StatusCompleted"
  "StatusCompleted \<noteq> StatusDraft" "StatusCompleted \<noteq> StatusOpen" "StatusCompleted \<noteq> StatusHeld"
  by (simp_all add: StatusDraft_def StatusOpen_def StatusHeld_def StatusCompleted_def StatusArchived_def)

text \<open>What one step of the machine does to completion and to tombstones.\<close>

lemma status_step_completed:
  "status_step op sa sb \<Longrightarrow> tombstones sa \<Longrightarrow> effective sb = StatusCompleted \<Longrightarrow> op \<noteq> OpCompleteManual \<Longrightarrow> effective sa = StatusCompleted"
  by (induction rule: status_step.induct) (auto simp: effective_def tombstones_def split: option.splits)

lemma status_step_reopened:
  "status_step op sa sb \<Longrightarrow> tombstones sa \<Longrightarrow> effective sa = StatusCompleted \<Longrightarrow> op \<noteq> OpReopen \<Longrightarrow> effective sb = StatusCompleted"
  by (induction rule: status_step.induct) (auto simp: effective_def tombstones_def split: option.splits)

lemma status_step_tombstone: "status_step op sa sb \<Longrightarrow> fst sa = StatusArchived \<Longrightarrow> op = OpRestore"
  by (induction rule: status_step.induct) auto

text \<open>One accepted plan as a step of the history.\<close>

lemma planned_step:
  assumes "Apply X ctx (Some env) = Inr plan" "Planned plan" "me_Operation env \<noteq> OpCreate"
    "pn_Pre plan = Some pre" "go_maps pre" "pn_Post plan = Some post"
  shows "status_step (me_Operation env) (status_of pre) (status_of post)" "tombstones (status_of pre)"
    "Count_Int (rec_Revision post) = Count_Int (rec_Revision pre) + 1"
proof -
  obtain work where c: "change X ctx env pre work" "finalize X ctx pre work (forcesAcceptanceBump (me_Operation env)) = Inr post"
    using planned_changes [OF assms(1,2,3)] assms(4,6) by (auto simp: changes_def reports_def)
  show "status_step (me_Operation env) (status_of pre) (status_of post)"
    using change_status [OF c(1) assms(5)] finalize_status [OF c(2)] by simp
  obtain w0 where w0: "clone X pre = Inr w0" using c(1) by (auto simp: change_def)
  have "status_ok w0" using clone_same(2) [OF w0 assms(5)] by (simp add: record_ok_def)
  then show "tombstones (status_of pre)"
    using same_fields(4,5) [OF clone_same(1) [OF w0 assms(5)]] by (auto simp: status_ok_def tombstones_def status_of_def)
  show "Count_Int (rec_Revision post) = Count_Int (rec_Revision pre) + 1"
    using c(2) clone_counts [OF w0 assms(5)] by (auto simp: finalize_Inr Let_def chained_def Count_succ)
qed

text \<open>
  C5: the history of a ticket. Along any sequence of accepted operations, of any actors, the revision
  counts the operations; a ticket becomes effectively COMPLETED only by COMPLETE_MANUAL and stops being so
  only by REOPEN, archiving and restoring keep it; and nothing is accepted on a tombstone before RESTORE.
\<close>

theorem ticket_history:
  assumes "evolves X r ops r'"
  shows "Count_Int (rec_Revision r') = Count_Int (rec_Revision r) + int (length ops) \<and>
    (EffectiveStatus r' = StatusCompleted \<and> OpCompleteManual \<notin> set ops \<longrightarrow> EffectiveStatus r = StatusCompleted) \<and>
    (EffectiveStatus r = StatusCompleted \<and> OpReopen \<notin> set ops \<longrightarrow> EffectiveStatus r' = StatusCompleted) \<and>
    (rec_Status r = StatusArchived \<and> ops \<noteq> [] \<longrightarrow> hd ops = OpRestore)"
  using assms
proof (induction rule: evolves.induct)
  case (more ops pre ctx env plan post)
  note st = planned_step [OF more.hyps(2-7)]
  have fin: "EffectiveStatus post = StatusCompleted \<Longrightarrow> me_Operation env \<noteq> OpCompleteManual \<Longrightarrow> EffectiveStatus pre = StatusCompleted"
    and redo: "EffectiveStatus pre = StatusCompleted \<Longrightarrow> me_Operation env \<noteq> OpReopen \<Longrightarrow> EffectiveStatus post = StatusCompleted"
    using status_step_completed [OF st(1,2)] status_step_reopened [OF st(1,2)] by (simp_all add: effective_status)
  have first: "ops = [] \<Longrightarrow> pre = r" using more.hyps(1) by (cases rule: evolves.cases) auto
  have "Count_Int (rec_Revision post) = Count_Int (rec_Revision r) + int (length (ops @ [me_Operation env]))"
    using more.IH st(3) by simp
  moreover have "EffectiveStatus post = StatusCompleted \<and> OpCompleteManual \<notin> set (ops @ [me_Operation env]) \<longrightarrow> EffectiveStatus r = StatusCompleted"
    using more.IH fin by auto
  moreover have "EffectiveStatus r = StatusCompleted \<and> OpReopen \<notin> set (ops @ [me_Operation env]) \<longrightarrow> EffectiveStatus post = StatusCompleted"
    using more.IH redo by auto
  moreover have "rec_Status r = StatusArchived \<longrightarrow> hd (ops @ [me_Operation env]) = OpRestore"
    using more.IH first status_step_tombstone [OF st(1)] by (cases ops) (simp_all add: status_of_def)
  ultimately show ?case by blast
qed simp_all

theorem ticket_history_witness:
  "evolves sample_externals file_record [OpRefine] refined_record \<and>
   Count_Int (rec_Revision refined_record) = Count_Int (rec_Revision file_record) + 1"
proof -
  have g: "go_maps file_record" using file_none file_fields by (simp add: go_maps_iff)
  have a: "Apply sample_externals (sample_context ''WORKER'' [file_record] (\<lambda>_. Inr None)) (Some sample_envelope) = Inr sample_plan"
    by (rule sample_applies) simp
  have e: "evolves sample_externals file_record [OpRefine] refined_record"
    using evolves.more [OF evolves.start a sample_plan_simps(1) _ sample_plan_simps(2) g sample_plan_simps(3)]
    by (simp add: envelope_fields sample_operation)
  show ?thesis using e ticket_history [OF e] by simp
qed

subsection \<open>Refusals\<close>

text \<open>
  C4: every answer of the planner is a completed plan, which reports the revisions of its post record, or
  it carries no record, no queue manifest and no event and is one of four: a refusal with one of the five
  closed outcomes and at most one code (a review may instead be refused with the outcome the transaction
  layer observed for it); the recorded outcome of the identical request, marked as a replay; a conflict,
  when the request identifier was recorded with other bytes; or a storage failure, when the request index
  could not be read.
\<close>

theorem Apply_refusals:
  assumes "Apply X ctx (Some env) = Inr plan"
  shows "if Planned plan then \<exists>post. reports plan post
    else pn_Post plan = None \<and> pn_QueuePost plan = None \<and> pn_DerivedEvent plan = None \<and>
      (nothing_planned ctx env plan \<or>
       (\<exists>look. mc_Requests ctx = Some look \<and>
         ((\<exists>e. look (me_RequestID env) = Inr (Some e) \<and>
            pn_Outcome plan = (if ix_MutationSha256 e = envelope_Sha256 (x_Sum X) env then (ix_Outcome e)\<lparr>oc_Replayed := True\<rparr>
              else outcome_of (me_RequestID env) OutcomeRequestIDConflict CodeRequestIDConflict)) \<or>
          (\<exists>e. look (me_RequestID env) = Inl e \<and> pn_Outcome plan = outcome_of (me_RequestID env) OutcomeStorageFailed (e_Code e)))))"
proof -
  have planned: "reports plan post \<Longrightarrow> Planned plan" for post by (simp add: reports_def Planned_def)
  consider "turned_down ctx env plan"
    | out where "trusted ctx env = Inr ()" "replay (mc_Requests ctx) (me_RequestID env) (envelope_Sha256 (x_Sum X) env) = Some out"
        "plan = (start_plan X env)\<lparr>pn_Outcome := out\<rparr>"
    | post where "reports plan post"
    using Apply_branches [OF assms] by (auto simp: creates_def changes_def split: if_splits)
  then show ?thesis
  proof cases
    case 1
    then have "nothing_planned ctx env plan" by (rule turned_down_nothing)
    then show ?thesis using turned_down_unplanned [OF 1] by (simp add: nothing_planned_def)
  next
    case (2 out)
    have "mc_Requests ctx \<noteq> None" using 2(1) by (auto simp: trusted_def checkInputs_def split: if_splits)
    then show ?thesis using 2(2,3) by (auto simp: replay_def Planned_def start_plan_def zero_Plan_def split: option.splits sum.splits if_splits)
  next
    case (3 post)
    then show ?thesis using planned by auto
  qed
qed

theorem Apply_refusals_witness: "\<exists>post. reports sample_plan post"
proof -
  have a: "Apply sample_externals (sample_context ''WORKER'' [file_record] (\<lambda>_. Inr None)) (Some sample_envelope) = Inr sample_plan"
    by (rule sample_applies) simp
  show ?thesis using Apply_refusals [OF a] sample_plan_simps(1) by simp
qed

text \<open>
  C16: exactly once. For an invocation that passes the trust boundary, after a request has been recorded,
  and however many others were recorded since, the same request identifier is never planned again: the identical envelope is answered with the recorded
  outcome, marked as a replay, and an envelope with other bytes is a conflict; nothing is to be committed.
\<close>

theorem Apply_exactly_once:
  assumes "memory.recorded s" "memory_Record s e = Inr s'" "memory.later s' t" "mc_Requests ctx = Some (memory_Lookup t)"
    and "trusted ctx env = Inr ()" "me_RequestID env = ix_RequestID e"
  shows "\<exists>plan. Apply X ctx (Some env) = Inr plan \<and> pn_Post plan = None \<and> pn_QueuePost plan = None \<and>
    pn_Outcome plan = (if envelope_Sha256 (x_Sum X) env = ix_MutationSha256 e then (ix_Outcome e)\<lparr>oc_Replayed := True\<rparr>
      else outcome_of (ix_RequestID e) OutcomeRequestIDConflict CodeRequestIDConflict)"
proof -
  have "pn_MutationSha256 (start_plan X env) = envelope_Sha256 (x_Sum X) env" by (simp add: start_plan_def)
  then show ?thesis
    using memory.replay_later [OF assms(1-3), of "envelope_Sha256 (x_Sum X) env"] assms(4-6)
    by (auto simp: Apply_def Let_def or_refused_def start_plan_def zero_Plan_def)
qed

theorem Apply_exactly_once_witness:
  "\<exists>plan. Apply sample_externals (sample_context ''WORKER'' [file_record] (memory_Lookup (Some [''r1'' \<mapsto>
      \<lparr>ix_RequestID = ''r1'', ix_MutationSha256 = replicate 64 (CHR ''a''), ix_Outcome = zero_Outcome\<rparr>]))) (Some sample_envelope) = Inr plan \<and>
    oc_Replayed (pn_Outcome plan)"
proof -
  let ?e = "\<lparr>ix_RequestID = ''r1'', ix_MutationSha256 = replicate 64 (CHR ''a''), ix_Outcome = zero_Outcome\<rparr>"
  have r: "memory_Record NewMemoryIndex ?e = Inr (Some [''r1'' \<mapsto> ?e])" by (simp add: memory_Record_def NewMemoryIndex_def)
  have sha: "envelope_Sha256 (x_Sum sample_externals) sample_envelope = replicate 64 (CHR ''a'')"
    by (simp add: envelope_Sha256_def sample_externals_def)
  show ?thesis
    using Apply_exactly_once [OF memory.recorded.empty r memory.later.same, of "sample_context ''WORKER'' [file_record] (memory_Lookup (Some [''r1'' \<mapsto> ?e]))"
      sample_envelope sample_externals] sample_trusted sha
    by (auto simp: sample_context_def envelope_fields)
qed

end
