(* ===== verification/Planner_Create.thy ===== *)
theory Planner_Create
  imports Planner
begin

text \<open>
  What CREATE keeps of the queue, and the exact behaviour of serial allocation over a built inventory.
\<close>

lemma accepted_acyclic:
  assumes "inv_over ss iv" "\<forall>tid. inv_inCycle iv tid = None" "CheckDependencies iv r = Some (Inr ())"
  shows "\<not> on_cycle (proposed_graph iv r) x"
proof
  assume c: "on_cycle (proposed_graph iv r) x"
  have "\<not> on_cycle (proposed_graph iv r) (t_Raw (rec_TicketID r))"
    using CheckDependencies_eq [OF inv_over_finite [OF assms(1)], of r] assms(3) by auto
  then have old: "on_cycle (sum_graph (inv_sum iv)) x" using on_cycle_old c unfolding proposed_graph_def by blast
  then have "x \<in> dom (inv_sum iv)" by (metis on_cycle_dom dom_sum_graph)
  then have "inv_inCycle iv x = cycle_of (sum_graph (inv_sum iv)) x" using assms(1) by (simp add: inv_over_def)
  then show False using assms(2) old by (simp add: cycle_of_def)
qed

subsection \<open>Serials\<close>

lemma ParseToken_refused:
  "ParseToken loc s mx = Inl e \<Longrightarrow> \<exists>code. refuseErr e = (refuse OutcomeValidationFailed code :: 'a planning)"
proof -
  assume "ParseToken loc s mx = Inl e"
  then have "e_Code e = CodeMalformed \<or> e_Code e = CodeLimitExceeded" by (auto simp: ParseToken_def split: if_splits)
  moreover have "CodeMalformed \<noteq> CodeUnsupportedVersion" "CodeLimitExceeded \<noteq> CodeUnsupportedVersion"
    by (simp_all add: CodeMalformed_def CodeLimitExceeded_def CodeUnsupportedVersion_def)
  ultimately show ?thesis by (auto simp: refuseErr_def)
qed

lemma serial_loop_range:
  assumes "0 \<le> n" "int MaxCountValue < n + int k + 1" "k < tries" "\<And>i. i < k \<Longrightarrow> \<not> free_serial prefix occ (n + int i)"
  shows "serial_loop prefix occ tries n = refuse OutcomeValidationFailed CodeLimitExceeded"
  using assms
proof (induction k arbitrary: tries n)
  case (Suc k)
  obtain t where t: "tries = Suc t" using Suc.prems(3) by (cases tries) auto
  have "\<not> free_serial prefix occ n" using Suc.prems(4) [of 0] by simp
  moreover have "serial_loop prefix occ t (n + 1) = refuse OutcomeValidationFailed CodeLimitExceeded"
    using Suc.prems t Suc.prems(4) [of "Suc i" for i] by (intro Suc.IH) (simp_all add: add.assoc)
  ultimately show ?case by (simp add: t free_serial_def Let_def)
next
  case 0
  then show ?case by (cases tries) simp_all
qed

text \<open>
  C29: serial allocation is exact. Among as many serials from the queue's next one as the queue has tickets,
  and one more, there is a first whose token differs from every local token under case folding. If its
  successor is in the Count range and its token is a valid local token, it is allocated and the new next
  serial is that successor; otherwise, and only then, the allocation is refused.
\<close>

theorem allocateSerial_exact:
  fixes q :: Queue
  assumes "inv_over ss iv" "0 \<le> Count_Int (qm_NextSerial q)"
  defines "n \<equiv> Count_Int (qm_NextSerial q)" and "tok \<equiv> serial_token (qm_Prefix q)"
  shows "\<exists>k\<le>length ss. (\<forall>s\<in>set ss. FoldToken (t_Local (sm_TicketID s)) \<noteq> FoldToken (tok (n + int k))) \<and>
    (\<forall>i<k. \<exists>s\<in>set ss. FoldToken (t_Local (sm_TicketID s)) = FoldToken (tok (n + int i))) \<and>
    (if n + int k + 1 \<le> int MaxCountValue \<and> is_token MaxLocalTokenBytes (tok (n + int k))
     then \<exists>nxt. allocateSerial iv q = Inr (tok (n + int k), nxt) \<and> Count_Int nxt = n + int k + 1
     else \<exists>code. allocateSerial iv q = refuse OutcomeValidationFailed code)"
proof -
  let ?p = "qm_Prefix q" and ?occ = "occupied iv"
  have free: "free_serial ?p ?occ m \<longleftrightarrow> (\<forall>s\<in>set ss. FoldToken (t_Local (sm_TicketID s)) \<noteq> FoldToken (tok m))" for m
    using occupied_over(2) [OF assms(1)] by (auto simp: free_serial_def image_iff tok_def)
  have len: "length ?occ < inv_Len iv + 1" and tries: "inv_Len iv + 1 = length ss + 1"
    using occupied_over(1,3) [OF assms(1)] by simp_all
  obtain k0 where k0: "k0 < inv_Len iv + 1" "free_serial ?p ?occ (n + int k0)"
    using free_serial_exists [OF assms(2) len] unfolding n_def by blast
  define k where "k = (LEAST k. free_serial ?p ?occ (n + int k))"
  have k: "free_serial ?p ?occ (n + int k)" "k < inv_Len iv + 1" "\<And>i. i < k \<Longrightarrow> \<not> free_serial ?p ?occ (n + int i)"
    using LeastI [of "\<lambda>k. free_serial ?p ?occ (n + int k)" k0] Least_le [of "\<lambda>k. free_serial ?p ?occ (n + int k)" k0] k0
      not_less_Least unfolding k_def by (simp, linarith, blast)
  have n: "0 \<le> n" using assms(2) by (simp add: n_def)
  have alloc: "allocateSerial iv q = serial_loop ?p ?occ (inv_Len iv + 1) n" unfolding allocateSerial_def n_def ..
  have result: "if n + int k + 1 \<le> int MaxCountValue \<and> is_token MaxLocalTokenBytes (tok (n + int k))
     then \<exists>nxt. allocateSerial iv q = Inr (tok (n + int k), nxt) \<and> Count_Int nxt = n + int k + 1
     else \<exists>code. allocateSerial iv q = refuse OutcomeValidationFailed code"
  proof (cases "n + int k + 1 \<le> int MaxCountValue")
    case True
    have "Count_Int (CountOf (n + int k + 1)) = n + int k + 1"
      using n True by (subst Count_Int_CountOf) (simp_all add: MaxCountValue_def)
    moreover note found = serial_loop_found [OF n True k(2,3,1), folded alloc]
    ultimately show ?thesis
    proof (cases "is_token MaxLocalTokenBytes (tok (n + int k))")
      case False
      then obtain e where e: "ParseToken ''/payload/localToken'' (tok (n + int k)) MaxLocalTokenBytes = Inl e"
        by (cases "ParseToken ''/payload/localToken'' (tok (n + int k)) MaxLocalTokenBytes") auto
      then show ?thesis using found ParseToken_refused [OF e] False by (simp add: tok_def)
    next
      case at: True
      then have "ParseToken ''/payload/localToken'' (tok (n + int k)) MaxLocalTokenBytes = Inr (tok (n + int k))" by simp
      then show ?thesis using found True at \<open>Count_Int _ = _\<close> by (simp add: tok_def del: ParseToken_iff)
    qed
  next
    case False
    then show ?thesis using serial_loop_range [OF n _ k(2,3)] alloc by auto
  qed
  show ?thesis using k(2) tries free k(1,3) result by (intro exI [of _ k]) auto
qed

theorem allocateSerial_exact_witness:
  "\<exists>tok nxt. allocateSerial (planner_inventory [file_record]) planner_queue = Inr (tok, nxt)"
proof -
  let ?q = planner_queue
  have f: "Count_Int (qm_NextSerial ?q) = 1" "qm_Prefix ?q = ''T''" by (simp add: planner_queue_def, code_simp) (simp add: planner_queue_def)
  have tok: "is_token MaxLocalTokenBytes (serial_token ''T'' (1 + int k))" if "k \<le> 1" for k
  proof (rule serial_is_token)
    show "is_token MaxLocalTokenBytes ''T''" by code_simp
    show "length ''T'' + 11 \<le> MaxLocalTokenBytes" by code_simp
  qed (use that in \<open>simp_all add: MaxCountValue_def\<close>)
  have "1 + int k + 1 \<le> int MaxCountValue" if "k \<le> 1" for k using that by (simp add: MaxCountValue_def)
  then show ?thesis
    using allocateSerial_exact [OF NewLazyInventory_over(1) [OF sample_built(1)], of ?q] tok by (auto simp: f)
qed

subsection \<open>CREATE\<close>

lemma composed_ticket:
  assumes "ParseTicketID l (''ticket:'' @ a @ '':'' @ q @ '':'' @ loc) = Inr tid" "is_token m a" "is_token m q"
  shows "tid = \<lparr>t_Raw = ''ticket:'' @ a @ '':'' @ q @ '':'' @ loc, t_Authority = a, t_Queue = q, t_Local = loc\<rparr>"
proof -
  let ?s = "''ticket'' @ CHR '':'' # a @ CHR '':'' # q @ CHR '':'' # loc"
  have s: "''ticket:'' @ a @ '':'' @ q @ '':'' @ loc = ?s" by simp
  have "split_on (CHR '':'') ?s = ''ticket'' # a # q # split_on (CHR '':'') loc"
    using is_token_no_colon [OF assms(2)] is_token_no_colon [OF assms(3)] by (simp add: split_on_append)
  moreover obtain b c d where sp: "split_on (CHR '':'') ?s = [''ticket'', b, c, d]"
      and tid: "tid = \<lparr>t_Raw = ?s, t_Authority = b, t_Queue = c, t_Local = d\<rparr>"
    using assms(1) unfolding s by (auto simp: ParseTicketID_def split: sum.splits list.splits if_splits)
  ultimately have "b = a" "c = q" "split_on (CHR '':'') loc = [d]" by simp_all
  moreover from this(3) have "d = loc" using join_split_on [of "CHR '':''" loc] by simp
  ultimately show ?thesis unfolding s tid by simp
qed

lemma CheckLocalToken_fresh:
  assumes "CheckLocalToken iv loc = Inr ()" "inv_over ss iv" "s \<in> set ss"
  shows "FoldToken (t_Local (sm_TicketID s)) \<noteq> FoldToken loc"
proof -
  have loop: "token_loop iv f ids = Inr () \<Longrightarrow> tid \<in> set ids \<Longrightarrow> FoldToken (t_Local (sm_TicketID (the (inv_sum iv tid)))) \<noteq> f" for f ids tid
    by (induction iv f ids rule: token_loop.induct) (auto split: if_splits)
  have d: "distinct (map (\<lambda>s. t_Raw (sm_TicketID s)) ss)" and sm: "inv_sum iv = map_of (map (\<lambda>s. (t_Raw (sm_TicketID s), s)) ss)"
    and ids: "inv_ids iv = sort (map (\<lambda>s. t_Raw (sm_TicketID s)) ss)"
    using assms(2) by (simp_all add: inv_over_def queue_ok_def)
  have "inv_sum iv (t_Raw (sm_TicketID s)) = Some s" unfolding sm using map_of_raw [OF d assms(3), of "\<lambda>s. s"] by simp
  moreover have "t_Raw (sm_TicketID s) \<in> set (inv_ids iv)" using assms(3) by (simp add: ids)
  ultimately show ?thesis using loop [OF assms(1) [unfolded CheckLocalToken_def]] by fastforce
qed

text \<open>Either way the local token of a new ticket is free.\<close>

lemma create_token_fresh:
  assumes "create_token ctx p = Inr (loc, q)" "inv_over ss (ctx_Inventory ctx)" "s \<in> set ss"
  shows "FoldToken (t_Local (sm_TicketID s)) \<noteq> FoldToken loc"
proof (cases "cp_LocalToken p")
  case None
  then obtain nxt where "allocateSerial (ctx_Inventory ctx) (ctx_Queue ctx) = Inr (loc, nxt)"
    using assms(1) by (auto simp: create_token_def)
  then have "FoldToken loc \<notin> set (occupied (ctx_Inventory ctx))"
    unfolding allocateSerial_def using serial_loop_Inr by (fastforce simp: free_serial_def)
  then show ?thesis using assms(3) occupied_over(2) [OF assms(2)] by (auto simp: image_iff)
next
  case (Some l)
  then have "CheckLocalToken (ctx_Inventory ctx) loc = Inr ()"
    using assms(1) by (auto simp: create_token_def)
  then show ?thesis using CheckLocalToken_fresh assms(2,3) by blast
qed

lemma create_maps:
  assumes "\<And>ro. cp_RequiredRoles p = Some ro \<Longrightarrow> distinct (map fst ro)"
  shows "go_maps (opened (create_record ctx p tid))"
  using assms by (simp add: go_maps_iff opened_def create_record_def zero_Record_def)

lemma opened_fields:
  "rec_TicketID (opened r) = rec_TicketID r" "rec_Revision (opened r) = rec_Revision r"
  "rec_AcceptanceRevision (opened r) = rec_AcceptanceRevision r" "rec_ArchivedFrom (opened r) = rec_ArchivedFrom r"
  "rec_Status (opened r) = (if opens r then StatusOpen else rec_Status r)"
  by (simp_all add: opened_def)

text \<open>The token of an accepted CREATE: the one it names, or an allocated serial that the new next serial follows.\<close>

definition token_taken :: "MutationContext \<Rightarrow> Summary list \<Rightarrow> CreatePayload \<Rightarrow> string \<Rightarrow> Queue option \<Rightarrow> bool" where
  "token_taken ctx ss p loc q \<longleftrightarrow> (case cp_LocalToken p of
     Some l \<Rightarrow> loc = l \<and> q = None
   | None \<Rightarrow>
       let n = Count_Int (qm_NextSerial (ctx_Queue ctx)); tok = serial_token (qm_Prefix (ctx_Queue ctx))
       in \<exists>k nxt. q = Some ((ctx_Queue ctx)\<lparr>qm_NextSerial := nxt\<rparr>) \<and> loc = tok (n + int k) \<and> Count_Int nxt = n + int k + 1 \<and>
            (\<forall>i<k. \<exists>s\<in>set ss. FoldToken (t_Local (sm_TicketID s)) = FoldToken (tok (n + int i))))"

lemma create_token_taken:
  assumes "create_token ctx p = Inr (loc, q)" "inv_over ss (ctx_Inventory ctx)"
  shows "token_taken ctx ss p loc (if cp_LocalToken p = None then Some q else None)"
proof (cases "cp_LocalToken p")
  case None
  let ?p = "qm_Prefix (ctx_Queue ctx)" and ?n = "Count_Int (qm_NextSerial (ctx_Queue ctx))"
  obtain nxt where a: "allocateSerial (ctx_Inventory ctx) (ctx_Queue ctx) = Inr (loc, nxt)" "q = (ctx_Queue ctx)\<lparr>qm_NextSerial := nxt\<rparr>"
    using assms(1) None by (auto simp: create_token_def)
  obtain k where k: "loc = serial_token ?p (?n + int k)" "nxt = CountOf (?n + int k + 1)" "0 \<le> ?n" "?n + int k + 1 \<le> int MaxCountValue"
      "\<forall>i<k. \<not> free_serial ?p (occupied (ctx_Inventory ctx)) (?n + int i)"
    using serial_loop_Inr [OF a(1) [unfolded allocateSerial_def]] by blast
  have "Count_Int nxt = ?n + int k + 1" unfolding k(2) using k(3,4) by (subst Count_Int_CountOf) (simp_all add: MaxCountValue_def)
  moreover have "\<exists>s\<in>set ss. FoldToken (t_Local (sm_TicketID s)) = FoldToken (serial_token ?p (?n + int i))" if "i < k" for i
    using k(5) that occupied_over(2) [OF assms(2)] by (force simp: free_serial_def)
  ultimately show ?thesis using None a(2) k(1) by (auto simp: token_taken_def Let_def)
qed (use assms(1) in \<open>auto simp: token_taken_def create_token_def\<close>)

lemma inventory_known:
  assumes "inv_over ss iv"
  shows "inv_sum iv raw \<noteq> None \<longleftrightarrow> (\<exists>s\<in>set ss. t_Raw (sm_TicketID s) = raw)"
proof -
  have "inv_sum iv = map_of (map (\<lambda>s. (t_Raw (sm_TicketID s), s)) ss)" using assms by (simp add: inv_over_def)
  then show ?thesis by (auto simp: map_of_eq_None_iff image_iff)
qed

text \<open>The relationships of a new record that \<^verbatim>\<open>checkRecord\<close> admits.\<close>

definition relationships_ok :: "MutationContext \<Rightarrow> Summary list \<Rightarrow> Inventory \<Rightarrow> Record \<Rightarrow> bool" where
  "relationships_ok ctx ss iv r \<longleftrightarrow>
     (\<forall>d\<in>set (rec_Dependencies r). t_Raw (d_TicketID d) \<noteq> t_Raw (rec_TicketID r) \<and>
        (\<exists>s\<in>set ss. t_Raw (sm_TicketID s) = t_Raw (d_TicketID d)) \<and> (\<forall>g. d_GateID d = Some g \<longrightarrow> g \<in> set (pol_Gates (ctx_Policy ctx)))) \<and>
     set (rec_RequiredGates r) \<subseteq> set (pol_Gates (ctx_Policy ctx)) \<and>
     (rec_RequiresPool r \<noteq> [] \<longrightarrow> rec_RequiresPool r \<in> set (pol_Pools (ctx_Policy ctx))) \<and>
     ((\<forall>tid. inv_inCycle iv tid = None) \<longrightarrow> (\<forall>x. \<not> on_cycle (proposed_graph iv r) x))"

lemma new_record_checked:
  assumes "checkRecord X ctx None r = Inr ()" "mc_Inventory ctx = Some iv" "inv_over ss iv"
  shows "relationships_ok ctx ss iv r"
proof -
  have c: "check_dependencies ctx r = Inr ()" "check_gates ctx r = Inr ()"
      "rec_RequiresPool r = [] \<or> policy_Pool (ctx_Policy ctx) (rec_RequiresPool r) \<noteq> None"
    using assms(1) by (simp_all add: checkRecord_def changed_def Let_def)
  have d: "CheckDependencies iv r = Some (Inr ())"
    using c(1) assms(2) by (auto simp: check_dependencies_def split: option.splits)
  have ok: "\<forall>w\<in>set (dep_ids (rec_Dependencies r)). w \<noteq> t_Raw (rec_TicketID r) \<and> inv_sum iv w \<noteq> None"
      "\<not> on_cycle (proposed_graph iv r) (t_Raw (rec_TicketID r))"
    using CheckDependencies_eq [OF inv_over_finite [OF assms(3)], of r] d by auto
  show ?thesis
    unfolding relationships_ok_def
  proof (intro conjI impI allI ballI)
    fix x assume "\<forall>tid. inv_inCycle iv tid = None"
    then show "\<not> on_cycle (proposed_graph iv r) x" by (rule accepted_acyclic [OF assms(3) _ d])
  qed (use ok(1) c(2,3) inventory_known [OF assms(3)] in
    \<open>auto simp: dep_ids_def check_gates_def GateIDs_def list_all_iff policy_Pool_def find_None_iff split: option.splits\<close>)
qed

text \<open>
  C18: CREATE keeps the queue. The record of an accepted CREATE is at its first revision, OPEN exactly
  when it has acceptance criteria or is manual or external work, and its identifier belongs to the queue
  and differs from every other under case folding; with it the queue is still well-formed and within the
  ticket bound. Its local token is the one the request names, and then the queue manifest is not changed;
  or it is the first free serial, and the manifest then changes only in its next serial, which follows the
  allocated one. Every dependency leads to another ticket of the queue, every gate and the pool are those
  of the policy, and when no ticket was on a dependency cycle none is with the new record.
\<close>

theorem Apply_create_queue:
  assumes "Apply X ctx (Some env) = Inr plan" "Planned plan" "me_Operation env = OpCreate" "me_Payload env = Some (CreateP p)"
    and "mc_Inventory ctx = Some iv" "inv_over ss iv"
    and "ParseQueueID l (q_Raw (qm_QueueID (ctx_Queue ctx))) = Inr (qm_QueueID (ctx_Queue ctx))"
    and "\<And>ro. cp_RequiredRoles p = Some ro \<Longrightarrow> distinct (map fst ro)"
    and "\<And>s. s \<in> set ss \<Longrightarrow> \<exists>l. ParseTicketID l (t_Raw (sm_TicketID s)) = Inr (sm_TicketID s)"
  shows "\<exists>post. pn_Pre plan = None \<and> pn_Post plan = Some post \<and>
    rec_Revision post = ''1'' \<and> rec_AcceptanceRevision post = ''1'' \<and>
    rec_Status post = (if cp_AcceptanceCriteria p \<noteq> [] \<or> cp_Kind p = ''MANUAL'' \<or> cp_Kind p = ''EXTERNAL'' then StatusOpen else StatusDraft) \<and>
    queue_ok (inv_QueueID iv) (ss @ [SummaryOf post]) \<and> length (ss @ [SummaryOf post]) \<le> MaxTicketsPerQueue \<and>
    token_taken ctx ss p (t_Local (rec_TicketID post)) (pn_QueuePost plan) \<and> relationships_ok ctx ss iv post"
proof -
  obtain post where c: "pn_Pre plan = None" "pn_Post plan = Some post" "create_post X ctx p = Inr (post, pn_QueuePost plan)"
    using planned_creates [OF assms(1-3)] assms(4) by (auto simp: creates_def reports_def)
  obtain loc q tid where f: "create_token ctx p = Inr (loc, q)" "clone X (opened (create_record ctx p tid)) = Inr post"
      "ParseTicketID ''/payload/localToken'' (''ticket:'' @ q_Authority (qm_QueueID q) @ '':'' @ q_Queue (qm_QueueID q) @ '':'' @ loc) = Inr tid"
      "inv_Len iv < MaxTicketsPerQueue" "checkRecord X ctx None post = Inr ()" "pn_QueuePost plan = (if cp_LocalToken p = None then Some q else None)"
    using c(3) assms(5) by (auto simp: create_post_def)
  have qid: "qm_QueueID q = qm_QueueID (ctx_Queue ctx)" using f(1) by (auto simp: create_token_def split: option.splits)
  let ?a = "q_Authority (qm_QueueID q)" and ?b = "q_Queue (qm_QueueID q)"
  have pq: "q_Raw (qm_QueueID q) = ''queue:'' @ ?a @ '':'' @ ?b" "is_token MaxIdentifierBytes ?a" "is_token MaxIdentifierBytes ?b"
    using assms(7) by (simp_all add: qid ParseQueueID_iff)
  have tid: "tid = \<lparr>t_Raw = ''ticket:'' @ ?a @ '':'' @ ?b @ '':'' @ loc, t_Authority = ?a, t_Queue = ?b, t_Local = loc\<rparr>"
    by (rule composed_ticket [OF f(3) pq(2,3)])
  note same = same_fields [OF clone_same(1) [OF f(2) create_maps [OF assms(8)]]]
  obtain l2 where "ParseTicketID l2 (t_Raw (rec_TicketID post)) = Inr (rec_TicketID post)"
    using FromValue_ticket f(2) unfolding clone_def by blast
  then have "ParseTicketID l2 (''ticket:'' @ ?a @ '':'' @ ?b @ '':'' @ loc) = Inr (rec_TicketID post)"
    using same(1) by (simp add: opened_fields create_record_def tid)
  then have post_id: "rec_TicketID post = tid" using composed_ticket [OF _ pq(2,3)] tid by metis
  have same_queue: "q_Raw (inv_QueueID iv) = q_Raw (qm_QueueID q)"
    using trusted_queue [OF planned_admitted(1) [OF assms(1,2)]] assms(5) qid by simp
  have fresh: "FoldToken (t_Local (sm_TicketID s)) \<noteq> FoldToken loc" if "s \<in> set ss" for s
    using create_token_fresh [OF f(1) _ that] assms(5,6) by simp
  have "queue_ok (inv_QueueID iv) (ss @ [SummaryOf post])"
  proof -
    have "queue_ok (inv_QueueID iv) ss" using assms(6) by (simp add: inv_over_def)
    moreover have "TicketID_QueueID tid = q_Raw (inv_QueueID iv)" by (simp add: tid TicketID_QueueID_def same_queue pq(1))
    moreover have raw: "t_Raw (sm_TicketID s) \<noteq> t_Raw tid" if s: "s \<in> set ss" for s
    proof
      assume eq: "t_Raw (sm_TicketID s) = t_Raw tid"
      obtain l where "ParseTicketID l (t_Raw (sm_TicketID s)) = Inr (sm_TicketID s)" using assms(9) [OF s] by blast
      then have "sm_TicketID s = tid" using composed_ticket [OF _ pq(2,3)] tid unfolding eq by (metis TicketID.select_convs(1))
      then show False using fresh [OF s] by (simp add: tid)
    qed
    moreover have "t_Raw tid \<notin> (\<lambda>s. t_Raw (sm_TicketID s)) ` set ss" "FoldToken loc \<notin> (\<lambda>s. FoldToken (t_Local (sm_TicketID s))) ` set ss"
      using raw fresh by force+
    moreover have "t_Local tid = loc" by (simp add: tid)
    ultimately show ?thesis by (simp add: queue_ok_def SummaryOf_def post_id)
  qed
  moreover have "length (ss @ [SummaryOf post]) \<le> MaxTicketsPerQueue" using f(4) occupied_over(3) [OF assms(6)] by simp
  moreover have "rec_Revision post = ''1''" "rec_AcceptanceRevision post = ''1''"
    using same(2,3) by (simp_all add: opened_fields create_record_def)
  moreover have "rec_Status post = (if cp_AcceptanceCriteria p \<noteq> [] \<or> cp_Kind p = ''MANUAL'' \<or> cp_Kind p = ''EXTERNAL'' then StatusOpen else StatusDraft)"
    using same(4) by (simp add: opened_fields create_record_def opens_def split: if_splits)
  moreover have "relationships_ok ctx ss iv post" by (rule new_record_checked [OF f(5) assms(5,6)])
  moreover have "token_taken ctx ss p (t_Local (rec_TicketID post)) (pn_QueuePost plan)"
    using create_token_taken [OF f(1)] assms(5,6) by (simp add: post_id tid f(6))
  ultimately show ?thesis using c by auto
qed

definition sample_create :: CreatePayload where
  "sample_create = \<lparr>cp_RequiredRoles = None, cp_RequiresPool = [], cp_LocalToken = Some ''T1'', cp_Title = ''t'', cp_Body = None, cp_Kind = ''CHORE'',
     cp_Owner = None, cp_Milestone = None, cp_Priority = ''P2'', cp_Order = ''1'', cp_Labels = [], cp_Dependencies = [],
     cp_AcceptanceCriteria = [], cp_RequirementRefs = [], cp_Source = rec_Source file_record, cp_Effects = rec_Effects file_record,
     cp_Capabilities = [], cp_RequiredGates = [], cp_ExecutionClass = ''MANUAL'', cp_DueDate = None, cp_EstimateMinutes = None,
     cp_Supersedes = None, cp_SupersededBy = None\<rparr>"

definition create_envelope :: MutationEnvelope where
  "create_envelope = \<lparr>me_RequestID = ''r1'', me_Actor = \<lparr>act_ID = ''op'', act_Role = ''OWNER''\<rparr>, me_QueueID = sample_queue,
     me_TargetID = None, me_ExpectedRevision = None, me_Operation = OpCreate, me_Payload = Some (CreateP sample_create),
     me_IssuedAt = ''2026-01-01T00:00:00Z'', me_Raw = ''raw''\<rparr>"

abbreviation create_context :: MutationContext where
  "create_context \<equiv> sample_context ''OWNER'' [] (\<lambda>_. Inr None)"

definition create_sample_plan :: Plan where
  "create_sample_plan = completed ((start_plan sample_externals create_envelope)\<lparr>pn_QueuePost := None\<rparr>) file_record"

lemma sample_created: "opened (create_record create_context sample_create (rec_TicketID file_record)) = file_record"
  by (simp add: opened_def opens_def create_record_def sample_create_def sample_context_def)
    (simp add: file_record_def file_tail_def file_execution_def file_planning_def file_identity_def zero_Record_def StatusDraft_def)

lemma empty_inventory:
  "inv_over [] (planner_inventory [])" "inv_QueueID (planner_inventory []) = sample_queue" "inv_ids (planner_inventory []) = []"
  using NewLazyInventory_over [OF sample_built(2)] by (simp_all add: inv_over_def)

lemma sample_create_post: "create_post sample_externals create_context sample_create = Inr (file_record, None)"
proof -
  have tok: "create_token create_context sample_create = Inr (''T1'', planner_queue)"
    using empty_inventory by (simp add: create_token_def sample_create_def sample_context_def CheckLocalToken_def err_refused_def)
  have tid: "ParseTicketID ''/payload/localToken'' (''ticket:'' @ ''a'' @ '':'' @ ''q'' @ '':'' @ ''T1'') = Inr (rec_TicketID file_record)"
    unfolding file_fields by code_simp
  have qid: "qm_QueueID planner_queue = sample_queue" "q_Authority sample_queue = ''a''" "q_Queue sample_queue = ''q''"
    by (simp_all add: planner_queue_def sample_queue_def)
  have clone: "clone sample_externals (opened (create_record create_context sample_create (rec_TicketID file_record))) = Inr file_record"
    unfolding sample_created clone_def by (rule file_reads_back)
  have rec: "rec_Dependencies file_record = []" "rec_RequiredGates file_record = []" "rec_ExecutionPrerequisites file_record = []"
    "rec_Supersedes file_record = None" "rec_SupersededBy file_record = None"
    by (simp_all add: file_record_def file_tail_def file_execution_def file_planning_def file_identity_def zero_Record_def)
  have deps: "CheckDependencies (planner_inventory []) file_record = Some (Inr ())"
    using dfs.simps [of "sum_graph (inv_sum (planner_inventory []))" "t_Raw (rec_TicketID file_record)" "[]" "[]"]
    by (simp add: CheckDependencies_def rec dep_ids_def Let_def)
  have check: "checkRecord sample_externals create_context None file_record = Inr ()"
    using deps by (simp add: checkRecord_def Let_def changed_def check_dependencies_def check_gates_def checkPrerequisites_def check_supersedes_def
      check_superseded_def rec file_fields sample_context_def)
  have room: "inv_Len (ctx_Inventory create_context) < MaxTicketsPerQueue"
    using empty_inventory(3) by (simp add: inv_Len_def sample_context_def MaxTicketsPerQueue_def)
  have free: "\<not> MilestoneRequired (ctx_Policy create_context)" "create_role create_context sample_create = Inr ()" "cp_LocalToken sample_create = Some ''T1''"
    by (simp_all add: MilestoneRequired_def sample_context_def planner_policy_def create_role_def sample_create_def)
  show ?thesis
    unfolding create_post_def using tok tid clone check room free refined_small(2) file_reads_back
    by (simp add: qid sample_externals_def)
qed

lemma create_applies:
  "Apply sample_externals create_context (Some create_envelope) = Inr create_sample_plan"
proof -
  have "ParseLabel ''/binding/id'' ''op'' = Inr ''op''" by (simp add: ParseLabel_def parseText_plain plainASCII_def limit_defs)
  moreover have "ParseTimestamp ''/context/now'' ''2026-01-01T00:00:00Z'' = Inr ''2026-01-01T00:00:00Z''" by code_simp
  ultimately have trust: "trusted create_context create_envelope = Inr ()"
    using empty_inventory(2)
    by (simp add: trusted_def binding_validate_def checkInputs_def sample_context_def create_envelope_def Roles_def planner_queue_def)
  have role: "checkRole create_context OpCreate = Inr ()"
    by (simp add: checkRole_def permittedOps_def sample_context_def planner_policy_def DefaultRoleMatrix_def Operations_def OpCreate_def)
  have fields: "me_Operation create_envelope = OpCreate" "me_Payload create_envelope = Some (CreateP sample_create)"
    by (simp_all add: create_envelope_def)
  have replay: "replay (mc_Requests create_context) rid d = None" for rid d by (simp add: replay_def sample_context_def)
  have "\<not> IsReviewOperation OpCreate" by (simp add: IsReviewOperation_def op_defs)
  then show ?thesis
    using trust role sample_create_post replay
    by (simp add: Apply_def Let_def or_refused_def dispatch_def fields create_def create_sample_plan_def)
qed

theorem Apply_create_queue_witness:
  "\<exists>post. pn_Post create_sample_plan = Some post \<and> rec_Revision post = ''1'' \<and> queue_ok sample_queue [SummaryOf post]"
proof -
  have plan: "Planned create_sample_plan" by (simp add: create_sample_plan_def completed_def Planned_def)
  have "is_token MaxIdentifierBytes ''a''" "is_token MaxIdentifierBytes ''q''" by code_simp+
  then have q: "ParseQueueID [] (q_Raw (qm_QueueID (ctx_Queue create_context))) = Inr (qm_QueueID (ctx_Queue create_context))"
    by (simp add: ParseQueueID_iff sample_context_def planner_queue_def sample_queue_def limit_defs)
  have "\<exists>post. pn_Pre create_sample_plan = None \<and> pn_Post create_sample_plan = Some post \<and> rec_Revision post = ''1'' \<and>
      rec_AcceptanceRevision post = ''1'' \<and> queue_ok (inv_QueueID (planner_inventory [])) ([] @ [SummaryOf post])"
    using Apply_create_queue [OF create_applies plan _ _ _ empty_inventory(1) q, of sample_create]
    by (simp add: create_envelope_def) (auto simp: sample_context_def sample_create_def)
  then show ?thesis unfolding empty_inventory by auto
qed

end
