(* ===== verification/Obligation_Write.thy ===== *)
theory Obligation_Write
  imports Planner
begin

text \<open>
  What an accepted obligation write went through: the checks of the planner read backwards, for the
  properties of the writes and of the workers who make them.
\<close>

subsection \<open>An accepted write\<close>

lemma planned_obligations:
  assumes "Apply X ctx (Some env) = Inr plan" "Planned plan" "IsObligationOperation (me_Operation env)"
  shows "\<exists>pre post ev p. ctx_Target X ctx env = Inr (Some pre) \<and> obligations_post X ctx pre env = Inr (post, ev) \<and>
    me_Payload env = Some (ObligationsP p) \<and> obligations_operation p = me_Operation env \<and>
    pn_Pre plan = Some pre \<and> pn_Post plan = Some post \<and> pn_QueuePost plan = None \<and> pn_DerivedEvent plan = ev"
proof -
  let ?plan = "start_plan X env"
  have op: "me_Operation env \<noteq> OpCreate" "\<not> IsNoteOperation (me_Operation env)" "\<not> IsReviewOperation (me_Operation env)"
    using assms(3) by (auto simp: IsObligationOperation_def IsNoteOperation_def IsReviewOperation_def op_defs)
  have "\<not> Planned (?plan\<lparr>pn_Outcome := out\<rparr>)" for out by (simp add: Planned_def start_plan_def zero_Plan_def)
  then have d: "dispatch X ctx ?plan env = Inr plan"
    using assms(1,2) unfolding Apply_def Let_def or_refused_Inr option.case
    by (auto split: option.splits if_splits simp: or_refused_Inr)
  then obtain p where p: "me_Payload env = Some p" "payload_operation p = me_Operation env" "obligations X ctx ?plan env = Inr plan"
    using op assms(2,3) by (auto simp: dispatch_def split: option.splits if_splits)
  obtain pre post ev where pre: "ctx_Target X ctx env = Inr (Some pre)" "obligations_post X ctx pre env = Inr (post, ev)"
      "plan = completed (?plan\<lparr>pn_Pre := Some pre, pn_DerivedEvent := ev\<rparr>) post"
    using p(3) assms(2) unfolding obligations_def Let_def or_refused_Inr
    by (auto split: option.splits simp: or_refused_Inr)
  obtain q where "me_Payload env = Some (ObligationsP q)" using obligations_accepted [OF pre(2)] by blast
  then show ?thesis
    using p(1,2) pre by (intro exI [of _ pre] exI [of _ post] exI [of _ ev] exI [of _ q])
      (auto simp: payload_operation_def completed_def start_plan_def zero_Plan_def)
qed

lemma checks_Inr:
  assumes "obligation_checks X ctx pre p = Inr l"
  shows "obligationAuthority ctx pre p = Inr ()" "prior_ledger X ctx pre = Inr l" "l = None \<Longrightarrow> first_write X ctx pre p = Inr ()"
    "report_check ctx l p = Inr ()" "\<not> list_ex (x_Secret X) (obligationFields p)"
    "screenValues (mc_Screen ctx) (obligationScreenFields p) = Inr ()" "ledger_revision pre < int ObligationsMaxEvents"
  using assms by (auto simp: obligation_checks_def screenObligations_def)

subsection \<open>Authority\<close>

text \<open>The attempt a worker's witness names is live, of the ticket, and held by the worker under the named generation.\<close>

definition holds_attempt :: "MutationContext \<Rightarrow> Record \<Rightarrow> string \<Rightarrow> string \<Rightarrow> bool" where
  "holds_attempt ctx pre attempt generation \<longleftrightarrow> (\<exists>ledger a. mc_KnowHowAttempts ctx = Some ledger \<and> ledger attempt = Some a \<and>
     t_Raw (ap_TicketID a) = t_Raw (rec_TicketID pre) \<and> ap_Live a \<and> ap_Holder a = ctx_ID ctx \<and> ap_Generation a = generation)"

lemma worker_witness_Inr:
  assumes "worker_witness ctx pre w = Inr ()"
  shows "\<exists>at g. wt_Attempt w = Some at \<and> wt_Generation w = Some g \<and> holds_attempt ctx pre at g"
proof -
  obtain at g where w: "wt_Attempt w = Some at" "wt_Generation w = Some g"
      "CheckKnowHowProvenance (mc_KnowHowAttempts ctx) (rec_TicketID pre) (Some at) (Some g) = Inr ()"
      "ap_Live (ledger_entry ctx at)" "ap_Generation (ledger_entry ctx at) = g" "ap_Holder (ledger_entry ctx at) = ctx_ID ctx"
    using assms unfolding worker_witness_def Let_def by (auto split: if_splits)
  then obtain l a where "mc_KnowHowAttempts ctx = Some l" "l at = Some a" "t_Raw (ap_TicketID a) = t_Raw (rec_TicketID pre)"
    by (auto simp: CheckKnowHowProvenance_def split: option.splits if_splits)
  then show ?thesis using w by (auto simp: holds_attempt_def ledger_entry_def)
qed

lemma worker_authority:
  assumes "obligationAuthority ctx pre p = Inr ()" "ctx_Role ctx = ''WORKER''"
  shows "\<exists>w at g. p = WitnessPayload w \<and> wt_Source w \<noteq> ObligationSourceDeclared \<and> wt_Source w \<noteq> ObligationSourceReviewed \<and>
    wt_Attempt w = Some at \<and> wt_Generation w = Some g \<and> holds_attempt ctx pre at g"
  using assms worker_witness_Inr unfolding obligationAuthority_def witness_authority_def
  by (auto split: ObligationsPayload.splits)

end
