(* ===== verification/Planner_Worker.thy ===== *)
theory Planner_Worker
  imports Obligation_Write
begin

text \<open>
  The confinement of the WORKER role: what an accepted plan of a worker can change.
\<close>

subsection \<open>Workers\<close>

lemma sole_body:
  assumes "length (rf_Present r) = 1" "refine_Has r ''body''"
  shows "refine_fields r w = w\<lparr>rec_Body := rf_Body r\<rparr>"
proof -
  have "rf_Present r = [''body'']" using assms by (cases "rf_Present r") (auto simp: refine_Has_def)
  then show ?thesis by (simp add: refine_fields_def when_has_def refine_Has_def)
qed

text \<open>The two changes a worker can make to a working copy.\<close>

lemma worker_step:
  assumes "step X ctx w p = Inr w'" "ctx_Role ctx = ''WORKER''"
  shows "(payload_operation p = OpRefine \<and> (\<exists>b. w' = w\<lparr>rec_Body := b\<rparr> \<or>
      rec_Status w = StatusDraft \<and> w' = w\<lparr>rec_Body := b, rec_Status := StatusOpen\<rparr>)) \<or>
    (payload_operation p = OpKnowHowAdd \<and> (\<exists>e. w' = w\<lparr>rec_KnowHow := rec_KnowHow w @ [e]\<rparr> \<and>
      kh_ActorID e = ctx_ID ctx \<and> kh_ActorRole e = ''WORKER''))"
proof -
  have s: "role_limits ctx w p = Inr ()" "step_payload X ctx w p = Inr w'"
    using assms(1) by (auto simp: step_def Let_def split: if_splits)
  then consider r where "p = RefineP r" "length (rf_Present r) = 1" "refine_Has r ''body''" | q where "p = KnowHowAddP q"
    using assms(2) by (cases p) (auto simp: role_limits_def Let_def)
  then show ?thesis
  proof cases
    case (1 r)
    have w': "w' = w\<lparr>rec_Body := rf_Body r\<rparr> \<or> rec_Status w = StatusDraft \<and> w' = w\<lparr>rec_Body := rf_Body r, rec_Status := StatusOpen\<rparr>"
      using s(2) 1(1) sole_body [OF 1(2,3), of w] by (auto simp: step_payload_def step_refine_def Let_def split: if_splits)
    then show ?thesis using 1(1) by (auto simp: payload_operation_def)
  next
    case (2 q)
    then show ?thesis
      using s(2) assms(2) by (auto simp: step_payload_def knowHowStep_def add_entry_def Let_def fresh_entry_def payload_operation_def split: if_splits)
  qed
qed

lemma post_same:
  assumes "same_bytes pre w0" "go_maps post" "obj_Get (record_members post) k = obj_Get (record_members w0) k"
  shows "\<not> fieldChanged pre post k"
  using field_same [of pre post k] same_get [OF assms(1), of k] assms by (simp add: same_bytes_def)

text \<open>The members a change leaves alone.\<close>

definition chain_members :: "string list" where
  "chain_members = [''revision'', ''previousRecordSha256'', ''updatedAt'', ''updatedBy'']"

definition worker_members :: "string \<Rightarrow> string list" where
  "worker_members op =
     (if op = OpRefine then [''body'', ''status''] else if op = OpKnowHowAdd then [''knowHow'']
      else if IsNoteOperation op then [''operatorNote''] else if IsReviewOperation op then [''externalReviews'']
      else if op = OpObligationsWitness then [''obligations''] else [])"

lemma agree_filter:
  assumes "k \<notin> set ks" "filter (\<lambda>kv. fst kv \<notin> set ks) ms = filter (\<lambda>kv. fst kv \<notin> set ks) ns"
  shows "obj_Get ms k = obj_Get ns k"
  using get_kept [OF assms(1), of ms] get_kept [OF assms(1), of ns] assms(2) by simp

lemma chained_agree:
  assumes "k \<notin> set (''acceptanceRevision'' # chain_members)"
  shows "obj_Get (record_members (chained X ctx pre work nrev acc)) k = obj_Get (record_members work) k"
  by (rule agree_filter [OF assms]) (simp add: record_members_def kept_optional chained_def chain_members_def)

lemma set_agree:
  "k \<notin> set [''body'', ''status''] \<Longrightarrow> obj_Get (record_members (w\<lparr>rec_Body := b, rec_Status := s\<rparr>)) k = obj_Get (record_members w) k"
  "k \<notin> set [''knowHow''] \<Longrightarrow> obj_Get (record_members (w\<lparr>rec_KnowHow := kh\<rparr>)) k = obj_Get (record_members w) k"
  "k \<notin> set [''operatorNote''] \<Longrightarrow> obj_Get (record_members (w\<lparr>rec_OperatorNote := n\<rparr>)) k = obj_Get (record_members w) k"
  "k \<notin> set [''externalReviews''] \<Longrightarrow> obj_Get (record_members (w\<lparr>rec_ExternalReviews := rs\<rparr>)) k = obj_Get (record_members w) k"
  "k \<notin> set [''obligations''] \<Longrightarrow> obj_Get (record_members (w\<lparr>rec_ObligationsRef := ref\<rparr>)) k = obj_Get (record_members w) k"
  by (erule agree_filter, simp add: record_members_def kept_optional)+

lemma set_review_fst: "fst ` set (set_review g x m) = insert g (fst ` set m)"
  by (induction g x m rule: set_review.induct) auto

lemma set_review_distinct: "distinct (map fst m) \<Longrightarrow> distinct (map fst (set_review g x m))"
  by (induction g x m rule: set_review.induct) (auto simp: set_review_fst)

text \<open>A worker's change of a working copy, with the members it may set and what it leaves as it was.\<close>

lemma worker_change:
  assumes "change X ctx env pre work" "ctx_Role ctx = ''WORKER''" "clone X pre = Inr w0" "go_maps w0"
    and "IsObligationOperation (me_Operation env) \<longrightarrow> me_Operation env = OpObligationsWitness"
  shows "go_maps work" "relevant_part work = relevant_part w0" "rec_AcceptanceRevision work = rec_AcceptanceRevision w0"
    "\<And>k. k \<notin> set (worker_members (me_Operation env)) \<Longrightarrow> obj_Get (record_members work) k = obj_Get (record_members w0) k"
    "me_Operation env \<in> {OpRefine, OpKnowHowAdd, OpObligationsWitness} \<or> IsNoteOperation (me_Operation env) \<or> IsReviewOperation (me_Operation env)"
    "rec_Status work = rec_Status w0 \<or> me_Operation env = OpRefine \<and> rec_Status w0 = StatusDraft \<and> rec_Status work = StatusOpen"
    "me_Operation env = OpKnowHowAdd \<Longrightarrow> \<exists>e. rec_KnowHow work = rec_KnowHow w0 @ [e] \<and> kh_ActorID e = ctx_ID ctx \<and> kh_ActorRole e = ''WORKER''"
proof -
  let ?op = "me_Operation env"
  have other: "?op \<noteq> OpRefine \<and> ?op \<noteq> OpKnowHowAdd"
    if "IsNoteOperation ?op \<or> IsReviewOperation ?op \<or> IsObligationOperation ?op"
    using that by (auto simp: IsNoteOperation_def IsReviewOperation_def IsObligationOperation_def op_defs)
  have excl: "IsReviewOperation ?op \<longrightarrow> \<not> IsNoteOperation ?op" "IsObligationOperation ?op \<longrightarrow> \<not> IsNoteOperation ?op \<and> \<not> IsReviewOperation ?op"
    using kinds_differ [of ?op] by blast+
  have ne: "OpRefine \<noteq> OpKnowHowAdd" by (simp add: op_defs)
  consider (refine) b s where "?op = OpRefine" "work = w0\<lparr>rec_Body := b, rec_Status := s\<rparr>"
      "s = rec_Status w0 \<or> rec_Status w0 = StatusDraft \<and> s = StatusOpen"
    | (note_added) e where "?op = OpKnowHowAdd" "work = w0\<lparr>rec_KnowHow := rec_KnowHow w0 @ [e]\<rparr>" "kh_ActorID e = ctx_ID ctx" "kh_ActorRole e = ''WORKER''"
    | (op_note) n where "IsNoteOperation ?op" "work = w0\<lparr>rec_OperatorNote := Some n\<rparr>"
    | (reviewed) g x where "IsReviewOperation ?op" "work = w0\<lparr>rec_ExternalReviews := set_review g x (rec_ExternalReviews w0)\<rparr>"
    | (witnessed) ref where "?op = OpObligationsWitness" "IsObligationOperation ?op" "work = w0\<lparr>rec_ObligationsRef := Some ref\<rparr>"
  proof -
    have "(\<exists>p. payload_operation p = ?op \<and> step X ctx w0 p = Inr work) \<or>
        IsNoteOperation ?op \<and> (\<exists>n. work = w0\<lparr>rec_OperatorNote := Some n\<rparr>) \<or>
        IsReviewOperation ?op \<and> (\<exists>g x. work = w0\<lparr>rec_ExternalReviews := set_review g x (rec_ExternalReviews w0)\<rparr>) \<or>
        IsObligationOperation ?op \<and> (\<exists>ref. work = w0\<lparr>rec_ObligationsRef := Some ref\<rparr>)"
      using assms(1) unfolding change_def assms(3) sum.inject by (elim exE conjE, hypsubst) blast
    then show thesis
    proof (elim disjE exE conjE)
      fix p assume p: "payload_operation p = ?op" "step X ctx w0 p = Inr work"
      have same: "w0\<lparr>rec_Body := b\<rparr> = w0\<lparr>rec_Body := b, rec_Status := rec_Status w0\<rparr>" for b by simp
      show thesis
        using worker_step [OF p(2) assms(2)] unfolding p(1)
      proof (elim disjE exE conjE)
        fix b assume "?op = OpRefine" "work = w0\<lparr>rec_Body := b\<rparr>"
        then show thesis using refine [where b = b and s = "rec_Status w0"] same by simp
      next
        fix b assume "?op = OpRefine" "rec_Status w0 = StatusDraft" "work = w0\<lparr>rec_Body := b, rec_Status := StatusOpen\<rparr>"
        then show thesis using refine [where b = b and s = StatusOpen] by simp
      qed (rule note_added)
    qed (use op_note reviewed witnessed assms(5) in blast)+
  qed
  note cases = this
  show "go_maps work"
    by (rule cases) (use assms(4) set_review_distinct in \<open>auto simp: go_maps_iff\<close>)
  show "relevant_part work = relevant_part w0" by (rule cases) (auto intro!: relevant_fields)
  show "rec_AcceptanceRevision work = rec_AcceptanceRevision w0" by (rule cases) auto
  show "obj_Get (record_members work) k = obj_Get (record_members w0) k" if "k \<notin> set (worker_members ?op)" for k
    by (rule cases) (use that other ne excl set_agree [where k = k and w = w0] in \<open>auto simp: worker_members_def split: if_splits\<close>)
  show "?op \<in> {OpRefine, OpKnowHowAdd, OpObligationsWitness} \<or> IsNoteOperation ?op \<or> IsReviewOperation ?op" by (rule cases) auto
  show "rec_Status work = rec_Status w0 \<or> ?op = OpRefine \<and> rec_Status w0 = StatusDraft \<and> rec_Status work = StatusOpen" by (rule cases) auto
  show "\<exists>e. rec_KnowHow work = rec_KnowHow w0 @ [e] \<and> kh_ActorID e = ctx_ID ctx \<and> kh_ActorRole e = ''WORKER''" if "?op = OpKnowHowAdd"
    by (rule cases) (use that other ne in auto)
qed

text \<open>
  C17: workers are confined. The accepted operations of a WORKER are a REFINE, an added know-how note, an
  obligation witness, and, where the policy or a review definition grants them, an operator note and an
  external review. Besides the chain fields each changes one member only: the body (with a draft opening
  that already met its conditions), one appended note signed by the worker, the obligation reference, the
  operator note, the external reviews. A worker's witness is neither declared nor reviewed and names a
  live attempt on the ticket that the worker holds. The acceptance revision never moves, and no ticket is
  created.
\<close>

theorem Apply_worker_confined:
  assumes "Apply X ctx (Some env) = Inr plan" "Planned plan" "ctx_Role ctx = ''WORKER''"
    and "\<And>r. ctx_Target X ctx env = Inr (Some r) \<Longrightarrow> go_maps r"
  shows "\<exists>pre post. pn_Pre plan = Some pre \<and> pn_Post plan = Some post \<and> rec_AcceptanceRevision post = rec_AcceptanceRevision pre \<and>
    (me_Operation env \<in> {OpRefine, OpKnowHowAdd, OpObligationsWitness} \<or> IsNoteOperation (me_Operation env) \<or> IsReviewOperation (me_Operation env)) \<and>
    (\<forall>k. fieldChanged pre post k \<longrightarrow> k \<in> set (chain_members @ worker_members (me_Operation env))) \<and>
    (rec_Status post = rec_Status pre \<or> me_Operation env = OpRefine \<and> rec_Status pre = StatusDraft \<and> rec_Status post = StatusOpen) \<and>
    (me_Operation env = OpKnowHowAdd \<longrightarrow> (\<exists>w0 e. clone X pre = Inr w0 \<and> rec_KnowHow post = rec_KnowHow w0 @ [e] \<and>
       kh_ActorID e = ctx_ID ctx \<and> kh_ActorRole e = ''WORKER'')) \<and>
    (me_Operation env = OpObligationsWitness \<longrightarrow> (\<exists>w at g. me_Payload env = Some (ObligationsP (WitnessPayload w)) \<and>
       wt_Source w \<noteq> ObligationSourceDeclared \<and> wt_Source w \<noteq> ObligationSourceReviewed \<and>
       wt_Attempt w = Some at \<and> wt_Generation w = Some g \<and> holds_attempt ctx pre at g))"
proof -
  let ?op = "me_Operation env"
  have op: "?op \<noteq> OpCreate"
    using planned_creates [OF assms(1,2)] assms(3) by (auto simp: creates_def create_post_def create_role_def)
  obtain pre work post where c: "pn_Pre plan = Some pre" "change X ctx env pre work" "pn_Post plan = Some post"
      "finalize X ctx pre work (forcesAcceptanceBump ?op) = Inr post" "ctx_Target X ctx env = Inr (Some pre)"
    using planned_changes [OF assms(1,2) op] unfolding changes_def reports_def by auto
  have g: "go_maps pre" using assms(4) c(5) by simp
  obtain w0 where w0: "clone X pre = Inr w0" using c(2) by (auto simp: change_def)
  have same: "same_bytes pre w0" by (rule clone_same(1) [OF w0 g])
  have witness: "\<exists>w at g. me_Payload env = Some (ObligationsP (WitnessPayload w)) \<and> ?op = OpObligationsWitness \<and>
       wt_Source w \<noteq> ObligationSourceDeclared \<and> wt_Source w \<noteq> ObligationSourceReviewed \<and>
       wt_Attempt w = Some at \<and> wt_Generation w = Some g \<and> holds_attempt ctx pre at g" if o: "IsObligationOperation ?op"
  proof -
    obtain p post' ev where p: "obligations_post X ctx pre env = Inr (post', ev)" "me_Payload env = Some (ObligationsP p)"
        "obligations_operation p = ?op"
      using planned_obligations [OF assms(1,2) o] c(1) by auto
    obtain l where "obligation_checks X ctx pre p = Inr l" using obligations_accepted [OF p(1)] p(2) by (metis Payload.inject(20) option.inject)
    then show ?thesis
      using worker_authority [OF checks_Inr(1) assms(3)] p(2,3) by (fastforce simp: obligations_operation_def)
  qed
  have only: "IsObligationOperation ?op \<longrightarrow> ?op = OpObligationsWitness" using witness by blast
  have gw: "go_maps w0" using same by (simp add: same_bytes_def)
  note wc = worker_change [OF c(2) assms(3) w0 gw only]
  obtain nrev acc where post: "post = chained X ctx pre work nrev acc"
      "if forcesAcceptanceBump ?op \<or> acceptanceChanged pre work
       then acc = CountOf (Count_Int (rec_AcceptanceRevision pre) + 1) \<and> Count_Int (rec_AcceptanceRevision pre) + 1 \<le> int MaxCountValue
       else acc = rec_AcceptanceRevision pre"
    using c(4) unfolding finalize_Inr Let_def by auto
  have "\<not> acceptanceChanged pre work" by (rule same_not_changed [OF same wc(2) [symmetric]])
  moreover have "\<not> forcesAcceptanceBump ?op"
    using wc(5) by (auto simp: forcesAcceptanceBump_def IsNoteOperation_def IsReviewOperation_def op_defs)
  ultimately have acc: "rec_AcceptanceRevision post = rec_AcceptanceRevision pre" using post by (simp add: chained_def)
  have gp: "go_maps post" using wc(1) by (simp add: post(1) chained_def go_maps_iff)
  have keep: "\<not> fieldChanged pre post k" if k: "k \<notin> set (chain_members @ worker_members ?op)" for k
  proof (rule post_same [OF same gp])
    show "obj_Get (record_members post) k = obj_Get (record_members w0) k"
    proof (cases "k = ''acceptanceRevision''")
      case True
      then show ?thesis using acc same_fields(3) [OF same] by (simp add: required_members)
    next
      case False
      then show ?thesis using chained_agree [of k X ctx pre work nrev acc] wc(4) [of k] k by (simp add: post(1))
    qed
  qed
  have know: "\<exists>w0 e. clone X pre = Inr w0 \<and> rec_KnowHow post = rec_KnowHow w0 @ [e] \<and> kh_ActorID e = ctx_ID ctx \<and> kh_ActorRole e = ''WORKER''"
    if "?op = OpKnowHowAdd" using wc(7) [OF that] w0 by (auto simp: post(1) chained_def)
  have "IsObligationOperation ?op" if "?op = OpObligationsWitness" using that by (simp add: IsObligationOperation_def op_defs)
  then show ?thesis
    using c(1,3) acc wc(5,6) keep know witness same_fields(4) [OF same]
    by (intro exI [of _ pre] exI [of _ post]) (auto simp: post(1) chained_def)
qed

theorem Apply_worker_confined_witness:
  "rec_AcceptanceRevision refined_record = rec_AcceptanceRevision file_record \<and>
   {k. fieldChanged file_record refined_record k} \<subseteq> set (chain_members @ [''body'', ''status''])"
proof -
  have g: "go_maps file_record" using file_none file_fields by (simp add: go_maps_iff)
  have a: "Apply sample_externals (sample_context ''WORKER'' [file_record] (\<lambda>_. Inr None)) (Some sample_envelope) = Inr sample_plan"
    by (rule sample_applies) simp
  have r: "ctx_Role (sample_context ''WORKER'' [file_record] (\<lambda>_. Inr None)) = ''WORKER''" by (simp add: sample_context_def)
  show ?thesis
    using Apply_worker_confined [OF a sample_plan_simps(1) r] g sample_plan_simps sample_envelope_target [of sample_externals]
    by (auto simp: envelope_fields worker_members_def)
qed

end
