(* ===== verification/Mutation_Codec.thy ===== *)
theory Mutation_Codec
  imports Operator_Note
begin

text \<open>
  The document format of a mutation envelope: \<^verbatim>\<open>Decode\<close>, \<^verbatim>\<open>decodePayload\<close>, \<^verbatim>\<open>Envelope.Value\<close> and
  \<^verbatim>\<open>PayloadValue\<close> of \<^verbatim>\<open>internal/tasks/mutation/mutation.go\<close>. The payloads of the obligation operations are
  read by the readers of \<^verbatim>\<open>Obligation_Event\<close>. \<^verbatim>\<open>nonNil\<close> only tells nil from empty slices and
  is the identity here.
\<close>

subsection \<open>The readers of members\<close>

definition readRequestID :: "reader \<Rightarrow> string rd" where
  "readRequestID r = do {
     s \<leftarrow> rd_Identifier r;
     err \<leftarrow> rd_Err;
     (if err = None \<and> length s > MaxRequestIDBytes then rd_Fail r CodeLimitExceeded else return ());
     return s
   }"

definition ParseRequestID :: "string \<Rightarrow> string \<Rightarrow> string res" where
  "ParseRequestID loc s = rbind (ParseIdentifier loc s) (\<lambda>rid.
     if length rid > MaxRequestIDBytes then Inl (Errorf CodeLimitExceeded loc) else Inr rid)"

definition readPriority :: "reader \<Rightarrow> string rd" where
  "readPriority r = do {
     s \<leftarrow> rd_String r;
     err \<leftarrow> rd_Err;
     (if err \<noteq> None then return []
      else if s \<in> set Priorities then return s
      else do { rd_Fail r CodeInvalidPriority; return [] })
   }"

definition readLabels :: "reader \<Rightarrow> string list rd" where
  "readLabels = rd_Strings (int MaxLabels) False rd_Label"

definition readCriteria :: "reader \<Rightarrow> string list rd" where
  "readCriteria = rd_Strings (int MaxAcceptanceCriteria) True (rd_Prose 0 MaxCriterionBytes)"

definition readRequirementRefs :: "reader \<Rightarrow> string list rd" where
  "readRequirementRefs = rd_Strings (int MaxRequirementRefs) False rd_Identifier"

definition readCapabilities :: "reader \<Rightarrow> string list rd" where
  "readCapabilities = rd_Strings (int MaxCapabilities) False rd_Identifier"

definition readGates :: "reader \<Rightarrow> string list rd" where
  "readGates = rd_Strings (int MaxRequiredGates) False rd_Label"

text \<open>An edge, a source and the effects are read as in \<^verbatim>\<open>FromValue\<close>, field by field in the same order.\<close>

definition readDependencies :: "reader \<Rightarrow> Dependency list rd" where
  "readDependencies = rd_array_each (int MaxDependencies) True read_Dependency"

definition readSource :: "reader \<Rightarrow> Source rd" where
  "readSource = read_Source"

definition readEffects :: "reader \<Rightarrow> Effects rd" where
  "readEffects = read_Effects"

definition readDueDate :: "reader \<Rightarrow> string option rd" where
  "readDueDate r = do {
     err \<leftarrow> rd_Err;
     (if err \<noteq> None \<or> IsNull r then return None
      else do {
        s \<leftarrow> rd_String r;
        err \<leftarrow> rd_Err;
        (if err = None \<and> ParseDate (r_where r) s \<noteq> Inr s then do { rd_Fail r CodeMalformed; return None } else return (Some s))
      })
   }"

definition readTicketOrNull :: "reader \<Rightarrow> TicketID option rd" where
  "readTicketOrNull r = do {
     err \<leftarrow> rd_Err;
     (if err \<noteq> None \<or> IsNull r then return None
      else do { t \<leftarrow> rd_TicketID r; err \<leftarrow> rd_Err; (if err \<noteq> None then return None else return (Some t)) })
   }"

subsection \<open>Payloads\<close>

definition createKeys :: "string list" where
  "createKeys = [''title'', ''body'', ''kind'', ''owner'', ''milestone'', ''priority'', ''order'', ''labels'', ''dependencies'',
     ''acceptanceCriteria'', ''requirementRefs'', ''source'', ''effects'', ''capabilities'', ''requiredGates'',
     ''executionClass'', ''dueDate'', ''estimateMinutes'', ''supersedes'', ''supersededBy'']"

definition PayloadKeys :: "string \<Rightarrow> string list" where
  "PayloadKeys op =
     (if op = OpCreate then createKeys
      else if op = OpRefine then RefineFields
      else if op = OpPrioritize then [''priority'', ''order'']
      else if op = OpSetDependencies then [''dependencies'']
      else if op = OpSetGates then [''requiredGates'']
      else if op = OpSetEffects then [''effects'', ''capabilities'', ''executionClass'']
      else if op = OpHold then [''holdId'', ''reason'']
      else if op = OpReleaseHold then [''holdId'']
      else if op = OpReopen \<or> op = OpArchive \<or> op = OpRestore then [''reason'']
      else if op = OpCompleteManual then [''reason'', ''evidence'']
      else if op = OpGrantApproval then [''grantId'', ''actor'', ''operation'', ''targetRevision'', ''scope'']
      else if op = OpRevokeApproval then [''grantId'', ''reason'']
      else if op = OpAttachEvidence then [''evidence'', ''reason'']
      else if op = OpProgressSet then ProgressMarkKeys
      else if op = OpKnowHowAdd then
        [''anchors'', ''attempt'', ''commit'', ''evidencePath'', ''generation'', ''reason'', ''routes'', ''supersedes'', ''text'']
      else if op = OpKnowHowRetract then [''note'', ''reason'']
      else if op = OpNoteSet then [''text'', ''supersedes'']
      else if op = OpNoteClear then [''supersedes'']
      else if op = OpReviewRecord \<or> op = OpReviewResubmit then [''request'']
      else if op = OpKnowHowReconfirm then [''anchors'', ''attempt'', ''commit'', ''generation'', ''note'']
      else if op = OpObligationsSeed then [''obligations'', ''prefix'']
      else if op = OpObligationsSet then [''changes'']
      else if op = OpObligationsWitness then
        [''attempt'', ''commit'', ''credits'', ''declaration'', ''generation'', ''playwrightVersion'', ''reportSha256'', ''source'']
      else [])"

definition readLocalToken :: "reader \<Rightarrow> string rd" where
  "readLocalToken = rd_with [] (\<lambda>loc s. case ParseToken loc s MaxLocalTokenBytes of Inl e \<Rightarrow> Inl (Errorf (e_Code e) loc) | Inr _ \<Rightarrow> Inr s)"

definition readCreate :: "reader \<Rightarrow> CreatePayload rd" where
  "readCreate r =
     (let keys = createKeys @ (if val_Has (r_v r) ''localToken'' then [''localToken''] else [])
      in do {
        rd_Closed (OptionalKeys (r_v r) keys [''requiresPool'', ''requiredRoles'']) r;
        ro \<leftarrow> rd_optional ''requiredRoles'' (rd_some ReadStageRoles) None r;
        po \<leftarrow> rd_optional ''requiresPool'' rd_Label [] r;
        lt \<leftarrow> rd_optional ''localToken'' (rd_some readLocalToken) None r;
        ti \<leftarrow> rd_at ''title'' (rd_Prose 1 MaxTitleBytes) r; bo \<leftarrow> rd_at ''body'' (rd_ProseOrNull MaxBodyBytes) r;
        ki \<leftarrow> rd_at ''kind'' (rd_Enum Kinds) r; ow \<leftarrow> rd_at ''owner'' rd_LabelOrNull r; mi \<leftarrow> rd_at ''milestone'' rd_LabelOrNull r;
        pr \<leftarrow> rd_at ''priority'' readPriority r; od \<leftarrow> rd_at ''order'' rd_Count r; la \<leftarrow> rd_at ''labels'' readLabels r;
        de \<leftarrow> rd_at ''dependencies'' readDependencies r; cr \<leftarrow> rd_at ''acceptanceCriteria'' readCriteria r;
        rr \<leftarrow> rd_at ''requirementRefs'' readRequirementRefs r; so \<leftarrow> rd_at ''source'' readSource r;
        ef \<leftarrow> rd_at ''effects'' readEffects r; ca \<leftarrow> rd_at ''capabilities'' readCapabilities r;
        rg \<leftarrow> rd_at ''requiredGates'' readGates r; ec \<leftarrow> rd_at ''executionClass'' (rd_Enum ExecutionClasses) r;
        dd \<leftarrow> rd_at ''dueDate'' readDueDate r; em \<leftarrow> rd_at ''estimateMinutes'' rd_CountOrNull r;
        sp \<leftarrow> rd_at ''supersedes'' readTicketOrNull r; sb \<leftarrow> rd_at ''supersededBy'' readTicketOrNull r;
        return \<lparr>cp_RequiredRoles = ro, cp_RequiresPool = po, cp_LocalToken = lt, cp_Title = ti, cp_Body = bo, cp_Kind = ki,
          cp_Owner = ow, cp_Milestone = mi, cp_Priority = pr, cp_Order = od, cp_Labels = la, cp_Dependencies = de,
          cp_AcceptanceCriteria = cr, cp_RequirementRefs = rr, cp_Source = so, cp_Effects = ef, cp_Capabilities = ca,
          cp_RequiredGates = rg, cp_ExecutionClass = ec, cp_DueDate = dd, cp_EstimateMinutes = em, cp_Supersedes = sp,
          cp_SupersededBy = sb\<rparr>
      })"

definition zero_Refine :: "string list \<Rightarrow> RefinePayload" where
  "zero_Refine keys = \<lparr>rf_ExecutionPrerequisites = [], rf_RequiredRoles = None, rf_RequiresPool = None, rf_Present = keys,
     rf_Title = [], rf_Body = None, rf_Kind = [], rf_Owner = None, rf_Milestone = None, rf_Labels = [], rf_AcceptanceCriteria = [],
     rf_RequirementRefs = [], rf_DueDate = None, rf_EstimateMinutes = None, rf_Supersedes = None, rf_SupersededBy = None\<rparr>"

text \<open>One field of a REFINE payload; a null clears the prerequisites, the roles and the pool.\<close>

definition refine_field :: "string \<Rightarrow> RefinePayload \<Rightarrow> reader \<Rightarrow> RefinePayload rd" where
  "refine_field k p f =
     (if k = ''executionPrerequisites'' then
        (if IsNull f then return p else do { x \<leftarrow> ReadPrerequisites f; return (p\<lparr>rf_ExecutionPrerequisites := x\<rparr>) })
      else if k = ''requiredRoles'' then
        (if IsNull f then return p else do { x \<leftarrow> ReadStageRoles f; return (p\<lparr>rf_RequiredRoles := Some x\<rparr>) })
      else if k = ''requiresPool'' then do { x \<leftarrow> rd_LabelOrNull f; return (p\<lparr>rf_RequiresPool := x\<rparr>) }
      else if k = ''title'' then do { x \<leftarrow> rd_Prose 1 MaxTitleBytes f; return (p\<lparr>rf_Title := x\<rparr>) }
      else if k = ''body'' then do { x \<leftarrow> rd_ProseOrNull MaxBodyBytes f; return (p\<lparr>rf_Body := x\<rparr>) }
      else if k = ''kind'' then do { x \<leftarrow> rd_Enum Kinds f; return (p\<lparr>rf_Kind := x\<rparr>) }
      else if k = ''owner'' then do { x \<leftarrow> rd_LabelOrNull f; return (p\<lparr>rf_Owner := x\<rparr>) }
      else if k = ''milestone'' then do { x \<leftarrow> rd_LabelOrNull f; return (p\<lparr>rf_Milestone := x\<rparr>) }
      else if k = ''labels'' then do { x \<leftarrow> readLabels f; return (p\<lparr>rf_Labels := x\<rparr>) }
      else if k = ''acceptanceCriteria'' then do { x \<leftarrow> readCriteria f; return (p\<lparr>rf_AcceptanceCriteria := x\<rparr>) }
      else if k = ''requirementRefs'' then do { x \<leftarrow> readRequirementRefs f; return (p\<lparr>rf_RequirementRefs := x\<rparr>) }
      else if k = ''dueDate'' then do { x \<leftarrow> readDueDate f; return (p\<lparr>rf_DueDate := x\<rparr>) }
      else if k = ''estimateMinutes'' then do { x \<leftarrow> rd_CountOrNull f; return (p\<lparr>rf_EstimateMinutes := x\<rparr>) }
      else if k = ''supersedes'' then do { x \<leftarrow> readTicketOrNull f; return (p\<lparr>rf_Supersedes := x\<rparr>) }
      else if k = ''supersededBy'' then do { x \<leftarrow> readTicketOrNull f; return (p\<lparr>rf_SupersededBy := x\<rparr>) }
      else return p)"

fun refine_loop :: "reader \<Rightarrow> string list \<Rightarrow> RefinePayload \<Rightarrow> RefinePayload rd" where
  "refine_loop r [] p = return p"
| "refine_loop r (k # ks) p = do { f \<leftarrow> rd_Field k r; p \<leftarrow> refine_field k p f; refine_loop r ks p }"

definition readRefine :: "reader \<Rightarrow> RefinePayload rd" where
  "readRefine r = (case r_v r of
     VObject kvs \<Rightarrow>
       let keys = SortedKeys kvs
       in if list_ex (\<lambda>k. k \<notin> set RefineFields) keys \<or> keys = []
          then do { rd_Fail r CodeMalformed; return (zero_Refine []) }
          else do { rd_Closed keys r; refine_loop r keys (zero_Refine keys) }
   | _ \<Rightarrow> do { rd_Fail r CodeMalformed; return (zero_Refine []) })"

definition readKnowHowAdd :: "reader \<Rightarrow> KnowHowAddPayload rd" where
  "readKnowHowAdd r =
     (let named = val_Has (r_v r) ''repository''
      in do {
        rd_Closed ((if named then [''repository''] else []) @ PayloadKeys OpKnowHowAdd) r;
        repo \<leftarrow> rd_optional ''repository'' ReadKnowHowRepository [] r;
        tx \<leftarrow> rd_at ''text'' ReadKnowHowText r; an \<leftarrow> rd_at ''anchors'' ReadKnowHowAnchors r;
        ro \<leftarrow> rd_at ''routes'' ReadKnowHowRoutes r; co \<leftarrow> rd_at ''commit'' rd_OID r;
        su \<leftarrow> rd_at ''supersedes'' rd_CountOrNull r; att \<leftarrow> rd_at ''attempt'' (rd_StringOrNull rd_Identifier) r;
        gen \<leftarrow> rd_at ''generation'' rd_SizeOrNull r; ev \<leftarrow> rd_at ''evidencePath'' (rd_StringOrNull ReadKnowHowFile) r;
        rs \<leftarrow> rd_at ''reason'' (rd_StringOrNull ReadKnowHowReason) r;
        err \<leftarrow> rd_Err;
        (if err = None \<and> (su = None) \<noteq> (rs = None)
         then do { f \<leftarrow> rd_Field ''reason'' r; rd_Fail f CodeMalformed } else return ());
        err \<leftarrow> rd_Err;
        (if err = None \<and> repo \<noteq> [] \<and> KnowHowRepositoryRefusal repo an \<noteq> []
         then do { f \<leftarrow> rd_Field ''anchors'' r; rd_Fail f CodeMalformed } else return ());
        return \<lparr>kp_Text = tx, kp_Anchors = an, kp_Routes = ro, kp_Commit = co, kp_Supersedes = su, kp_Reason = rs,
          kp_Attempt = att, kp_Generation = gen, kp_EvidencePath = ev, kp_Repository = repo\<rparr>
      })"

definition readNote :: "string \<Rightarrow> reader \<Rightarrow> Payload rd" where
  "readNote op r = do {
     rd_Closed (PayloadKeys op) r;
     tx \<leftarrow> (if op = OpNoteSet then do {
         tx \<leftarrow> rd_at ''text'' (rd_Prose 1 MaxOperatorNoteTextBytes) r;
         err \<leftarrow> rd_Err;
         (if err = None \<and> blank tx then rd_Fail r CodeMalformed else return ());
         return tx
       } else return []);
     su \<leftarrow> rd_at ''supersedes'' rd_CountOrNull r;
     return (NoteP op tx su)
   }"

definition readReview :: "string \<Rightarrow> reader \<Rightarrow> Payload rd" where
  "readReview op r = do {
     rd_Closed (PayloadKeys op) r;
     q \<leftarrow> rd_Field ''request'' r;
     err \<leftarrow> rd_Err;
     (if err = None \<and> (case r_v q of VObject _ \<Rightarrow> False | _ \<Rightarrow> True) then rd_Fail q CodeMalformed else return ());
     return (ReviewP op (r_v q))
   }"

text \<open>The payloads that are a closed object with a fixed list of members.\<close>

definition read_closed :: "string \<Rightarrow> (reader \<Rightarrow> 'a rd) \<Rightarrow> reader \<Rightarrow> 'a rd" where
  "read_closed op body r = do { rd_Closed (PayloadKeys op) r; body r }"

definition readHold :: "reader \<Rightarrow> Payload rd" where
  "readHold r = do {
     rd_Closed (OptionalKeys (r_v r) (PayloadKeys OpHold) [''condition'']) r;
     h \<leftarrow> rd_at ''holdId'' rd_Label r; rs \<leftarrow> rd_at ''reason'' (rd_Prose 0 MaxProseBytes) r;
     c \<leftarrow> rd_optional ''condition'' (rd_some ReadHoldCondition) None r;
     return (HoldP h rs c)
   }"

definition readGrant :: "reader \<Rightarrow> Payload rd" where
  "readGrant r = do {
     g \<leftarrow> rd_at ''grantId'' rd_Label r; a \<leftarrow> rd_at ''actor'' rd_Label r; op \<leftarrow> rd_at ''operation'' (rd_Enum ApprovalOps) r;
     t \<leftarrow> rd_at ''targetRevision'' rd_Count r; sc \<leftarrow> rd_at ''scope'' (rd_Strings (-1) False rd_Identifier) r;
     return (GrantApprovalP \<lparr>ga_GrantID = g, ga_Actor = a, ga_Operation = op, ga_TargetRevision = t, ga_Scope = sc\<rparr>)
   }"

definition readReconfirm :: "reader \<Rightarrow> Payload rd" where
  "readReconfirm r = do {
     n \<leftarrow> rd_at ''note'' rd_Count r; an \<leftarrow> rd_at ''anchors'' ReadKnowHowAnchors r; co \<leftarrow> rd_at ''commit'' rd_OID r;
     att \<leftarrow> rd_at ''attempt'' (rd_StringOrNull rd_Identifier) r; gen \<leftarrow> rd_at ''generation'' rd_SizeOrNull r;
     return (KnowHowReconfirmP \<lparr>kc_Note = n, kc_Anchors = an, kc_Commit = co, kc_Attempt = att, kc_Generation = gen\<rparr>)
   }"

definition payload_reader :: "string \<Rightarrow> (reader \<Rightarrow> Payload rd) option" where
  "payload_reader op =
     (if op = OpCreate then Some (\<lambda>r. do { p \<leftarrow> readCreate r; return (CreateP p) })
      else if op = OpRefine then Some (\<lambda>r. do { p \<leftarrow> readRefine r; return (RefineP p) })
      else if op = OpPrioritize then Some (read_closed op (\<lambda>r. do {
          p \<leftarrow> rd_at ''priority'' readPriority r; od \<leftarrow> rd_at ''order'' rd_Count r; return (PrioritizeP p od) }))
      else if op = OpSetDependencies then Some (read_closed op (\<lambda>r. do { ds \<leftarrow> rd_at ''dependencies'' readDependencies r; return (SetDependenciesP ds) }))
      else if op = OpSetGates then Some (read_closed op (\<lambda>r. do { gs \<leftarrow> rd_at ''requiredGates'' readGates r; return (SetGatesP gs) }))
      else if op = OpSetEffects then Some (read_closed op (\<lambda>r. do {
          ef \<leftarrow> rd_at ''effects'' readEffects r; ca \<leftarrow> rd_at ''capabilities'' readCapabilities r;
          ec \<leftarrow> rd_at ''executionClass'' (rd_Enum ExecutionClasses) r; return (SetEffectsP ef ca ec) }))
      else if op = OpHold then Some readHold
      else if op = OpReleaseHold then Some (read_closed op (\<lambda>r. do { h \<leftarrow> rd_at ''holdId'' rd_Label r; return (ReleaseHoldP h) }))
      else if op = OpReopen \<or> op = OpArchive \<or> op = OpRestore then Some (read_closed op (\<lambda>r. do {
          rs \<leftarrow> rd_at ''reason'' (rd_Prose 0 MaxProseBytes) r; return (ReasonP op rs) }))
      else if op = OpCompleteManual then Some (read_closed op (\<lambda>r. do {
          rs \<leftarrow> rd_at ''reason'' (rd_Prose 0 MaxProseBytes) r; ev \<leftarrow> rd_at ''evidence'' (rd_array_each (-1) False rd_Digest) r;
          return (CompleteManualP rs ev) }))
      else if op = OpGrantApproval then Some (read_closed op readGrant)
      else if op = OpRevokeApproval then Some (read_closed op (\<lambda>r. do {
          g \<leftarrow> rd_at ''grantId'' rd_Label r; rs \<leftarrow> rd_at ''reason'' (rd_Prose 0 MaxProseBytes) r; return (RevokeApprovalP g rs) }))
      else if op = OpAttachEvidence then Some (read_closed op (\<lambda>r. do {
          ev \<leftarrow> rd_at ''evidence'' ReadEvidenceDigests r; rs \<leftarrow> rd_at ''reason'' ReadEvidenceReason r; return (AttachEvidenceP ev rs) }))
      else if op = OpProgressSet then Some (read_closed op (\<lambda>r. do { m \<leftarrow> ReadProgressMark r; return (ProgressSetP m) }))
      else if op = OpKnowHowAdd then Some (\<lambda>r. do { k \<leftarrow> readKnowHowAdd r; return (KnowHowAddP k) })
      else if op = OpKnowHowRetract then Some (read_closed op (\<lambda>r. do {
          n \<leftarrow> rd_at ''note'' rd_Count r; rs \<leftarrow> rd_at ''reason'' ReadKnowHowReason r; return (KnowHowRetractP n rs) }))
      else if op = OpKnowHowReconfirm then Some (read_closed op readReconfirm)
      else if IsNoteOperation op then Some (readNote op)
      else if IsReviewOperation op then Some (readReview op)
      else if IsObligationOperation op then Some (\<lambda>r. do { q \<leftarrow> readObligations op r; return (ObligationsP q) })
      else None)"

definition decodePayload :: "string \<Rightarrow> reader \<Rightarrow> Payload res" where
  "decodePayload op r = (case payload_reader op of
     None \<Rightarrow> Inl (Errorf CodeMalformed (r_where r))
   | Some rd \<Rightarrow> run_reader (rd r))"

definition PayloadEffects :: "string \<Rightarrow> val \<Rightarrow> Effects option" where
  "PayloadEffects op v =
     (if op \<noteq> OpCreate \<and> op \<noteq> OpSetEffects then None
      else (case decodePayload op (fst (NewReader v ''/payload'')) of
          Inr (CreateP p) \<Rightarrow> Some (cp_Effects p)
        | Inr (SetEffectsP ef _ _) \<Rightarrow> Some ef
        | _ \<Rightarrow> None))"

subsection \<open>The envelope\<close>

definition envelopeKeys :: "string list" where
  "envelopeKeys = [''profile'', ''requestId'', ''actor'', ''queueId'', ''targetId'', ''expectedRevision'', ''operation'', ''payload'', ''issuedAt'']"

definition read_claim :: "reader \<Rightarrow> Actor rd" where
  "read_claim a = do {
     rd_Closed [''id'', ''role''] a;
     i \<leftarrow> rd_at ''id'' rd_Label a; ro \<leftarrow> rd_at ''role'' (rd_Enum Roles) a;
     return \<lparr>act_ID = i, act_Role = ro\<rparr>
   }"

definition read_envelope :: "string \<Rightarrow> reader \<Rightarrow> MutationEnvelope rd" where
  "read_envelope raw r = do {
     rid \<leftarrow> rd_at ''requestId'' readRequestID r; ac \<leftarrow> rd_at ''actor'' read_claim r; q \<leftarrow> rd_at ''queueId'' rd_QueueID r;
     t \<leftarrow> rd_at ''targetId'' (rd_unless_null rd_TicketID) r; er \<leftarrow> rd_at ''expectedRevision'' rd_CountOrNull r;
     op \<leftarrow> rd_at ''operation'' (rd_Enum Operations) r; at \<leftarrow> rd_at ''issuedAt'' rd_Timestamp r;
     return \<lparr>me_RequestID = rid, me_Actor = ac, me_QueueID = q, me_TargetID = t, me_ExpectedRevision = er, me_Operation = op,
       me_Payload = None, me_IssuedAt = at, me_Raw = raw\<rparr>
   }"

text \<open>Only CREATE has no target, and only CREATE, notes and reviews may leave the revision open.\<close>

definition check_address :: "MutationEnvelope \<Rightarrow> unit res" where
  "check_address e =
     (if me_Operation e = OpCreate then
        (if me_TargetID e \<noteq> None then Inl (Errorf CodeMalformed ''/targetId'')
         else if me_ExpectedRevision e \<noteq> None then Inl (Errorf CodeMalformed ''/expectedRevision'')
         else Inr ())
      else (case me_TargetID e of
          None \<Rightarrow> Inl (Errorf CodeMalformed ''/targetId'')
        | Some t \<Rightarrow>
            if me_ExpectedRevision e = None \<and> \<not> IsNoteOperation (me_Operation e) \<and> \<not> IsReviewOperation (me_Operation e)
            then Inl (Errorf CodeMalformed ''/expectedRevision'')
            else if TicketID_QueueID t \<noteq> q_Raw (me_QueueID e) then Inl (Errorf CodeMalformed ''/targetId'')
            else Inr ()))"

definition mutation_FromValue :: "string \<Rightarrow> val \<Rightarrow> MutationEnvelope res" where
  "mutation_FromValue raw v =
     (let r = fst (NewReader v ''/'')
      in rbind (ProfileVersion ''/profile'' v MutationProfile) (\<lambda>_.
         rbind (run_reader (rd_Closed envelopeKeys r)) (\<lambda>_.
         rbind (CheckProfile ''/profile'' (fst (run_state (rd_at ''profile'' rd_String r) fresh)) MutationProfile) (\<lambda>_.
         rbind (run_reader (read_envelope raw r)) (\<lambda>env.
         rbind (check_address env) (\<lambda>_.
         rbind (run_reader (rd_Field ''payload'' r)) (\<lambda>f.
         rbind (decodePayload (me_Operation env) f) (\<lambda>p.
           Inr (env\<lparr>me_Payload := Some p\<rparr>)))))))))"

definition mutation_Decode :: "string \<Rightarrow> MutationEnvelope res" where
  "mutation_Decode raw =
     (if length raw > MaxMutationEnvelopeBytes then Inl (Errorf CodeLimitExceeded ''/'')
      else rbind (Parse raw) (mutation_FromValue raw))"

subsection \<open>Rendering\<close>

definition dependenciesValue :: "Dependency list \<Rightarrow> val" where
  "dependenciesValue ds = VArray (map Dependency_Value ds)"

definition sourceValue :: "Source \<Rightarrow> val" where
  "sourceValue = Source_Value"

definition effectsValue :: "Effects \<Rightarrow> val" where
  "effectsValue = Effects_Value"

definition create_members :: "CreatePayload \<Rightarrow> object" where
  "create_members p =
     (case cp_RequiredRoles p of None \<Rightarrow> [] | Some ro \<Rightarrow> [(''requiredRoles'', StageRolesValue ro)]) @
     (if cp_RequiresPool p \<noteq> [] then [(''requiresPool'', VString (cp_RequiresPool p))] else []) @
     (case cp_LocalToken p of None \<Rightarrow> [] | Some t \<Rightarrow> [(''localToken'', VString t)]) @
     [(''title'', VString (cp_Title p)), (''body'', StringOrNull (cp_Body p)), (''kind'', VString (cp_Kind p)),
      (''owner'', StringOrNull (cp_Owner p)), (''milestone'', StringOrNull (cp_Milestone p)), (''priority'', VString (cp_Priority p)),
      (''order'', VString (cp_Order p)), (''labels'', Strings (cp_Labels p)), (''dependencies'', dependenciesValue (cp_Dependencies p)),
      (''acceptanceCriteria'', Strings (cp_AcceptanceCriteria p)), (''requirementRefs'', Strings (cp_RequirementRefs p)),
      (''source'', sourceValue (cp_Source p)), (''effects'', effectsValue (cp_Effects p)), (''capabilities'', Strings (cp_Capabilities p)),
      (''requiredGates'', Strings (cp_RequiredGates p)), (''executionClass'', VString (cp_ExecutionClass p)),
      (''dueDate'', StringOrNull (cp_DueDate p)), (''estimateMinutes'', StringOrNull (cp_EstimateMinutes p)),
      (''supersedes'', ticketOrNull (cp_Supersedes p)), (''supersededBy'', ticketOrNull (cp_SupersededBy p))]"

definition refine_member :: "RefinePayload \<Rightarrow> string \<Rightarrow> val" where
  "refine_member p k =
     (if k = ''executionPrerequisites'' then
        (if rf_ExecutionPrerequisites p = [] then VNull else PrerequisitesValue (rf_ExecutionPrerequisites p))
      else if k = ''requiredRoles'' then (case rf_RequiredRoles p of None \<Rightarrow> VNull | Some ro \<Rightarrow> StageRolesValue ro)
      else if k = ''requiresPool'' then StringOrNull (rf_RequiresPool p)
      else if k = ''title'' then VString (rf_Title p)
      else if k = ''body'' then StringOrNull (rf_Body p)
      else if k = ''kind'' then VString (rf_Kind p)
      else if k = ''owner'' then StringOrNull (rf_Owner p)
      else if k = ''milestone'' then StringOrNull (rf_Milestone p)
      else if k = ''labels'' then Strings (rf_Labels p)
      else if k = ''acceptanceCriteria'' then Strings (rf_AcceptanceCriteria p)
      else if k = ''requirementRefs'' then Strings (rf_RequirementRefs p)
      else if k = ''dueDate'' then StringOrNull (rf_DueDate p)
      else if k = ''estimateMinutes'' then StringOrNull (rf_EstimateMinutes p)
      else if k = ''supersedes'' then ticketOrNull (rf_Supersedes p)
      else ticketOrNull (rf_SupersededBy p))"

definition refine_members :: "RefinePayload \<Rightarrow> object" where
  "refine_members p = map (\<lambda>k. (k, refine_member p k)) (refine_Keys p)"

definition knowhow_members :: "KnowHowAddPayload \<Rightarrow> object" where
  "knowhow_members p =
     [(''text'', VString (kp_Text p)), (''anchors'', KnowHowAnchorsValue (kp_Anchors p)), (''routes'', Strings (kp_Routes p)),
      (''commit'', VString (kp_Commit p)), (''supersedes'', StringOrNull (kp_Supersedes p)), (''reason'', StringOrNull (kp_Reason p)),
      (''attempt'', StringOrNull (kp_Attempt p)), (''generation'', StringOrNull (kp_Generation p)),
      (''evidencePath'', StringOrNull (kp_EvidencePath p))] @
     (if kp_Repository p \<noteq> [] then [(''repository'', VString (kp_Repository p))] else [])"

definition PayloadValue :: "Payload \<Rightarrow> val" where
  "PayloadValue p = (case p of
     CreateP c \<Rightarrow> VObject (create_members c)
   | RefineP r \<Rightarrow> VObject (refine_members r)
   | PrioritizeP pr od \<Rightarrow> VObject [(''priority'', VString pr), (''order'', VString od)]
   | SetDependenciesP ds \<Rightarrow> VObject [(''dependencies'', dependenciesValue ds)]
   | SetGatesP gs \<Rightarrow> VObject [(''requiredGates'', Strings gs)]
   | SetEffectsP ef ca ec \<Rightarrow> VObject [(''effects'', effectsValue ef), (''capabilities'', Strings ca), (''executionClass'', VString ec)]
   | HoldP h rs c \<Rightarrow> VObject ([(''holdId'', VString h), (''reason'', VString rs)] @
       (case c of None \<Rightarrow> [] | Some c \<Rightarrow> [(''condition'', HoldCondition_Value c)]))
   | ReleaseHoldP h \<Rightarrow> VObject [(''holdId'', VString h)]
   | ReasonP _ rs \<Rightarrow> VObject [(''reason'', VString rs)]
   | CompleteManualP rs ev \<Rightarrow> VObject [(''reason'', VString rs), (''evidence'', Strings ev)]
   | GrantApprovalP g \<Rightarrow> VObject [(''grantId'', VString (ga_GrantID g)), (''actor'', VString (ga_Actor g)),
       (''operation'', VString (ga_Operation g)), (''targetRevision'', VString (ga_TargetRevision g)), (''scope'', Strings (ga_Scope g))]
   | RevokeApprovalP g rs \<Rightarrow> VObject [(''grantId'', VString g), (''reason'', VString rs)]
   | AttachEvidenceP ev rs \<Rightarrow> VObject [(''evidence'', Strings ev), (''reason'', VString rs)]
   | ProgressSetP m \<Rightarrow> VObject (ProgressMark_members m)
   | KnowHowAddP k \<Rightarrow> VObject (knowhow_members k)
   | KnowHowRetractP n rs \<Rightarrow> VObject [(''note'', VString n), (''reason'', VString rs)]
   | KnowHowReconfirmP k \<Rightarrow> VObject [(''note'', VString (kc_Note k)), (''anchors'', KnowHowAnchorsValue (kc_Anchors k)),
       (''commit'', VString (kc_Commit k)), (''attempt'', StringOrNull (kc_Attempt k)), (''generation'', StringOrNull (kc_Generation k))]
   | NoteP op tx su \<Rightarrow> VObject ((if op = OpNoteSet then [(''text'', VString tx)] else []) @ [(''supersedes'', StringOrNull su)])
   | ReviewP _ q \<Rightarrow> VObject [(''request'', q)]
   | ObligationsP q \<Rightarrow> obligations_value q)"

definition Envelope_Value :: "MutationEnvelope \<Rightarrow> val" where
  "Envelope_Value e = VObject
     [(''profile'', VString MutationProfile), (''requestId'', VString (me_RequestID e)),
      (''actor'', VObject [(''id'', VString (act_ID (me_Actor e))), (''role'', VString (act_Role (me_Actor e)))]),
      (''queueId'', VString (q_Raw (me_QueueID e))), (''targetId'', ticketOrNull (me_TargetID e)),
      (''expectedRevision'', StringOrNull (me_ExpectedRevision e)), (''operation'', VString (me_Operation e)),
      (''payload'', case me_Payload e of None \<Rightarrow> VObject [] | Some p \<Rightarrow> PayloadValue p), (''issuedAt'', VString (me_IssuedAt e))]"

end
