(* ===== verification/Mutation_Wire.thy ===== *)
theory Mutation_Wire
  imports Mutation_Codec
begin

text \<open>
  The decoder of a mutation envelope inverts its renderer: each reader of \<^verbatim>\<open>Mutation_Codec\<close> meets the
  contract \<open>inverse_reader\<close>, so an accepted envelope is determined by its typed fields.
\<close>

subsection \<open>The readers of members\<close>

lemma rd_inverse:
  assumes "inverse_reader rd render" "\<And>r. sticky (rd2 r)" "\<And>r x. yields (rd2 r) x \<Longrightarrow> yields (rd r) x"
  shows "inverse_reader rd2 render"
  by unfold_locales (use assms inverse_reader.inverse [OF assms(1)] in blast)+

interpretation RequestID_inverse: inverse_reader readRequestID VString
  by (rule rd_inverse [OF Identifier_inverse.inverse_reader_axioms]) (auto simp: readRequestID_def prog split: if_splits)

interpretation readPriority_inverse: inverse_reader readPriority VString
  by (rule rd_inverse [OF String_inverse.inverse_reader_axioms]) (auto simp: readPriority_def prog split: if_splits)

lemma yields_Date: "yields (read_Date r) s \<longleftrightarrow> yields (rd_String r) s \<and> ParseDate (r_where r) s = Inr s"
proof -
  have "yields (if b then rd_Fail r CodeMalformed else return ()) u \<longleftrightarrow> \<not> b" for b u by (simp add: prog)
  then show ?thesis by (auto simp: read_Date_def prog)
qed

interpretation readDueDate_inverse: inverse_reader readDueDate StringOrNull
  by (rule rd_inverse [OF DateUnlessNull_inverse.inverse_reader_axioms])
    (auto simp: readDueDate_def rd_unless_null_def rd_some_def yields_Date Date_inverse.stuck prog split: if_splits)

interpretation readTicketOrNull_inverse: inverse_reader readTicketOrNull ticketOrNull
  by (rule rd_inverse [OF TicketOrNull_inverse.inverse_reader_axioms])
    (auto simp: readTicketOrNull_def rd_unless_null_def rd_some_def prog split: if_splits)

interpretation LocalToken_inverse: inverse_reader readLocalToken VString
  using grammar_inverse [of "\<lambda>loc s. ParseToken loc s MaxLocalTokenBytes"] by (simp add: readLocalToken_def rd_grammar_def)

interpretation QueueID_inverse: inverse_reader rd_QueueID "\<lambda>q. VString (q_Raw q)"
  by (rule scalar_inverse [OF QueueID_reader.field_reader_axioms])
    (auto simp: dec_with_def dec_string_def ParseQueueID_def Let_def split: val.splits if_splits sum.splits list.splits)

interpretation claim_inverse: inverse_reader read_claim "\<lambda>a. VObject [(''id'', VString (act_ID a)), (''role'', VString (act_Role a))]"
  by (rule object_reader) (auto simp: read_claim_def prog dest!: members intro!: renders_intro)

interpretation readDependencies_inverse: inverse_reader readDependencies dependenciesValue
  unfolding readDependencies_def dependenciesValue_def [abs_def] by (rule Dependency_inverse.array_each)

lemmas list_readers = readLabels_def readCriteria_def readRequirementRefs_def readCapabilities_def readGates_def
  readSource_def readEffects_def sourceValue_def effectsValue_def

lemmas payload_axioms =
  RequestID_inverse.inverse_reader_axioms readPriority_inverse.inverse_reader_axioms readDueDate_inverse.inverse_reader_axioms
  readTicketOrNull_inverse.inverse_reader_axioms LocalToken_inverse.inverse_reader_axioms QueueID_inverse.inverse_reader_axioms
  claim_inverse.inverse_reader_axioms readDependencies_inverse.inverse_reader_axioms Source_inverse.inverse_reader_axioms
  Effects_inverse.inverse_reader_axioms Anchors_inverse.inverse_reader_axioms TicketOrNull_inverse.inverse_reader_axioms
  or_null_inverse [OF KnowHowReason_inverse.inverse_reader_axioms, folded rd_StringOrNull_def]

lemmas payload_members = members payload_axioms [THEN at_member]
lemmas payload_prog = prog payload_axioms [THEN inverse_reader.stuck] sticky_ProgressMark

subsection \<open>Payloads with fixed members\<close>

definition reads_payload :: "string \<Rightarrow> (reader \<Rightarrow> Payload rd) \<Rightarrow> bool" where
  "reads_payload op rd \<longleftrightarrow> (\<forall>r. sticky (rd r)) \<and>
     (\<forall>r p. yields (rd r) p \<longrightarrow> payload_operation p = op \<and> (distinct_val (r_v r) \<longrightarrow> canon (r_v r) = canon (PayloadValue p)))"

lemma reads_payloadI:
  assumes "inverse_reader rd PayloadValue" "\<And>r p. yields (rd r) p \<Longrightarrow> payload_operation p = op"
  shows "reads_payload op rd"
  using inverse_reader.stuck [OF assms(1)] inverse_reader.inverse [OF assms(1)] assms(2) by (auto simp: reads_payload_def)

lemma reads_payload_map:
  assumes "inverse_reader rd render" "\<And>x. PayloadValue (f x) = render x" "\<And>x. payload_operation (f x) = op"
  shows "reads_payload op (\<lambda>r. do { x \<leftarrow> rd r; return (f x) })"
  using inverse_reader.stuck [OF assms(1)] inverse_reader.inverse [OF assms(1)] assms(2,3)
  by (auto simp: reads_payload_def prog)

text \<open>A closed payload whose reader finds every member of the rendering.\<close>

lemma reads_payload_closed:
  assumes "\<And>r. sticky (body r)"
    and "\<And>kvs loc p. yields (body \<lparr>r_v = VObject kvs, r_where = loc\<rparr>) p \<Longrightarrow> wf_obj kvs \<Longrightarrow>
      \<exists>ms. PayloadValue p = VObject ms \<and> ms_ok kvs ms \<and> distinct (map fst ms) \<and> set (PayloadKeys op) \<subseteq> fst ` set ms"
    and "\<And>r p. yields (body r) p \<Longrightarrow> payload_operation p = op"
  shows "reads_payload op (read_closed op body)"
  unfolding reads_payload_def
proof (intro conjI allI impI)
  show "sticky (read_closed op body r)" for r using assms(1) by (simp add: read_closed_def prog)
  show "payload_operation p = op" if "yields (read_closed op body r) p" for r p
    using that assms(1,3) by (auto simp: read_closed_def prog)
  fix r p
  assume y: "yields (read_closed op body r) p" and d: "distinct_val (r_v r)"
  then obtain kvs where k: "r_v r = VObject kvs" "closed_ok (PayloadKeys op) kvs" "yields (body r) p"
    using assms(1) by (auto simp: read_closed_def prog)
  have "r = \<lparr>r_v = VObject kvs, r_where = r_where r\<rparr>" using k(1) by (cases r) simp
  then have "yields (body \<lparr>r_v = VObject kvs, r_where = r_where r\<rparr>) p" using k(3) by simp
  then obtain ms where "PayloadValue p = VObject ms" "ms_ok kvs ms" "distinct (map fst ms)" "set (PayloadKeys op) \<subseteq> fst ` set ms"
    using assms(2) d k(1) by (fastforce simp: wf_obj_def)
  then show "canon (r_v r) = canon (PayloadValue p)"
    using renders_canon [OF renders_intro [OF k(2)], of ms] d k(1) by (simp add: wf_obj_def)
qed

lemma PayloadKeys_simps:
  "PayloadKeys OpPrioritize = [''priority'', ''order'']" "PayloadKeys OpSetDependencies = [''dependencies'']"
  "PayloadKeys OpSetGates = [''requiredGates'']" "PayloadKeys OpSetEffects = [''effects'', ''capabilities'', ''executionClass'']"
  "PayloadKeys OpHold = [''holdId'', ''reason'']" "PayloadKeys OpReleaseHold = [''holdId'']"
  "PayloadKeys OpReopen = [''reason'']" "PayloadKeys OpArchive = [''reason'']" "PayloadKeys OpRestore = [''reason'']"
  "PayloadKeys OpCompleteManual = [''reason'', ''evidence'']"
  "PayloadKeys OpGrantApproval = [''grantId'', ''actor'', ''operation'', ''targetRevision'', ''scope'']"
  "PayloadKeys OpRevokeApproval = [''grantId'', ''reason'']" "PayloadKeys OpAttachEvidence = [''evidence'', ''reason'']"
  "PayloadKeys OpProgressSet = ProgressMarkKeys" "PayloadKeys OpKnowHowRetract = [''note'', ''reason'']"
  "PayloadKeys OpKnowHowAdd = [''anchors'', ''attempt'', ''commit'', ''evidencePath'', ''generation'', ''reason'', ''routes'', ''supersedes'', ''text'']"
  "PayloadKeys OpKnowHowReconfirm = [''anchors'', ''attempt'', ''commit'', ''generation'', ''note'']"
  "PayloadKeys OpNoteSet = [''text'', ''supersedes'']" "PayloadKeys OpNoteClear = [''supersedes'']"
  "PayloadKeys OpReviewRecord = [''request'']" "PayloadKeys OpReviewResubmit = [''request'']"
  by (simp_all add: PayloadKeys_def op_defs)

lemmas payload_defs = PayloadValue_def payload_operation_def PayloadKeys_simps list_readers

lemma closed_payloads:
  "reads_payload OpPrioritize (read_closed OpPrioritize (\<lambda>r. do {
     p \<leftarrow> rd_at ''priority'' readPriority r; od \<leftarrow> rd_at ''order'' rd_Count r; return (PrioritizeP p od) }))"
  "reads_payload OpSetDependencies (read_closed OpSetDependencies (\<lambda>r. do {
     ds \<leftarrow> rd_at ''dependencies'' readDependencies r; return (SetDependenciesP ds) }))"
  "reads_payload OpSetGates (read_closed OpSetGates (\<lambda>r. do { gs \<leftarrow> rd_at ''requiredGates'' readGates r; return (SetGatesP gs) }))"
  "reads_payload OpSetEffects (read_closed OpSetEffects (\<lambda>r. do {
     ef \<leftarrow> rd_at ''effects'' readEffects r; ca \<leftarrow> rd_at ''capabilities'' readCapabilities r;
     ec \<leftarrow> rd_at ''executionClass'' (rd_Enum ExecutionClasses) r; return (SetEffectsP ef ca ec) }))"
  "reads_payload OpReleaseHold (read_closed OpReleaseHold (\<lambda>r. do { h \<leftarrow> rd_at ''holdId'' rd_Label r; return (ReleaseHoldP h) }))"
  "reads_payload OpCompleteManual (read_closed OpCompleteManual (\<lambda>r. do {
     rs \<leftarrow> rd_at ''reason'' (rd_Prose 0 MaxProseBytes) r; ev \<leftarrow> rd_at ''evidence'' (rd_array_each (-1) False rd_Digest) r;
     return (CompleteManualP rs ev) }))"
  "reads_payload OpGrantApproval (read_closed OpGrantApproval readGrant)"
  "reads_payload OpRevokeApproval (read_closed OpRevokeApproval (\<lambda>r. do {
     g \<leftarrow> rd_at ''grantId'' rd_Label r; rs \<leftarrow> rd_at ''reason'' (rd_Prose 0 MaxProseBytes) r; return (RevokeApprovalP g rs) }))"
  "reads_payload OpAttachEvidence (read_closed OpAttachEvidence (\<lambda>r. do {
     ev \<leftarrow> rd_at ''evidence'' ReadEvidenceDigests r; rs \<leftarrow> rd_at ''reason'' ReadEvidenceReason r; return (AttachEvidenceP ev rs) }))"
  "reads_payload OpKnowHowRetract (read_closed OpKnowHowRetract (\<lambda>r. do {
     n \<leftarrow> rd_at ''note'' rd_Count r; rs \<leftarrow> rd_at ''reason'' ReadKnowHowReason r; return (KnowHowRetractP n rs) }))"
  "reads_payload OpKnowHowReconfirm (read_closed OpKnowHowReconfirm readReconfirm)"
  by (rule reads_payload_closed; auto simp: payload_prog payload_defs readGrant_def readReconfirm_def dest!: payload_members)+

lemma closed_reason:
  assumes "op = OpReopen \<or> op = OpArchive \<or> op = OpRestore"
  shows "reads_payload op (read_closed op (\<lambda>r. do { rs \<leftarrow> rd_at ''reason'' (rd_Prose 0 MaxProseBytes) r; return (ReasonP op rs) }))"
  using assms by (intro reads_payload_closed) (auto simp: payload_prog payload_defs dest!: payload_members)

lemma closed_progress:
  "reads_payload OpProgressSet (read_closed OpProgressSet (\<lambda>r. do { m \<leftarrow> ReadProgressMark r; return (ProgressSetP m) }))"
  by (rule reads_payload_closed; auto simp: payload_prog payload_defs dest!: ReadProgressMark_read)
    (auto simp: ProgressMark_members_def ProgressMarkKeys_def)

text \<open>An object reader whose result is a payload.\<close>

lemma reads_payload_object:
  assumes "\<And>r. sticky (rd r)" "\<And>r x. yields (rd r) x \<Longrightarrow> \<exists>kvs. r_v r = VObject kvs"
    and "\<And>kvs loc x. yields (rd \<lparr>r_v = VObject kvs, r_where = loc\<rparr>) x \<Longrightarrow> wf_obj kvs \<Longrightarrow> \<exists>ms. PayloadValue x = VObject ms \<and> renders kvs ms"
    and "\<And>r p. yields (rd r) p \<Longrightarrow> payload_operation p = op"
  shows "reads_payload op rd"
  unfolding reads_payload_def
proof (intro conjI allI impI)
  fix r p
  assume y: "yields (rd r) p" and d: "distinct_val (r_v r)"
  obtain kvs where k: "r_v r = VObject kvs" using assms(2) [OF y] by blast
  then have "r = \<lparr>r_v = VObject kvs, r_where = r_where r\<rparr>" by (cases r) simp
  then have "yields (rd \<lparr>r_v = VObject kvs, r_where = r_where r\<rparr>) p" using y by simp
  then obtain ms where "PayloadValue p = VObject ms" "renders kvs ms" using assms(3) d k by (fastforce simp: wf_obj_def)
  then show "canon (r_v r) = canon (PayloadValue p)" using renders_canon d k by (simp add: wf_obj_def)
qed (use assms(1,4) in blast)+

lemma reads_hold: "reads_payload OpHold readHold"
proof -
  have st: "sticky (rd_some ReadHoldCondition r)" for r
    by (rule inverse_reader.stuck [OF some_inverse [OF HoldCondition_inverse.inverse_reader_axioms]])
  show ?thesis
    by (rule reads_payload_object)
      (auto simp: readHold_def payload_prog st OptionalKeys_one PayloadKeys_simps PayloadValue_def payload_operation_def
        dest!: payload_members optional_some [OF HoldCondition_inverse.inverse_reader_axioms]
        intro!: renders_intro split: option.splits if_splits simp del: obj_Get_None)
qed

lemma reads_note:
  assumes "IsNoteOperation op"
  shows "reads_payload op (readNote op)"
proof -
  have "OpNoteClear \<noteq> OpNoteSet" by (simp add: op_defs)
  then show ?thesis using assms unfolding IsNoteOperation_def
    by (elim disjE; hypsubst; intro reads_payload_object)
      (auto simp: readNote_def payload_prog PayloadKeys_simps PayloadValue_def payload_operation_def
        dest!: payload_members intro!: renders_intro split: if_splits)
qed

lemma reads_review:
  assumes "IsReviewOperation op"
  shows "reads_payload op (readReview op)"
proof -
  have k: "PayloadKeys op = [''request'']" using assms by (auto simp: IsReviewOperation_def PayloadKeys_simps)
  show ?thesis
    by (rule reads_payload_object)
      (auto simp: readReview_def payload_prog k PayloadValue_def payload_operation_def run_simps member_def
        intro!: renders_intro split: if_splits)
qed

lemma repository_named: "\<not> yields (ReadKnowHowRepository r) []"
  by (auto simp: ReadKnowHowRepository_def rd_grammar_def field_reader.yields_dec [OF rd_with_reader] dec_with_def
      ParseKnowHowRepository_def is_token_def split: sum.splits if_splits)

lemma reads_knowhow: "reads_payload OpKnowHowAdd (\<lambda>r. do { k \<leftarrow> readKnowHowAdd r; return (KnowHowAddP k) })"
proof (rule reads_payload_map)
  show "inverse_reader readKnowHowAdd (\<lambda>k. VObject (knowhow_members k))"
  proof (rule object_reader)
    show "sticky (readKnowHowAdd r)" for r by (simp add: readKnowHowAdd_def Let_def payload_prog)
    show "\<exists>kvs. r_v r = VObject kvs" if "yields (readKnowHowAdd r) x" for r x
      using that by (auto simp: readKnowHowAdd_def Let_def payload_prog split: if_splits)
    fix kvs loc k
    assume y: "yields (readKnowHowAdd \<lparr>r_v = VObject kvs, r_where = loc\<rparr>) k" and w: "wf_obj kvs"
    let ?r = "\<lparr>r_v = VObject kvs, r_where = loc\<rparr>"
    have repo: "yields (rd_optional ''repository'' ReadKnowHowRepository [] ?r) (kp_Repository k)"
      using y by (auto simp: readKnowHowAdd_def Let_def payload_prog simp del: val_Has_obj)
    have "opt_member kvs ''repository'' (list_option VString (kp_Repository k))"
      by (rule optional_list [OF Repository_inverse.inverse_reader_axioms repository_named repo w])
    then show "renders kvs (knowhow_members k)"
      using y w by (auto simp: readKnowHowAdd_def Let_def payload_prog PayloadKeys_simps knowhow_members_def opt_member_def list_option_def
          dest!: payload_members intro!: renders_intro split: if_splits simp del: obj_Get_None)
  qed
qed (simp_all add: PayloadValue_def payload_operation_def)

subsection \<open>Creation\<close>

definition create_options :: "CreatePayload \<Rightarrow> (string \<times> val option) list" where
  "create_options p = [(''requiredRoles'', map_option StageRolesValue (cp_RequiredRoles p)),
     (''requiresPool'', list_option VString (cp_RequiresPool p)), (''localToken'', map_option VString (cp_LocalToken p))]"

definition create_fixed :: "CreatePayload \<Rightarrow> object" where
  "create_fixed p =
     [(''title'', VString (cp_Title p)), (''body'', StringOrNull (cp_Body p)), (''kind'', VString (cp_Kind p)),
      (''owner'', StringOrNull (cp_Owner p)), (''milestone'', StringOrNull (cp_Milestone p)), (''priority'', VString (cp_Priority p)),
      (''order'', VString (cp_Order p)), (''labels'', Strings (cp_Labels p)), (''dependencies'', dependenciesValue (cp_Dependencies p)),
      (''acceptanceCriteria'', Strings (cp_AcceptanceCriteria p)), (''requirementRefs'', Strings (cp_RequirementRefs p)),
      (''source'', sourceValue (cp_Source p)), (''effects'', effectsValue (cp_Effects p)), (''capabilities'', Strings (cp_Capabilities p)),
      (''requiredGates'', Strings (cp_RequiredGates p)), (''executionClass'', VString (cp_ExecutionClass p)),
      (''dueDate'', StringOrNull (cp_DueDate p)), (''estimateMinutes'', StringOrNull (cp_EstimateMinutes p)),
      (''supersedes'', ticketOrNull (cp_Supersedes p)), (''supersededBy'', ticketOrNull (cp_SupersededBy p))]"

lemma create_members_groups: "create_members p = [] @ present (create_options p) @ create_fixed p"
  unfolding create_options_def present_if present_case create_members_def create_fixed_def by simp

lemma create_keys:
  "set createKeys \<subseteq> fst ` set [] \<union> fst ` set (create_fixed p)"
  "set [''requiresPool'', ''requiredRoles'', ''localToken''] \<subseteq> fst ` set (create_options p)"
  "distinct (map fst [] @ map fst (create_options p) @ map fst (create_fixed p))"
  by (simp_all add: createKeys_def create_options_def create_fixed_def)

lemma closed_same: "set a = set b \<Longrightarrow> closed_ok a kvs = closed_ok b kvs"
  by (simp add: closed_ok_def filter_empty_conv)

interpretation create_inverse: inverse_reader readCreate "\<lambda>p. VObject (create_members p)"
proof (rule object_reader)
  have st: "sticky (rd_some readLocalToken r)" "\<not> yields (rd_some readLocalToken r) None" for r
    using yields_some [OF LocalToken_inverse.stuck] inverse_reader.stuck [OF some_inverse [OF LocalToken_inverse.inverse_reader_axioms]] by auto
  note prog1 = payload_prog st(1) some_StageRoles(1) list_readers
  show "sticky (readCreate r)" for r by (simp add: readCreate_def Let_def prog1)
  show "\<exists>kvs. r_v r = VObject kvs" if "yields (readCreate r) x" for r x
    using that by (auto simp: readCreate_def Let_def prog1)
  fix kvs loc p
  let ?r = "\<lparr>r_v = VObject kvs, r_where = loc\<rparr>"
  assume y: "yields (readCreate ?r) p" and w: "wf_obj kvs"
  have c: "closed_ok (OptionalKeys (VObject kvs) (createKeys @ (if val_Has (VObject kvs) ''localToken'' then [''localToken''] else []))
        [''requiresPool'', ''requiredRoles'']) kvs"
    and o1: "yields (rd_optional ''requiredRoles'' (rd_some ReadStageRoles) None ?r) (cp_RequiredRoles p)"
      "yields (rd_optional ''requiresPool'' rd_Label [] ?r) (cp_RequiresPool p)"
      "yields (rd_optional ''localToken'' (rd_some readLocalToken) None ?r) (cp_LocalToken p)"
    and f: "ms_ok kvs (create_fixed p)"
    using y w by (auto simp: readCreate_def Let_def prog1 create_fixed_def dest!: payload_members simp del: val_Has_obj)
  have "opts_ok kvs (create_options p)"
    using optional_rules(1) [OF o1(1) w] optional_list [OF Label_inverse.inverse_reader_axioms label_nonempty o1(2) w]
      optional_option [OF some_inverse [OF LocalToken_inverse.inverse_reader_axioms] st(2) o1(3) w]
    by (simp add: create_options_def)
  moreover have "closed_ok (OptionalKeys (VObject kvs) createKeys [''requiresPool'', ''requiredRoles'', ''localToken'']) kvs"
    using c by (subst (asm) closed_same) (auto simp: OptionalKeys_def)
  ultimately show "renders kvs (create_members p)"
    unfolding create_members_groups
    by (intro renders_present [OF _ _ f _ create_keys]) simp_all
qed

lemma reads_create: "reads_payload OpCreate (\<lambda>r. do { p \<leftarrow> readCreate r; return (CreateP p) })"
  by (rule reads_payload_map [OF create_inverse.inverse_reader_axioms]) (simp_all add: PayloadValue_def payload_operation_def)

subsection \<open>Refinement\<close>

lemma sticky_refine: "sticky (refine_field k p f)" "sticky (refine_loop r ks p)"
proof -
  show *: "sticky (refine_field k p f)" for k p f
    by (simp add: refine_field_def payload_prog list_readers StageRoles_inverse.stuck Prerequisites_inverse.stuck)
  show "sticky (refine_loop r ks p)" by (induction ks arbitrary: p) (simp_all add: payload_prog *)
qed

text \<open>The fields that a null leaves as they are.\<close>

abbreviation clears :: "string \<Rightarrow> bool" where
  "clears k \<equiv> k = ''executionPrerequisites'' \<or> k = ''requiredRoles''"

lemmas refine_axioms = payload_axioms StageRoles_inverse.inverse_reader_axioms
  scalar_axioms text_axioms
lemmas refine_inverses = refine_axioms [THEN inverse_reader.inverse]

lemma prerequisites_read:
  "yields (ReadPrerequisites r) ps \<Longrightarrow> ps \<noteq> [] \<and> (distinct_val (r_v r) \<longrightarrow> canon (r_v r) = canon (PrerequisitesValue ps))"
  using ReadPrerequisites_nonempty Prerequisites_inverse.inverse by blast

lemma refine_field_value:
  assumes "yields (refine_field k p f) q" "k \<in> set RefineFields" "distinct_val (r_v f)" "clears k \<longrightarrow> refine_member p k = VNull"
  shows "canon (r_v f) = canon (refine_member q k)"
  using assms(2) unfolding RefineFields_def
  by (simp only: set_simps insert_iff empty_iff)
    (elim disjE; use assms in \<open>auto simp: refine_field_def refine_member_def payload_prog list_readers IsNull_def
       StageRoles_inverse.stuck Prerequisites_inverse.stuck
       dest!: prerequisites_read refine_inverses split: if_splits\<close>)

lemma refine_member_updates:
  "j \<noteq> ''executionPrerequisites'' \<Longrightarrow> refine_member (p\<lparr>rf_ExecutionPrerequisites := x0\<rparr>) j = refine_member p j"
  "j \<noteq> ''requiredRoles'' \<Longrightarrow> refine_member (p\<lparr>rf_RequiredRoles := x1\<rparr>) j = refine_member p j"
  "j \<noteq> ''requiresPool'' \<Longrightarrow> refine_member (p\<lparr>rf_RequiresPool := x2\<rparr>) j = refine_member p j"
  "j \<noteq> ''title'' \<Longrightarrow> refine_member (p\<lparr>rf_Title := x3\<rparr>) j = refine_member p j"
  "j \<noteq> ''body'' \<Longrightarrow> refine_member (p\<lparr>rf_Body := x4\<rparr>) j = refine_member p j"
  "j \<noteq> ''kind'' \<Longrightarrow> refine_member (p\<lparr>rf_Kind := x5\<rparr>) j = refine_member p j"
  "j \<noteq> ''owner'' \<Longrightarrow> refine_member (p\<lparr>rf_Owner := x6\<rparr>) j = refine_member p j"
  "j \<noteq> ''milestone'' \<Longrightarrow> refine_member (p\<lparr>rf_Milestone := x7\<rparr>) j = refine_member p j"
  "j \<noteq> ''labels'' \<Longrightarrow> refine_member (p\<lparr>rf_Labels := x8\<rparr>) j = refine_member p j"
  "j \<noteq> ''acceptanceCriteria'' \<Longrightarrow> refine_member (p\<lparr>rf_AcceptanceCriteria := x9\<rparr>) j = refine_member p j"
  "j \<noteq> ''requirementRefs'' \<Longrightarrow> refine_member (p\<lparr>rf_RequirementRefs := x10\<rparr>) j = refine_member p j"
  "j \<noteq> ''dueDate'' \<Longrightarrow> refine_member (p\<lparr>rf_DueDate := x11\<rparr>) j = refine_member p j"
  "j \<noteq> ''estimateMinutes'' \<Longrightarrow> refine_member (p\<lparr>rf_EstimateMinutes := x12\<rparr>) j = refine_member p j"
  "j \<noteq> ''supersedes'' \<Longrightarrow> refine_member (p\<lparr>rf_Supersedes := x13\<rparr>) j = refine_member p j"
  "j \<noteq> ''supersededBy'' \<Longrightarrow> j \<in> set RefineFields \<Longrightarrow> refine_member (p\<lparr>rf_SupersededBy := x14\<rparr>) j = refine_member p j"
  by (simp_all add: refine_member_def) (auto simp: RefineFields_def)

lemma refine_field_keeps:
  assumes "yields (refine_field k p f) q"
  shows "rf_Present q = rf_Present p \<and> (\<forall>j\<in>set RefineFields. j \<noteq> k \<longrightarrow> refine_member q j = refine_member p j)"
  using assms unfolding refine_field_def
  by (auto simp: payload_prog list_readers StageRoles_inverse.stuck Prerequisites_inverse.stuck refine_member_updates split: if_splits)

lemma field_value:
  assumes "yields (rd_Field k \<lparr>r_v = VObject kvs, r_where = loc\<rparr>) f" "wf_obj kvs"
  shows "obj_Get kvs k = Some (r_v f) \<and> distinct_val (r_v f)"
  using assms object_value [of kvs k] by (auto simp: run_simps)

lemma refine_loop_read:
  assumes "yields (refine_loop \<lparr>r_v = VObject kvs, r_where = loc\<rparr> ks p) q" "wf_obj kvs" "set ks \<subseteq> set RefineFields" "distinct ks"
    and "\<And>k. k \<in> set ks \<Longrightarrow> clears k \<Longrightarrow> refine_member p k = VNull"
  shows "rf_Present q = rf_Present p \<and> (\<forall>j\<in>set RefineFields - set ks. refine_member q j = refine_member p j) \<and>
    (\<forall>k\<in>set ks. member kvs k (refine_member q k))"
  using assms
proof (induction ks arbitrary: p)
  case (Cons k ks)
  obtain f p1 where f: "yields (rd_Field k \<lparr>r_v = VObject kvs, r_where = loc\<rparr>) f" "yields (refine_field k p f) p1"
      "yields (refine_loop \<lparr>r_v = VObject kvs, r_where = loc\<rparr> ks p1) q"
    using Cons.prems(1) by (auto simp: payload_prog sticky_refine)
  note v = field_value [OF f(1) Cons.prems(2)]
  note keep = refine_field_keeps [OF f(2)]
  have k: "k \<in> set RefineFields" "k \<notin> set ks" using Cons.prems(3,4) by auto
  have "clears j \<Longrightarrow> refine_member p1 j = VNull" if "j \<in> set ks" for j
  proof -
    assume c: "clears j"
    have "refine_member p j = VNull" using Cons.prems(5) [of j] that c by simp
    then show ?thesis using keep that k Cons.prems(3) by (metis list.set_intros(2) subsetD)
  qed
  then have ih: "rf_Present q = rf_Present p1 \<and> (\<forall>j\<in>set RefineFields - set ks. refine_member q j = refine_member p1 j) \<and>
      (\<forall>k\<in>set ks. member kvs k (refine_member q k))"
    using Cons.prems by (intro Cons.IH [OF f(3)]) auto
  have "canon (r_v f) = canon (refine_member p1 k)"
    using refine_field_value [OF f(2) k(1)] v Cons.prems(5) by auto
  then have "member kvs k (refine_member q k)" using ih k v by (simp add: member_def)
  then show ?case using ih keep by auto
qed (simp add: payload_prog)

lemma SortedKeys_set: "set (SortedKeys kvs) = set (map fst kvs)" "distinct (map fst kvs) \<Longrightarrow> distinct (SortedKeys kvs)"
  by (simp_all add: SortedKeys_def obj_Keys_def)

lemma zero_clears: "clears k \<Longrightarrow> refine_member (zero_Refine ks) k = VNull"
  by (elim disjE) (simp_all add: refine_member_def zero_Refine_def)

interpretation refine_inverse: inverse_reader readRefine "\<lambda>p. VObject (refine_members p)"
proof (rule object_reader)
  show "sticky (readRefine r)" for r by (simp add: readRefine_def Let_def payload_prog sticky_refine split: val.split)
  show "\<exists>kvs. r_v r = VObject kvs" if "yields (readRefine r) x" for r x
    using that by (auto simp: readRefine_def payload_prog split: val.splits)
  fix kvs loc p
  let ?r = "\<lparr>r_v = VObject kvs, r_where = loc\<rparr>" and ?ks = "SortedKeys kvs"
  assume y: "yields (readRefine ?r) p" and w: "wf_obj kvs"
  have l: "yields (refine_loop ?r ?ks (zero_Refine ?ks)) p" "closed_ok ?ks kvs" and sub: "set ?ks \<subseteq> set RefineFields"
    using y by (auto simp: readRefine_def Let_def payload_prog sticky_refine list_ex_iff split: if_splits)
  have d: "distinct ?ks" using w by (intro SortedKeys_set) (simp add: wf_obj_def)
  have "rf_Present p = rf_Present (zero_Refine ?ks) \<and> (\<forall>k\<in>set ?ks. member kvs k (refine_member p k))"
    using refine_loop_read [OF l(1) w sub d zero_clears] by blast
  then have "rf_Present p = ?ks" "\<forall>k\<in>set ?ks. member kvs k (refine_member p k)" by (simp_all add: zero_Refine_def)
  moreover have "distinct (refine_Keys p)"
    unfolding refine_Keys_def by (intro distinct_filter) (simp add: RefineFields_def)
  ultimately show "renders kvs (refine_members p)"
    using l(2) sub by (intro renders_intro [of ?ks]) (auto simp: refine_members_def refine_Keys_def list_all_iff comp_def image_image)
qed

lemma reads_refine: "reads_payload OpRefine (\<lambda>r. do { p \<leftarrow> readRefine r; return (RefineP p) })"
  by (rule reads_payload_map [OF refine_inverse.inverse_reader_axioms]) (simp_all add: PayloadValue_def payload_operation_def)

subsection \<open>The envelope\<close>

lemma payload_reads:
  assumes "payload_reader op = Some rd" "\<not> IsObligationOperation op"
  shows "reads_payload op rd"
  using assms unfolding payload_reader_def
  by (auto split: if_splits intro: closed_payloads closed_reason closed_progress reads_hold reads_note reads_review
      reads_knowhow reads_create reads_refine)

lemma envelope_profile:
  assumes "CheckProfile ''/profile'' (fst (run_state (rd_at ''profile'' rd_String \<lparr>r_v = VObject kvs, r_where = ''/''\<rparr>) fresh)) MutationProfile = Inr u"
    and "obj_Get kvs ''profile'' \<noteq> None"
  shows "member kvs ''profile'' (VString MutationProfile)"
proof -
  obtain v where v: "obj_Get kvs ''profile'' = Some v" using assms(2) by blast
  have "fst (run_state (rd_at ''profile'' rd_String \<lparr>r_v = VObject kvs, r_where = ''/''\<rparr>) fresh) = MutationProfile"
    using assms(1) by (auto simp: CheckProfile_def split: if_splits)
  then have "v = VString MutationProfile"
    using v by (auto simp: rd_at_def rd_Field_def rd_String_def rd_Fail_def rd_adopt_def fresh_def rd_child_def Let_def MutationProfile_def
        split: val.splits if_splits option.splits)
  then show ?thesis using v by (simp add: member_def)
qed

lemma sticky_envelope: "sticky (read_envelope raw r)"
  by (simp add: read_envelope_def payload_prog)

lemma check_address_payload: "check_address (e\<lparr>me_Payload := p\<rparr>) = check_address e"
  by (cases "me_TargetID e") (simp_all add: check_address_def)

text \<open>What an accepted value gives: the typed envelope, its payload, and the rendering that it is.\<close>

lemma mutation_FromValue_read:
  assumes f: "mutation_FromValue raw v = Inr e" and d: "distinct_val v" and "\<not> IsObligationOperation (me_Operation e)"
  shows "canon v = canon (Envelope_Value e) \<and> me_Raw e = raw \<and> check_address e = Inr () \<and>
    (\<exists>p. me_Payload e = Some p \<and> payload_operation p = me_Operation e)"
proof -
  obtain kvs e0 fl p where v: "v = VObject kvs" and c: "closed_ok envelopeKeys kvs"
    and prof: "CheckProfile ''/profile'' (fst (run_state (rd_at ''profile'' rd_String \<lparr>r_v = VObject kvs, r_where = ''/''\<rparr>) fresh)) MutationProfile = Inr ()"
    and r: "yields (read_envelope raw \<lparr>r_v = VObject kvs, r_where = ''/''\<rparr>) e0" and a: "check_address e0 = Inr ()"
    and fl: "yields (rd_Field ''payload'' \<lparr>r_v = VObject kvs, r_where = ''/''\<rparr>) fl"
    and p: "decodePayload (me_Operation e0) fl = Inr p" and e: "e = e0\<lparr>me_Payload := Some p\<rparr>"
    using f unfolding mutation_FromValue_def Let_def rbind_eq_Inr
    by (auto simp: run_reader_Inr Closed_reader.is_sticky Closed_reader.yields_dec dec_closed_iff NewReader_def sticky_envelope sticky_Field)
  have w: "wf_obj kvs" using d v by (simp add: wf_obj_def)
  obtain rd where rd: "payload_reader (me_Operation e0) = Some rd" "run_reader (rd fl) = Inr p"
    using p by (auto simp: decodePayload_def split: option.splits)
  have reads: "reads_payload (me_Operation e0) rd" using payload_reads [OF rd(1)] assms(3) e by simp
  then have "yields (rd fl) p" using rd(2) run_reader_Inr by (metis reads_payload_def)
  then have pl: "payload_operation p = me_Operation e0" "canon (r_v fl) = canon (PayloadValue p)"
    using reads field_value [OF fl w] by (auto simp: reads_payload_def)
  then have payload: "member kvs ''payload'' (PayloadValue p)" using field_value [OF fl w] by (auto simp: member_def)
  have "''profile'' \<in> set envelopeKeys" by (simp add: envelopeKeys_def)
  then have "obj_Get kvs ''profile'' \<noteq> None" using c unfolding closed_ok_def filter_empty_conv by blast
  note profile = envelope_profile [OF prof this]
  have "renders kvs [(''profile'', VString MutationProfile), (''requestId'', VString (me_RequestID e)),
      (''actor'', VObject [(''id'', VString (act_ID (me_Actor e))), (''role'', VString (act_Role (me_Actor e)))]),
      (''queueId'', VString (q_Raw (me_QueueID e))), (''targetId'', ticketOrNull (me_TargetID e)),
      (''expectedRevision'', StringOrNull (me_ExpectedRevision e)), (''operation'', VString (me_Operation e)),
      (''payload'', PayloadValue p), (''issuedAt'', VString (me_IssuedAt e))]"
    using r w profile payload
    by (intro renders_intro [OF c]) (auto simp: envelopeKeys_def e read_envelope_def payload_prog dest!: payload_members)
  then have "canon v = canon (Envelope_Value e)" using renders_canon w v by (simp add: Envelope_Value_def e)
  moreover have "me_Raw e = raw" using r e by (auto simp: read_envelope_def payload_prog)
  moreover have "check_address e = Inr ()" using a e check_address_payload by simp
  ultimately show ?thesis using pl e by simp
qed

end
