(* ===== verification/Mutation_File.thy ===== *)
theory Mutation_File
  imports Mutation_Wire Ticket_File
begin

text \<open>
  The bytes of a mutation envelope (\<^verbatim>\<open>mutation.Decode\<close> and \<^verbatim>\<open>Envelope.Value\<close>): what the decoder accepts is
  the rendering of the typed envelope, addressed as the planner expects. A request to release a hold is
  the document on which the property is instantiated.
\<close>

subsection \<open>A sample envelope\<close>

definition release_actor :: object where
  "release_actor = [(''id'', VString ''op''), (''role'', VString ''OWNER'')]"

definition release_payload :: object where
  "release_payload = [(''holdId'', VString ''op'')]"

definition release_file :: object where
  "release_file = [(''actor'', VObject release_actor), (''expectedRevision'', VString ''1''),
     (''issuedAt'', VString ''2026-01-01T00:00:00Z''), (''operation'', VString ''RELEASE_HOLD''), (''payload'', VObject release_payload),
     (''profile'', VString MutationProfile), (''queueId'', VString ''queue:a:q''), (''requestId'', VString ''queue:a:q''),
     (''targetId'', VString ''ticket:a:q:T1'')]"

definition release_envelope :: "string \<Rightarrow> MutationEnvelope" where
  "release_envelope raw = \<lparr>me_RequestID = ''queue:a:q'', me_Actor = \<lparr>act_ID = ''op'', act_Role = ''OWNER''\<rparr>,
     me_QueueID = \<lparr>q_Raw = ''queue:a:q'', q_Authority = ''a'', q_Queue = ''q''\<rparr>,
     me_TargetID = Some \<lparr>t_Raw = ''ticket:a:q:T1'', t_Authority = ''a'', t_Queue = ''q'', t_Local = ''T1''\<rparr>,
     me_ExpectedRevision = Some ''1'', me_Operation = ''RELEASE_HOLD'', me_Payload = Some (ReleaseHoldP ''op''),
     me_IssuedAt = ''2026-01-01T00:00:00Z'', me_Raw = raw\<rparr>"

lemma release_get:
  "obj_Get release_file ''actor'' = Some (VObject release_actor)" "obj_Get release_file ''expectedRevision'' = Some (VString ''1'')"
  "obj_Get release_file ''issuedAt'' = Some (VString ''2026-01-01T00:00:00Z'')"
  "obj_Get release_file ''operation'' = Some (VString ''RELEASE_HOLD'')" "obj_Get release_file ''payload'' = Some (VObject release_payload)"
  "obj_Get release_file ''profile'' = Some (VString MutationProfile)" "obj_Get release_file ''queueId'' = Some (VString ''queue:a:q'')"
  "obj_Get release_file ''requestId'' = Some (VString ''queue:a:q'')" "obj_Get release_file ''targetId'' = Some (VString ''ticket:a:q:T1'')"
  "obj_Get release_actor ''id'' = Some (VString ''op'')" "obj_Get release_actor ''role'' = Some (VString ''OWNER'')"
  "obj_Get release_payload ''holdId'' = Some (VString ''op'')"
  by (simp_all add: release_file_def release_actor_def release_payload_def obj_Get_def del: obj_Get_None)

lemma release_closed:
  "closed_ok envelopeKeys release_file" "closed_ok [''id'', ''role''] release_actor" "closed_ok [''holdId''] release_payload"
  by code_simp+

lemma release_within: "within_bounds (VObject release_file)"
  by (auto simp: within_bounds_def release_file_def release_actor_def release_payload_def MutationProfile_def limit_defs plainASCII_def
      input_options_def intro!: clean_plain)

lemma release_sorted: "sorted_val (VObject release_file)"
  by (simp add: release_file_def release_actor_def release_payload_def)

lemma release_queue:
  "dec_with ParseQueueID loc (VString ''queue:a:q'') = Inr \<lparr>q_Raw = ''queue:a:q'', q_Authority = ''a'', q_Queue = ''q''\<rparr>"
proof -
  have "isTokenByte (CHR ''a'') True" "isTokenByte (CHR ''q'') True" by code_simp+
  then show ?thesis by (simp add: dec_with_def dec_string_def ParseQueueID_def checkIDLength_def limit_defs ParseToken_def)
qed

lemma release_members: "''OWNER'' \<in> set Roles" "''RELEASE_HOLD'' \<in> set Operations"
  by code_simp+

lemmas release_simps = sample_simps payload_prog release_get release_queue release_members TicketOrNull_inverse.stuck

lemma release_read:
  "yields (read_envelope raw \<lparr>r_v = VObject release_file, r_where = ''/''\<rparr>) ((release_envelope raw)\<lparr>me_Payload := None\<rparr>)"
proof -
  have rid: "yields (readRequestID \<lparr>r_v = VString ''queue:a:q'', r_where = loc\<rparr>) ''queue:a:q''" for loc
    by (simp add: readRequestID_def release_simps MaxRequestIDBytes_def) (auto simp: yields_return)
  have claim: "yields (read_claim \<lparr>r_v = VObject release_actor, r_where = loc\<rparr>) \<lparr>act_ID = ''op'', act_Role = ''OWNER''\<rparr>" for loc
    using release_closed(2) by (simp add: read_claim_def payload_prog del: yields_at) (simp add: release_simps del: obj_Get_None)
  have target: "yields (rd_unless_null rd_TicketID \<lparr>r_v = VString ''ticket:a:q:T1'', r_where = loc\<rparr>) (me_TargetID (release_envelope raw))" for loc
    by (simp add: rd_unless_null_def IsNull_def rd_some_def release_simps release_envelope_def)
  show ?thesis
    using rid claim target
    by (simp add: read_envelope_def payload_prog release_envelope_def del: yields_at) (simp add: release_simps del: obj_Get_None)
qed

lemma release_accepted: "mutation_FromValue raw (VObject release_file) = Inr (release_envelope raw)"
proof -
  let ?r = "\<lparr>r_v = VObject release_file, r_where = ''/''\<rparr>"
  have pr: "fst (run_state (rd_at ''profile'' rd_String ?r) fresh) = MutationProfile"
    by (simp add: rd_at_def rd_Field_def rd_String_def rd_child_def fresh_def release_get del: obj_Get_None)
  have pv: "ProfileVersion ''/profile'' (VObject release_file) MutationProfile = Inr ()"
    by (simp add: ProfileVersion_def otherVersion_def CheckProfile_def release_get del: obj_Get_None)
  have cl: "run_reader (rd_Closed envelopeKeys ?r) = Inr ()"
    using release_closed(1) by (simp add: run_reader_Inr Closed_reader.is_sticky Closed_reader.yields_dec dec_closed_iff)
  have rd: "run_reader (read_envelope raw ?r) = Inr ((release_envelope raw)\<lparr>me_Payload := None\<rparr>)"
    using release_read by (simp add: run_reader_Inr sticky_envelope)
  have ca: "check_address ((release_envelope raw)\<lparr>me_Payload := None\<rparr>) = Inr ()"
    by (simp add: check_address_def release_envelope_def OpCreate_def TicketID_QueueID_def)
  have fl: "run_reader (rd_Field ''payload'' ?r) = Inr \<lparr>r_v = VObject release_payload, r_where = child_loc ''/'' ''payload''\<rparr>"
    by (simp add: run_reader_Inr sticky_Field) (simp add: run_simps release_get del: obj_Get_None)
  have pd: "payload_reader ''RELEASE_HOLD'' = Some (read_closed OpReleaseHold (\<lambda>r. do { h \<leftarrow> rd_at ''holdId'' rd_Label r; return (ReleaseHoldP h) }))"
    by (simp add: payload_reader_def op_defs)
  have py: "run_reader (read_closed OpReleaseHold (\<lambda>r. do { h \<leftarrow> rd_at ''holdId'' rd_Label r; return (ReleaseHoldP h) })
      \<lparr>r_v = VObject release_payload, r_where = loc\<rparr>) = Inr (ReleaseHoldP ''op'')" for loc
    using release_closed(3)
    by (simp add: run_reader_Inr read_closed_def payload_prog PayloadKeys_simps) (simp add: release_simps del: obj_Get_None)
  show ?thesis
    using pd py [of "child_loc ''/'' ''payload''"] ca [unfolded release_envelope_def, simplified]
    by (simp add: mutation_FromValue_def Let_def NewReader_def pr pv cl rd fl CheckProfile_def decodePayload_def release_envelope_def)
qed

lemma release_decodes:
  "mutation_Decode (EncodeFile (VObject release_file)) = Inr (release_envelope (EncodeFile (VObject release_file)))"
proof -
  have "Parse (EncodeFile (VObject release_file)) = Inr (VObject release_file)"
    using release_within release_sorted by (simp add: Parse_iff)
  moreover have "length (EncodeFile (VObject release_file)) \<le> MaxMutationEnvelopeBytes"
  proof -
    have "distinct_val (VObject release_file)" using release_within fits_distinct by (auto simp: within_bounds_def)
    then have "length (enc (VObject release_file)) \<le> weight (VObject release_file)" by (rule enc_weight)
    also have "\<dots> \<le> 100000" by (simp add: release_file_def release_actor_def release_payload_def MutationProfile_def)
    finally show ?thesis by (simp add: EncodeFile_eq limit_defs)
  qed
  ultimately show ?thesis by (simp add: mutation_Decode_def release_accepted)
qed

subsection \<open>The round trip\<close>

text \<open>
  C14: an accepted request is determined by its typed envelope. For every operation but those of the
  obligation ledger, rendering the decoded envelope gives back the bytes, which are within the bound, so
  the digest under which the request is recorded is a function of what was decided on; the payload is
  one of the operation; exactly CREATE has no target, the revision is open only for CREATE, notes and
  reviews, and the target lies in the queue of the envelope.
\<close>

theorem mutation_Decode_inverse:
  assumes "mutation_Decode raw = Inr e" "\<not> IsObligationOperation (me_Operation e)"
  shows "EncodeFile (Envelope_Value e) = raw \<and> me_Raw e = raw \<and> length raw \<le> MaxMutationEnvelopeBytes \<and>
    (\<exists>p. me_Payload e = Some p \<and> payload_operation p = me_Operation e) \<and>
    (me_TargetID e = None \<longleftrightarrow> me_Operation e = OpCreate) \<and>
    (me_ExpectedRevision e = None \<longrightarrow> me_Operation e = OpCreate \<or> IsNoteOperation (me_Operation e) \<or> IsReviewOperation (me_Operation e)) \<and>
    (\<forall>t. me_TargetID e = Some t \<longrightarrow> TicketID_QueueID t = q_Raw (me_QueueID e))"
proof -
  obtain v where v: "Parse raw = Inr v" "mutation_FromValue raw v = Inr e" "length raw \<le> MaxMutationEnvelopeBytes"
    using assms(1) by (auto simp: mutation_Decode_def split: if_splits)
  have "distinct_val v" using v(1) fits_distinct by (auto simp: Parse_iff within_bounds_def)
  note read = mutation_FromValue_read [OF v(2) this assms(2)]
  have "EncodeFile (Envelope_Value e) = raw" using EncodeFile_canon [OF v(1)] read by simp
  moreover have "(me_TargetID e = None \<longleftrightarrow> me_Operation e = OpCreate) \<and>
    (me_ExpectedRevision e = None \<longrightarrow> me_Operation e = OpCreate \<or> IsNoteOperation (me_Operation e) \<or> IsReviewOperation (me_Operation e)) \<and>
    (\<forall>t. me_TargetID e = Some t \<longrightarrow> TicketID_QueueID t = q_Raw (me_QueueID e))"
    using read by (auto simp: check_address_def split: if_splits option.splits)
  ultimately show ?thesis using read v(3) by simp
qed

theorem mutation_Decode_inverse_witness:
  "EncodeFile (Envelope_Value (release_envelope (EncodeFile (VObject release_file)))) = EncodeFile (VObject release_file)"
  using mutation_Decode_inverse [OF release_decodes]
  by (simp add: release_envelope_def IsObligationOperation_def op_defs)

end
