(* ===== verification/Planner_Answers.thy ===== *)
theory Planner_Answers
  imports Planner Mutation_File
begin

text \<open>
  The planner on decoded envelopes: what the decoder guarantees of an envelope is what the planner follows
  without a check, so a decoded envelope always gets a plan.
\<close>

subsection \<open>Decoded envelopes\<close>

lemma obligations_decoded:
  assumes "run_reader (rd f) = Inr p" "payload_reader op = Some rd" "IsObligationOperation op"
  shows "\<exists>q. p = ObligationsP q"
proof -
  have "rd = (\<lambda>r. do { q \<leftarrow> readObligations op r; return (ObligationsP q) })"
    using assms(2,3) by (auto simp: payload_reader_def IsObligationOperation_def IsNoteOperation_def IsReviewOperation_def op_defs split: if_splits)
  then show ?thesis using assms(1) by (auto simp: run_reader_def split: prod.splits option.splits)
qed

lemma decoded_addressed:
  assumes "mutation_Decode raw = Inr env"
  shows "addressed env"
proof -
  obtain v where v: "mutation_FromValue raw v = Inr env" using assms by (auto simp: mutation_Decode_def split: if_splits)
  obtain e f p where e: "check_address e = Inr ()" "decodePayload (me_Operation e) f = Inr p" "env = e\<lparr>me_Payload := Some p\<rparr>"
    using v unfolding mutation_FromValue_def Let_def by auto
  obtain rd where "payload_reader (me_Operation e) = Some rd" "run_reader (rd f) = Inr p"
    using e(2) by (auto simp: decodePayload_def split: option.splits)
  then have "IsObligationOperation (me_Operation e) \<longrightarrow> (\<exists>q. p = ObligationsP q)" using obligations_decoded by blast
  then show ?thesis using e(1,3) by (auto simp: addressed_def check_address_def split: if_splits option.splits)
qed

subsection \<open>Answers\<close>

lemma loader_answers:
  assumes "NewLazyInventory queue records closed = Some (Inr iv)" "\<And>s. s \<in> set closed \<Longrightarrow> \<exists>r. load s = Inr r"
  shows "fst (inv_Get load raw iv) \<noteq> Inl e"
proof -
  note L = NewLazyInventory_over [OF assms(1)]
  have d: "distinct (map (\<lambda>s. t_Raw (sm_TicketID s)) (map SummaryOf records @ closed))" using L(1) by (simp only: inv_over_def queue_ok_def)
  have sm: "inv_sum iv = map_of (map (\<lambda>s. (t_Raw (sm_TicketID s), s)) (map SummaryOf records @ closed))"
    using L(1) by (simp only: inv_over_def)
  have "\<exists>r. load (the (inv_sum iv raw)) = Inr r" if held: "inv_lazy iv raw = Some l" for l
  proof -
    have "raw \<in> (\<lambda>s. t_Raw (sm_TicketID s)) ` set closed"
      using held L(5) by (force dest: map_of_SomeD)
    then obtain s where s: "s \<in> set closed" "raw = t_Raw (sm_TicketID s)" by blast
    have "inv_sum iv raw = Some s" unfolding sm s(2) using map_of_raw [OF d, of s "\<lambda>s. s"] s(1) by simp
    then show ?thesis using assms(2) [OF s(1)] by simp
  qed
  moreover have "inv_lazy iv raw = Some l \<Longrightarrow> l = None" for l using L(5) by (auto dest: map_of_SomeD)
  ultimately show ?thesis
    by (fastforce simp: inv_Get_def materialize_def Let_def split: option.splits)
qed

text \<open>
  C19: the planner always answers a decoded request. On an inventory that was built, whose closed records
  the loader can read back, every envelope the decoder accepts gets a plan: the dependency search returns,
  no record fails to load, no nil pointer is followed, and every refusal is reported in a plan.
\<close>

theorem Apply_answers:
  assumes "mc_Inventory ctx = Some iv" "NewLazyInventory queue records closed = Some (Inr iv)"
    and "\<And>s. s \<in> set closed \<Longrightarrow> \<exists>r. x_Load X s = Inr r"
    and "mutation_Decode raw = Inr env"
  shows "\<exists>plan. Apply X ctx (Some env) = Inr plan"
proof (cases "Apply X ctx (Some env)")
  case (Inl s)
  have "allowed X ctx s" "\<And>o1 c. s \<noteq> Refuse o1 c"
    using reported_Apply [OF decoded_addressed [OF assms(4)], of X ctx] Inl by (auto simp: reported_def)
  moreover have "fst (inv_Get (x_Load X) raw iv) \<noteq> Inl e" for raw e by (rule loader_answers [OF assms(2,3)])
  moreover have "CheckDependencies iv work \<noteq> None" for work
    using CheckDependencies_eq [OF inv_over_finite [OF NewLazyInventory_over(1) [OF assms(2)]], of work] by auto
  ultimately show ?thesis using assms(1) by (cases s) (auto simp: allowed_def)
qed simp

theorem Apply_answers_witness:
  "\<exists>plan. Apply sample_externals (sample_context ''OWNER'' [file_record] (\<lambda>_. Inr None))
    (Some (release_envelope (EncodeFile (VObject release_file)))) = Inr plan"
  by (rule Apply_answers [OF _ sample_built(1) _ release_decodes]) (simp_all add: sample_context_def)

end
