(* ===== verification/Write_Sample.thy ===== *)
theory Write_Sample
  imports Planner_Sample Obligation_Sample
begin

text \<open>
  A concrete obligation write: an open ticket without a ledger, and the owner's seed of one obligation. The
  request is the sample document of \<^verbatim>\<open>Obligation_Sample\<close>, so the derived event is its first event.
\<close>

definition write_externals :: Externals where
  "write_externals = sample_externals\<lparr>x_Sum := const_sha\<rparr>"

definition open_record :: Record where
  "open_record = file_record\<lparr>rec_Status := ''OPEN''\<rparr>"

definition seeded_record :: Record where
  "seeded_record = open_record\<lparr>rec_ObligationsRef := Some sample_reference, rec_Revision := ''2'', rec_PreviousRecordSha256 := Some zeros\<rparr>"

definition open_identity :: Record where
  "open_identity = (file_identity zero_Record)\<lparr>rec_Status := ''OPEN''\<rparr>"

definition seeded_optional :: Record where
  "seeded_optional = zero_Record\<lparr>rec_ObligationsRef := Some sample_reference\<rparr>"

definition seeded_identity :: Record where
  "seeded_identity = (file_identity seeded_optional)\<lparr>rec_Status := ''OPEN'', rec_Revision := ''2'', rec_PreviousRecordSha256 := Some zeros\<rparr>"

subsection \<open>Both records are valid\<close>

lemma open_reads_optional:
  "yields (read_optional_members \<lparr>r_v = Record_Value open_record, r_where = ''/''\<rparr> zero_Record) zero_Record"
  by (rule run_reader_Inr [THEN iffD1], rule sticky_groups, code_simp)

lemma open_reads_identity:
  "yields (read_identity \<lparr>r_v = Record_Value open_record, r_where = ''/''\<rparr> zero_Record) open_identity"
  by (rule run_reader_Inr [THEN iffD1], rule sticky_groups, code_simp)

lemma open_reads_planning:
  "yields (read_planning \<lparr>r_v = Record_Value open_record, r_where = ''/''\<rparr> open_identity) (file_planning open_identity)"
  by (rule run_reader_Inr [THEN iffD1], rule sticky_groups, code_simp)

lemma open_reads_execution:
  "yields (read_execution \<lparr>r_v = Record_Value open_record, r_where = ''/''\<rparr> (file_planning open_identity)) (file_execution (file_planning open_identity))"
  by (rule run_reader_Inr [THEN iffD1], rule sticky_groups, code_simp)

lemma open_reads_tail:
  "yields (read_tail \<lparr>r_v = Record_Value open_record, r_where = ''/''\<rparr> (file_execution (file_planning open_identity))) open_record"
  by (rule run_reader_Inr [THEN iffD1], rule sticky_groups, code_simp)

lemmas open_reads = open_reads_optional open_reads_identity open_reads_planning open_reads_execution open_reads_tail

lemma seeded_reads_optional:
  "yields (read_optional_members \<lparr>r_v = Record_Value seeded_record, r_where = ''/''\<rparr> zero_Record) seeded_optional"
  by (rule run_reader_Inr [THEN iffD1], rule sticky_groups, code_simp)

lemma seeded_reads_identity:
  "yields (read_identity \<lparr>r_v = Record_Value seeded_record, r_where = ''/''\<rparr> seeded_optional) seeded_identity"
  by (rule run_reader_Inr [THEN iffD1], rule sticky_groups, code_simp)

lemma seeded_reads_planning:
  "yields (read_planning \<lparr>r_v = Record_Value seeded_record, r_where = ''/''\<rparr> seeded_identity) (file_planning seeded_identity)"
  by (rule run_reader_Inr [THEN iffD1], rule sticky_groups, code_simp)

lemma seeded_reads_execution:
  "yields (read_execution \<lparr>r_v = Record_Value seeded_record, r_where = ''/''\<rparr> (file_planning seeded_identity)) (file_execution (file_planning seeded_identity))"
  by (rule run_reader_Inr [THEN iffD1], rule sticky_groups, code_simp)

lemma seeded_reads_tail:
  "yields (read_tail \<lparr>r_v = Record_Value seeded_record, r_where = ''/''\<rparr> (file_execution (file_planning seeded_identity))) seeded_record"
  by (rule run_reader_Inr [THEN iffD1], rule sticky_groups, code_simp)

lemmas seeded_reads = seeded_reads_optional seeded_reads_identity seeded_reads_planning seeded_reads_execution seeded_reads_tail

lemma write_closed:
  "closed_ok (OptionalKeys (Record_Value open_record) TicketRecordKeys TicketRecordOptionalKeys) (record_members open_record)"
  "closed_ok (OptionalKeys (Record_Value seeded_record) TicketRecordKeys TicketRecordOptionalKeys) (record_members seeded_record)"
  by code_simp+

lemma write_valid: "validate False open_record = Inr ()" "validate False seeded_record = Inr ()"
  by code_simp+

lemma write_small: "length (Record_Encode seeded_record) \<le> MaxTicketFileBytes"
  by code_simp

lemma open_fields:
  "rec_TicketID open_record = sample_ticket" "rec_Status open_record = StatusOpen" "rec_Revision open_record = ''1''"
  "rec_AcceptanceRevision open_record = ''1''" "rec_ObligationsRef open_record = None" "s_Kind (rec_Source open_record) = ''NATIVE''"
  "\<not> rec_ShadowOverlay open_record" "rec_OperatorNote open_record = None" "rec_ExternalReviews open_record = []"
  "rec_Escalations open_record = None" "rec_RequiresPool open_record = []"
  by (simp_all add: open_record_def file_record_def file_tail_def file_execution_def file_planning_def file_identity_def zero_Record_def
      sample_ticket_def StatusOpen_def)

lemma open_reads_back: "FromValue False (Record_Value open_record) = Inr open_record"
  by (rule record_reads [OF group_reads [OF open_reads] write_closed(1) open_fields(8-10) write_valid(1)])

lemma seeded_reads_back: "FromValue False (Record_Value seeded_record) = Inr seeded_record"
  by (rule record_reads [OF group_reads [OF seeded_reads] write_closed(2) _ _ _ write_valid(2)])
    (simp_all add: seeded_record_def open_fields)

subsection \<open>The write\<close>

definition write_envelope :: MutationEnvelope where
  "write_envelope = \<lparr>me_RequestID = ''queue:a:q'', me_Actor = \<lparr>act_ID = ''op'', act_Role = ''OWNER''\<rparr>, me_QueueID = sample_queue,
     me_TargetID = Some sample_ticket, me_ExpectedRevision = Some ''1'', me_Operation = OpObligationsSeed,
     me_Payload = Some (ObligationsP (oq_Payload (seed_request []))), me_IssuedAt = ''2026-01-01T00:00:00Z'',
     me_Raw = EncodeFile (VObject seed_file)\<rparr>"

abbreviation write_context :: MutationContext where
  "write_context \<equiv> sample_context ''OWNER'' [open_record] (\<lambda>_. Inr None)"

definition write_plan :: Plan where
  "write_plan = completed ((start_plan write_externals write_envelope)\<lparr>pn_Pre := Some open_record, pn_DerivedEvent := Some event_raw\<rparr>) seeded_record"

lemma open_built: "NewLazyInventory sample_queue [open_record] [] = Some (Inr (planner_inventory [open_record]))"
proof -
  have "queue_ok sample_queue (map SummaryOf [open_record])"
    by (simp add: queue_ok_def open_fields sample_ticket_def sample_queue_def TicketID_QueueID_def SummaryOf_def)
  then obtain iv where "NewLazyInventory sample_queue [open_record] [] = Some (Inr iv)"
    using NewLazyInventory_ok [of "[open_record]" "[]" sample_queue] by (auto simp: MaxTicketsPerQueue_def)
  then show ?thesis by (simp add: planner_inventory_def)
qed

lemma open_target: "ctx_Get X write_context ''ticket:a:q:T1'' = Inr (Some open_record)"
  using NewLazyInventory_over(4) [OF open_built]
  by (simp add: ctx_Get_def sample_context_def inv_Get_def open_fields sample_ticket_def)

lemma open_ids: "inv_IDs (ctx_Inventory write_context) = [''ticket:a:q:T1'']"
  using NewLazyInventory_over(1) [OF open_built]
  by (simp add: inv_over_def inv_IDs_def sample_context_def SummaryOf_def open_fields sample_ticket_def)

lemma write_trusted: "trusted write_context write_envelope = Inr ()"
proof -
  have "ParseLabel ''/binding/id'' ''op'' = Inr ''op''" by (simp add: ParseLabel_def parseText_plain plainASCII_def limit_defs)
  moreover have "ParseTimestamp ''/context/now'' ''2026-01-01T00:00:00Z'' = Inr ''2026-01-01T00:00:00Z''" by code_simp
  moreover have "inv_QueueID (planner_inventory [open_record]) = sample_queue" by (rule NewLazyInventory_over(2) [OF open_built])
  ultimately show ?thesis
    by (simp add: trusted_def binding_validate_def checkInputs_def sample_context_def write_envelope_def Roles_def planner_queue_def)
qed

lemma write_checks: "obligation_checks write_externals write_context open_record (oq_Payload (seed_request [])) = Inr None"
proof -
  have "prefix_loop write_externals write_context open_record p [''ticket:a:q:T1''] = Inr ()" for p
    using open_target [of write_externals] by (simp add: declares_prefix_def)
  then have "first_write write_externals write_context open_record (oq_Payload (seed_request [])) = Inr ()"
    unfolding first_write_def open_ids by (simp add: seed_request_def)
  then show ?thesis
    by (simp add: obligation_checks_def seed_request_def obligationAuthority_def prior_ledger_def open_fields report_check_def screenObligations_def
        list_ex_iff screenValues_def ledger_revision_def ObligationsMaxEvents_def write_externals_def)
      (simp add: sample_context_def sample_externals_def)
qed

lemma write_event: "Event_Encode const_sha (derived_event write_externals open_record write_envelope) = Inr event_raw"
proof -
  let ?e = "derived_event write_externals open_record write_envelope"
  have one: "CountOf 1 = ''1''" by code_simp
  have e: "event_value ?e (VObject seed_file) = VObject [(''profile'', VString ObligationEventProfile), (''ticketId'', VString ''ticket:a:q:T1''),
      (''revision'', VString ''1''), (''previous'', VNull), (''requestSha256'', VString zeros), (''request'', VObject seed_file)]"
    by (simp add: event_value_def derived_event_def open_fields sample_ticket_def ledger_revision_def one write_externals_def const_sha_def StringOrNull_def)
  have "canon (VObject event_file) = canon (event_value ?e (VObject seed_file))"
    unfolding e by (simp add: canon_object event_file_def)
  then have "EncodeFile (event_value ?e (VObject seed_file)) = event_raw" by (rule EncodeFile_canon [OF docs_parse(1)])
  then show ?thesis using docs_parse(2) event_decodes
    by (simp add: Event_Encode_def Let_def) (simp add: derived_event_def write_envelope_def)
qed

lemma write_reference: "next_reference write_context open_record p zeros seeded_ledger = sample_reference"
proof -
  have one: "CountOf 1 = ''1''" by code_simp
  have "ledger_Counts (Some seeded_ledger) = ob_Counts sample_reference"
    by (simp add: ledger_Counts_def seeded_ledger_def zero_Counts_def count_entry_def Let_def seed_entry_def stamp_def sample_reference_def
        obligation_state_defs)
  then show ?thesis
    by (cases p) (simp_all add: next_reference_def Let_def seeded_fields one high_water_def last_raise_def open_fields, simp_all add: sample_reference_def sample_context_def)
qed

lemma write_finalize:
  "finalize write_externals write_context open_record (open_record\<lparr>rec_ObligationsRef := Some sample_reference\<rparr>) False = Inr seeded_record"
proof -
  let ?w = "open_record\<lparr>rec_ObligationsRef := Some sample_reference\<rparr>"
  have same: "obj_Get (record_members ?w) k = obj_Get (record_members open_record) k" if "k \<noteq> ''obligations''" for k
    using get_kept [of k "set [''obligations'']" "record_members ?w"] get_kept [of k "set [''obligations'']" "record_members open_record"] that
    by (simp add: record_members_def kept_optional)
  have "acceptanceChanged open_record ?w \<longleftrightarrow> acceptanceChanged open_record open_record"
    by (rule relevant_changed, rule relevant_fields) simp_all
  then have "\<not> acceptanceChanged open_record ?w" by (simp add: acceptanceChanged_def list_ex_iff unchanged_same)
  moreover have "CountOf (Count_Int ''1'' + 1) = ''2''" "Count_Int ''1'' + 1 \<le> int MaxCountValue" by code_simp+
  moreover have "checkRecord write_externals write_context (Some open_record) ?w = Inr ()"
  proof -
    have "\<not> fieldChanged open_record ?w k" if "k \<noteq> ''obligations''" for k
      by (rule unchanged_same) (simp add: same [OF that])
    then show ?thesis by (simp add: checkRecord_def Let_def changed_def open_fields)
  qed
  moreover have "chained write_externals write_context open_record ?w ''2'' ''1'' = seeded_record"
    by (simp add: chained_def write_externals_def sample_externals_def const_sha_def FileDigest_def sample_context_def seeded_record_def)
      (simp add: open_record_def file_record_def file_tail_def file_execution_def file_planning_def file_identity_def zero_Record_def)
  moreover have "revalidate write_externals seeded_record = Inr ()"
    using seeded_reads_back write_small by (simp add: revalidate_Inr write_externals_def sample_externals_def)
  ultimately show ?thesis by (simp add: finalize_Inr Let_def open_fields del: revalidate_Inr)
qed

lemma write_applies: "Apply write_externals write_context (Some write_envelope) = Inr write_plan"
proof -
  let ?p = "oq_Payload (seed_request [])"
  have e: "me_RequestID write_envelope = ''queue:a:q''" "me_TargetID write_envelope = Some sample_ticket" "me_ExpectedRevision write_envelope = Some ''1''"
    "me_Operation write_envelope = OpObligationsSeed" "me_Payload write_envelope = Some (ObligationsP ?p)"
    by (simp_all add: write_envelope_def)
  have op: "\<not> IsNoteOperation OpObligationsSeed" "\<not> IsReviewOperation OpObligationsSeed" "IsObligationOperation OpObligationsSeed" "OpObligationsSeed \<noteq> OpCreate"
    by (simp_all add: IsNoteOperation_def IsReviewOperation_def IsObligationOperation_def op_defs)
  have pay: "payload_operation (ObligationsP ?p) = OpObligationsSeed"
    by (simp add: payload_operation_def seed_request_def obligations_operation_def)
  have role: "checkRole write_context OpObligationsSeed = Inr ()"
    by (simp add: checkRole_def permittedOps_def sample_context_def planner_policy_def DefaultRoleMatrix_def Operations_def op_defs)
  have replay: "replay (mc_Requests write_context) rid d = None" for rid d by (simp add: replay_def sample_context_def)
  have target: "ctx_Target write_externals write_context write_envelope = Inr (Some open_record)"
    using open_target by (simp add: ctx_Target_def e sample_ticket_def)
  have x: "x_Sum write_externals = const_sha" "const_sha event_raw = zeros" "clone write_externals open_record = Inr open_record"
    using open_reads_back by (simp_all add: write_externals_def sample_externals_def const_sha_def clone_def)
  have "rec_Revision seeded_record = ''2''" "rec_AcceptanceRevision seeded_record = rec_AcceptanceRevision open_record"
    by (simp_all add: seeded_record_def)
  moreover have "Count_Int ''2'' = Count_Int ''1'' + 1" by code_simp
  ultimately have adv: "advances_only open_record seeded_record = Inr ()" by (simp add: advances_only_def open_fields)
  have "obligation_write write_externals write_context open_record write_envelope ?p = Inr (seeded_record, Some event_raw)"
    using write_checks write_event event_decodes seeded_applies write_finalize write_reference [of ?p] adv x by (simp add: obligation_write_def)
  then have post: "obligations_post write_externals write_context open_record write_envelope = Inr (seeded_record, Some event_raw)"
    by (simp add: obligations_post_def write_state_Inr e open_fields obligations_of_def)
  have "dispatch write_externals write_context plan write_envelope =
      Inr (completed (plan\<lparr>pn_Pre := Some open_record, pn_DerivedEvent := Some event_raw\<rparr>) seeded_record)" for plan
    using target post by (simp add: dispatch_def obligations_def or_refused_def e op pay Let_def)
  then show ?thesis
    using write_trusted role replay by (simp add: Apply_def Let_def or_refused_def write_plan_def e op)
qed

end
