(* ===== verification/Obligation_Commit.thy ===== *)
theory Obligation_Commit
  imports Obligation_Write Obligation_Chain Obligation_File Write_Sample
begin

text \<open>
  What an accepted obligation write leaves behind: the event it derives retains the request, and the
  reference of the new record folds over the old chain and that event to the ledger the event gives.
\<close>

subsection \<open>The derived event\<close>

text \<open>Decoding an encoded event gives back its members and its request.\<close>

lemma encoded_event:
  assumes "Event_Encode sha256 e = Inr raw" "DecodeObligationEvent sha256 raw = Inr d"
  shows "t_Raw (oe_TicketID d) = t_Raw (oe_TicketID e)" "oe_Revision d = oe_Revision e" "oe_Previous d = oe_Previous e"
    "oe_Request d = oe_Request e"
proof -
  obtain q where q: "Parse (oe_Request e) = Inr q" "raw = EncodeFile (event_value e q)"
    using assms(1) by (auto simp: Event_Encode_def Let_def)
  have dq: "distinct_val q" "canon q = q" "oe_Request e = EncodeFile q"
    using q(1) fits_distinct canon_sorted by (auto simp: Parse_iff within_bounds_def)
  obtain v r t rev pv sha where v: "Parse raw = Inr v" "open_document ''/'' ''/profile'' event_keys ObligationEventProfile v = Inr r"
      "run_reader (read_event_head r) = Inr (t, rev, pv, sha)"
      "d = \<lparr>oe_TicketID = t, oe_Revision = rev, oe_Previous = pv, oe_RequestSha256 = sha,
         oe_Request = EncodeFile (case field_value v ''request'' of Some w \<Rightarrow> w | None \<Rightarrow> VNull), oe_Decoded = oe_Decoded d\<rparr>"
    using assms(2) by (auto simp: DecodeObligationEvent_def Let_def split: if_splits)
  have "v = canon (event_value e q)"
    using v(1) ParseWith_encoded [of "event_value e q"] dq(1) unfolding q(2) Parse_def
    by (cases "oe_Previous e") (auto simp: event_value_def StringOrNull_def)
  then obtain kvs where k: "v = VObject kvs" "kvs = sort_key fst [(''profile'', VString ObligationEventProfile), (''ticketId'', VString (t_Raw (oe_TicketID e))),
     (''revision'', VString (oe_Revision e)), (''previous'', StringOrNull (oe_Previous e)),
     (''requestSha256'', VString (oe_RequestSha256 e)), (''request'', q)]"
    using dq(2) by (cases "oe_Previous e") (simp_all add: event_value_def StringOrNull_def canon_object)
  have kv: "kvs = [(''previous'', StringOrNull (oe_Previous e)), (''profile'', VString ObligationEventProfile), (''request'', q),
     (''requestSha256'', VString (oe_RequestSha256 e)), (''revision'', VString (oe_Revision e)), (''ticketId'', VString (t_Raw (oe_TicketID e)))]"
    unfolding k(2) by simp
  have wf: "wf_obj kvs" using v(1) fits_distinct by (auto simp: wf_obj_def k(1) Parse_iff within_bounds_def)
  have "r_v r = VObject kvs" using open_document_ok [OF v(2)] k(1) by (auto simp: event_keys_def ObligationEventProfile_def)
  moreover have "yields (read_event_head r) (t, rev, pv, sha)" using v(3) by (simp add: run_reader_Inr sticky_event_head)
  ultimately have m: "member kvs ''ticketId'' (VString (t_Raw t)) \<and> member kvs ''revision'' (VString rev) \<and> member kvs ''previous'' (StringOrNull pv)"
    using wf by (cases r) (auto simp: read_event_head_def prog dest!: members)
  have "t_Raw t = t_Raw (oe_TicketID e) \<and> rev = oe_Revision e \<and> pv = oe_Previous e"
    using m unfolding kv by (cases pv; cases "oe_Previous e") (auto simp: member_def StringOrNull_def obj_Get_def simp del: obj_Get_None)
  moreover have "field_value v ''request'' = Some q" unfolding k(1) kv by (simp add: field_value_def obj_Get_def del: obj_Get_None)
  ultimately show "t_Raw (oe_TicketID d) = t_Raw (oe_TicketID e)" "oe_Revision d = oe_Revision e" "oe_Previous d = oe_Previous e"
    "oe_Request d = oe_Request e"
    using dq(3) by (subst v(4), simp)+
qed

subsection \<open>The chain with the derived event\<close>

text \<open>A store of events that holds those the planner was given.\<close>

definition holds_events :: "event_reader \<Rightarrow> (string \<rightharpoonup> string) \<Rightarrow> bool" where
  "holds_events rd events \<longleftrightarrow> (\<forall>h raw. events h = Some raw \<longrightarrow> rd h = Inr (Some raw))"

lemma linked_holds:
  assumes "linked sha256 (\<lambda>h. Inr (events h)) t c" "holds_events rd events"
  shows "linked sha256 rd t c"
  using assms(1) by (induction c) (use assms(2) in \<open>auto simp: retains_def holds_events_def\<close>)

lemma extended_chain:
  assumes old: "case old of None \<Rightarrow> l = None \<and> prev = None \<and> n = 0
      | Some r \<Rightarrow> (\<exists>m. l = Some m \<and> FoldObligationChain sha256 tid r (\<lambda>h. Inr (events h)) = Inr m) \<and>
          prev = Some (ob_Head r) \<and> n = Count_Int (ob_Revision r)"
    and "n < int ObligationsMaxEvents" "holds_events rd events" "rd (sha256 blob) = Inr (Some blob)"
    and "DecodeObligationEvent sha256 blob = Inr ev" "t_Raw (oe_TicketID ev) = t_Raw tid" "oe_Previous ev = prev"
    and "ApplyObligationEvent l ev (sha256 blob) = Inr nxt"
    and "ob_Head ref = sha256 blob" "Count_Int (ob_Revision ref) = ol_Revision nxt" "ob_Prefix ref = ol_Prefix nxt"
      "ob_Counts ref = ledger_Counts (Some nxt)"
  shows "FoldObligationChain sha256 tid ref rd = Inr nxt"
proof -
  obtain evs where e: "linked sha256 rd (t_Raw tid) (rev evs)" "head_of (rev evs) = prev" "int (length evs) = n" "fold_events None evs = Inr l"
  proof (cases old)
    case None
    then show thesis using that [of "[]"] old by simp
  next
    case (Some r)
    then obtain m where m: "l = Some m" "FoldObligationChain sha256 tid r (\<lambda>h. Inr (events h)) = Inr m" "prev = Some (ob_Head r)" "n = Count_Int (ob_Revision r)"
      using old by auto
    then obtain evs where evs: "linked sha256 (\<lambda>h. Inr (events h)) (t_Raw tid) (rev evs)" "head_of (rev evs) = Some (ob_Head r)"
        "fold_events None evs = Inr (Some m)" "ol_Revision m = Count_Int (ob_Revision r)"
      by (auto simp: FoldObligationChain_iff)
    then show thesis using that [of evs] linked_holds [OF evs(1) assms(3)] folded_facts(5) [OF evs(1-3)] m by simp
  qed
  have "retains sha256 rd (t_Raw tid) (sha256 blob) ev" using assms(4-6) by (auto simp: retains_def)
  then have "linked sha256 rd (t_Raw tid) (rev (evs @ [(ev, sha256 blob)]))" using e(1,2) assms(7) by simp
  moreover have "fold_events None (evs @ [(ev, sha256 blob)]) = Inr (Some nxt)" using e(4) assms(8) by (auto simp: fold_events_append)
  moreover have "length (evs @ [(ev, sha256 blob)]) \<le> ObligationsMaxEvents" using e(3) assms(2) by simp
  ultimately show ?thesis
    unfolding FoldObligationChain_iff using assms(9-12) by (intro exI [of _ "evs @ [(ev, sha256 blob)]"]) simp
qed

subsection \<open>The reference of the new record\<close>

lemma next_reference_fields:
  "ob_Head (next_reference ctx pre p h nxt) = h" "ob_Prefix (next_reference ctx pre p h nxt) = ol_Prefix nxt"
  "ob_Counts (next_reference ctx pre p h nxt) = ledger_Counts (Some nxt)"
  "ob_Revision (next_reference ctx pre p h nxt) = CountOf (ol_Revision nxt)"
  by (simp_all add: next_reference_def Let_def)

lemma prior_ledger_Inr:
  assumes "prior_ledger X ctx pre = Inr l"
  shows "case rec_ObligationsRef pre of None \<Rightarrow> l = None \<and> map_option ob_Head (rec_ObligationsRef pre) = None \<and> ledger_revision pre = 0
      | Some r \<Rightarrow> (\<exists>m. l = Some m \<and> FoldObligationChain (x_Sum X) (rec_TicketID pre) r (\<lambda>h. Inr (mc_ObligationEvents ctx h)) = Inr m) \<and>
          map_option ob_Head (rec_ObligationsRef pre) = Some (ob_Head r) \<and> ledger_revision pre = Count_Int (ob_Revision r)"
  using assms by (auto simp: prior_ledger_def ledger_revision_def split: option.splits sum.splits)

text \<open>
  The high-water mark of witnessed obligations: it is kept per acceptance revision, never below the
  witnessed obligations and never below the mark it replaces.
\<close>

definition mark_kept :: "Record \<Rightarrow> ObligationsReference \<Rightarrow> bool" where
  "mark_kept pre ref \<longleftrightarrow> hw_AcceptanceRevision (ob_HighWater ref) = rec_AcceptanceRevision pre \<and>
     oc_Witnessed (ob_Counts ref) \<le> hw_Witnessed (ob_HighWater ref) \<and>
     (\<forall>r. rec_ObligationsRef pre = Some r \<and> hw_AcceptanceRevision (ob_HighWater r) = rec_AcceptanceRevision pre \<longrightarrow>
        hw_Witnessed (ob_HighWater r) \<le> hw_Witnessed (ob_HighWater ref))"

lemma next_reference_mark: "mark_kept pre (next_reference ctx pre p h nxt)"
  by (auto simp: mark_kept_def next_reference_def Let_def high_water_def split: option.splits)

text \<open>
  C6: an accepted obligation write extends the chain. The event it derives is canonical, retains the bytes
  of the request and belongs to the ticket; applied to the ledger of the old record, which is absent
  before the first write, it gives the next ledger. In every store that holds the events the planner was
  given and the new one under its digest, the reference of the new record folds to exactly that ledger.
  The high-water mark never falls within an acceptance revision, the last raise changes only by a worker's
  witness, and the acceptance revision stays.
\<close>

theorem Apply_obligation_chain:
  assumes "Apply X ctx (Some env) = Inr plan" "Planned plan" "IsObligationOperation (me_Operation env)"
  shows "\<exists>pre post blob ev l nxt ref. pn_Pre plan = Some pre \<and> pn_Post plan = Some post \<and> pn_DerivedEvent plan = Some blob \<and>
    DecodeObligationEvent (x_Sum X) blob = Inr ev \<and> oe_Request ev = me_Raw env \<and> t_Raw (oe_TicketID ev) = t_Raw (rec_TicketID pre) \<and>
    prior_ledger X ctx pre = Inr l \<and> ApplyObligationEvent l ev (x_Sum X blob) = Inr nxt \<and>
    rec_ObligationsRef post = Some ref \<and> ob_Head ref = x_Sum X blob \<and>
    (\<forall>rd. holds_events rd (mc_ObligationEvents ctx) \<and> rd (x_Sum X blob) = Inr (Some blob) \<longrightarrow>
       FoldObligationChain (x_Sum X) (rec_TicketID pre) ref rd = Inr nxt) \<and>
    mark_kept pre ref \<and>
    (ob_LastRaise ref \<noteq> Option.bind (rec_ObligationsRef pre) ob_LastRaise \<longrightarrow> ctx_Role ctx = ''WORKER'' \<and> me_Operation env = OpObligationsWitness) \<and>
    rec_AcceptanceRevision post = rec_AcceptanceRevision pre"
proof -
  obtain pre post ev p where w: "obligations_post X ctx pre env = Inr (post, ev)" "me_Payload env = Some (ObligationsP p)"
      "obligations_operation p = me_Operation env" "pn_Pre plan = Some pre" "pn_Post plan = Some post" "pn_DerivedEvent plan = ev"
    using planned_obligations [OF assms] by blast
  obtain l blob e nxt w0 where c: "obligation_checks X ctx pre p = Inr l" "Event_Encode (x_Sum X) (derived_event X pre env) = Inr blob"
      "ev = Some blob" "DecodeObligationEvent (x_Sum X) blob = Inr e" "ApplyObligationEvent l e (x_Sum X blob) = Inr nxt"
      "finalize X ctx pre (w0\<lparr>rec_ObligationsRef := Some (next_reference ctx pre p (x_Sum X blob) nxt)\<rparr>) False = Inr post"
      "advances_only pre post = Inr ()"
    by (rule obligations_accepted [OF w(1)]) (use w(2) in simp)
  let ?ref = "next_reference ctx pre p (x_Sum X blob) nxt"
  note d = encoded_event [OF c(2,4)]
  note checks = checks_Inr [OF c(1)]
  have ref: "rec_ObligationsRef post = Some ?ref" using c(6) unfolding finalize_Inr Let_def by (auto simp: chained_def)
  have acc: "rec_AcceptanceRevision post = rec_AcceptanceRevision pre" using c(7) by (auto simp: advances_only_def)
  have rev: "ol_Revision nxt = Count_Int (oe_Revision e)" using c(5) by (auto simp: ApplyObligationEvent_def split: if_splits)
  have fold: "FoldObligationChain (x_Sum X) (rec_TicketID pre) ?ref rd = Inr nxt"
    if "holds_events rd (mc_ObligationEvents ctx)" "rd (x_Sum X blob) = Inr (Some blob)" for rd
  proof (rule extended_chain [OF prior_ledger_Inr [OF checks(2)] checks(7) that c(4) _ _ c(5)])
    have "1 \<le> ol_Revision nxt" "ol_Revision nxt \<le> int ObligationsMaxEvents"
      using DecodeObligationEvent_ok(2,3) [OF c(4)] by (simp_all add: rev)
    then show "Count_Int (ob_Revision ?ref) = ol_Revision nxt"
      unfolding next_reference_fields by (subst Count_Int_CountOf) (simp_all add: ObligationsMaxEvents_def)
  qed (simp_all add: next_reference_fields d derived_event_def)
  have raise: "ctx_Role ctx = ''WORKER'' \<and> me_Operation env = OpObligationsWitness"
    if "ob_LastRaise ?ref \<noteq> Option.bind (rec_ObligationsRef pre) ob_LastRaise"
    using that w(3) by (auto simp: next_reference_def last_raise_def obligations_operation_def Let_def split: ObligationsPayload.splits if_splits)
  show ?thesis
    using w(4-6) c(3,4,5) d(1,4) checks(2) ref next_reference_fields(1) fold next_reference_mark acc raise
    by (intro exI [of _ pre] exI [of _ post] exI [of _ blob] exI [of _ e] exI [of _ l] exI [of _ nxt] exI [of _ ?ref]) (simp add: derived_event_def)
qed

theorem Apply_obligation_chain_witness:
  "\<exists>l. FoldObligationChain const_sha sample_ticket sample_reference sample_store = Inr l \<and> ol_Prefix l = ''AB'' \<and>
     rec_ObligationsRef seeded_record = Some sample_reference \<and> pn_DerivedEvent write_plan = Some event_raw"
proof -
  have plan: "Planned write_plan" "pn_Pre write_plan = Some open_record" "pn_Post write_plan = Some seeded_record"
    "pn_DerivedEvent write_plan = Some event_raw"
    by (simp_all add: write_plan_def completed_def Planned_def)
  have op: "IsObligationOperation (me_Operation write_envelope)" by (simp add: write_envelope_def IsObligationOperation_def op_defs)
  have x: "x_Sum write_externals = const_sha" by (simp add: write_externals_def)
  have ref: "rec_ObligationsRef seeded_record = Some sample_reference" by (simp add: seeded_record_def)
  have "holds_events sample_store (mc_ObligationEvents write_context)" "sample_store (const_sha event_raw) = Inr (Some event_raw)"
    by (simp_all add: holds_events_def sample_context_def sample_store_def const_sha_def)
  then obtain l where l: "FoldObligationChain const_sha sample_ticket sample_reference sample_store = Inr l"
    using Apply_obligation_chain [OF write_applies plan(1) op] plan(2-4) ref by (auto simp: x open_fields)
  then have "ol_Prefix l = ''AB''" by (auto simp: FoldObligationChain_iff sample_reference_def)
  then show ?thesis using l ref plan(4) by blast
qed

end
