(* ===== verification/Spec2Isabelle.thy ===== *)
theory Spec2Isabelle
  imports Envelope Ticket_View Ticket_File Obligation_File Obligation_Chain Obligation_Authority Planner_Create Planner_Worker Planner_Answers Obligation_Commit
begin

text \<open>
  Verification of Corvint Tasks, the deterministic task store of Corvint (\<^verbatim>\<open>src/internal/tasks\<close>).

  \<^bold>\<open>The program.\<close> Corvint Tasks keeps tickets, receipts and command results as canonical JSON documents.
  The package \<^verbatim>\<open>wire\<close> holds the closed code vocabulary, the numeric bounds, the value tree, the canonical
  encoder, the strict and the lenient parser, the typed document reader and the command result
  envelope. The package \<^verbatim>\<open>ticket\<close> holds the ticket record and its validation, the resource collision
  rules, the know-how ledger, the inventory of a queue with its dependency graph and the derived
  eligibility of a ticket. The package \<^verbatim>\<open>mutation\<close> plans a change of a ticket from a decoded request without performing it.
  The packages around them (\<^verbatim>\<open>store\<close>, \<^verbatim>\<open>journal\<close>, \<^verbatim>\<open>transaction\<close>, \<^verbatim>\<open>cli\<close>, \<^verbatim>\<open>dispatch\<close>)
  read and write files and run processes on top of these three.

  \<^bold>\<open>The theories, in the order of the code.\<close>
  \<^item> \<^verbatim>\<open>Prelude\<close>: the error monad \<open>'a res\<close>, \<open>named_theorems\<close>, and lemmas on lists, strings and maps.
  \<^item> \<^verbatim>\<open>Utf8\<close>: the decoding of UTF-8 that the Go string functions use.
  \<^item> \<^verbatim>\<open>Codes\<close> (\<^verbatim>\<open>wire/codes.go\<close>, \<^verbatim>\<open>retry.go\<close>, \<^verbatim>\<open>context.go\<close>): codes, wire errors with their causes, the retry table.
  \<^item> \<^verbatim>\<open>Limits\<close> (\<^verbatim>\<open>wire/limits.go\<close>): the bounds.
  \<^item> \<^verbatim>\<open>Values\<close> (\<^verbatim>\<open>wire/value.go\<close>, \<^verbatim>\<open>encode.go\<close>): values, objects, sorted sets, the canonical encoder.
  \<^item> \<^verbatim>\<open>Primitives\<close> (\<^verbatim>\<open>wire/primitives.go\<close>, \<^verbatim>\<open>ids.go\<close>): counts, sizes, digests, text, paths, timestamps, identifiers.
  \<^item> \<^verbatim>\<open>Parser\<close> (\<^verbatim>\<open>wire/parse.go\<close>) and \<^verbatim>\<open>Codec\<close>: the parser state machine, and that it inverts the encoder.
  \<^item> \<^verbatim>\<open>Reader\<close> (\<^verbatim>\<open>wire/reader.go\<close>, \<^verbatim>\<open>optional.go\<close>): the first-error-wins reader as a state monad; the locale
    \<open>field_reader\<close> is the contract of an accessor, interpreted for each of them.
  \<^item> \<^verbatim>\<open>Results\<close> and \<^verbatim>\<open>Envelope\<close> (\<^verbatim>\<open>wire/result.go\<close>, \<^verbatim>\<open>facets.go\<close>): the command result and its round trip.
  \<^item> \<^verbatim>\<open>Ticket_Keys\<close> (\<^verbatim>\<open>wire/ticketkeys.go\<close>, \<^verbatim>\<open>escalation_hold.go\<close>): rules shared by the writer and the planner.
  \<^item> \<^verbatim>\<open>Collision\<close> (\<^verbatim>\<open>ticket/collision.go\<close>): when two resource sets may not be held together; the locale
    \<open>key_order\<close> is the contract of a key hierarchy, interpreted for path prefixes.
  \<^item> \<^verbatim>\<open>Ticket_Record\<close>, \<^verbatim>\<open>Know_How\<close>, \<^verbatim>\<open>Ticket_Validate\<close> (\<^verbatim>\<open>ticket/record.go\<close>, \<^verbatim>\<open>know_how.go\<close>, \<^verbatim>\<open>prereq.go\<close>,
    \<^verbatim>\<open>attached_evidence.go\<close>, \<^verbatim>\<open>progress.go\<close>, \<^verbatim>\<open>escalation.go\<close>, \<^verbatim>\<open>obligations.go\<close>): the record, its ledger and \<^verbatim>\<open>validate\<close>.
  \<^item> \<^verbatim>\<open>Scc\<close> and \<^verbatim>\<open>Inventory\<close> (\<^verbatim>\<open>ticket/graph.go\<close>, \<^verbatim>\<open>lazy.go\<close>): the cycle search and the inventory.
  \<^item> \<^verbatim>\<open>Ticket_View\<close> (\<^verbatim>\<open>ticket/view.go\<close>): derived eligibility.
  \<^item> \<^verbatim>\<open>Inverse_Reader\<close>, \<^verbatim>\<open>Ticket_Codec\<close>, \<^verbatim>\<open>Ticket_Parts\<close>, \<^verbatim>\<open>Ticket_Roundtrip\<close>, \<^verbatim>\<open>Ticket_File\<close> (\<^verbatim>\<open>ticket/record.go\<close>
    and the files of its members): the decoder and the encoder of a ticket file; the locale
    \<open>inverse_reader\<close> is the contract of a reader whose input can be recomputed from its result,
    interpreted for every accessor and for every member of a record.
  \<^item> \<^verbatim>\<open>Mutation_Types\<close>, \<^verbatim>\<open>Value_Screen\<close>, \<^verbatim>\<open>Mutation_Step\<close>, \<^verbatim>\<open>Mutation_Final\<close>, \<^verbatim>\<open>Operator_Note\<close>, \<^verbatim>\<open>Serials\<close>,
    \<^verbatim>\<open>Obligation_Plan\<close>, \<^verbatim>\<open>Mutation_Apply\<close> (the package \<^verbatim>\<open>mutation\<close>, with \<^verbatim>\<open>ticket/operator_note.go\<close> and the queue and policy of
    \<^verbatim>\<open>intent\<close>): the planner of a mutation. A step of an operation on a working record (\<^verbatim>\<open>Context.step\<close>), the
    checks and the revision chain of \<^verbatim>\<open>finalize\<close>, notes, reviews, obligation writes, creation with serial
    allocation, and \<^verbatim>\<open>Apply\<close>.
  \<^item> \<^verbatim>\<open>Request_Index\<close> (\<^verbatim>\<open>mutation/replay.go\<close>): replay and conflict; the locale \<open>request_index\<close> is the contract of
    an append-only index, interpreted for the in-memory one.
  \<^item> \<^verbatim>\<open>Planner_Chain\<close>, \<^verbatim>\<open>Planner_Laws\<close>, \<^verbatim>\<open>Planner_Status\<close>, \<^verbatim>\<open>Go_Maps\<close>, \<^verbatim>\<open>Planner_Sample\<close>: what a step, the
    finalisation and a plan guarantee, the status transitions as a step relation, and a worked example;
    \<^verbatim>\<open>Planner\<close>, \<^verbatim>\<open>Planner_Create\<close>, \<^verbatim>\<open>Planner_Worker\<close>, \<^verbatim>\<open>Planner_Answers\<close>: the properties of the
    planner; \<^verbatim>\<open>Obligation_Write\<close>, \<^verbatim>\<open>Write_Sample\<close>, \<^verbatim>\<open>Obligation_Commit\<close>: what an accepted obligation write
    went through and leaves behind, with a worked one.
  \<^item> \<^verbatim>\<open>Mutation_Codec\<close>, \<^verbatim>\<open>Mutation_Wire\<close>, \<^verbatim>\<open>Mutation_File\<close> (\<^verbatim>\<open>mutation/mutation.go\<close>): the decoder and the renderer of a
    mutation envelope with the closed payload of every operation, and that they invert each other.
  \<^item> \<^verbatim>\<open>Obligations\<close>, \<^verbatim>\<open>Obligation_Codec\<close>, \<^verbatim>\<open>Obligation_Event\<close>, \<^verbatim>\<open>Obligation_Ledger\<close> (\<^verbatim>\<open>ticket/obligations.go\<close>,
    \<^verbatim>\<open>obligation_review.go\<close>, \<^verbatim>\<open>obligation_scope.go\<close>, \<^verbatim>\<open>obligation_mirror.go\<close>): the entries of a ticket's obligation
    ledger, the requests that change it, the events that retain them, the transition \<^verbatim>\<open>ApplyObligationEvent\<close>
    and the chain of events under a reference. \<^verbatim>\<open>Obligation_Laws\<close>, \<^verbatim>\<open>Obligation_Wire\<close> and
    \<^verbatim>\<open>Obligation_Sample\<close> hold the invariant, what an accepted request guarantees, and a worked chain;
    \<^verbatim>\<open>Obligation_File\<close>, \<^verbatim>\<open>Obligation_Chain\<close>, \<^verbatim>\<open>Obligation_Authority\<close> the properties.

  \<^bold>\<open>How the code is modelled.\<close> A Go struct is a \<open>record\<close> with prefixed fields, a pointer an \<open>option\<close>, a map a
  partial function or an association list, a byte string a \<open>string\<close>; \<open>'a res\<close> is a result with an
  error (\<open>Inl\<close>) whose code and location are those of the source; the human text of a message is left
  out where no decision reads it. \<^verbatim>\<open>int64\<close> and \<^verbatim>\<open>uint64\<close> values are integers whose ranges the code
  itself checks (\<^verbatim>\<open>ParseCount\<close>, \<^verbatim>\<open>ParseSize\<close>). Reader calls thread one shared state.

  \<^bold>\<open>What is shown.\<close> The strict parser accepts exactly the canonical documents within the bounds; encoding
  and parsing invert each other and equality of bytes is equality of values; the envelope round-trips
  and a decoded one is well formed. Validation accepts exactly the stated relationships and admits no
  false completion. The cycle search returns the strongly connected components, and the dependency
  check keeps the graph acyclic. A view blocks exactly on a condition known to fail and never treats
  an unobserved fact as satisfied. Scalars are characterised by their languages; collisions by the
  paths two sets share; ledgers by their histories.
  A ticket file is byte for byte the encoding of the record it decodes to, and a mutation request the rendering
  of its typed envelope.
  The planner keeps the revision chain and the history of a ticket, answers a recorded request only
  from the index, confines a worker, keeps the queue well formed and acyclic on creation and answers every decoded request; every
  answer is a completed plan or carries nothing to commit: a refusal, a recorded outcome, a conflict or a
  storage failure. These properties cover every operation, the obligation writes too.
  An accepted obligation write extends
  the chain of its ticket by an event that retains the request, and the new reference folds to the next
  ledger. A ledger that folds is well formed and bound to its ticket, its head commits to its contents, its core
  changes only by the entries of a seed, an explicit change or an accepted decision, and evidence comes only from a witness.
  One defect is shown: a later seed can repeat an obligation (\<^verbatim>\<open>seed_accepts_duplicate\<close>).

  \<^bold>\<open>Fuel and termination.\<close> The parser recurses on its depth bound. The cycle search has one unit of fuel
  per ticket, which is shown to be enough; the depth-first search of the dependency check is a
  \<open>partial_function\<close> that is shown to return.

  \<^bold>\<open>Parameters.\<close> The loader of a closed ticket, the gate and attempt oracles and the digest function are
  outside the modelled code and are arguments of the definitions that use them; so is the shared
  credential screen. A panic of the code is a value of its own (\<open>stop\<close>): a closed ticket that cannot be
  loaded, and a nil pointer that is followed. An envelope without a target or without an expected revision
  is such a case; the decoder accepts none where the planner reads them, which is how it always answers.

  \<^bold>\<open>Not modelled.\<close> \<^verbatim>\<open>RawProfileVersion\<close> (reads through \<^verbatim>\<open>encoding/json\<close>), the text of messages, and the
  packages that do I/O (\<^verbatim>\<open>store\<close>, \<^verbatim>\<open>journal\<close>, \<^verbatim>\<open>cli\<close>, \<^verbatim>\<open>dispatch\<close>, \<^verbatim>\<open>service\<close>). The rest of the repository
  (analyzers, the corpus and change-evidence tools, \<^verbatim>\<open>contextindex\<close>, \<^verbatim>\<open>liveverify\<close>, the commands) is
  a separate program around this store.

  \<^bold>\<open>Plan.\<close> The codec of an outcome, the adoption of an edited file, the recomputation of the
  credits of a report, the lease and attempt state machine of \<^verbatim>\<open>transaction\<close>, and the replay of the journal.
\<close>

end
